(* ===== verification/Prelude.thy ===== *)
theory Prelude
  imports Main "HOL-Library.Word" "HOL-Library.Monad_Syntax"
begin

text \<open>
  The types, constants and generic lemmas that every component of the firmware model shares:
  bytes and half-words, bounds-checked reads of C buffers, little-endian values, flat memories
  (total functions from addresses to bytes), unsigned 32-bit subtraction with its wrap-around
  written out, and the return codes of \<^verbatim>\<open>pico_keys.h\<close>.

  Conventions.  A C buffer is the list of the bytes that are physically there; a read outside of it
  is the value \<open>None\<close> of an \<open>option\<close>, never an unspecified byte.  Addresses, sizes and offsets
  (\<^verbatim>\<open>uintptr_t\<close> and \<^verbatim>\<open>size_t\<close>, 4 bytes on the RP2040) are \<open>nat\<close>; where the code can
  wrap around, the wrap is written out.  Return codes are \<open>int\<close>, with the values of the macros.
\<close>

unbundle bit_operations_syntax

type_synonym u8 = "8 word"
type_synonym u16 = "16 word"
type_synonym u32 = "32 word"
type_synonym u64 = "64 word"
type_synonym bytes = "u8 list"
type_synonym mem = "nat \<Rightarrow> u8"

named_theorems mem_simps
named_theorems buf_simps

section \<open>Return codes\<close>

definition CCID_OK :: int where "CCID_OK = 0"
definition CCID_ERR_NO_MEMORY :: int where "CCID_ERR_NO_MEMORY = - 1000"
definition CCID_ERR_MEMORY_FATAL :: int where "CCID_ERR_MEMORY_FATAL = - 1001"
definition CCID_ERR_NULL_PARAM :: int where "CCID_ERR_NULL_PARAM = - 1002"
definition CCID_ERR_FILE_NOT_FOUND :: int where "CCID_ERR_FILE_NOT_FOUND = - 1003"
definition CCID_EXEC_ERROR :: int where "CCID_EXEC_ERROR = - 1006"

lemmas ccid_defs = CCID_OK_def CCID_ERR_NO_MEMORY_def CCID_ERR_MEMORY_FATAL_def
  CCID_ERR_NULL_PARAM_def CCID_ERR_FILE_NOT_FOUND_def CCID_EXEC_ERROR_def

section \<open>Buffers: reads that may leave the buffer\<close>

definition rd :: "'a list \<Rightarrow> nat \<Rightarrow> 'a option" where
  "rd b i = (if i < length b then Some (b ! i) else None)"

definition rd_slice :: "'a list \<Rightarrow> nat \<Rightarrow> nat \<Rightarrow> 'a list option" where
  "rd_slice b off n = (if off + n \<le> length b then Some (take n (drop off b)) else None)"

text \<open>\<^verbatim>\<open>memcpy(b + off, src, n)\<close>: the destination must have the room.\<close>

definition wr_slice :: "'a list \<Rightarrow> nat \<Rightarrow> 'a list \<Rightarrow> 'a list option" where
  "wr_slice b off src =
     (if off + length src \<le> length b
      then Some (take off b @ src @ drop (off + length src) b) else None)"

lemma rd_Some [buf_simps]: "i < length b \<Longrightarrow> rd b i = Some (b ! i)"
  by (simp add: rd_def)

lemma rd_None [buf_simps]: "length b \<le> i \<Longrightarrow> rd b i = None"
  by (simp add: rd_def)

lemma rd_eq_Some: "rd b i = Some x \<longleftrightarrow> i < length b \<and> b ! i = x"
  by (auto simp: rd_def)

lemma rd_slice_eq_Some: "rd_slice b off n = Some s \<longleftrightarrow> off + n \<le> length b \<and> s = take n (drop off b)"
  by (auto simp: rd_slice_def)

lemma rd_slice_length: "rd_slice b off n = Some s \<Longrightarrow> length s = n"
  by (auto simp: rd_slice_eq_Some)

lemma rd_slice_rd: "rd_slice b off n = Some v \<Longrightarrow> i < n \<Longrightarrow> rd b (off + i) = Some (v ! i)"
  by (auto simp: rd_slice_eq_Some rd_def)

lemma rd_append2 [buf_simps]: "rd (xs @ y # ys) (length xs) = Some y"
  by (simp add: rd_def)

lemma wr_slice_length: "wr_slice b off src = Some b' \<Longrightarrow> length b' = length b"
  by (auto simp: wr_slice_def split: if_splits)

lemma wr_slice_rd_slice:
  "wr_slice b off src = Some b' \<Longrightarrow> rd_slice b' off (length src) = Some src"
  by (auto simp: wr_slice_def rd_slice_def min_def split: if_splits)

section \<open>Little-endian values\<close>

fun le_bytes :: "nat \<Rightarrow> nat \<Rightarrow> bytes" where
  "le_bytes 0 v = []"
| "le_bytes (Suc n) v = of_nat (v mod 256) # le_bytes n (v div 256)"

fun le_val :: "bytes \<Rightarrow> nat" where
  "le_val [] = 0"
| "le_val (b # bs) = unat b + 256 * le_val bs"

lemma byte_bound: "unat (b :: u8) < 256"
  using unsigned_less [of b, where ?'a = nat] by simp

lemma unat_small_byte: "n < 256 \<Longrightarrow> unat (of_nat n :: u8) = n"
  by (simp add: unat_of_nat)

lemma length_le_bytes [simp]: "length (le_bytes n v) = n"
  by (induction n arbitrary: v) auto

lemma unat_of_nat_byte [simp]: "unat (of_nat (v mod 256) :: u8) = v mod 256"
  by (simp add: unat_of_nat)

lemma le_val_le_bytes: "le_val (le_bytes n v) = v mod 256 ^ n"
proof (induction n arbitrary: v)
  case 0
  then show ?case by simp
next
  case (Suc n)
  have "v mod 256 + 256 * (v div 256 mod 256 ^ n) = v mod (256 * 256 ^ n)"
    by (simp add: mod_mult2_eq)
  with Suc show ?case by simp
qed

lemma le_val_le_bytes_id: "v < 256 ^ n \<Longrightarrow> le_val (le_bytes n v) = v"
  by (simp add: le_val_le_bytes)

lemma le_val_bound: "le_val bs < 256 ^ length bs"
proof (induction bs)
  case Nil
  then show ?case by simp
next
  case (Cons b bs)
  have "unat b < 256" by (rule byte_bound)
  with Cons show ?case by (simp add: algebra_simps)
qed

lemma unat_ucast_u16 [simp]: "unat (ucast (b :: u8) :: u16) = unat b"
proof -
  have "unat b < 2 ^ 16" using byte_bound [of b] by simp
  then show ?thesis by (simp add: unsigned_ucast_eq take_bit_nat_eq_self)
qed

section \<open>Flat memories\<close>

definition get_bytes :: "mem \<Rightarrow> nat \<Rightarrow> nat \<Rightarrow> bytes" where
  "get_bytes m a n = map m [a ..< a + n]"

definition put_bytes :: "mem \<Rightarrow> nat \<Rightarrow> bytes \<Rightarrow> mem" where
  "put_bytes m a bs = (\<lambda>i. if a \<le> i \<and> i < a + length bs then bs ! (i - a) else m i)"

lemma length_get_bytes [simp]: "length (get_bytes m a n) = n"
  by (simp add: get_bytes_def)

lemma get_put_same [mem_simps]: "n = length bs \<Longrightarrow> get_bytes (put_bytes m a bs) a n = bs"
  by (auto simp: get_bytes_def put_bytes_def intro: nth_equalityI)

lemma get_put_other [mem_simps]:
  "b + n \<le> a \<or> a + length bs \<le> b \<Longrightarrow> get_bytes (put_bytes m a bs) b n = get_bytes m b n"
  by (auto simp: get_bytes_def put_bytes_def)

lemma get_bytes_cong:
  "(\<And>i. a \<le> i \<Longrightarrow> i < a + n \<Longrightarrow> m i = m' i) \<Longrightarrow> get_bytes m a n = get_bytes m' a n"
  by (simp add: get_bytes_def)

lemma put_bytes_Nil [simp]: "put_bytes m a [] = m"
  by (rule ext) (auto simp: put_bytes_def)

lemma put_bytes_outside: "i < a \<or> a + length bs \<le> i \<Longrightarrow> put_bytes m a bs i = m i"
  by (auto simp: put_bytes_def)

section \<open>Unsigned 32-bit subtraction\<close>

definition sub32 :: "nat \<Rightarrow> nat \<Rightarrow> nat" where
  "sub32 a b = (a + 2 ^ 32 - b mod 2 ^ 32) mod 2 ^ 32"

lemma sub32_exact:
  assumes "b \<le> a" and "a < 2 ^ 32"
  shows "sub32 a b = a - b"
proof -
  have "a + 2 ^ 32 - b = (a - b) + 2 ^ 32" using assms by simp
  moreover have "a - b < 2 ^ 32" using assms by simp
  moreover have "b mod 2 ^ 32 = b" using assms by simp
  ultimately have "sub32 a b = ((a - b) + 2 ^ 32) mod 2 ^ 32" unfolding sub32_def by metis
  also have "\<dots> = a - b" using \<open>a - b < 2 ^ 32\<close> by (simp only: mod_add_self2 mod_less)
  finally show ?thesis .
qed

section \<open>Big-endian half-words and 32-bit words\<close>

definition make_uint16_t :: "u8 \<Rightarrow> u8 \<Rightarrow> u16" where
  "make_uint16_t b1 b2 = push_bit 8 (ucast b1) OR ucast b2"

definition put_uint16_t :: "u16 \<Rightarrow> bytes" where
  "put_uint16_t n = [ucast (drop_bit 8 n), ucast n]"

lemma make_put_uint16: "make_uint16_t (ucast (drop_bit 8 n)) (ucast n) = n"
proof (rule bit_word_eqI)
  fix k :: nat
  assume "k < LENGTH(16)"
  then show "bit (make_uint16_t (ucast (drop_bit 8 n)) (ucast n)) k = bit n k"
    by (auto simp: make_uint16_t_def bit_simps)
qed

end
