(* ===== verification/Asn1.thy ===== *)
theory Asn1
  imports Prelude
begin

text \<open>
  The TLV codec of \<^verbatim>\<open>pico-keys-sdk/src/asn1.c\<close>.  A buffer is the list \<open>mem\<close> of the bytes that are
  physically readable from \<^verbatim>\<open>cdata\<close>; \<open>cdata_len\<close> is the length the caller claims.  The cursor
  \<open>p\<close> is an offset from \<^verbatim>\<open>cdata\<close>, \<open>None\<close> for the NULL pointer the callers start with.  A result
  \<open>None\<close> says that the code reads a byte outside of \<open>mem\<close>.
\<close>

section \<open>Definitions\<close>

record tlv =
  tlv_tag :: u16
  tlv_len :: nat
  tlv_data :: nat
  tlv_next :: nat

text \<open>The bytes \<^verbatim>\<open>format_tlv_len\<close> writes; what it returns is their number.\<close>

definition format_tlv_len :: "nat \<Rightarrow> bytes" where
  "format_tlv_len len =
     (if len < 128 then [of_nat len]
      else if len < 256 then [0x81, of_nat len]
      else [0x82, of_nat (len div 256 mod 256), of_nat (len mod 256)])"

definition asn1_len_tag :: "u16 \<Rightarrow> nat \<Rightarrow> nat" where
  "asn1_len_tag tag len =
     (let ret = 1 + length (format_tlv_len len) + len
      in if tag > 0x00ff then ret + 1 else ret)"

definition walk_tlv :: "bytes \<Rightarrow> nat \<Rightarrow> nat option \<Rightarrow> tlv option option" where
  "walk_tlv mem cdata_len p =
     (let p0 = (case p of None \<Rightarrow> 0 | Some q \<Rightarrow> q) in
      if p0 \<ge> cdata_len then Some None
      else do {
        b0 \<leftarrow> rd mem p0;
        (tg, p1) \<leftarrow>
          (if b0 AND 0x1f = 0x1f
           then do {
             b1 \<leftarrow> rd mem (p0 + 1);
             Some (push_bit 8 (ucast b0 :: u16) OR ucast b1, p0 + 2)
           }
           else Some (ucast b0, p0 + 1));
        l0 \<leftarrow> rd mem p1;
        (tgl, p2) \<leftarrow>
          (if l0 = 0x82
           then do {
             h \<leftarrow> rd mem (p1 + 1);
             l \<leftarrow> rd mem (p1 + 2);
             Some (256 * unat h + unat l, p1 + 3)
           }
           else if l0 = 0x81
           then do {
             l \<leftarrow> rd mem (p1 + 1);
             Some (unat l, p1 + 2)
           }
           else Some (unat l0, p1 + 1));
        Some (Some \<lparr>tlv_tag = tg, tlv_len = tgl, tlv_data = p2, tlv_next = p2 + tgl\<rparr>)
      })"

text \<open>Every successful step moves the cursor by at least two bytes, so the loops below stop.\<close>

lemma walk_tlv_progress:
  assumes "walk_tlv mem len p = Some (Some t)"
  shows "(case p of None \<Rightarrow> 0 | Some q \<Rightarrow> q) < len \<and>
         (case p of None \<Rightarrow> 0 | Some q \<Rightarrow> q) + 2 \<le> tlv_data t \<and>
         tlv_next t = tlv_data t + tlv_len t"
  using assms
  by (auto simp: walk_tlv_def Let_def split: if_splits Option.bind_splits prod.splits)

function asn1_find_tag_from :: "bytes \<Rightarrow> nat \<Rightarrow> u16 \<Rightarrow> nat option \<Rightarrow> (nat \<times> nat) option option" where
  "asn1_find_tag_from mem data_len itag p =
     (case walk_tlv mem data_len p of
        None \<Rightarrow> None
      | Some None \<Rightarrow> Some None
      | Some (Some t) \<Rightarrow>
          if itag = tlv_tag t then Some (Some (tlv_len t, tlv_data t))
          else asn1_find_tag_from mem data_len itag (Some (tlv_next t)))"
  by pat_completeness auto
termination
proof (relation "measure (\<lambda>(mem, len, itag, p). len - (case p of None \<Rightarrow> 0 | Some q \<Rightarrow> q))")
  fix mem len itag p o1 t
  assume "walk_tlv mem len p = Some o1" and "o1 = Some t"
  then show "((mem, len, itag, Some (tlv_next t)), (mem, len, itag, p))
      \<in> measure (\<lambda>(mem, len, itag, p). len - (case p of None \<Rightarrow> 0 | Some q \<Rightarrow> q))"
    using walk_tlv_progress [of mem len p t] by auto
qed auto

declare asn1_find_tag_from.simps [simp del]

definition asn1_find_tag :: "bytes \<Rightarrow> nat \<Rightarrow> u16 \<Rightarrow> (nat \<times> nat) option option" where
  "asn1_find_tag mem data_len itag = asn1_find_tag_from mem data_len itag None"

section \<open>Encoding and decoding\<close>

text \<open>A data object as the callers write it: one tag byte, the length, the value.\<close>

definition tlv_bytes :: "u8 \<times> bytes \<Rightarrow> bytes" where
  "tlv_bytes tv = fst tv # format_tlv_len (length (snd tv)) @ snd tv"

definition tlv_ok :: "u8 \<times> bytes \<Rightarrow> bool" where
  "tlv_ok tv \<longleftrightarrow> fst tv AND 0x1f \<noteq> 0x1f \<and> length (snd tv) < 65536"

lemma format_tlv_len_length: "length (format_tlv_len n) = (if n < 128 then 1 else if n < 256 then 2 else 3)"
  by (simp add: format_tlv_len_def)

lemma length_tlv_bytes: "length (tlv_bytes tv) = asn1_len_tag (ucast (fst tv)) (length (snd tv))"
proof -
  have "unat (ucast (fst tv) :: u16) = unat (fst tv)"
    by (rule unat_ucast_u16)
  then have "unat (ucast (fst tv) :: u16) < 256"
    using byte_bound [of "fst tv"] by simp
  then have "\<not> (ucast (fst tv) :: u16) > 0x00ff"
    by (simp add: word_less_nat_alt not_less)
  then show ?thesis by (simp add: tlv_bytes_def asn1_len_tag_def)
qed

lemma rd_append_right: "rd (xs @ ys) (length xs + k) = rd ys k"
  by (auto simp: rd_def nth_append)

lemma rd_append_right0: "rd (xs @ ys) (length xs) = rd ys 0"
  using rd_append_right [of xs ys 0] by simp

text \<open>The length field: reading back what \<^verbatim>\<open>format_tlv_len\<close> wrote.\<close>

lemma walk_tlv_bytes:
  assumes ok: "tlv_ok tv" and len: "length pre < cdata_len"
  shows "walk_tlv (pre @ tlv_bytes tv @ post) cdata_len (Some (length pre)) =
     Some (Some \<lparr>tlv_tag = ucast (fst tv), tlv_len = length (snd tv),
       tlv_data = length pre + 1 + length (format_tlv_len (length (snd tv))),
       tlv_next = length pre + length (tlv_bytes tv)\<rparr>)"
proof -
  obtain t v where tv: "tv = (t, v)" by (cases tv)
  let ?n = "length v"
  have n: "?n < 65536" and t: "t AND 0x1f \<noteq> 0x1f"
    using ok by (auto simp: tlv_ok_def tv)
  have *: "of_nat ?n \<noteq> (0x82 :: u8)" "of_nat ?n \<noteq> (0x81 :: u8)" if "?n < 128"
  proof -
    have u: "unat (of_nat ?n :: u8) = ?n" using that by (simp add: unat_small_byte)
    show "of_nat ?n \<noteq> (0x82 :: u8)" using u that by auto
    show "of_nat ?n \<noteq> (0x81 :: u8)" using u that by auto
  qed
  have hi: "?n div 256 mod 256 = ?n div 256" using n by (simp add: less_mult_imp_div_less)
  show ?thesis
    using len t n hi *
    by (simp add: walk_tlv_def Let_def tv tlv_bytes_def format_tlv_len_def rd_append_right0
        rd_append_right add.assoc rd_def nth_append unat_small_byte)
qed

text \<open>The reference: the offset and the value of the first data object with a tag.\<close>

fun first_tlv :: "nat \<Rightarrow> u8 \<Rightarrow> (u8 \<times> bytes) list \<Rightarrow> (nat \<times> bytes) option" where
  "first_tlv off t [] = None"
| "first_tlv off t (tv # tvs) =
     (if fst tv = t then Some (off + 1 + length (format_tlv_len (length (snd tv))), snd tv)
      else first_tlv (off + length (tlv_bytes tv)) t tvs)"

definition tlvs_bytes :: "(u8 \<times> bytes) list \<Rightarrow> bytes" where
  "tlvs_bytes tvs = concat (map tlv_bytes tvs)"

lemma tlv_bytes_nonempty [simp]: "tlv_bytes tv \<noteq> []"
  by (simp add: tlv_bytes_def)

lemma ucast_u8_u16_inject [simp]: "(ucast (a :: u8) :: u16) = ucast b \<longleftrightarrow> a = b"
  by (metis unat_ucast_u16 word_eq_iff_unsigned)

lemma find_from_tlvs:
  assumes "list_all tlv_ok tvs"
  shows "asn1_find_tag_from (pre @ tlvs_bytes tvs @ post) (length pre + length (tlvs_bytes tvs))
           (ucast t) (Some (length pre)) =
         Some (map_option (\<lambda>(off, v). (length v, off)) (first_tlv (length pre) t tvs))"
  using assms
proof (induction tvs arbitrary: pre)
  case Nil
  then show ?case by (simp add: tlvs_bytes_def asn1_find_tag_from.simps walk_tlv_def)
next
  case (Cons tv tvs)
  have w: "walk_tlv (pre @ tlvs_bytes (tv # tvs) @ post)
      (length pre + length (tlvs_bytes (tv # tvs))) (Some (length pre)) =
    Some (Some \<lparr>tlv_tag = ucast (fst tv), tlv_len = length (snd tv),
       tlv_data = length pre + 1 + length (format_tlv_len (length (snd tv))),
       tlv_next = length pre + length (tlv_bytes tv)\<rparr>)"
    using Cons.prems walk_tlv_bytes [of tv pre "length pre + length (tlvs_bytes (tv # tvs))"
      "tlvs_bytes tvs @ post"]
    by (simp add: tlvs_bytes_def)
  have ih: "asn1_find_tag_from ((pre @ tlv_bytes tv) @ tlvs_bytes tvs @ post)
      (length (pre @ tlv_bytes tv) + length (tlvs_bytes tvs)) (ucast t)
      (Some (length (pre @ tlv_bytes tv))) =
    Some (map_option (\<lambda>(off, v). (length v, off)) (first_tlv (length (pre @ tlv_bytes tv)) t tvs))"
    using Cons.prems by (intro Cons.IH) simp
  show ?case
    by (subst asn1_find_tag_from.simps, subst w)
      (use ih in \<open>auto simp: tlvs_bytes_def add.assoc\<close>)
qed

lemma find_from_start:
  "asn1_find_tag_from mem len itag None = asn1_find_tag_from mem len itag (Some 0)"
  by (simp add: asn1_find_tag_from.simps [of mem len itag None]
      asn1_find_tag_from.simps [of mem len itag "Some 0"] walk_tlv_def)

lemma asn1_find_tag_tlvs:
  assumes "list_all tlv_ok tvs"
  shows "asn1_find_tag (tlvs_bytes tvs @ post) (length (tlvs_bytes tvs)) (ucast t) =
         Some (map_option (\<lambda>(off, v). (length v, off)) (first_tlv 0 t tvs))"
  using find_from_tlvs [OF assms, of "[]"] by (simp add: asn1_find_tag_def find_from_start)

lemma first_tlv_value:
  assumes "first_tlv (length pre) t tvs = Some (off, v)"
  shows "rd_slice (pre @ tlvs_bytes tvs @ post) off (length v) = Some v \<and> (t, v) \<in> set tvs"
  using assms
proof (induction tvs arbitrary: pre)
  case Nil
  then show ?case by simp
next
  case (Cons tv tvs)
  show ?case
  proof (cases "fst tv = t")
    case True
    with Cons.prems have "off = length pre + 1 + length (format_tlv_len (length v))" "snd tv = v"
      by auto
    with True show ?thesis
      by (cases tv) (auto simp: tlvs_bytes_def tlv_bytes_def rd_slice_def)
  next
    case False
    with Cons.prems have "first_tlv (length (pre @ tlv_bytes tv)) t tvs = Some (off, v)" by simp
    from Cons.IH [OF this] show ?thesis by (simp add: tlvs_bytes_def)
  qed
qed

text \<open>C15: what the encoder writes, the decoder finds.\<close>

theorem asn1_find_tag_roundtrip:
  assumes "list_all tlv_ok tvs"
  shows "\<exists>r. asn1_find_tag (tlvs_bytes tvs @ post) (length (tlvs_bytes tvs)) (ucast t) = Some r \<and>
     (case r of
        None \<Rightarrow> t \<notin> fst ` set tvs
      | Some (n, off) \<Rightarrow>
          rd_slice (tlvs_bytes tvs @ post) off n = map_of tvs t \<and> t \<in> fst ` set tvs)"
proof -
  have m: "map_of tvs t = map_option snd (first_tlv off t tvs)" for off
    by (induction tvs arbitrary: off) auto
  have n: "first_tlv off t tvs = None \<longleftrightarrow> t \<notin> fst ` set tvs" for off
    by (induction tvs arbitrary: off) auto
  show ?thesis
  proof (cases "first_tlv 0 t tvs")
    case None
    with n show ?thesis by (auto simp: asn1_find_tag_tlvs [OF assms])
  next
    case (Some ov)
    obtain off v where ov: "ov = (off, v)" by (cases ov)
    from Some ov have "rd_slice (tlvs_bytes tvs @ post) off (length v) = Some v"
      using first_tlv_value [of "[]" t tvs off v post] by simp
    with Some ov m [of 0] n [of 0] show ?thesis
      by (auto simp: asn1_find_tag_tlvs [OF assms])
  qed
qed

definition sample_tlvs :: "(u8 \<times> bytes) list" where
  "sample_tlvs = [(0x71, [0x61, 0x62]), (0x73, [1, 6, 9])]"

theorem asn1_find_tag_roundtrip_witness:
  "\<exists>r. asn1_find_tag (tlvs_bytes sample_tlvs @ [0]) (length (tlvs_bytes sample_tlvs)) (ucast (0x73 :: u8))
        = Some r \<and>
     (case r of
        None \<Rightarrow> 0x73 \<notin> fst ` set sample_tlvs
      | Some (n, off) \<Rightarrow>
          rd_slice (tlvs_bytes sample_tlvs @ [0]) off n = map_of sample_tlvs 0x73 \<and>
          0x73 \<in> fst ` set sample_tlvs)"
  by (rule asn1_find_tag_roundtrip) (simp add: tlv_ok_def sample_tlvs_def)

section \<open>Memory safety\<close>

lemma walk_tlv_safe:
  assumes "cdata_len + 4 \<le> length mem"
  shows "walk_tlv mem cdata_len p \<noteq> None"
  using assms by (auto simp: walk_tlv_def Let_def rd_def split: option.splits)

text \<open>four readable bytes behind the claimed length are enough for every input, and the scan
  always ends; one byte less is not enough.\<close>

theorem asn1_find_tag_safe:
  assumes "data_len + 4 \<le> length mem"
  shows "asn1_find_tag mem data_len itag \<noteq> None"
proof -
  have "asn1_find_tag_from mem data_len itag p \<noteq> None" for p
    using assms
  proof (induction mem data_len itag p rule: asn1_find_tag_from.induct)
    case (1 mem data_len itag p)
    have "walk_tlv mem data_len p \<noteq> None" using "1.prems" by (rule walk_tlv_safe)
    with 1 show ?case
      by (subst asn1_find_tag_from.simps) (auto split: option.splits)
  qed
  then show ?thesis by (simp add: asn1_find_tag_def)
qed

theorem asn1_find_tag_safe_witness:
  "asn1_find_tag [0x1f, 0x01, 0x82, 0x00, 0x00] 1 0x71 \<noteq> None"
  by (rule asn1_find_tag_safe) simp

text \<open>Both bounds the callers would like are missing: the scan itself leaves a buffer that ends in
  the middle of a header, and the object it reports may end outside of the buffer.\<close>

theorem asn1_find_tag_overreads:
  "asn1_find_tag [0x1f, 0x01, 0x82, 0x00] 1 0x71 = None \<and>
   asn1_find_tag [0x71, 0x40] 2 0x71 = Some (Some (64, 2))"
  by (simp add: asn1_find_tag_def asn1_find_tag_from.simps walk_tlv_def rd_def Let_def)

end
