(* ===== verification/LowFlash.thy ===== *)
theory LowFlash
  imports Prelude
begin

text \<open>
  The page cache between the file system and the flash chip,
  \<^verbatim>\<open>pico-keys-sdk/src/fs/low_flash.c\<close> in the firmware configuration (not \<^verbatim>\<open>ENABLE_EMULATION\<close>).
  The second core programs bytes into at most four cached sectors; the first core writes the cached
  sectors back in \<^verbatim>\<open>do_flash\<close>.  \<open>low\<close> is the state of the file: \<open>chip\<close> is the content of the flash
  as the XIP window shows it, the other fields are the static variables.  The critical sections are
  the operations (each is one step); \<^verbatim>\<open>flash_range_erase\<close> and \<^verbatim>\<open>flash_range_program\<close> of the Pico SDK
  are their documented effect on whole sectors.
\<close>

section \<open>State\<close>

definition FLASH_SECTOR_SIZE :: nat where "FLASH_SECTOR_SIZE = 4096"
definition TOTAL_FLASH_PAGES :: nat where "TOTAL_FLASH_PAGES = 4"

lemmas flash_sizes = FLASH_SECTOR_SIZE_def TOTAL_FLASH_PAGES_def

record page_flash =
  page :: mem
  address :: nat
  ready :: bool
  erase :: bool
  page_size :: nat

record low =
  chip :: mem
  flash_pages :: "page_flash list"
  ready_pages :: nat
  flash_available :: bool
  locked_out :: bool

text \<open>\<^verbatim>\<open>addr & -FLASH_SECTOR_SIZE\<close> and \<^verbatim>\<open>addr & (FLASH_SECTOR_SIZE - 1)\<close>\<close>

definition sector_of :: "nat \<Rightarrow> nat" where
  "sector_of addr = addr - addr mod FLASH_SECTOR_SIZE"

definition sector_off :: "nat \<Rightarrow> nat" where
  "sector_off addr = addr mod FLASH_SECTOR_SIZE"

definition occupied :: "page_flash \<Rightarrow> bool" where
  "occupied p \<longleftrightarrow> ready p \<or> erase p"

section \<open>Operations\<close>

definition empty_page :: page_flash where
  "empty_page = \<lparr>page = (\<lambda>_. 0), address = 0, ready = False, erase = False, page_size = 0\<rparr>"

definition low_flash_init :: "low \<Rightarrow> low" where
  "low_flash_init st = st\<lparr>flash_pages := replicate TOTAL_FLASH_PAGES empty_page\<rparr>"

definition low_flash_init_core1 :: "low \<Rightarrow> low" where
  "low_flash_init_core1 st = st\<lparr>locked_out := True\<rparr>"

definition low_flash_available :: "low \<Rightarrow> low" where
  "low_flash_available st = st\<lparr>flash_available := True\<rparr>"

text \<open>One round of the loop of \<^verbatim>\<open>do_flash\<close>.\<close>

definition erase_size :: "page_flash \<Rightarrow> nat" where
  "erase_size p = (if page_size p \<noteq> 0 then (page_size p div FLASH_SECTOR_SIZE) * FLASH_SECTOR_SIZE
                   else FLASH_SECTOR_SIZE)"

definition flush_slot :: "nat \<Rightarrow> low \<Rightarrow> low" where
  "flush_slot r st =
     (let p = flash_pages st ! r in
      if ready p then
        st\<lparr>chip := (\<lambda>a. if address p \<le> a \<and> a < address p + FLASH_SECTOR_SIZE
                         then page p (a - address p) else chip st a),
           flash_pages := (flash_pages st)[r := p\<lparr>ready := False\<rparr>],
           ready_pages := ready_pages st - 1\<rparr>
      else if erase p then
        st\<lparr>chip := (\<lambda>a. if address p \<le> a \<and> a < address p + erase_size p
                         then 0xff else chip st a),
           flash_pages := (flash_pages st)[r := p\<lparr>erase := False\<rparr>],
           ready_pages := ready_pages st - 1\<rparr>
      else st)"

definition do_flash :: "low \<Rightarrow> low" where
  "do_flash st =
     (let st1 = (if locked_out st \<and> flash_available st \<and> ready_pages st > 0
                 then fold flush_slot [0 ..< TOTAL_FLASH_PAGES] st else st)
      in st1\<lparr>flash_available := False\<rparr>)"

fun find_page_slot :: "page_flash list \<Rightarrow> nat \<Rightarrow> nat option" where
  "find_page_slot [] addr_alg = None"
| "find_page_slot (p # ps) addr_alg =
     (if (\<not> ready p \<and> \<not> erase p) \<or> address p = addr_alg then Some 0
      else map_option Suc (find_page_slot ps addr_alg))"

definition find_free_page :: "low \<Rightarrow> nat \<Rightarrow> (nat \<times> low) option" where
  "find_free_page st addr =
     (let addr_alg = sector_of addr in
      case find_page_slot (flash_pages st) addr_alg of
        None \<Rightarrow> None
      | Some r \<Rightarrow>
          (let p = flash_pages st ! r in
           if \<not> ready p \<and> \<not> erase p then
             Some (r, st\<lparr>flash_pages := (flash_pages st)
                            [r := p\<lparr>page := (\<lambda>i. chip st (addr_alg + i)), address := addr_alg,
                                     ready := True\<rparr>],
                         ready_pages := ready_pages st + 1\<rparr>)
           else Some (r, st)))"

text \<open>
  The result is \<open>None\<close> when the \<^verbatim>\<open>memcpy\<close> runs over the end of the cached sector into the fields
  behind it.  An empty \<open>data\<close> stands for both \<^verbatim>\<open>data == NULL\<close> and \<^verbatim>\<open>len == 0\<close>.
\<close>

definition flash_program_block :: "low \<Rightarrow> nat \<Rightarrow> bytes \<Rightarrow> (int \<times> low) option" where
  "flash_program_block st addr data =
     (if data = [] then Some (CCID_ERR_NULL_PARAM, st)
      else if ready_pages st = TOTAL_FLASH_PAGES then Some (CCID_ERR_NO_MEMORY, st)
      else case find_free_page st addr of
        None \<Rightarrow> Some (CCID_ERR_MEMORY_FATAL, st)
      | Some (r, st1) \<Rightarrow>
          if sector_off addr + length data > FLASH_SECTOR_SIZE then None
          else (let p = flash_pages st1 ! r in
                Some (CCID_OK, st1\<lparr>flash_pages := (flash_pages st1)
                        [r := p\<lparr>page := put_bytes (page p) (sector_off addr) data\<rparr>]\<rparr>)))"

definition flash_program_halfword :: "low \<Rightarrow> nat \<Rightarrow> nat \<Rightarrow> (int \<times> low) option" where
  "flash_program_halfword st addr v = flash_program_block st addr (le_bytes 2 v)"

definition flash_program_word :: "low \<Rightarrow> nat \<Rightarrow> nat \<Rightarrow> (int \<times> low) option" where
  "flash_program_word st addr v = flash_program_block st addr (le_bytes 4 v)"

definition flash_program_uintptr :: "low \<Rightarrow> nat \<Rightarrow> nat \<Rightarrow> (int \<times> low) option" where
  "flash_program_uintptr st addr v = flash_program_block st addr (le_bytes 4 v)"

text \<open>\<^verbatim>\<open>flash_read\<close> returns a pointer, into a cached sector or into the XIP window.\<close>

datatype flash_ptr = Cached nat nat | Xip nat

fun ptr_add :: "flash_ptr \<Rightarrow> nat \<Rightarrow> flash_ptr" where
  "ptr_add (Cached r off) i = Cached r (off + i)"
| "ptr_add (Xip a) i = Xip (a + i)"

fun deref :: "low \<Rightarrow> flash_ptr \<Rightarrow> u8 option" where
  "deref st (Cached r off) =
     (if off < FLASH_SECTOR_SIZE then Some (page (flash_pages st ! r) off) else None)"
| "deref st (Xip a) = Some (chip st a)"

fun find_ready_slot :: "page_flash list \<Rightarrow> nat \<Rightarrow> nat option" where
  "find_ready_slot [] addr_alg = None"
| "find_ready_slot (p # ps) addr_alg =
     (if ready p \<and> address p = addr_alg then Some 0
      else map_option Suc (find_ready_slot ps addr_alg))"

definition flash_read :: "low \<Rightarrow> nat \<Rightarrow> flash_ptr" where
  "flash_read st addr =
     (if ready_pages st > 0 then
        (case find_ready_slot (flash_pages st) (sector_of addr) of
           Some r \<Rightarrow> Cached r (sector_off addr)
         | None \<Rightarrow> Xip addr)
      else Xip addr)"

definition read_ptr :: "low \<Rightarrow> flash_ptr \<Rightarrow> nat \<Rightarrow> bytes option" where
  "read_ptr st q n = those (map (\<lambda>i. deref st (ptr_add q i)) [0 ..< n])"

definition flash_read_bytes :: "low \<Rightarrow> nat \<Rightarrow> nat \<Rightarrow> bytes option" where
  "flash_read_bytes st addr n = read_ptr st (flash_read st addr) n"

definition flash_read_uintptr :: "low \<Rightarrow> nat \<Rightarrow> nat option" where
  "flash_read_uintptr st addr = map_option le_val (flash_read_bytes st addr 4)"

definition flash_read_uint16 :: "low \<Rightarrow> nat \<Rightarrow> nat option" where
  "flash_read_uint16 st addr = map_option le_val (flash_read_bytes st addr 2)"

definition flash_read_uint8 :: "low \<Rightarrow> nat \<Rightarrow> u8 option" where
  "flash_read_uint8 st addr = deref st (flash_read st addr)"

definition flash_erase_page :: "low \<Rightarrow> nat \<Rightarrow> nat \<Rightarrow> int \<times> low" where
  "flash_erase_page st addr psize =
     (if ready_pages st = TOTAL_FLASH_PAGES then (CCID_ERR_NO_MEMORY, st)
      else case find_free_page st addr of
        None \<Rightarrow> (CCID_ERR_MEMORY_FATAL, st)
      | Some (r, st1) \<Rightarrow>
          (CCID_OK, st1\<lparr>flash_pages := (flash_pages st1)
             [r := (flash_pages st1 ! r)\<lparr>erase := True, ready := False, page_size := psize\<rparr>]\<rparr>))"

definition flash_check_blank :: "bytes \<Rightarrow> bool" where
  "flash_check_blank bs = list_all (\<lambda>b. b = 0xff) bs"

section \<open>The invariant of the cache and the memory it shows\<close>

text \<open>
  The occupied slots are the first \<open>ready_pages\<close> ones and cache different sectors.
\<close>

definition low_inv :: "low \<Rightarrow> bool" where
  "low_inv st \<longleftrightarrow>
     length (flash_pages st) = 4 \<and> ready_pages st \<le> 4 \<and>
     (\<forall>r < 4. occupied (flash_pages st ! r) \<longleftrightarrow> r < ready_pages st) \<and>
     (\<forall>r < ready_pages st. address (flash_pages st ! r) mod 4096 = 0) \<and>
     (\<forall>i < ready_pages st. \<forall>j < ready_pages st.
        address (flash_pages st ! i) = address (flash_pages st ! j) \<longrightarrow> i = j)"

definition no_erase :: "low \<Rightarrow> bool" where
  "no_erase st \<longleftrightarrow> (\<forall>r < 4. \<not> erase (flash_pages st ! r))"

definition cached_sectors :: "low \<Rightarrow> nat set" where
  "cached_sectors st = (\<lambda>r. address (flash_pages st ! r)) ` {..< ready_pages st}"

definition view :: "low \<Rightarrow> mem" where
  "view st a =
     (case find_ready_slot (flash_pages st) (sector_of a) of
        Some r \<Rightarrow> page (flash_pages st ! r) (sector_off a)
      | None \<Rightarrow> chip st a)"

text \<open>The state in which the sectors of a set \<open>T\<close> can all be cached, so no write is refused.\<close>

definition low_ok :: "low \<Rightarrow> nat set \<Rightarrow> bool" where
  "low_ok st T \<longleftrightarrow> low_inv st \<and> no_erase st \<and> finite T \<and> card (cached_sectors st \<union> T) < 4"

lemma sector_off_less [simp]: "sector_off a < 4096"
  by (simp add: sector_off_def flash_sizes)

lemma sector_split: "sector_of a + sector_off a = a"
  by (simp add: sector_of_def sector_off_def flash_sizes)

lemma sector_of_mod [simp]: "sector_of a mod 4096 = 0"
  by (simp add: sector_of_def flash_sizes minus_mod_eq_mult_div)

lemma sector_add: "sector_off a + k < 4096 \<Longrightarrow> sector_of (a + k) = sector_of a"
  and sector_off_add: "sector_off a + k < 4096 \<Longrightarrow> sector_off (a + k) = sector_off a + k"
proof -
  assume k: "sector_off a + k < 4096"
  have "(a + k) mod 4096 = (a mod 4096 + k) mod 4096" by (simp add: mod_add_left_eq)
  then have *: "(a + k) mod 4096 = a mod 4096 + k"
    using k by (simp add: sector_off_def flash_sizes)
  then show "sector_off (a + k) = sector_off a + k" by (simp add: sector_off_def flash_sizes)
  from * show "sector_of (a + k) = sector_of a" by (simp add: sector_of_def flash_sizes)
qed

lemma in_sector: "s mod 4096 = 0 \<Longrightarrow> s \<le> a \<Longrightarrow> a < s + 4096 \<Longrightarrow> sector_of a = s \<and> sector_off a = a - s"
proof -
  assume "s mod 4096 = 0" and a: "s \<le> a" "a < s + 4096"
  then obtain k where s: "s = 4096 * k" by (auto simp: mod_eq_0_iff_dvd dvd_def)
  have "a mod 4096 = a - s"
  proof -
    have "a = (a - s) + 4096 * k" using a s by simp
    then have "a mod 4096 = (a - s) mod 4096" by (metis mod_mult_self2)
    then show ?thesis using a by simp
  qed
  then show ?thesis using a by (simp add: sector_of_def sector_off_def flash_sizes)
qed

lemma find_page_slot_Some:
  "find_page_slot ps a = Some r \<longleftrightarrow>
     r < length ps \<and> (\<not> occupied (ps ! r) \<or> address (ps ! r) = a) \<and>
     (\<forall>j < r. occupied (ps ! j) \<and> address (ps ! j) \<noteq> a)"
proof (induction ps arbitrary: r)
  case Nil
  then show ?case by simp
next
  case (Cons p ps)
  show ?case
    by (cases r) (auto simp: occupied_def Cons.IH less_Suc_eq_0_disj)
qed

lemma find_page_slot_None:
  "find_page_slot ps a = None \<longleftrightarrow> (\<forall>j < length ps. occupied (ps ! j) \<and> address (ps ! j) \<noteq> a)"
  by (induction ps) (auto simp: occupied_def less_Suc_eq_0_disj)

lemma find_ready_slot_Some:
  "find_ready_slot ps a = Some r \<longleftrightarrow>
     r < length ps \<and> ready (ps ! r) \<and> address (ps ! r) = a \<and>
     (\<forall>j < r. \<not> (ready (ps ! j) \<and> address (ps ! j) = a))"
proof (induction ps arbitrary: r)
  case Nil
  then show ?case by simp
next
  case (Cons p ps)
  show ?case by (cases r) (auto simp: Cons.IH less_Suc_eq_0_disj)
qed

lemma find_ready_slot_None:
  "find_ready_slot ps a = None \<longleftrightarrow> (\<forall>j < length ps. \<not> (ready (ps ! j) \<and> address (ps ! j) = a))"
  by (induction ps) (auto simp: less_Suc_eq_0_disj)


section \<open>Programming and reading under the invariant\<close>

lemma low_inv_ready:
  assumes "low_inv st" "no_erase st" "r < 4"
  shows "ready (flash_pages st ! r) \<longleftrightarrow> r < ready_pages st"
  using assms by (auto simp: low_inv_def no_erase_def occupied_def)

lemma ready_slot_iff:
  assumes "low_inv st" "no_erase st"
  shows "find_ready_slot (flash_pages st) s = Some r \<longleftrightarrow>
           r < ready_pages st \<and> address (flash_pages st ! r) = s"
proof
  assume "find_ready_slot (flash_pages st) s = Some r"
  then show "r < ready_pages st \<and> address (flash_pages st ! r) = s"
    using assms low_inv_ready [OF assms] by (auto simp: find_ready_slot_Some low_inv_def)
next
  assume r: "r < ready_pages st \<and> address (flash_pages st ! r) = s"
  then have "r < 4" using assms by (auto simp: low_inv_def)
  have l: "length (flash_pages st) = 4"
    and dist: "\<And>j. j < ready_pages st \<Longrightarrow> address (flash_pages st ! j) = address (flash_pages st ! r) \<Longrightarrow> j = r"
    using assms r by (auto simp: low_inv_def)
  have "\<not> (ready (flash_pages st ! j) \<and> address (flash_pages st ! j) = s)" if "j < r" for j
    using that r dist [of j] by auto
  moreover have "ready (flash_pages st ! r)"
    using low_inv_ready [OF assms \<open>r < 4\<close>] r by simp
  ultimately show "find_ready_slot (flash_pages st) s = Some r"
    using r l \<open>r < 4\<close> by (simp add: find_ready_slot_Some)
qed

lemma cached_sectorsI:
  "r < ready_pages st \<Longrightarrow> address (flash_pages st ! r) = s \<Longrightarrow> s \<in> cached_sectors st"
  by (auto simp: cached_sectors_def)

lemma ready_slot_None_iff:
  assumes "low_inv st" "no_erase st"
  shows "find_ready_slot (flash_pages st) s = None \<longleftrightarrow> s \<notin> cached_sectors st"
proof (cases "find_ready_slot (flash_pages st) s")
  case None
  then have "\<And>r. \<not> (r < ready_pages st \<and> address (flash_pages st ! r) = s)"
    using ready_slot_iff [OF assms, of s] by simp
  with None show ?thesis by (auto simp: cached_sectors_def)
next
  case (Some r)
  then have "r < ready_pages st \<and> address (flash_pages st ! r) = s"
    using ready_slot_iff [OF assms] by blast
  with Some show ?thesis by (auto intro: cached_sectorsI)
qed

lemma card_cached_sectors:
  assumes "low_inv st"
  shows "card (cached_sectors st) = ready_pages st" and "finite (cached_sectors st)"
proof -
  have "inj_on (\<lambda>r. address (flash_pages st ! r)) {..< ready_pages st}"
    using assms by (auto simp: low_inv_def inj_on_def)
  then show "card (cached_sectors st) = ready_pages st"
    by (simp add: cached_sectors_def card_image)
qed (simp add: cached_sectors_def)

lemma view_cached:
  assumes "low_inv st" "no_erase st" "r < ready_pages st" "address (flash_pages st ! r) = sector_of a"
  shows "view st a = page (flash_pages st ! r) (sector_off a)"
proof -
  have "find_ready_slot (flash_pages st) (sector_of a) = Some r"
    using ready_slot_iff [OF assms(1,2)] assms(3,4) by blast
  then show ?thesis by (simp add: view_def)
qed

lemma view_uncached:
  assumes "low_inv st" "no_erase st" "sector_of a \<notin> cached_sectors st"
  shows "view st a = chip st a"
  using ready_slot_None_iff [OF assms(1,2), of "sector_of a"] assms(3) by (simp add: view_def)

lemma cached_sector_cases:
  assumes "s \<in> cached_sectors st"
  obtains r where "r < ready_pages st" "address (flash_pages st ! r) = s"
  using assms by (auto simp: cached_sectors_def)

text \<open>Caching a sector: a slot is found, the shown memory does not change.\<close>

lemma find_free_page_spec:
  assumes inv: "low_inv st" and ne: "no_erase st" and room: "ready_pages st < 4"
  shows "\<exists>r st'. find_free_page st addr = Some (r, st') \<and> low_inv st' \<and> no_erase st' \<and>
           r < ready_pages st' \<and> address (flash_pages st' ! r) = sector_of addr \<and>
           cached_sectors st' = insert (sector_of addr) (cached_sectors st) \<and>
           view st' = view st \<and> chip st' = chip st"
proof (cases "sector_of addr \<in> cached_sectors st")
  case True
  then obtain r where r: "r < ready_pages st" "address (flash_pages st ! r) = sector_of addr"
    by (rule cached_sector_cases)
  have occ: "\<And>j. j < ready_pages st \<Longrightarrow> occupied (flash_pages st ! j)" and l: "length (flash_pages st) = 4"
    and dist: "\<And>j. j < ready_pages st \<Longrightarrow> address (flash_pages st ! j) = address (flash_pages st ! r) \<Longrightarrow> j = r"
    using inv r by (auto simp: low_inv_def)
  have "find_page_slot (flash_pages st) (sector_of addr) = Some r"
    unfolding find_page_slot_Some using r occ l dist room by (metis less_trans less_irrefl)
  moreover have "occupied (flash_pages st ! r)" using occ r by simp
  ultimately have "find_free_page st addr = Some (r, st)"
    by (auto simp: find_free_page_def Let_def occupied_def)
  with inv ne r True show ?thesis by (intro exI [of _ r] exI [of _ st]) (simp add: insert_absorb)
next
  case False
  let ?n = "ready_pages st" and ?s = "sector_of addr"
  let ?p = "(flash_pages st ! ?n)\<lparr>page := (\<lambda>i. chip st (?s + i)), address := ?s, ready := True\<rparr>"
  let ?st = "st\<lparr>flash_pages := (flash_pages st)[?n := ?p], ready_pages := ?n + 1\<rparr>"
  have l: "length (flash_pages st) = 4" and no: "\<not> occupied (flash_pages st ! ?n)"
    and occ: "\<And>j. j < 4 \<Longrightarrow> occupied (flash_pages st ! j) \<longleftrightarrow> j < ?n"
    and al: "\<And>j. j < ?n \<Longrightarrow> address (flash_pages st ! j) mod 4096 = 0"
    and dist: "\<And>i j. i < ?n \<Longrightarrow> j < ?n \<Longrightarrow>
      address (flash_pages st ! i) = address (flash_pages st ! j) \<Longrightarrow> i = j"
    using inv room by (auto simp: low_inv_def)
  have new: "\<And>j. j < ?n \<Longrightarrow> address (flash_pages st ! j) \<noteq> ?s"
    and new': "\<And>j. j < ?n \<Longrightarrow> ?s \<noteq> address (flash_pages st ! j)"
    using False cached_sectorsI by metis+
  have "find_page_slot (flash_pages st) ?s = Some ?n"
    unfolding find_page_slot_Some using l no room occ new by auto
  with no have f: "find_free_page st addr = Some (?n, ?st)"
    by (simp add: find_free_page_def Let_def occupied_def)
  have inv': "low_inv ?st"
    unfolding low_inv_def using l room occ al dist new new'
    by (auto simp: nth_list_update occupied_def less_Suc_eq)
  have ne': "no_erase ?st"
    using ne no room by (auto simp: no_erase_def nth_list_update l)
  have c: "cached_sectors ?st = insert ?s (cached_sectors st)"
    using l room by (auto simp: cached_sectors_def lessThan_Suc nth_list_update)
  have v: "view ?st a = view st a" for a
  proof (cases "sector_of a = ?s")
    case True
    then have "view ?st a = page (flash_pages ?st ! ?n) (sector_off a)"
      using l room by (intro view_cached [OF inv' ne']) auto
    also have "\<dots> = chip st a"
      using l room sector_split [of a] True by simp
    also have "\<dots> = view st a"
      using view_uncached [OF inv ne] False True by simp
    finally show ?thesis .
  next
    case neq: False
    show ?thesis
    proof (cases "sector_of a \<in> cached_sectors st")
      case True
      then obtain r where "r < ?n" "address (flash_pages st ! r) = sector_of a"
        by (rule cached_sector_cases)
      then show ?thesis
        using view_cached [OF inv ne, of r a] view_cached [OF inv' ne', of r a] by simp
    next
      case False
      with neq c have "sector_of a \<notin> cached_sectors ?st" by simp
      then show ?thesis
        using view_uncached [OF inv' ne', of a] view_uncached [OF inv ne False] by simp
    qed
  qed
  show ?thesis
    using f inv' ne' c v l room by (intro exI [of _ ?n] exI [of _ ?st]) auto
qed

text \<open>Programming bytes inside of a sector.\<close>

lemma flash_program_block_spec:
  assumes inv: "low_inv st" and ne: "no_erase st" and room: "ready_pages st < 4"
    and data: "data \<noteq> []" and fits: "sector_off addr + length data \<le> 4096"
  shows "\<exists>st'. flash_program_block st addr data = Some (CCID_OK, st') \<and> low_inv st' \<and> no_erase st' \<and>
           view st' = put_bytes (view st) addr data \<and>
           cached_sectors st' = insert (sector_of addr) (cached_sectors st) \<and> chip st' = chip st"
proof -
  obtain r st1 where f: "find_free_page st addr = Some (r, st1)" and inv1: "low_inv st1"
    and ne1: "no_erase st1" and r: "r < ready_pages st1"
    and ad: "address (flash_pages st1 ! r) = sector_of addr"
    and c1: "cached_sectors st1 = insert (sector_of addr) (cached_sectors st)"
    and v1: "view st1 = view st" and ch: "chip st1 = chip st"
    using find_free_page_spec [OF inv ne room, of addr] by blast
  let ?p = "flash_pages st1 ! r"
  let ?st = "st1\<lparr>flash_pages := (flash_pages st1)
               [r := ?p\<lparr>page := put_bytes (page ?p) (sector_off addr) data\<rparr>]\<rparr>"
  have l: "length (flash_pages st1) = 4" "r < 4" using inv1 r by (auto simp: low_inv_def)
  have b: "flash_program_block st addr data = Some (CCID_OK, ?st)"
    using data room f fits by (simp add: flash_program_block_def flash_sizes Let_def)
  have ad': "address (flash_pages ?st ! j) = address (flash_pages st1 ! j)"
    and rd': "ready (flash_pages ?st ! j) = ready (flash_pages st1 ! j)"
    and er': "erase (flash_pages ?st ! j) = erase (flash_pages st1 ! j)" for j
    using l by (auto simp: nth_list_update)
  have inv': "low_inv ?st" using inv1 l unfolding low_inv_def occupied_def ad' rd' er' by simp
  have ne': "no_erase ?st" using ne1 unfolding no_erase_def er' .
  have c': "cached_sectors ?st = cached_sectors st1" unfolding cached_sectors_def ad' by simp
  have v: "view ?st a = put_bytes (view st) addr data a" for a
  proof (cases "sector_of a = sector_of addr")
    case True
    have "view ?st a = page (flash_pages ?st ! r) (sector_off a)"
      using r ad True ad' [of r] by (intro view_cached [OF inv' ne']) auto
    also have "\<dots> = put_bytes (page ?p) (sector_off addr) data (sector_off a)"
      using l by simp
    also have "\<dots> = put_bytes (view st) addr data a"
    proof -
      have "page ?p (sector_off a) = view st a"
        using view_cached [OF inv1 ne1 r, of a] ad True v1 by simp
      moreover have "sector_off addr \<le> sector_off a \<longleftrightarrow> addr \<le> a"
        "sector_off a < sector_off addr + length data \<longleftrightarrow> a < addr + length data"
        "sector_off addr \<le> sector_off a \<Longrightarrow> sector_off a - sector_off addr = a - addr"
        using sector_split [of a] sector_split [of addr] True by arith+
      ultimately show ?thesis by (auto simp: put_bytes_def)
    qed
    finally show ?thesis .
  next
    case False
    have "\<not> (addr \<le> a \<and> a < addr + length data)"
    proof
      assume a: "addr \<le> a \<and> a < addr + length data"
      then have "sector_of (addr + (a - addr)) = sector_of addr"
        using fits by (intro sector_add) auto
      with a False show False by simp
    qed
    then have "put_bytes (view st) addr data a = view st1 a" by (auto simp: put_bytes_def v1)
    moreover have "view ?st a = view st1 a"
    proof (cases "sector_of a \<in> cached_sectors st1")
      case True
      then obtain k where k: "k < ready_pages st1" "address (flash_pages st1 ! k) = sector_of a"
        by (rule cached_sector_cases)
      with False ad have "k \<noteq> r" by auto
      then show ?thesis
        using view_cached [OF inv1 ne1 k] view_cached [OF inv' ne', of k a] k ad' [of k] by simp
    next
      case False
      with c' show ?thesis
        using view_uncached [OF inv1 ne1 False] view_uncached [OF inv' ne', of a] by simp
    qed
    ultimately show ?thesis by simp
  qed
  show ?thesis using b inv' ne' c' c1 v ch by (intro exI [of _ ?st]) auto
qed

text \<open>Reading through the pointer of \<^verbatim>\<open>flash_read\<close>, inside of a sector.\<close>

lemma those_map_Some: "(\<And>x. x \<in> set xs \<Longrightarrow> f x = Some (g x)) \<Longrightarrow> those (map f xs) = Some (map g xs)"
  by (induction xs) auto

lemma flash_read_slot:
  assumes "low_inv st" "no_erase st"
  shows "flash_read st addr =
     (case find_ready_slot (flash_pages st) (sector_of addr) of
        Some r \<Rightarrow> Cached r (sector_off addr) | None \<Rightarrow> Xip addr)"
proof (cases "ready_pages st > 0")
  case True
  then show ?thesis by (simp add: flash_read_def)
next
  case False
  then have "sector_of addr \<notin> cached_sectors st" by (simp add: cached_sectors_def)
  with False show ?thesis
    using ready_slot_None_iff [OF assms, of "sector_of addr"] by (simp add: flash_read_def)
qed

lemma flash_read_bytes_spec:
  assumes inv: "low_inv st" and ne: "no_erase st" and fits: "sector_off addr + n \<le> 4096"
  shows "flash_read_bytes st addr n = Some (get_bytes (view st) addr n)"
proof -
  have "deref st (ptr_add (flash_read st addr) i) = Some (view st (addr + i))" if i: "i < n" for i
  proof -
    have s: "sector_of (addr + i) = sector_of addr" "sector_off (addr + i) = sector_off addr + i"
      using i fits by (auto intro!: sector_add sector_off_add)
    show ?thesis
      using i fits by (auto simp: flash_read_slot [OF inv ne] view_def s flash_sizes
          split: option.splits)
  qed
  then have "those (map (\<lambda>i. deref st (ptr_add (flash_read st addr) i)) [0 ..< n]) =
      Some (map (\<lambda>i. view st (addr + i)) [0 ..< n])"
    by (intro those_map_Some) simp
  also have "map (\<lambda>i. view st (addr + i)) [0 ..< n] = get_bytes (view st) addr n"
    by (simp add: get_bytes_def list_eq_iff_nth_eq)
  finally show ?thesis by (simp add: flash_read_bytes_def read_ptr_def)
qed

section \<open>Writing the cache back\<close>

definition flushed :: "nat \<Rightarrow> low \<Rightarrow> low \<Rightarrow> bool" where
  "flushed k st st' \<longleftrightarrow>
     length (flash_pages st') = 4 \<and>
     (\<forall>j < 4. page (flash_pages st' ! j) = page (flash_pages st ! j) \<and>
             address (flash_pages st' ! j) = address (flash_pages st ! j) \<and>
             \<not> erase (flash_pages st' ! j) \<and>
             (ready (flash_pages st' ! j) \<longleftrightarrow> k \<le> j \<and> j < ready_pages st)) \<and>
     ready_pages st' = ready_pages st - k \<and>
     chip st' = (\<lambda>a. if \<exists>j < k. j < ready_pages st \<and> address (flash_pages st ! j) = sector_of a
                     then view st a else chip st a)"

lemma flush_slot_step:
  assumes inv: "low_inv st" and ne: "no_erase st" and k: "k < 4" and fl: "flushed k st st'"
  shows "flushed (Suc k) st (flush_slot k st')"
proof (cases "k < ready_pages st")
  case True
  let ?p = "flash_pages st' ! k"
  have l: "length (flash_pages st') = 4" and rk: "ready ?p"
    and ak: "address ?p = address (flash_pages st ! k)" and pk: "page ?p = page (flash_pages st ! k)"
    using fl k True by (auto simp: flushed_def)
  have al: "address (flash_pages st ! k) mod 4096 = 0" using inv True by (auto simp: low_inv_def)
  have "chip (flush_slot k st') a =
      (if \<exists>j < Suc k. j < ready_pages st \<and> address (flash_pages st ! j) = sector_of a
       then view st a else chip st a)" for a
  proof (cases "address ?p \<le> a \<and> a < address ?p + 4096")
    case in_page: True
    then have s: "sector_of a = address (flash_pages st ! k)" "sector_off a = a - address (flash_pages st ! k)"
      using in_sector [OF al, of a] ak by auto
    have "chip (flush_slot k st') a = page ?p (a - address ?p)"
      using in_page rk by (simp add: flush_slot_def Let_def flash_sizes)
    also have "\<dots> = view st a"
      using view_cached [OF inv ne True, of a] s ak pk by simp
    finally show ?thesis using s True by auto
  next
    case False
    then have "address (flash_pages st ! k) \<noteq> sector_of a"
      using sector_split [of a] sector_off_less [of a] ak by linarith
    then have "(\<exists>j < Suc k. j < ready_pages st \<and> address (flash_pages st ! j) = sector_of a) \<longleftrightarrow>
        (\<exists>j < k. j < ready_pages st \<and> address (flash_pages st ! j) = sector_of a)"
      using less_Suc_eq by auto
    moreover have "chip (flush_slot k st') a = chip st' a"
      using False rk by (auto simp: flush_slot_def Let_def flash_sizes)
    ultimately show ?thesis using fl by (simp add: flushed_def)
  qed
  moreover have "\<forall>j < 4. page (flash_pages (flush_slot k st') ! j) = page (flash_pages st ! j) \<and>
      address (flash_pages (flush_slot k st') ! j) = address (flash_pages st ! j) \<and>
      \<not> erase (flash_pages (flush_slot k st') ! j) \<and>
      (ready (flash_pages (flush_slot k st') ! j) \<longleftrightarrow> Suc k \<le> j \<and> j < ready_pages st)"
    using fl rk l k by (auto simp: flush_slot_def Let_def flushed_def nth_list_update)
  moreover have "ready_pages (flush_slot k st') = ready_pages st - Suc k"
    using fl rk by (simp add: flush_slot_def Let_def flushed_def)
  ultimately show ?thesis
    using l by (auto simp: flushed_def flush_slot_def Let_def)
next
  case False
  then have "\<not> ready (flash_pages st' ! k)" "\<not> erase (flash_pages st' ! k)"
    using fl k by (auto simp: flushed_def)
  then have "flush_slot k st' = st'" by (simp add: flush_slot_def Let_def)
  moreover have "(\<exists>j < Suc k. j < ready_pages st \<and> P j) \<longleftrightarrow> (\<exists>j < k. j < ready_pages st \<and> P j)" for P
    using False less_Suc_eq by auto
  ultimately show ?thesis using fl False by (auto simp: flushed_def)
qed

lemma flush_all:
  assumes inv: "low_inv st" and ne: "no_erase st"
  shows "k \<le> 4 \<Longrightarrow> flushed k st (fold flush_slot [0 ..< k] st)"
proof (induction k)
  case 0
  have "low_inv st" "no_erase st" by fact+
  then show ?case
    using low_inv_ready [OF inv ne] by (auto simp: flushed_def low_inv_def no_erase_def)
next
  case (Suc k)
  then show ?case using flush_slot_step [OF inv ne] by simp
qed

lemma view_flag [simp]: "view (st\<lparr>flash_available := b\<rparr>) = view st"
  by (rule ext) (simp add: view_def split: option.split)

lemma do_flash_spec:
  assumes inv: "low_inv st" and ne: "no_erase st"
  shows "view (do_flash st) = view st \<and> low_inv (do_flash st) \<and> no_erase (do_flash st) \<and>
    (locked_out st \<and> flash_available st \<longrightarrow>
       cached_sectors (do_flash st) = {} \<and> chip (do_flash st) = view st)"
proof (cases "locked_out st \<and> flash_available st \<and> ready_pages st > 0")
  case True
  let ?f = "fold flush_slot [0 ..< 4] st"
  have fl: "flushed 4 st ?f" by (rule flush_all [OF inv ne]) simp
  have d: "do_flash st = ?f\<lparr>flash_available := False\<rparr>"
    using True by (simp add: do_flash_def TOTAL_FLASH_PAGES_def)
  have n: "ready_pages st \<le> 4" using inv by (simp add: low_inv_def)
  have i: "low_inv (do_flash st)" and e: "no_erase (do_flash st)" and r: "ready_pages (do_flash st) = 0"
    using fl n unfolding d flushed_def low_inv_def no_erase_def occupied_def by auto
  have ch: "chip (do_flash st) a = view st a" for a
  proof (cases "\<exists>j < 4. j < ready_pages st \<and> address (flash_pages st ! j) = sector_of a")
    case True
    then show ?thesis using fl by (auto simp: d flushed_def)
  next
    case False
    then have "sector_of a \<notin> cached_sectors st"
      using n by (auto simp: cached_sectors_def)
    with False show ?thesis using fl view_uncached [OF inv ne] by (auto simp: d flushed_def)
  qed
  have v: "view (do_flash st) a = view st a" for a
    using view_uncached [OF i e, of a] r ch by (simp add: cached_sectors_def)
  show ?thesis using i e r ch v by (auto simp: cached_sectors_def)
next
  case False
  then have d: "do_flash st = st\<lparr>flash_available := False\<rparr>" by (auto simp: do_flash_def Let_def)
  have i: "low_inv (do_flash st)" and e: "no_erase (do_flash st)" and v: "view (do_flash st) = view st"
    using inv ne by (auto simp: d low_inv_def no_erase_def)
  have "cached_sectors (do_flash st) = {} \<and> chip (do_flash st) = view st"
    if "locked_out st \<and> flash_available st"
  proof -
    have r: "ready_pages st = 0" using False that by simp
    then have "chip st a = view st a" for a
      using view_uncached [OF inv ne, of a] by (simp add: cached_sectors_def)
    with r show ?thesis by (auto simp: d cached_sectors_def)
  qed
  with i e v show ?thesis by blast
qed

section \<open>The contract of the cache\<close>

text \<open>
  What the file system relies on: memory that is programmed and read in pieces that lie in one
  sector.  \<open>good s T\<close> says that writes to the sectors of \<open>T\<close> are not refused in \<open>s\<close>.
\<close>

locale flat_mem =
  fixes mview :: "'s \<Rightarrow> mem"
    and mprogram :: "'s \<Rightarrow> nat \<Rightarrow> bytes \<Rightarrow> (int \<times> 's) option"
    and mread :: "'s \<Rightarrow> nat \<Rightarrow> nat \<Rightarrow> bytes option"
    and good :: "'s \<Rightarrow> nat set \<Rightarrow> bool"
  assumes program_law: "good s T \<Longrightarrow> sector_of a \<in> T \<Longrightarrow> bs \<noteq> [] \<Longrightarrow>
      sector_off a + length bs \<le> 4096 \<Longrightarrow>
      \<exists>s'. mprogram s a bs = Some (CCID_OK, s') \<and> good s' T \<and> mview s' = put_bytes (mview s) a bs"
    and read_law: "good s T \<Longrightarrow> sector_off a + n \<le> 4096 \<Longrightarrow>
      mread s a n = Some (get_bytes (mview s) a n)"
begin

lemma read_after_program:
  assumes "good s T" "sector_of a \<in> T" "bs \<noteq> []" "sector_off a + length bs \<le> 4096"
    and "mprogram s a bs = Some (rc, s')"
  shows "rc = CCID_OK \<and> mread s' a (length bs) = Some bs"
proof -
  obtain s2 where s2: "mprogram s a bs = Some (CCID_OK, s2)" "good s2 T"
    "mview s2 = put_bytes (mview s) a bs"
    using program_law [OF assms(1-4)] by blast
  with assms(5) have "rc = CCID_OK" "s2 = s'" by auto
  with s2 read_law [OF s2(2) assms(4)] show ?thesis by (simp add: mem_simps)
qed

lemma read_frame:
  assumes "good s T" "sector_of a \<in> T" "bs \<noteq> []" "sector_off a + length bs \<le> 4096"
    and "mprogram s a bs = Some (rc, s')"
    and "sector_off b + n \<le> 4096" and "b + n \<le> a \<or> a + length bs \<le> b"
  shows "mread s' b n = mread s b n"
proof -
  obtain s2 where s2: "mprogram s a bs = Some (CCID_OK, s2)" "good s2 T"
    "mview s2 = put_bytes (mview s) a bs"
    using program_law [OF assms(1-4)] by blast
  with assms(5) have "s2 = s'" by auto
  with s2 read_law [OF s2(2) assms(6)] read_law [OF assms(1,6)] assms(7)
  show ?thesis by (simp add: mem_simps)
qed

text \<open>Little-endian words, as \<^verbatim>\<open>flash_program_uintptr\<close> and \<^verbatim>\<open>flash_program_halfword\<close> write them.\<close>

lemma program_word:
  assumes "good s T" "sector_of a \<in> T" "0 < n" "sector_off a + n \<le> 4096"
  shows "\<exists>s'. mprogram s a (le_bytes n v) = Some (CCID_OK, s') \<and> good s' T \<and>
           mview s' = put_bytes (mview s) a (le_bytes n v)"
proof -
  have "le_bytes n v \<noteq> []" using assms(3) by (metis length_le_bytes length_0_conv neq0_conv)
  then show ?thesis using program_law assms by simp
qed

end

lemma low_ok_room: "low_ok st T \<Longrightarrow> ready_pages st < 4"
proof -
  assume ok: "low_ok st T"
  then have "card (cached_sectors st) \<le> card (cached_sectors st \<union> T)"
    using card_cached_sectors by (intro card_mono) (auto simp: low_ok_def)
  with ok card_cached_sectors(1) [of st] show ?thesis by (simp add: low_ok_def)
qed

lemma low_ok_program:
  assumes ok: "low_ok st T" and "sector_of a \<in> T" "bs \<noteq> []" "sector_off a + length bs \<le> 4096"
  shows "\<exists>st'. flash_program_block st a bs = Some (CCID_OK, st') \<and> low_ok st' T \<and>
           view st' = put_bytes (view st) a bs \<and> chip st' = chip st"
proof -
  have inv: "low_inv st" "no_erase st" using ok by (auto simp: low_ok_def)
  obtain st' where st': "flash_program_block st a bs = Some (CCID_OK, st')" "low_inv st'"
    "no_erase st'" "view st' = put_bytes (view st) a bs"
    "cached_sectors st' = insert (sector_of a) (cached_sectors st)" "chip st' = chip st"
    using flash_program_block_spec [OF inv low_ok_room [OF ok] assms(3,4)] by blast
  have "cached_sectors st' \<union> T = cached_sectors st \<union> T" using st'(5) assms(2) by auto
  with st' ok show ?thesis by (auto simp: low_ok_def)
qed

interpretation lf: flat_mem view flash_program_block flash_read_bytes low_ok
proof
  show "\<exists>st'. flash_program_block st a bs = Some (CCID_OK, st') \<and> low_ok st' T \<and>
          view st' = put_bytes (view st) a bs"
    if "low_ok st T" "sector_of a \<in> T" "bs \<noteq> []" "sector_off a + length bs \<le> 4096" for st T a bs
    using low_ok_program [OF that] by blast
  show "flash_read_bytes st a n = Some (get_bytes (view st) a n)"
    if "low_ok st T" "sector_off a + n \<le> 4096" for st T a n
    using that flash_read_bytes_spec by (auto simp: low_ok_def)
qed

section \<open>Properties\<close>

text \<open>
  C7: the page cache refines flat memory.  While fewer than four sectors are in play, programming bytes
  inside of a sector succeeds, changes exactly these bytes of the memory the firmware sees, and
  writing the cache back to the chip changes nothing that is seen but makes the chip hold it all.
\<close>

theorem page_cache_refines_flat_memory:
  assumes "low_ok st T" and "sector_of a \<in> T" and "bs \<noteq> []" and "sector_off a + length bs \<le> 4096"
  shows "\<exists>st'. flash_program_block st a bs = Some (CCID_OK, st') \<and> low_ok st' T \<and>
     view st' = put_bytes (view st) a bs \<and> chip st' = chip st \<and>
     (sector_off b + n \<le> 4096 \<longrightarrow>
        flash_read_bytes st' b n = Some (get_bytes (put_bytes (view st) a bs) b n)) \<and>
     view (do_flash (low_flash_available st')) = view st' \<and>
     (locked_out st' \<longrightarrow> chip (do_flash (low_flash_available st')) = put_bytes (view st) a bs)"
proof -
  obtain st' where st': "flash_program_block st a bs = Some (CCID_OK, st')" "low_ok st' T"
    "view st' = put_bytes (view st) a bs" "chip st' = chip st"
    using low_ok_program [OF assms] by blast
  let ?s = "low_flash_available st'"
  have inv: "low_inv ?s" "no_erase ?s" and v: "view ?s = view st'"
    using st'(2) by (auto simp: low_ok_def low_inv_def no_erase_def low_flash_available_def)
  have av: "flash_available ?s" "locked_out ?s = locked_out st'"
    by (auto simp: low_flash_available_def)
  show ?thesis
    using st' lf.read_law [OF st'(2), of b n] do_flash_spec [OF inv] v av
    by (intro exI [of _ st']) auto
qed

definition fresh_low :: low where
  "fresh_low = low_flash_init \<lparr>chip = (\<lambda>_. 0xff), flash_pages = [], ready_pages = 0,
     flash_available = False, locked_out = True\<rparr>"

lemma fresh_low_ok: "finite T \<Longrightarrow> card T < 4 \<Longrightarrow> low_ok fresh_low T"
  by (auto simp: fresh_low_def low_flash_init_def low_ok_def low_inv_def no_erase_def occupied_def
      empty_page_def cached_sectors_def flash_sizes)

theorem page_cache_refines_flat_memory_witness:
  "\<exists>st'. flash_program_block fresh_low 4100 [1, 2] = Some (CCID_OK, st') \<and> low_ok st' {4096} \<and>
     view st' = put_bytes (view fresh_low) 4100 [1, 2] \<and> chip st' = chip fresh_low \<and>
     (sector_off 4100 + 2 \<le> 4096 \<longrightarrow>
        flash_read_bytes st' 4100 2 = Some (get_bytes (put_bytes (view fresh_low) 4100 [1, 2]) 4100 2)) \<and>
     view (do_flash (low_flash_available st')) = view st' \<and>
     (locked_out st' \<longrightarrow>
        chip (do_flash (low_flash_available st')) = put_bytes (view fresh_low) 4100 [1, 2])"
  by (rule page_cache_refines_flat_memory)
    (auto intro: fresh_low_ok simp: sector_of_def sector_off_def flash_sizes)

text \<open>The states the firmware reaches, by the operations that it uses.\<close>

datatype low_op = Program nat bytes | Available | Flush

fun low_step :: "low_op \<Rightarrow> low \<Rightarrow> low option" where
  "low_step (Program a bs) st = map_option snd (flash_program_block st a bs)"
| "low_step Available st = Some (low_flash_available st)"
| "low_step Flush st = Some (do_flash st)"

inductive low_reach :: "low \<Rightarrow> bool" where
  init: "ready_pages st = 0 \<Longrightarrow> low_reach (low_flash_init st)"
| step: "low_reach st \<Longrightarrow> low_step op st = Some st' \<Longrightarrow> low_reach st'"

lemma flash_program_block_inv:
  assumes "low_inv st" "no_erase st" "flash_program_block st a bs = Some (rc, st')"
  shows "low_inv st' \<and> no_erase st'"
proof (cases "bs = [] \<or> ready_pages st = 4")
  case True
  with assms show ?thesis by (auto simp: flash_program_block_def flash_sizes split: if_splits)
next
  case False
  then have room: "ready_pages st < 4" and bs: "bs \<noteq> []" using assms(1) by (auto simp: low_inv_def)
  have fits: "sector_off a + length bs \<le> 4096"
    using find_free_page_spec [OF assms(1,2) room, of a] assms(3) False
    by (auto simp: flash_program_block_def flash_sizes Let_def split: if_splits)
  from flash_program_block_spec [OF assms(1,2) room bs fits] assms(3) show ?thesis by auto
qed

text \<open>
  C20: the invariant of the cache is kept by every operation of the file that the firmware uses, from
  the initialised cache on: it is a property of all states reached by programming any bytes inside
  of sectors, announcing the flash as available and writing back.
\<close>

theorem low_reach_invariant:
  assumes "low_reach st"
  shows "low_inv st \<and> no_erase st"
  using assms
proof (induction rule: low_reach.induct)
  case (init st)
  then show ?case
    by (auto simp: low_flash_init_def low_inv_def no_erase_def occupied_def empty_page_def flash_sizes)
next
  case (step st op st')
  then show ?case
  proof (cases op)
    case (Program a bs)
    then show ?thesis using step flash_program_block_inv [of st a bs] by auto
  next
    case Available
    then show ?thesis using step by (auto simp: low_flash_available_def low_inv_def no_erase_def)
  next
    case Flush
    then show ?thesis using step do_flash_spec [of st] by auto
  qed
qed

theorem low_reach_invariant_witness: "low_inv fresh_low \<and> no_erase fresh_low"
  by (rule low_reach_invariant) (auto simp: fresh_low_def intro: low_reach.init)

text \<open>
  with four sectors cached, every further write is refused and has no effect, also a write to a
  sector that is cached already, whatever the caller does with the return code.
\<close>

theorem full_cache_refuses:
  assumes "ready_pages st = 4" and "data \<noteq> []"
  shows "flash_program_block st addr data = Some (CCID_ERR_NO_MEMORY, st)"
  using assms by (simp add: flash_program_block_def flash_sizes)

theorem full_cache_refuses_witness:
  "flash_program_block (fresh_low\<lparr>ready_pages := 4\<rparr>) 7 [1] =
     Some (CCID_ERR_NO_MEMORY, fresh_low\<lparr>ready_pages := 4\<rparr>)"
  by (rule full_cache_refuses) auto

end
