(* ===== verification/Flash.thy ===== *)
theory Flash
  imports LowFlash
begin

text \<open>
  The allocator of file records in flash, \<^verbatim>\<open>pico-keys-sdk/src/fs/flash.c\<close>.  A pool is a doubly linked
  list of records at descending addresses; its head is the word at the fixed address \<^verbatim>\<open>end_data_pool\<close>
  or \<^verbatim>\<open>end_rom_pool\<close>.  A record is the address of the next record, the address of the previous one,
  the file identifier, the length and the payload.  \<^verbatim>\<open>XIP_BASE\<close> and \<^verbatim>\<open>PICO_FLASH_SIZE_BYTES\<close> come
  from the board definition of the Pico SDK and are parameters (\<open>board\<close>).  A pointer of the code is
  its address, \<open>None\<close> is NULL; the result \<open>None\<close> of an operation says that it leaves a cached sector
  (see \<open>LowFlash\<close>) or that its loop does not end.
\<close>

section \<open>Geometry and the file entry\<close>

record board =
  XIP_BASE :: nat
  PICO_FLASH_SIZE_BYTES :: nat

definition FLASH_TARGET_OFFSET :: "board \<Rightarrow> nat" where
  "FLASH_TARGET_OFFSET b = PICO_FLASH_SIZE_BYTES b div 2"

definition FLASH_DATA_HEADER_SIZE :: nat where "FLASH_DATA_HEADER_SIZE = 4 + 4"
definition FLASH_PERMANENT_REGION :: nat where "FLASH_PERMANENT_REGION = 4 * FLASH_SECTOR_SIZE"

definition start_data_pool :: "board \<Rightarrow> nat" where
  "start_data_pool b = XIP_BASE b + FLASH_TARGET_OFFSET b"

definition end_data_pool :: "board \<Rightarrow> nat" where
  "end_data_pool b = XIP_BASE b + PICO_FLASH_SIZE_BYTES b - FLASH_DATA_HEADER_SIZE
     - FLASH_PERMANENT_REGION - FLASH_DATA_HEADER_SIZE - 4"

definition end_rom_pool :: "board \<Rightarrow> nat" where
  "end_rom_pool b = XIP_BASE b + PICO_FLASH_SIZE_BYTES b - FLASH_DATA_HEADER_SIZE - 4"

definition start_rom_pool :: "board \<Rightarrow> nat" where
  "start_rom_pool b = XIP_BASE b + PICO_FLASH_SIZE_BYTES b - FLASH_DATA_HEADER_SIZE - FLASH_PERMANENT_REGION"

lemmas geometry_defs = FLASH_TARGET_OFFSET_def FLASH_DATA_HEADER_SIZE_def FLASH_PERMANENT_REGION_def
  start_data_pool_def end_data_pool_def end_rom_pool_def start_rom_pool_def flash_sizes

text \<open>\<^verbatim>\<open>file_t\<close>; the type of \<open>data\<close> is a parameter, here it is the address of the length field.\<close>

record 'd file_t =
  fid :: u16
  parent :: u8
  fname :: "bytes option"
  ftype :: u8
  ef_structure :: u8
  data :: "'d option"
  acl :: bytes

definition FILE_TYPE_UNKNOWN :: u8 where "FILE_TYPE_UNKNOWN = 0x00"
definition FILE_TYPE_DF :: u8 where "FILE_TYPE_DF = 0x04"
definition FILE_TYPE_INTERNAL_EF :: u8 where "FILE_TYPE_INTERNAL_EF = 0x03"
definition FILE_TYPE_WORKING_EF :: u8 where "FILE_TYPE_WORKING_EF = 0x01"
definition FILE_PERSISTENT :: u8 where "FILE_PERSISTENT = 0x20"
definition FILE_DATA_FLASH :: u8 where "FILE_DATA_FLASH = 0x40"
definition FILE_DATA_FUNC :: u8 where "FILE_DATA_FUNC = 0x80"
definition FILE_EF_TRANSPARENT :: u8 where "FILE_EF_TRANSPARENT = 0x01"

lemmas ftype_defs = FILE_TYPE_UNKNOWN_def FILE_TYPE_DF_def FILE_TYPE_INTERNAL_EF_def
  FILE_TYPE_WORKING_EF_def FILE_PERSISTENT_def FILE_DATA_FLASH_def FILE_DATA_FUNC_def
  FILE_EF_TRANSPARENT_def

section \<open>Operations\<close>

text \<open>The allocator ignores the return code of the writes.\<close>

definition prog_uintptr :: "nat \<Rightarrow> nat \<Rightarrow> low \<Rightarrow> low option" where
  "prog_uintptr a v st = map_option snd (flash_program_uintptr st a v)"

definition prog_halfword :: "nat \<Rightarrow> nat \<Rightarrow> low \<Rightarrow> low option" where
  "prog_halfword a v st = map_option snd (flash_program_halfword st a v)"

definition prog_block :: "nat \<Rightarrow> bytes \<Rightarrow> low \<Rightarrow> low option" where
  "prog_block a bs st = map_option snd (flash_program_block st a bs)"

text \<open>The record \<open>a\<close> becomes the last one, after \<open>base\<close>.\<close>

definition link_last :: "nat \<Rightarrow> nat \<Rightarrow> low \<Rightarrow> low option" where
  "link_last base a st = do {
     st \<leftarrow> prog_uintptr a 0 st;
     st \<leftarrow> prog_uintptr (a + 4) base st;
     prog_uintptr base a st
   }"

text \<open>The record \<open>a\<close> goes between \<open>base\<close> and \<open>next_base\<close>.\<close>

definition link_between :: "nat \<Rightarrow> nat \<Rightarrow> nat \<Rightarrow> low \<Rightarrow> low option" where
  "link_between base next_base a st = do {
     st \<leftarrow> prog_uintptr a next_base st;
     st \<leftarrow> prog_uintptr (next_base + 4) a st;
     st \<leftarrow> prog_uintptr (a + 4) base st;
     prog_uintptr base a st
   }"

text \<open>The gap between \<open>base\<close> and the end of the next record is big enough and not size-blocked.\<close>

definition gap_fits :: "low \<Rightarrow> nat \<Rightarrow> nat \<Rightarrow> nat \<Rightarrow> bool option" where
  "gap_fits st base next_base potential_addr =
     (if sector_of base \<le> potential_addr then do {
        len \<leftarrow> flash_read_uint16 st (next_base + 4 + 4 + 2);
        if sub32 base (next_base + len + 2 * 2 + 2 * 4) > sub32 base potential_addr then do {
          id \<leftarrow> flash_read_uint16 st (next_base + 2 * 4);
          Some (id AND 0x1000 \<noteq> 0x1000)
        } else Some False
      } else Some False)"

partial_function (option) alloc_loop :: "low \<Rightarrow> nat \<Rightarrow> nat \<Rightarrow> nat \<Rightarrow> (nat \<times> low) option" where
  "alloc_loop st real_size startp base =
     (if \<not> (base \<ge> startp) then Some (0, st)
      else do {
        next_base \<leftarrow> flash_read_uintptr st base;
        if next_base = 0 then
          (if sector_of base \<le> sub32 base real_size then
             map_option (Pair (sub32 base real_size)) (link_last base (sub32 base real_size) st)
           else if sub32 (sector_of base) FLASH_SECTOR_SIZE \<ge> startp then
             map_option (Pair (sub32 (sector_of base) real_size))
               (link_last base (sub32 (sector_of base) real_size) st)
           else Some (0, st))
        else do {
          fits \<leftarrow> gap_fits st base next_base (sub32 base real_size);
          if fits then
            map_option (Pair (sub32 base real_size))
              (link_between base next_base (sub32 base real_size) st)
          else alloc_loop st real_size startp next_base
        }
      })"

definition allocate_free_addr :: "board \<Rightarrow> low \<Rightarrow> nat \<Rightarrow> bool \<Rightarrow> (nat \<times> low) option" where
  "allocate_free_addr b st sz persistent =
     (if sz > FLASH_SECTOR_SIZE then Some (0, st)
      else alloc_loop st (sz + 2 + 4 + 2 + 4)
        (if persistent then start_rom_pool b else start_data_pool b)
        (if persistent then end_rom_pool b else end_data_pool b))"

fun flash_clear_file :: "low \<Rightarrow> nat file_t option \<Rightarrow> (int \<times> low \<times> nat file_t option) option" where
  "flash_clear_file st None = Some (CCID_OK, st, None)"
| "flash_clear_file st (Some f) =
     (case data f of
        None \<Rightarrow> Some (CCID_OK, st, Some f)
      | Some d \<Rightarrow> do {
          let base_addr = sub32 d (4 + 2 + 4);
          prev_addr \<leftarrow> flash_read_uintptr st (base_addr + 4);
          next_addr \<leftarrow> flash_read_uintptr st base_addr;
          st \<leftarrow> prog_uintptr prev_addr next_addr st;
          st \<leftarrow> prog_halfword d 0 st;
          st \<leftarrow> (if next_addr > 0 then prog_uintptr (next_addr + 4) prev_addr st else Some st);
          st \<leftarrow> prog_uintptr base_addr 0 st;
          st \<leftarrow> prog_uintptr (base_addr + 4) 0 st;
          Some (CCID_OK, st, Some (f\<lparr>data := None\<rparr>))
        })"

text \<open>
  The second half of \<^verbatim>\<open>flash_write_data_to_file_offset\<close>: a new record for \<open>len\<close> bytes.  \<open>src\<close> is the
  source buffer, \<open>None\<close> for NULL; \<open>len\<close> is its length when it is there.
\<close>

definition write_new_record ::
  "board \<Rightarrow> low \<Rightarrow> nat file_t \<Rightarrow> bytes option \<Rightarrow> nat \<Rightarrow> (int \<times> low \<times> nat file_t) option" where
  "write_new_record b st f src len = do {
     (new_addr, st) \<leftarrow> allocate_free_addr b st len (ftype f AND FILE_PERSISTENT = FILE_PERSISTENT);
     if new_addr = 0 then Some (CCID_ERR_NO_MEMORY, st, f)
     else do {
       let d = new_addr + 4 + 2 + 4;
       st \<leftarrow> prog_halfword (new_addr + 4 + 4) (unat (fid f)) st;
       st \<leftarrow> prog_halfword d len st;
       st \<leftarrow> (case src of None \<Rightarrow> Some st | Some bs \<Rightarrow> prog_block (d + 2) bs st);
       Some (CCID_OK, st, f\<lparr>data := Some d\<rparr>)
     }
   }"

text \<open>
  After \<^verbatim>\<open>flash_clear_file\<close> the pointer \<^verbatim>\<open>file->data\<close> is NULL, so the old content is read from the
  address \<^verbatim>\<open>NULL + 2\<close>.
\<close>

fun flash_write_data_to_file_offset ::
  "board \<Rightarrow> low \<Rightarrow> nat file_t option \<Rightarrow> bytes option \<Rightarrow> nat \<Rightarrow> nat \<Rightarrow> (int \<times> low \<times> nat file_t option) option"
where
  "flash_write_data_to_file_offset b st None src len offset = Some (CCID_ERR_NULL_PARAM, st, None)"
| "flash_write_data_to_file_offset b st (Some f) src len offset = do {
     size_file_flash \<leftarrow> (case data f of None \<Rightarrow> Some 0 | Some d \<Rightarrow> flash_read_uint16 st d);
     if offset + len > FLASH_SECTOR_SIZE \<or> offset > size_file_flash
     then Some (CCID_ERR_NO_MEMORY, st, Some f)
     else case data f of
       None \<Rightarrow> map_option (\<lambda>(rc, st, f). (rc, st, Some f)) (write_new_record b st f src len)
     | Some d \<Rightarrow>
         if offset + len \<le> size_file_flash then do {
           st \<leftarrow> prog_halfword d (offset + len) st;
           st \<leftarrow> (case src of None \<Rightarrow> Some st | Some bs \<Rightarrow> prog_block (d + 2 + offset) bs st);
           Some (CCID_OK, st, Some f)
         }
         else do {
           (_, st, fo) \<leftarrow> flash_clear_file st (Some f);
           f \<leftarrow> fo;
           (src, len) \<leftarrow>
             (if offset > 0 then do {
                old \<leftarrow> flash_read_bytes st (0 + 2) offset;
                new \<leftarrow> src;
                Some (Some (old @ new), offset + len)
              } else Some (src, len));
           map_option (\<lambda>(rc, st, f). (rc, st, Some f)) (write_new_record b st f src len)
         }
   }"

definition flash_write_data_to_file ::
  "board \<Rightarrow> low \<Rightarrow> nat file_t option \<Rightarrow> bytes option \<Rightarrow> nat \<Rightarrow> (int \<times> low \<times> nat file_t option) option" where
  "flash_write_data_to_file b st f src len = flash_write_data_to_file_offset b st f src len 0"

section \<open>The list of records\<close>

definition w32 :: "mem \<Rightarrow> nat \<Rightarrow> nat" where "w32 m a = le_val (get_bytes m a 4)"
definition w16 :: "mem \<Rightarrow> nat \<Rightarrow> nat" where "w16 m a = le_val (get_bytes m a 2)"

definition rsize :: "mem \<Rightarrow> nat \<Rightarrow> nat" where "rsize m a = 12 + w16 m (a + 10)"

fun path :: "mem \<Rightarrow> nat \<Rightarrow> nat list \<Rightarrow> bool" where
  "path m base [] \<longleftrightarrow> True"
| "path m base (a # as) \<longleftrightarrow> w32 m base = a \<and> 0 < a \<and> w32 m (a + 4) = base \<and> path m a as"

fun placed :: "mem \<Rightarrow> nat \<Rightarrow> nat \<Rightarrow> nat list \<Rightarrow> bool" where
  "placed m startp base [] \<longleftrightarrow> True"
| "placed m startp base (a # as) \<longleftrightarrow>
     startp \<le> sector_of a \<and> a + rsize m a \<le> base \<and> sector_off a + rsize m a \<le> 4096 \<and>
     placed m startp a as"

text \<open>
  The invariant of a pool: the records are linked in both directions, at descending addresses,
  disjoint, and each lies in one sector of the pool.
\<close>

definition pool_ok :: "mem \<Rightarrow> nat \<Rightarrow> nat \<Rightarrow> nat list \<Rightarrow> bool" where
  "pool_ok m startp endp as \<longleftrightarrow>
     path m endp as \<and> w32 m (last (endp # as)) = 0 \<and> placed m startp endp as \<and>
     8192 \<le> startp \<and> startp \<le> sector_of endp \<and> sector_off endp + 4 \<le> 4096 \<and> endp < 2 ^ 32"

lemma w32_put_same [mem_simps]: "v < 2 ^ 32 \<Longrightarrow> w32 (put_bytes m a (le_bytes 4 v)) a = v"
  by (simp add: w32_def get_put_same le_val_le_bytes)

lemma w16_put_same [mem_simps]: "v < 2 ^ 16 \<Longrightarrow> w16 (put_bytes m a (le_bytes 2 v)) a = v"
  by (simp add: w16_def get_put_same le_val_le_bytes)

lemma w32_put_other [mem_simps]:
  "b + 4 \<le> a \<or> a + length bs \<le> b \<Longrightarrow> w32 (put_bytes m a bs) b = w32 m b"
  by (simp add: w32_def get_put_other)

lemma w16_put_other [mem_simps]:
  "b + 2 \<le> a \<or> a + length bs \<le> b \<Longrightarrow> w16 (put_bytes m a bs) b = w16 m b"
  by (simp add: w16_def get_put_other)

lemma w32_bound: "w32 m a < 2 ^ 32"
  using le_val_bound [of "get_bytes m a 4"] by (simp add: w32_def)

lemma w16_bound: "w16 m a < 2 ^ 16"
  using le_val_bound [of "get_bytes m a 2"] by (simp add: w16_def)

definition same_outside :: "nat set \<Rightarrow> mem \<Rightarrow> mem \<Rightarrow> bool" where
  "same_outside R m m' \<longleftrightarrow> (\<forall>i. i \<notin> R \<longrightarrow> m' i = m i)"

lemma same_outside_bytes:
  "same_outside R m m' \<Longrightarrow> {a ..< a + n} \<inter> R = {} \<Longrightarrow> get_bytes m' a n = get_bytes m a n"
  by (intro get_bytes_cong) (auto simp: same_outside_def)

lemma same_outside_w32: "same_outside R m m' \<Longrightarrow> {a ..< a + 4} \<inter> R = {} \<Longrightarrow> w32 m' a = w32 m a"
  by (simp add: w32_def same_outside_bytes)

lemma same_outside_w16: "same_outside R m m' \<Longrightarrow> {a ..< a + 2} \<inter> R = {} \<Longrightarrow> w16 m' a = w16 m a"
  by (simp add: w16_def same_outside_bytes)

lemma same_outside_put:
  "same_outside R m m' \<Longrightarrow> {a ..< a + length bs} \<subseteq> R \<Longrightarrow> same_outside R m (put_bytes m' a bs)"
  by (auto simp: same_outside_def put_bytes_def subset_iff)

lemma same_outside_refl: "same_outside R m m"
  by (simp add: same_outside_def)

lemma path_append: "path m base (xs @ ys) \<longleftrightarrow> path m base xs \<and> path m (last (base # xs)) ys"
  by (induction xs arbitrary: base) auto

lemma placed_append:
  "placed m s base (xs @ ys) \<longleftrightarrow> placed m s base xs \<and> placed m s (last (base # xs)) ys"
  by (induction xs arbitrary: base) auto

lemma placed_below: "placed m s base as \<Longrightarrow> x \<in> set as \<Longrightarrow> x + rsize m x \<le> base"
proof (induction as arbitrary: base)
  case Nil
  then show ?case by simp
next
  case (Cons a as)
  then show ?case by (auto simp: rsize_def dest!: Cons.IH)
qed

lemma placed_last: "placed m s base as \<Longrightarrow> y \<in> set (butlast (base # as)) \<Longrightarrow> last (base # as) + 12 \<le> y"
proof (induction as arbitrary: base y)
  case Nil
  then show ?case by simp
next
  case (Cons a as)
  show ?case
  proof (cases "as = []")
    case True
    with Cons.prems show ?thesis by (auto simp: rsize_def)
  next
    case False
    have "last (a # as) + 12 \<le> a"
      using Cons.prems False by (intro Cons.IH) auto
    moreover have "a + 12 \<le> base" using Cons.prems by (simp add: rsize_def)
    ultimately have "last (a # as) + 12 \<le> base" by simp
    moreover have "last (a # as) + 12 \<le> y" if "y \<in> set (butlast (a # as))"
      using Cons.IH [of a y] Cons.prems that by simp
    ultimately show ?thesis using Cons.prems(2) False by auto
  qed
qed

lemma placed_cong:
  "(\<And>x. x \<in> set as \<Longrightarrow> rsize m x = rsize m' x) \<Longrightarrow> placed m s base as = placed m' s base as"
  by (induction as arbitrary: base) auto

lemma placed_sector: "placed m s base as \<Longrightarrow> x \<in> set as \<Longrightarrow> s \<le> sector_of x \<and> sector_off x + rsize m x \<le> 4096"
  by (induction as arbitrary: base) auto

lemma path_cong:
  assumes "\<And>b. b \<in> set (butlast (base # as)) \<Longrightarrow> w32 m b = w32 m' b"
    and "\<And>a. a \<in> set as \<Longrightarrow> w32 m (a + 4) = w32 m' (a + 4)"
  shows "path m base as = path m' base as"
  using assms
proof (induction as arbitrary: base)
  case Nil
  then show ?case by simp
next
  case (Cons a as)
  have "path m a as = path m' a as"
    using Cons.prems by (intro Cons.IH) (auto split: if_splits)
  with Cons.prems show ?case by (auto split: if_splits)
qed

text \<open>Bytes of the record \<open>a\<close> of \<open>n\<close> bytes and the two words of its neighbours.\<close>

definition touched :: "nat \<Rightarrow> nat \<Rightarrow> nat \<Rightarrow> nat list \<Rightarrow> nat set" where
  "touched p a n ys = {a ..< a + n} \<union> {p ..< p + 4} \<union> (case ys of [] \<Rightarrow> {} | q # _ \<Rightarrow> {q + 4 ..< q + 8})"

text \<open>
  The frame of a change between the records \<open>xs\<close> and \<open>ys\<close> of a pool: only the \<open>n\<close> bytes of the record
  \<open>a\<close>, the link word of its predecessor \<open>p\<close> and the back link of the first record of \<open>ys\<close> change.
\<close>

definition local_change :: "mem \<Rightarrow> mem \<Rightarrow> nat \<Rightarrow> nat \<Rightarrow> nat list \<Rightarrow> nat list \<Rightarrow> nat \<Rightarrow> nat \<Rightarrow> bool" where
  "local_change m m' s base xs ys a n \<longleftrightarrow>
     placed m s base (xs @ ys) \<and> a + n \<le> last (base # xs) \<and> 12 \<le> n \<and>
     (\<forall>q zs. ys = q # zs \<longrightarrow> q + rsize m q \<le> a) \<and>
     same_outside (touched (last (base # xs)) a n ys) m m'"

lemma rsize12: "12 \<le> rsize m x"
  by (simp add: rsize_def)

lemma above_cases:
  assumes "placed m s base xs" "x \<in> set (base # xs)"
  shows "x = last (base # xs) \<or> last (base # xs) + 12 \<le> x"
proof (cases "x = last (base # xs)")
  case False
  have "set (base # xs) \<subseteq> insert (last (base # xs)) (set (butlast (base # xs)))"
    using append_butlast_last_id [of "base # xs"] by (metis list.distinct(1) list.simps(15)
        set_append Un_insert_right sup_bot_right list.set(1) set_eq_subset)
  with False assms show ?thesis using placed_last [OF assms(1), of x] by auto
qed simp

lemma local_change_below:
  assumes "local_change m m' s base xs ys a n" "x \<in> set ys"
  shows "x + rsize m x \<le> a" and "ys = q # zs \<Longrightarrow> x = q \<or> x + rsize m x \<le> q"
proof -
  have pl: "placed m s (last (base # xs)) ys" using assms(1) by (simp add: local_change_def placed_append)
  show q: "x = q \<or> x + rsize m x \<le> q" if "ys = q # zs" for q zs
    using that pl assms(2) placed_below [of m s q zs x] by auto
  show "x + rsize m x \<le> a"
    using assms q by (cases ys) (force simp: local_change_def rsize_def)+
qed

lemma local_change_q:
  assumes "local_change m m' s base xs ys a n" "ys = q # zs"
  shows "q + 12 \<le> a"
  using local_change_below(1) [OF assms(1), of q] rsize12 [of m q] assms(2) by simp

lemma local_change_keep:
  assumes lc: "local_change m m' s base xs ys a n"
    and x: "x \<in> set (xs @ ys)" and i: "8 \<le> i" "i + k \<le> rsize m x"
  shows "get_bytes m' (x + i) k = get_bytes m (x + i) k"
proof (rule same_outside_bytes)
  show "same_outside (touched (last (base # xs)) a n ys) m m'" using lc by (simp add: local_change_def)
  show "{x + i ..< x + i + k} \<inter> touched (last (base # xs)) a n ys = {}"
  proof (cases "x \<in> set ys")
    case True
    show ?thesis
      using local_change_below [OF lc True] i lc by (cases ys) (auto simp: touched_def local_change_def)
  next
    case False
    with x above_cases [of m s base xs x] lc have "last (base # xs) \<le> x"
      by (auto simp: local_change_def placed_append)
    then show ?thesis
      using i lc local_change_q [OF lc]
      by (cases ys) (auto simp: touched_def local_change_def)
  qed
qed

lemma local_change_words:
  assumes lc: "local_change m m' s base xs ys a n"
  shows "last (base # xs) + 12 \<le> x \<Longrightarrow> w32 m' x = w32 m x"
    and "last (base # xs) \<le> x \<Longrightarrow> w32 m' (x + 4) = w32 m (x + 4)"
    and "x \<in> set ys \<Longrightarrow> w32 m' x = w32 m x"
    and "ys = q # zs \<Longrightarrow> x \<in> set zs \<Longrightarrow> w32 m' (x + 4) = w32 m (x + 4)"
proof -
  have fr: "same_outside (touched (last (base # xs)) a n ys) m m'" and an: "a + n \<le> last (base # xs)" "12 \<le> n"
    using lc by (auto simp: local_change_def)
  note w = same_outside_w32 [OF fr] and q = local_change_q [OF lc]
  show "w32 m' x = w32 m x" if "last (base # xs) + 12 \<le> x"
  proof (rule w)
    show "{x ..< x + 4} \<inter> touched (last (base # xs)) a n ys = {}"
      using that an q by (cases ys) (auto simp: touched_def)
  qed
  show "w32 m' (x + 4) = w32 m (x + 4)" if "last (base # xs) \<le> x"
  proof (rule w)
    show "{x + 4 ..< x + 4 + 4} \<inter> touched (last (base # xs)) a n ys = {}"
      using that an q by (cases ys) (auto simp: touched_def)
  qed
  show "w32 m' x = w32 m x" if x: "x \<in> set ys"
  proof (rule w)
    show "{x ..< x + 4} \<inter> touched (last (base # xs)) a n ys = {}"
      using x local_change_below [OF lc x] rsize12 [of m x] an
      by (cases ys) (auto simp: touched_def)
  qed
  show "w32 m' (x + 4) = w32 m (x + 4)" if y: "ys = q # zs" and x: "x \<in> set zs" for q zs
  proof (rule w)
    have "x + rsize m x \<le> q"
      using lc y x placed_below [of m s q zs x] by (auto simp: local_change_def placed_append)
    then show "{x + 4 ..< x + 4 + 4} \<inter> touched (last (base # xs)) a n ys = {}"
      using q [OF y] rsize12 [of m x] an y by (auto simp: touched_def)
  qed
qed

lemma local_change_rsize:
  "local_change m m' s base xs ys a n \<Longrightarrow> x \<in> set (xs @ ys) \<Longrightarrow> rsize m' x = rsize m x"
  using local_change_keep [of m m' s base xs ys a n x 10 2] rsize12 [of m x]
  by (simp add: rsize_def w16_def)

lemma local_change_paths:
  assumes lc: "local_change m m' s base xs ys a n"
    and px: "path m base xs" and py: "\<And>q zs. ys = q # zs \<Longrightarrow> path m q zs"
  shows "path m' base xs" and "ys = q # zs \<Longrightarrow> path m' q zs" and "placed m' s base xs"
    and "placed m' s a ys" and "placed m' s (last (base # xs)) ys"
    and "ys \<noteq> [] \<Longrightarrow> w32 m' (last ys) = w32 m (last ys)"
proof -
  have pl: "placed m s base xs" "placed m s (last (base # xs)) ys"
    using lc by (auto simp: local_change_def placed_append)
  have up: "last (base # xs) \<le> x" if "x \<in> set (base # xs)" for x
    using above_cases [OF pl(1) that] by auto
  have "path m base xs = path m' base xs"
  proof (rule path_cong)
    show "w32 m b = w32 m' b" if "b \<in> set (butlast (base # xs))" for b
      using local_change_words(1) [OF lc placed_last [OF pl(1) that]] by simp
    show "w32 m (x + 4) = w32 m' (x + 4)" if "x \<in> set xs" for x
      using local_change_words(2) [OF lc, of x] up [of x] that by simp
  qed
  with px show "path m' base xs" by simp
  show "path m' q zs" if "ys = q # zs" for q zs
  proof -
    have "path m q zs = path m' q zs"
    proof (rule path_cong)
      show "w32 m b = w32 m' b" if "b \<in> set (butlast (q # zs))" for b
        using local_change_words(3) [OF lc, of b] in_set_butlastD [OF that] \<open>ys = q # zs\<close> by simp
      show "w32 m (x + 4) = w32 m' (x + 4)" if "x \<in> set zs" for x
        using local_change_words(4) [OF lc \<open>ys = q # zs\<close> that] by simp
    qed
    with py that show ?thesis by simp
  qed
  show "placed m' s base xs"
    using pl placed_cong [of xs m' m s base] local_change_rsize [OF lc] by simp
  show *: "placed m' s (last (base # xs)) ys"
    using pl placed_cong [of ys m' m] local_change_rsize [OF lc] by simp
  show "placed m' s a ys"
    using * lc local_change_rsize [OF lc] by (cases ys) (auto simp: local_change_def)
  show "w32 m' (last ys) = w32 m (last ys)" if "ys \<noteq> []"
    using local_change_words(3) [OF lc, of "last ys"] that by simp
qed

text \<open>Linking a record in.\<close>

lemma insert_pool:
  assumes lc: "local_change m m' s base xs ys a n" and path: "path m base (xs @ ys)"
    and nil: "w32 m (last (base # xs @ ys)) = 0" and a0: "0 < a"
    and wa: "w32 m' a = (case ys of [] \<Rightarrow> 0 | q # _ \<Rightarrow> q)" and wa4: "w32 m' (a + 4) = last (base # xs)"
    and wp: "w32 m' (last (base # xs)) = a" and wq: "\<And>q zs. ys = q # zs \<Longrightarrow> w32 m' (q + 4) = a"
    and sa: "s \<le> sector_of a" "sector_off a + n \<le> 4096" and ra: "rsize m' a = n"
  shows "path m' base (xs @ a # ys)" and "w32 m' (last (base # xs @ a # ys)) = 0"
    and "placed m' s base (xs @ a # ys)"
proof -
  have px: "path m base xs" and py: "path m (last (base # xs)) ys"
    using path by (simp_all add: path_append)
  then have "\<And>q zs. ys = q # zs \<Longrightarrow> path m q zs" by simp
  note lcp = local_change_paths [OF lc px this]
  from py have "path m' (last (base # xs)) (a # ys)"
    using wp wa4 a0 wa wq lcp(2) by (cases ys) auto
  with lcp(1) show "path m' base (xs @ a # ys)" by (simp add: path_append)
  show "w32 m' (last (base # xs @ a # ys)) = 0"
    using wa nil lcp(6) by (cases "ys = []") auto
  show "placed m' s base (xs @ a # ys)"
    using lcp(3,4) sa ra lc by (auto simp: placed_append local_change_def)
qed

text \<open>Unlinking the record \<open>a\<close>.\<close>

lemma remove_pool:
  assumes lc: "local_change m m' s base xs ys a n"
    and path: "path m base (xs @ a # ys)" and nil: "w32 m (last (base # xs @ a # ys)) = 0"
    and wp: "w32 m' (last (base # xs)) = w32 m a"
    and wq: "\<And>q zs. ys = q # zs \<Longrightarrow> w32 m' (q + 4) = last (base # xs)"
  shows "path m' base (xs @ ys)" and "w32 m' (last (base # xs @ ys)) = 0"
    and "placed m' s base (xs @ ys)"
proof -
  have px: "path m base xs" and pa: "path m a ys" using path by (simp_all add: path_append)
  then have "\<And>q zs. ys = q # zs \<Longrightarrow> path m q zs" by simp
  note lcp = local_change_paths [OF lc px this]
  have "path m' (last (base # xs)) ys"
    using pa lcp(2) wp wq by (cases ys) auto
  with lcp(1) show "path m' base (xs @ ys)" by (simp add: path_append)
  show "w32 m' (last (base # xs @ ys)) = 0"
    using nil wp lcp(6) by (cases "ys = []") (auto split: if_splits)
  show "placed m' s base (xs @ ys)"
    using lcp(3,5) by (simp add: placed_append)
qed

lemma remove_placed: "placed m s base (xs @ a # ys) \<Longrightarrow> placed m s base (xs @ ys)"
  by (cases ys) (auto simp: placed_append rsize_def)

section \<open>The writes of the allocator, on the memory that is seen\<close>

lemma prog_uintptr_ok:
  assumes "low_ok st T" "sector_of a \<in> T" "sector_off a + 4 \<le> 4096"
  shows "\<exists>st'. prog_uintptr a v st = Some st' \<and> low_ok st' T \<and>
    view st' = put_bytes (view st) a (le_bytes 4 v)"
  using lf.program_word [OF assms(1,2) _ assms(3), of v]
  by (auto simp: prog_uintptr_def flash_program_uintptr_def)

lemma prog_halfword_ok:
  assumes "low_ok st T" "sector_of a \<in> T" "sector_off a + 2 \<le> 4096"
  shows "\<exists>st'. prog_halfword a v st = Some st' \<and> low_ok st' T \<and>
    view st' = put_bytes (view st) a (le_bytes 2 v)"
  using lf.program_word [OF assms(1,2) _ assms(3), of v]
  by (auto simp: prog_halfword_def flash_program_halfword_def)

lemma prog_block_ok:
  assumes "low_ok st T" "sector_of a \<in> T" "sector_off a + length bs \<le> 4096"
  shows "\<exists>st'. prog_block a bs st = Some st' \<and> low_ok st' T \<and> view st' = put_bytes (view st) a bs"
proof (cases "bs = []")
  case True
  with assms(1) show ?thesis by (simp add: prog_block_def flash_program_block_def)
next
  case False
  with lf.program_law [OF assms(1,2) False assms(3)] show ?thesis by (auto simp: prog_block_def)
qed

definition linkmem :: "mem \<Rightarrow> nat \<Rightarrow> nat \<Rightarrow> nat list \<Rightarrow> mem" where
  "linkmem m p a ys =
     (case ys of
        [] \<Rightarrow> put_bytes (put_bytes (put_bytes m a (le_bytes 4 0)) (a + 4) (le_bytes 4 p)) p (le_bytes 4 a)
      | q # _ \<Rightarrow> put_bytes (put_bytes (put_bytes (put_bytes m a (le_bytes 4 q)) (q + 4) (le_bytes 4 a))
                  (a + 4) (le_bytes 4 p)) p (le_bytes 4 a))"

lemma link_last_ok:
  assumes ok: "low_ok st T" and T: "sector_of a \<in> T" "sector_of p \<in> T"
    and off: "sector_off a + 8 \<le> 4096" "sector_off p + 4 \<le> 4096"
  shows "\<exists>st'. link_last p a st = Some st' \<and> low_ok st' T \<and> view st' = linkmem (view st) p a []"
proof -
  have a4: "sector_of (a + 4) \<in> T" "sector_off (a + 4) + 4 \<le> 4096"
    using off T by (simp_all add: sector_add sector_off_add)
  obtain st1 where st1: "prog_uintptr a 0 st = Some st1" "low_ok st1 T"
    "view st1 = put_bytes (view st) a (le_bytes 4 0)"
    using prog_uintptr_ok [OF ok T(1), of 0] off by auto
  obtain st2 where st2: "prog_uintptr (a + 4) p st1 = Some st2" "low_ok st2 T"
    "view st2 = put_bytes (view st1) (a + 4) (le_bytes 4 p)"
    using prog_uintptr_ok [OF st1(2) a4, of p] by auto
  obtain st3 where st3: "prog_uintptr p a st2 = Some st3" "low_ok st3 T"
    "view st3 = put_bytes (view st2) p (le_bytes 4 a)"
    using prog_uintptr_ok [OF st2(2) T(2) off(2), of a] by auto
  show ?thesis using st1 st2 st3 by (simp add: link_last_def linkmem_def)
qed

lemma link_between_ok:
  assumes ok: "low_ok st T" and T: "sector_of a \<in> T" "sector_of p \<in> T" "sector_of q \<in> T"
    and off: "sector_off a + 8 \<le> 4096" "sector_off p + 4 \<le> 4096" "sector_off q + 8 \<le> 4096"
  shows "\<exists>st'. link_between p q a st = Some st' \<and> low_ok st' T \<and> view st' = linkmem (view st) p a (q # zs)"
proof -
  have a4: "sector_of (a + 4) \<in> T" "sector_off (a + 4) + 4 \<le> 4096"
    and q4: "sector_of (q + 4) \<in> T" "sector_off (q + 4) + 4 \<le> 4096"
    using off T by (simp_all add: sector_add sector_off_add)
  obtain st1 where st1: "prog_uintptr a q st = Some st1" "low_ok st1 T"
    "view st1 = put_bytes (view st) a (le_bytes 4 q)"
    using prog_uintptr_ok [OF ok T(1), of q] off by auto
  obtain st2 where st2: "prog_uintptr (q + 4) a st1 = Some st2" "low_ok st2 T"
    "view st2 = put_bytes (view st1) (q + 4) (le_bytes 4 a)"
    using prog_uintptr_ok [OF st1(2) q4, of a] by auto
  obtain st3 where st3: "prog_uintptr (a + 4) p st2 = Some st3" "low_ok st3 T"
    "view st3 = put_bytes (view st2) (a + 4) (le_bytes 4 p)"
    using prog_uintptr_ok [OF st2(2) a4, of p] by auto
  obtain st4 where st4: "prog_uintptr p a st3 = Some st4" "low_ok st4 T"
    "view st4 = put_bytes (view st3) p (le_bytes 4 a)"
    using prog_uintptr_ok [OF st3(2) T(2) off(2), of a] by auto
  show ?thesis using st1 st2 st3 st4 by (simp add: link_between_def linkmem_def)
qed

text \<open>Reading words and half-words of a state with an empty cache.\<close>

definition clean :: "low \<Rightarrow> bool" where
  "clean st \<longleftrightarrow> low_inv st \<and> no_erase st \<and> cached_sectors st = {}"

lemma clean_ok: "clean st \<Longrightarrow> finite T \<Longrightarrow> card T < 4 \<Longrightarrow> low_ok st T"
  by (simp add: clean_def low_ok_def)

lemma read_uintptr_ok: "low_ok st T \<Longrightarrow> sector_off a + 4 \<le> 4096 \<Longrightarrow> flash_read_uintptr st a = Some (w32 (view st) a)"
  using lf.read_law [of st T a 4] by (simp add: flash_read_uintptr_def w32_def)

lemma read_uint16_ok: "low_ok st T \<Longrightarrow> sector_off a + 2 \<le> 4096 \<Longrightarrow> flash_read_uint16 st a = Some (w16 (view st) a)"
  using lf.read_law [of st T a 2] by (simp add: flash_read_uint16_def w16_def)

text \<open>Where the allocator may put a record: in a gap of the pool and in one sector.\<close>

definition slot :: "mem \<Rightarrow> nat \<Rightarrow> nat \<Rightarrow> nat \<Rightarrow> nat list \<Rightarrow> nat \<Rightarrow> bool" where
  "slot m startp n p ys a \<longleftrightarrow>
     a + n \<le> p \<and> (\<forall>q zs. ys = q # zs \<longrightarrow> q + rsize m q \<le> a) \<and>
     sector_off a + n \<le> 4096 \<and> startp \<le> sector_of a"

definition near :: "nat \<Rightarrow> nat \<Rightarrow> nat list \<Rightarrow> nat set" where
  "near p a ys = insert (sector_of a) (insert (sector_of p) (set (map sector_of (take 1 ys))))"

lemma near_ok: "clean st \<Longrightarrow> low_ok st (near p a ys)"
proof (rule clean_ok)
  have "card (near p a ys) \<le> card {sector_of a, sector_of p} + card (set (map sector_of (take 1 ys)))"
    unfolding near_def using card_Un_le [of "{sector_of a, sector_of p}"] by simp
  also have "card (set (map sector_of (take 1 ys))) \<le> 1"
    using card_length [of "map sector_of (take 1 ys)"] by simp
  also have "card {sector_of a, sector_of p} \<le> 2"
    using card_length [of "[sector_of a, sector_of p]"] by simp
  finally show "card (near p a ys) < 4" by simp
qed (simp_all add: near_def)

lemma sector_below:
  assumes "sector_of base \<le> base - n" "n \<le> base"
  shows "sector_of (base - n) = sector_of base \<and> sector_off (base - n) + n = sector_off base"
proof -
  have "base < sector_of base + 4096" using sector_split [of base] sector_off_less [of base] by linarith
  then have "sector_of (base - n) = sector_of base \<and> sector_off (base - n) = base - n - sector_of base"
    using assms by (intro in_sector) auto
  then show ?thesis using assms sector_split [of base] by linarith
qed

lemma sector_previous:
  assumes s: "s mod 4096 = 0" and n: "0 < n" "n \<le> 4096" "4096 \<le> s"
  shows "sector_of (s - n) = s - 4096 \<and> sector_off (s - n) + n = 4096"
proof -
  have "(s - 4096) mod 4096 = 0" using s n by (simp add: mod_eq_0_iff_dvd)
  then have "sector_of (s - n) = s - 4096 \<and> sector_off (s - n) = s - n - (s - 4096)"
    using n by (intro in_sector) auto
  then show ?thesis using n by linarith
qed

text \<open>No gap was found, and the end of the list is in the last sector of the pool, which is full.\<close>

definition pool_full :: "nat \<Rightarrow> nat \<Rightarrow> nat list \<Rightarrow> nat \<Rightarrow> bool" where
  "pool_full startp base ys n \<longleftrightarrow>
     last (base # ys) < sector_of (last (base # ys)) + n \<and> sector_of (last (base # ys)) < startp + 4096"

lemma pool_full_Cons: "pool_full startp base (q # ys) n = pool_full startp q ys n"
  by (simp add: pool_full_def)

lemma alloc_loop_ok:
  assumes st: "clean st" and startp: "8192 \<le> startp" and n: "12 \<le> n" "n \<le> 4096"
    and path: "path (view st) base ys" and nil: "w32 (view st) (last (base # ys)) = 0"
    and placed: "placed (view st) startp base ys"
    and base: "startp \<le> sector_of base" "sector_off base + 4 \<le> 4096" "base < 2 ^ 32"
  shows "alloc_loop st n startp base = Some (0, st) \<and> pool_full startp base ys n \<or>
    (\<exists>us vs a st'. ys = us @ vs \<and> alloc_loop st n startp base = Some (a, st') \<and>
       slot (view st) startp n (last (base # us)) vs a \<and> low_ok st' (near (last (base # us)) a vs) \<and>
       view st' = linkmem (view st) (last (base # us)) a vs)"
  using path nil placed base
proof (induction ys arbitrary: base)
  case Nil
  note b = Nil.prems(4-6)
  have bs: "startp \<le> base" "8192 \<le> base" using b startp sector_split [of base] by linarith+
  have r: "flash_read_uintptr st base = Some 0"
    using read_uintptr_ok [OF near_ok [OF st], of base] b Nil.prems(2) by simp
  have sub: "sub32 base n = base - n" "sub32 (sector_of base) 4096 = sector_of base - 4096"
    "sub32 (sector_of base) n = sector_of base - n"
    using b bs n startp sector_split [of base] by (auto intro!: sub32_exact)
  show ?case
  proof (cases "sector_of base \<le> base - n")
    case True
    let ?a = "base - n"
    have sa: "sector_of ?a = sector_of base" "sector_off ?a + n = sector_off base"
      using sector_below [of base n] True n bs by auto
    obtain st' where "link_last base ?a st = Some st'" "low_ok st' (near base ?a [])"
      "view st' = linkmem (view st) base ?a []"
      using link_last_ok [OF near_ok [OF st], of ?a base ?a "[]" base] b sa n sector_off_less [of base]
      by (auto simp: near_def)
    moreover have "slot (view st) startp n base [] ?a"
      using sa n b bs sector_off_less [of base] by (auto simp: slot_def)
    ultimately show ?thesis
      using True bs r sub by (subst alloc_loop.simps) (auto intro!: exI [of _ "[]"])
  next
    case False
    show ?thesis
    proof (cases "startp \<le> sector_of base - 4096")
      case True
      let ?a = "sector_of base - n"
      have sa: "sector_of ?a = sector_of base - 4096" "sector_off ?a + n = 4096"
        using sector_previous [of "sector_of base" n] n b startp by auto
      obtain st' where "link_last base ?a st = Some st'" "low_ok st' (near base ?a [])"
        "view st' = linkmem (view st) base ?a []"
        using link_last_ok [OF near_ok [OF st], of ?a base ?a "[]" base] b sa n
        by (auto simp: near_def)
      moreover have "slot (view st) startp n base [] ?a"
        using sa n b bs startp True sector_split [of base] by (auto simp: slot_def)
      ultimately show ?thesis
        using True False bs r sub by (subst alloc_loop.simps) (auto simp: FLASH_SECTOR_SIZE_def intro!: exI [of _ "[]"])
    next
      case False': False
      have "pool_full startp base [] n" using False False' n startp b by (simp add: pool_full_def) linarith
      with False False' bs r sub show ?thesis by (subst alloc_loop.simps) (simp add: FLASH_SECTOR_SIZE_def)
    qed
  qed
next
  case (Cons q ys)
  note b = Cons.prems(4-6)
  have q: "w32 (view st) base = q" "0 < q" and pq: "path (view st) q ys"
    and sq: "startp \<le> sector_of q" "q + rsize (view st) q \<le> base" "sector_off q + rsize (view st) q \<le> 4096"
    and plq: "placed (view st) startp q ys"
    using Cons.prems(1,3) by auto
  have q12: "12 \<le> rsize (view st) q" by (simp add: rsize_def)
  have bs: "startp \<le> base" "8192 \<le> base" using b startp sector_split [of base] by linarith+
  have ok: "low_ok st (near base (base - n) (q # ys))" by (rule near_ok [OF st])
  have r: "flash_read_uintptr st base = Some q" using read_uintptr_ok [OF ok, of base] b q by simp
  have len: "flash_read_uint16 st (q + 4 + 4 + 2) = Some (rsize (view st) q - 12)"
  proof -
    have "q + 4 + 4 + 2 = q + 10" by simp
    moreover have "flash_read_uint16 st (q + 10) = Some (rsize (view st) q - 12)"
      using read_uint16_ok [OF ok, of "q + 10"] sq q12 sector_off_add [of q 10] by (simp add: rsize_def)
    ultimately show ?thesis by (simp only:)
  qed
  obtain i where id: "flash_read_uint16 st (q + 2 * 4) = Some i"
    using read_uint16_ok [OF ok, of "q + 8"] sq q12 sector_off_add [of q 8] by simp
  have sub: "sub32 base n = base - n" "sub32 base (base - n) = n"
    "sub32 base (q + (rsize (view st) q - 12) + 2 * 2 + 2 * 4) = base - (q + rsize (view st) q)"
    using b bs n sq q12 by (auto simp: sub32_exact)
  have gap: "gap_fits st base q (base - n) = Some (sector_of base \<le> base - n \<and>
      n < base - (q + rsize (view st) q) \<and> i AND 0x1000 \<noteq> 0x1000)"
    unfolding gap_fits_def len id by (simp only: bind.bind_lunit sub split: if_splits) simp
  define fits where "fits \<longleftrightarrow> sector_of base \<le> base - n \<and>
      n < base - (q + rsize (view st) q) \<and> i AND 0x1000 \<noteq> 0x1000"
  have fits: "gap_fits st base q (base - n) = Some fits" using gap by (simp add: fits_def)
  have fits_gap: "sector_of base \<le> base - n \<and> q + rsize (view st) q \<le> base - n" if fits
    using that unfolding fits_def by linarith
  show ?case
  proof (cases fits)
    case True
    let ?a = "base - n"
    have sa: "sector_of ?a = sector_of base" "sector_off ?a + n = sector_off base"
      using sector_below [of base n] fits_gap True n bs by auto
    obtain st' where "link_between base q ?a st = Some st'" "low_ok st' (near base ?a (q # ys))"
      "view st' = linkmem (view st) base ?a (q # ys)"
      using link_between_ok [OF ok, of ?a base q ys] b sa n sq q12 sector_off_less [of base]
      by (auto simp: near_def)
    moreover have "slot (view st) startp n base (q # ys) ?a"
      using sa n b bs fits_gap True sector_off_less [of base] by (auto simp: slot_def)
    ultimately show ?thesis
      using True bs r fits sub q by (subst alloc_loop.simps) (auto intro!: exI [of _ "[]"])
  next
    case False
    have next_base: "alloc_loop st n startp base = alloc_loop st n startp q"
      using False bs r fits sub q by (subst alloc_loop.simps) simp
    have "w32 (view st) (last (q # ys)) = 0" using Cons.prems(2) by simp
    moreover have "sector_off q + 4 \<le> 4096" "q < 2 ^ 32" using sq q12 b by auto
    ultimately have "alloc_loop st n startp q = Some (0, st) \<and> pool_full startp q ys n \<or>
      (\<exists>us vs a st'. ys = us @ vs \<and> alloc_loop st n startp q = Some (a, st') \<and>
       slot (view st) startp n (last (q # us)) vs a \<and> low_ok st' (near (last (q # us)) a vs) \<and>
       view st' = linkmem (view st) (last (q # us)) a vs)"
      using pq plq sq by (intro Cons.IH) auto
    then show ?thesis
    proof (elim disjE exE conjE)
      fix us vs a st'
      assume "ys = us @ vs" "alloc_loop st n startp q = Some (a, st')"
        "slot (view st) startp n (last (q # us)) vs a" "low_ok st' (near (last (q # us)) a vs)"
        "view st' = linkmem (view st) (last (q # us)) a vs"
      then have "q # ys = (q # us) @ vs \<and> alloc_loop st n startp base = Some (a, st') \<and>
         slot (view st) startp n (last (base # q # us)) vs a \<and>
         low_ok st' (near (last (base # q # us)) a vs) \<and>
         view st' = linkmem (view st) (last (base # q # us)) a vs"
        using next_base by simp
      then show ?thesis by blast
    qed (simp add: next_base pool_full_Cons)
  qed
qed

section \<open>The pool as a finite map from addresses to files\<close>

definition pool_start :: "board \<Rightarrow> bool \<Rightarrow> nat" where
  "pool_start b persistent = (if persistent then start_rom_pool b else start_data_pool b)"

definition pool_end :: "board \<Rightarrow> bool \<Rightarrow> nat" where
  "pool_end b persistent = (if persistent then end_rom_pool b else end_data_pool b)"

definition persistent_file :: "nat file_t \<Rightarrow> bool" where
  "persistent_file f \<longleftrightarrow> ftype f AND FILE_PERSISTENT = FILE_PERSISTENT"

text \<open>The contents of a pool: which records there are, with their identifier and their payload.\<close>

definition pool_map :: "mem \<Rightarrow> nat list \<Rightarrow> nat \<Rightarrow> (nat \<times> bytes) option" where
  "pool_map m as a = (if a \<in> set as then Some (w16 m (a + 8), get_bytes m (a + 12) (w16 m (a + 10))) else None)"

lemma placed_distinct: "placed m s base as \<Longrightarrow> distinct as \<and> base \<notin> set as"
proof (induction as arbitrary: base)
  case Nil
  then show ?case by simp
next
  case (Cons a as)
  then have "distinct as \<and> a \<notin> set as" "a + 12 \<le> base" by (auto simp: rsize_def)
  moreover have "base \<notin> set as" using Cons.prems placed_below [of m s a as base] by (auto simp: rsize_def)
  ultimately show ?case by auto
qed

lemma local_change_map:
  assumes lc: "local_change m m' s base xs ys a n" and x: "x \<in> set (xs @ ys)" "x \<in> set zs" "x \<in> set zs'"
  shows "pool_map m' zs x = pool_map m zs' x"
proof -
  have "w16 m' (x + 10) = w16 m (x + 10)" "w16 m' (x + 8) = w16 m (x + 8)"
    "get_bytes m' (x + 12) (w16 m (x + 10)) = get_bytes m (x + 12) (w16 m (x + 10))"
    using local_change_keep [OF lc x(1), of 10 2] local_change_keep [OF lc x(1), of 8 2]
      local_change_keep [OF lc x(1), of 12 "w16 m (x + 10)"] by (auto simp: rsize_def w16_def)
  with x show ?thesis by (simp add: pool_map_def)
qed

definition record_mem :: "mem \<Rightarrow> nat \<Rightarrow> nat \<Rightarrow> bytes \<Rightarrow> mem" where
  "record_mem m a i bs =
     put_bytes (put_bytes (put_bytes m (a + 8) (le_bytes 2 i)) (a + 10) (le_bytes 2 (length bs))) (a + 12) bs"

lemma record_mem_w32: "x + 4 \<le> a + 8 \<or> a + 12 + length bs \<le> x \<Longrightarrow> w32 (record_mem m a i bs) x = w32 m x"
  by (auto simp: record_mem_def w32_put_other)

lemma record_mem_fields:
  assumes "i < 2 ^ 16" "length bs < 2 ^ 16"
  shows "w16 (record_mem m a i bs) (a + 8) = i" "w16 (record_mem m a i bs) (a + 10) = length bs"
    "get_bytes (record_mem m a i bs) (a + 12) (length bs) = bs"
  using assms by (simp_all add: record_mem_def w16_put_other w16_put_same get_put_same)

lemma linkmem_words:
  assumes "a + 12 \<le> p" "p < 2 ^ 32" "\<And>q zs. ys = q # zs \<Longrightarrow> q + 12 \<le> a"
  shows "w32 (linkmem m p a ys) a = (case ys of [] \<Rightarrow> 0 | q # _ \<Rightarrow> q)"
    "w32 (linkmem m p a ys) (a + 4) = p" "w32 (linkmem m p a ys) p = a"
    "ys = q # zs \<Longrightarrow> w32 (linkmem m p a ys) (q + 4) = a"
  using assms by (auto simp: linkmem_def w32_put_other w32_put_same split: list.split)

lemma new_record_change:
  assumes pl: "placed m s base (xs @ ys)" and sl: "slot m s (12 + length bs) (last (base # xs)) ys a"
  shows "local_change m (record_mem (linkmem m (last (base # xs)) a ys) a i bs) s base xs ys a (12 + length bs)"
proof -
  let ?R = "touched (last (base # xs)) a (12 + length bs) ys"
  have "same_outside ?R m (linkmem m (last (base # xs)) a ys)"
    unfolding linkmem_def using sl
    by (cases ys) (auto intro!: same_outside_put same_outside_refl simp: touched_def)
  then have "same_outside ?R m (record_mem (linkmem m (last (base # xs)) a ys) a i bs)"
    unfolding record_mem_def by (intro same_outside_put) (auto simp: touched_def)
  with pl sl show ?thesis by (auto simp: local_change_def slot_def)
qed

text \<open>The memory after a new record \<open>a\<close> has been linked in and filled.\<close>

lemma new_record_pool:
  assumes pool: "pool_ok m s base (xs @ ys)" and sl: "slot m s (12 + length bs) (last (base # xs)) ys a"
    and i: "i < 2 ^ 16"
  shows "pool_ok (record_mem (linkmem m (last (base # xs)) a ys) a i bs) s base (xs @ a # ys)"
    and "a \<notin> set (xs @ ys)"
    and "pool_map (record_mem (linkmem m (last (base # xs)) a ys) a i bs) (xs @ a # ys) =
      (pool_map m (xs @ ys))(a \<mapsto> (i, bs))"
proof -
  let ?p = "last (base # xs)" and ?n = "12 + length bs"
  let ?m' = "record_mem (linkmem m ?p a ys) a i bs"
  have pl: "placed m s base (xs @ ys)" and path: "path m base (xs @ ys)"
    and nil: "w32 m (last (base # xs @ ys)) = 0" and base: "base < 2 ^ 32" "8192 \<le> s"
    using pool by (auto simp: pool_ok_def)
  note lc = new_record_change [OF pl sl, of i]
  have sp: "a + ?n \<le> ?p" "sector_off a + ?n \<le> 4096" "s \<le> sector_of a" using sl by (auto simp: slot_def)
  have q: "q + 12 \<le> a" if "ys = q # zs" for q zs using local_change_q [OF lc that] .
  have up: "?p \<le> base"
    using placed_below [of m s base xs ?p] pl by (auto simp: placed_append)
  then have p32: "?p < 2 ^ 32" using base by linarith
  have len: "length bs < 2 ^ 16" using sp by simp
  have "a + 12 \<le> ?p" using sp by simp
  note lw = linkmem_words [OF this p32 q]
  have w: "w32 ?m' a = (case ys of [] \<Rightarrow> 0 | q # _ \<Rightarrow> q)" "w32 ?m' (a + 4) = ?p" "w32 ?m' ?p = a"
    using sp lw(1,2,3) by (simp_all add: record_mem_w32)
  have wq: "w32 ?m' (q + 4) = a" if "ys = q # zs" for q zs
    using q [OF that] lw(4) [OF _ that] by (simp add: record_mem_w32)
  note f = record_mem_fields [OF i len, of "linkmem m ?p a ys" a]
  have a0: "0 < a" using sp base sector_split [of a] by linarith
  have "rsize ?m' a = ?n" using f by (simp add: rsize_def)
  note ins = insert_pool [OF lc path nil a0 w wq sp(3) sp(2) this]
  show "pool_ok ?m' s base (xs @ a # ys)" using ins pool by (simp add: pool_ok_def)
  then have "a \<notin> set (xs @ ys)" using placed_distinct [OF ins(3)] by simp
  then show "a \<notin> set (xs @ ys)" .
  show "pool_map ?m' (xs @ a # ys) = (pool_map m (xs @ ys))(a \<mapsto> (i, bs))"
  proof
    fix x
    show "pool_map ?m' (xs @ a # ys) x = ((pool_map m (xs @ ys))(a \<mapsto> (i, bs))) x"
      using f local_change_map [OF lc, of x "xs @ a # ys" "xs @ ys"] by (auto simp: pool_map_def)
  qed
qed

lemma near_parts: "sector_of a \<in> near p a ys" "sector_of p \<in> near p a ys" "ys = q # zs \<Longrightarrow> sector_of q \<in> near p a ys"
  by (auto simp: near_def)

lemma prog_block_in:
  assumes "low_ok st T" "sector_of a \<in> T" "sector_off a + (k + length bs) \<le> 4096"
  shows "\<exists>st'. prog_block (a + k) bs st = Some st' \<and> low_ok st' T \<and> view st' = put_bytes (view st) (a + k) bs"
proof (cases "bs = []")
  case True
  with assms(1) show ?thesis by (simp add: prog_block_def flash_program_block_def)
next
  case False
  then have "sector_off a + k < 4096" using assms(3) by (cases bs) auto
  with assms show ?thesis by (intro prog_block_ok) (auto simp: sector_add sector_off_add)
qed

lemma fill_record_ok:
  assumes ok: "low_ok st T" and a: "sector_of a \<in> T" "sector_off a + (12 + length bs) \<le> 4096"
  shows "\<exists>st1 st2 st3. prog_halfword (a + 8) i st = Some st1 \<and> prog_halfword (a + 10) (length bs) st1 = Some st2 \<and>
     prog_block (a + 12) bs st2 = Some st3 \<and> low_ok st3 T \<and> view st3 = record_mem (view st) a i bs"
proof -
  have s: "sector_of (a + 8) \<in> T" "sector_off (a + 8) + 2 \<le> 4096" "sector_of (a + 10) \<in> T"
    "sector_off (a + 10) + 2 \<le> 4096" using a by (auto simp: sector_add sector_off_add)
  obtain st1 where st1: "prog_halfword (a + 8) i st = Some st1" "low_ok st1 T"
    "view st1 = put_bytes (view st) (a + 8) (le_bytes 2 i)" using prog_halfword_ok [OF ok s(1,2)] by auto
  obtain st2 where st2: "prog_halfword (a + 10) (length bs) st1 = Some st2" "low_ok st2 T"
    "view st2 = put_bytes (view st1) (a + 10) (le_bytes 2 (length bs))" using prog_halfword_ok [OF st1(2) s(3,4)] by auto
  obtain st3 where "prog_block (a + 12) bs st2 = Some st3" "low_ok st3 T"
    "view st3 = put_bytes (view st2) (a + 12) bs" using prog_block_in [OF st2(2) a] by auto
  with st1 st2 show ?thesis by (simp add: record_mem_def)
qed

text \<open>
  C11: \<open>write_new_record\<close>, the store of a file of at most 4084 bytes that has no record yet, always
  returns.  Either the last sector of the pool is reached and full, then the answer is
  \<^verbatim>\<open>CCID_ERR_NO_MEMORY\<close> and nothing has changed, or there is one new record, linked in at its place: the pool is again a well-linked list of
  disjoint records, the new record has the identifier and the bytes of the file, every other record
  keeps its own, and the file points to the new record.
\<close>

lemma write_new_record_stores:
  assumes st: "clean st" and bs: "length bs \<le> 4084"
    and pool: "pool_ok (view st) (pool_start b (persistent_file f)) (pool_end b (persistent_file f)) as"
  shows "write_new_record b st f (Some bs) (length bs) = Some (CCID_ERR_NO_MEMORY, st, f) \<and>
      pool_full (pool_start b (persistent_file f)) (pool_end b (persistent_file f)) as (length bs + 12) \<or>
    (\<exists>xs ys a st'. as = xs @ ys \<and>
       write_new_record b st f (Some bs) (length bs) = Some (CCID_OK, st', f\<lparr>data := Some (a + 10)\<rparr>) \<and>
       pool_ok (view st') (pool_start b (persistent_file f)) (pool_end b (persistent_file f)) (xs @ a # ys) \<and>
       a \<notin> set as \<and> pool_map (view st') (xs @ a # ys) = (pool_map (view st) as)(a \<mapsto> (unat (fid f), bs)))"
proof -
  let ?s = "pool_start b (persistent_file f)" and ?e = "pool_end b (persistent_file f)"
  let ?n = "length bs + 2 + 4 + 2 + 4"
  have alloc: "allocate_free_addr b st (length bs) (ftype f AND FILE_PERSISTENT = FILE_PERSISTENT) =
      alloc_loop st ?n ?s ?e"
    using bs by (simp add: allocate_free_addr_def pool_start_def pool_end_def persistent_file_def flash_sizes)
  have "alloc_loop st ?n ?s ?e = Some (0, st) \<and> pool_full ?s ?e as ?n \<or>
    (\<exists>us vs a st'. as = us @ vs \<and> alloc_loop st ?n ?s ?e = Some (a, st') \<and>
       slot (view st) ?s ?n (last (?e # us)) vs a \<and> low_ok st' (near (last (?e # us)) a vs) \<and>
       view st' = linkmem (view st) (last (?e # us)) a vs)"
    using pool bs by (intro alloc_loop_ok [OF st]) (auto simp: pool_ok_def)
  then show ?thesis
  proof (elim disjE exE conjE)
    assume "alloc_loop st ?n ?s ?e = Some (0, st)" "pool_full ?s ?e as ?n"
    then show ?thesis unfolding write_new_record_def alloc by (simp add: ac_simps)
  next
    fix us vs a st1
    assume as: "as = us @ vs" and run: "alloc_loop st ?n ?s ?e = Some (a, st1)"
      and sl: "slot (view st) ?s ?n (last (?e # us)) vs a" and ok: "low_ok st1 (near (last (?e # us)) a vs)"
      and v: "view st1 = linkmem (view st) (last (?e # us)) a vs"
    have n: "?n = 12 + length bs" by simp
    note sl = sl [unfolded n]
    have "sector_off a + (12 + length bs) \<le> 4096" using sl by (simp add: slot_def)
    from fill_record_ok [OF ok near_parts(1) this, of "unat (fid f)"]
    obtain st2 st3 st4 where fill: "prog_halfword (a + 8) (unat (fid f)) st1 = Some st2"
      "prog_halfword (a + 10) (length bs) st2 = Some st3" "prog_block (a + 12) bs st3 = Some st4"
      and v4: "view st4 = record_mem (view st1) a (unat (fid f)) bs" by blast
    have "unat (fid f) < 2 ^ 16" using unsigned_less [of "fid f", where ?'a = nat] by simp
    note rec = new_record_pool [OF pool [unfolded as] sl this]
    have "0 < a" using sl pool sector_split [of a] by (auto simp: slot_def pool_ok_def)
    moreover have "a + 4 + 4 = a + 8" "a + 4 + 2 + 4 = a + 10" "a + 10 + 2 = a + 12" by simp_all
    ultimately have w: "write_new_record b st f (Some bs) (length bs) = Some (CCID_OK, st4, f\<lparr>data := Some (a + 10)\<rparr>)"
      unfolding write_new_record_def alloc run using fill by (simp only: Let_def bind.bind_lunit prod.case option.case) simp
    from rec v v4 as w show ?thesis by (intro disjI2 exI [of _ us] exI [of _ vs] exI [of _ a] exI [of _ st4]) simp
  qed
qed

text \<open>Unlinking, on the memory: the five writes of \<open>flash_clear_file\<close>.\<close>

definition unlink_mem :: "mem \<Rightarrow> nat \<Rightarrow> nat \<Rightarrow> nat list \<Rightarrow> mem" where
  "unlink_mem m p a ys =
     (let nx = (case ys of [] \<Rightarrow> 0 | q # _ \<Rightarrow> q);
          m1 = put_bytes (put_bytes m p (le_bytes 4 nx)) (a + 10) (le_bytes 2 0);
          m2 = (case ys of [] \<Rightarrow> m1 | q # _ \<Rightarrow> put_bytes m1 (q + 4) (le_bytes 4 p))
      in put_bytes (put_bytes m2 a (le_bytes 4 0)) (a + 4) (le_bytes 4 0))"

lemma unlink_words:
  assumes "a + 12 \<le> p" "p < 2 ^ 32" "\<And>q zs. ys = q # zs \<Longrightarrow> q + 12 \<le> a"
  shows "w32 (unlink_mem m p a ys) p = (case ys of [] \<Rightarrow> 0 | q # _ \<Rightarrow> q)"
    "ys = q # zs \<Longrightarrow> w32 (unlink_mem m p a ys) (q + 4) = p"
  using assms by (auto simp: unlink_mem_def Let_def w32_put_other w32_put_same split: list.split)

lemma unlink_change:
  assumes pl: "placed m s base (xs @ a # ys)"
  shows "local_change m (unlink_mem m (last (base # xs)) a ys) s base xs ys a (rsize m a)"
proof -
  let ?R = "touched (last (base # xs)) a (rsize m a) ys"
  have "12 \<le> rsize m a" by (simp add: rsize_def)
  then have "same_outside ?R m (unlink_mem m (last (base # xs)) a ys)"
    unfolding unlink_mem_def Let_def
    by (cases ys) (auto intro!: same_outside_put same_outside_refl simp: touched_def)
  with pl \<open>12 \<le> rsize m a\<close> show ?thesis
    using remove_placed [OF pl] by (auto simp: local_change_def placed_append)
qed

lemma unlink_pool:
  assumes pool: "pool_ok m s base (xs @ a # ys)"
  shows "pool_ok (unlink_mem m (last (base # xs)) a ys) s base (xs @ ys)"
    and "pool_map (unlink_mem m (last (base # xs)) a ys) (xs @ ys) = (pool_map m (xs @ a # ys))(a := None)"
proof -
  let ?p = "last (base # xs)"
  let ?m' = "unlink_mem m ?p a ys"
  have pl: "placed m s base (xs @ a # ys)" and path: "path m base (xs @ a # ys)"
    and nil: "w32 m (last (base # xs @ a # ys)) = 0" and base: "base < 2 ^ 32"
    using pool by (auto simp: pool_ok_def)
  note lc = unlink_change [OF pl]
  have ap: "a + 12 \<le> ?p" using lc by (auto simp: local_change_def rsize_def)
  have up: "?p \<le> base"
    using placed_below [of m s base xs ?p] pl by (auto simp: placed_append)
  then have p32: "?p < 2 ^ 32" using base by linarith
  note uw = unlink_words [OF ap p32 local_change_q [OF lc]]
  have "w32 m a = (case ys of [] \<Rightarrow> 0 | q # _ \<Rightarrow> q)"
    using path nil by (auto simp: path_append split: list.split)
  then have "w32 ?m' ?p = w32 m a" using uw(1) by simp
  note rem = remove_pool [OF lc path nil this uw(2)]
  show "pool_ok ?m' s base (xs @ ys)" using rem pool by (simp add: pool_ok_def)
  show "pool_map ?m' (xs @ ys) = (pool_map m (xs @ a # ys))(a := None)"
  proof
    fix x
    show "pool_map ?m' (xs @ ys) x = ((pool_map m (xs @ a # ys))(a := None)) x"
      using local_change_map [OF lc, of x "xs @ ys" "xs @ a # ys"] placed_distinct [OF pl]
      by (auto simp: pool_map_def)
  qed
qed

lemma pool_bounds:
  assumes pool: "pool_ok m s base (xs @ a # ys)"
  shows "a + rsize m a \<le> last (base # xs)" "last (base # xs) \<le> base" "base < 2 ^ 32" "0 < a"
    "sector_off a + rsize m a \<le> 4096" "sector_off (last (base # xs)) + 4 \<le> 4096"
    "ys = q # zs \<Longrightarrow> 0 < q \<and> sector_off q + rsize m q \<le> 4096 \<and> q + rsize m q \<le> a"
    "w32 m a = (case ys of [] \<Rightarrow> 0 | q # _ \<Rightarrow> q)" "w32 m (a + 4) = last (base # xs)"
    "w32 m (last (base # xs)) = a"
proof -
  have pl: "placed m s base (xs @ a # ys)" and path: "path m base (xs @ a # ys)"
    and nil: "w32 m (last (base # xs @ a # ys)) = 0" and base: "base < 2 ^ 32" "sector_off base + 4 \<le> 4096"
    using pool by (auto simp: pool_ok_def)
  show "a + rsize m a \<le> last (base # xs)" "sector_off a + rsize m a \<le> 4096" "0 < a" "w32 m (a + 4) = last (base # xs)"
    "w32 m (last (base # xs)) = a" "base < 2 ^ 32"
    using pl path base by (auto simp: placed_append path_append)
  show "ys = q # zs \<Longrightarrow> 0 < q \<and> sector_off q + rsize m q \<le> 4096 \<and> q + rsize m q \<le> a" for q zs
    using pl path by (auto simp: placed_append path_append)
  show "w32 m a = (case ys of [] \<Rightarrow> 0 | q # _ \<Rightarrow> q)"
    using path nil by (auto simp: path_append split: list.split)
  show "last (base # xs) \<le> base"
    using placed_below [of m s base xs "last (base # xs)"] pl by (auto simp: placed_append)
  show "sector_off (last (base # xs)) + 4 \<le> 4096"
    using placed_sector [of m s base "xs @ a # ys" "last (base # xs)"] pl base rsize12 [of m "last (base # xs)"] by auto
qed

lemma clear_writes:
  assumes ok: "low_ok st (near p a ys)" and a: "sector_off a + 12 \<le> 4096" "sector_off p + 4 \<le> 4096"
    and q: "\<And>q zs. ys = q # zs \<Longrightarrow> 0 < q \<and> sector_off q + 8 \<le> 4096"
    and links: "flash_read_uintptr st (a + 4) = Some p"
      "flash_read_uintptr st a = Some (case ys of [] \<Rightarrow> 0 | q # _ \<Rightarrow> q)" and d: "data f = Some (a + 10)" "a + 10 < 2 ^ 32"
  shows "\<exists>st'. flash_clear_file st (Some f) = Some (CCID_OK, st', Some (f\<lparr>data := None\<rparr>)) \<and>
    low_ok st' (near p a ys) \<and> view st' = unlink_mem (view st) p a ys"
proof -
  let ?T = "near p a ys" and ?nx = "case ys of [] \<Rightarrow> 0 | q # _ \<Rightarrow> q"
  have T: "sector_of (a + 10) \<in> ?T" "sector_of (a + 4) \<in> ?T" "sector_of a \<in> ?T" "sector_of p \<in> ?T"
    and off: "sector_off (a + 10) + 2 \<le> 4096" "sector_off (a + 4) + 4 \<le> 4096" "sector_off a + 4 \<le> 4096"
    using near_parts a by (auto simp: sector_add sector_off_add)
  obtain st1 where 1: "prog_uintptr p ?nx st = Some st1" "low_ok st1 ?T"
    "view st1 = put_bytes (view st) p (le_bytes 4 ?nx)" using prog_uintptr_ok [OF ok T(4) a(2)] by auto
  obtain st2 where 2: "prog_halfword (a + 10) 0 st1 = Some st2" "low_ok st2 ?T"
    "view st2 = put_bytes (view st1) (a + 10) (le_bytes 2 0)" using prog_halfword_ok [OF 1(2) T(1) off(1)] by auto
  obtain st3 where 3: "(if ?nx > 0 then prog_uintptr (?nx + 4) p st2 else Some st2) = Some st3" "low_ok st3 ?T"
    "view st3 = (case ys of [] \<Rightarrow> view st2 | q # _ \<Rightarrow> put_bytes (view st2) (q + 4) (le_bytes 4 p))"
  proof (cases ys)
    case Nil
    with 2 that show ?thesis by simp
  next
    case (Cons q zs)
    have "sector_of (q + 4) \<in> ?T" "sector_off (q + 4) + 4 \<le> 4096"
      using q [OF Cons] near_parts(3) [OF Cons] by (auto simp: sector_add sector_off_add)
    from prog_uintptr_ok [OF 2(2) this, of p] show ?thesis using that Cons q [OF Cons] by auto
  qed
  obtain st4 where 4: "prog_uintptr a 0 st3 = Some st4" "low_ok st4 ?T"
    "view st4 = put_bytes (view st3) a (le_bytes 4 0)" using prog_uintptr_ok [OF 3(2) T(3) off(3)] by auto
  obtain st5 where 5: "prog_uintptr (a + 4) 0 st4 = Some st5" "low_ok st5 ?T"
    "view st5 = put_bytes (view st4) (a + 4) (le_bytes 4 0)" using prog_uintptr_ok [OF 4(2) T(2) off(2)] by auto
  have s: "sub32 (a + 10) (4 + 2 + 4) = a" using d(2) by (simp add: sub32_exact)
  have "flash_clear_file st (Some f) = Some (CCID_OK, st5, Some (f\<lparr>data := None\<rparr>))"
    using d(1) links 1(1) 2(1) 3(1) 4(1) 5(1) unfolding flash_clear_file.simps d(1) option.case Let_def s
    by (simp only: bind.bind_lunit)
  moreover have "view st5 = unlink_mem (view st) p a ys"
    using 1(3) 2(3) 3(3) 4(3) 5(3) by (simp add: unlink_mem_def Let_def split: list.split)
  ultimately show ?thesis using 5(2) by blast
qed

text \<open>
  \<open>flash_clear_file\<close>, for a file whose record is in the pool, unlinks exactly that record: the pool
  is again a well-linked list of disjoint records, all other files keep their identifiers and bytes, and
  the file has no record any more.
\<close>

lemma flash_clear_file_removes:
  assumes st: "clean st" and pool: "pool_ok (view st) s base (xs @ a # ys)" and d: "data f = Some (a + 10)"
  shows "\<exists>st'. flash_clear_file st (Some f) = Some (CCID_OK, st', Some (f\<lparr>data := None\<rparr>)) \<and>
    pool_ok (view st') s base (xs @ ys) \<and>
    pool_map (view st') (xs @ ys) = (pool_map (view st) (xs @ a # ys))(a := None)"
proof -
  note b = pool_bounds [OF pool]
  have ra: "12 \<le> rsize (view st) a" by (simp add: rsize_def)
  have ok: "low_ok st (near (last (base # xs)) a ys)" by (rule near_ok [OF st])
  have off: "sector_off a + 12 \<le> 4096" "a + 10 < 2 ^ 32" using b(1,2,3,5) ra by linarith+
  have "sector_off (a + 4) + 4 \<le> 4096" using off by (simp add: sector_off_add)
  then have links: "flash_read_uintptr st (a + 4) = Some (last (base # xs))"
    "flash_read_uintptr st a = Some (case ys of [] \<Rightarrow> 0 | q # _ \<Rightarrow> q)"
    using b(8,9) off read_uintptr_ok [OF ok] by simp_all
  have q: "0 < q \<and> sector_off q + 8 \<le> 4096" if "ys = q # zs" for q zs
    using b(7) [OF that] rsize12 [of "view st" q] by linarith
  from clear_writes [OF ok off(1) b(6) q links d off(2)]
  show ?thesis using unlink_pool [OF pool] by fastforce
qed

text \<open>Writing inside a record: the length field and a part of the payload.\<close>

definition inplace_mem :: "mem \<Rightarrow> nat \<Rightarrow> nat \<Rightarrow> bytes \<Rightarrow> mem" where
  "inplace_mem m a offset bs =
     put_bytes (put_bytes m (a + 10) (le_bytes 2 (offset + length bs))) (a + 12 + offset) bs"

lemma inplace_words:
  assumes "offset + length bs \<le> w16 m (a + 10)"
  shows "w16 (inplace_mem m a offset bs) (a + 10) = offset + length bs"
    "w16 (inplace_mem m a offset bs) (a + 8) = w16 m (a + 8)"
    "x + 4 \<le> a + 10 \<or> a + rsize m a \<le> x \<Longrightarrow> w32 (inplace_mem m a offset bs) x = w32 m x"
    "get_bytes (inplace_mem m a offset bs) (a + 12) (offset + length bs) =
       take offset (get_bytes m (a + 12) (w16 m (a + 10))) @ bs"
proof -
  have len: "offset + length bs < 2 ^ 16" using assms w16_bound [of m "a + 10"] by linarith
  show "w16 (inplace_mem m a offset bs) (a + 10) = offset + length bs"
    "w16 (inplace_mem m a offset bs) (a + 8) = w16 m (a + 8)"
    using len by (simp_all add: inplace_mem_def w16_put_other w16_put_same)
  show "w32 (inplace_mem m a offset bs) x = w32 m x" if "x + 4 \<le> a + 10 \<or> a + rsize m a \<le> x"
    using that assms by (auto simp: inplace_mem_def rsize_def w32_put_other)
  have sp: "get_bytes m' x (k + n) = get_bytes m' x k @ get_bytes m' (x + k) n" for m' :: mem and x k n
    using upt_add_eq_append [of x "x + k" n] unfolding get_bytes_def by (simp only: map_append add.assoc)
  have "take offset (get_bytes m (a + 12) (w16 m (a + 10))) = get_bytes m (a + 12) offset"
    using assms by (simp add: get_bytes_def take_map)
  then show "get_bytes (inplace_mem m a offset bs) (a + 12) (offset + length bs) =
       take offset (get_bytes m (a + 12) (w16 m (a + 10))) @ bs"
    unfolding sp by (simp add: inplace_mem_def get_put_same get_put_other)
qed

lemma inplace_pool:
  assumes pool: "pool_ok m s base (xs @ a # ys)" and len: "offset + length bs \<le> w16 m (a + 10)"
  shows "pool_ok (inplace_mem m a offset bs) s base (xs @ a # ys)"
    and "pool_map (inplace_mem m a offset bs) (xs @ a # ys) =
      (pool_map m (xs @ a # ys))
        (a \<mapsto> (w16 m (a + 8), take offset (get_bytes m (a + 12) (w16 m (a + 10))) @ bs))"
proof -
  let ?p = "last (base # xs)" and ?m' = "inplace_mem m a offset bs" and ?n = "12 + (offset + length bs)"
  let ?m'' = "unlink_mem m ?p a ys"
  note b = pool_bounds [OF pool] and u = unlink_pool [OF pool] and iw = inplace_words [OF len]
  have pl: "placed m s base (xs @ a # ys)" using pool by (simp add: pool_ok_def)
  have r: "?n \<le> rsize m a" using len by (simp add: rsize_def)
  note lcu = unlink_change [OF pl]
  have in1: "same_outside (touched ?p a ?n ys) m ?m'"
    unfolding inplace_mem_def by (intro same_outside_put same_outside_refl) (auto simp: touched_def)
  have in2: "same_outside (touched ?p a ?n ys) m ?m''"
    unfolding unlink_mem_def Let_def
    by (cases ys) (auto intro!: same_outside_put same_outside_refl simp: touched_def)
  have lc0: "local_change m ?m' s base xs ys a ?n" and lc1: "local_change m ?m'' s base xs ys a ?n"
    using lcu in1 in2 r by (auto simp: local_change_def)
  have rs: "rsize ?m'' q = rsize m q" if "q \<in> set (xs @ ys)" for q using local_change_rsize [OF lc1 that] .
  have lc: "local_change ?m'' ?m' s base xs ys a ?n"
  proof -
    have "same_outside (touched ?p a ?n ys) ?m'' ?m'" using in1 in2 by (simp add: same_outside_def)
    moreover have "placed ?m'' s base (xs @ ys)" using u(1) by (simp add: pool_ok_def)
    ultimately show ?thesis using lc0 rs by (auto simp: local_change_def)
  qed
  have q: "w32 ?m' (q + 4) = a" if "ys = q # zs" for q zs
  proof -
    have "w32 m (q + 4) = a" using pool that by (simp add: pool_ok_def path_append)
    moreover have "q + 4 + 4 \<le> a + 10" using local_change_q [OF lcu that] by simp
    ultimately show ?thesis using iw(3) [of "q + 4"] by simp
  qed
  have w: "w32 ?m' a = (case ys of [] \<Rightarrow> 0 | q # _ \<Rightarrow> q)" "w32 ?m' (a + 4) = ?p" "w32 ?m' ?p = a"
    using iw(3) [of a] iw(3) [of "a + 4"] iw(3) [of ?p] b(1,8,9,10) by simp_all
  have sec: "s \<le> sector_of a" "sector_off a + ?n \<le> 4096"
    using placed_sector [OF pl, of a] r by auto
  have ra: "rsize ?m' a = ?n" using iw(1) by (simp add: rsize_def)
  have "path ?m'' base (xs @ ys)" "w32 ?m'' (last (base # xs @ ys)) = 0" using u(1) by (auto simp: pool_ok_def)
  note ins = insert_pool [OF lc this b(4) w q sec ra]
  show "pool_ok ?m' s base (xs @ a # ys)" using ins pool by (simp add: pool_ok_def)
  show "pool_map ?m' (xs @ a # ys) =
      (pool_map m (xs @ a # ys))
        (a \<mapsto> (w16 m (a + 8), take offset (get_bytes m (a + 12) (w16 m (a + 10))) @ bs))"
  proof
    fix x
    show "pool_map ?m' (xs @ a # ys) x = ((pool_map m (xs @ a # ys))
        (a \<mapsto> (w16 m (a + 8), take offset (get_bytes m (a + 12) (w16 m (a + 10))) @ bs))) x"
      using iw local_change_map [OF lc0, of x "xs @ a # ys" "xs @ a # ys"] by (auto simp: pool_map_def)
  qed
qed

text \<open>
  \<open>flash_write_data_to_file_offset\<close> into an existing record that is long enough overwrites the bytes
  from \<open>offset\<close> on, and the file then ends with the written bytes; no other file changes, and the pool
  keeps its form.
\<close>

lemma flash_write_in_place:
  assumes st: "clean st" and pool: "pool_ok (view st) s base (xs @ a # ys)" and d: "data f = Some (a + 10)"
    and len: "offset + length bs \<le> w16 (view st) (a + 10)"
  shows "\<exists>st'. flash_write_data_to_file_offset b st (Some f) (Some bs) (length bs) offset =
      Some (CCID_OK, st', Some f) \<and> pool_ok (view st') s base (xs @ a # ys) \<and>
      pool_map (view st') (xs @ a # ys) = (pool_map (view st) (xs @ a # ys))
        (a \<mapsto> (w16 (view st) (a + 8), take offset (get_bytes (view st) (a + 12) (w16 (view st) (a + 10))) @ bs))"
proof -
  let ?T = "near (last (base # xs)) a ys"
  note pb = pool_bounds [OF pool]
  have ra: "rsize (view st) a = 12 + w16 (view st) (a + 10)" by (simp add: rsize_def)
  have ok: "low_ok st ?T" by (rule near_ok [OF st])
  have off: "sector_off (a + 10) + 2 \<le> 4096" "sector_of (a + 10) \<in> ?T"
    "sector_off a + (12 + offset + length bs) \<le> 4096" "sector_of a \<in> ?T"
    using pb(5) ra len near_parts(1) by (simp_all add: sector_add sector_off_add)
  have rd: "flash_read_uint16 st (a + 10) = Some (w16 (view st) (a + 10))" by (rule read_uint16_ok [OF ok off(1)])
  obtain st1 where 1: "prog_halfword (a + 10) (offset + length bs) st = Some st1" "low_ok st1 ?T"
    "view st1 = put_bytes (view st) (a + 10) (le_bytes 2 (offset + length bs))"
    using prog_halfword_ok [OF ok off(2,1)] by blast
  obtain st2 where 2: "prog_block (a + (12 + offset)) bs st1 = Some st2"
    "view st2 = put_bytes (view st1) (a + (12 + offset)) bs"
    using prog_block_in [OF 1(2) off(4,3)] by blast
  have le: "\<not> (offset + length bs > FLASH_SECTOR_SIZE \<or> offset > w16 (view st) (a + 10))"
    using len off by (simp add: flash_sizes)
  have e: "a + 10 + 2 + offset = a + (12 + offset)" by simp
  have "flash_write_data_to_file_offset b st (Some f) (Some bs) (length bs) offset = Some (CCID_OK, st2, Some f)"
    unfolding flash_write_data_to_file_offset.simps d option.case rd bind.bind_lunit if_not_P [OF le] if_P [OF len] e
      1(1) 2(1) by simp
  moreover have "view st2 = inplace_mem (view st) a offset bs"
    using 1 2 by (simp add: inplace_mem_def add.assoc)
  ultimately show ?thesis using inplace_pool [OF pool len] by auto
qed

section \<open>The board, and concrete pools\<close>

text \<open>What the two regions need of the board: a flash of at least 64 KiB at a sector boundary.\<close>

definition board_ok :: "board \<Rightarrow> bool" where
  "board_ok b \<longleftrightarrow> XIP_BASE b mod 4096 = 0 \<and> PICO_FLASH_SIZE_BYTES b mod 8192 = 0 \<and>
     2 ^ 16 \<le> PICO_FLASH_SIZE_BYTES b \<and> XIP_BASE b + PICO_FLASH_SIZE_BYTES b \<le> 2 ^ 32"

lemma pool_geometry:
  assumes "board_ok b"
  defines "t \<equiv> XIP_BASE b + PICO_FLASH_SIZE_BYTES b"
  shows "sector_of (pool_end b True) = t - 4096" "sector_off (pool_end b True) = 4084"
    "sector_of (pool_end b False) = t - 20480" "sector_off (pool_end b False) = 4076"
    "pool_start b True = t - 16392" "pool_start b False \<le> t - 32768" "8192 \<le> pool_start b p"
    "pool_end b p < 2 ^ 32" "t mod 4096 = 0" "65536 \<le> t"
proof -
  obtain k where k: "PICO_FLASH_SIZE_BYTES b = 8192 * k" using assms(1) by (auto simp: board_ok_def mod_eq_0_iff_dvd)
  have "PICO_FLASH_SIZE_BYTES b mod 4096 = 0" unfolding k by (simp add: mod_eq_0_iff_dvd)
  then have t0: "t mod 4096 = 0" using assms(1) unfolding t_def board_ok_def by (simp add: mod_add_eq [symmetric])
  then show "t mod 4096 = 0" .
  have big: "65536 \<le> t" "t \<le> 2 ^ 32" using assms(1) by (auto simp: t_def board_ok_def)
  then show "65536 \<le> t" by simp
  have m: "(t - 4096) mod 4096 = 0" "(t - 20480) mod 4096 = 0" using t0 by (auto simp: mod_eq_0_iff_dvd)
  have e: "pool_end b True = t - 4096 + 4084" "pool_end b False = t - 20480 + 4076"
    using big by (auto simp: pool_end_def geometry_defs t_def)
  show "sector_of (pool_end b True) = t - 4096" "sector_off (pool_end b True) = 4084"
    "sector_of (pool_end b False) = t - 20480" "sector_off (pool_end b False) = 4076"
    using in_sector [OF m(1), of "pool_end b True"] in_sector [OF m(2), of "pool_end b False"] e by auto
  show "pool_start b True = t - 16392" using big by (simp add: pool_start_def geometry_defs t_def)
  show "pool_start b False \<le> t - 32768" "8192 \<le> pool_start b p"
    using assms(1) big by (auto simp: pool_start_def geometry_defs t_def board_ok_def k)
  show "pool_end b p < 2 ^ 32" using big by (auto simp: pool_end_def geometry_defs t_def)
qed

text \<open>A pool whose head word is 0 is empty, and well formed.\<close>

lemma empty_pool_ok:
  assumes "board_ok b" "w32 m (pool_end b p) = 0"
  shows "pool_ok m (pool_start b p) (pool_end b p) []"
  using assms(2) pool_geometry [OF assms(1)] by (cases p) (auto simp: pool_ok_def)

definition zero_low :: low where "zero_low = fresh_low\<lparr>chip := (\<lambda>_. 0)\<rparr>"

definition pico_2MB :: board where "pico_2MB = \<lparr>XIP_BASE = 0x10000000, PICO_FLASH_SIZE_BYTES = 0x200000\<rparr>"

lemma pico_board_ok: "board_ok pico_2MB"
  by (simp add: board_ok_def pico_2MB_def)

lemma clean_zero: "clean zero_low"
  using fresh_low_ok [of "{}"]
  by (auto simp: clean_def zero_low_def low_ok_def low_inv_def no_erase_def cached_sectors_def
      fresh_low_def low_flash_init_def)

lemma view_zero: "view zero_low = (\<lambda>_. 0)"
  by (rule ext) (simp add: view_def zero_low_def fresh_low_def low_flash_init_def empty_page_def flash_sizes
      numeral_eq_Suc)

lemma zero_pool: "pool_ok (view zero_low) (pool_start pico_2MB p) (pool_end pico_2MB p) []"
  by (rule empty_pool_ok [OF pico_board_ok]) (simp add: view_zero w32_def get_bytes_def upt_conv_Cons)

definition counter_file :: "nat file_t" where
  "counter_file = \<lparr>fid = 0xC000, parent = 0, fname = None, ftype = FILE_TYPE_WORKING_EF OR FILE_DATA_FLASH,
     ef_structure = FILE_EF_TRANSPARENT, data = None, acl = []\<rparr>"

lemma write_new_record_stores_witness:
  "write_new_record pico_2MB zero_low counter_file (Some [1, 2, 3, 4]) (length [1, 2, 3, 4 :: u8]) =
     Some (CCID_ERR_NO_MEMORY, zero_low, counter_file) \<and>
      pool_full (pool_start pico_2MB (persistent_file counter_file)) (pool_end pico_2MB (persistent_file counter_file))
        [] (length [1, 2, 3, 4 :: u8] + 12) \<or>
    (\<exists>xs ys a st'. [] = xs @ ys \<and>
       write_new_record pico_2MB zero_low counter_file (Some [1, 2, 3, 4]) (length [1, 2, 3, 4 :: u8]) =
         Some (CCID_OK, st', counter_file\<lparr>data := Some (a + 10)\<rparr>) \<and>
       pool_ok (view st') (pool_start pico_2MB (persistent_file counter_file))
         (pool_end pico_2MB (persistent_file counter_file)) (xs @ a # ys) \<and>
       a \<notin> set [] \<and> pool_map (view st') (xs @ a # ys) =
         (pool_map (view zero_low) [])(a \<mapsto> (unat (fid counter_file), [1, 2, 3, 4])))"
  by (rule write_new_record_stores [OF clean_zero _ zero_pool]) simp

text \<open>A pool with one record, at the end of the first sector, that holds 4 bytes.\<close>

definition one_record :: mem where
  "one_record =
     record_mem (linkmem (\<lambda>_. 0) (pool_end pico_2MB False) 0x101fbfd0 []) 0x101fbfd0 0xC000 [1, 2, 3, 4]"

definition one_low :: low where "one_low = fresh_low\<lparr>chip := one_record\<rparr>"

lemma clean_one: "clean one_low"
  using fresh_low_ok [of "{}"]
  by (auto simp: clean_def one_low_def low_ok_def low_inv_def no_erase_def cached_sectors_def
      fresh_low_def low_flash_init_def)

lemma view_one: "view one_low = one_record"
  by (rule ext) (simp add: view_def one_low_def fresh_low_def low_flash_init_def empty_page_def flash_sizes
      numeral_eq_Suc)

lemma one_pool: "pool_ok (view one_low) (pool_start pico_2MB False) (pool_end pico_2MB False) ([] @ 0x101fbfd0 # [])"
proof -
  have sl: "slot (view zero_low) (pool_start pico_2MB False) (12 + length [1, 2, 3, 4 :: u8])
      (last (pool_end pico_2MB False # [])) [] 0x101fbfd0"
    by (simp add: slot_def pool_end_def pool_start_def geometry_defs pico_2MB_def sector_of_def sector_off_def)
  have "pool_ok (view zero_low) (pool_start pico_2MB False) (pool_end pico_2MB False) ([] @ [])"
    using zero_pool by simp
  from new_record_pool(1) [OF this sl, where i = "0xC000"] show ?thesis by (simp add: one_record_def view_one view_zero)
qed

lemma flash_clear_file_removes_witness:
  "\<exists>st'. flash_clear_file one_low (Some (counter_file\<lparr>data := Some (0x101fbfd0 + 10)\<rparr>)) =
      Some (CCID_OK, st', Some (counter_file\<lparr>data := Some (0x101fbfd0 + 10)\<rparr>\<lparr>data := None\<rparr>)) \<and>
    pool_ok (view st') (pool_start pico_2MB False) (pool_end pico_2MB False) ([] @ []) \<and>
    pool_map (view st') ([] @ []) = (pool_map (view one_low) ([] @ 0x101fbfd0 # []))(0x101fbfd0 := None)"
  by (rule flash_clear_file_removes [OF clean_one one_pool]) simp

lemma one_len: "w16 (view one_low) 0x101fbfda = 4"
  using record_mem_fields(2) [where i = "0xC000" and bs = "[1, 2, 3, 4]" and m = "linkmem (\<lambda>_. 0) (pool_end pico_2MB False) 0x101fbfd0 []" and a = "0x101fbfd0"]
  by (simp add: view_one one_record_def)

lemma flash_write_in_place_witness:
  "\<exists>st'. flash_write_data_to_file_offset pico_2MB one_low (Some (counter_file\<lparr>data := Some (0x101fbfd0 + 10)\<rparr>))
      (Some [9, 8]) (length [9, 8 :: u8]) 1 =
      Some (CCID_OK, st', Some (counter_file\<lparr>data := Some (0x101fbfd0 + 10)\<rparr>)) \<and>
    pool_ok (view st') (pool_start pico_2MB False) (pool_end pico_2MB False) ([] @ 0x101fbfd0 # []) \<and>
    pool_map (view st') ([] @ 0x101fbfd0 # []) = (pool_map (view one_low) ([] @ 0x101fbfd0 # []))
      (0x101fbfd0 \<mapsto> (w16 (view one_low) (0x101fbfd0 + 8),
         take 1 (get_bytes (view one_low) (0x101fbfd0 + 12) (w16 (view one_low) (0x101fbfd0 + 10))) @ [9, 8]))"
  by (rule flash_write_in_place [OF clean_one one_pool]) (simp_all add: one_len)

text \<open>
  the size check of \<^verbatim>\<open>allocate_free_addr\<close> compares the payload with a whole sector and forgets the
  12 bytes of the header.  A file of 4085 to 4087 bytes passes it, the record does not fit in a sector,
  and already the first link word is written over the end of the cached sector.
\<close>

lemma oversized_record_faults:
  assumes b: "board_ok b" and st: "clean st" and nil: "w32 (view st) (pool_end b (persistent_file f)) = 0"
    and bs: "4085 \<le> length bs" "length bs \<le> 4087"
  shows "write_new_record b st f (Some bs) (length bs) = None"
proof -
  let ?p = "persistent_file f"
  let ?base = "pool_end b ?p" and ?n = "length bs + 2 + 4 + 2 + 4"
  note g = pool_geometry [OF b]
  let ?a = "sector_of ?base - ?n"
  have geo: "sector_of ?base mod 4096 = 0" "32768 \<le> sector_of ?base" "pool_start b ?p \<le> sector_of ?base - 4096"
    "?base < 2 ^ 32" "sector_off ?base + 4 \<le> 4096" "pool_start b ?p \<le> ?base"
  proof -
    show "sector_of ?base mod 4096 = 0" by (simp add: sector_of_def flash_sizes minus_mod_eq_mult_div)
    show "32768 \<le> sector_of ?base" "pool_start b ?p \<le> sector_of ?base - 4096"
      "?base < 2 ^ 32" "sector_off ?base + 4 \<le> 4096" using g by (cases ?p; simp)+
    then show "pool_start b ?p \<le> ?base" using sector_split [of ?base] by linarith
  qed
  have so: "?base < sector_of ?base + 4096" using sector_split [of ?base] sector_off_less [of ?base] by linarith
  have sub: "sub32 ?base ?n = ?base - ?n" "sub32 (sector_of ?base) 4096 = sector_of ?base - 4096"
    "sub32 (sector_of ?base) ?n = ?a"
    using geo bs sector_split [of ?base] by (auto intro!: sub32_exact)
  have nofit: "\<not> sector_of ?base \<le> ?base - ?n" using so bs geo(2) by linarith
  have rd: "flash_read_uintptr st ?base = Some 0"
    using read_uintptr_ok [OF near_ok [OF st], of ?base] geo nil by simp
  have "4096 dvd sector_of ?base" using geo(1) by (simp only: mod_eq_0_iff_dvd)
  then have "(sector_of ?base - 8192) mod 4096 = 0" by (simp add: mod_eq_0_iff_dvd dvd_diff_nat)
  then have "sector_off ?a = ?a - (sector_of ?base - 8192)" using in_sector [of "sector_of ?base - 8192" ?a] geo bs by simp
  then have off: "sector_off ?a + 4 > 4096" using bs geo by simp
  have "prog_uintptr ?a 0 st = None"
  proof -
    have inv: "low_inv st" "no_erase st" "ready_pages st < 4"
      using st by (auto simp: clean_def cached_sectors_def lessThan_empty_iff bot_nat_def)
    then show ?thesis
      using find_free_page_spec [OF inv, of ?a] off
      by (auto simp: prog_uintptr_def flash_program_uintptr_def flash_program_block_def flash_sizes Let_def
          simp flip: length_greater_0_conv split: option.splits)
  qed
  then have "alloc_loop st ?n (pool_start b ?p) ?base = None"
    using geo nofit rd sub by (subst alloc_loop.simps) (simp add: link_last_def FLASH_SECTOR_SIZE_def)
  then show ?thesis
    using bs unfolding write_new_record_def allocate_free_addr_def pool_start_def pool_end_def persistent_file_def
    by (simp add: flash_sizes)
qed

lemma oversized_record_faults_witness:
  "write_new_record pico_2MB zero_low counter_file (Some (replicate 4086 7)) (length (replicate 4086 (7 :: u8))) = None"
  by (rule oversized_record_faults [OF pico_board_ok clean_zero])
    (simp_all add: view_zero w32_def get_bytes_def upt_conv_Cons)

end
