(* ===== verification/FileSys.thy ===== *)
theory FileSys
  imports Flash Asn1
begin

text \<open>
  The file layer, \<^verbatim>\<open>pico-keys-sdk/src/fs/file.c\<close>, with the file table of \<^verbatim>\<open>src/fido/files.c\<close>.  A
  \<^verbatim>\<open>file_t *\<close> is a reference: an index of the static table or an index of the array of dynamic files.
  The pointer \<^verbatim>\<open>file->data\<close> is an address, and \<open>store\<close> maps the addresses of the records in flash to their
  identifier and bytes: it is the \<open>pool_map\<close> of the two pools of \<open>Flash\<close>, whose theorems say what
  clearing and writing do to it.  Where a new record goes, and whether there is room, is decided by
  \<open>pick\<close>, an arbitrary function here.  A reference or an index that leaves its array is the value
  \<open>None\<close>.
\<close>

section \<open>Files, references and the static table\<close>

datatype file_ref = Static nat | Dynamic nat

type_synonym store = "nat \<Rightarrow> (u16 \<times> bytes) option"

record fs =
  file_entries :: "nat file_t list"
  dynamic_file :: "nat file_t list"
  dynamic_files :: nat
  store :: store
  pick :: "bool \<Rightarrow> store \<Rightarrow> nat \<Rightarrow> nat option"
  isUserAuthenticated :: bool

definition MAX_DYNAMIC_FILES :: nat where "MAX_DYNAMIC_FILES = 128"
definition MAX_DEPTH :: nat where "MAX_DEPTH = 4"
definition SPECIFY_EF :: u8 where "SPECIFY_EF = 0x1"
definition SPECIFY_DF :: u8 where "SPECIFY_DF = 0x2"
definition SPECIFY_ANY :: u8 where "SPECIFY_ANY = 0x3"

definition EF_META :: u16 where "EF_META = 0xE010"
definition EF_KEY_DEV :: u16 where "EF_KEY_DEV = 0xCC00"
definition EF_KEY_DEV_ENC :: u16 where "EF_KEY_DEV_ENC = 0xCC01"
definition EF_EE_DEV :: u16 where "EF_EE_DEV = 0xCE00"
definition EF_EE_DEV_EA :: u16 where "EF_EE_DEV_EA = 0xCE01"
definition EF_COUNTER :: u16 where "EF_COUNTER = 0xC000"
definition EF_OPTS :: u16 where "EF_OPTS = 0xC001"
definition EF_PIN :: u16 where "EF_PIN = 0x1080"
definition EF_AUTHTOKEN :: u16 where "EF_AUTHTOKEN = 0x1090"
definition EF_MINPINLEN :: u16 where "EF_MINPINLEN = 0x1100"
definition EF_DEV_CONF :: u16 where "EF_DEV_CONF = 0x1122"
definition EF_CRED :: u16 where "EF_CRED = 0xCF00"
definition EF_RP :: u16 where "EF_RP = 0xD000"
definition EF_LARGEBLOB :: u16 where "EF_LARGEBLOB = 0x1101"
definition EF_OATH_CRED :: u16 where "EF_OATH_CRED = 0xBA00"
definition EF_OATH_CODE :: u16 where "EF_OATH_CODE = 0xBAFF"
definition EF_OTP_SLOT1 :: u16 where "EF_OTP_SLOT1 = 0xBB00"
definition EF_OTP_SLOT2 :: u16 where "EF_OTP_SLOT2 = 0xBB01"
definition EF_OTP_PIN :: u16 where "EF_OTP_PIN = 0x10A0"

lemmas fid_defs = EF_META_def EF_KEY_DEV_def EF_KEY_DEV_ENC_def EF_EE_DEV_def EF_EE_DEV_EA_def EF_COUNTER_def
  EF_OPTS_def EF_PIN_def EF_AUTHTOKEN_def EF_MINPINLEN_def EF_DEV_CONF_def EF_CRED_def EF_RP_def
  EF_LARGEBLOB_def EF_OATH_CRED_def EF_OATH_CODE_def EF_OTP_SLOT1_def EF_OTP_SLOT2_def EF_OTP_PIN_def

lemmas specify_defs = SPECIFY_EF_def SPECIFY_DF_def SPECIFY_ANY_def

text \<open>\<^verbatim>\<open>.acl = { 0xff }\<close> sets the first of the seven entries.\<close>

definition internal_ef :: "u16 \<Rightarrow> nat file_t" where
  "internal_ef i = \<lparr>fid = i, parent = 0, fname = None, ftype = FILE_TYPE_INTERNAL_EF OR FILE_DATA_FLASH,
     ef_structure = FILE_EF_TRANSPARENT, data = None, acl = 0xff # replicate 6 0\<rparr>"

definition file_table :: "nat file_t list" where
  "file_table =
     \<lparr>fid = 0x3f00, parent = 0xff, fname = None, ftype = FILE_TYPE_DF, ef_structure = 0, data = None,
      acl = replicate 7 0\<rparr> #
     map internal_ef [EF_KEY_DEV, EF_KEY_DEV_ENC, EF_EE_DEV, EF_EE_DEV_EA, EF_COUNTER, EF_PIN, EF_AUTHTOKEN,
       EF_MINPINLEN, EF_OPTS, EF_LARGEBLOB, EF_OTP_PIN] @
     [\<lparr>fid = 0x0000, parent = 0xff, fname = None, ftype = FILE_TYPE_UNKNOWN, ef_structure = 0, data = None,
       acl = replicate 7 0\<rparr>]"

fun deref_file :: "fs \<Rightarrow> file_ref \<Rightarrow> nat file_t option" where
  "deref_file fs (Static i) = rd (file_entries fs) i"
| "deref_file fs (Dynamic i) = rd (dynamic_file fs) i"

fun upd_file :: "(nat file_t \<Rightarrow> nat file_t) \<Rightarrow> file_ref \<Rightarrow> fs \<Rightarrow> fs" where
  "upd_file g (Static i) fs = fs\<lparr>file_entries := (file_entries fs)[i := g (file_entries fs ! i)]\<rparr>"
| "upd_file g (Dynamic i) fs = fs\<lparr>dynamic_file := (dynamic_file fs)[i := g (dynamic_file fs ! i)]\<rparr>"

section \<open>Searching\<close>

text \<open>A file compared with the MF or with a parent is compared by its address.\<close>

partial_function (option) is_parent :: "fs \<Rightarrow> file_ref \<Rightarrow> file_ref \<Rightarrow> bool option" where
  "is_parent fs child par =
     (if child = par then Some True
      else if child = Static 0 then Some False
      else do {
        f \<leftarrow> deref_file fs child;
        is_parent fs (Static (unat (parent f))) par
      })"

definition get_parent :: "fs \<Rightarrow> file_ref \<Rightarrow> file_ref option" where
  "get_parent fs r = map_option (\<lambda>f. Static (unat (parent f))) (deref_file fs r)"

text \<open>\<^verbatim>\<open>name\<close> in the table is the length followed by the name; \<open>nc\<close> is \<^verbatim>\<open>apdu.nc\<close>.\<close>

fun search_by_name_from :: "nat file_t list \<Rightarrow> nat \<Rightarrow> nat \<Rightarrow> bytes \<Rightarrow> nat \<Rightarrow> file_ref option option" where
  "search_by_name_from [] i nc name namelen = Some None"
| "search_by_name_from (p # ps) i nc name namelen =
     (case fname p of
        Some (l # n) \<Rightarrow>
          if unat l = nc then do {
            a \<leftarrow> rd_slice n 0 namelen;
            c \<leftarrow> rd_slice name 0 namelen;
            if a = c then Some (Some (Static i)) else search_by_name_from ps (Suc i) nc name namelen
          } else search_by_name_from ps (Suc i) nc name namelen
      | _ \<Rightarrow> search_by_name_from ps (Suc i) nc name namelen)"

definition search_by_name :: "fs \<Rightarrow> nat \<Rightarrow> bytes \<Rightarrow> nat \<Rightarrow> file_ref option option" where
  "search_by_name fs nc name namelen = search_by_name_from (butlast (file_entries fs)) 0 nc name namelen"

definition specified :: "u8 \<Rightarrow> u8 \<Rightarrow> bool" where
  "specified sp ty \<longleftrightarrow> sp = 0 \<or> sp = SPECIFY_ANY \<or>
     (sp AND SPECIFY_EF \<noteq> 0 \<and> ty AND FILE_TYPE_INTERNAL_EF \<noteq> 0) \<or> (sp AND SPECIFY_DF \<noteq> 0 \<and> ty = FILE_TYPE_DF)"

fun search_by_fid_from :: "fs \<Rightarrow> nat file_t list \<Rightarrow> nat \<Rightarrow> u16 \<Rightarrow> file_ref option \<Rightarrow> u8 \<Rightarrow> file_ref option option" where
  "search_by_fid_from fs [] i fi par sp = Some None"
| "search_by_fid_from fs (p # ps) i fi par sp =
     (if fid p \<noteq> 0 \<and> fid p = fi then do {
        inside \<leftarrow> (case par of None \<Rightarrow> Some True | Some q \<Rightarrow> is_parent fs (Static i) q);
        if inside \<and> specified sp (ftype p) then Some (Some (Static i))
        else search_by_fid_from fs ps (Suc i) fi par sp
      } else search_by_fid_from fs ps (Suc i) fi par sp)"

definition search_by_fid :: "fs \<Rightarrow> u16 \<Rightarrow> file_ref option \<Rightarrow> u8 \<Rightarrow> file_ref option option" where
  "search_by_fid fs fi par sp = search_by_fid_from fs (butlast (file_entries fs)) 0 fi par sp"

text \<open>The one form that the applications use, \<^verbatim>\<open>search_by_fid(fid, NULL, SPECIFY_EF)\<close>.\<close>

fun search_ef_from :: "nat file_t list \<Rightarrow> nat \<Rightarrow> u16 \<Rightarrow> file_ref option" where
  "search_ef_from [] i fi = None"
| "search_ef_from (p # ps) i fi =
     (if fid p \<noteq> 0 \<and> fid p = fi \<and> ftype p AND FILE_TYPE_INTERNAL_EF \<noteq> 0 then Some (Static i)
      else search_ef_from ps (Suc i) fi)"

definition search_ef :: "fs \<Rightarrow> u16 \<Rightarrow> file_ref option" where
  "search_ef fs fi = search_ef_from (butlast (file_entries fs)) 0 fi"

lemma specified_ef: "specified SPECIFY_EF ty \<longleftrightarrow> ty AND FILE_TYPE_INTERNAL_EF \<noteq> 0"
  by (simp add: specified_def specify_defs)

lemma search_by_fid_from_ef: "search_by_fid_from fs ps i fi None SPECIFY_EF = Some (search_ef_from ps i fi)"
  by (induction ps arbitrary: i) (auto simp: specified_ef)

lemma search_by_fid_ef: "search_by_fid fs fi None SPECIFY_EF = Some (search_ef fs fi)"
  by (simp add: search_by_fid_def search_ef_def search_by_fid_from_ef)

fun search_dynamic_from :: "nat file_t list \<Rightarrow> nat \<Rightarrow> u16 \<Rightarrow> file_ref option" where
  "search_dynamic_from [] i fi = None"
| "search_dynamic_from (p # ps) i fi = (if fid p = fi then Some (Dynamic i) else search_dynamic_from ps (Suc i) fi)"

definition search_dynamic_file :: "fs \<Rightarrow> u16 \<Rightarrow> file_ref option" where
  "search_dynamic_file fs fi = search_dynamic_from (take (dynamic_files fs) (dynamic_file fs)) 0 fi"

text \<open>
  \<^verbatim>\<open>make_path_buf\<close> writes the identifiers from the file up to \<open>top\<close>; \<open>buflen\<close> is a \<^verbatim>\<open>uint8_t\<close>, its
  recursion stops at 0.  \<open>None\<close> is a file index outside of the table.
\<close>

fun make_path_buf :: "fs \<Rightarrow> file_ref \<Rightarrow> nat \<Rightarrow> file_ref option \<Rightarrow> bytes option" where
  "make_path_buf fs pe buflen tp =
     (if buflen < 2 then Some []
      else if Some pe = tp then Some []
      else do {
        f \<leftarrow> deref_file fs pe;
        rest \<leftarrow> make_path_buf fs (Static (unat (parent f))) (buflen - 2) tp;
        Some (rest @ put_uint16_t (fid f))
      })"

declare make_path_buf.simps [simp del]

definition make_path :: "fs \<Rightarrow> file_ref \<Rightarrow> file_ref option \<Rightarrow> bytes option" where
  "make_path fs pe tp = do {
     f \<leftarrow> deref_file fs pe;
     rest \<leftarrow> make_path_buf fs (Static (unat (parent f))) (MAX_DEPTH * 2 - 2) tp;
     Some (rest @ put_uint16_t (fid f))
   }"

fun search_by_path_from :: "fs \<Rightarrow> nat \<Rightarrow> nat \<Rightarrow> bytes \<Rightarrow> file_ref option \<Rightarrow> file_ref option option" where
  "search_by_path_from fs 0 i pe_path par = Some None"
| "search_by_path_from fs (Suc n) i pe_path par = do {
     path \<leftarrow> make_path fs (Static i) par;
     if path = pe_path then Some (Some (Static i)) else search_by_path_from fs n (Suc i) pe_path par
   }"

definition search_by_path :: "fs \<Rightarrow> bytes \<Rightarrow> file_ref option \<Rightarrow> file_ref option option" where
  "search_by_path fs pe_path par =
     (if length pe_path > MAX_DEPTH * 2 then Some None
      else search_by_path_from fs (length (file_entries fs) - 1) 0 pe_path par)"

definition authenticate_action :: "fs \<Rightarrow> nat file_t \<Rightarrow> nat \<Rightarrow> bool option" where
  "authenticate_action fs ef op = do {
     a \<leftarrow> rd (acl ef) op;
     Some (if a = 0 then True
           else if a = 0xff then False
           else if a = 0x90 \<or> a AND 0x9F = 0x10 then isUserAuthenticated fs
           else False)
   }"

section \<open>Contents\<close>

text \<open>\<^verbatim>\<open>file->data\<close> that does not point to a record (a stale pointer) has no content, \<open>None\<close>.\<close>

definition record_at :: "fs \<Rightarrow> nat \<Rightarrow> bytes option" where
  "record_at fs d = map_option snd (store fs d)"

definition file_get_size :: "fs \<Rightarrow> file_ref option \<Rightarrow> nat option" where
  "file_get_size fs tf =
     (case tf of None \<Rightarrow> Some 0
      | Some r \<Rightarrow> do { f \<leftarrow> deref_file fs r;
          case data f of None \<Rightarrow> Some 0 | Some d \<Rightarrow> map_option length (record_at fs d) })"

text \<open>The pointer of \<^verbatim>\<open>file_get_data\<close> is the buffer it points to; the inner \<open>None\<close> is NULL.\<close>

definition file_get_data :: "fs \<Rightarrow> file_ref option \<Rightarrow> bytes option option" where
  "file_get_data fs tf =
     (case tf of None \<Rightarrow> Some None
      | Some r \<Rightarrow> do { f \<leftarrow> deref_file fs r;
          case data f of None \<Rightarrow> Some None | Some d \<Rightarrow> map_option Some (record_at fs d) })"

definition file_has_data :: "fs \<Rightarrow> file_ref option \<Rightarrow> bool option" where
  "file_has_data fs tf =
     (case tf of None \<Rightarrow> Some False
      | Some r \<Rightarrow> do { f \<leftarrow> deref_file fs r; n \<leftarrow> file_get_size fs tf; Some (data f \<noteq> None \<and> n > 0) })"

text \<open>What \<open>flash_clear_file\<close> and \<open>flash_write_data_to_file\<close> do to the records (see \<open>Flash\<close>).\<close>

definition clear_file :: "fs \<Rightarrow> file_ref option \<Rightarrow> fs option" where
  "clear_file fs tf =
     (case tf of None \<Rightarrow> Some fs
      | Some r \<Rightarrow> do { f \<leftarrow> deref_file fs r;
          case data f of None \<Rightarrow> Some fs
          | Some d \<Rightarrow> do {
              _ \<leftarrow> store fs d;
              Some (upd_file (data_update (\<lambda>_. None)) r (fs\<lparr>store := (store fs)(d := None)\<rparr>)) } })"

definition new_record :: "fs \<Rightarrow> file_ref \<Rightarrow> bytes \<Rightarrow> (int \<times> fs) option" where
  "new_record fs r bs = do {
     f \<leftarrow> deref_file fs r;
     case pick fs (ftype f AND FILE_PERSISTENT = FILE_PERSISTENT) (store fs) (length bs) of
       None \<Rightarrow> Some (CCID_ERR_NO_MEMORY, fs)
     | Some d \<Rightarrow> Some (CCID_OK, upd_file (data_update (\<lambda>_. Some d)) r (fs\<lparr>store := (store fs)(d \<mapsto> (fid f, bs))\<rparr>))
   }"

definition write_file :: "fs \<Rightarrow> file_ref option \<Rightarrow> bytes \<Rightarrow> (int \<times> fs) option" where
  "write_file fs tf bs =
     (case tf of None \<Rightarrow> Some (CCID_ERR_NULL_PARAM, fs)
      | Some r \<Rightarrow> do {
          f \<leftarrow> deref_file fs r;
          n \<leftarrow> file_get_size fs tf;
          if length bs > FLASH_SECTOR_SIZE then Some (CCID_ERR_NO_MEMORY, fs)
          else case data f of
            None \<Rightarrow> new_record fs r bs
          | Some d \<Rightarrow>
              if length bs \<le> n then do {
                (i, _) \<leftarrow> store fs d;
                Some (CCID_OK, fs\<lparr>store := (store fs)(d \<mapsto> (i, bs))\<rparr>)
              } else do {
                fs \<leftarrow> clear_file fs tf;
                new_record fs r bs
              }
        })"

section \<open>Dynamic files\<close>

definition new_file :: "u16 \<Rightarrow> nat file_t" where
  "new_file fi = \<lparr>fid = fi, parent = 5, fname = None, ftype = FILE_TYPE_WORKING_EF,
     ef_structure = FILE_EF_TRANSPARENT, data = None, acl = replicate 7 0\<rparr>"

definition file_new :: "fs \<Rightarrow> u16 \<Rightarrow> file_ref option \<times> fs" where
  "file_new fs fi =
     (case search_dynamic_file fs fi of
        Some r \<Rightarrow> (Some r, fs)
      | None \<Rightarrow>
          (case search_ef fs fi of
             Some r \<Rightarrow> (Some r, fs)
           | None \<Rightarrow>
               if dynamic_files fs = MAX_DYNAMIC_FILES then (None, fs)
               else (Some (Dynamic (dynamic_files fs)),
                     fs\<lparr>dynamic_file := (dynamic_file fs)[dynamic_files fs := new_file fi],
                        dynamic_files := dynamic_files fs + 1\<rparr>)))"

text \<open>The entries behind the deleted one move down by one; the last one keeps a copy.\<close>

definition shift_down :: "'a list \<Rightarrow> nat \<Rightarrow> nat \<Rightarrow> 'a list" where
  "shift_down a i n = take i a @ take (n - 1 - i) (drop (i + 1) a) @ drop (n - 1) a"

definition delete_dynamic_file :: "fs \<Rightarrow> file_ref option \<Rightarrow> (int \<times> fs) option" where
  "delete_dynamic_file fs tf =
     (case tf of None \<Rightarrow> Some (CCID_ERR_FILE_NOT_FOUND, fs)
      | Some r \<Rightarrow> do {
          f \<leftarrow> deref_file fs r;
          Some (case search_dynamic_file fs (fid f) of
                  Some (Dynamic i) \<Rightarrow>
                    (CCID_OK, fs\<lparr>dynamic_file := shift_down (dynamic_file fs) i (dynamic_files fs),
                                dynamic_files := dynamic_files fs - 1\<rparr>)
                | _ \<Rightarrow> (CCID_ERR_FILE_NOT_FOUND, fs))
        })"

section \<open>Meta data\<close>

text \<open>The loop over the objects of \<^verbatim>\<open>EF_META\<close>, up to the one of the file.\<close>

function meta_scan :: "bytes \<Rightarrow> u16 \<Rightarrow> nat option \<Rightarrow> tlv option option" where
  "meta_scan d fi p =
     (case walk_tlv d (length d) p of
        None \<Rightarrow> None
      | Some None \<Rightarrow> Some None
      | Some (Some t) \<Rightarrow>
          if tlv_len t < 2 then meta_scan d fi (Some (tlv_next t))
          else do {
            b0 \<leftarrow> rd d (tlv_data t);
            b1 \<leftarrow> rd d (tlv_data t + 1);
            if make_uint16_t b0 b1 = fi then Some (Some t) else meta_scan d fi (Some (tlv_next t))
          })"
  by pat_completeness auto
termination
  by (relation "measure (\<lambda>(d, fi, p). length d - (case p of None \<Rightarrow> 0 | Some q \<Rightarrow> q))")
    (auto dest!: walk_tlv_progress)

declare meta_scan.simps [simp del]

definition meta_find :: "fs \<Rightarrow> u16 \<Rightarrow> (int \<times> bytes option) option" where
  "meta_find fs fi =
     (case search_ef fs EF_META of
        None \<Rightarrow> Some (CCID_ERR_FILE_NOT_FOUND, None)
      | Some ef \<Rightarrow> do {
          d \<leftarrow> file_get_data fs (Some ef);
          case d of None \<Rightarrow> Some (0, None)
          | Some d \<Rightarrow> do {
              t \<leftarrow> meta_scan d fi None;
              case t of None \<Rightarrow> Some (0, None)
              | Some t \<Rightarrow> do {
                  v \<leftarrow> rd_slice d (tlv_data t + 2) (tlv_len t - 2);
                  Some (int (tlv_len t) - 2, Some v)
                }
            }
        })"

definition meta_cut :: "bytes \<Rightarrow> tlv \<Rightarrow> bytes option" where
  "meta_cut d t =
     (let hdr = length (format_tlv_len (tlv_len t)) + 1 in
      if tlv_data t < hdr \<or> length d < tlv_len t + hdr then None
      else wr_slice (replicate (length d - tlv_len t - hdr) 0) 0
             (take (tlv_data t - hdr) d @ drop (tlv_next t) d))"

definition meta_delete :: "fs \<Rightarrow> u16 \<Rightarrow> (int \<times> fs) option" where
  "meta_delete fs fi =
     (case search_ef fs EF_META of
        None \<Rightarrow> Some (CCID_ERR_FILE_NOT_FOUND, fs)
      | Some ef \<Rightarrow> do {
          d \<leftarrow> file_get_data fs (Some ef);
          case d of None \<Rightarrow> Some (CCID_OK, fs)
          | Some d \<Rightarrow> do {
              t \<leftarrow> meta_scan d fi None;
              case t of None \<Rightarrow> Some (CCID_OK, fs)
              | Some t \<Rightarrow> do {
                  fdata \<leftarrow> meta_cut d t;
                  if fdata = [] then map_option (Pair CCID_OK) (clear_file fs (Some ef))
                  else do {
                    (r, fs) \<leftarrow> write_file fs (Some ef) fdata;
                    Some (if r \<noteq> CCID_OK then CCID_EXEC_ERROR else CCID_OK, fs)
                  }
                }
            }
        })"

text \<open>
  \<^verbatim>\<open>meta_add\<close>: an update in place, an update with another length (the objects behind it move to its
  place and it is written behind them) and a new object.  The buffer of the second case has
  \<^verbatim>\<open>ef_size + len - (tag_len - 2)\<close> bytes; a write over its end is \<open>None\<close>.
\<close>

definition meta_move :: "bytes \<Rightarrow> tlv \<Rightarrow> u16 \<Rightarrow> bytes \<Rightarrow> bytes option" where
  "meta_move d t fi bs =
     (let n = asn1_len_tag (tlv_tag t) (tlv_len t);
          size' = length d + length bs - (tlv_len t - 2) in
      if tlv_next t < n \<or> length d < tlv_next t then None
      else do {
        moved \<leftarrow> wr_slice d (tlv_next t - n) (drop (tlv_next t) d);
        buf \<leftarrow> wr_slice (take (max (length d) size') (moved @ replicate size' 0)) (length d - n)
          ([ucast fi] @ format_tlv_len (length bs + 2) @ put_uint16_t fi @ bs);
        Some (take size' buf)
      })"

definition meta_add :: "fs \<Rightarrow> u16 \<Rightarrow> bytes \<Rightarrow> (int \<times> fs) option" where
  "meta_add fs fi bs =
     (case search_ef fs EF_META of
        None \<Rightarrow> Some (CCID_ERR_FILE_NOT_FOUND, fs)
      | Some ef \<Rightarrow> do {
          d0 \<leftarrow> file_get_data fs (Some ef);
          let d = (case d0 of None \<Rightarrow> [] | Some d \<Rightarrow> d);
          t \<leftarrow> meta_scan d fi None;
          fdata \<leftarrow>
            (case t of
               None \<Rightarrow> Some (d @ [ucast fi AND 0x1f] @ format_tlv_len (length bs + 2) @ put_uint16_t fi @ bs)
             | Some t \<Rightarrow>
                 if tlv_len t - 2 = length bs then wr_slice d (tlv_data t + 2) bs else meta_move d t fi bs);
          (r, fs) \<leftarrow> write_file fs (Some ef) fdata;
          Some (if r \<noteq> CCID_OK then CCID_EXEC_ERROR else CCID_OK, fs)
        })"

definition delete_file :: "fs \<Rightarrow> file_ref option \<Rightarrow> (int \<times> fs) option" where
  "delete_file fs tf =
     (case tf of None \<Rightarrow> Some (CCID_OK, fs)
      | Some r \<Rightarrow> do {
          f \<leftarrow> deref_file fs r;
          (_, fs) \<leftarrow> meta_delete fs (fid f);
          fs \<leftarrow> clear_file fs (Some r);
          (rc, fs) \<leftarrow> delete_dynamic_file fs (Some r);
          Some (if rc \<noteq> CCID_OK then CCID_EXEC_ERROR else CCID_OK, fs)
        })"

section \<open>The answer to SELECT\<close>

text \<open>\<open>func_len\<close> is the length that the function of a \<^verbatim>\<open>FILE_DATA_FUNC\<close> file reports.\<close>

definition fci_size :: "fs \<Rightarrow> file_ref \<Rightarrow> nat file_t \<Rightarrow> u16 \<Rightarrow> bytes option" where
  "fci_size fs r pe func_len =
     (case data pe of
        None \<Rightarrow> Some [0, 0]
      | Some _ \<Rightarrow>
          if ftype pe AND FILE_DATA_FUNC = FILE_DATA_FUNC then Some (put_uint16_t func_len)
          else map_option (\<lambda>n. put_uint16_t (of_nat n)) (file_get_size fs (Some r)))"

definition fci_descriptor :: "nat file_t \<Rightarrow> u8" where
  "fci_descriptor pe =
     (if ftype pe AND FILE_TYPE_INTERNAL_EF \<noteq> 0 then 0x08
      else if ftype pe AND FILE_TYPE_WORKING_EF \<noteq> 0 then ef_structure pe AND 0x7
      else if ftype pe AND FILE_TYPE_DF \<noteq> 0 then 0x38
      else 0)"

definition fci_name :: "nat file_t \<Rightarrow> bytes option" where
  "fci_name pe =
     (case fname pe of
        None \<Rightarrow> Some []
      | Some nm \<Rightarrow> do {
          l \<leftarrow> rd nm 0;
          n \<leftarrow> rd_slice nm 2 (min (unat l) 16);
          Some ([0x84, of_nat (min (unat l) 16)] @ n)
        })"

text \<open>\<^verbatim>\<open>meta_size\<close> is a \<^verbatim>\<open>uint8_t\<close>, also for the negative code of \<^verbatim>\<open>meta_find\<close>.\<close>

definition fci_meta :: "fs \<Rightarrow> nat file_t \<Rightarrow> bytes option" where
  "fci_meta fs pe = do {
     (n, d) \<leftarrow> meta_find fs (fid pe);
     case d of
       None \<Rightarrow> Some []
     | Some d \<Rightarrow>
         (let meta_size = nat (n mod 256) in
          if meta_size > 0 then Some ([0xA5, 0x81, of_nat meta_size] @ take meta_size d) else Some [])
   }"

definition process_fci :: "fs \<Rightarrow> file_ref \<Rightarrow> bool \<Rightarrow> u16 \<Rightarrow> bytes option" where
  "process_fci fs r fmd func_len = do {
     pe \<leftarrow> deref_file fs r;
     sz \<leftarrow> fci_size fs r pe func_len;
     nm \<leftarrow> fci_name pe;
     md \<leftarrow> fci_meta fs pe;
     let res = (if fmd then [0x6f, 0] else []) @ [0x62, 0] @ [0x81, 2] @ sz @ [0x82, 1, fci_descriptor pe] @
       [0x83, 2] @ put_uint16_t (fid pe) @ nm @ [0x8A, 0x01, 0x05] @ md;
     let res1 = res[1 := of_nat (length res - 2)];
     Some (if fmd then res1[3 := of_nat (length res - 4)] else res1)
   }"

section \<open>Start-up: the tables are rebuilt from the records\<close>

definition soft_init :: "fs \<Rightarrow> fs" where
  "soft_init fs = fs\<lparr>file_entries :=
     map (\<lambda>f. if ftype f AND FILE_DATA_FLASH = FILE_DATA_FLASH then f\<lparr>data := None\<rparr> else f) (butlast (file_entries fs)) @
     [last (file_entries fs)], dynamic_files := 0\<rparr>"

definition initialize_flash :: "board \<Rightarrow> bool \<Rightarrow> low \<Rightarrow> fs \<Rightarrow> (low \<times> fs) option" where
  "initialize_flash b hard st fs = do {
     st \<leftarrow> (if hard then map_option low_flash_available (prog_block (end_data_pool b) (replicate 8 0) st) else Some st);
     Some (st, soft_init fs)
   }"

text \<open>The records of a pool in link order, with their identifiers; \<open>None\<close> is a loop that does not end.\<close>

partial_function (option) scan_loop :: "low \<Rightarrow> nat \<Rightarrow> nat \<Rightarrow> (nat \<times> u16) list option" where
  "scan_loop st startp base =
     (if \<not> (base \<ge> startp) \<or> base = 0 then Some []
      else do {
        fi \<leftarrow> flash_read_uint16 st (base + 4 + 4);
        next_base \<leftarrow> flash_read_uintptr st base;
        rest \<leftarrow> (if next_base = 0 then Some [] else scan_loop st startp next_base);
        Some ((base, of_nat fi) # rest)
      })"

definition scan_record :: "fs \<Rightarrow> nat \<times> u16 \<Rightarrow> fs" where
  "scan_record fs br =
     (let (r, fs1) = (case search_ef fs (snd br) of Some r \<Rightarrow> (Some r, fs) | None \<Rightarrow> file_new fs (snd br))
      in case r of None \<Rightarrow> fs1 | Some r \<Rightarrow> upd_file (data_update (\<lambda>_. Some (fst br + 4 + 4 + 2))) r fs1)"

definition scan_region :: "board \<Rightarrow> bool \<Rightarrow> low \<Rightarrow> fs \<Rightarrow> fs option" where
  "scan_region b persistent st fs = do {
     base \<leftarrow> flash_read_uintptr st (if persistent then end_rom_pool b else end_data_pool b);
     rs \<leftarrow> scan_loop st (if persistent then start_rom_pool b else start_data_pool b) base;
     Some (foldl scan_record fs rs)
   }"

definition scan_flash :: "board \<Rightarrow> low \<Rightarrow> fs \<Rightarrow> (low \<times> fs) option" where
  "scan_flash b st fs = do {
     (st, fs) \<leftarrow> initialize_flash b False st fs;
     w0 \<leftarrow> flash_read_uintptr st (end_rom_pool b);
     w1 \<leftarrow> flash_read_uintptr st (end_rom_pool b + 4);
     st \<leftarrow> (if w0 = 0xffffffff \<and> w1 = 0xffffffff then do {
             st \<leftarrow> prog_block (end_data_pool b) (replicate (4 * 2 + 4) 0) st;
             prog_block (end_rom_pool b) (replicate (4 * 2 + 4) 0) st
           } else Some st);
     fs \<leftarrow> scan_region b True st fs;
     fs \<leftarrow> scan_region b False st fs;
     Some (st, fs)
   }"

section \<open>The invariant of the tables, and the contents they give\<close>

definition lookup :: "fs \<Rightarrow> u16 \<Rightarrow> file_ref option" where
  "lookup fs fi = (case search_ef fs fi of Some r \<Rightarrow> Some r | None \<Rightarrow> search_dynamic_file fs fi)"

definition dyn_fids :: "fs \<Rightarrow> u16 list" where
  "dyn_fids fs = map fid (take (dynamic_files fs) (dynamic_file fs))"

definition pick_law :: "(bool \<Rightarrow> store \<Rightarrow> nat \<Rightarrow> nat option) \<Rightarrow> bool" where
  "pick_law pk \<longleftrightarrow> (\<forall>p s n d. pk p s n = Some d \<longrightarrow> s d = None)"

definition fs_inv :: "fs \<Rightarrow> bool" where
  "fs_inv fs \<longleftrightarrow>
     map (data_update (\<lambda>_. None)) (file_entries fs) = file_table \<and>
     length (dynamic_file fs) = 128 \<and> dynamic_files fs \<le> 128 \<and> distinct (dyn_fids fs) \<and>
     (\<forall>fi \<in> set (dyn_fids fs). search_ef fs fi = None) \<and>
     (\<forall>fi r f d. lookup fs fi = Some r \<longrightarrow> deref_file fs r = Some f \<longrightarrow> data f = Some d \<longrightarrow>
        (\<exists>bs. store fs d = Some (fi, bs))) \<and>
     pick_law (pick fs)"

text \<open>The content of the file \<open>fi\<close>, \<open>None\<close> when there is no such file or it has no data.\<close>

definition fget :: "fs \<Rightarrow> u16 \<Rightarrow> bytes option" where
  "fget fs fi = do { r \<leftarrow> lookup fs fi; f \<leftarrow> deref_file fs r; d \<leftarrow> data f; record_at fs d }"

lemma search_ef_from_map: "search_ef_from (map (data_update g) ps) i fi = search_ef_from ps i fi"
  by (induction ps arbitrary: i) auto

lemma search_ef_from_Some:
  "search_ef_from ps i fi = Some r \<Longrightarrow> \<exists>k < length ps. r = Static (i + k) \<and> fid (ps ! k) = fi"
  by (induction ps arbitrary: i) (fastforce split: if_splits)+

lemma search_dynamic_from_Some:
  "search_dynamic_from ps i fi = Some r \<Longrightarrow> \<exists>k < length ps. r = Dynamic (i + k) \<and> fid (ps ! k) = fi"
  by (induction ps arbitrary: i) (fastforce split: if_splits)+

lemma search_dynamic_from_None: "search_dynamic_from ps i fi = None \<longleftrightarrow> fi \<notin> fid ` set ps"
  by (induction ps arbitrary: i) auto

lemma search_dynamic_from_distinct:
  "distinct (map fid ps) \<Longrightarrow> k < length ps \<Longrightarrow> search_dynamic_from ps i (fid (ps ! k)) = Some (Dynamic (i + k))"
proof (induction ps arbitrary: i k)
  case Nil
  then show ?case by simp
next
  case (Cons p ps)
  then show ?case by (cases k) auto
qed

lemma search_dynamic_fids: "map fid ps = map fid qs \<Longrightarrow> search_dynamic_from ps i fi = search_dynamic_from qs i fi"
proof (induction ps arbitrary: i qs)
  case Nil
  then show ?case by simp
next
  case (Cons p ps)
  then show ?case by (cases qs) auto
qed

lemma search_ef_table: "fs_inv fs \<Longrightarrow> search_ef fs fi = search_ef_from (butlast file_table) 0 fi"
  unfolding search_ef_def fs_inv_def by (metis map_butlast search_ef_from_map)

lemma lookup_cases:
  assumes inv: "fs_inv fs" and l: "lookup fs fi = Some r"
  obtains (static) i f where "r = Static i" "i < length (file_entries fs)" "f = file_entries fs ! i" "deref_file fs r = Some f"
      "fid f = fi" "search_ef fs fi = Some r"
    | (dynamic) i f where "r = Dynamic i" "i < dynamic_files fs" "i < length (dynamic_file fs)" "f = dynamic_file fs ! i"
      "deref_file fs r = Some f" "fid f = fi" "search_ef fs fi = None" "search_dynamic_file fs fi = Some r"
proof (cases "search_ef fs fi")
  case None
  then have sd: "search_dynamic_file fs fi = Some r" using l by (simp add: lookup_def)
  then obtain k where k: "k < length (take (dynamic_files fs) (dynamic_file fs))" "r = Dynamic k"
    "fid (take (dynamic_files fs) (dynamic_file fs) ! k) = fi"
    unfolding search_dynamic_file_def using search_dynamic_from_Some by fastforce
  then show ?thesis using dynamic [of k] None sd by (auto simp: rd_def)
next
  case (Some r')
  then have r: "search_ef fs fi = Some r" using l by (simp add: lookup_def)
  then obtain k where "k < length (butlast (file_entries fs))" "r = Static k" "fid (butlast (file_entries fs) ! k) = fi"
    unfolding search_ef_def using search_ef_from_Some by fastforce
  then show ?thesis using static [of k] r by (auto simp: rd_def nth_butlast)
qed

lemma lookup_deref: "fs_inv fs \<Longrightarrow> lookup fs fi = Some r \<Longrightarrow> \<exists>f. deref_file fs r = Some f \<and> fid f = fi"
  by (erule (1) lookup_cases) auto

lemma lookup_inj: "fs_inv fs \<Longrightarrow> lookup fs fi = Some r \<Longrightarrow> lookup fs fj = Some r \<Longrightarrow> fi = fj"
  using lookup_deref [of fs fi r] lookup_deref [of fs fj r] by auto

text \<open>Changing a \<open>data\<close> pointer keeps the tables.\<close>

lemma map_update_id: "h (g x) = h x \<Longrightarrow> i < length xs \<Longrightarrow> xs ! i = x \<Longrightarrow> map h (xs[i := g x]) = map h xs"
  by (metis list_update_id map_update)

lemma search_ef_from_update:
  "search_ef_from (ps[k := data_update g (ps ! k)]) i fi = search_ef_from ps i fi"
proof (induction ps arbitrary: i k)
  case Nil
  then show ?case by simp
next
  case (Cons p ps)
  then show ?case by (cases k) auto
qed

lemma upd_file_data:
  defines "g \<equiv> \<lambda>h. data_update (h :: nat option \<Rightarrow> nat option)"
  shows "lookup (upd_file (g h) r fs) = lookup fs" and "search_ef (upd_file (g h) r fs) = search_ef fs"
    and "dyn_fids (upd_file (g h) r fs) = dyn_fids fs" and "dynamic_files (upd_file (g h) r fs) = dynamic_files fs"
    and "length (dynamic_file (upd_file (g h) r fs)) = length (dynamic_file fs)"
    and "store (upd_file (g h) r fs) = store fs" and "pick (upd_file (g h) r fs) = pick fs"
    and "map (data_update (\<lambda>_. None)) (file_entries (upd_file (g h) r fs)) = map (data_update (\<lambda>_. None)) (file_entries fs)"
proof -
  show ef: "search_ef (upd_file (g h) r fs) = search_ef fs" for fs
  proof (cases r)
    case (Static i)
    show ?thesis
    proof
      fix fi
      have "butlast ((file_entries fs)[i := g h (file_entries fs ! i)]) =
          (if i = length (file_entries fs) - 1 then butlast (file_entries fs)
           else (butlast (file_entries fs))[i := g h (butlast (file_entries fs) ! i)])"
        by (cases "i < length (file_entries fs)")
          (auto simp: butlast_list_update nth_butlast list_update_beyond)
      then show "search_ef (upd_file (g h) r fs) fi = search_ef fs fi"
        using Static by (simp add: search_ef_def search_ef_from_update g_def)
    qed
  qed (auto simp: search_ef_def)
  have fids: "map fid (xs[i := g h (xs ! i)]) = map fid xs" for xs :: "nat file_t list" and i
    by (cases "i < length xs") (auto simp: g_def list_update_beyond intro: map_update_id)
  have tk: "map fid (take n (xs[i := g h (xs ! i)])) = map fid (take n xs)" for n i and xs :: "nat file_t list"
    by (simp add: fids flip: take_map)
  show df: "dyn_fids (upd_file (g h) r fs) = dyn_fids fs"
    by (cases r) (simp_all add: dyn_fids_def tk)
  have "search_dynamic_file (upd_file (g h) r fs) = search_dynamic_file fs"
  proof
    fix fi
    show "search_dynamic_file (upd_file (g h) r fs) fi = search_dynamic_file fs fi"
      unfolding search_dynamic_file_def using df by (intro search_dynamic_fids) (simp add: dyn_fids_def)
  qed
  with ef show "lookup (upd_file (g h) r fs) = lookup fs" by (simp add: lookup_def fun_eq_iff split: option.split)
  show "dynamic_files (upd_file (g h) r fs) = dynamic_files fs"
    "length (dynamic_file (upd_file (g h) r fs)) = length (dynamic_file fs)"
    "store (upd_file (g h) r fs) = store fs" "pick (upd_file (g h) r fs) = pick fs"
    by (cases r; simp)+
  show "map (data_update (\<lambda>_. None)) (file_entries (upd_file (g h) r fs)) = map (data_update (\<lambda>_. None)) (file_entries fs)"
  proof (cases r)
    case (Static i)
    then show ?thesis by (cases "i < length (file_entries fs)") (auto simp: g_def list_update_beyond intro: map_update_id)
  qed simp
qed

lemma deref_upd_same: "deref_file fs r = Some f \<Longrightarrow> deref_file (upd_file g r fs) r = Some (g f)"
  by (cases r) (auto simp: rd_def split: if_splits)

lemma deref_upd_other: "r \<noteq> r' \<Longrightarrow> deref_file (upd_file g r fs) r' = deref_file fs r'"
  by (cases r; cases r') (auto simp: rd_def)

lemma deref_store: "deref_file (fs\<lparr>store := s\<rparr>) r = deref_file fs r"
  by (cases r) simp_all

lemma lookup_store: "lookup (fs\<lparr>store := s\<rparr>) = lookup fs" "search_ef (fs\<lparr>store := s\<rparr>) = search_ef fs"
  "dyn_fids (fs\<lparr>store := s\<rparr>) = dyn_fids fs"
  by (simp_all add: fun_eq_iff lookup_def search_ef_def search_dynamic_file_def dyn_fids_def split: option.split)

text \<open>The two changes of a content: a new one, at a free address or at the own one, and none.\<close>

definition set_data :: "file_ref \<Rightarrow> nat option \<Rightarrow> store \<Rightarrow> fs \<Rightarrow> fs" where
  "set_data r v s fs = upd_file (data_update (\<lambda>_. v)) r (fs\<lparr>store := s\<rparr>)"

lemma set_data_tables:
  "lookup (set_data r v s fs) = lookup fs" "search_ef (set_data r v s fs) = search_ef fs"
  "dyn_fids (set_data r v s fs) = dyn_fids fs" "dynamic_files (set_data r v s fs) = dynamic_files fs"
  "length (dynamic_file (set_data r v s fs)) = length (dynamic_file fs)" "store (set_data r v s fs) = s"
  "pick (set_data r v s fs) = pick fs"
  "map (data_update (\<lambda>_. None)) (file_entries (set_data r v s fs)) = map (data_update (\<lambda>_. None)) (file_entries fs)"
  by (simp_all add: set_data_def upd_file_data lookup_store)

lemma set_data_deref:
  "deref_file fs r = Some f \<Longrightarrow> deref_file (set_data r v s fs) r = Some (f\<lparr>data := v\<rparr>)"
  "r \<noteq> r' \<Longrightarrow> deref_file (set_data r v s fs) r' = deref_file fs r'"
  using deref_upd_same [of "fs\<lparr>store := s\<rparr>" r f] deref_upd_other [of r r'] by (auto simp: set_data_def deref_store)

lemma set_data_inv:
  assumes inv: "fs_inv fs"
    and own: "\<And>fi r' f d. lookup fs fi = Some r' \<Longrightarrow> deref_file (set_data r v s fs) r' = Some f \<Longrightarrow> data f = Some d \<Longrightarrow>
      \<exists>bs. s d = Some (fi, bs)"
  shows "fs_inv (set_data r v s fs)"
  unfolding fs_inv_def set_data_tables
proof (intro conjI)
  show "\<forall>fi r' f d. lookup fs fi = Some r' \<longrightarrow> deref_file (set_data r v s fs) r' = Some f \<longrightarrow> data f = Some d \<longrightarrow>
      (\<exists>bs. s d = Some (fi, bs))"
    using own by blast
qed (use inv in \<open>simp_all add: fs_inv_def\<close>)

text \<open>Addresses belong to one file.\<close>

lemma fs_inv_store:
  "fs_inv fs \<Longrightarrow> lookup fs fi = Some r \<Longrightarrow> deref_file fs r = Some f \<Longrightarrow> data f = Some d \<Longrightarrow> \<exists>bs. store fs d = Some (fi, bs)"
  by (simp add: fs_inv_def)

lemma fget_at:
  assumes "fs_inv fs" "lookup fs fi = Some r" "deref_file fs r = Some f"
  shows "fget fs fi = (case data f of None \<Rightarrow> None | Some d \<Rightarrow> record_at fs d)"
  using assms by (auto simp: fget_def split: option.split)

lemma fget_cong:
  assumes "lookup fs' fi = lookup fs fi"
    and "\<And>r. lookup fs fi = Some r \<Longrightarrow> deref_file fs' r = deref_file fs r"
    and "\<And>r f d. lookup fs fi = Some r \<Longrightarrow> deref_file fs r = Some f \<Longrightarrow> data f = Some d \<Longrightarrow> store fs' d = store fs d"
  shows "fget fs' fi = fget fs fi"
proof (cases "lookup fs fi")
  case (Some r)
  then show ?thesis
    using assms by (cases "deref_file fs r"; cases "data (the (deref_file fs r))") (auto simp: fget_def record_at_def)
qed (use assms(1) in \<open>simp add: fget_def\<close>)

lemma set_content:
  fixes bs :: bytes
  assumes inv: "fs_inv fs" and l: "lookup fs fi = Some r" and f: "deref_file fs r = Some f"
    and d: "\<forall>x. store fs d = Some x \<longrightarrow> fst x = fi"
  defines "fs' \<equiv> set_data r (Some d) ((store fs)(d \<mapsto> (fi, bs))) fs"
  shows "fs_inv fs'" and "lookup fs' = lookup fs" and "fget fs' = (fget fs)(fi \<mapsto> bs)"
proof -
  note t = set_data_tables [of r "Some d" "(store fs)(d \<mapsto> (fi, bs))" fs, folded fs'_def]
  note df = set_data_deref [where fs = fs and r = r and v = "Some d" and s = "(store fs)(d \<mapsto> (fi, bs))", folded fs'_def]
  have own: "fi' = fi" if "lookup fs fi' = Some r'" "deref_file fs r' = Some f'" "data f' = Some d" for fi' r' f'
    using fs_inv_store [OF inv that] d by auto
  have other: "\<exists>bs'. store fs' d' = Some (fi', bs')"
    if "lookup fs fi' = Some r'" "deref_file fs' r' = Some f'" "data f' = Some d'" for fi' r' f' d'
  proof (cases "r' = r")
    case True
    then have "fi' = fi" using lookup_inj [OF inv _ l] that(1) by simp
    moreover have "d' = d" using df(1) [OF f] True that(2,3) by auto
    ultimately show ?thesis using t(6) by simp
  next
    case False
    then have f': "deref_file fs r' = Some f'" using df(2) [of r'] that(2) by simp
    have "d' \<noteq> d"
    proof
      assume "d' = d"
      with that(3) have "data f' = Some d" by simp
      from own [OF that(1) f' this] that(1) l False show False by simp
    qed
    then show ?thesis using fs_inv_store [OF inv that(1) f' that(3)] t(6) by simp
  qed
  show "fs_inv fs'"
    unfolding fs'_def by (rule set_data_inv [OF inv]) (rule other [unfolded fs'_def set_data_tables])
  then have inv': "fs_inv fs'" .
  show "lookup fs' = lookup fs" by (rule t)
  show "fget fs' = (fget fs)(fi \<mapsto> bs)"
  proof
    fix fi'
    show "fget fs' fi' = ((fget fs)(fi \<mapsto> bs)) fi'"
    proof (cases "fi' = fi")
      case True
      then show ?thesis using l df(1) [OF f] t by (simp add: fget_def record_at_def)
    next
      case False
      have "fget fs' fi' = fget fs fi'"
      proof (rule fget_cong)
        fix r'
        assume l': "lookup fs fi' = Some r'"
        have "r' \<noteq> r" using lookup_inj [OF inv l'] l False by auto
        then show "deref_file fs' r' = deref_file fs r'" using df(2) by simp
        fix f' d'
        assume "deref_file fs r' = Some f'" "data f' = Some d'"
        then show "store fs' d' = store fs d'" using own [OF l'] False t by auto
      qed (simp add: t)
      with False show ?thesis by simp
    qed
  qed
qed

lemma clear_content:
  assumes inv: "fs_inv fs" and l: "lookup fs fi = Some r" and f: "deref_file fs r = Some f" and d: "data f = Some d"
  defines "fs' \<equiv> set_data r None ((store fs)(d := None)) fs"
  shows "fs_inv fs'" and "lookup fs' = lookup fs" and "fget fs' = (fget fs)(fi := None)"
proof -
  note t = set_data_tables [of r None "(store fs)(d := None)" fs, folded fs'_def]
  note df = set_data_deref [where fs = fs and r = r and v = None and s = "(store fs)(d := None)", folded fs'_def]
  obtain bs where sd: "store fs d = Some (fi, bs)" using fs_inv_store [OF inv l f d] by blast
  have own: "fi' = fi" if "lookup fs fi' = Some r'" "deref_file fs r' = Some f'" "data f' = Some d" for fi' r' f'
    using fs_inv_store [OF inv that] sd by simp
  have other: "\<exists>bs'. store fs' d' = Some (fi', bs')"
    if "lookup fs fi' = Some r'" "deref_file fs' r' = Some f'" "data f' = Some d'" for fi' r' f' d'
  proof (cases "r' = r")
    case True
    then show ?thesis using df(1) [OF f] that(2,3) by auto
  next
    case False
    then have f': "deref_file fs r' = Some f'" using df(2) [of r'] that(2) by simp
    have "d' \<noteq> d"
    proof
      assume "d' = d"
      with that(3) have "data f' = Some d" by simp
      from own [OF that(1) f' this] that(1) l False show False by simp
    qed
    then show ?thesis using fs_inv_store [OF inv that(1) f' that(3)] t(6) by simp
  qed
  show "fs_inv fs'"
    unfolding fs'_def by (rule set_data_inv [OF inv]) (rule other [unfolded fs'_def set_data_tables])
  show "lookup fs' = lookup fs" by (rule t)
  show "fget fs' = (fget fs)(fi := None)"
  proof
    fix fi'
    show "fget fs' fi' = ((fget fs)(fi := None)) fi'"
    proof (cases "fi' = fi")
      case True
      then show ?thesis using l df(1) [OF f] t by (simp add: fget_def)
    next
      case False
      have "fget fs' fi' = fget fs fi'"
      proof (rule fget_cong)
        fix r'
        assume l': "lookup fs fi' = Some r'"
        have "r' \<noteq> r" using lookup_inj [OF inv l'] l False by auto
        then show "deref_file fs' r' = deref_file fs r'" using df(2) by simp
        fix f' d'
        assume "deref_file fs r' = Some f'" "data f' = Some d'"
        then show "store fs' d' = store fs d'" using own [OF l'] False t by auto
      qed (simp add: t)
      with False show ?thesis by simp
    qed
  qed
qed

lemma upd_file_id: "deref_file fs r = Some f \<Longrightarrow> g f = f \<Longrightarrow> upd_file g r fs = fs"
  by (cases r) (auto simp: rd_def split: if_splits)

lemma clear_file_set: "deref_file fs r = Some f \<Longrightarrow> data f = Some d \<Longrightarrow> store fs d = Some x \<Longrightarrow>
    clear_file fs (Some r) = Some (set_data r None ((store fs)(d := None)) fs)"
  by (simp add: clear_file_def set_data_def)

lemma clear_file_spec:
  assumes inv: "fs_inv fs" and l: "lookup fs fi = Some r"
  shows "\<exists>fs'. clear_file fs (Some r) = Some fs' \<and> fs_inv fs' \<and> lookup fs' = lookup fs \<and> fget fs' = (fget fs)(fi := None)"
proof -
  obtain f where f: "deref_file fs r = Some f" using lookup_deref [OF inv l] by blast
  show ?thesis
  proof (cases "data f")
    case None
    then have "fget fs fi = None" using fget_at [OF inv l f] by simp
    then show ?thesis using inv f None by (simp add: clear_file_def fun_upd_idem)
  next
    case (Some d)
    obtain x where "store fs d = Some x" using fs_inv_store [OF inv l f Some] by blast
    from clear_file_set [OF f Some this] show ?thesis using clear_content [OF inv l f Some] by auto
  qed
qed

lemma new_record_set:
  assumes inv: "fs_inv fs" and l: "lookup fs fi = Some r" and f: "deref_file fs r = Some f" and none: "data f = None"
  shows "\<exists>rc fs'. new_record fs r bs = Some (rc, fs') \<and> fs_inv fs' \<and> lookup fs' = lookup fs \<and>
    (rc = CCID_OK \<and> fget fs' = (fget fs)(fi \<mapsto> bs) \<or> rc = CCID_ERR_NO_MEMORY \<and> fs' = fs \<and> fget fs' = (fget fs)(fi := None))"
proof (cases "pick fs (ftype f AND FILE_PERSISTENT = FILE_PERSISTENT) (store fs) (length bs)")
  case None
  have "fget fs fi = None" using fget_at [OF inv l f] none by simp
  then have "fget fs = (fget fs)(fi := None)" by (simp add: fun_eq_iff)
  then show ?thesis using inv f None by (simp add: new_record_def ccid_defs)
next
  case (Some d)
  then have "store fs d = None" using inv by (auto simp: fs_inv_def pick_law_def)
  moreover have "fid f = fi" using lookup_deref [OF inv l] f by simp
  ultimately show ?thesis
    using set_content [OF inv l f, of d bs] f Some by (simp add: new_record_def set_data_def)
qed

lemma write_file_spec:
  assumes inv: "fs_inv fs" and l: "lookup fs fi = Some r" and len: "length bs \<le> 4096"
  shows "\<exists>rc fs'. write_file fs (Some r) bs = Some (rc, fs') \<and> fs_inv fs' \<and> lookup fs' = lookup fs \<and>
    (rc = CCID_OK \<and> fget fs' = (fget fs)(fi \<mapsto> bs) \<or> rc = CCID_ERR_NO_MEMORY \<and> fget fs' = (fget fs)(fi := None)) \<and>
    (\<forall>old. fget fs fi = Some old \<longrightarrow> length bs \<le> length old \<longrightarrow> rc = CCID_OK)"
proof -
  obtain f where f: "deref_file fs r = Some f" "fid f = fi" using lookup_deref [OF inv l] by blast
  have sz: "\<not> length bs > FLASH_SECTOR_SIZE" using len by (simp add: flash_sizes)
  show ?thesis
  proof (cases "data f")
    case None
    have "write_file fs (Some r) bs = new_record fs r bs"
      using f None sz by (simp add: write_file_def file_get_size_def)
    moreover have "fget fs fi = None" using fget_at [OF inv l f(1)] None by simp
    ultimately show ?thesis using new_record_set [OF inv l f(1) None, of bs] by auto
  next
    case (Some d)
    obtain old where old: "store fs d = Some (fi, old)" using fs_inv_store [OF inv l f(1) Some] by blast
    have fg: "fget fs fi = Some old" using fget_at [OF inv l f(1)] Some old by (simp add: record_at_def)
    have n: "file_get_size fs (Some r) = Some (length old)" using f Some old by (simp add: file_get_size_def record_at_def)
    show ?thesis
    proof (cases "length bs \<le> length old")
      case True
      have "write_file fs (Some r) bs = Some (CCID_OK, set_data r (Some d) ((store fs)(d \<mapsto> (fi, bs))) fs)"
        using f Some sz n True old upd_file_id [of "fs\<lparr>store := (store fs)(d \<mapsto> (fi, bs))\<rparr>" r f]
        by (simp add: write_file_def set_data_def deref_store)
      then show ?thesis using set_content [OF inv l f(1), of d bs] old by simp
    next
      case False
      let ?fs = "set_data r None ((store fs)(d := None)) fs"
      note c = clear_content [OF inv l f(1) Some]
      have "write_file fs (Some r) bs = new_record ?fs r bs"
        using f Some sz n False clear_file_set [OF f(1) Some old] by (simp add: write_file_def)
      moreover have "deref_file ?fs r = Some (f\<lparr>data := None\<rparr>)" by (rule set_data_deref(1) [OF f(1)])
      moreover have "lookup ?fs fi = Some r" using c(2) l by simp
      ultimately show ?thesis
        using new_record_set [OF c(1), of fi r "f\<lparr>data := None\<rparr>" bs] c fg False by auto
    qed
  qed
qed

section \<open>Creating and deleting\<close>

lemma lookup_new: "search_dynamic_file fs fi = None \<Longrightarrow> search_ef fs fi = None \<Longrightarrow> lookup fs fi = None"
  by (simp add: lookup_def)

lemma file_new_existing:
  assumes inv: "fs_inv fs" and l: "lookup fs fi = Some r"
  shows "file_new fs fi = (Some r, fs)"
  using inv l
proof (cases rule: lookup_cases)
  case (static i f)
  then have "fi \<notin> set (dyn_fids fs)" using inv by (auto simp: fs_inv_def)
  then have "search_dynamic_file fs fi = None"
    by (simp add: search_dynamic_file_def search_dynamic_from_None dyn_fids_def)
  then show ?thesis using static by (simp add: file_new_def)
next
  case (dynamic i f)
  then show ?thesis by (simp add: file_new_def)
qed

lemma search_dynamic_append:
  "search_dynamic_from (ps @ qs) i fi =
     (case search_dynamic_from ps i fi of Some r \<Rightarrow> Some r | None \<Rightarrow> search_dynamic_from qs (i + length ps) fi)"
  by (induction ps arbitrary: i) (auto split: option.split)

lemma file_new_fresh:
  assumes inv: "fs_inv fs" and l: "lookup fs fi = None" and room: "dynamic_files fs < 128"
  defines "n \<equiv> dynamic_files fs"
  defines "fs' \<equiv> fs\<lparr>dynamic_file := (dynamic_file fs)[n := new_file fi], dynamic_files := n + 1\<rparr>"
  shows "file_new fs fi = (Some (Dynamic n), fs')" and "fs_inv fs'"
    and "lookup fs' = (lookup fs)(fi \<mapsto> Dynamic n)" and "fget fs' = fget fs"
proof -
  have s: "search_ef fs fi = None" "search_dynamic_file fs fi = None"
    using l by (auto simp: lookup_def split: option.splits)
  show "file_new fs fi = (Some (Dynamic n), fs')"
    using s room by (simp add: file_new_def fs'_def n_def MAX_DYNAMIC_FILES_def)
  have len: "length (dynamic_file fs) = 128" using inv by (simp add: fs_inv_def)
  have tk: "take (n + 1) ((dynamic_file fs)[n := new_file fi]) = take n (dynamic_file fs) @ [new_file fi]"
    using len room by (simp add: n_def take_Suc_conv_app_nth)
  have ef: "search_ef fs' = search_ef fs" by (simp add: fs'_def search_ef_def fun_eq_iff)
  have fi: "fi \<notin> set (dyn_fids fs)" using s(2) by (simp add: search_dynamic_file_def search_dynamic_from_None dyn_fids_def)
  have dy: "dyn_fids fs' = dyn_fids fs @ [fi]"
    using tk by (simp add: fs'_def dyn_fids_def n_def new_file_def)
  show lk: "lookup fs' = (lookup fs)(fi \<mapsto> Dynamic n)"
  proof
    fix fj
    have "take (dynamic_files fs') (dynamic_file fs') = take n (dynamic_file fs) @ [new_file fi]"
      using tk by (simp add: fs'_def)
    then have "search_dynamic_file fs' fj =
        (case search_dynamic_file fs fj of Some r \<Rightarrow> Some r | None \<Rightarrow> if fj = fi then Some (Dynamic n) else None)"
      using len room by (simp add: search_dynamic_file_def search_dynamic_append n_def new_file_def split: option.split)
    then show "lookup fs' fj = ((lookup fs)(fi \<mapsto> Dynamic n)) fj"
      using s by (auto simp: lookup_def ef split: option.split)
  qed
  have de: "deref_file fs' r = deref_file fs r" if "lookup fs fj = Some r" for fj r
    using inv that by (cases rule: lookup_cases) (auto simp: fs'_def n_def rd_def)
  have dn: "deref_file fs' (Dynamic n) = Some (new_file fi)" using len room by (simp add: fs'_def n_def rd_def)
  show "fget fs' = fget fs"
  proof
    fix fj
    show "fget fs' fj = fget fs fj"
    proof (cases "fj = fi")
      case True
      then show ?thesis using l lk dn by (simp add: fget_def new_file_def)
    next
      case False
      then show ?thesis using lk de by (intro fget_cong) (auto simp: fs'_def)
    qed
  qed
  have own: "\<exists>bs. store fs' d = Some (fj, bs)"
    if "lookup fs' fj = Some r" "deref_file fs' r = Some f" "data f = Some d" for fj r f d
  proof (cases "fj = fi")
    case True
    then show ?thesis using that lk dn by (auto simp: new_file_def)
  next
    case False
    then have l': "lookup fs fj = Some r" using that lk by simp
    then have "deref_file fs r = Some f" using de that by simp
    from fs_inv_store [OF inv l' this that(3)] show ?thesis by (simp add: fs'_def)
  qed
  show "fs_inv fs'"
    unfolding fs_inv_def
  proof (intro conjI)
    show "\<forall>fj r f d. lookup fs' fj = Some r \<longrightarrow> deref_file fs' r = Some f \<longrightarrow> data f = Some d \<longrightarrow>
      (\<exists>bs. store fs' d = Some (fj, bs))" using own by blast
    show "\<forall>fj \<in> set (dyn_fids fs'). search_ef fs' fj = None" using inv s dy ef by (auto simp: fs_inv_def)
    show "distinct (dyn_fids fs')" using inv fi dy by (simp add: fs_inv_def)
  qed (use inv room in \<open>simp_all add: fs_inv_def fs'_def n_def\<close>)
qed

text \<open>Which entry a file has, without its place in the array.\<close>

definition file_of :: "fs \<Rightarrow> u16 \<Rightarrow> nat file_t option" where
  "file_of fs fi = do { r \<leftarrow> lookup fs fi; deref_file fs r }"

lemma fget_file_of: "fget fs fi = do { f \<leftarrow> file_of fs fi; d \<leftarrow> data f; record_at fs d }"
  by (cases "lookup fs fi") (simp_all add: fget_def file_of_def)

lemma search_dynamic_find:
  "Option.bind (search_dynamic_from ps i fi) (\<lambda>r. case r of Dynamic k \<Rightarrow> rd ps (k - i) | Static k \<Rightarrow> None) =
     List.find (\<lambda>p. fid p = fi) ps"
proof (induction ps arbitrary: i)
  case Nil
  then show ?case by simp
next
  case (Cons p ps)
  have "rd (p # ps) (k - i) = rd ps (k - Suc i)" if "search_dynamic_from ps (Suc i) fi = Some (Dynamic k)" for k
    using search_dynamic_from_Some [OF that] by (auto simp: rd_def)
  then have "Option.bind (search_dynamic_from ps (Suc i) fi)
       (\<lambda>r. case r of Dynamic k \<Rightarrow> rd (p # ps) (k - i) | Static k \<Rightarrow> None) =
     Option.bind (search_dynamic_from ps (Suc i) fi) (\<lambda>r. case r of Dynamic k \<Rightarrow> rd ps (k - Suc i) | Static k \<Rightarrow> None)"
    by (cases "search_dynamic_from ps (Suc i) fi") (auto split: file_ref.split)
  with Cons show ?case by (simp add: rd_def)
qed

lemma file_of_find:
  assumes "dynamic_files fs \<le> length (dynamic_file fs)"
  shows "file_of fs fi =
     (case search_ef fs fi of Some r \<Rightarrow> deref_file fs r
      | None \<Rightarrow> List.find (\<lambda>p. fid p = fi) (take (dynamic_files fs) (dynamic_file fs)))"
proof (cases "search_ef fs fi")
  case None
  have "deref_file fs r = (case r of Dynamic k \<Rightarrow> rd (take (dynamic_files fs) (dynamic_file fs)) (k - 0) | Static k \<Rightarrow> None)"
    if "search_dynamic_file fs fi = Some r" for r
    using search_dynamic_from_Some [OF that [unfolded search_dynamic_file_def]] assms by (auto simp: rd_def)
  then show ?thesis
    using None search_dynamic_find [of "take (dynamic_files fs) (dynamic_file fs)" 0 fi]
    by (cases "search_dynamic_file fs fi") (auto simp: file_of_def lookup_def search_dynamic_file_def)
qed (simp add: file_of_def lookup_def)

lemma find_remove_nth:
  "distinct (map h xs) \<Longrightarrow> i < length xs \<Longrightarrow> y \<noteq> h (xs ! i) \<Longrightarrow>
    List.find (\<lambda>x. h x = y) (take i xs @ drop (i + 1) xs) = List.find (\<lambda>x. h x = y) xs"
proof (induction xs arbitrary: i)
  case Nil
  then show ?case by simp
next
  case (Cons x xs)
  then show ?case by (cases i) auto
qed

lemma take_shift_down:
  assumes "i < n" "n \<le> length a"
  shows "take (n - 1) (shift_down a i n) = take i (take n a) @ drop (i + 1) (take n a)"
  using assms by (cases "i = n - 1") (auto simp: shift_down_def min_def take_drop)

lemma length_shift_down: "i < n \<Longrightarrow> n \<le> length a \<Longrightarrow> length (shift_down a i n) = length a"
  by (auto simp: shift_down_def)

lemma delete_dynamic_spec:
  assumes inv: "fs_inv fs" and l: "search_dynamic_file fs fi = Some (Dynamic i)" and none: "fget fs fi = None"
  defines "fs' \<equiv> fs\<lparr>dynamic_file := shift_down (dynamic_file fs) i (dynamic_files fs), dynamic_files := dynamic_files fs - 1\<rparr>"
  shows "fs_inv fs'" and "fget fs' = fget fs" and "lookup fs' fi = None"
    and "fj \<noteq> fi \<Longrightarrow> file_of fs' fj = file_of fs fj"
proof -
  let ?live = "take (dynamic_files fs) (dynamic_file fs)" and ?live' = "take (dynamic_files fs') (dynamic_file fs')"
  have len: "length (dynamic_file fs) = 128" "dynamic_files fs \<le> 128" and dist: "distinct (map fid ?live)"
    and noef: "\<forall>fi \<in> set (dyn_fids fs). search_ef fs fi = None"
    using inv by (auto simp: fs_inv_def dyn_fids_def)
  obtain "i < length ?live" and fi: "fid (?live ! i) = fi"
    using search_dynamic_from_Some [OF l [unfolded search_dynamic_file_def]] by auto
  then have i: "i < dynamic_files fs" "i < length ?live" by auto
  have live': "?live' = take i ?live @ drop (i + 1) ?live"
    using take_shift_down [of i "dynamic_files fs" "dynamic_file fs"] i len by (simp add: fs'_def)
  have ef: "search_ef fs' = search_ef fs" by (simp add: fs'_def search_ef_def fun_eq_iff)
  have len': "length (dynamic_file fs') = 128" "dynamic_files fs' \<le> 128" "dynamic_files fs' \<le> length (dynamic_file fs')"
    using len i by (simp_all add: fs'_def length_shift_down)
  have split: "map fid ?live = map fid (take i ?live) @ fi # map fid (drop (i + 1) ?live)"
    using i fi by (metis id_take_nth_drop list.simps(9) map_append Suc_eq_plus1)
  have fids': "dyn_fids fs' = map fid (take i ?live) @ map fid (drop (i + 1) ?live)"
    by (simp add: dyn_fids_def live')
  have d': "distinct (dyn_fids fs')" "set (dyn_fids fs') \<subseteq> set (dyn_fids fs)" "fi \<notin> set (dyn_fids fs')"
  proof -
    obtain A B where "dyn_fids fs = A @ fi # B" "dyn_fids fs' = A @ B"
      using split fids' by (simp add: dyn_fids_def)
    moreover have "distinct (dyn_fids fs)" using dist by (simp add: dyn_fids_def)
    ultimately show "distinct (dyn_fids fs')" "set (dyn_fids fs') \<subseteq> set (dyn_fids fs)" "fi \<notin> set (dyn_fids fs')"
      by auto
  qed
  have fief: "search_ef fs fi = None" using noef split by (simp add: dyn_fids_def)
  show gone: "lookup fs' fi = None"
    using d'(3) fief ef by (simp add: lookup_def search_dynamic_file_def search_dynamic_from_None dyn_fids_def)
  show same: "file_of fs' fj = file_of fs fj" if "fj \<noteq> fi" for fj
  proof -
    have "List.find (\<lambda>p. fid p = fj) ?live' = List.find (\<lambda>p. fid p = fj) ?live"
      unfolding live' by (rule find_remove_nth [OF dist i(2)]) (use that fi in simp)
    moreover have "deref_file fs' r = deref_file fs r" if "search_ef fs fj = Some r" for r
      using search_ef_from_Some [OF that [unfolded search_ef_def]] by (auto simp: fs'_def)
    ultimately show ?thesis
      using file_of_find [OF len'(3)] file_of_find [of fs] len ef by (simp split: option.split)
  qed
  show "fget fs' = fget fs"
  proof
    fix fj
    show "fget fs' fj = fget fs fj"
      using same [of fj] gone none by (cases "fj = fi") (simp_all add: fget_file_of, simp_all add: file_of_def record_at_def fs'_def)
  qed
  have own: "\<exists>bs. store fs' d = Some (fj, bs)"
    if "lookup fs' fj = Some r" "deref_file fs' r = Some f" "data f = Some d" for fj r f d
  proof -
    have ne: "fj \<noteq> fi" using that gone by auto
    have "file_of fs' fj = Some f" using that by (simp add: file_of_def)
    then have "file_of fs fj = Some f" using same [OF ne] by simp
    then obtain r' where "lookup fs fj = Some r'" "deref_file fs r' = Some f" by (auto simp: file_of_def bind_eq_Some_conv)
    from fs_inv_store [OF inv this that(3)] show ?thesis by (simp add: fs'_def)
  qed
  show "fs_inv fs'"
    unfolding fs_inv_def
  proof (intro conjI)
    show "\<forall>fj r f d. lookup fs' fj = Some r \<longrightarrow> deref_file fs' r = Some f \<longrightarrow> data f = Some d \<longrightarrow>
      (\<exists>bs. store fs' d = Some (fj, bs))" using own by blast
    show "\<forall>fj \<in> set (dyn_fids fs'). search_ef fs' fj = None" using noef d' ef by auto
  qed (use inv d' len' in \<open>simp_all add: fs_inv_def fs'_def\<close>)
qed

text \<open>There is no \<^verbatim>\<open>EF_META\<close> in the table.\<close>

lemma no_meta: "fs_inv fs \<Longrightarrow> search_ef fs EF_META = None"
  by (simp add: search_ef_table file_table_def internal_ef_def fid_defs)

lemma meta_delete_none: "fs_inv fs \<Longrightarrow> meta_delete fs fi = Some (CCID_ERR_FILE_NOT_FOUND, fs)"
  by (simp add: meta_delete_def no_meta)

lemma delete_file_spec:
  assumes inv: "fs_inv fs" and l: "lookup fs fi = Some r"
  shows "\<exists>fs'. delete_file fs (Some r) = Some (if search_ef fs fi = None then CCID_OK else CCID_EXEC_ERROR, fs') \<and>
    fs_inv fs' \<and> fget fs' = (fget fs)(fi := None) \<and> (search_ef fs fi = None \<longrightarrow> lookup fs' fi = None) \<and>
    (\<forall>fj. fj \<noteq> fi \<longrightarrow> (lookup fs' fj = None \<longleftrightarrow> lookup fs fj = None))"
proof -
  obtain f where f: "deref_file fs r = Some f" "fid f = fi" using lookup_deref [OF inv l] by blast
  obtain fs1 where c: "clear_file fs (Some r) = Some fs1" "fs_inv fs1" "lookup fs1 = lookup fs"
    "fget fs1 = (fget fs)(fi := None)" "search_ef fs1 = search_ef fs" "\<exists>f1. deref_file fs1 r = Some f1 \<and> fid f1 = fi"
  proof (cases "data f")
    case None
    then have "fget fs fi = None" using fget_at [OF inv l f(1)] by simp
    then have "fget fs = (fget fs)(fi := None)" by (simp add: fun_eq_iff)
    then show ?thesis using that [of fs] inv f None by (simp add: clear_file_def)
  next
    case (Some d)
    obtain x where "store fs d = Some x" using fs_inv_store [OF inv l f(1) Some] by blast
    from clear_file_set [OF f(1) Some this] show ?thesis
      using that clear_content [OF inv l f(1) Some] set_data_deref(1) [OF f(1)] f(2) by (simp add: set_data_tables)
  qed
  then have l1: "lookup fs1 fi = Some r" using l by simp
  from c(6) obtain f1 where f1: "deref_file fs1 r = Some f1" "fid f1 = fi" by blast
  show ?thesis
    using c(2) l1
  proof (cases rule: lookup_cases)
    case (static i g)
    then have "search_dynamic_file fs1 fi = None"
      using c(2) by (auto simp: fs_inv_def dyn_fids_def search_dynamic_file_def search_dynamic_from_None)
    then show ?thesis
      using static c f f1 meta_delete_none [OF inv] by (simp add: delete_file_def delete_dynamic_file_def ccid_defs)
  next
    case (dynamic i g)
    have none: "fget fs1 fi = None" using c(4) by simp
    have sd: "search_dynamic_file fs1 fi = Some (Dynamic i)" using dynamic by simp
    note dl = delete_dynamic_spec [OF c(2) sd none]
    have keep: "(lookup fs' fj = None) = (lookup fs1 fj = None)"
      if "file_of fs' fj = file_of fs1 fj" "fs_inv fs'" for fs' fj
      using that lookup_deref [OF c(2), of fj] lookup_deref [OF that(2), of fj]
      by (cases "lookup fs' fj"; cases "lookup fs1 fj") (auto simp: file_of_def)
    show ?thesis
      using dynamic c f f1 sd dl keep [OF dl(4) dl(1)] meta_delete_none [OF inv]
      by (simp add: delete_file_def delete_dynamic_file_def ccid_defs)
  qed
qed

text \<open>The references of the files behind a deleted one are off by one afterwards.\<close>

lemma delete_moves_down:
  assumes inv: "fs_inv fs" and l: "lookup fs fi = Some (Dynamic i)" and x: "lookup fs fj = Some (Dynamic j)" and ij: "i < j"
    and d: "delete_file fs (Some (Dynamic i)) = Some (rc, fs')"
  shows "lookup fs' fj = Some (Dynamic (j - 1))"
proof -
  obtain fs1 where c: "clear_file fs (Some (Dynamic i)) = Some fs1" "fs_inv fs1" "lookup fs1 = lookup fs"
    "fget fs1 = (fget fs)(fi := None)" using clear_file_spec [OF inv l] by blast
  obtain f where f: "deref_file fs (Dynamic i) = Some f" using lookup_deref [OF inv l] by blast
  have l1: "lookup fs1 fi = Some (Dynamic i)" and x1: "lookup fs1 fj = Some (Dynamic j)" using c(3) l x by simp_all
  obtain f1 where f1: "deref_file fs1 (Dynamic i) = Some f1" "fid f1 = fi" using lookup_deref [OF c(2) l1] by blast
  have s1: "search_dynamic_file fs1 fi = Some (Dynamic i)" using c(2) l1 by (cases rule: lookup_cases) auto
  obtain jb: "j < dynamic_files fs1" "j < length (dynamic_file fs1)" "fid (dynamic_file fs1 ! j) = fj" "search_ef fs1 fj = None"
    using c(2) x1 by (cases rule: lookup_cases) auto
  define fs2 where "fs2 = fs1\<lparr>dynamic_file := shift_down (dynamic_file fs1) i (dynamic_files fs1), dynamic_files := dynamic_files fs1 - 1\<rparr>"
  have fs': "fs' = fs2"
    using d f f1 s1 c(1) meta_delete_none [OF inv] by (simp add: delete_file_def delete_dynamic_file_def fs2_def)
  have none: "fget fs1 fi = None" using c(4) by simp
  have inv2: "fs_inv fs2" unfolding fs2_def by (rule delete_dynamic_spec(1) [OF c(2) s1 none])
  let ?live = "take (dynamic_files fs1) (dynamic_file fs1)" and ?live' = "take (dynamic_files fs2) (dynamic_file fs2)"
  have len: "length ?live = dynamic_files fs1" using c(2) by (simp add: fs_inv_def)
  have live': "?live' = take i ?live @ drop (i + 1) ?live"
    using take_shift_down [of i "dynamic_files fs1" "dynamic_file fs1"] ij jb(1) len by (simp add: fs2_def)
  have n: "j - 1 < length ?live'" and e: "?live' ! (j - 1) = ?live ! j"
    using ij jb(1) len by (auto simp: live' nth_append)
  have "distinct (map fid ?live')" using inv2 by (simp add: fs_inv_def dyn_fids_def)
  from search_dynamic_from_distinct [OF this n, of 0] have "search_dynamic_file fs2 fj = Some (Dynamic (j - 1))"
    using e jb by (simp add: search_dynamic_file_def)
  then show ?thesis using jb(4) fs' by (simp add: lookup_def fs2_def search_ef_def)
qed

section \<open>The interface the applications use\<close>

text \<open>\<^verbatim>\<open>flash_write_data_to_file(file_new(fid), bs)\<close>; for a static file, \<^verbatim>\<open>file_new\<close> finds it.\<close>

definition store_file :: "fs \<Rightarrow> u16 \<Rightarrow> bytes \<Rightarrow> (int \<times> fs) option" where
  "store_file fs fi bs = (let (r, fs1) = file_new fs fi in write_file fs1 r bs)"

definition remove_file :: "fs \<Rightarrow> u16 \<Rightarrow> (int \<times> fs) option" where
  "remove_file fs fi = delete_file fs (lookup fs fi)"

locale file_contract =
  fixes inv :: "'s \<Rightarrow> bool"
    and get :: "'s \<Rightarrow> u16 \<Rightarrow> bytes option"
    and put :: "'s \<Rightarrow> u16 \<Rightarrow> bytes \<Rightarrow> (int \<times> 's) option"
    and del :: "'s \<Rightarrow> u16 \<Rightarrow> (int \<times> 's) option"
  assumes put_total: "inv s \<Longrightarrow> length bs \<le> 4096 \<Longrightarrow> \<exists>rc s'. put s fi bs = Some (rc, s')"
    and put_inv: "inv s \<Longrightarrow> length bs \<le> 4096 \<Longrightarrow> put s fi bs = Some (rc, s') \<Longrightarrow> inv s'"
    and put_ok: "inv s \<Longrightarrow> length bs \<le> 4096 \<Longrightarrow> put s fi bs = Some (CCID_OK, s') \<Longrightarrow> get s' = (get s)(fi \<mapsto> bs)"
    and put_err: "inv s \<Longrightarrow> length bs \<le> 4096 \<Longrightarrow> put s fi bs = Some (rc, s') \<Longrightarrow> rc \<noteq> CCID_OK \<Longrightarrow>
      get s' = (get s)(fi := None)"
    and put_shrink: "inv s \<Longrightarrow> get s fi = Some old \<Longrightarrow> length bs \<le> length old \<Longrightarrow> length bs \<le> 4096 \<Longrightarrow>
      put s fi bs = Some (rc, s') \<Longrightarrow> rc = CCID_OK"
    and del_law: "inv s \<Longrightarrow> \<exists>rc s'. del s fi = Some (rc, s') \<and> inv s' \<and> get s' = (get s)(fi := None)"
begin

lemma put_get_other:
  assumes "inv s" "length bs \<le> 4096" "put s fi bs = Some (rc, s')" "fj \<noteq> fi"
  shows "get s' fj = get s fj"
  using assms put_ok [OF assms(1,2)] put_err [OF assms(1-3)] by (cases "rc = CCID_OK") auto

lemma put_get_same:
  assumes "inv s" "length bs \<le> 4096" "put s fi bs = Some (rc, s')"
  shows "get s' fi = (if rc = CCID_OK then Some bs else None)"
  using assms put_ok [OF assms(1,2)] put_err [OF assms(1-3)] by (cases "rc = CCID_OK") auto

end

lemma store_file_spec:
  assumes inv: "fs_inv fs" and len: "length bs \<le> 4096"
  shows "\<exists>rc fs'. store_file fs fi bs = Some (rc, fs') \<and> fs_inv fs' \<and>
    (rc = CCID_OK \<and> fget fs' = (fget fs)(fi \<mapsto> bs) \<or> rc \<noteq> CCID_OK \<and> fget fs' = (fget fs)(fi := None)) \<and>
    (\<forall>old. fget fs fi = Some old \<longrightarrow> length bs \<le> length old \<longrightarrow> rc = CCID_OK)"
proof (cases "lookup fs fi")
  case (Some r)
  from write_file_spec [OF inv Some len] show ?thesis
    by (auto simp: store_file_def file_new_existing [OF inv Some] ccid_defs)
next
  case None
  then have none: "fget fs fi = None" by (simp add: fget_def)
  show ?thesis
  proof (cases "dynamic_files fs < 128")
    case True
    note n = file_new_fresh [OF inv None True]
    from n(3) have "lookup (fs\<lparr>dynamic_file := (dynamic_file fs)[dynamic_files fs := new_file fi],
        dynamic_files := dynamic_files fs + 1\<rparr>) fi = Some (Dynamic (dynamic_files fs))" by simp
    from write_file_spec [OF n(2) this len] show ?thesis
      using n(1,4) none by (auto simp: store_file_def ccid_defs)
  next
    case False
    then have "dynamic_files fs = 128" using inv by (simp add: fs_inv_def)
    then have "file_new fs fi = (None, fs)"
      using None by (auto simp: file_new_def lookup_def MAX_DYNAMIC_FILES_def split: option.splits)
    then show ?thesis using inv none by (auto simp: store_file_def write_file_def ccid_defs fun_eq_iff)
  qed
qed

lemma remove_file_spec:
  assumes inv: "fs_inv fs"
  shows "\<exists>rc fs'. remove_file fs fi = Some (rc, fs') \<and> fs_inv fs' \<and> fget fs' = (fget fs)(fi := None)"
proof (cases "lookup fs fi")
  case (Some r)
  then show ?thesis using delete_file_spec [OF inv Some] by (auto simp: remove_file_def)
next
  case None
  then have "fget fs = (fget fs)(fi := None)" by (auto simp: fget_def fun_eq_iff)
  then show ?thesis using None inv by (simp add: remove_file_def delete_file_def)
qed

interpretation fsc: file_contract fs_inv fget store_file remove_file
proof
  fix s fi and bs :: bytes
  assume a: "fs_inv s" "length bs \<le> 4096"
  note sp = store_file_spec [OF a, of fi]
  show "\<exists>rc s'. store_file s fi bs = Some (rc, s')" using sp by blast
  show "fs_inv s'" if "store_file s fi bs = Some (rc, s')" for rc s' using sp that by auto
  show "fget s' = (fget s)(fi \<mapsto> bs)" if "store_file s fi bs = Some (CCID_OK, s')" for s' using sp that by auto
  show "fget s' = (fget s)(fi := None)" if "store_file s fi bs = Some (rc, s')" "rc \<noteq> CCID_OK" for rc s'
    using sp that by auto
next
  fix s fi old rc s' and bs :: bytes
  assume "fs_inv s" "fget s fi = Some old" "length bs \<le> length old" "length bs \<le> 4096"
    "store_file s fi bs = Some (rc, s')"
  then show "rc = CCID_OK" using store_file_spec [of s bs fi] by auto
next
  fix s fi
  assume "fs_inv s"
  then show "\<exists>rc s'. remove_file s fi = Some (rc, s') \<and> fs_inv s' \<and> fget s' = (fget s)(fi := None)"
    by (rule remove_file_spec)
qed

section \<open>Start-up\<close>

text \<open>The scan of a pool visits exactly its records, in link order.\<close>

lemma scan_loop_ok:
  assumes st: "clean st" and "path (view st) base as" "w32 (view st) (last (base # as)) = 0" "placed (view st) s base as"
    and s: "8192 \<le> s" and r: "w32 (view st) base = r" "as = [] \<Longrightarrow> r = 0"
  shows "scan_loop st s r = Some (map (\<lambda>a. (a, of_nat (w16 (view st) (a + 8)))) as)"
  using assms(2,3,4) r
proof (induction as arbitrary: base r)
  case Nil
  then show ?case by (subst scan_loop.simps) simp
next
  case (Cons a as)
  then have ra: "r = a" and a: "0 < a" "s \<le> sector_of a" "sector_off a + rsize (view st) a \<le> 4096" by auto
  have ok: "low_ok st {}" using st by (simp add: clean_ok)
  have off: "sector_off (a + 8) + 2 \<le> 4096" "sector_off a + 4 \<le> 4096"
    using a rsize12 [of "view st" a] sector_off_add [of a 8] by simp_all
  have e: "a + 4 + 4 = a + 8" by simp
  have rd: "flash_read_uint16 st (a + 4 + 4) = Some (w16 (view st) (a + 8))"
    "flash_read_uintptr st a = Some (w32 (view st) a)"
    unfolding e using off read_uint16_ok [OF ok] read_uintptr_ok [OF ok] by auto
  have sa: "s \<le> a" using a sector_split [of a] by linarith
  have ih: "scan_loop st s (w32 (view st) a) = Some (map (\<lambda>a. (a, of_nat (w16 (view st) (a + 8)))) as)"
    by (rule Cons.IH [of a]) (use Cons.prems in auto)
  show ?case
  proof (cases "w32 (view st) a = 0")
    case True
    then have "as = []" using Cons.prems(1) by (cases as) auto
    then show ?thesis using ra a sa rd True by (subst scan_loop.simps) simp
  next
    case False
    then show ?thesis using ra a sa rd ih by (subst scan_loop.simps) simp
  qed
qed

definition pool_records :: "mem \<Rightarrow> nat list \<Rightarrow> (nat \<times> u16) list" where
  "pool_records m as = map (\<lambda>a. (a, of_nat (w16 m (a + 8)))) as"

lemma scan_region_ok:
  assumes st: "clean st" and pool: "pool_ok (view st) (pool_start b p) (pool_end b p) as"
  shows "scan_region b p st fs = Some (foldl scan_record fs (pool_records (view st) as))"
proof -
  have ok: "low_ok st {}" using st by (simp add: clean_ok)
  have rd: "flash_read_uintptr st (pool_end b p) = Some (w32 (view st) (pool_end b p))"
    using pool read_uintptr_ok [OF ok] by (simp add: pool_ok_def)
  have "scan_loop st (pool_start b p) (w32 (view st) (pool_end b p)) = Some (pool_records (view st) as)"
    unfolding pool_records_def by (rule scan_loop_ok [OF st, of "pool_end b p"]) (use pool in \<open>auto simp: pool_ok_def\<close>)
  with rd show ?thesis by (simp add: scan_region_def pool_start_def pool_end_def split del: if_split)
qed

text \<open>A record that is in the store becomes the content of its file.\<close>

lemma scan_record_ok:
  assumes inv: "fs_inv fs" and sd: "store fs (a + 10) = Some (fi, bs)"
    and room: "dynamic_files fs < 128 \<or> lookup fs fi \<noteq> None"
  shows "fs_inv (scan_record fs (a, fi))" "fget (scan_record fs (a, fi)) = (fget fs)(fi \<mapsto> bs)"
    "store (scan_record fs (a, fi)) = store fs" "dynamic_files (scan_record fs (a, fi)) \<le> dynamic_files fs + 1"
proof -
  define rf where "rf = (case search_ef fs fi of Some r \<Rightarrow> (Some r, fs) | None \<Rightarrow> file_new fs fi)"
  have "\<exists>r fs1. rf = (Some r, fs1) \<and> fs_inv fs1 \<and> lookup fs1 fi = Some r \<and> fget fs1 = fget fs \<and>
    store fs1 = store fs \<and> dynamic_files fs1 \<le> dynamic_files fs + 1"
  proof (cases "lookup fs fi")
    case (Some r)
    then show ?thesis using inv file_new_existing [OF inv Some] by (auto simp: rf_def lookup_def split: option.splits)
  next
    case None
    then have "search_ef fs fi = None" by (simp add: lookup_def split: option.splits)
    moreover have "dynamic_files fs < 128" using room None by simp
    ultimately show ?thesis using file_new_fresh [OF inv None] by (simp add: rf_def)
  qed
  then obtain r fs1 where 1: "rf = (Some r, fs1)" "fs_inv fs1" "lookup fs1 fi = Some r" "fget fs1 = fget fs"
    "store fs1 = store fs" "dynamic_files fs1 \<le> dynamic_files fs + 1" by blast
  obtain f where f: "deref_file fs1 r = Some f" using lookup_deref [OF 1(2,3)] by blast
  have "(store fs1)(a + 10 \<mapsto> (fi, bs)) = store fs1" using sd 1(5) by auto
  then have "scan_record fs (a, fi) = set_data r (Some (a + 10)) ((store fs1)(a + 10 \<mapsto> (fi, bs))) fs1"
    unfolding scan_record_def fst_conv snd_conv rf_def [symmetric] 1(1) set_data_def by (simp add: ac_simps)
  moreover have "\<forall>x. store fs1 (a + 10) = Some x \<longrightarrow> fst x = fi" using sd 1(5) by simp
  ultimately show "fs_inv (scan_record fs (a, fi))" "fget (scan_record fs (a, fi)) = (fget fs)(fi \<mapsto> bs)"
    "store (scan_record fs (a, fi)) = store fs" "dynamic_files (scan_record fs (a, fi)) \<le> dynamic_files fs + 1"
    using set_content [OF 1(2,3) f, of "a + 10" bs] 1 sd by (auto simp: set_data_tables)
qed

lemma scan_records_ok:
  assumes "fs_inv fs" and "\<forall>(a, fi) \<in> set rs. \<exists>bs. store fs (a + 10) = Some (fi, bs)"
    and "dynamic_files fs + length rs \<le> 128"
  shows "fs_inv (foldl scan_record fs rs) \<and> store (foldl scan_record fs rs) = store fs \<and>
    dynamic_files (foldl scan_record fs rs) \<le> dynamic_files fs + length rs \<and>
    fget (foldl scan_record fs rs) = fget fs ++ map_of (rev (map (\<lambda>(a, fi). (fi, snd (the (store fs (a + 10))))) rs))"
  using assms
proof (induction rs arbitrary: fs)
  case Nil
  then show ?case by simp
next
  case (Cons x rs)
  obtain a fi where x: "x = (a, fi)" by (cases x)
  with Cons.prems obtain bs where bs: "store fs (a + 10) = Some (fi, bs)" by auto
  have "dynamic_files fs < 128 \<or> lookup fs fi \<noteq> None" using Cons.prems(3) by simp
  note st = scan_record_ok [OF Cons.prems(1) bs this]
  from Cons.IH [OF st(1)] Cons.prems st x bs show ?case
    by (simp add: map_add_upds map_add_assoc fun_eq_iff map_add_def split: option.split)
qed

text \<open>The freshly booted tables, over a store.\<close>

definition boot_fs :: "store \<Rightarrow> (bool \<Rightarrow> store \<Rightarrow> nat \<Rightarrow> nat option) \<Rightarrow> fs" where
  "boot_fs s pk = \<lparr>file_entries = file_table, dynamic_file = replicate 128 (new_file 0), dynamic_files = 0,
     store = s, pick = pk, isUserAuthenticated = False\<rparr>"

lemma file_table_data: "f \<in> set file_table \<Longrightarrow> data f = None \<and> f\<lparr>data := None\<rparr> = f"
  by (auto simp: file_table_def internal_ef_def)

lemma boot_fs_inv:
  assumes "pick_law pk"
  shows "fs_inv (boot_fs s0 pk)" "fget (boot_fs s0 pk) = Map.empty"
proof -
  have "map (data_update (\<lambda>_. None)) file_table = file_table"
    using file_table_data by (auto intro: map_idI)
  moreover have d: "data f = None" if "lookup (boot_fs s0 pk) fi = Some r" "deref_file (boot_fs s0 pk) r = Some f" for fi r f
    using that file_table_data
    by (cases r) (auto simp: boot_fs_def rd_def lookup_def search_dynamic_file_def new_file_def split: if_splits option.splits
        dest!: search_ef_from_Some)
  ultimately show "fs_inv (boot_fs s0 pk)" using assms by (auto simp: fs_inv_def dyn_fids_def boot_fs_def)
  show "fget (boot_fs s0 pk) = Map.empty"
    using d by (auto simp: fget_def fun_eq_iff bind_eq_None_conv)
qed

lemma soft_init_boot: "soft_init (boot_fs s pk) = boot_fs s pk"
proof -
  have "map (\<lambda>f. if ftype f AND FILE_DATA_FLASH = FILE_DATA_FLASH then f\<lparr>data := None\<rparr> else f) (butlast file_table) = butlast file_table"
    using file_table_data by (intro map_idI) (auto dest: in_set_butlastD)
  then show ?thesis by (simp add: soft_init_def boot_fs_def file_table_def)
qed

text \<open>The records of the two pools, by the address of their length field.\<close>

definition flash_store :: "mem \<Rightarrow> nat list \<Rightarrow> store" where
  "flash_store m as d =
     (if d - 10 \<in> set as \<and> 10 \<le> d then Some (of_nat (w16 m (d - 10 + 8)), get_bytes m (d + 2) (w16 m d)) else None)"

lemma scan_flash_ok:
  assumes st: "clean st" and rom: "pool_ok (view st) (pool_start b True) (pool_end b True) as"
    and dat: "pool_ok (view st) (pool_start b False) (pool_end b False) bs"
    and sec: "sector_off (pool_end b True) + 8 \<le> 4096" and init: "w32 (view st) (pool_end b True) \<noteq> 0xffffffff"
    and num: "length as + length bs \<le> 128" and pk: "pick_law pk"
  defines "sto \<equiv> flash_store (view st) (as @ bs)"
  shows "\<exists>fs. scan_flash b st (boot_fs sto pk) = Some (st, fs) \<and> fs_inv fs \<and> store fs = sto \<and>
    fget fs = map_of (rev (map (\<lambda>a. (of_nat (w16 (view st) (a + 8)), get_bytes (view st) (a + 12) (w16 (view st) (a + 10)))) (as @ bs)))"
proof -
  let ?m = "view st"
  have ok: "low_ok st {}" using st by (simp add: clean_ok)
  have w: "flash_read_uintptr st (pool_end b True) = Some (w32 ?m (pool_end b True))"
    "\<exists>w1. flash_read_uintptr st (pool_end b True + 4) = Some w1"
    using sec read_uintptr_ok [OF ok] sector_off_add [of "pool_end b True" 4] by auto
  have sto: "sto (a + 10) = Some (of_nat (w16 ?m (a + 8)), get_bytes ?m (a + 12) (w16 ?m (a + 10)))" if "a \<in> set (as @ bs)" for a
    using that by (simp add: sto_def flash_store_def add.commute)
  define rs where "rs = pool_records ?m as @ pool_records ?m bs"
  let ?fs = "foldl scan_record (boot_fs sto pk) rs"
  have "fs_inv ?fs \<and> store ?fs = store (boot_fs sto pk) \<and>
    dynamic_files ?fs \<le> dynamic_files (boot_fs sto pk) + length rs \<and>
    fget ?fs = fget (boot_fs sto pk) ++
      map_of (rev (map (\<lambda>(a, fi). (fi, snd (the (store (boot_fs sto pk) (a + 10))))) rs))"
  proof (rule scan_records_ok)
    show "fs_inv (boot_fs sto pk)" using boot_fs_inv(1) [OF pk] .
    show "\<forall>(a, fi) \<in> set rs. \<exists>bs. store (boot_fs sto pk) (a + 10) = Some (fi, bs)"
      using sto by (auto simp: rs_def pool_records_def boot_fs_def)
    show "dynamic_files (boot_fs sto pk) + length rs \<le> 128"
      using num by (simp add: rs_def pool_records_def boot_fs_def)
  qed
  moreover have "map (\<lambda>(a, fi). (fi, snd (the (store (boot_fs sto pk) (a + 10))))) rs =
      map (\<lambda>a. (of_nat (w16 ?m (a + 8)), get_bytes ?m (a + 12) (w16 ?m (a + 10)))) (as @ bs)"
    using sto by (simp add: rs_def pool_records_def boot_fs_def)
  moreover have "scan_flash b st (boot_fs sto pk) = Some (st, ?fs)"
    using w init scan_region_ok [OF st rom] scan_region_ok [OF st dat]
    by (auto simp: scan_flash_def initialize_flash_def soft_init_boot pool_end_def rs_def)
  ultimately show ?thesis using boot_fs_inv(2) [of pk sto, OF pk] by (auto simp: boot_fs_def)
qed

section \<open>Properties\<close>


text \<open>
  C39: \<^verbatim>\<open>delete_file\<close> removes the content of exactly one file.  For a dynamic file it also removes the file
  and answers \<^verbatim>\<open>CCID_OK\<close>; for a file of the static table it answers \<^verbatim>\<open>CCID_EXEC_ERROR\<close> although the
  content is gone.  All other files keep their content.
\<close>

theorem delete_file_contract:
  assumes inv: "fs_inv fs" and l: "lookup fs fi = Some r"
  shows "\<exists>fs'. delete_file fs (Some r) = Some (if search_ef fs fi = None then CCID_OK else CCID_EXEC_ERROR, fs') \<and>
    fs_inv fs' \<and> fget fs' = (fget fs)(fi := None) \<and> (search_ef fs fi = None \<longrightarrow> lookup fs' fi = None) \<and>
    (\<forall>fj. fj \<noteq> fi \<longrightarrow> (lookup fs' fj = None \<longleftrightarrow> lookup fs fj = None))"
  by (rule delete_file_spec [OF assms])

text \<open>A table with one dynamic file of two bytes, and an allocator that takes the addresses 100, 200 and so on.\<close>

definition first_free :: "bool \<Rightarrow> store \<Rightarrow> nat \<Rightarrow> nat option" where
  "first_free p s n = List.find (\<lambda>d. s d = None) [100, 200, 300]"

definition empty_fs :: fs where "empty_fs = boot_fs (\<lambda>_. None) first_free"

lemma first_free_law: "pick_law first_free"
  unfolding pick_law_def first_free_def find_Some_iff by auto

lemma empty_fs_inv: "fs_inv empty_fs"
  unfolding empty_fs_def by (rule boot_fs_inv) (rule first_free_law)

lemma replicate_128: "replicate 128 x = x # replicate 127 x"
  using replicate_Suc [of 127 x] by simp

definition one_file_fs :: fs where
  "one_file_fs = snd (the (store_file empty_fs EF_OATH_CODE [7, 8]))"

lemma one_file_inv: "fs_inv one_file_fs" "fget one_file_fs EF_OATH_CODE = Some [7, 8]"
    "lookup one_file_fs EF_OATH_CODE = Some (Dynamic 0)"
proof -
  have w: "store_file empty_fs EF_OATH_CODE [7, 8] = Some (CCID_OK, one_file_fs)"
    by (simp add: one_file_fs_def store_file_def empty_fs_def boot_fs_def file_new_def search_dynamic_file_def search_ef_def file_table_def
        internal_ef_def fid_defs MAX_DYNAMIC_FILES_def write_file_def new_file_def rd_def file_get_size_def flash_sizes
        new_record_def first_free_def)
  from fsc.put_inv [OF empty_fs_inv _ w] show "fs_inv one_file_fs" by simp
  from fsc.put_ok [OF empty_fs_inv _ w] show "fget one_file_fs EF_OATH_CODE = Some [7, 8]" by simp
  show "lookup one_file_fs EF_OATH_CODE = Some (Dynamic 0)"
    by (simp add: one_file_fs_def store_file_def empty_fs_def boot_fs_def file_new_def search_dynamic_file_def search_ef_def file_table_def
        internal_ef_def fid_defs MAX_DYNAMIC_FILES_def write_file_def new_file_def rd_def file_get_size_def flash_sizes
        new_record_def first_free_def lookup_def replicate_128)
qed


theorem delete_file_contract_witness:
  "\<exists>fs'. delete_file one_file_fs (Some (Dynamic 0)) =
      Some (if search_ef one_file_fs EF_OATH_CODE = None then CCID_OK else CCID_EXEC_ERROR, fs') \<and>
    fs_inv fs' \<and> fget fs' = (fget one_file_fs)(EF_OATH_CODE := None) \<and>
    (search_ef one_file_fs EF_OATH_CODE = None \<longrightarrow> lookup fs' EF_OATH_CODE = None) \<and>
    (\<forall>fj. fj \<noteq> EF_OATH_CODE \<longrightarrow> (lookup fs' fj = None \<longleftrightarrow> lookup one_file_fs fj = None))"
  by (rule delete_file_contract [OF one_file_inv(1,3)])

text \<open>
  C4: after a restart, \<^verbatim>\<open>scan_flash\<close> rebuilds from the two pools of the flash a table with the invariant, in
  which the files have exactly the contents of the records: for identifiers with one record each, a file
  has the bytes of its record, and no other file has data.  The flash is only read.
\<close>

theorem scan_flash_restores:
  assumes st: "clean st" and rom: "pool_ok (view st) (pool_start b True) (pool_end b True) as"
    and dat: "pool_ok (view st) (pool_start b False) (pool_end b False) bs"
    and sec: "sector_off (pool_end b True) + 8 \<le> 4096" and init: "w32 (view st) (pool_end b True) \<noteq> 0xffffffff"
    and num: "length as + length bs \<le> 128" and pk: "pick_law pk"
    and one: "distinct (map (\<lambda>a. of_nat (w16 (view st) (a + 8)) :: u16) (as @ bs))"
  shows "\<exists>fs. scan_flash b st (boot_fs (flash_store (view st) (as @ bs)) pk) = Some (st, fs) \<and> fs_inv fs \<and>
    (\<forall>fi v. fget fs fi = Some v \<longleftrightarrow>
      (\<exists>a \<in> set (as @ bs). fi = of_nat (w16 (view st) (a + 8)) \<and> v = get_bytes (view st) (a + 12) (w16 (view st) (a + 10))))"
proof -
  define g where "g = map (\<lambda>a. (of_nat (w16 (view st) (a + 8)) :: u16, get_bytes (view st) (a + 12) (w16 (view st) (a + 10)))) (as @ bs)"
  have "distinct (map fst g)" using one by (simp add: g_def comp_def)
  then have mo: "map_of (rev g) fi = Some v \<longleftrightarrow> (fi, v) \<in> set g" for fi v
    by (metis map_of_eq_Some_iff rev_map distinct_rev set_rev)
  from scan_flash_ok [OF st rom dat sec init num pk] obtain fs where
    "scan_flash b st (boot_fs (flash_store (view st) (as @ bs)) pk) = Some (st, fs)" "fs_inv fs" "fget fs = map_of (rev g)"
    unfolding g_def by blast
  then show ?thesis using mo by (auto simp: g_def)
qed

text \<open>The chip of \<open>one_low\<close>: the permanent pool is empty, the other one holds the counter file.\<close>

lemma one_record_words: "x + 4 \<le> 0x101fbfd0 \<or> 0x101fc000 \<le> x \<Longrightarrow> w32 one_record x = 0"
  by (auto simp: one_record_def record_mem_w32 linkmem_def w32_put_other pool_end_def geometry_defs pico_2MB_def)
    (simp_all add: w32_def get_bytes_def upt_conv_Cons)

theorem scan_flash_restores_witness:
  "\<exists>fs. scan_flash pico_2MB one_low (boot_fs (flash_store (view one_low) ([] @ ([] @ [0x101fbfd0]))) first_free) = Some (one_low, fs) \<and>
    fs_inv fs \<and>
    (\<forall>fi v. fget fs fi = Some v \<longleftrightarrow>
      (\<exists>a \<in> set ([] @ ([] @ [0x101fbfd0])). fi = of_nat (w16 (view one_low) (a + 8)) \<and>
         v = get_bytes (view one_low) (a + 12) (w16 (view one_low) (a + 10))))"
proof (rule scan_flash_restores [OF clean_one _ one_pool])
  have w: "w32 (view one_low) (pool_end pico_2MB True) = 0"
    by (simp add: view_one one_record_words pool_end_def geometry_defs pico_2MB_def)
  then show "pool_ok (view one_low) (pool_start pico_2MB True) (pool_end pico_2MB True) []"
    by (rule empty_pool_ok [OF pico_board_ok])
  show "w32 (view one_low) (pool_end pico_2MB True) \<noteq> 0xffffffff" using w by simp
  show "sector_off (pool_end pico_2MB True) + 8 \<le> 4096" using pool_geometry(2) [OF pico_board_ok] by simp
qed (auto intro: first_free_law)

end
