(* ===== verification/Apdu.thy ===== *)
theory Apdu
  imports Prelude
begin

text \<open>
  Command and response APDUs, \<^verbatim>\<open>pico-keys-sdk/src/apdu.c\<close>, and the table of applications of
  \<^verbatim>\<open>pico-keys-sdk/src/main.c\<close>: parsing of the length fields, selection and dispatch, the status word,
  and the delivery of a long response in parts with GET RESPONSE.  Pointers into the transmit buffer are
  offsets in \<open>tx\<close>; the two bytes \<^verbatim>\<open>rdata_bk\<close> that a status word overwrites are kept as a list.  What an
  interface driver does with the finished bytes is not part of this theory, they are returned; what
  \<^verbatim>\<open>usb_prepare_response\<close> does to the transmit buffer is the parameter \<open>prep\<close>.
\<close>

section \<open>State\<close>

record apdu =
  header :: bytes
  nc :: nat
  ne :: nat
  data_off :: nat
  sw :: u16
  rlen :: nat
  rdata :: nat
  rdata_gr :: nat
  rdata_bk :: bytes
  tx :: bytes

definition SW1 :: "u16 \<Rightarrow> u8" where "SW1 s = ucast (drop_bit 8 s)"
definition SW2 :: "u16 \<Rightarrow> u8" where "SW2 s = ucast s"

definition set_res_sw :: "u8 \<Rightarrow> u8 \<Rightarrow> apdu \<Rightarrow> u16 \<times> apdu" where
  "set_res_sw sw1 sw2 a =
     (make_uint16_t sw1 sw2,
      a\<lparr>sw := make_uint16_t sw1 sw2, rlen := (if sw1 \<noteq> 0x90 then 0 else rlen a)\<rparr>)"

section \<open>Parsing\<close>

definition or_max :: "nat \<Rightarrow> nat \<Rightarrow> nat" where
  "or_max mx n = (if n = 0 then mx else n)"

text \<open>
  The length fields of the \<open>sz\<close> bytes at the start of \<open>buf\<close>: \<^verbatim>\<open>nc\<close>, \<^verbatim>\<open>ne\<close> and the offset of the data;
  without data the pointer \<^verbatim>\<open>apdu.data\<close> keeps its old value, \<open>old\<close>.
\<close>

definition apdu_parse :: "nat \<Rightarrow> bytes \<Rightarrow> nat \<Rightarrow> (nat \<times> nat \<times> nat) option" where
  "apdu_parse old buf sz =
     (if sz = 4 then Some (0, 256, old)
      else if sz = 5 then do {
        h4 \<leftarrow> rd buf 4;
        Some (0, or_max 256 (unat h4), old)
      }
      else do {
        h4 \<leftarrow> rd buf 4;
        if h4 = 0 \<and> sz \<ge> 7 then do {
          h5 \<leftarrow> rd buf 5;
          h6 \<leftarrow> rd buf 6;
          let l = unat (make_uint16_t h5 h6);
          if sz = 7 then Some (0, or_max 65536 l, old)
          else if l + 7 + 2 = sz then do {
            a \<leftarrow> rd buf (sz - 2);
            b \<leftarrow> rd buf (sz - 1);
            Some (l, or_max 65536 (unat (make_uint16_t a b)), 7)
          } else Some (l, 0, 7)
        }
        else if unat h4 + 5 + 1 = sz then do {
          e \<leftarrow> rd buf (sz - 1);
          Some (unat h4, or_max 256 (unat e), 5)
        } else Some (unat h4, 0, 5)
      })"

text \<open>The eight forms of ISO 7816-4, from the four header bytes, the data and the expected length.\<close>

datatype apdu_form = Case1 | Case2S u8 | Case3S | Case4S u8 | Case2E u16 | Case3E | Case4E u16

fun apdu_encode :: "bytes \<Rightarrow> bytes \<Rightarrow> apdu_form \<Rightarrow> bytes" where
  "apdu_encode hd4 d Case1 = hd4"
| "apdu_encode hd4 d (Case2S le) = hd4 @ [le]"
| "apdu_encode hd4 d Case3S = hd4 @ [of_nat (length d)] @ d"
| "apdu_encode hd4 d (Case4S le) = hd4 @ [of_nat (length d)] @ d @ [le]"
| "apdu_encode hd4 d (Case2E le) = hd4 @ [0] @ put_uint16_t le"
| "apdu_encode hd4 d Case3E = hd4 @ [0] @ put_uint16_t (of_nat (length d)) @ d"
| "apdu_encode hd4 d (Case4E le) = hd4 @ [0] @ put_uint16_t (of_nat (length d)) @ d @ put_uint16_t le"

fun form_ok :: "bytes \<Rightarrow> apdu_form \<Rightarrow> bool" where
  "form_ok d Case1 \<longleftrightarrow> d = []"
| "form_ok d (Case2S le) \<longleftrightarrow> d = []"
| "form_ok d Case3S \<longleftrightarrow> 0 < length d \<and> length d < 256"
| "form_ok d (Case4S le) \<longleftrightarrow> 0 < length d \<and> length d < 256"
| "form_ok d (Case2E le) \<longleftrightarrow> d = []"
| "form_ok d Case3E \<longleftrightarrow> 0 < length d \<and> length d < 65536"
| "form_ok d (Case4E le) \<longleftrightarrow> 0 < length d \<and> length d < 65536"

fun form_ne :: "apdu_form \<Rightarrow> nat" where
  "form_ne Case1 = 256"
| "form_ne (Case2S le) = or_max 256 (unat le)"
| "form_ne Case3S = 0"
| "form_ne (Case4S le) = or_max 256 (unat le)"
| "form_ne (Case2E le) = or_max 65536 (unat le)"
| "form_ne Case3E = 0"
| "form_ne (Case4E le) = or_max 65536 (unat le)"

section \<open>GET RESPONSE and the end of a command\<close>

text \<open>A status word \<^verbatim>\<open>61xx\<close> with the rest, over two bytes of the response.\<close>

definition more_sw :: "nat \<Rightarrow> bytes" where
  "more_sw rest = [0x61, if rest \<ge> 256 then 0 else of_nat rest]"

text \<open>
  GET RESPONSE: the bytes that go to the driver, and the state.  The saved bytes are written back, and
  when more remains, one byte of the next part is saved, as a 16-bit value.
\<close>

definition get_response :: "(bytes \<Rightarrow> nat \<times> bytes) \<Rightarrow> apdu \<Rightarrow> (bytes \<times> apdu) option" where
  "get_response prep a = do {
     t1 \<leftarrow> wr_slice (tx a) (rdata_gr a) (rdata_bk a);
     if rlen a \<le> ne a then do {
       out \<leftarrow> rd_slice t1 (rdata_gr a) (rlen a + 2);
       Some (out, a\<lparr>sw := 0, rlen := 0, tx := snd (prep t1)\<rparr>)
     } else do {
       let gr = rdata_gr a + ne a;
       b \<leftarrow> rd t1 gr;
       t2 \<leftarrow> wr_slice t1 gr (more_sw (rlen a - ne a));
       out \<leftarrow> rd_slice t2 (rdata_gr a) (ne a + 2);
       Some (out, a\<lparr>tx := t2, rdata_gr := gr, rdata_bk := [b, 0], rlen := rlen a - ne a\<rparr>)
     }
   }"

definition apdu_process :: "(bytes \<Rightarrow> nat \<times> bytes) \<Rightarrow> bytes \<Rightarrow> nat \<Rightarrow> apdu \<Rightarrow> (nat \<times> bytes option \<times> apdu) option" where
  "apdu_process prep buf sz a = do {
     (n_c, n_e, off) \<leftarrow> apdu_parse (data_off a) buf sz;
     let a = a\<lparr>header := buf, nc := n_c, ne := n_e, data_off := off\<rparr>;
     ins \<leftarrow> rd buf 1;
     if ins = 0xc0 then do {
       (out, a) \<leftarrow> get_response prep a;
       Some (0, Some out, a)
     } else (let (r, t) = prep (tx a)
             in Some (1, None, a\<lparr>sw := 0, rlen := 0, tx := t, rdata := r, rdata_gr := r\<rparr>))
   }"

definition apdu_finish :: "apdu \<Rightarrow> apdu option" where
  "apdu_finish a = do {
     t \<leftarrow> wr_slice (tx a) (rdata a + rlen a) [SW1 (sw a), SW2 (sw a)];
     Some (a\<lparr>tx := t, ne := (if (rlen a + 2 + 10) mod 64 = 0 then rlen a - 2 else ne a)\<rparr>)
   }"

definition apdu_next :: "apdu \<Rightarrow> (nat \<times> apdu) option" where
  "apdu_next a =
     (if sw a \<noteq> 0 then
        (if rlen a \<le> ne a then Some (rlen a + 2, a)
         else do {
           let gr = rdata a + ne a;
           bk \<leftarrow> rd_slice (tx a) gr 2;
           t \<leftarrow> wr_slice (tx a) gr (more_sw (rlen a - ne a));
           Some (ne a + 2, a\<lparr>tx := t, rdata_gr := gr, rdata_bk := bk, rlen := rlen a - ne a\<rparr>)
         })
      else Some (0, a))"

section \<open>Applications\<close>

text \<open>An application, over the state \<open>'s\<close> that its functions change; \<open>aid\<close> is the length and the bytes.\<close>

record 's app =
  aid :: bytes
  select_aid :: "'s \<Rightarrow> int \<times> 's"
  process_cmd :: "('s \<Rightarrow> int \<times> 's) option"
  unload :: "('s \<Rightarrow> 's) option"

record 's card =
  apps :: "'s app list"
  current_app :: "nat option"
  env :: 's

definition register_app :: "'s app \<Rightarrow> 's card \<Rightarrow> nat \<times> 's card" where
  "register_app ap c = (if length (apps c) < 4 then (1, c\<lparr>apps := apps c @ [ap]\<rparr>) else (0, c))"

text \<open>\<^verbatim>\<open>memcmp\<close> of \<open>n\<close> bytes behind the length byte of an identifier; \<open>None\<close> if one side is shorter.\<close>

definition aid_cmp :: "bytes \<Rightarrow> bytes \<Rightarrow> nat \<Rightarrow> bool option" where
  "aid_cmp ai d n = do { x \<leftarrow> rd_slice ai 1 n; y \<leftarrow> rd_slice d 0 n; Some (x = y) }"

text \<open>
  The loop over the applications for a SELECT by name with the \<open>n_c\<close> bytes \<open>d\<close>.  The result is the
  status word, as its two bytes.
\<close>

fun select_loop :: "nat list \<Rightarrow> bytes \<Rightarrow> nat \<Rightarrow> 's card \<Rightarrow> ((u8 \<times> u8) \<times> 's card) option" where
  "select_loop [] d n_c c = Some ((0x6a, 0x82), c)"
| "select_loop (i # is) d n_c c = do {
     ap \<leftarrow> rd (apps c) i;
     l \<leftarrow> rd (aid ap) 0;
     hit \<leftarrow> aid_cmp (aid ap) d (min n_c (unat l));
     if hit then do {
       (again, c) \<leftarrow>
         (case current_app c of
            None \<Rightarrow> Some (False, c)
          | Some k \<Rightarrow> do {
              cur \<leftarrow> rd (apps c) k;
              same \<leftarrow> aid_cmp (aid cur) d n_c;
              if same then Some (True, c\<lparr>env := snd (select_aid cur (env c))\<rparr>)
              else Some (False, c\<lparr>env := (case unload cur of None \<Rightarrow> env c | Some u \<Rightarrow> u (env c))\<rparr>)
            });
       if again then Some ((0x90, 0x00), c)
       else (let (r, e) = select_aid ap (env c); c = c\<lparr>current_app := Some i, env := e\<rparr>
             in if r = CCID_OK then Some ((0x90, 0x00), c) else select_loop is d n_c c)
     } else select_loop is d n_c c
   }"

text \<open>\<open>status\<close> sets the status word in the state of the applications.\<close>

definition process_apdu :: "(u8 \<times> u8 \<Rightarrow> 's \<Rightarrow> int \<times> 's) \<Rightarrow> bytes \<Rightarrow> bytes \<Rightarrow> nat \<Rightarrow> 's card \<Rightarrow> (int \<times> 's card) option" where
  "process_apdu status h d n_c c = do {
     ins \<leftarrow> rd h 1; p1 \<leftarrow> rd h 2; p2 \<leftarrow> rd h 3;
     if ins = 0xA4 \<and> p1 = 0x04 \<and> (p2 = 0x00 \<or> p2 = 0x4) then do {
       (s, c) \<leftarrow> select_loop [0 ..< length (apps c)] d n_c c;
       (let (r, e) = status s (env c) in Some (r, c\<lparr>env := e\<rparr>))
     } else do {
       handler \<leftarrow> (case current_app c of
                     None \<Rightarrow> Some None
                   | Some k \<Rightarrow> map_option process_cmd (rd (apps c) k));
       (let (r, e) = (case handler of Some f \<Rightarrow> f (env c) | None \<Rightarrow> status (0x6a, 0x82) (env c))
        in Some (r, c\<lparr>env := e\<rparr>))
     }
   }"

section \<open>Parsing is the inverse of the ISO encoding\<close>

lemma put_uint16_bytes: "put_uint16_t n = [ucast (drop_bit 8 n), ucast n]"
  by (simp add: put_uint16_t_def)

lemma small_byte_zero: "0 < n \<Longrightarrow> n < 256 \<Longrightarrow> (of_nat n :: u8) \<noteq> 0"
  by (metis less_irrefl unat_0 unat_small_byte)

lemma unat_of_nat16: "n < 65536 \<Longrightarrow> unat (of_nat n :: u16) = n"
  by (simp add: unat_of_nat)

text \<open>
  C16: \<^verbatim>\<open>apdu_process\<close> reads the length fields of every well-formed command: for each of the seven forms
  of ISO 7816-4 (short and extended lengths, with and without data and expected length), the parser finds
  exactly the data that was encoded, and the expected length with 0 read as the maximum (256 also for a
  command that has no length field at all).
\<close>

theorem apdu_parse_encode:
  assumes h: "length hd4 = 4" and f: "form_ok d fm"
  shows "\<exists>off. apdu_parse old (apdu_encode hd4 d fm @ rest) (length (apdu_encode hd4 d fm)) =
      Some (length d, form_ne fm, off) \<and> (d \<noteq> [] \<longrightarrow> rd_slice (apdu_encode hd4 d fm) off (length d) = Some d)"
proof -
  obtain c0 c1 c2 c3 where hd4: "hd4 = [c0, c1, c2, c3]" using h by (auto simp: numeral_eq_Suc length_Suc_conv)
  show ?thesis
  proof (cases fm)
    case Case3S
    then show ?thesis using f unfolding hd4
      by (auto simp: apdu_parse_def rd_def nth_append unat_small_byte small_byte_zero rd_slice_def)
  next
    case (Case4S le)
    then show ?thesis using f unfolding hd4
      by (auto simp: apdu_parse_def rd_def nth_append unat_small_byte small_byte_zero rd_slice_def)
  next
    case Case3E
    then show ?thesis using f unfolding hd4
      by (auto simp: apdu_parse_def rd_def nth_append put_uint16_bytes make_put_uint16 unat_of_nat16 rd_slice_def Let_def)
  next
    case (Case4E le)
    then show ?thesis using f unfolding hd4
      by (auto simp: apdu_parse_def rd_def nth_append put_uint16_bytes make_put_uint16 unat_of_nat16 rd_slice_def Let_def)
  qed (use f in \<open>auto simp: hd4 apdu_parse_def rd_def nth_append put_uint16_bytes make_put_uint16 Let_def\<close>)
qed

theorem apdu_parse_encode_witness:
  "\<exists>off. apdu_parse 0 (apdu_encode [0, 0xA4, 4, 0] [1, 2, 3] (Case4E 0) @ [9]) (length (apdu_encode [0, 0xA4, 4, 0] [1, 2, 3] (Case4E 0))) =
      Some (length [1, 2, 3 :: u8], form_ne (Case4E 0), off) \<and>
      ([1, 2, 3 :: u8] \<noteq> [] \<longrightarrow> rd_slice (apdu_encode [0, 0xA4, 4, 0] [1, 2, 3] (Case4E 0)) off (length [1, 2, 3 :: u8]) = Some [1, 2, 3])"
  by (rule apdu_parse_encode) simp_all

section \<open>A long response in parts\<close>

text \<open>The response of a command lies in the transmit buffer: \<open>D\<close> at \<open>rdata\<close>, with room for the status word.\<close>

definition response :: "apdu \<Rightarrow> bytes \<Rightarrow> bool" where
  "response a D \<longleftrightarrow> rlen a = length D \<and> rd_slice (tx a) (rdata a) (length D) = Some D \<and>
     rdata a + length D + 2 \<le> length (tx a)"

lemma wr_slice_Some: "off + length s \<le> length b \<Longrightarrow> wr_slice b off s = Some (take off b @ s @ drop (off + length s) b)"
  by (simp add: wr_slice_def)

lemma slice_at: "rd_slice (pre @ s @ post) (length pre) (length s) = Some s"
  by (simp add: rd_slice_def)

lemma response_split:
  assumes "response a D"
  obtains pre x y post where "tx a = pre @ D @ [x, y] @ post" "length pre = rdata a"
proof -
  let ?r = "drop (rdata a + length D) (tx a)"
  have D: "take (length D) (drop (rdata a) (tx a)) = D" and len: "2 \<le> length ?r" "rdata a \<le> length (tx a)"
    using assms by (auto simp: response_def rd_slice_def split: if_splits)
  obtain x y post where "?r = [x, y] @ post" using len(1) by (cases ?r; cases "tl ?r") auto
  moreover have "tx a = take (rdata a) (tx a) @ take (length D) (drop (rdata a) (tx a)) @ drop (length D) (drop (rdata a) (tx a))"
    by (metis append_take_drop_id)
  ultimately have "tx a = take (rdata a) (tx a) @ D @ [x, y] @ post" using D by (simp add: add.commute)
  moreover have "length (take (rdata a) (tx a)) = rdata a" using len by simp
  ultimately show ?thesis using that by blast
qed

text \<open>Two bytes of the middle part \<open>E\<close> of a buffer, overwritten and written back.\<close>

definition patch :: "bytes \<Rightarrow> nat \<Rightarrow> bytes \<Rightarrow> bytes" where
  "patch E k s = take k E @ s @ drop (k + length s) E"

lemma length_patch: "k + length s \<le> length E \<Longrightarrow> length (patch E k s) = length E"
  by (simp add: patch_def)

lemma wr_slice_mid:
  "k + length s \<le> length E \<Longrightarrow> wr_slice (pre @ E @ post) (length pre + k) s = Some (pre @ patch E k s @ post)"
  by (simp add: wr_slice_def patch_def)

lemma rd_slice_mid:
  "k + n \<le> length E \<Longrightarrow> rd_slice (pre @ E @ post) (length pre + k) n = Some (take n (drop k E))"
  by (simp add: rd_slice_def)

lemma rd_mid: "k < length E \<Longrightarrow> rd (pre @ E @ post) (length pre + k) = Some (E ! k)"
  by (simp add: rd_def nth_append)

lemma patch_back: "k + 2 \<le> length E \<Longrightarrow> length s = 2 \<Longrightarrow> patch (patch E k s) k (take 2 (drop k E)) = E"
proof -
  assume k: "k + 2 \<le> length E" and s: "length s = 2"
  have "take k (patch E k s) = take k E" "drop (k + 2) (patch E k s) = drop (k + 2) E"
    using k s by (simp_all add: patch_def)
  then have "patch (patch E k s) k (take 2 (drop k E)) = take k E @ take 2 (drop k E) @ drop (k + 2) E"
    using k by (simp add: patch_def [of "patch E k s"])
  also have "take 2 (drop k E) @ drop (k + 2) E = drop k E"
    by (metis append_take_drop_id drop_drop add.commute)
  finally show ?thesis by simp
qed

lemma patch_first: "k + length s \<le> length E \<Longrightarrow> take (k + length s) (patch E k s) = take k E @ s"
  by (simp add: patch_def)

lemma length_more_sw [simp]: "length (more_sw n) = 2"
  by (simp add: more_sw_def)

definition first_part :: "apdu \<Rightarrow> (bytes \<times> apdu) option" where
  "first_part a = do {
     a \<leftarrow> apdu_finish a;
     (n, a) \<leftarrow> apdu_next a;
     out \<leftarrow> rd_slice (tx a) (rdata a) n;
     Some (out, a)
   }"

lemma finish_tx:
  assumes "tx a = pre @ (D @ [x, y]) @ post" "length pre = rdata a" "rlen a = length D" "(length D + 12) mod 64 \<noteq> 0"
  shows "apdu_finish a = Some (a\<lparr>tx := pre @ (D @ [SW1 (sw a), SW2 (sw a)]) @ post\<rparr>)"
proof -
  have "(length D + 2 + 10) mod 64 \<noteq> 0" using assms(4) by (simp add: add.commute)
  then show ?thesis
    using assms(1-3) wr_slice_mid [of "length D" "[SW1 (sw a), SW2 (sw a)]" "D @ [x, y]" pre post]
    by (simp add: apdu_finish_def patch_def)
qed

lemma first_part_split:
  assumes r: "response a D" and s: "sw a \<noteq> 0" and m: "(length D + 12) mod 64 \<noteq> 0" and n: "ne a < length D"
  defines "E \<equiv> D @ [SW1 (sw a), SW2 (sw a)]"
  shows "\<exists>pre post. length pre = rdata a \<and> first_part a = Some (take (ne a) D @ more_sw (length D - ne a),
    a\<lparr>tx := pre @ patch E (ne a) (more_sw (length D - ne a)) @ post, rdata_gr := rdata a + ne a,
      rdata_bk := take 2 (drop (ne a) E), rlen := length D - ne a\<rparr>)"
proof -
  obtain pre x y post where t: "tx a = pre @ (D @ [x, y]) @ post" "length pre = rdata a"
    using response_split [OF r] by (metis append.assoc)
  have l: "rlen a = length D" using r by (simp add: response_def)
  have k: "ne a + 2 \<le> length E" using n by (simp add: E_def)
  note f = finish_tx [OF t l m, folded E_def]
  have 1: "rd_slice (pre @ E @ post) (rdata a + ne a) 2 = Some (take 2 (drop (ne a) E))"
    "wr_slice (pre @ E @ post) (rdata a + ne a) (more_sw (length D - ne a)) = Some (pre @ patch E (ne a) (more_sw (length D - ne a)) @ post)"
    using rd_slice_mid [OF k, of pre post] wr_slice_mid [of "ne a" "more_sw (length D - ne a)" E pre post] k t(2) by auto
  have "take (ne a) E = take (ne a) D" using n by (simp add: E_def)
  then have 2: "rd_slice (pre @ patch E (ne a) (more_sw (length D - ne a)) @ post) (rdata a) (ne a + 2) =
      Some (take (ne a) D @ more_sw (length D - ne a))"
    using rd_slice_mid [of 0 "ne a + 2" "patch E (ne a) (more_sw (length D - ne a))" pre post]
      patch_first [of "ne a" "more_sw (length D - ne a)" E] k t(2) by (simp add: length_patch)
  show ?thesis
    using f s n l 1 2 t(2) by (intro exI [of _ pre] exI [of _ post]) (simp add: first_part_def apdu_next_def)
qed

lemma get_response_last:
  assumes t: "tx a = pre @ patch E k mm @ post" "length pre = p" "rdata_gr a = p + k" "rdata_bk a = bk" "length mm = 2" "length bk = 2"
    and k: "k + rlen a + 2 = length E" and n: "rlen a \<le> ne a"
  shows "\<exists>a'. get_response prep a = Some (drop k (patch (patch E k mm) k bk), a')"
proof -
  have "wr_slice (tx a) (rdata_gr a) bk = Some (pre @ patch (patch E k mm) k bk @ post)"
    using wr_slice_mid [of k bk "patch E k mm" pre post] t k by (simp add: length_patch)
  moreover have "rd_slice (pre @ patch (patch E k mm) k bk @ post) (rdata_gr a) (rlen a + 2) = Some (drop k (patch (patch E k mm) k bk))"
    using rd_slice_mid [of k "rlen a + 2" "patch (patch E k mm) k bk" pre post] t k by (simp add: length_patch)
  ultimately show ?thesis using n t(4) by (simp add: get_response_def)
qed

text \<open>
  a response that is longer than the expected length, but not longer than two parts, is delivered
  unchanged: the first part ends with \<^verbatim>\<open>61xx\<close>, GET RESPONSE then delivers the rest with the real status
  word.  (The theorem leaves out the lengths for which \<^verbatim>\<open>apdu_finish\<close> changes \<^verbatim>\<open>apdu.ne\<close>.)
\<close>

theorem two_part_response:
  assumes r: "response a D" and s: "sw a \<noteq> 0" and m: "(length D + 12) mod 64 \<noteq> 0"
    and n: "ne a < length D" "length D \<le> ne a + le2"
  shows "\<exists>a1 a2. first_part a = Some (take (ne a) D @ more_sw (length D - ne a), a1) \<and>
    get_response prep (a1\<lparr>ne := le2\<rparr>) = Some (drop (ne a) D @ [SW1 (sw a), SW2 (sw a)], a2)"
proof -
  let ?E = "D @ [SW1 (sw a), SW2 (sw a)]" and ?m2 = "more_sw (length D - ne a)"
  obtain pre post where p: "length pre = rdata a" and f: "first_part a = Some (take (ne a) D @ ?m2,
    a\<lparr>tx := pre @ patch ?E (ne a) ?m2 @ post, rdata_gr := rdata a + ne a,
      rdata_bk := take 2 (drop (ne a) ?E), rlen := length D - ne a\<rparr>)"
    using first_part_split [OF r s m n(1)] by blast
  let ?a1 = "a\<lparr>tx := pre @ patch ?E (ne a) ?m2 @ post, rdata_gr := rdata a + ne a,
      rdata_bk := take 2 (drop (ne a) ?E), rlen := length D - ne a\<rparr>"
  have "\<exists>a2. get_response prep (?a1\<lparr>ne := le2\<rparr>) = Some (drop (ne a) (patch (patch ?E (ne a) ?m2) (ne a) (take 2 (drop (ne a) ?E))), a2)"
    by (rule get_response_last [where mm = ?m2 and p = "rdata a"]) (use n p in simp_all)
  moreover have "patch (patch ?E (ne a) ?m2) (ne a) (take 2 (drop (ne a) ?E)) = ?E"
    by (rule patch_back) (use n in simp_all)
  ultimately show ?thesis using f n by auto
qed

lemma get_response_more:
  assumes t: "tx a = pre @ patch E k mm @ post" "length pre = p" "rdata_gr a = p + k" "rdata_bk a = take 2 (drop k E)"
      "length mm = 2"
    and k: "k + rlen a + 2 = length E" and n: "ne a < rlen a"
  shows "get_response prep a = Some (take (ne a) (drop k E) @ more_sw (rlen a - ne a),
    a\<lparr>tx := pre @ patch E (k + ne a) (more_sw (rlen a - ne a)) @ post, rdata_gr := p + (k + ne a),
      rdata_bk := [E ! (k + ne a), 0], rlen := rlen a - ne a\<rparr>)"
proof -
  let ?ms = "more_sw (rlen a - ne a)" and ?k = "k + ne a"
  have k2: "k + 2 \<le> length E" and k': "?k + 2 \<le> length E" "?k < length E" using k n by auto
  have restored: "patch (patch E k mm) k (take 2 (drop k E)) = E" using patch_back [OF k2 t(5)] .
  have 1: "wr_slice (tx a) (rdata_gr a) (rdata_bk a) = Some (pre @ E @ post)"
    using wr_slice_mid [of k "take 2 (drop k E)" "patch E k mm" pre post] t k2 restored by (simp add: length_patch)
  have 2: "rd (pre @ E @ post) (rdata_gr a + ne a) = Some (E ! ?k)"
    using rd_mid [OF k'(2), of pre post] t by (simp add: add.assoc)
  have 3: "wr_slice (pre @ E @ post) (rdata_gr a + ne a) ?ms = Some (pre @ patch E ?k ?ms @ post)"
    using wr_slice_mid [of ?k ?ms E pre post] t k' by (simp add: add.assoc)
  have sl: "take (ne a + 2) (drop k (patch E ?k ?ms)) = take (ne a) (drop k E) @ ?ms"
    using k' by (simp add: patch_def drop_take)
  have 4: "rd_slice (pre @ patch E ?k ?ms @ post) (rdata_gr a) (ne a + 2) = Some (take (ne a) (drop k E) @ ?ms)"
    using rd_slice_mid [of k "ne a + 2" "patch E ?k ?ms" pre post] t k' sl by (simp add: length_patch add.assoc)
  show ?thesis unfolding get_response_def 1 using n 2 3 4 t by (simp add: Let_def add.assoc)
qed

lemma patch_second:
  assumes "k + 2 \<le> length E" "length mm = 2"
  shows "drop k (patch (patch E k mm) k [E ! k, 0]) = (drop k E)[1 := 0]"
proof -
  have "drop k E = [E ! k, E ! Suc k] @ drop (k + 2) E"
    using assms by (metis Cons_nth_drop_Suc Suc_leD add_2_eq_Suc' append_Cons append_Nil less_eq_Suc_le)
  then have "(drop k E)[1 := 0] = [E ! k, 0] @ drop (k + 2) E" by simp
  moreover have "drop k (patch (patch E k mm) k [E ! k, 0]) = [E ! k, 0] @ drop (k + 2) E"
    using assms by (simp add: patch_def)
  ultimately show ?thesis by simp
qed

text \<open>
  from the third part on the delivery is wrong: GET RESPONSE saves one byte where the status word
  overwrites two, so in a response of three parts the second byte of the last part is 0 instead of the
  byte of the response.
\<close>

theorem third_part_corrupted:
  assumes r: "response a D" and s: "sw a \<noteq> 0" and m: "(length D + 12) mod 64 \<noteq> 0"
    and n: "ne a + le2 < length D" "length D \<le> ne a + le2 + le3"
  shows "\<exists>a1 a2 a3. first_part a = Some (take (ne a) D @ more_sw (length D - ne a), a1) \<and>
    get_response prep (a1\<lparr>ne := le2\<rparr>) = Some (take le2 (drop (ne a) D) @ more_sw (length D - ne a - le2), a2) \<and>
    get_response prep (a2\<lparr>ne := le3\<rparr>) = Some ((drop (ne a + le2) D @ [SW1 (sw a), SW2 (sw a)])[1 := 0], a3)"
proof -
  let ?E = "D @ [SW1 (sw a), SW2 (sw a)]" and ?m2 = "more_sw (length D - ne a)"
    and ?m3 = "more_sw (length D - ne a - le2)" and ?k = "ne a + le2"
  have ne: "ne a < length D" using n by simp
  obtain pre post where p: "length pre = rdata a" and f: "first_part a = Some (take (ne a) D @ ?m2,
    a\<lparr>tx := pre @ patch ?E (ne a) ?m2 @ post, rdata_gr := rdata a + ne a,
      rdata_bk := take 2 (drop (ne a) ?E), rlen := length D - ne a\<rparr>)"
    using first_part_split [OF r s m ne] by blast
  define a1 where "a1 = a\<lparr>tx := pre @ patch ?E (ne a) ?m2 @ post, rdata_gr := rdata a + ne a,
      rdata_bk := take 2 (drop (ne a) ?E), rlen := length D - ne a\<rparr>"
  define a2 where "a2 = a1\<lparr>ne := le2, tx := pre @ patch ?E ?k ?m3 @ post, rdata_gr := rdata a + ?k,
      rdata_bk := [?E ! ?k, 0], rlen := length D - ne a - le2\<rparr>"
  have "take le2 (drop (ne a) ?E) = take le2 (drop (ne a) D)" using n by simp
  then have g2: "get_response prep (a1\<lparr>ne := le2\<rparr>) = Some (take le2 (drop (ne a) D) @ ?m3, a2)"
    using get_response_more [of "a1\<lparr>ne := le2\<rparr>" pre ?E "ne a" ?m2 post "rdata a" prep] n p
    by (simp add: a1_def a2_def)
  have "\<exists>a3. get_response prep (a2\<lparr>ne := le3\<rparr>) = Some (drop ?k (patch (patch ?E ?k ?m3) ?k [?E ! ?k, 0]), a3)"
    by (rule get_response_last [where mm = ?m3 and p = "rdata a"]) (use n p in \<open>simp_all add: a2_def\<close>)
  moreover have "drop ?k (patch (patch ?E ?k ?m3) ?k [?E ! ?k, 0]) = (drop ?k D @ [SW1 (sw a), SW2 (sw a)])[1 := 0]"
    using patch_second [of ?k ?E ?m3] n by simp
  ultimately show ?thesis using f g2 by (fold a1_def) auto
qed

definition sample_apdu :: apdu where
  "sample_apdu = \<lparr>header = [0, 0xA1, 0, 0], nc = 0, ne = 2, data_off = 0, sw = 0x9000, rlen = 7, rdata = 1, rdata_gr = 1,
     rdata_bk = [0, 0], tx = [0xff, 1, 2, 3, 4, 5, 6, 7, 0, 0]\<rparr>"

lemma sample_response: "response sample_apdu [1, 2, 3, 4, 5, 6, 7]"
  by (simp add: response_def sample_apdu_def rd_slice_def)

theorem two_part_response_witness:
  "\<exists>a1 a2. first_part sample_apdu = Some (take (ne sample_apdu) [1, 2, 3, 4, 5, 6, 7] @
        more_sw (length [1, 2, 3, 4, 5, 6, 7 :: u8] - ne sample_apdu), a1) \<and>
    get_response (Pair 1) (a1\<lparr>ne := 5\<rparr>) = Some (drop (ne sample_apdu) [1, 2, 3, 4, 5, 6, 7] @ [SW1 (sw sample_apdu), SW2 (sw sample_apdu)], a2)"
  by (rule two_part_response [OF sample_response]) (simp_all add: sample_apdu_def)

theorem third_part_corrupted_witness:
  "\<exists>a1 a2 a3. first_part sample_apdu = Some (take (ne sample_apdu) [1, 2, 3, 4, 5, 6, 7] @
        more_sw (length [1, 2, 3, 4, 5, 6, 7 :: u8] - ne sample_apdu), a1) \<and>
    get_response (Pair 1) (a1\<lparr>ne := 2\<rparr>) = Some (take 2 (drop (ne sample_apdu) [1, 2, 3, 4, 5, 6, 7]) @
        more_sw (length [1, 2, 3, 4, 5, 6, 7 :: u8] - ne sample_apdu - 2), a2) \<and>
    get_response (Pair 1) (a2\<lparr>ne := 3\<rparr>) =
      Some ((drop (ne sample_apdu + 2) [1, 2, 3, 4, 5, 6, 7] @ [SW1 (sw sample_apdu), SW2 (sw sample_apdu)])[1 := 0], a3)"
  by (rule third_part_corrupted [OF sample_response]) (simp_all add: sample_apdu_def)

end
