(* ===== verification/Hid.thy ===== *)
theory Hid
  imports Prelude
begin

text \<open>
  The CTAPHID transport, \<^verbatim>\<open>pico-keys-sdk/src/usb/hid/hid.c\<close>, with the write side of \<^verbatim>\<open>usb.c\<close> for this
  interface and the emulated keyboard.  The receive buffer has 4096 bytes, of which \<open>w_offset\<close> are
  filled (the read offset of \<^verbatim>\<open>usb.c\<close> is never moved, it is 0), the transmit buffer has 4096 + 64 bytes.
  The request frame is the first 64 bytes of the receive buffer.  The calls of \<^verbatim>\<open>card_start\<close>, with the thread
  that they start (1 for APDUs, 2 for CBOR), are collected in \<open>card_starts\<close>.  Reports that the USB stack has accepted are collected in
  \<open>reports\<close>.  What lies outside is the record \<open>hid_env\<close>: the clock (one reading per handler call),
  whether the USB stack accepts a report, the versions, the board id and the callbacks, which are
  functions on the state.  Clock readings are \<open>nat\<close>; the wrap of the 32-bit millisecond counter after
  49 days is not modelled.
\<close>

section \<open>Constants and state\<close>

definition CTAP_MAX_PACKET_SIZE :: nat where "CTAP_MAX_PACKET_SIZE = 64 - 7 + 128 * (64 - 5)"

definition TYPE_MASK :: u8 where "TYPE_MASK = 0x80"
definition CTAPHID_PING :: u8 where "CTAPHID_PING = 0x81"
definition CTAPHID_MSG :: u8 where "CTAPHID_MSG = 0x83"
definition CTAPHID_LOCK :: u8 where "CTAPHID_LOCK = 0x84"
definition CTAPHID_INIT :: u8 where "CTAPHID_INIT = 0x86"
definition CTAPHID_WINK :: u8 where "CTAPHID_WINK = 0x88"
definition CTAPHID_CBOR :: u8 where "CTAPHID_CBOR = 0x90"
definition CTAPHID_CANCEL :: u8 where "CTAPHID_CANCEL = 0x91"
definition CTAPHID_KEEPALIVE :: u8 where "CTAPHID_KEEPALIVE = 0xbb"
definition CTAPHID_SYNC :: u8 where "CTAPHID_SYNC = 0xbc"
definition CTAPHID_ERROR :: u8 where "CTAPHID_ERROR = 0xbf"
definition CTAPHID_VERSION :: u8 where "CTAPHID_VERSION = 0xe1"
definition CTAPHID_UUID :: u8 where "CTAPHID_UUID = 0xe2"
definition CTAPHID_OTP :: u8 where "CTAPHID_OTP = 0xf0"
definition CTAPHID_ADMIN :: u8 where "CTAPHID_ADMIN = 0xf2"
definition CTAPHID_VENDOR_FIRST :: u8 where "CTAPHID_VENDOR_FIRST = 0xc0"
definition CTAPHID_VENDOR_LAST :: u8 where "CTAPHID_VENDOR_LAST = 0xff"
definition CTAP1_ERR_INVALID_CMD :: u8 where "CTAP1_ERR_INVALID_CMD = 0x01"
definition CTAP1_ERR_INVALID_PARAMETER :: u8 where "CTAP1_ERR_INVALID_PARAMETER = 0x02"
definition CTAP1_ERR_INVALID_LEN :: u8 where "CTAP1_ERR_INVALID_LEN = 0x03"
definition CTAP1_ERR_INVALID_SEQ :: u8 where "CTAP1_ERR_INVALID_SEQ = 0x04"
definition CTAP1_ERR_MSG_TIMEOUT :: u8 where "CTAP1_ERR_MSG_TIMEOUT = 0x05"
definition CTAP1_ERR_CHANNEL_BUSY :: u8 where "CTAP1_ERR_CHANNEL_BUSY = 0x06"
definition CTAP1_ERR_INVALID_CHANNEL :: u8 where "CTAP1_ERR_INVALID_CHANNEL = 0x0b"

lemmas cmd_defs = CTAPHID_PING_def CTAPHID_MSG_def CTAPHID_LOCK_def CTAPHID_INIT_def CTAPHID_WINK_def
  CTAPHID_CBOR_def CTAPHID_CANCEL_def CTAPHID_KEEPALIVE_def CTAPHID_SYNC_def CTAPHID_ERROR_def
  CTAPHID_VERSION_def CTAPHID_UUID_def CTAPHID_OTP_def CTAPHID_ADMIN_def CTAPHID_VENDOR_FIRST_def
  CTAPHID_VENDOR_LAST_def

record hid =
  rx_buf :: bytes
  w_offset :: nat
  hid_tx :: bytes
  ctap_resp :: nat
  w_len :: nat
  tx_r_offset :: nat
  send_buffer_size :: nat
  last_write_result :: bool
  msg_len :: nat
  msg_cur :: nat
  msg_data :: bytes
  last_cmd :: u8
  last_seq :: u8
  last_cid :: bytes
  lock :: nat
  last_cmd_time :: nat
  last_packet_time :: nat
  thread_type :: nat
  card_starts :: "nat list"
  is_nitrokey :: bool
  cancel_button :: bool
  resp_sw :: u16
  reports :: "bytes list"

record hid_env =
  now :: nat
  usb_ready :: bool
  button_pending :: bool
  version :: "u8 \<times> u8"
  sdk_version :: "u8 \<times> u8"
  board_id :: bytes
  init_fido_cb :: "hid \<Rightarrow> hid"
  select_fido :: "hid \<Rightarrow> hid"
  run_apdu :: "bytes \<Rightarrow> hid \<Rightarrow> int \<times> hid"
  cbor_process_cb :: "(u8 \<Rightarrow> bytes \<Rightarrow> hid \<Rightarrow> int \<times> hid) option"

definition req :: "hid \<Rightarrow> bytes" where "req st = take 64 (rx_buf st)"

definition frame_cid :: "bytes \<Rightarrow> bytes" where "frame_cid f = take 4 f"
definition frame_type :: "bytes \<Rightarrow> u8" where "frame_type f = f ! 4"
definition MSG_LEN :: "bytes \<Rightarrow> nat" where "MSG_LEN f = unat (f ! 5) * 256 + unat (f ! 6)"
definition init_data :: "bytes \<Rightarrow> bytes" where "init_data f = drop 7 f"
definition cont_data :: "bytes \<Rightarrow> bytes" where "cont_data f = drop 5 f"

text \<open>A copy to an offset of the transmit buffer; \<^verbatim>\<open>None\<close> if it runs over its end.\<close>

definition put_tx :: "nat \<Rightarrow> bytes \<Rightarrow> hid \<Rightarrow> hid option" where
  "put_tx off bs st = map_option (\<lambda>t. st\<lparr>hid_tx := t\<rparr>) (wr_slice (hid_tx st) off bs)"

section \<open>The USB layer\<close>

text \<open>A report from the host goes behind the bytes that are in the receive buffer.\<close>

definition usb_rx :: "bytes \<Rightarrow> hid \<Rightarrow> nat \<times> hid" where
  "usb_rx buf st =
     (let n = min (4096 - w_offset st) (length buf) in
      if n > 0
      then (n, st\<lparr>rx_buf := take (w_offset st) (rx_buf st) @ take n buf @ drop (w_offset st + n) (rx_buf st),
                  w_offset := w_offset st + n\<rparr>)
      else (n, st))"

definition usb_read_available :: "hid \<Rightarrow> nat" where "usb_read_available st = w_offset st"

definition usb_clear_rx :: "hid \<Rightarrow> hid" where "usb_clear_rx st = st\<lparr>w_offset := 0\<rparr>"

definition driver_write_hid :: "hid_env \<Rightarrow> bytes \<Rightarrow> hid \<Rightarrow> nat \<times> hid" where
  "driver_write_hid e buf st =
     (if usb_ready e
      then (min 64 (length buf), st\<lparr>last_write_result := True, reports := reports st @ [buf]\<rparr>)
      else (0, st\<lparr>last_write_result := False\<rparr>))"

definition usb_write_offset :: "hid_env \<Rightarrow> nat \<Rightarrow> nat \<Rightarrow> hid \<Rightarrow> nat \<times> hid" where
  "usb_write_offset e len off st =
     (let l = min len (4096 + 64);
          (w, st) = driver_write_hid e (take (min l 64) (drop off (hid_tx st))) st
      in (w, st\<lparr>w_len := l - w, tx_r_offset := off + w\<rparr>))"

definition usb_write_flush :: "hid_env \<Rightarrow> hid \<Rightarrow> nat \<times> hid" where
  "usb_write_flush e st =
     (if w_len st > 0 then
        (let (w, st) = driver_write_hid e (take (min (w_len st) 64) (drop (tx_r_offset st) (hid_tx st))) st
         in (w, st\<lparr>tx_r_offset := tx_r_offset st + w, w_len := w_len st - w\<rparr>))
      else (0, st))"

definition hid_write_offset :: "hid_env \<Rightarrow> nat \<Rightarrow> nat \<Rightarrow> hid \<Rightarrow> nat \<times> hid" where
  "hid_write_offset e sz off st = usb_write_offset e sz off st"

definition hid_write :: "hid_env \<Rightarrow> nat \<Rightarrow> hid \<Rightarrow> hid" where
  "hid_write e sz st = snd (hid_write_offset e sz 0 st)"

text \<open>A 64-byte frame at the start of the transmit buffer, written and sent.\<close>

definition send_frame :: "hid_env \<Rightarrow> bytes \<Rightarrow> hid \<Rightarrow> hid option" where
  "send_frame e f st = do {
     st \<leftarrow> put_tx 0 (take 64 (f @ replicate 64 0)) (st\<lparr>ctap_resp := 0\<rparr>);
     Some (hid_write e 64 st)
   }"

definition ctap_error :: "hid_env \<Rightarrow> u8 \<Rightarrow> hid \<Rightarrow> (int \<times> hid) option" where
  "ctap_error e err st = do {
     st \<leftarrow> send_frame e (frame_cid (req st) @ [CTAPHID_ERROR, 0, 1, err]) st;
     Some (0, (usb_clear_rx st)\<lparr>last_packet_time := 0\<rparr>)
   }"

definition send_keepalive :: "hid_env \<Rightarrow> hid \<Rightarrow> hid option" where
  "send_keepalive e st = do {
     st \<leftarrow> put_tx 4096 (frame_cid (req st) @ [CTAPHID_KEEPALIVE]) st;
     st \<leftarrow> put_tx (4096 + 6) [1, if button_pending e then 2 else 1] st;
     Some (snd (hid_write_offset e 64 4096 (st\<lparr>send_buffer_size := 0\<rparr>)))
   }"

section \<open>Responses\<close>

definition driver_prepare_response_hid :: "hid \<Rightarrow> hid option" where
  "driver_prepare_response_hid st = put_tx 0 (replicate 4096 0) (st\<lparr>ctap_resp := 0, send_buffer_size := 0\<rparr>)"

definition driver_exec_finished_cont_hid :: "hid_env \<Rightarrow> nat \<Rightarrow> nat \<Rightarrow> hid \<Rightarrow> hid option" where
  "driver_exec_finished_cont_hid e size_next offset st = do {
     let off = offset - 7;
     st \<leftarrow> put_tx off (frame_cid (req st) @ [last_cmd st, of_nat (size_next div 256), of_nat (size_next mod 256)]) st;
     let (w, st) = hid_write_offset e 64 off (st\<lparr>ctap_resp := off, send_buffer_size := size_next mod 65536\<rparr>);
     Some (if w > 0
           then st\<lparr>ctap_resp := off + 64 - 5,
                   send_buffer_size := send_buffer_size st - min (64 - 7) (send_buffer_size st)\<rparr>
           else st)
   }"

definition driver_exec_finished_hid :: "hid_env \<Rightarrow> nat \<Rightarrow> hid \<Rightarrow> hid option" where
  "driver_exec_finished_hid e size_next st = do {
     st \<leftarrow> (if size_next > 0 then
              (if thread_type st = 2 \<and> resp_sw st \<noteq> 0 then map_option snd (ctap_error e (ucast (resp_sw st)) st)
               else do {
                 st \<leftarrow> (if is_nitrokey st then do {
                          body \<leftarrow> rd_slice (hid_tx st) 7 (size_next - 2);
                          put_tx 7 ([ucast (drop_bit 8 (resp_sw st)), ucast (resp_sw st)] @ body) st
                        } else Some st);
                 driver_exec_finished_cont_hid e size_next 7 st
               })
            else Some st);
     Some (st\<lparr>resp_sw := 0\<rparr>)
   }"

text \<open>The USB stack has sent a report: the next continuation frame is built in place, over sent bytes.\<close>

definition tud_hid_report_complete_cb :: "hid_env \<Rightarrow> bytes \<Rightarrow> hid \<Rightarrow> hid option" where
  "tud_hid_report_complete_cb e report st =
     (if send_buffer_size st > 0 then do {
        t \<leftarrow> rd report 4;
        let s = (if t AND TYPE_MASK \<noteq> 0 then 0 else t + 1);
        st \<leftarrow> (if last_write_result st then put_tx (ctap_resp st) (frame_cid (req st) @ [s]) st else Some st);
        let (w, st) = hid_write_offset e 64 (ctap_resp st) st;
        Some (if w > 0
              then st\<lparr>send_buffer_size := send_buffer_size st - min (64 - 5) (send_buffer_size st),
                      ctap_resp := ctap_resp st + 64 - 5\<rparr>
              else st)
      } else Some st)"

definition driver_exec_timeout_hid :: "hid_env \<Rightarrow> hid \<Rightarrow> hid option" where
  "driver_exec_timeout_hid e st = (if thread_type st = 2 then send_keepalive e st else Some st)"

section \<open>Requests\<close>

definition driver_init_hid :: "hid \<Rightarrow> hid" where
  "driver_init_hid st = st\<lparr>ctap_resp := 0, is_nitrokey := False\<rparr>"

definition driver_process_usb_nopacket_hid :: "hid_env \<Rightarrow> hid \<Rightarrow> hid option" where
  "driver_process_usb_nopacket_hid e st =
     (if last_packet_time st > 0 \<and> last_packet_time st + 500 < now e then do {
        (_, st) \<leftarrow> ctap_error e CTAP1_ERR_MSG_TIMEOUT st;
        Some (st\<lparr>last_packet_time := 0, msg_len := 0, msg_cur := 0\<rparr>)
      } else Some st)"

text \<open>The message is over: the packet buffer is emptied.\<close>

definition end_message :: "hid \<Rightarrow> hid" where
  "end_message st = st\<lparr>msg_len := 0, msg_cur := 0, last_packet_time := 0\<rparr>"

text \<open>
  The first part of \<^verbatim>\<open>driver_process_usb_packet_hid\<close>: channel checks and reassembly.  The outcome is an
  error code for \<^verbatim>\<open>ctap_error\<close>, the silent end for a continuation frame without a message, or the state
  with which the dispatch goes on.
\<close>

datatype intake = Reject u8 | Ignore | Go hid

definition intake_init :: "hid_env \<Rightarrow> hid \<Rightarrow> intake option" where
  "intake_init e st =
     (let f = req st in
      if MSG_LEN f > CTAP_MAX_PACKET_SIZE then Some (Reject CTAP1_ERR_INVALID_LEN)
      else if msg_len st > 0 \<and> last_cmd_time st + 100 > now e \<and> frame_type f \<noteq> CTAPHID_INIT then
        Some (Reject (if last_cid st \<noteq> frame_cid f then CTAP1_ERR_CHANNEL_BUSY else CTAP1_ERR_INVALID_SEQ))
      else do {
        st \<leftarrow> (if MSG_LEN f > 64 - 7
               then map_option (\<lambda>d. st\<lparr>msg_len := MSG_LEN f, msg_data := d, msg_cur := 64 - 7\<rparr>)
                      (wr_slice (msg_data st) 0 (init_data f))
               else Some (st\<lparr>msg_len := 0, msg_cur := 0\<rparr>));
        Some (Go (st\<lparr>last_cid := frame_cid f, last_cmd := frame_type f, last_seq := 0, last_cmd_time := now e\<rparr>))
      })"

definition intake_cont :: "hid_env \<Rightarrow> hid \<Rightarrow> intake option" where
  "intake_cont e st =
     (let f = req st; n = min (64 - 5) (msg_len st - msg_cur st) in
      if msg_len st = 0 then Some Ignore
      else if last_seq st \<noteq> frame_type f then Some (Reject CTAP1_ERR_INVALID_SEQ)
      else if last_cid st = frame_cid f then
        map_option (\<lambda>d. Go (st\<lparr>msg_data := d, msg_cur := msg_cur st + n, last_cid := frame_cid f,
                                last_seq := last_seq st + 1\<rparr>))
          (wr_slice (msg_data st) (msg_cur st) (take n (cont_data f)))
      else if last_cmd_time st + 100 > now e then Some (Reject CTAP1_ERR_CHANNEL_BUSY)
      else Some (Go st))"

definition intake_frame :: "hid_env \<Rightarrow> hid \<Rightarrow> intake option" where
  "intake_frame e st =
     (let f = req st in
      if frame_cid f = [0, 0, 0, 0] \<or> (frame_cid f = [0xff, 0xff, 0xff, 0xff] \<and> frame_type f \<noteq> CTAPHID_INIT)
      then Some (Reject CTAP1_ERR_INVALID_CHANNEL)
      else if now e < lock st \<and> frame_cid f \<noteq> last_cid st \<and> last_cmd_time st + 100 > now e
      then Some (Reject CTAP1_ERR_CHANNEL_BUSY)
      else if frame_type f AND TYPE_MASK \<noteq> 0 then intake_init e st
      else intake_cont e st)"

text \<open>The whole message is there: it was short, or the last continuation frame has been added.\<close>

definition complete :: "hid \<Rightarrow> bool" where
  "complete st \<longleftrightarrow> msg_len st = 0 \<or> (msg_len st = msg_cur st \<and> msg_len st > 0)"

definition message :: "hid \<Rightarrow> bytes" where
  "message st = (if msg_cur st = msg_len st \<and> msg_len st > 0 then take (msg_len st) (msg_data st)
                 else take (MSG_LEN (req st)) (init_data (req st)))"

definition cmd_init :: "hid_env \<Rightarrow> hid \<Rightarrow> (int \<times> hid) option" where
  "cmd_init e st = do {
     let st = init_fido_cb e st;
     let nonce = take 8 (init_data (req st));
     st \<leftarrow> send_frame e (frame_cid (req st) @ [CTAPHID_INIT, 0, 17] @ nonce @ [0, 0, 0, 1] @
       [2, fst (version e), snd (version e), 0, 0x05]) st;
     Some (0, end_message st)
   }"

definition cmd_wink :: "hid_env \<Rightarrow> hid \<Rightarrow> (int \<times> hid) option" where
  "cmd_wink e st =
     (if MSG_LEN (req st) \<noteq> 0 then ctap_error e CTAP1_ERR_INVALID_LEN st
      else do { st \<leftarrow> send_frame e (req st) st; Some (0, end_message st) })"

definition cmd_ping :: "hid_env \<Rightarrow> hid \<Rightarrow> (int \<times> hid) option" where
  "cmd_ping e st =
     (let f = req st in
      if msg_cur st = msg_len st \<and> msg_len st > 0 then do {
        st \<leftarrow> put_tx 7 (take (msg_len st) (msg_data st)) (st\<lparr>ctap_resp := 0\<rparr>);
        st \<leftarrow> driver_exec_finished_hid e (msg_len st) st;
        Some (0, end_message st)
      } else do {
        st \<leftarrow> put_tx 7 (take (MSG_LEN f) (init_data f)) (st\<lparr>ctap_resp := 0\<rparr>);
        st \<leftarrow> put_tx 0 (frame_cid f @ [last_cmd st, of_nat (MSG_LEN f div 256), of_nat (MSG_LEN f mod 256)]) st;
        Some (0, end_message (hid_write e 64 st))
      })"

definition cmd_lock :: "hid_env \<Rightarrow> hid \<Rightarrow> (int \<times> hid) option" where
  "cmd_lock e st =
     (let f = req st; t = init_data f ! 0 in
      if MSG_LEN f \<noteq> 1 then ctap_error e CTAP1_ERR_INVALID_LEN st
      else if t > 10 then ctap_error e CTAP1_ERR_INVALID_PARAMETER st
      else do {
        st \<leftarrow> send_frame e (frame_cid f @ [frame_type f]) (st\<lparr>lock := now e + unat t * 1000\<rparr>);
        Some (0, end_message st)
      })"

definition cmd_uuid :: "hid_env \<Rightarrow> hid \<Rightarrow> (int \<times> hid) option" where
  "cmd_uuid e st = do {
     st \<leftarrow> send_frame e (frame_cid (req st) @ [frame_type (req st), 0, 16] @ board_id e) st;
     Some (0, end_message st)
   }"

definition cmd_version :: "hid_env \<Rightarrow> hid \<Rightarrow> (int \<times> hid) option" where
  "cmd_version e st = do {
     st \<leftarrow> send_frame e (frame_cid (req st) @ [frame_type (req st), 0, 4, fst (sdk_version e), snd (sdk_version e)]) st;
     Some (0, end_message st)
   }"

definition cmd_admin :: "hid_env \<Rightarrow> hid \<Rightarrow> (int \<times> hid) option" where
  "cmd_admin e st = do {
     st \<leftarrow> send_frame e (frame_cid (req st) @ [frame_type (req st), 0] @
       (if init_data (req st) ! 0 = 0x80 then [5, 0x00, 0xff, 0xff, 0xff, 0x00] else [0])) st;
     Some (0, end_message st)
   }"

definition cmd_msg :: "hid_env \<Rightarrow> hid \<Rightarrow> (int \<times> hid) option" where
  "cmd_msg e st =
     (let st = (if last_cmd st = CTAPHID_OTP then st\<lparr>is_nitrokey := True\<rparr> else select_fido e st);
          (r, st) = run_apdu e (message st) (st\<lparr>card_starts := card_starts st @ [1], thread_type := 1\<rparr>)
      in Some (r, end_message st))"

definition cmd_cbor :: "hid_env \<Rightarrow> hid \<Rightarrow> (int \<times> hid) option" where
  "cmd_cbor e st =
     (let st = st\<lparr>card_starts := card_starts st @ [2], thread_type := 2\<rparr>;
          (r, st) = (case cbor_process_cb e of None \<Rightarrow> (0, st) | Some cb \<Rightarrow> cb (last_cmd st) (message st) st);
          st = end_message st
      in if r < 0 then ctap_error e (of_int (- r)) st
         else map_option (Pair r) (send_keepalive e st))"

definition cmd_cancel :: "hid_env \<Rightarrow> hid \<Rightarrow> (int \<times> hid) option" where
  "cmd_cancel e st = do {
     (_, st) \<leftarrow> ctap_error e 0x2D st;
     Some (0, (end_message st)\<lparr>cancel_button := True\<rparr>)
   }"

text \<open>Every path of the dispatch ends with \<^verbatim>\<open>usb_clear_rx\<close>, the ones that end in \<^verbatim>\<open>ctap_error\<close> do it there.\<close>

definition done_rx :: "(int \<times> hid) option \<Rightarrow> (int \<times> hid) option" where
  "done_rx r = map_option (\<lambda>(n, st). (n, usb_clear_rx st)) r"

definition dispatch :: "hid_env \<Rightarrow> hid \<Rightarrow> (int \<times> hid) option" where
  "dispatch e st =
     (let c = frame_type (req st); l = last_cmd st in
      if c = CTAPHID_INIT then done_rx (cmd_init e st)
      else if c = CTAPHID_WINK then done_rx (cmd_wink e st)
      else if (l = CTAPHID_PING \<or> l = CTAPHID_SYNC) \<and> complete st then done_rx (cmd_ping e st)
      else if c = CTAPHID_LOCK then done_rx (cmd_lock e st)
      else if c = CTAPHID_UUID then done_rx (cmd_uuid e st)
      else if c = CTAPHID_VERSION then done_rx (cmd_version e st)
      else if c = CTAPHID_ADMIN then done_rx (cmd_admin e st)
      else if (l = CTAPHID_MSG \<or> l = CTAPHID_OTP) \<and> complete st then done_rx (cmd_msg e st)
      else if (l = CTAPHID_CBOR \<or> (l \<ge> CTAPHID_VENDOR_FIRST \<and> l \<le> CTAPHID_VENDOR_LAST)) \<and> complete st then done_rx (cmd_cbor e st)
      else if c = CTAPHID_CANCEL then done_rx (cmd_cancel e st)
      else if msg_len st = 0 then ctap_error e CTAP1_ERR_INVALID_CMD st
      else done_rx (Some (0, st)))"

definition driver_process_usb_packet_hid :: "hid_env \<Rightarrow> nat \<Rightarrow> hid \<Rightarrow> (int \<times> hid) option" where
  "driver_process_usb_packet_hid e n st =
     (if n \<ge> 5 then do {
        st \<leftarrow> put_tx 0 (replicate 64 0) ((driver_init_hid st)\<lparr>last_packet_time := now e\<rparr>);
        i \<leftarrow> intake_frame e st;
        case i of
          Reject err \<Rightarrow> ctap_error e err st
        | Ignore \<Rightarrow> Some (0, st)
        | Go st \<Rightarrow> dispatch e st
      } else Some (0, st))"

text \<open>
  One round of the interface: a packet, or the time-out check.  A positive result starts the core that
  executes the command.
\<close>

definition usb_event_handle :: "hid_env \<Rightarrow> hid \<Rightarrow> (int \<times> hid) option" where
  "usb_event_handle e st = do {
     (r, st) \<leftarrow> driver_process_usb_packet_hid e (usb_read_available st) st;
     st \<leftarrow> (if r > 0 then Some st else driver_process_usb_nopacket_hid e st);
     Some (r, st)
   }"

section \<open>A stray continuation frame blocks the interface\<close>

definition wf_hid :: "hid \<Rightarrow> bool" where
  "wf_hid st \<longleftrightarrow> length (rx_buf st) = 4096 \<and> w_offset st \<le> 4096 \<and> length (hid_tx st) = 4160 \<and>
     length (msg_data st) = CTAP_MAX_PACKET_SIZE"

definition idle :: "hid \<Rightarrow> bool" where
  "idle st \<longleftrightarrow> wf_hid st \<and> w_offset st = 0 \<and> msg_len st = 0 \<and> msg_cur st = 0 \<and> lock st = 0"

definition good_cid :: "bytes \<Rightarrow> bool" where
  "good_cid c \<longleftrightarrow> length c = 4 \<and> c \<noteq> [0, 0, 0, 0] \<and> c \<noteq> [0xff, 0xff, 0xff, 0xff]"

definition cont_frame :: "bytes \<Rightarrow> bool" where
  "cont_frame f \<longleftrightarrow> length f = 64 \<and> good_cid (frame_cid f) \<and> frame_type f AND TYPE_MASK = 0"

definition stuck :: "hid \<Rightarrow> bool" where
  "stuck st \<longleftrightarrow> wf_hid st \<and> msg_len st = 0 \<and> lock st = 0 \<and> 64 \<le> w_offset st \<and> cont_frame (req st)"

datatype hid_event = Report bytes | Poll hid_env

fun hid_step :: "hid_event \<Rightarrow> hid \<Rightarrow> hid option" where
  "hid_step (Report f) st = Some (snd (usb_rx f st))"
| "hid_step (Poll e) st = map_option snd (usb_event_handle e st)"

fun hid_run :: "hid_event list \<Rightarrow> hid \<Rightarrow> hid option" where
  "hid_run [] st = Some st"
| "hid_run (ev # evs) st = do { st \<leftarrow> hid_step ev st; hid_run evs st }"

lemma put_tx_Some:
  "off + length bs \<le> length (hid_tx st) \<Longrightarrow>
    \<exists>t. put_tx off bs st = Some (st\<lparr>hid_tx := t\<rparr>) \<and> length t = length (hid_tx st)"
  by (auto simp: put_tx_def wr_slice_def)

lemma req_simps [simp]:
  "req (st\<lparr>hid_tx := t\<rparr>) = req st" "req (st\<lparr>last_packet_time := n\<rparr>) = req st" "req (driver_init_hid st) = req st"
  by (simp_all add: req_def driver_init_hid_def)

lemma usb_rx_keeps_req:
  "wf_hid st \<Longrightarrow> 64 \<le> w_offset st \<Longrightarrow> req (snd (usb_rx f st)) = req st"
  by (simp add: usb_rx_def req_def Let_def wf_hid_def)

lemma usb_rx_stuck: "stuck st \<Longrightarrow> stuck (snd (usb_rx f st)) \<and> reports (snd (usb_rx f st)) = reports st"
  using usb_rx_keeps_req [of st f] by (auto simp: stuck_def wf_hid_def usb_rx_def Let_def)

lemma intake_ignores:
  assumes "msg_len st = 0" "lock st = 0" "cont_frame (req st)"
  shows "intake_frame e st = Some Ignore"
  using assms by (simp add: intake_frame_def intake_cont_def Let_def cont_frame_def good_cid_def)

lemma stuck_poll:
  assumes st: "stuck st"
  shows "\<exists>st'. usb_event_handle e st = Some (0, st') \<and> stuck st' \<and> reports st' = reports st"
proof -
  let ?s0 = "(driver_init_hid st)\<lparr>last_packet_time := now e\<rparr>"
  have l: "0 + length (replicate 64 (0::u8)) \<le> length (hid_tx ?s0)" using st by (simp add: stuck_def wf_hid_def driver_init_hid_def)
  obtain t where t: "put_tx 0 (replicate 64 0) ?s0 = Some (?s0\<lparr>hid_tx := t\<rparr>)" "length t = length (hid_tx ?s0)"
    using put_tx_Some [OF l] by blast
  have "intake_frame e (?s0\<lparr>hid_tx := t\<rparr>) = Some Ignore"
    using st by (intro intake_ignores) (simp_all add: stuck_def driver_init_hid_def req_def)
  then have "driver_process_usb_packet_hid e (usb_read_available st) st = Some (0, ?s0\<lparr>hid_tx := t\<rparr>)"
    using st t by (simp add: driver_process_usb_packet_hid_def usb_read_available_def stuck_def)
  moreover have "driver_process_usb_nopacket_hid e (?s0\<lparr>hid_tx := t\<rparr>) = Some (?s0\<lparr>hid_tx := t\<rparr>)"
    by (simp add: driver_process_usb_nopacket_hid_def)
  moreover have "stuck (?s0\<lparr>hid_tx := t\<rparr>)"
    using st t(2) by (simp add: stuck_def wf_hid_def driver_init_hid_def req_def)
  ultimately show ?thesis by (simp add: usb_event_handle_def driver_init_hid_def)
qed

lemma stuck_run: "stuck st \<Longrightarrow> \<exists>st'. hid_run evs st = Some st' \<and> stuck st' \<and> reports st' = reports st"
proof (induction evs arbitrary: st)
  case Nil
  then show ?case by simp
next
  case (Cons ev evs)
  obtain st1 where "hid_step ev st = Some st1" "stuck st1" "reports st1 = reports st"
  proof (cases ev)
    case (Report f)
    then show ?thesis using that usb_rx_stuck [OF Cons.prems] by simp
  next
    case (Poll e)
    then show ?thesis using that stuck_poll [OF Cons.prems, of e] by auto
  qed
  with Cons.IH [of st1] show ?case by simp
qed

text \<open>
  a continuation frame that arrives when no message is open blocks the interface for ever.  The
  handler ignores the frame without clearing the receive buffer, so it stays the first frame there: from
  then on, whatever reports arrive and however often the interface is served, no command is executed and
  no answer is sent.
\<close>

theorem stray_continuation_blocks:
  assumes "idle st" and "cont_frame f"
  shows "\<exists>st'. hid_run (Report f # evs) st = Some st' \<and> stuck st' \<and> reports st' = reports st"
proof -
  have "stuck (snd (usb_rx f st)) \<and> reports (snd (usb_rx f st)) = reports st"
    using assms by (auto simp: idle_def stuck_def wf_hid_def usb_rx_def Let_def cont_frame_def req_def)
  then show ?thesis using stuck_run [of "snd (usb_rx f st)" evs] by simp
qed

section \<open>Reassembly of a message\<close>

definition pad_to :: "nat \<Rightarrow> bytes \<Rightarrow> bytes" where
  "pad_to n bs = take n (bs @ replicate n 0)"

lemma length_pad_to [simp]: "length (pad_to n bs) = n"
  by (simp add: pad_to_def)

lemma take_pad_to: "k \<le> n \<Longrightarrow> k \<le> length bs \<Longrightarrow> take k (pad_to n bs) = take k bs"
  by (simp add: pad_to_def min_def)

lemma pad_to_long: "n \<le> length bs \<Longrightarrow> pad_to n bs = take n bs"
  by (simp add: pad_to_def)

text \<open>The frames of a message: the initial one with 57 bytes, continuation frames with 59.\<close>

definition init_frame :: "bytes \<Rightarrow> u8 \<Rightarrow> bytes \<Rightarrow> bytes" where
  "init_frame c cmd d = c @ [cmd, of_nat (length d div 256), of_nat (length d mod 256)] @ pad_to 57 d"

function cont_frames :: "bytes \<Rightarrow> nat \<Rightarrow> bytes \<Rightarrow> bytes list" where
  "cont_frames c k d = (if d = [] then [] else (c @ [of_nat k] @ pad_to 59 d) # cont_frames c (k + 1) (drop 59 d))"
  by pat_completeness auto
termination by (relation "measure (\<lambda>(c, k, d). length d)") auto

declare cont_frames.simps [simp del]

definition fragments :: "bytes \<Rightarrow> u8 \<Rightarrow> bytes \<Rightarrow> bytes list" where
  "fragments c cmd d = init_frame c cmd d # cont_frames c 0 (drop 57 d)"

text \<open>The host sends the frames of a message, each is processed when it arrives.\<close>

definition feed_frame :: "hid_env \<Rightarrow> bytes \<Rightarrow> hid \<Rightarrow> (int \<times> hid) option" where
  "feed_frame e f st = (let st = snd (usb_rx f st) in driver_process_usb_packet_hid e (usb_read_available st) st)"

fun feed :: "hid_env \<Rightarrow> bytes list \<Rightarrow> int \<times> hid \<Rightarrow> (int \<times> hid) option" where
  "feed e [] r = Some r"
| "feed e (f # fs) (n, st) = do { r \<leftarrow> feed_frame e f st; feed e fs r }"

lemma feed_Nil: "feed e [] = Some"
  by (rule ext) simp

text \<open>The state with which the intake of a frame starts.\<close>

definition ready_frame :: "hid_env \<Rightarrow> bytes \<Rightarrow> hid \<Rightarrow> hid \<Rightarrow> bool" where
  "ready_frame e f st s1 \<longleftrightarrow> wf_hid s1 \<and> req s1 = f \<and> w_offset s1 = 64 \<and>
     msg_len s1 = msg_len st \<and> msg_cur s1 = msg_cur st \<and> msg_data s1 = msg_data st \<and> last_cmd s1 = last_cmd st \<and>
     last_seq s1 = last_seq st \<and> last_cid s1 = last_cid st \<and> lock s1 = lock st \<and> last_cmd_time s1 = last_cmd_time st \<and>
     reports s1 = reports st \<and> thread_type s1 = thread_type st \<and> resp_sw s1 = resp_sw st \<and> \<not> is_nitrokey s1 \<and> ctap_resp s1 = 0"

lemma feed_frame_intake:
  assumes wf: "wf_hid st" "w_offset st = 0" and f: "length f = 64"
  obtains s1 where "ready_frame e f st s1" and
    "feed_frame e f st = do { i \<leftarrow> intake_frame e s1;
        case i of Reject err \<Rightarrow> ctap_error e err s1 | Ignore \<Rightarrow> Some (0, s1) | Go st \<Rightarrow> dispatch e st }"
proof -
  let ?u = "snd (usb_rx f st)"
  let ?s0 = "(driver_init_hid ?u)\<lparr>last_packet_time := now e\<rparr>"
  have u: "?u = st\<lparr>rx_buf := f @ drop 64 (rx_buf st), w_offset := 64\<rparr>"
    using wf f by (simp add: usb_rx_def Let_def)
  have len: "length (f @ drop 64 (rx_buf st)) = 4096" using wf f by (simp add: wf_hid_def)
  have l: "0 + length (replicate 64 (0::u8)) \<le> length (hid_tx ?s0)"
    using wf u by (simp add: wf_hid_def driver_init_hid_def)
  obtain t where t: "put_tx 0 (replicate 64 0) ?s0 = Some (?s0\<lparr>hid_tx := t\<rparr>)" "length t = length (hid_tx ?s0)"
    using put_tx_Some [OF l] by blast
  have "ready_frame e f st (?s0\<lparr>hid_tx := t\<rparr>)"
    using u t(2) len wf f by (simp add: ready_frame_def wf_hid_def driver_init_hid_def req_def)
  moreover have "usb_read_available ?u = 64" by (simp add: usb_read_available_def u)
  ultimately show ?thesis
    using that [of "?s0\<lparr>hid_tx := t\<rparr>"] t(1) by (simp add: feed_frame_def driver_process_usb_packet_hid_def Let_def)
qed

lemma init_frame_parts:
  assumes "length c = 4" "length d < 65536"
  shows "length (init_frame c cmd d) = 64" "frame_cid (init_frame c cmd d) = c" "frame_type (init_frame c cmd d) = cmd"
    "MSG_LEN (init_frame c cmd d) = length d" "init_data (init_frame c cmd d) = pad_to 57 d"
proof -
  have "init_frame c cmd d ! 5 = of_nat (length d div 256)" "init_frame c cmd d ! 6 = of_nat (length d mod 256)"
    using assms(1) by (simp_all add: init_frame_def nth_append)
  moreover have "length d div 256 mod 256 = length d div 256" using assms(2) by simp
  ultimately show "MSG_LEN (init_frame c cmd d) = length d"
    by (simp add: MSG_LEN_def unat_of_nat)
qed (use assms(1) in \<open>simp_all add: init_frame_def frame_cid_def frame_type_def init_data_def nth_append\<close>)

text \<open>The state in the middle of a message \<open>d\<close> on channel \<open>c\<close>: the first \<open>n\<close> bytes are there.\<close>

definition collecting :: "bytes \<Rightarrow> u8 \<Rightarrow> bytes \<Rightarrow> nat \<Rightarrow> nat \<Rightarrow> bytes list \<Rightarrow> hid \<Rightarrow> bool" where
  "collecting c cmd d k n rs st \<longleftrightarrow> wf_hid st \<and> msg_len st = length d \<and> msg_cur st = n \<and> n \<le> length d \<and>
     take n (msg_data st) = take n d \<and> last_cmd st = cmd \<and> last_seq st = of_nat k \<and> last_cid st = c \<and> lock st = 0 \<and>
     reports st = rs \<and> \<not> is_nitrokey st \<and> ctap_resp st = 0"

lemma intake_init_go:
  assumes r: "ready_frame e (init_frame c cmd d) st s1" and c: "good_cid c" and d: "57 < length d" "length d \<le> CTAP_MAX_PACKET_SIZE"
    and m: "msg_len st = 0" and l: "lock st = 0" and t: "cmd AND TYPE_MASK \<noteq> 0"
  obtains st' where "intake_frame e s1 = Some (Go st')" "collecting c cmd d 0 57 (reports st) st'" "req st' = init_frame c cmd d"
    "w_offset st' = 64"
proof -
  have lc: "length c = 4" using c by (simp add: good_cid_def)
  have len: "length d < 65536" using d by (simp add: CTAP_MAX_PACKET_SIZE_def)
  note f = init_frame_parts [OF lc len, of cmd]
  have md: "length (msg_data s1) = CTAP_MAX_PACKET_SIZE"
    using r unfolding ready_frame_def wf_hid_def by blast
  have wr: "wr_slice (msg_data s1) 0 (pad_to 57 d) = Some (pad_to 57 d @ drop 57 (msg_data s1))"
    using md by (simp add: wr_slice_def CTAP_MAX_PACKET_SIZE_def)
  have "intake_frame e s1 = intake_init e s1"
    using r c f t l by (simp add: intake_frame_def ready_frame_def good_cid_def)
  also have "\<dots> = Some (Go (s1\<lparr>msg_len := length d, msg_data := pad_to 57 d @ drop 57 (msg_data s1), msg_cur := 57,
      last_cid := c, last_cmd := cmd, last_seq := 0, last_cmd_time := now e\<rparr>))"
    using r f d m wr by (simp add: intake_init_def ready_frame_def)
  finally show ?thesis
    by (rule that)
      (use r d md l in \<open>auto simp: collecting_def ready_frame_def wf_hid_def CTAP_MAX_PACKET_SIZE_def pad_to_long req_def\<close>)
qed

lemma cont_frame_parts:
  assumes "length c = 4"
  shows "length (c @ [s] @ pad_to 59 d) = 64" "frame_cid (c @ [s] @ pad_to 59 d) = c"
    "frame_type (c @ [s] @ pad_to 59 d) = s" "cont_data (c @ [s] @ pad_to 59 d) = pad_to 59 d"
  using assms by (simp_all add: frame_cid_def frame_type_def cont_data_def nth_append)

lemma seq_not_init: "k < 128 \<Longrightarrow> (of_nat k :: u8) AND TYPE_MASK = 0 \<and> (of_nat k :: u8) < 0x80"
proof -
  assume k: "k < 128"
  have u: "unat (of_nat k :: u8) = k" using k by (simp add: unat_of_nat)
  then have lt: "(of_nat k :: u8) < 0x80" using k by (simp add: word_less_nat_alt)
  have "\<not> bit k 7" using k by (simp add: bit_iff_odd)
  then have "\<not> bit (of_nat k :: u8) 7" by (simp add: bit_of_nat_iff)
  then have "(of_nat k :: u8) AND 2 ^ 7 = 0" by (simp only: and_exp_eq_0_iff_not_bit not_False_eq_True)
  then have "(of_nat k :: u8) AND TYPE_MASK = 0" by (simp add: TYPE_MASK_def)
  with lt show ?thesis by simp
qed

text \<open>The commands whose message may be longer than one frame.\<close>

definition message_cmd :: "u8 \<Rightarrow> bool" where
  "message_cmd c \<longleftrightarrow> c \<in> {CTAPHID_PING, CTAPHID_SYNC, CTAPHID_MSG, CTAPHID_OTP, CTAPHID_CBOR}"

lemma message_cmd_type: "message_cmd c \<Longrightarrow> c AND TYPE_MASK \<noteq> 0"
  by (auto simp: message_cmd_def cmd_defs TYPE_MASK_def)

lemma small_not_cmd: "c < 0x80 \<Longrightarrow> c \<notin> {CTAPHID_INIT, CTAPHID_WINK, CTAPHID_LOCK, CTAPHID_UUID, CTAPHID_VERSION, CTAPHID_ADMIN, CTAPHID_CANCEL}"
  by (auto simp: cmd_defs)

lemma message_not_cmd: "message_cmd c \<Longrightarrow> c \<notin> {CTAPHID_INIT, CTAPHID_WINK, CTAPHID_LOCK, CTAPHID_UUID, CTAPHID_VERSION, CTAPHID_ADMIN, CTAPHID_CANCEL}"
  by (auto simp: message_cmd_def cmd_defs)

lemma dispatch_wait:
  assumes "collecting c cmd d k n rs st" "n < length d"
    and "frame_type (req st) \<notin> {CTAPHID_INIT, CTAPHID_WINK, CTAPHID_LOCK, CTAPHID_UUID, CTAPHID_VERSION, CTAPHID_ADMIN, CTAPHID_CANCEL}"
  shows "dispatch e st = Some (0, usb_clear_rx st)"
proof -
  have "\<not> complete st" "msg_len st \<noteq> 0" using assms(1,2) by (auto simp: complete_def collecting_def)
  with assms(3) show ?thesis by (simp add: dispatch_def Let_def done_rx_def)
qed

lemma collecting_clear: "collecting c cmd d k n rs st \<Longrightarrow> collecting c cmd d k n rs (usb_clear_rx st) \<and> w_offset (usb_clear_rx st) = 0"
  by (simp add: collecting_def wf_hid_def usb_clear_rx_def)

lemma take_extend: "n \<le> length d \<Longrightarrow> take n x = take n d \<Longrightarrow> n \<le> length x \<Longrightarrow> j \<le> length (drop n d) \<Longrightarrow>
    take (n + j) (take n x @ take j (drop n d) @ rest) = take (n + j) d"
  by (simp add: take_add min_def)

lemma intake_cont_go:
  assumes r: "ready_frame e f st s1" and f: "f = c @ [of_nat k] @ pad_to 59 (drop n d)" and c: "good_cid c" and k: "k < 128"
    and st: "collecting c cmd d k n (rs) st" and n: "n < length d" and d: "length d \<le> CTAP_MAX_PACKET_SIZE"
  obtains st' where "intake_frame e s1 = Some (Go st')" "collecting c cmd d (k + 1) (min (n + 59) (length d)) rs st'"
    "frame_type (req st') = of_nat k" "w_offset st' = 64" "req st' = f"
proof -
  have lc: "length c = 4" using c by (simp add: good_cid_def)
  let ?f = "c @ [of_nat k] @ pad_to 59 (drop n d)"
  note p = cont_frame_parts [OF lc, of "of_nat k" "drop n d"] and sq = seq_not_init [OF k]
  have s1: "wf_hid s1" "req s1 = ?f" "w_offset s1 = 64" "msg_len s1 = length d" "msg_cur s1 = n" "msg_data s1 = msg_data st"
    "last_seq s1 = of_nat k" "last_cid s1 = c" "lock s1 = 0" "last_cmd s1 = cmd" "reports s1 = rs" "\<not> is_nitrokey s1" "ctap_resp s1 = 0"
    using r st f by (auto simp: ready_frame_def collecting_def)
  have md: "length (msg_data st) = CTAP_MAX_PACKET_SIZE" "take n (msg_data st) = take n d"
    using st by (auto simp: collecting_def wf_hid_def)
  define j where "j = min 59 (length d - n)"
  have j: "j \<le> 59" "j \<le> length d - n" "n + j \<le> length d" using n by (simp_all add: j_def)
  have tk: "take j (pad_to 59 (drop n d)) = take j (drop n d)" using j by (intro take_pad_to) auto
  define D where "D = take n (msg_data st) @ take j (drop n d) @ drop (n + j) (msg_data st)"
  have nm: "n \<le> length (msg_data st)" "n + j \<le> length (msg_data st)" using md(1) n d j by linarith+
  then have D1: "length D = CTAP_MAX_PACKET_SIZE" using j md(1) by (simp add: D_def)
  have D2: "take (n + j) D = take (n + j) d"
    unfolding D_def by (rule take_extend) (use md(2) n nm j in auto)
  have wr: "wr_slice (msg_data st) n (take j (drop n d)) = Some D"
    using nm j by (simp add: wr_slice_def D_def)
  define m where "m = n + j"
  have m: "n + j = m" "m \<le> length d" "m = min (n + 59) (length d)" using n j by (simp_all add: m_def j_def)
  have D: "length D = CTAP_MAX_PACKET_SIZE" "take m D = take m d" using D1 D2 by (simp_all add: m_def)
  let ?s2 = "s1\<lparr>msg_data := D, msg_cur := m, last_cid := c, last_seq := of_nat (k + 1)\<rparr>"
  have "intake_frame e s1 = intake_cont e s1"
    using s1 p c sq by (simp add: intake_frame_def good_cid_def)
  also have "\<dots> = Some (Go (s1\<lparr>msg_data := D, msg_cur := n + j, last_cid := c, last_seq := of_nat k + 1\<rparr>))"
    using s1 p n wr tk by (auto simp: intake_cont_def Let_def simp flip: j_def)
  also have "s1\<lparr>msg_data := D, msg_cur := n + j, last_cid := c, last_seq := of_nat k + 1\<rparr> = ?s2"
    unfolding m(1) by (simp add: add.commute)
  finally have go: "intake_frame e s1 = Some (Go ?s2)" .
  have "collecting c cmd d (k + 1) m rs ?s2"
    using s1 D m(2) by (simp add: collecting_def wf_hid_def)
  then show ?thesis using that [of ?s2] go s1 p f unfolding m(3) by (simp add: req_def)
qed

lemma feed_cont:
  assumes "collecting c cmd d k n rs st" "w_offset st = 0" "n < length d" "length d - n \<le> 59 * (128 - k)"
    and c: "good_cid c" and d: "length d \<le> CTAP_MAX_PACKET_SIZE"
  shows "\<exists>k' st1. feed e (cont_frames c k (drop n d)) (0, st) = dispatch e st1 \<and> collecting c cmd d k' (length d) rs st1 \<and>
    frame_type (req st1) < 0x80 \<and> frame_cid (req st1) = c"
  using assms(1-4)
proof (induction "length d - n" arbitrary: k n st rule: less_induct)
  case less
  have k: "k < 128" using less.prems(3,4) by (cases "k < 128") auto
  have lc: "length c = 4" using c by (simp add: good_cid_def)
  let ?f = "c @ [of_nat k] @ pad_to 59 (drop n d)"
  have fr: "cont_frames c k (drop n d) = ?f # cont_frames c (k + 1) (drop (n + 59) d)"
    using less.prems(3) by (subst cont_frames.simps) (simp add: add.commute)
  have wf: "wf_hid st" using less.prems(1) by (simp add: collecting_def)
  obtain s1 where s1: "ready_frame e ?f st s1" and fd: "feed_frame e ?f st = do { i \<leftarrow> intake_frame e s1;
        case i of Reject err \<Rightarrow> ctap_error e err s1 | Ignore \<Rightarrow> Some (0, s1) | Go st \<Rightarrow> dispatch e st }"
    using feed_frame_intake [OF wf less.prems(2), of ?f e] cont_frame_parts(1) [OF lc] by blast
  obtain st' where st': "intake_frame e s1 = Some (Go st')" "collecting c cmd d (k + 1) (min (n + 59) (length d)) rs st'"
    "frame_type (req st') = of_nat k" "req st' = ?f"
    using intake_cont_go [OF s1 refl c k less.prems(1,3) d] by metis
  have run: "feed_frame e ?f st = dispatch e st'" using fd st'(1) by simp
  have sq: "(of_nat k :: u8) < 0x80" using seq_not_init [OF k] by simp
  show ?case
  proof (cases "n + 59 < length d")
    case False
    then have "cont_frames c (k + 1) (drop (n + 59) d) = []" by (subst cont_frames.simps) simp
    then have "feed e (cont_frames c k (drop n d)) (0, st) = dispatch e st'" using fr run by (simp add: feed_Nil)
    moreover have "collecting c cmd d (k + 1) (length d) rs st'" using st'(2) False by simp
    moreover have "frame_cid (req st') = c" unfolding st'(4) by (rule cont_frame_parts(2) [OF lc])
    ultimately show ?thesis using st'(3) sq by (intro exI [of _ "k + 1"] exI [of _ st']) simp
  next
    case True
    have "dispatch e st' = Some (0, usb_clear_rx st')"
      using st'(2,3) True small_not_cmd [OF sq] by (intro dispatch_wait) auto
    then have step: "feed e (cont_frames c k (drop n d)) (0, st) = feed e (cont_frames c (k + 1) (drop (n + 59) d)) (0, usb_clear_rx st')"
      using fr run by simp
    have "collecting c cmd d (k + 1) (n + 59) rs (usb_clear_rx st')" "w_offset (usb_clear_rx st') = 0"
      using collecting_clear st'(2) True by auto
    then have "\<exists>k' st1. feed e (cont_frames c (k + 1) (drop (n + 59) d)) (0, usb_clear_rx st') = dispatch e st1 \<and>
        collecting c cmd d k' (length d) rs st1 \<and> frame_type (req st1) < 0x80 \<and> frame_cid (req st1) = c"
      using True less.prems(4) k by (intro less.hyps) (auto simp: diff_mult_distrib2)
    then show ?thesis using step by simp
  qed
qed

definition handler :: "hid_env \<Rightarrow> u8 \<Rightarrow> hid \<Rightarrow> (int \<times> hid) option" where
  "handler e cmd st =
     (if cmd = CTAPHID_PING \<or> cmd = CTAPHID_SYNC then cmd_ping e st
      else if cmd = CTAPHID_MSG \<or> cmd = CTAPHID_OTP then cmd_msg e st
      else cmd_cbor e st)"

lemma dispatch_handler:
  assumes "complete st" "last_cmd st = cmd" "message_cmd cmd"
    and "frame_type (req st) \<notin> {CTAPHID_INIT, CTAPHID_WINK, CTAPHID_LOCK, CTAPHID_UUID, CTAPHID_VERSION, CTAPHID_ADMIN, CTAPHID_CANCEL}"
  shows "dispatch e st = done_rx (handler e cmd st)"
  using assms(3) unfolding message_cmd_def
  by (elim insertE emptyE) (use assms in \<open>simp_all add: dispatch_def handler_def cmd_defs Let_def\<close>)

lemma short_intake:
  assumes r: "ready_frame e (init_frame c cmd d) st s1" and c: "good_cid c" and d: "length d \<le> 57"
    and m: "msg_len st = 0" and l: "lock st = 0" and t: "cmd AND TYPE_MASK \<noteq> 0"
  obtains st' where "intake_frame e s1 = Some (Go st')" "complete st'" "message st' = d" "last_cmd st' = cmd" "last_cid st' = c"
    "req st' = init_frame c cmd d" "reports st' = reports st" "wf_hid st'"
proof -
  have lc: "length c = 4" using c by (simp add: good_cid_def)
  have len: "length d < 65536" using d by simp
  note f = init_frame_parts [OF lc len, of cmd]
  let ?s = "s1\<lparr>msg_len := 0, msg_cur := 0, last_cid := c, last_cmd := cmd, last_seq := 0, last_cmd_time := now e\<rparr>"
  have "intake_frame e s1 = intake_init e s1"
    using r c f t l by (simp add: intake_frame_def ready_frame_def good_cid_def)
  also have "\<dots> = Some (Go ?s)"
    using r f d m by (simp add: intake_init_def ready_frame_def CTAP_MAX_PACKET_SIZE_def)
  finally have 1: "intake_frame e s1 = Some (Go ?s)" .
  have "take (length d) (pad_to 57 d) = d" using d by (simp add: take_pad_to)
  then have "message ?s = d" using r f by (simp add: message_def ready_frame_def req_def)
  then show ?thesis using that [OF 1] r by (auto simp: complete_def ready_frame_def req_def wf_hid_def)
qed

lemma reassembly:
  assumes st: "idle st" and c: "good_cid c" and cmd: "message_cmd cmd" and d: "length d \<le> CTAP_MAX_PACKET_SIZE"
  shows "\<exists>st1. feed e (fragments c cmd d) (0, st) = done_rx (handler e cmd st1) \<and>
    message st1 = d \<and> last_cmd st1 = cmd \<and> last_cid st1 = c \<and> reports st1 = reports st \<and> frame_cid (req st1) = c \<and> wf_hid st1 \<and>
    (57 < length d \<longrightarrow> msg_len st1 = length d \<and> msg_cur st1 = length d \<and> \<not> is_nitrokey st1)"
proof -
  have lc: "length c = 4" using c by (simp add: good_cid_def)
  have len: "length d < 65536" using d by (simp add: CTAP_MAX_PACKET_SIZE_def)
  have wf: "wf_hid st" "w_offset st = 0" "msg_len st = 0" "lock st = 0" using st by (auto simp: idle_def)
  note p = init_frame_parts [OF lc len, of cmd]
  obtain s1 where s1: "ready_frame e (init_frame c cmd d) st s1" and fd: "feed_frame e (init_frame c cmd d) st =
      do { i \<leftarrow> intake_frame e s1;
        case i of Reject err \<Rightarrow> ctap_error e err s1 | Ignore \<Rightarrow> Some (0, s1) | Go st \<Rightarrow> dispatch e st }"
    using feed_frame_intake [OF wf(1,2) p(1), of e] by blast
  show ?thesis
  proof (cases "length d \<le> 57")
    case True
    obtain st' where st': "intake_frame e s1 = Some (Go st')" "complete st'" "message st' = d" "last_cmd st' = cmd" "last_cid st' = c"
      "req st' = init_frame c cmd d" "reports st' = reports st" "wf_hid st'"
      using short_intake [OF s1 c True wf(3,4) message_cmd_type [OF cmd]] by metis
    have "cont_frames c 0 (drop 57 d) = []" using True by (subst cont_frames.simps) simp
    then have "feed e (fragments c cmd d) (0, st) = dispatch e st'" using fd st'(1) by (simp add: fragments_def feed_Nil)
    also have "\<dots> = done_rx (handler e cmd st')"
      using st' p(3) message_not_cmd [OF cmd] by (intro dispatch_handler [OF _ _ cmd]) auto
    finally show ?thesis using st' p(2) True by (intro exI [of _ st']) simp
  next
    case False
    then have d57: "57 < length d" by simp
    obtain st' where st': "intake_frame e s1 = Some (Go st')" "collecting c cmd d 0 57 (reports st) st'" "req st' = init_frame c cmd d"
      using intake_init_go [OF s1 c d57 d wf(3,4) message_cmd_type [OF cmd]] by metis
    have "dispatch e st' = Some (0, usb_clear_rx st')"
      using st' p(3) message_not_cmd [OF cmd] d57 by (intro dispatch_wait) auto
    then have frag: "feed e (fragments c cmd d) (0, st) = feed e (cont_frames c 0 (drop 57 d)) (0, usb_clear_rx st')"
      using fd st'(1) by (simp add: fragments_def)
    have cl: "collecting c cmd d 0 57 (reports st) (usb_clear_rx st') \<and> w_offset (usb_clear_rx st') = 0"
      by (rule collecting_clear [OF st'(2)])
    have dl: "length d - 57 \<le> 59 * (128 - 0)" using d by (simp add: CTAP_MAX_PACKET_SIZE_def)
    moreover obtain k st1 where "feed e (cont_frames c 0 (drop 57 d)) (0, usb_clear_rx st') = dispatch e st1"
      and col: "collecting c cmd d k (length d) (reports st) st1" and ft: "frame_type (req st1) < 0x80" "frame_cid (req st1) = c"
      using feed_cont [OF conjunct1 [OF cl] conjunct2 [OF cl] d57 dl c d, of e] by auto
    moreover have m: "complete st1" "message st1 = d" "last_cmd st1 = cmd" "last_cid st1 = c" "reports st1 = reports st"
      "wf_hid st1" "msg_len st1 = length d" "msg_cur st1 = length d" "\<not> is_nitrokey st1"
      using col d57 by (auto simp: collecting_def complete_def message_def)
    moreover have "dispatch e st1 = done_rx (handler e cmd st1)"
      using m(1,3) small_not_cmd [OF ft(1)] by (intro dispatch_handler [OF _ _ cmd]) auto
    ultimately show ?thesis using frag by (intro exI [of _ st1]) simp
  qed
qed

text \<open>
  C6: a message of any length up to the protocol maximum of 7609 bytes, sent in CTAPHID frames on a valid
  channel to an idle interface, is put together again: exactly when the last frame has arrived, the handler
  of its command runs, with exactly the message and on the channel of the sender; before that, nothing
  is answered.
\<close>

theorem message_reassembly:
  assumes st: "idle st" and c: "good_cid c" and cmd: "message_cmd cmd" and d: "length d \<le> CTAP_MAX_PACKET_SIZE"
  shows "\<exists>st1. feed e (fragments c cmd d) (0, st) = done_rx (handler e cmd st1) \<and>
    message st1 = d \<and> last_cmd st1 = cmd \<and> frame_cid (req st1) = c \<and> reports st1 = reports st"
  using reassembly [OF assms, of e] by blast

text \<open>
  the echo of PING copies the message into the transmit buffer without a length check: for a
  message that is longer than its 4153 data bytes (the protocol allows 7609), the copy runs over the end
  of the buffer.
\<close>

theorem ping_overflow:
  assumes st: "idle st" and c: "good_cid c" and d: "4153 < length d" "length d \<le> CTAP_MAX_PACKET_SIZE"
  shows "feed e (fragments c CTAPHID_PING d) (0, st) = None"
proof -
  have "message_cmd CTAPHID_PING" by (simp add: message_cmd_def)
  from reassembly [OF st c this d(2), of e] d obtain st1 where
    "feed e (fragments c CTAPHID_PING d) (0, st) = done_rx (handler e CTAPHID_PING st1)" "wf_hid st1"
    "msg_len st1 = length d" "msg_cur st1 = length d" by auto
  then show ?thesis
    using d by (auto simp: handler_def cmd_ping_def Let_def put_tx_def wr_slice_def wf_hid_def done_rx_def)
qed

section \<open>Fragmentation of a response\<close>

text \<open>The USB stack reports each sent frame, until the response is out; at most \<open>n\<close> times.\<close>

fun drain :: "hid_env \<Rightarrow> nat \<Rightarrow> hid \<Rightarrow> hid option" where
  "drain e 0 st = Some st"
| "drain e (Suc n) st =
     (if send_buffer_size st > 0
      then do { st \<leftarrow> tud_hid_report_complete_cb e (last (reports st)) st; drain e n st }
      else Some st)"

text \<open>Between two frames: \<open>s\<close> bytes remain of the part of \<open>T\<close> from \<open>o + 5\<close> on; frame \<open>k\<close> is next.\<close>

definition sending :: "bytes \<Rightarrow> bytes \<Rightarrow> nat \<Rightarrow> nat \<Rightarrow> nat \<Rightarrow> bytes list \<Rightarrow> hid \<Rightarrow> bool" where
  "sending c T off s k rs st \<longleftrightarrow> length c = 4 \<and> frame_cid (req st) = c \<and> send_buffer_size st = s \<and> ctap_resp st = off \<and>
     last_write_result st \<and> length (hid_tx st) = 4160 \<and> length T = 4160 \<and> drop (off + 5) (hid_tx st) = drop (off + 5) T \<and>
     (0 < s \<longrightarrow> off + 5 + s \<le> 4101) \<and> reports st = rs \<and> rs \<noteq> [] \<and> length (last rs) = 64 \<and>
     (if last rs ! 4 AND TYPE_MASK \<noteq> 0 then 0 else last rs ! 4 + 1) = (of_nat k :: u8)"

lemma sending_step:
  assumes s: "sending c T off s k rs st" and u: "usb_ready e" and pos: "0 < s" and k: "k < 128"
  shows "\<exists>st'. tud_hid_report_complete_cb e (last rs) st = Some st' \<and>
    sending c T (off + 59) (s - 59) (k + 1) (rs @ [c @ [of_nat k] @ take 59 (drop (off + 5) T)]) st'"
proof -
  have f: "length c = 4" "frame_cid (req st) = c" "send_buffer_size st = s" "ctap_resp st = off" "last_write_result st"
    "length (hid_tx st) = 4160" "length T = 4160" "drop (off + 5) (hid_tx st) = drop (off + 5) T" "off + 5 + s \<le> 4101"
    "reports st = rs" "length (last rs) = 64" "(if last rs ! 4 AND TYPE_MASK \<noteq> 0 then 0 else last rs ! 4 + 1) = (of_nat k :: u8)"
    using s pos by (auto simp: sending_def)
  have off: "off + 64 \<le> 4160" using f pos by linarith
  let ?t = "take off (hid_tx st) @ (c @ [of_nat k]) @ drop (off + 5) (hid_tx st)"
  have w: "put_tx off (c @ [of_nat k]) st = Some (st\<lparr>hid_tx := ?t\<rparr>)"
    using f off by (simp add: put_tx_def wr_slice_def)
  have len: "length ?t = 4160" using f off by simp
  have fr: "take 64 (drop off ?t) = c @ [of_nat k] @ take 59 (drop (off + 5) T)"
    using f off by simp
  have t5: "drop (off + 64) ?t = drop (off + 64) T"
  proof -
    have "drop (off + 64) ?t = drop 59 (drop (off + 5) (hid_tx st))" using f off by simp
    then show ?thesis using f by (simp add: ac_simps)
  qed
  let ?fr = "c @ [of_nat k] @ take 59 (drop (off + 5) T)"
  have lf: "length ?fr = 64" using f off by simp
  have r4: "rd (last rs) 4 = Some (last rs ! 4)" using f by (simp add: rd_def)
  let ?st2 = "st\<lparr>hid_tx := ?t, last_write_result := True, reports := rs @ [?fr], w_len := 0, tx_r_offset := off + 64,
     send_buffer_size := s - min 59 s, ctap_resp := off + 64 - 5\<rparr>"
  have wo: "hid_write_offset e 64 off (st\<lparr>hid_tx := ?t\<rparr>) =
      (64, st\<lparr>hid_tx := ?t, last_write_result := True, reports := rs @ [?fr], w_len := 0, tx_r_offset := off + 64\<rparr>)"
    using u fr lf f by (simp add: hid_write_offset_def usb_write_offset_def driver_write_hid_def Let_def)
  have cb: "tud_hid_report_complete_cb e (last rs) st = Some ?st2"
    unfolding tud_hid_report_complete_cb_def r4 bind.bind_lunit Let_def f(12) w f(4)
    using pos f wo by (simp add: w)
  have sm: "s - min 59 s = s - 59" by simp
  have f4: "?fr ! 4 = of_nat k" using f(1) by (simp add: nth_append)
  have sq: "(if ?fr ! 4 AND TYPE_MASK \<noteq> 0 then 0 else ?fr ! 4 + 1) = (of_nat (k + 1) :: u8)"
    unfolding f4 using seq_not_init [OF k] by (simp add: add.commute)
  have bd: "0 < s - 59 \<longrightarrow> off + 59 + 5 + (s - 59) \<le> 4101" using f(9) by simp
  have ne: "rs @ [?fr] \<noteq> []" "last (rs @ [?fr]) = ?fr" by simp_all
  have o5: "off + 59 + 5 = off + 64" "off + 64 - 5 = off + 59" by simp_all
  have rq: "frame_cid (req ?st2) = c" using f(2) by (simp add: req_def)
  have "sending c T (off + 59) (s - 59) (k + 1) (rs @ [?fr]) ?st2"
    unfolding sending_def sm ne(2) o5 rq using f len t5 lf sq bd ne(1) by (simp del: append_Cons append_assoc add: o5 req_def)
  with cb show ?thesis by blast
qed

lemma take_parts: "k \<le> length Z \<Longrightarrow> take n (take k Z) @ take (n - k) (drop k Z) = take n Z"
  by (metis append_take_drop_id length_take min.absorb2 take_append)

lemma sending_drain:
  assumes "sending c T off s k rs st" "usb_ready e" "s \<le> 59 * n" "k + n \<le> 128"
  shows "\<exists>fs st'. drain e n st = Some st' \<and> reports st' = rs @ fs \<and> send_buffer_size st' = 0 \<and>
    map (take 5) fs = map (\<lambda>i. c @ [of_nat i]) [k ..< k + length fs] \<and>
    take s (concat (map (drop 5) fs)) = take s (drop (off + 5) T) \<and> s \<le> length (concat (map (drop 5) fs))"
  using assms(1,3,4)
proof (induction n arbitrary: off s k rs st)
  case 0
  then show ?case by (intro exI [of _ "[]"] exI [of _ st]) (simp add: sending_def)
next
  case (Suc n)
  show ?case
  proof (cases "s = 0")
    case True
    then show ?thesis using Suc.prems(1) by (intro exI [of _ "[]"] exI [of _ st]) (simp add: sending_def)
  next
    case False
    then have pos: "0 < s" and k: "k < 128" using Suc.prems by auto
    let ?fr = "c @ [of_nat k] @ take 59 (drop (off + 5) T)"
    obtain st1 where 1: "tud_hid_report_complete_cb e (last rs) st = Some st1"
      "sending c T (off + 59) (s - 59) (k + 1) (rs @ [?fr]) st1"
      using sending_step [OF Suc.prems(1) assms(2) pos k] by blast
    have "s - 59 \<le> 59 * n" "k + 1 + n \<le> 128" using Suc.prems by auto
    from Suc.IH [OF 1(2) this] obtain fs st' where ih: "drain e n st1 = Some st'" "reports st' = (rs @ [?fr]) @ fs"
      "send_buffer_size st' = 0" "map (take 5) fs = map (\<lambda>i. c @ [of_nat i]) [k + 1 ..< k + 1 + length fs]"
      "take (s - 59) (concat (map (drop 5) fs)) = take (s - 59) (drop (off + 59 + 5) T)"
      "s - 59 \<le> length (concat (map (drop 5) fs))" by blast
    have f: "length c = 4" "reports st = rs" "send_buffer_size st = s" "length T = 4160" "off + 5 + s \<le> 4101"
      using Suc.prems(1) pos by (auto simp: sending_def)
    have d5: "drop 5 ?fr = take 59 (drop (off + 5) T)" "take 5 ?fr = c @ [of_nat k]" using f(1) by simp_all
    have l59: "length (take 59 (drop (off + 5) T)) = 59" using f pos by simp
    have "take s (concat (map (drop 5) (?fr # fs))) = take s (take 59 (drop (off + 5) T)) @ take (s - 59) (concat (map (drop 5) fs))"
      using l59 d5 by simp
    also have "\<dots> = take s (take 59 (drop (off + 5) T)) @ take (s - 59) (drop (off + 59 + 5) T)" using ih(5) by simp
    also have "\<dots> = take s (drop (off + 5) T)"
      using take_parts [of 59 "drop (off + 5) T" s] f pos by (simp add: ac_simps del: take_take)
    finally have tk: "take s (concat (map (drop 5) (?fr # fs))) = take s (drop (off + 5) T)" .
    have "drain e (Suc n) st = Some st'" using f pos 1(1) ih(1) by simp
    moreover have "reports st' = rs @ ?fr # fs" using ih(2) by simp
    moreover have "map (take 5) (?fr # fs) = map (\<lambda>i. c @ [of_nat i]) [k ..< k + length (?fr # fs)]"
    proof -
      have "[k ..< k + length (?fr # fs)] = k # [k + 1 ..< k + 1 + length fs]" by (simp add: upt_conv_Cons del: upt_Suc)
      then show ?thesis unfolding list.map d5(2) ih(4) by (simp only: list.map)
    qed
    moreover have "s \<le> length (concat (map (drop 5) (?fr # fs)))" using ih(6) l59 d5 by simp
    ultimately show ?thesis using ih(3) tk by (intro exI [of _ "?fr # fs"] exI [of _ st']) (simp del: append_Cons map_append)
  qed
qed

text \<open>
  C18: a response of up to 4089 bytes in the transmit buffer is sent in well-formed CTAPHID frames: the
  first carries the channel of the request, the command and the length, the others the channel and the
  numbers 0, 1, 2 and so on; the payloads, put together, are the response.  It works although the header
  of each further frame is written over bytes of the response itself, which have been sent by then.
\<close>

theorem response_fragmentation:
  assumes wf: "length (hid_tx st) = 4160" "length (frame_cid (req st)) = 4" and u: "usb_ready e"
    and R: "rd_slice (hid_tx st) 7 (length R) = Some R" "0 < length R" "length R \<le> 4089" and t: "last_cmd st AND TYPE_MASK \<noteq> 0"
  shows "\<exists>st1 st2 f0 fs. driver_exec_finished_cont_hid e (length R) 7 st = Some st1 \<and> drain e 128 st1 = Some st2 \<and>
    reports st2 = reports st @ f0 # fs \<and> send_buffer_size st2 = 0 \<and>
    take 7 f0 = frame_cid (req st) @ [last_cmd st, of_nat (length R div 256), of_nat (length R mod 256)] \<and>
    map (take 5) fs = map (\<lambda>i. frame_cid (req st) @ [of_nat i]) [0 ..< length fs] \<and>
    take (length R) (drop 7 f0 @ concat (map (drop 5) fs)) = R"
proof -
  let ?c = "frame_cid (req st)" and ?n = "length R"
  let ?h = "?c @ [last_cmd st, of_nat (?n div 256), of_nat (?n mod 256)]"
  let ?T = "?h @ drop 7 (hid_tx st)"
  have Rt: "take ?n (drop 7 (hid_tx st)) = R" using R(1) by (simp add: rd_slice_eq_Some)
  have T: "length ?T = 4160" using wf by simp
  have w: "put_tx 0 ?h st = Some (st\<lparr>hid_tx := ?T\<rparr>)" using wf by (simp add: put_tx_def wr_slice_def)
  let ?f0 = "take 64 ?T"
  let ?s1 = "st\<lparr>hid_tx := ?T, ctap_resp := 59, send_buffer_size := ?n - min 57 ?n, last_write_result := True,
      reports := reports st @ [?f0], w_len := 0, tx_r_offset := 64\<rparr>"
  have run: "driver_exec_finished_cont_hid e ?n 7 st = Some ?s1"
    using w u R(3) T wf
    by (simp add: driver_exec_finished_cont_hid_def hid_write_offset_def usb_write_offset_def driver_write_hid_def Let_def
        del: append_Cons append_assoc)
  have f0: "take 7 ?f0 = ?h" "drop 7 ?f0 = take 57 (drop 7 (hid_tx st))" "?f0 ! 4 = last_cmd st" "length ?f0 = 64"
    using wf by (simp_all add: nth_append)
  have sn: "sending ?c ?T 59 (?n - 57) 0 (reports st @ [?f0]) ?s1"
    using wf T f0 t R(3) unfolding sending_def by (simp add: req_def nth_append)
  have bd: "?n - 57 \<le> 59 * 128" "0 + 128 \<le> (128 :: nat)" using R(3) by simp_all
  obtain fs st2 where d: "drain e 128 ?s1 = Some st2" "reports st2 = (reports st @ [?f0]) @ fs" "send_buffer_size st2 = 0"
    "map (take 5) fs = map (\<lambda>i. ?c @ [of_nat i]) [0 ..< 0 + length fs]"
    "take (?n - 57) (concat (map (drop 5) fs)) = take (?n - 57) (drop (59 + 5) ?T)"
    using sending_drain [OF sn u bd] by blast
  have "take ?n (drop 7 ?f0 @ concat (map (drop 5) fs)) =
      take ?n (take 57 (drop 7 (hid_tx st))) @ take (?n - 57) (concat (map (drop 5) fs))"
    using f0(2) wf by simp
  also have "\<dots> = take ?n (take 57 (drop 7 (hid_tx st))) @ take (?n - 57) (drop 57 (drop 7 (hid_tx st)))"
    using d(5) wf by simp
  also have "\<dots> = take ?n (drop 7 (hid_tx st))"
    using take_parts [of 57 "drop 7 (hid_tx st)" ?n] wf by (simp del: take_take drop_drop)
  finally have tk: "take ?n (drop 7 ?f0 @ concat (map (drop 5) fs)) = R" using Rt by simp
  show ?thesis
    using run d f0(1) tk by (intro exI [of _ ?s1] exI [of _ st2] exI [of _ ?f0] exI [of _ fs]) (simp del: append_assoc take_append)
qed

section \<open>The emulated keyboard\<close>

text \<open>
  \<open>kb_out\<close> collects the accepted keyboard reports (modifier and key code; a release is \<open>(0, 0)\<close>).
  \<open>conv\<close> is the table \<^verbatim>\<open>HID_ASCII_TO_KEYCODE\<close> of TinyUSB, 128 pairs of a shift flag and a key code; an
  index outside of it is \<open>None\<close>.
\<close>

record kbd =
  kb_buf :: bytes
  kb_len :: u8
  kb_w :: u8
  sent_key :: bool
  kb_encode :: bool
  kb_out :: "(u8 \<times> u8) list"

definition KEYBOARD_MODIFIER_LEFTSHIFT :: u8 where "KEYBOARD_MODIFIER_LEFTSHIFT = 0x02"

definition add_keyboard_buffer :: "bytes \<Rightarrow> bool \<Rightarrow> kbd \<Rightarrow> kbd" where
  "add_keyboard_buffer d encode k =
     (let l = of_nat (min 256 (length d)) :: u8
      in k\<lparr>kb_len := l, kb_buf := take (unat l) d @ drop (unat l) (kb_buf k), kb_encode := encode\<rparr>)"

definition append_keyboard_buffer :: "bytes \<Rightarrow> kbd \<Rightarrow> kbd" where
  "append_keyboard_buffer d k =
     (let l = unat (kb_len k); n = min (256 - l) (length d)
      in if l < 256 then
           k\<lparr>kb_buf := take l (kb_buf k) @ take n d @ drop (l + n) (kb_buf k), kb_len := kb_len k + of_nat n\<rparr>
         else k)"

definition key_of :: "(u8 \<times> u8) list \<Rightarrow> bool \<Rightarrow> u8 \<Rightarrow> (u8 \<times> u8) option" where
  "key_of conv encode chr =
     (if encode then do {
        (sh, code) \<leftarrow> rd conv (unat chr);
        Some (if sh \<noteq> 0 then KEYBOARD_MODIFIER_LEFTSHIFT else 0, code)
      } else Some (if chr AND 0x80 \<noteq> 0 then KEYBOARD_MODIFIER_LEFTSHIFT else 0, chr AND 0x7f))"

definition send_hid_report :: "(u8 \<times> u8) list \<Rightarrow> bool \<Rightarrow> bool \<Rightarrow> kbd \<Rightarrow> kbd option" where
  "send_hid_report conv ready accepted k =
     (if \<not> ready then Some k
      else if kb_w k < kb_len k then
        (if \<not> sent_key k then do {
           chr \<leftarrow> rd (kb_buf k) (unat (kb_w k));
           r \<leftarrow> key_of conv (kb_encode k) chr;
           Some (if accepted then k\<lparr>sent_key := True, kb_out := kb_out k @ [r]\<rparr> else k)
         } else Some (if accepted then k\<lparr>kb_w := kb_w k + 1, sent_key := False, kb_out := kb_out k @ [(0, 0)]\<rparr> else k))
      else if kb_w k = kb_len k \<and> kb_len k > 0 then Some (k\<lparr>kb_w := 0, kb_len := 0\<rparr>)
      else Some k)"

definition hid_task :: "(u8 \<times> u8) list \<Rightarrow> bool \<Rightarrow> bool \<Rightarrow> bool \<Rightarrow> kbd \<Rightarrow> kbd option" where
  "hid_task conv suspended ready accepted k =
     (if suspended \<and> kb_len k > 0 then Some k else send_hid_report conv ready accepted k)"

fun hid_tasks :: "(u8 \<times> u8) list \<Rightarrow> nat \<Rightarrow> kbd \<Rightarrow> kbd option" where
  "hid_tasks conv 0 k = Some k"
| "hid_tasks conv (Suc n) k = do { k \<leftarrow> hid_task conv False True True k; hid_tasks conv n k }"

lemma hid_tasks_add: "hid_tasks conv (m + n) k = do { k \<leftarrow> hid_tasks conv m k; hid_tasks conv n k }"
proof (induction m arbitrary: k)
  case (Suc m)
  then show ?case by (cases "hid_task conv False True True k") simp_all
qed simp

lemma two_tasks:
  assumes "kb_w k < kb_len k" "\<not> sent_key k" "unat (kb_w k) < length (kb_buf k)"
    "key_of conv (kb_encode k) (kb_buf k ! unat (kb_w k)) = Some r"
  shows "hid_tasks conv 2 k = Some (k\<lparr>kb_w := kb_w k + 1, kb_out := kb_out k @ [r, (0, 0)]\<rparr>)"
  using assms by (simp add: numeral_2_eq_2 hid_task_def send_hid_report_def rd_def)

lemma typing:
  assumes "length (kb_buf k) = 256" "unat (kb_len k) = w + length d" "unat (kb_w k) = w" "\<not> sent_key k"
    "take (length d) (drop w (kb_buf k)) = d" "map (\<lambda>c. key_of conv (kb_encode k) c) d = map Some rs"
  shows "hid_tasks conv (2 * length d) k =
    Some (k\<lparr>kb_w := kb_len k, kb_out := kb_out k @ concat (map (\<lambda>r. [r, (0, 0)]) rs)\<rparr>)"
  using assms
proof (induction d arbitrary: k w rs)
  case Nil
  then have "kb_w k = kb_len k" by (simp add: word_unat_eq_iff)
  then show ?case using Nil by simp
next
  case (Cons c d)
  obtain r rs' where rs: "rs = r # rs'" using Cons.prems(6) by (cases rs) auto
  have b: "w + length (c # d) < 256" using Cons.prems(2) byte_bound [of "kb_len k"] by simp
  then have w: "w < length (kb_buf k)" using Cons.prems(1) by simp
  have dr: "drop w (kb_buf k) = kb_buf k ! w # drop (w + 1) (kb_buf k)" using w by (simp add: Cons_nth_drop_Suc)
  then have c: "kb_buf k ! w = c" "take (length d) (drop (w + 1) (kb_buf k)) = d" using Cons.prems(5) by auto
  have lt: "kb_w k < kb_len k" using Cons.prems(2,3) by (simp add: word_less_nat_alt)
  let ?k = "k\<lparr>kb_w := kb_w k + 1, kb_out := kb_out k @ [r, (0, 0)]\<rparr>"
  have "hid_tasks conv 2 k = Some ?k"
    using Cons.prems w c lt rs by (intro two_tasks) auto
  moreover have "unat (kb_w k + 1) = w + 1" using Cons.prems(3) b by (simp add: unat_word_ariths)
  then have "hid_tasks conv (2 * length d) ?k =
      Some (?k\<lparr>kb_w := kb_len ?k, kb_out := kb_out ?k @ concat (map (\<lambda>r. [r, (0, 0)]) rs')\<rparr>)"
    using Cons.prems c rs by (intro Cons.IH [of _ "w + 1"]) auto
  moreover have "2 * length (c # d) = 2 + 2 * length d" by simp
  ultimately show ?case unfolding \<open>2 * length (c # d) = 2 + 2 * length d\<close> hid_tasks_add using rs by simp
qed

text \<open>
  text of up to 255 bytes that is given to the idle keyboard is typed completely and in order: after
  two polls for each character the host has received, for each, its key press (with the shift key if the
  character needs it) and a release, nothing else, and all of the text is consumed.
\<close>

theorem keyboard_types_text:
  assumes k: "length (kb_buf k) = 256" "kb_w k = 0" "\<not> sent_key k" and d: "length d \<le> 255"
    and keys: "map (\<lambda>c. key_of conv encode c) d = map Some rs"
  shows "hid_tasks conv (2 * length d) (add_keyboard_buffer d encode k) =
    Some ((add_keyboard_buffer d encode k)\<lparr>kb_w := of_nat (length d), kb_out := kb_out k @ concat (map (\<lambda>r. [r, (0, 0)]) rs)\<rparr>)"
proof -
  let ?k = "add_keyboard_buffer d encode k"
  have l: "unat (of_nat (length d) :: u8) = length d" using d by (simp add: unat_of_nat)
  have m: "min 256 (length d) = length d" using d by simp
  have "hid_tasks conv (2 * length d) ?k = Some (?k\<lparr>kb_w := kb_len ?k, kb_out := kb_out ?k @ concat (map (\<lambda>r. [r, (0, 0)]) rs)\<rparr>)"
    using k d keys l m by (intro typing [of _ 0]) (simp_all add: add_keyboard_buffer_def Let_def)
  then show ?thesis using m by (simp add: add_keyboard_buffer_def Let_def)
qed

text \<open>Concrete states, for the witnesses.\<close>

definition idle_hid :: hid where
  "idle_hid = \<lparr>rx_buf = replicate 4096 0, w_offset = 0, hid_tx = replicate 4160 0, ctap_resp = 0, w_len = 0, tx_r_offset = 0,
     send_buffer_size = 0, last_write_result = False, msg_len = 0, msg_cur = 0, msg_data = replicate 7609 0, last_cmd = CTAPHID_MSG,
     last_seq = 0, last_cid = [0, 0, 0, 0], lock = 0, last_cmd_time = 0, last_packet_time = 0, thread_type = 0, card_starts = [],
     is_nitrokey = False, cancel_button = False, resp_sw = 0, reports = []\<rparr>"

definition sample_env :: hid_env where
  "sample_env = \<lparr>now = 5000, usb_ready = True, button_pending = False, version = (5, 4), sdk_version = (5, 4), board_id = replicate 8 0,
     init_fido_cb = (\<lambda>s. s), select_fido = (\<lambda>s. s), run_apdu = (\<lambda>_ s. (1, s)), cbor_process_cb = Some (\<lambda>_ _ s. (1, s))\<rparr>"

lemma idle_hid_idle: "idle idle_hid"
  by (simp add: idle_def wf_hid_def idle_hid_def CTAP_MAX_PACKET_SIZE_def)

lemma sample_cid: "good_cid [0, 0, 0, 1]"
  by (simp add: good_cid_def)

theorem message_reassembly_witness:
  "\<exists>st1. feed sample_env (fragments [0, 0, 0, 1] CTAPHID_CBOR (replicate 100 7)) (0, idle_hid) =
      done_rx (handler sample_env CTAPHID_CBOR st1) \<and> message st1 = replicate 100 7 \<and> last_cmd st1 = CTAPHID_CBOR \<and>
      frame_cid (req st1) = [0, 0, 0, 1] \<and> reports st1 = reports idle_hid"
  by (rule message_reassembly [OF idle_hid_idle sample_cid]) (simp_all add: message_cmd_def CTAP_MAX_PACKET_SIZE_def)

theorem ping_overflow_witness:
  "feed sample_env (fragments [0, 0, 0, 1] CTAPHID_PING (replicate 5000 7)) (0, idle_hid) = None"
  by (rule ping_overflow [OF idle_hid_idle sample_cid]) (simp_all add: CTAP_MAX_PACKET_SIZE_def)

theorem response_fragmentation_witness:
  "\<exists>st1 st2 f0 fs. driver_exec_finished_cont_hid sample_env (length (replicate 100 0 :: bytes)) 7 idle_hid = Some st1 \<and>
    drain sample_env 128 st1 = Some st2 \<and> reports st2 = reports idle_hid @ f0 # fs \<and> send_buffer_size st2 = 0 \<and>
    take 7 f0 = frame_cid (req idle_hid) @ [last_cmd idle_hid, of_nat (length (replicate 100 0 :: bytes) div 256),
      of_nat (length (replicate 100 0 :: bytes) mod 256)] \<and>
    map (take 5) fs = map (\<lambda>i. frame_cid (req idle_hid) @ [of_nat i]) [0 ..< length fs] \<and>
    take (length (replicate 100 0 :: bytes)) (drop 7 f0 @ concat (map (drop 5) fs)) = replicate 100 0"
  by (rule response_fragmentation)
    (simp_all add: idle_hid_def sample_env_def req_def frame_cid_def rd_slice_def CTAPHID_MSG_def TYPE_MASK_def)

theorem stray_continuation_blocks_witness:
  "\<exists>st'. hid_run (Report ([0, 0, 0, 1] @ replicate 60 0) # [Poll sample_env]) idle_hid = Some st' \<and> stuck st' \<and> reports st' = reports idle_hid"
  by (rule stray_continuation_blocks [OF idle_hid_idle])
    (simp add: cont_frame_def good_cid_def frame_cid_def frame_type_def)

definition idle_kbd :: kbd where
  "idle_kbd = \<lparr>kb_buf = replicate 256 0, kb_len = 0, kb_w = 0, sent_key = False, kb_encode = False, kb_out = []\<rparr>"

theorem keyboard_types_text_witness:
  "hid_tasks [] (2 * length [0x04, 0x85 :: u8]) (add_keyboard_buffer [0x04, 0x85] False idle_kbd) =
    Some ((add_keyboard_buffer [0x04, 0x85] False idle_kbd)\<lparr>kb_w := of_nat (length [0x04, 0x85 :: u8]),
      kb_out := kb_out idle_kbd @ concat (map (\<lambda>r. [r, (0, 0)]) [(0, 0x04), (KEYBOARD_MODIFIER_LEFTSHIFT, 0x05)])\<rparr>)"
  by (rule keyboard_types_text) (simp_all add: idle_kbd_def key_of_def)

end
