(* ===== verification/Applet.thy ===== *)
theory Applet
  imports FileSys
begin

text \<open>
  What the applications share: the command they are given and the reply they make (\<^verbatim>\<open>pico_keys.h\<close>,
  \<^verbatim>\<open>apdu.h\<close>), the hash of \<^verbatim>\<open>pico-keys-sdk/src/crypto_utils.c\<close>, and the laws of the file layer in the form
  the handlers use them.  A command is its four header bytes, the bytes that are physically readable from
  \<^verbatim>\<open>apdu.data\<close>, \<^verbatim>\<open>apdu.nc\<close> and what \<^verbatim>\<open>random_gen\<close> returns while it runs.  A handler returns the status
  word, the bytes of \<^verbatim>\<open>res_APDU\<close> and the new state, or \<open>None\<close> when it reads or writes outside of its
  buffers or does not return.  The cryptographic library is the record \<open>crypto\<close> of parameters.
\<close>

section \<open>Commands and replies\<close>

record command =
  CLA :: u8
  INS :: u8
  P1 :: u8
  P2 :: u8
  cbuf :: bytes
  cnc :: nat
  random_gen :: "nat \<Rightarrow> bytes"

type_synonym 's reply = "(u16 \<times> bytes \<times> 's) option"

definition SW_EXEC_ERROR :: u16 where "SW_EXEC_ERROR = 0x6400"
definition SW_WRONG_DATA :: u16 where "SW_WRONG_DATA = 0x6700"
definition SW_SECURITY_STATUS_NOT_SATISFIED :: u16 where "SW_SECURITY_STATUS_NOT_SATISFIED = 0x6982"
definition SW_DATA_INVALID :: u16 where "SW_DATA_INVALID = 0x6984"
definition SW_CONDITIONS_NOT_SATISFIED :: u16 where "SW_CONDITIONS_NOT_SATISFIED = 0x6985"
definition SW_INCORRECT_PARAMS :: u16 where "SW_INCORRECT_PARAMS = 0x6A80"
definition SW_FILE_FULL :: u16 where "SW_FILE_FULL = 0x6A84"
definition SW_INCORRECT_P1P2 :: u16 where "SW_INCORRECT_P1P2 = 0x6A86"
definition SW_INS_NOT_SUPPORTED :: u16 where "SW_INS_NOT_SUPPORTED = 0x6D00"
definition SW_CLA_NOT_SUPPORTED :: u16 where "SW_CLA_NOT_SUPPORTED = 0x6E00"
definition SW_WRONG_LENGTH :: u16 where "SW_WRONG_LENGTH = 0x6700"
definition SW_OK :: u16 where "SW_OK = 0x9000"

lemmas sw_defs = SW_EXEC_ERROR_def SW_WRONG_DATA_def SW_SECURITY_STATUS_NOT_SATISFIED_def SW_DATA_INVALID_def
  SW_CONDITIONS_NOT_SATISFIED_def SW_INCORRECT_PARAMS_def SW_FILE_FULL_def SW_INCORRECT_P1P2_def
  SW_INS_NOT_SUPPORTED_def SW_CLA_NOT_SUPPORTED_def SW_WRONG_LENGTH_def SW_OK_def

text \<open>An error: \<^verbatim>\<open>set_res_sw\<close> drops the response (see \<open>Apdu\<close>).\<close>

definition err :: "u16 \<Rightarrow> 's \<Rightarrow> 's reply" where "err w s = Some (w, [], s)"
definition ok :: "bytes \<Rightarrow> 's \<Rightarrow> 's reply" where "ok res s = Some (SW_OK, res, s)"

text \<open>
  The room for a response: the transmit buffer of \<^verbatim>\<open>usb.c\<close> behind the ten bytes of the CCID header.
\<close>

definition res_max :: nat where "res_max = 4096 + 64 - 10"

definition emit :: "bytes \<Rightarrow> bytes \<Rightarrow> bytes option" where
  "emit res bs = (if length res + length bs \<le> res_max then Some (res @ bs) else None)"

text \<open>An object of a buffer, as \<^verbatim>\<open>asn1_find_tag\<close> reports it: its length and its offset.\<close>

type_synonym span = "nat \<times> nat"

definition find_tag :: "bytes \<Rightarrow> nat \<Rightarrow> u8 \<Rightarrow> span option option" where
  "find_tag b n t = asn1_find_tag b n (ucast t)"

definition span_bytes :: "bytes \<Rightarrow> span \<Rightarrow> bytes option" where
  "span_bytes b s = rd_slice b (snd s) (fst s)"

definition span_rd :: "bytes \<Rightarrow> span \<Rightarrow> nat \<Rightarrow> u8 option" where
  "span_rd b s i = rd b (snd s + i)"

text \<open>Reading from the offset \<open>k\<close> of an object; a length that is smaller wraps around and is out of bounds.\<close>

definition span_from :: "bytes \<Rightarrow> span \<Rightarrow> nat \<Rightarrow> bytes option" where
  "span_from b s k = (if fst s < k then None else rd_slice b (snd s + k) (fst s - k))"

lemma find_tag_tlvs:
  assumes "list_all tlv_ok tvs"
  shows "map_of tvs t = None \<Longrightarrow> find_tag (tlvs_bytes tvs @ post) (length (tlvs_bytes tvs)) t = Some None"
    and "map_of tvs t = Some v \<Longrightarrow> \<exists>off. find_tag (tlvs_bytes tvs @ post) (length (tlvs_bytes tvs)) t = Some (Some (length v, off)) \<and>
      rd_slice (tlvs_bytes tvs @ post) off (length v) = Some v"
proof -
  have m: "map_of tvs t = map_option snd (first_tlv 0 t tvs)" for t
  proof -
    have "map_of tvs t = map_option snd (first_tlv off t tvs)" for off
      by (induction tvs arbitrary: off) auto
    then show ?thesis .
  qed
  show "map_of tvs t = None \<Longrightarrow> find_tag (tlvs_bytes tvs @ post) (length (tlvs_bytes tvs)) t = Some None"
    using m asn1_find_tag_tlvs [OF assms, of post t] by (simp add: find_tag_def)
  assume "map_of tvs t = Some v"
  then obtain off where o: "first_tlv 0 t tvs = Some (off, v)" using m by auto
  then show "\<exists>off. find_tag (tlvs_bytes tvs @ post) (length (tlvs_bytes tvs)) t = Some (Some (length v, off)) \<and>
      rd_slice (tlvs_bytes tvs @ post) off (length v) = Some v"
    using asn1_find_tag_tlvs [OF assms, of post t] first_tlv_value [of "[]" t tvs off v post] by (simp add: find_tag_def)
qed

section \<open>Hashes\<close>

datatype md = MD_SHA1 | MD_SHA256 | MD_SHA512

fun md_get_size :: "md \<Rightarrow> nat" where
  "md_get_size MD_SHA1 = 20"
| "md_get_size MD_SHA256 = 32"
| "md_get_size MD_SHA512 = 64"

record crypto =
  sha256 :: "bytes \<Rightarrow> bytes"
  md_hmac :: "md \<Rightarrow> bytes \<Rightarrow> bytes \<Rightarrow> bytes option"
  unique_board_id :: bytes

text \<open>What is relied on: the sizes of the results.\<close>

definition crypto_law :: "crypto \<Rightarrow> bool" where
  "crypto_law c \<longleftrightarrow> (\<forall>x. length (sha256 c x) = 32) \<and>
     (\<forall>m k x h. md_hmac c m k x = Some h \<longrightarrow> length h = md_get_size m) \<and> length (unique_board_id c) = 8"

text \<open>
  The bytes that \<^verbatim>\<open>hash_multi\<close> feeds to the hash: the input again and again until 256 bytes are reached.
  The loop subtracts the length, so it does not end for an empty input, the value \<open>None\<close>.
\<close>

partial_function (option) hash_multi_input :: "bytes \<Rightarrow> nat \<Rightarrow> bytes option" where
  "hash_multi_input input iters =
     (if iters > length input then do {
        rest \<leftarrow> hash_multi_input input (iters - length input);
        Some (input @ rest)
      } else Some (take iters input))"

definition hash_multi :: "crypto \<Rightarrow> bytes \<Rightarrow> bytes option" where
  "hash_multi c input = do {
     x \<leftarrow> hash_multi_input input 256;
     Some (sha256 c (unique_board_id c @ x))
   }"

definition double_hash_pin :: "crypto \<Rightarrow> bytes \<Rightarrow> bytes option" where
  "double_hash_pin c pin = do {
     h \<leftarrow> hash_multi c pin;
     let o1 = map (\<lambda>i. h ! i XOR pin ! (i mod length pin)) [0 ..< length h];
     hash_multi c o1
   }"

definition hash256 :: "crypto \<Rightarrow> bytes \<Rightarrow> bytes" where "hash256 c input = sha256 c input"

definition cycle_bytes :: "bytes \<Rightarrow> nat \<Rightarrow> bytes" where
  "cycle_bytes pin n = map (\<lambda>i. pin ! (i mod length pin)) [0 ..< n]"

lemma cycle_bytes_take: "n \<le> length pin \<Longrightarrow> cycle_bytes pin n = take n pin"
  by (auto simp: cycle_bytes_def intro: nth_equalityI)

lemma cycle_bytes_more: "pin \<noteq> [] \<Longrightarrow> length pin < n \<Longrightarrow> cycle_bytes pin n = pin @ cycle_bytes pin (n - length pin)"
  by (auto simp: cycle_bytes_def nth_append le_mod_geq intro!: nth_equalityI)

lemma hash_multi_input_cycle: "pin \<noteq> [] \<Longrightarrow> hash_multi_input pin n = Some (cycle_bytes pin n)"
proof (induction n rule: less_induct)
  case (less n)
  show ?case
  proof (cases "length pin < n")
    case True
    then have "n - length pin < n" using less.prems by simp
    from less.IH [OF this less.prems] True show ?thesis
      by (subst hash_multi_input.simps) (simp add: cycle_bytes_more [OF less.prems True])
  next
    case False
    then show ?thesis by (subst hash_multi_input.simps) (simp add: cycle_bytes_take)
  qed
qed

lemma hash_multi_input_empty: "0 < n \<Longrightarrow> hash_multi_input [] n = None"
proof -
  have "xs \<noteq> [] \<or> k = 0" if "hash_multi_input xs k = Some y" for xs k y
    by (rule hash_multi_input.raw_induct [of "\<lambda>xs k y. xs \<noteq> [] \<or> k = 0", OF _ that])
      (fastforce split: if_splits Option.bind_splits)
  then show "0 < n \<Longrightarrow> hash_multi_input [] n = None" by (cases "hash_multi_input [] n") auto
qed

lemma cycle_bytes_repeat: "pin \<noteq> [] \<Longrightarrow> cycle_bytes (pin @ pin) n = cycle_bytes pin n"
proof -
  assume ne: "pin \<noteq> []"
  have "(pin @ pin) ! (i mod (length pin + length pin)) = pin ! (i mod length pin)" for i
  proof -
    let ?n = "length pin"
    have l: "i mod (?n + ?n) < ?n + ?n" using ne by simp
    have "i mod (?n + ?n) mod ?n = i mod ?n" by (metis dvd_add_triv_left_iff dvd_refl mod_mod_cancel)
    moreover have "j mod ?n = (if j < ?n then j else j - ?n)" if "j < ?n + ?n" for j
      using that by (auto simp: le_mod_geq)
    ultimately have "i mod ?n = (if i mod (?n + ?n) < ?n then i mod (?n + ?n) else i mod (?n + ?n) - ?n)"
      using l by metis
    then show ?thesis by (auto simp: nth_append)
  qed
  then show ?thesis by (simp add: cycle_bytes_def)
qed

lemma hash_multi_spec:
  "hash_multi c pin = (if pin = [] then None else Some (sha256 c (unique_board_id c @ cycle_bytes pin 256)))"
  by (simp add: hash_multi_def hash_multi_input_empty hash_multi_input_cycle)

lemma double_hash_total:
  assumes "crypto_law c" and "pin \<noteq> []"
  shows "\<exists>h. double_hash_pin c pin = Some h \<and> length h = 32"
proof -
  have l: "length (sha256 c x) = 32" for x using assms by (simp add: crypto_law_def)
  then have "sha256 c x \<noteq> []" for x by (metis list.size(3) zero_neq_numeral)
  then show ?thesis using assms(2) l by (simp add: double_hash_pin_def hash_multi_spec Let_def)
qed

text \<open>
  the PIN hash of the OATH application and of the tokens returns exactly for PINs that are not empty
  (for an empty one the loop over the 256 bytes never ends), and it does not see how often a PIN is
  repeated: a PIN and the same PIN written twice have the same hash.
\<close>

theorem double_hash_pin_periodic:
  assumes law: "crypto_law c"
  shows "(double_hash_pin c pin = None \<longleftrightarrow> pin = []) \<and> double_hash_pin c (pin @ pin) = double_hash_pin c pin"
proof (cases "pin = []")
  case True
  then show ?thesis by (simp add: double_hash_pin_def hash_multi_spec)
next
  case False
  have c: "map (\<lambda>i. h ! i XOR p ! (i mod length p)) [0 ..< length h] =
      map (\<lambda>i. h ! i XOR cycle_bytes p (length h) ! i) [0 ..< length h]" for h p
    by (simp add: cycle_bytes_def)
  have "double_hash_pin c (pin @ pin) = double_hash_pin c pin"
    unfolding double_hash_pin_def c using False by (simp add: hash_multi_spec cycle_bytes_repeat del: length_append)
  with double_hash_total [OF law False] show ?thesis using False by auto
qed

text \<open>A library that can be computed with: the hash adds one to the bytes behind the eighth.\<close>

definition toy_hash :: "nat \<Rightarrow> bytes \<Rightarrow> bytes" where
  "toy_hash n x = map (\<lambda>i. (if 8 + i < length x then x ! (8 + i) else 0) + 1) [0 ..< n]"

definition sample_crypto :: crypto where
  "sample_crypto = \<lparr>sha256 = toy_hash 32, md_hmac = (\<lambda>m k x. Some (toy_hash (md_get_size m) (k @ x))),
     unique_board_id = [1, 2, 3, 4, 5, 6, 7, 8]\<rparr>"

lemma sample_crypto_law: "crypto_law sample_crypto"
  by (simp add: crypto_law_def sample_crypto_def toy_hash_def)

lemma sample_hash_multi: "pin \<noteq> [] \<Longrightarrow> hash_multi sample_crypto pin = Some (map (\<lambda>i. cycle_bytes pin 32 ! i + 1) [0 ..< 32])"
  by (auto simp: hash_multi_spec sample_crypto_def toy_hash_def cycle_bytes_def nth_append)

lemma sample_double_hash:
  assumes "pin \<noteq> []"
  shows "double_hash_pin sample_crypto pin =
    Some (map (\<lambda>i. ((cycle_bytes pin 32 ! i + 1) XOR cycle_bytes pin 32 ! i) + 1) [0 ..< 32])"
proof -
  have "cycle_bytes x 32 = x" if "length x = 32" for x using that by (simp add: cycle_bytes_take)
  then show ?thesis
    using assms by (simp add: double_hash_pin_def sample_hash_multi Let_def) (simp add: cycle_bytes_def)
qed

theorem double_hash_pin_periodic_witness:
  "(double_hash_pin sample_crypto [0x31, 0x32] = None \<longleftrightarrow> [0x31, 0x32 :: u8] = []) \<and>
   double_hash_pin sample_crypto ([0x31, 0x32] @ [0x31, 0x32]) = double_hash_pin sample_crypto [0x31, 0x32]"
  by (rule double_hash_pin_periodic [OF sample_crypto_law])

section \<open>Files, as the handlers use them\<close>

text \<open>The bytes behind \<^verbatim>\<open>file_get_data\<close>; reading through NULL is \<open>None\<close>.\<close>

definition file_bytes :: "fs \<Rightarrow> file_ref option \<Rightarrow> bytes option" where
  "file_bytes fs ef = do { d \<leftarrow> file_get_data fs ef; d }"

definition has :: "fs \<Rightarrow> u16 \<Rightarrow> bool" where "has fs fi \<longleftrightarrow> (\<exists>bs. fget fs fi = Some bs \<and> bs \<noteq> [])"

lemma file_get_data_lookup:
  assumes "fs_inv fs" and "lookup fs fi = Some r"
  shows "file_get_data fs (Some r) = Some (fget fs fi)"
proof -
  obtain f where f: "deref_file fs r = Some f" using lookup_deref [OF assms] by blast
  show ?thesis
    using f fget_at [OF assms f] fs_inv_store [OF assms f]
    by (cases "data f") (auto simp: file_get_data_def record_at_def)
qed

lemma file_get_size_lookup:
  assumes "fs_inv fs" and "lookup fs fi = Some r"
  shows "file_get_size fs (Some r) = Some (case fget fs fi of None \<Rightarrow> 0 | Some bs \<Rightarrow> length bs)"
proof -
  obtain f where f: "deref_file fs r = Some f" using lookup_deref [OF assms] by blast
  show ?thesis
    using f fget_at [OF assms f] fs_inv_store [OF assms f]
    by (cases "data f") (auto simp: file_get_size_def record_at_def)
qed

lemma file_has_data_lookup:
  assumes "fs_inv fs" and "lookup fs fi = Some r"
  shows "file_has_data fs (Some r) = Some (has fs fi)"
proof -
  obtain f where f: "deref_file fs r = Some f" using lookup_deref [OF assms] by blast
  show ?thesis
    using f fget_at [OF assms f] fs_inv_store [OF assms f] file_get_size_lookup [OF assms]
    by (cases "data f") (auto simp: file_has_data_def record_at_def has_def)
qed

text \<open>A file that is not in the static table.\<close>

definition dyn_fid :: "u16 \<Rightarrow> bool" where
  "dyn_fid fi \<longleftrightarrow> search_ef_from (butlast file_table) 0 fi = None"

lemma dyn_lookup: "fs_inv fs \<Longrightarrow> dyn_fid fi \<Longrightarrow> search_dynamic_file fs fi = lookup fs fi"
  by (simp add: dyn_fid_def lookup_def search_ef_table)

lemma dyn_has:
  assumes "fs_inv fs" and "dyn_fid fi"
  shows "file_has_data fs (search_dynamic_file fs fi) = Some (has fs fi)"
proof (cases "lookup fs fi")
  case None
  then show ?thesis using dyn_lookup [OF assms] by (simp add: file_has_data_def has_def fget_def)
next
  case (Some r)
  then show ?thesis using dyn_lookup [OF assms] file_has_data_lookup [OF assms(1)] by simp
qed

lemma has_lookup: "has fs fi \<Longrightarrow> \<exists>r bs. lookup fs fi = Some r \<and> fget fs fi = Some bs"
  by (cases "lookup fs fi") (auto simp: has_def fget_def)

text \<open>A rewrite that does not grow.\<close>

lemma rewrite_file:
  assumes "fs_inv fs" and "lookup fs fi = Some r" and "fget fs fi = Some old" and "length bs \<le> length old"
    and "length bs \<le> 4096"
  shows "\<exists>fs'. write_file fs (Some r) bs = Some (CCID_OK, fs') \<and> fs_inv fs' \<and> lookup fs' = lookup fs \<and>
    fget fs' = (fget fs)(fi \<mapsto> bs)"
  using write_file_spec [OF assms(1,2,5)] assms(3,4) by (auto simp: ccid_defs)

lemma file_bytes_lookup: "fs_inv fs \<Longrightarrow> lookup fs fi = Some r \<Longrightarrow> file_bytes fs (Some r) = fget fs fi"
  by (simp add: file_bytes_def file_get_data_lookup)

text \<open>The same for references that the search or \<open>file_new\<close> returned, NULL included.\<close>

lemma has_ref: "fs_inv fs \<Longrightarrow> file_has_data fs (lookup fs fi) = Some (has fs fi)"
  using file_has_data_lookup [of fs fi] has_lookup [of fs fi]
  by (cases "lookup fs fi") (auto simp: file_has_data_def [of _ None])

lemma bytes_ref: "fs_inv fs \<Longrightarrow> has fs fi \<Longrightarrow> file_bytes fs (lookup fs fi) = fget fs fi"
  using has_lookup file_bytes_lookup by fastforce

lemma write_ref:
  assumes "fs_inv fs" and "length bs \<le> 4096"
  shows "\<exists>rc fs'. write_file fs (lookup fs fi) bs = Some (rc, fs') \<and> fs_inv fs' \<and>
    (\<forall>fj. (lookup fs' fj = None) = (lookup fs fj = None)) \<and>
    (rc = CCID_OK \<and> fget fs' = (fget fs)(fi \<mapsto> bs) \<or> rc \<noteq> CCID_OK \<and> fget fs' = (fget fs)(fi := None)) \<and>
    (\<forall>old. fget fs fi = Some old \<longrightarrow> length bs \<le> length old \<longrightarrow> rc = CCID_OK \<and> lookup fs' = lookup fs)"
proof (cases "lookup fs fi")
  case None
  then have "fget fs fi = None" by (simp add: fget_def)
  then show ?thesis using None assms by (simp add: write_file_def ccid_defs fun_upd_idem)
next
  case (Some r)
  from write_file_spec [OF assms(1) Some assms(2)] show ?thesis unfolding Some by (auto simp: ccid_defs)
qed

lemma delete_ref: "fs_inv fs \<Longrightarrow>
    \<exists>rc fs'. delete_file fs (lookup fs fi) = Some (rc, fs') \<and> fs_inv fs' \<and> fget fs' = (fget fs)(fi := None)"
  using remove_file_spec by (simp add: remove_file_def)

lemma file_new_spec:
  assumes "fs_inv fs"
  shows "\<exists>fs1. file_new fs fi = (lookup fs1 fi, fs1) \<and> fs_inv fs1 \<and> fget fs1 = fget fs \<and>
    (\<forall>fj. fj \<noteq> fi \<longrightarrow> lookup fs1 fj = lookup fs fj)"
proof (cases "lookup fs fi")
  case (Some r)
  then show ?thesis using file_new_existing [OF assms Some] assms by simp
next
  case None
  show ?thesis
  proof (cases "dynamic_files fs < 128")
    case True
    from file_new_fresh [OF assms None True] show ?thesis by simp
  next
    case False
    then have "dynamic_files fs = 128" using assms by (simp add: fs_inv_def)
    then have "file_new fs fi = (None, fs)"
      using None by (auto simp: file_new_def lookup_def MAX_DYNAMIC_FILES_def split: option.splits)
    then show ?thesis using None assms by simp
  qed
qed

end
