(* ===== verification/Management.thy ===== *)
theory Management
  imports Applet
begin

text \<open>
  The management application, \<^verbatim>\<open>src/fido/management.c\<close>: the device configuration file \<^verbatim>\<open>EF_DEV_CONF\<close>, the
  capability test \<^verbatim>\<open>cap_supported\<close> that every other application asks before it works, and the two commands
  that read and write the configuration.  The four characters of the board's serial number are the argument
  \<open>serial\<close>; \<open>rescan\<close> stands for \<^verbatim>\<open>scan_all\<close> and \<^verbatim>\<open>init_otp\<close> at selection.
\<close>

section \<open>Constants\<close>

definition TAG_USB_SUPPORTED :: u8 where "TAG_USB_SUPPORTED = 0x01"
definition TAG_SERIAL :: u8 where "TAG_SERIAL = 0x02"
definition TAG_USB_ENABLED :: u8 where "TAG_USB_ENABLED = 0x03"
definition TAG_FORM_FACTOR :: u8 where "TAG_FORM_FACTOR = 0x04"
definition TAG_VERSION :: u8 where "TAG_VERSION = 0x05"
definition TAG_DEVICE_FLAGS :: u8 where "TAG_DEVICE_FLAGS = 0x08"
definition TAG_CONFIG_LOCK :: u8 where "TAG_CONFIG_LOCK = 0x0A"
definition TAG_NFC_SUPPORTED :: u8 where "TAG_NFC_SUPPORTED = 0x0D"
definition TAG_NFC_ENABLED :: u8 where "TAG_NFC_ENABLED = 0x0E"
definition CAP_OTP :: u16 where "CAP_OTP = 0x01"
definition CAP_U2F :: u16 where "CAP_U2F = 0x02"
definition CAP_FIDO2 :: u16 where "CAP_FIDO2 = 0x200"
definition CAP_OATH :: u16 where "CAP_OATH = 0x20"
definition FLAG_EJECT :: u8 where "FLAG_EJECT = 0x80"
definition PICO_FIDO_VERSION_MAJOR :: u8 where "PICO_FIDO_VERSION_MAJOR = 5"
definition PICO_FIDO_VERSION_MINOR :: u8 where "PICO_FIDO_VERSION_MINOR = 8"

lemmas man_defs = TAG_USB_SUPPORTED_def TAG_SERIAL_def TAG_USB_ENABLED_def TAG_FORM_FACTOR_def TAG_VERSION_def
  TAG_DEVICE_FLAGS_def TAG_CONFIG_LOCK_def TAG_NFC_SUPPORTED_def TAG_NFC_ENABLED_def CAP_OTP_def CAP_U2F_def
  CAP_FIDO2_def CAP_OATH_def FLAG_EJECT_def PICO_FIDO_VERSION_MAJOR_def PICO_FIDO_VERSION_MINOR_def

section \<open>Capabilities\<close>

definition enabled_caps :: "bytes \<Rightarrow> span \<Rightarrow> u16 option" where
  "enabled_caps d s = do {
     b0 \<leftarrow> span_rd d s 0;
     if fst s = 2 then do {
       b1 \<leftarrow> span_rd d s 1;
       Some (make_uint16_t b0 b1)
     } else Some (ucast b0)
   }"

function cap_walk :: "bytes \<Rightarrow> nat \<Rightarrow> u16 \<Rightarrow> nat option \<Rightarrow> bool option" where
  "cap_walk d data_len cap p =
     (case walk_tlv d data_len p of
        None \<Rightarrow> None
      | Some None \<Rightarrow> Some True
      | Some (Some t) \<Rightarrow>
          if tlv_tag t = ucast TAG_USB_ENABLED then do {
            ecaps \<leftarrow> enabled_caps d (tlv_len t, tlv_data t);
            Some (ecaps AND cap \<noteq> 0)
          } else cap_walk d data_len cap (Some (tlv_next t)))"
  by pat_completeness auto
termination
  by (relation "measure (\<lambda>(d, n, cap, p). n - (case p of None \<Rightarrow> 0 | Some q \<Rightarrow> q))")
    (auto dest!: walk_tlv_progress)

declare cap_walk.simps [simp del]

definition cap_supported :: "fs \<Rightarrow> u16 \<Rightarrow> bool option" where
  "cap_supported fs cap = do {
     let ef = search_dynamic_file fs EF_DEV_CONF;
     h \<leftarrow> file_has_data fs ef;
     if h then do {
       d \<leftarrow> file_get_data fs ef;
       n \<leftarrow> file_get_size fs ef;
       case d of None \<Rightarrow> None | Some d \<Rightarrow> cap_walk d n cap None
     } else Some True
   }"

section \<open>Commands\<close>

definition man_select :: "(fs \<Rightarrow> fs) \<Rightarrow> fs \<Rightarrow> int \<times> bytes \<times> fs" where
  "man_select rescan fs =
     (CCID_OK, [0x30 + PICO_FIDO_VERSION_MAJOR, 0x2e, 0x30 + PICO_FIDO_VERSION_MINOR, 0x2e, 0x30], rescan fs)"

definition man_get_config :: "bytes \<Rightarrow> fs \<Rightarrow> bytes option" where
  "man_get_config serial fs = do {
     let ef = search_dynamic_file fs EF_DEV_CONF;
     res \<leftarrow> emit [] ([0, TAG_USB_SUPPORTED, 2, ucast (drop_bit 8 CAP_FIDO2), ucast (CAP_OTP OR CAP_U2F OR CAP_OATH),
       TAG_SERIAL, 4] @ serial @ [TAG_FORM_FACTOR, 1, 0x01,
       TAG_VERSION, 3, PICO_FIDO_VERSION_MAJOR, PICO_FIDO_VERSION_MINOR, 0, TAG_NFC_SUPPORTED, 1, 0x00]);
     h \<leftarrow> file_has_data fs ef;
     res \<leftarrow> (if \<not> h then
         emit res [TAG_USB_ENABLED, 2, ucast (drop_bit 8 CAP_FIDO2), ucast (CAP_OTP OR CAP_U2F OR CAP_OATH),
           TAG_DEVICE_FLAGS, 1, FLAG_EJECT, TAG_CONFIG_LOCK, 1, 0x00, TAG_NFC_ENABLED, 1, 0x00]
       else do {
         d \<leftarrow> file_get_data fs ef;
         case d of None \<Rightarrow> None | Some d \<Rightarrow> emit res d
       });
     Some (res[0 := of_nat (length res - 1)])
   }"

definition cmd_read_config :: "bytes \<Rightarrow> fs \<Rightarrow> fs reply" where
  "cmd_read_config serial fs = do {
     res \<leftarrow> man_get_config serial fs;
     ok res fs
   }"

text \<open>\<^verbatim>\<open>apdu.nc - 1\<close> wraps around for an empty command and is then no byte.\<close>

definition cmd_write_config :: "command \<Rightarrow> fs \<Rightarrow> fs reply" where
  "cmd_write_config c fs = do {
     d0 \<leftarrow> rd (cbuf c) 0;
     if cnc c = 0 \<or> unat d0 \<noteq> cnc c - 1 then err SW_WRONG_DATA fs
     else do {
       let (ef, fs) = file_new fs EF_DEV_CONF;
       d \<leftarrow> rd_slice (cbuf c) 1 (cnc c - 1);
       (_, fs) \<leftarrow> write_file fs ef d;
       ok [] fs
     }
   }"

definition man_process_apdu :: "bytes \<Rightarrow> command \<Rightarrow> fs \<Rightarrow> fs reply" where
  "man_process_apdu serial c fs =
     (if CLA c \<noteq> 0 then err SW_CLA_NOT_SUPPORTED fs
      else if INS c = 0x1D then cmd_read_config serial fs
      else if INS c = 0x1C then cmd_write_config c fs
      else err SW_INS_NOT_SUPPORTED fs)"

section \<open>Lemmas\<close>

lemma cap_walk_find:
  "cap_walk d n cap p =
     (case asn1_find_tag_from d n (ucast TAG_USB_ENABLED) p of
        None \<Rightarrow> None | Some None \<Rightarrow> Some True
      | Some (Some s) \<Rightarrow> map_option (\<lambda>e. e AND cap \<noteq> 0) (enabled_caps d s))"
proof (induction d n cap p rule: cap_walk.induct)
  case (1 d n cap p)
  show ?case
  proof (cases "walk_tlv d n p")
    case None
    then show ?thesis by (simp add: cap_walk.simps [of d n cap p] asn1_find_tag_from.simps [of d n _ p])
  next
    case (Some w)
    then show ?thesis
      using 1 by (cases w) (auto simp: cap_walk.simps [of d n cap p] asn1_find_tag_from.simps [of d n _ p]
          map_conv_bind_option comp_def split: option.splits)
  qed
qed

lemma dyn_dev_conf: "dyn_fid EF_DEV_CONF"
  by (simp add: dyn_fid_def file_table_def internal_ef_def fid_defs)

lemma cap_supported_spec:
  assumes "fs_inv fs"
  shows "cap_supported fs cap =
    (case fget fs EF_DEV_CONF of None \<Rightarrow> Some True | Some [] \<Rightarrow> Some True | Some d \<Rightarrow> cap_walk d (length d) cap None)"
proof (cases "has fs EF_DEV_CONF")
  case False
  then show ?thesis
    using dyn_has [OF assms dyn_dev_conf]
    by (auto simp: cap_supported_def Let_def has_def split: option.split list.split)
next
  case True
  then obtain r bs where r: "lookup fs EF_DEV_CONF = Some r" "fget fs EF_DEV_CONF = Some bs"
    using has_lookup by blast
  then show ?thesis
    using True dyn_has [OF assms dyn_dev_conf] dyn_lookup [OF assms dyn_dev_conf]
      file_get_data_lookup [OF assms r(1)] file_get_size_lookup [OF assms r(1)]
    by (auto simp: cap_supported_def Let_def has_def split: option.split list.split)
qed

lemma cap_walk_tlvs:
  assumes "list_all tlv_ok tvs" and "map_of tvs TAG_USB_ENABLED = Some [hi, lo]"
  shows "cap_walk (tlvs_bytes tvs) (length (tlvs_bytes tvs)) cap None = Some (make_uint16_t hi lo AND cap \<noteq> 0)"
proof -
  from find_tag_tlvs(2) [OF assms, of "[]"] obtain off where
    o: "find_tag (tlvs_bytes tvs) (length (tlvs_bytes tvs)) TAG_USB_ENABLED = Some (Some (2, off))"
    and v: "rd_slice (tlvs_bytes tvs) off 2 = Some [hi, lo]" by (auto simp: numeral_2_eq_2)
  have "enabled_caps (tlvs_bytes tvs) (2, off) = Some (make_uint16_t hi lo)"
    using rd_slice_rd [OF v, of 0] rd_slice_rd [OF v, of 1] by (simp add: enabled_caps_def span_rd_def)
  then show ?thesis using o by (simp add: cap_walk_find find_tag_def asn1_find_tag_def)
qed

text \<open>
  writing a configuration that enables the capabilities \<open>hi lo\<close> is answered with \<^verbatim>\<open>9000\<close>, and from then
  on \<^verbatim>\<open>cap_supported\<close> admits exactly these; but when the flash has no room for the file the answer is the
  same, no configuration is left and every capability is admitted.  No other file changes.
\<close>

theorem write_config_gates:
  assumes inv: "fs_inv fs" and tvs: "list_all tlv_ok tvs" "map_of tvs TAG_USB_ENABLED = Some [hi, lo]"
    and len: "length (tlvs_bytes tvs) < 256"
    and c: "CLA c = 0" "INS c = 0x1C" "cnc c = length (tlvs_bytes tvs) + 1"
      "take (cnc c) (cbuf c) = of_nat (length (tlvs_bytes tvs)) # tlvs_bytes tvs"
  shows "\<exists>fs'. man_process_apdu serial c fs = ok [] fs' \<and> fs_inv fs' \<and>
    (\<forall>fi. fi \<noteq> EF_DEV_CONF \<longrightarrow> fget fs' fi = fget fs fi) \<and>
    ((\<forall>cap. cap_supported fs' cap = Some (make_uint16_t hi lo AND cap \<noteq> 0)) \<or>
     fget fs' EF_DEV_CONF = None \<and> (\<forall>cap. cap_supported fs' cap = Some True))"
proof -
  let ?d = "tlvs_bytes tvs"
  have ne: "?d \<noteq> []" using tvs(2) by (cases tvs) (auto simp: tlvs_bytes_def)
  have nc: "cnc c \<le> length (cbuf c)" using c(3,4) by (metis length_Cons length_take min_def nat_le_linear Suc_eq_plus1 le_refl)
  have b0: "rd (cbuf c) 0 = Some (of_nat (length ?d))"
    using c(3,4) nc by (metis nth_Cons_0 nth_take rd_def add_gr_0 less_le_trans zero_less_one)
  have sl: "rd_slice (cbuf c) 1 (cnc c - 1) = Some ?d"
    using c(3,4) nc by (auto simp: rd_slice_def drop_take [symmetric] take_drop)
  obtain rc fs' where w: "store_file fs EF_DEV_CONF ?d = Some (rc, fs')" "fs_inv fs'"
    "fget fs' = (fget fs)(EF_DEV_CONF \<mapsto> ?d) \<or> fget fs' = (fget fs)(EF_DEV_CONF := None)"
    using store_file_spec [OF inv, of ?d EF_DEV_CONF] len by auto
  have "man_process_apdu serial c fs = ok [] fs'"
    using w(1) b0 sl c(1-3) len
    by (simp add: man_process_apdu_def cmd_write_config_def store_file_def unat_of_nat split: prod.splits)
  then show ?thesis
    using w(2,3) cap_supported_spec [OF w(2)] cap_walk_tlvs [OF tvs] ne
    by (cases ?d) (auto intro!: exI [of _ fs'])
qed

definition u2f_only :: "(u8 \<times> bytes) list" where "u2f_only = [(TAG_USB_ENABLED, [0, 2]), (TAG_CONFIG_LOCK, [0])]"

theorem write_config_gates_witness:
  "\<exists>fs'. man_process_apdu [0x45, 0x36, 0x30, 0]
        \<lparr>CLA = 0, INS = 0x1C, P1 = 0, P2 = 0, cbuf = [7, 3, 2, 0, 2, 10, 1, 0], cnc = 8, random_gen = (\<lambda>n. replicate n 0)\<rparr>
        empty_fs = ok [] fs' \<and> fs_inv fs' \<and>
    (\<forall>fi. fi \<noteq> EF_DEV_CONF \<longrightarrow> fget fs' fi = fget empty_fs fi) \<and>
    ((\<forall>cap. cap_supported fs' cap = Some (make_uint16_t 0 2 AND cap \<noteq> 0)) \<or>
     fget fs' EF_DEV_CONF = None \<and> (\<forall>cap. cap_supported fs' cap = Some True))"
  by (rule write_config_gates [OF empty_fs_inv, of u2f_only])
    (simp_all add: u2f_only_def man_defs tlvs_bytes_def tlv_bytes_def format_tlv_len_def tlv_ok_def)

end
