(* ===== verification/Oath.thy ===== *)
theory Oath
  imports Management
begin

text \<open>
  The OATH application, \<^verbatim>\<open>src/fido/oath.c\<close>: storage of HOTP and TOTP credentials in the files
  \<^verbatim>\<open>EF_OATH_CRED + i\<close>, the access code \<^verbatim>\<open>EF_OATH_CODE\<close> with its challenge and response, the PIN of the OTP
  commands with its retry counter, and the calculation of codes.  The state is the file layer and the two
  static variables of the file.  HMAC is the parameter \<open>md_hmac\<close> of \<open>Applet\<close>.
\<close>

section \<open>Constants and state\<close>

definition MAX_OATH_CRED :: nat where "MAX_OATH_CRED = 255"
definition CHALLENGE_LEN :: nat where "CHALLENGE_LEN = 8"
definition MAX_OTP_COUNTER :: u8 where "MAX_OTP_COUNTER = 3"
definition TAG_NAME :: u8 where "TAG_NAME = 0x71"
definition TAG_NAME_LIST :: u8 where "TAG_NAME_LIST = 0x72"
definition TAG_KEY :: u8 where "TAG_KEY = 0x73"
definition TAG_CHALLENGE :: u8 where "TAG_CHALLENGE = 0x74"
definition TAG_RESPONSE :: u8 where "TAG_RESPONSE = 0x75"
definition TAG_NO_RESPONSE :: u8 where "TAG_NO_RESPONSE = 0x77"
definition TAG_PROPERTY :: u8 where "TAG_PROPERTY = 0x78"
definition TAG_T_VERSION :: u8 where "TAG_T_VERSION = 0x79"
definition TAG_IMF :: u8 where "TAG_IMF = 0x7a"
definition TAG_ALGO :: u8 where "TAG_ALGO = 0x7b"
definition TAG_TOUCH_RESPONSE :: u8 where "TAG_TOUCH_RESPONSE = 0x7c"
definition TAG_PASSWORD :: u8 where "TAG_PASSWORD = 0x80"
definition TAG_NEW_PASSWORD :: u8 where "TAG_NEW_PASSWORD = 0x81"
definition TAG_PIN_COUNTER :: u8 where "TAG_PIN_COUNTER = 0x82"
definition ALG_HMAC_SHA1 :: u8 where "ALG_HMAC_SHA1 = 0x01"
definition ALG_HMAC_SHA256 :: u8 where "ALG_HMAC_SHA256 = 0x02"
definition ALG_HMAC_SHA512 :: u8 where "ALG_HMAC_SHA512 = 0x03"
definition ALG_MASK :: u8 where "ALG_MASK = 0x0f"
definition OATH_TYPE_HOTP :: u8 where "OATH_TYPE_HOTP = 0x10"
definition OATH_TYPE_MASK :: u8 where "OATH_TYPE_MASK = 0xf0"
definition PROP_TOUCH :: u8 where "PROP_TOUCH = 0x02"

lemmas oath_defs = TAG_NAME_def TAG_NAME_LIST_def TAG_KEY_def TAG_CHALLENGE_def TAG_RESPONSE_def TAG_NO_RESPONSE_def
  TAG_PROPERTY_def TAG_T_VERSION_def TAG_IMF_def TAG_ALGO_def TAG_TOUCH_RESPONSE_def TAG_PASSWORD_def
  TAG_NEW_PASSWORD_def TAG_PIN_COUNTER_def ALG_HMAC_SHA1_def ALG_HMAC_SHA256_def ALG_HMAC_SHA512_def ALG_MASK_def
  OATH_TYPE_HOTP_def OATH_TYPE_MASK_def PROP_TOUCH_def MAX_OTP_COUNTER_def CHALLENGE_LEN_def

record oath =
  ofs :: fs
  validated :: bool
  challenge :: bytes

text \<open>The state after a restart.\<close>

definition oath_boot :: "fs \<Rightarrow> oath" where
  "oath_boot fs = \<lparr>ofs = fs, validated = True, challenge = replicate 8 0\<rparr>"

text \<open>The files the loops over the credentials visit.\<close>

definition cred_slots :: "u16 list" where
  "cred_slots = map (\<lambda>i. EF_OATH_CRED + of_nat i) [0 ..< MAX_OATH_CRED]"

section \<open>Selection\<close>

definition oath_select :: "crypto \<Rightarrow> command \<Rightarrow> oath \<Rightarrow> (int \<times> bytes \<times> oath) option" where
  "oath_select cr c st = do {
     cap \<leftarrow> cap_supported (ofs st) CAP_OATH;
     if \<not> cap then Some (CCID_ERR_FILE_NOT_FOUND, [], st)
     else do {
       res \<leftarrow> emit [] ([TAG_T_VERSION, 3, PICO_FIDO_VERSION_MAJOR, PICO_FIDO_VERSION_MINOR, 0, TAG_NAME, 8] @
         unique_board_id cr);
       code \<leftarrow> file_has_data (ofs st) (search_dynamic_file (ofs st) EF_OATH_CODE);
       let st = (if code then st\<lparr>challenge := random_gen c CHALLENGE_LEN\<rparr> else st);
       res \<leftarrow> (if code then emit res ([TAG_CHALLENGE, of_nat CHALLENGE_LEN] @ challenge st) else Some res);
       let ef_otp_pin = search_ef (ofs st) EF_OTP_PIN;
       pin \<leftarrow> file_has_data (ofs st) ef_otp_pin;
       res \<leftarrow> (if pin then do {
           d \<leftarrow> file_bytes (ofs st) ef_otp_pin;
           d0 \<leftarrow> rd d 0;
           emit res [TAG_PIN_COUNTER, 1, d0]
         } else Some res);
       res \<leftarrow> emit res [TAG_ALGO, 1, ALG_HMAC_SHA1];
       Some (CCID_OK, res, st)
     }
   }"

section \<open>Credentials\<close>

text \<open>The name is compared with the file's only when the lengths agree.\<close>

fun find_cred_in :: "fs \<Rightarrow> u16 list \<Rightarrow> bytes \<Rightarrow> span \<Rightarrow> file_ref option option" where
  "find_cred_in fs [] b name = Some None"
| "find_cred_in fs (fi # fis) b name = do {
     let ef = search_dynamic_file fs fi;
     h \<leftarrow> file_has_data fs ef;
     if \<not> h then find_cred_in fs fis b name
     else do {
       d \<leftarrow> file_bytes fs ef;
       t \<leftarrow> find_tag d (length d) TAG_NAME;
       case t of
         None \<Rightarrow> find_cred_in fs fis b name
       | Some s \<Rightarrow>
           if fst s \<noteq> fst name then find_cred_in fs fis b name
           else do {
             x \<leftarrow> span_bytes d s;
             y \<leftarrow> span_bytes b name;
             if x = y then Some ef else find_cred_in fs fis b name
           }
     }
   }"

definition find_oath_cred :: "fs \<Rightarrow> bytes \<Rightarrow> span \<Rightarrow> file_ref option option" where
  "find_oath_cred fs b name = find_cred_in fs cred_slots b name"

text \<open>
  The moving factor of a HOTP credential: it is appended when it is missing, and widened to eight bytes
  in place when it is shorter, over whatever follows it in the buffer.
\<close>

definition put_imf :: "bytes \<Rightarrow> nat \<Rightarrow> (bytes \<times> nat) option" where
  "put_imf b n = do {
     imf \<leftarrow> find_tag b n TAG_IMF;
     case imf of
       None \<Rightarrow> do {
         b \<leftarrow> wr_slice b n [0x7a, 8, 0, 0, 0, 0, 0, 0, 0, 0];
         Some (b, n + 10)
       }
     | Some s \<Rightarrow>
         if fst s < 8 then do {
           v \<leftarrow> span_bytes b s;
           b \<leftarrow> wr_slice b (snd s + (8 - fst s)) v;
           b \<leftarrow> wr_slice b (snd s) (replicate (8 - fst s) 0);
           b \<leftarrow> wr_slice b (snd s - 1) [8];
           Some (b, n + (8 - fst s))
         } else Some (b, n)
   }"

text \<open>The first file without data takes the credential; \<open>Some None\<close> when there is none.\<close>

fun put_cred_in :: "fs \<Rightarrow> u16 list \<Rightarrow> bytes \<Rightarrow> fs option option" where
  "put_cred_in fs [] d = Some None"
| "put_cred_in fs (fi # fis) d = do {
     h \<leftarrow> file_has_data fs (search_dynamic_file fs fi);
     if \<not> h then do {
       let (ef, fs) = file_new fs fi;
       (_, fs) \<leftarrow> write_file fs ef d;
       Some (Some fs)
     } else put_cred_in fs fis d
   }"

definition cmd_put :: "command \<Rightarrow> oath \<Rightarrow> oath reply" where
  "cmd_put c st =
     (if \<not> validated st then err SW_SECURITY_STATUS_NOT_SATISFIED st
      else do {
        k \<leftarrow> find_tag (cbuf c) (cnc c) TAG_KEY;
        case k of None \<Rightarrow> err SW_INCORRECT_PARAMS st
        | Some key \<Rightarrow> do {
            n \<leftarrow> find_tag (cbuf c) (cnc c) TAG_NAME;
            case n of None \<Rightarrow> err SW_INCORRECT_PARAMS st
            | Some name \<Rightarrow> do {
                k0 \<leftarrow> span_rd (cbuf c) key 0;
                (b, nc) \<leftarrow> (if k0 AND OATH_TYPE_MASK = OATH_TYPE_HOTP then put_imf (cbuf c) (cnc c)
                   else Some (cbuf c, cnc c));
                ef \<leftarrow> find_oath_cred (ofs st) b name;
                h \<leftarrow> file_has_data (ofs st) ef;
                d \<leftarrow> rd_slice b 0 nc;
                if h then do {
                  (_, fs) \<leftarrow> write_file (ofs st) ef d;
                  ok [] (st\<lparr>ofs := fs\<rparr>)
                } else do {
                  r \<leftarrow> put_cred_in (ofs st) cred_slots d;
                  case r of None \<Rightarrow> err SW_FILE_FULL st | Some fs \<Rightarrow> ok [] (st\<lparr>ofs := fs\<rparr>)
                }
              }
          }
      })"

definition cmd_delete :: "command \<Rightarrow> oath \<Rightarrow> oath reply" where
  "cmd_delete c st =
     (if \<not> validated st then err SW_SECURITY_STATUS_NOT_SATISFIED st
      else do {
        n \<leftarrow> find_tag (cbuf c) (cnc c) TAG_NAME;
        case n of None \<Rightarrow> err SW_INCORRECT_PARAMS st
        | Some name \<Rightarrow> do {
            ef \<leftarrow> find_oath_cred (ofs st) (cbuf c) name;
            if ef \<noteq> None then do {
              (_, fs) \<leftarrow> delete_file (ofs st) ef;
              ok [] (st\<lparr>ofs := fs\<rparr>)
            } else err SW_DATA_INVALID st
          }
      })"

section \<open>The access code\<close>

definition get_oath_md_info :: "u8 \<Rightarrow> md option" where
  "get_oath_md_info alg =
     (if alg AND ALG_MASK = ALG_HMAC_SHA1 then Some MD_SHA1
      else if alg AND ALG_MASK = ALG_HMAC_SHA256 then Some MD_SHA256
      else if alg AND ALG_MASK = ALG_HMAC_SHA512 then Some MD_SHA512
      else None)"

text \<open>
  \<^verbatim>\<open>memcmp(hmac, resp, resp_len) != 0\<close>: what lies behind the HMAC in the 64 bytes of the buffer has no value.
\<close>

definition hmac_differs :: "bytes \<Rightarrow> bytes \<Rightarrow> bool option" where
  "hmac_differs hmac resp =
     (if take (length resp) hmac \<noteq> take (length hmac) resp then Some True
      else if length resp \<le> length hmac then Some False else None)"

definition delete_code :: "oath \<Rightarrow> oath reply" where
  "delete_code st = do {
     (_, fs) \<leftarrow> delete_file (ofs st) (search_dynamic_file (ofs st) EF_OATH_CODE);
     ok [] (st\<lparr>ofs := fs, validated := True\<rparr>)
   }"

definition store_code :: "crypto \<Rightarrow> command \<Rightarrow> span \<Rightarrow> span \<Rightarrow> span \<Rightarrow> oath \<Rightarrow> oath reply" where
  "store_code cr c key chal resp st = do {
     k0 \<leftarrow> span_rd (cbuf c) key 0;
     case get_oath_md_info k0 of None \<Rightarrow> err SW_INCORRECT_PARAMS st
     | Some md_info \<Rightarrow> do {
         k \<leftarrow> span_from (cbuf c) key 1;
         x \<leftarrow> span_bytes (cbuf c) chal;
         case md_hmac cr md_info k x of None \<Rightarrow> err SW_EXEC_ERROR st
         | Some hmac \<Rightarrow> do {
             r \<leftarrow> span_bytes (cbuf c) resp;
             differs \<leftarrow> hmac_differs hmac r;
             if differs then err SW_DATA_INVALID st
             else do {
               let (ef, fs) = file_new (ofs st) EF_OATH_CODE;
               d \<leftarrow> span_bytes (cbuf c) key;
               (_, fs) \<leftarrow> write_file fs ef d;
               ok [] (st\<lparr>ofs := fs, validated := False, challenge := random_gen c CHALLENGE_LEN\<rparr>)
             }
           }
       }
   }"

definition cmd_set_code :: "crypto \<Rightarrow> command \<Rightarrow> oath \<Rightarrow> oath reply" where
  "cmd_set_code cr c st =
     (if \<not> validated st then err SW_SECURITY_STATUS_NOT_SATISFIED st
      else if cnc c = 0 then delete_code st
      else do {
        k \<leftarrow> find_tag (cbuf c) (cnc c) TAG_KEY;
        case k of None \<Rightarrow> err SW_INCORRECT_PARAMS st
        | Some key \<Rightarrow>
            if fst key = 0 then delete_code st
            else do {
              x \<leftarrow> find_tag (cbuf c) (cnc c) TAG_CHALLENGE;
              case x of None \<Rightarrow> err SW_INCORRECT_PARAMS st
              | Some chal \<Rightarrow> do {
                  r \<leftarrow> find_tag (cbuf c) (cnc c) TAG_RESPONSE;
                  case r of None \<Rightarrow> err SW_INCORRECT_PARAMS st
                  | Some resp \<Rightarrow> store_code cr c key chal resp st
                }
            }
      })"

definition validate_with :: "crypto \<Rightarrow> command \<Rightarrow> bytes \<Rightarrow> span \<Rightarrow> span \<Rightarrow> oath \<Rightarrow> oath reply" where
  "validate_with cr c key chal resp st = do {
     k0 \<leftarrow> rd key 0;
     case get_oath_md_info k0 of None \<Rightarrow> err SW_INCORRECT_PARAMS st
     | Some md_info \<Rightarrow>
         (case md_hmac cr md_info (drop 1 key) (challenge st) of None \<Rightarrow> err SW_EXEC_ERROR st
          | Some hmac \<Rightarrow> do {
              r \<leftarrow> span_bytes (cbuf c) resp;
              differs \<leftarrow> hmac_differs hmac r;
              if differs then err SW_DATA_INVALID st
              else do {
                x \<leftarrow> span_bytes (cbuf c) chal;
                case md_hmac cr md_info (drop 1 key) x of None \<Rightarrow> err SW_EXEC_ERROR st
                | Some hmac \<Rightarrow> do {
                    res \<leftarrow> emit [] ([TAG_RESPONSE, of_nat (md_get_size md_info)] @ hmac);
                    ok res (st\<lparr>validated := True\<rparr>)
                  }
              }
            })
   }"

definition cmd_validate :: "crypto \<Rightarrow> command \<Rightarrow> oath \<Rightarrow> oath reply" where
  "cmd_validate cr c st = do {
     x \<leftarrow> find_tag (cbuf c) (cnc c) TAG_CHALLENGE;
     case x of None \<Rightarrow> err SW_INCORRECT_PARAMS st
     | Some chal \<Rightarrow> do {
         r \<leftarrow> find_tag (cbuf c) (cnc c) TAG_RESPONSE;
         case r of None \<Rightarrow> err SW_INCORRECT_PARAMS st
         | Some resp \<Rightarrow> do {
             let ef = search_dynamic_file (ofs st) EF_OATH_CODE;
             h \<leftarrow> file_has_data (ofs st) ef;
             if \<not> h then err SW_DATA_INVALID (st\<lparr>validated := True\<rparr>)
             else do {
               key \<leftarrow> file_bytes (ofs st) ef;
               validate_with cr c key chal resp st
             }
           }
       }
   }"

section \<open>Reset and list\<close>

fun delete_creds_in :: "fs \<Rightarrow> u16 list \<Rightarrow> fs option" where
  "delete_creds_in fs [] = Some fs"
| "delete_creds_in fs (fi # fis) = do {
     let ef = search_dynamic_file fs fi;
     h \<leftarrow> file_has_data fs ef;
     fs \<leftarrow> (if h then map_option snd (delete_file fs ef) else Some fs);
     delete_creds_in fs fis
   }"

definition cmd_reset :: "command \<Rightarrow> oath \<Rightarrow> oath reply" where
  "cmd_reset c st =
     (if P1 c \<noteq> 0xde \<or> P2 c \<noteq> 0xad then err SW_INCORRECT_P1P2 st
      else do {
        fs \<leftarrow> delete_creds_in (ofs st) cred_slots;
        (_, fs) \<leftarrow> delete_file fs (search_dynamic_file fs EF_OATH_CODE);
        fs \<leftarrow> clear_file fs (search_ef fs EF_OTP_PIN);
        ok [] (st\<lparr>ofs := fs, validated := True\<rparr>)
      })"

fun list_creds_in :: "fs \<Rightarrow> u16 list \<Rightarrow> bytes \<Rightarrow> bytes option" where
  "list_creds_in fs [] res = Some res"
| "list_creds_in fs (fi # fis) res = do {
     let ef = search_dynamic_file fs fi;
     h \<leftarrow> file_has_data fs ef;
     if \<not> h then list_creds_in fs fis res
     else do {
       d \<leftarrow> file_bytes fs ef;
       n \<leftarrow> find_tag d (length d) TAG_NAME;
       case n of None \<Rightarrow> list_creds_in fs fis res
       | Some name \<Rightarrow> do {
           k \<leftarrow> find_tag d (length d) TAG_KEY;
           case k of None \<Rightarrow> list_creds_in fs fis res
           | Some key \<Rightarrow> do {
               k0 \<leftarrow> span_rd d key 0;
               x \<leftarrow> span_bytes d name;
               res \<leftarrow> emit res ([TAG_NAME_LIST, of_nat (fst name + 1), k0] @ x);
               list_creds_in fs fis res
             }
         }
     }
   }"

definition cmd_list :: "oath \<Rightarrow> oath reply" where
  "cmd_list st =
     (if \<not> validated st then err SW_SECURITY_STATUS_NOT_SATISFIED st
      else do {
        res \<leftarrow> list_creds_in (ofs st) cred_slots [];
        ok res st
      })"

section \<open>Codes\<close>

text \<open>
  \<^verbatim>\<open>calculate_oath\<close> appends to the response \<open>res\<close>.  For an unknown algorithm it calls
  \<^verbatim>\<open>SW_INCORRECT_PARAMS\<close>, which empties the response.
\<close>

definition calculate_oath :: "crypto \<Rightarrow> u8 \<Rightarrow> bytes \<Rightarrow> span \<Rightarrow> bytes \<Rightarrow> span \<Rightarrow> bytes \<Rightarrow> (int \<times> bytes) option" where
  "calculate_oath cr trunc kb key cb chal res = do {
     k0 \<leftarrow> span_rd kb key 0;
     case get_oath_md_info k0 of None \<Rightarrow> Some (uint SW_INCORRECT_PARAMS, [])
     | Some md_info \<Rightarrow> do {
         k \<leftarrow> span_from kb key 2;
         x \<leftarrow> span_bytes cb chal;
         case md_hmac cr md_info k x of None \<Rightarrow> Some (CCID_EXEC_ERROR, res)
         | Some hmac \<Rightarrow> do {
             k1 \<leftarrow> span_rd kb key 1;
             if trunc = 0x01 then do {
               l \<leftarrow> rd hmac (md_get_size md_info - 1);
               let off = unat (l AND 0x0f);
               h0 \<leftarrow> rd hmac off;
               h1 \<leftarrow> rd hmac (off + 1);
               h2 \<leftarrow> rd hmac (off + 2);
               h3 \<leftarrow> rd hmac (off + 3);
               res \<leftarrow> emit res [4 + 1, k1, h0 AND 0x7f, h1, h2, h3];
               Some (CCID_OK, res)
             } else do {
               res \<leftarrow> emit res ([of_nat (md_get_size md_info + 1), k1] @ hmac);
               Some (CCID_OK, res)
             }
           }
       }
   }"

text \<open>The moving factor as a 64-bit number, and back.\<close>

fun be64_val :: "bytes \<Rightarrow> u64 \<Rightarrow> u64" where
  "be64_val [] v = v"
| "be64_val (b # bs) v = be64_val bs (push_bit 8 v OR ucast b)"

definition be64_bytes :: "u64 \<Rightarrow> bytes" where
  "be64_bytes v = [ucast (drop_bit 56 v), ucast (drop_bit 48 v), ucast (drop_bit 40 v), ucast (drop_bit 32 v),
     ucast (drop_bit 24 v), ucast (drop_bit 16 v), ucast (drop_bit 8 v), ucast v]"

text \<open>The credential is written back with the next moving factor.\<close>

definition bump_counter :: "fs \<Rightarrow> file_ref option \<Rightarrow> bytes \<Rightarrow> span \<Rightarrow> fs option" where
  "bump_counter fs ef d chal = do {
     x \<leftarrow> rd_slice d (snd chal) 8;
     let v = be64_val x 0 + 1;
     s \<leftarrow> find_tag d (length d) TAG_IMF;
     s \<leftarrow> s;
     tmp \<leftarrow> wr_slice d (snd s) (be64_bytes v);
     (_, fs) \<leftarrow> write_file fs ef tmp;
     Some fs
   }"

text \<open>The part of \<^verbatim>\<open>cmd_calculate\<close> behind the parameters: the credential \<open>ef\<close> with the bytes \<open>d\<close>.\<close>

definition calculate_cred :: "crypto \<Rightarrow> command \<Rightarrow> file_ref option \<Rightarrow> bytes \<Rightarrow> span \<Rightarrow> oath \<Rightarrow> oath reply" where
  "calculate_cred cr c ef d chal st = do {
     k \<leftarrow> find_tag d (length d) TAG_KEY;
     case k of None \<Rightarrow> err SW_INCORRECT_PARAMS st
     | Some key \<Rightarrow> do {
         k0 \<leftarrow> span_rd d key 0;
         x \<leftarrow> (if k0 AND OATH_TYPE_MASK = OATH_TYPE_HOTP then do {
             s \<leftarrow> find_tag d (length d) TAG_IMF;
             Some (map_option (Pair d) s)
           } else Some (Some (cbuf c, chal)));
         case x of None \<Rightarrow> err SW_INCORRECT_PARAMS st
         | Some (cb, chal) \<Rightarrow> do {
             res \<leftarrow> emit [] [TAG_RESPONSE + P2 c];
             (ret, res) \<leftarrow> calculate_oath cr (P2 c) d key cb chal res;
             if ret \<noteq> CCID_OK then err SW_EXEC_ERROR st
             else if k0 AND OATH_TYPE_MASK = OATH_TYPE_HOTP then do {
               fs \<leftarrow> bump_counter (ofs st) ef d chal;
               ok res (st\<lparr>ofs := fs\<rparr>)
             } else ok res st
           }
       }
   }"

definition cmd_calculate :: "crypto \<Rightarrow> command \<Rightarrow> oath \<Rightarrow> oath reply" where
  "cmd_calculate cr c st =
     (if P2 c \<noteq> 0x0 \<and> P2 c \<noteq> 0x1 then err SW_INCORRECT_P1P2 st
      else if \<not> validated st then err SW_SECURITY_STATUS_NOT_SATISFIED st
      else do {
        x \<leftarrow> find_tag (cbuf c) (cnc c) TAG_CHALLENGE;
        case x of None \<Rightarrow> err SW_INCORRECT_PARAMS st
        | Some chal \<Rightarrow> do {
            n \<leftarrow> find_tag (cbuf c) (cnc c) TAG_NAME;
            case n of None \<Rightarrow> err SW_INCORRECT_PARAMS st
            | Some name \<Rightarrow> do {
                ef \<leftarrow> find_oath_cred (ofs st) (cbuf c) name;
                h \<leftarrow> file_has_data (ofs st) ef;
                if \<not> h then err SW_DATA_INVALID st
                else do {
                  d \<leftarrow> file_bytes (ofs st) ef;
                  calculate_cred cr c ef d chal st
                }
              }
          }
      })"

text \<open>One credential of CALCULATE ALL.\<close>

definition calculate_one :: "crypto \<Rightarrow> command \<Rightarrow> span \<Rightarrow> bytes \<Rightarrow> bytes \<Rightarrow> bytes option" where
  "calculate_one cr c chal d res = do {
     n \<leftarrow> find_tag d (length d) TAG_NAME;
     case n of None \<Rightarrow> Some res
     | Some name \<Rightarrow> do {
         k \<leftarrow> find_tag d (length d) TAG_KEY;
         case k of None \<Rightarrow> Some res
         | Some key \<Rightarrow> do {
             x \<leftarrow> span_bytes d name;
             res \<leftarrow> emit res ([TAG_NAME, of_nat (fst name)] @ x);
             k0 \<leftarrow> span_rd d key 0;
             if k0 AND OATH_TYPE_MASK = OATH_TYPE_HOTP then do {
               k1 \<leftarrow> span_rd d key 1;
               emit res [TAG_NO_RESPONSE, 1, k1]
             } else do {
               pr \<leftarrow> find_tag d (length d) TAG_PROPERTY;
               touch \<leftarrow> (case pr of None \<Rightarrow> Some False
                 | Some s \<Rightarrow> map_option (\<lambda>p0. p0 AND PROP_TOUCH \<noteq> 0) (span_rd d s 0));
               if touch then do {
                 k1 \<leftarrow> span_rd d key 1;
                 emit res [TAG_TOUCH_RESPONSE, 1, k1]
               } else do {
                 res \<leftarrow> emit res [TAG_RESPONSE + P2 c];
                 (ret, res) \<leftarrow> calculate_oath cr (P2 c) d key (cbuf c) chal res;
                 if ret \<noteq> CCID_OK then do {
                   k1 \<leftarrow> span_rd d key 1;
                   emit res [1, k1]
                 } else Some res
               }
             }
           }
       }
   }"

fun calculate_in :: "crypto \<Rightarrow> command \<Rightarrow> span \<Rightarrow> fs \<Rightarrow> u16 list \<Rightarrow> bytes \<Rightarrow> bytes option" where
  "calculate_in cr c chal fs [] res = Some res"
| "calculate_in cr c chal fs (fi # fis) res = do {
     let ef = search_dynamic_file fs fi;
     h \<leftarrow> file_has_data fs ef;
     res \<leftarrow> (if h then do {
         d \<leftarrow> file_bytes fs ef;
         calculate_one cr c chal d res
       } else Some res);
     calculate_in cr c chal fs fis res
   }"

definition cmd_calculate_all :: "crypto \<Rightarrow> command \<Rightarrow> oath \<Rightarrow> oath reply" where
  "cmd_calculate_all cr c st =
     (if P2 c \<noteq> 0x0 \<and> P2 c \<noteq> 0x1 then err SW_INCORRECT_P1P2 st
      else if \<not> validated st then err SW_SECURITY_STATUS_NOT_SATISFIED st
      else do {
        x \<leftarrow> find_tag (cbuf c) (cnc c) TAG_CHALLENGE;
        case x of None \<Rightarrow> err SW_INCORRECT_PARAMS st
        | Some chal \<Rightarrow> do {
            res \<leftarrow> calculate_in cr c chal (ofs st) cred_slots [];
            ok res st
          }
      })"

definition cmd_send_remaining :: "oath \<Rightarrow> oath reply" where
  "cmd_send_remaining st = ok [] st"

section \<open>The PIN of the OTP commands\<close>

definition pin_password :: "crypto \<Rightarrow> command \<Rightarrow> span \<Rightarrow> bytes option" where
  "pin_password cr c pw = do {
     p \<leftarrow> span_bytes (cbuf c) pw;
     double_hash_pin cr p
   }"

definition cmd_set_otp_pin :: "crypto \<Rightarrow> command \<Rightarrow> oath \<Rightarrow> oath reply" where
  "cmd_set_otp_pin cr c st = do {
     let ef_otp_pin = search_ef (ofs st) EF_OTP_PIN;
     h \<leftarrow> file_has_data (ofs st) ef_otp_pin;
     if h then err SW_CONDITIONS_NOT_SATISFIED st
     else do {
       p \<leftarrow> find_tag (cbuf c) (cnc c) TAG_PASSWORD;
       case p of None \<Rightarrow> err SW_INCORRECT_PARAMS st
       | Some pw \<Rightarrow> do {
           hsh \<leftarrow> pin_password cr c pw;
           (_, fs) \<leftarrow> write_file (ofs st) ef_otp_pin (MAX_OTP_COUNTER # hsh);
           ok [] (st\<lparr>ofs := fs\<rparr>)
         }
     }
   }"

definition cmd_change_otp_pin :: "crypto \<Rightarrow> command \<Rightarrow> oath \<Rightarrow> oath reply" where
  "cmd_change_otp_pin cr c st = do {
     let ef_otp_pin = search_ef (ofs st) EF_OTP_PIN;
     h \<leftarrow> file_has_data (ofs st) ef_otp_pin;
     if \<not> h then err SW_CONDITIONS_NOT_SATISFIED st
     else do {
       p \<leftarrow> find_tag (cbuf c) (cnc c) TAG_PASSWORD;
       case p of None \<Rightarrow> err SW_INCORRECT_PARAMS st
       | Some pw \<Rightarrow> do {
           hsh \<leftarrow> pin_password cr c pw;
           d \<leftarrow> file_bytes (ofs st) ef_otp_pin;
           old \<leftarrow> rd_slice d 1 32;
           if old \<noteq> hsh then err SW_SECURITY_STATUS_NOT_SATISFIED st
           else do {
             q \<leftarrow> find_tag (cbuf c) (cnc c) TAG_NEW_PASSWORD;
             case q of None \<Rightarrow> err SW_INCORRECT_PARAMS st
             | Some new_pw \<Rightarrow> do {
                 hsh \<leftarrow> pin_password cr c new_pw;
                 (_, fs) \<leftarrow> write_file (ofs st) ef_otp_pin (MAX_OTP_COUNTER # hsh);
                 ok [] (st\<lparr>ofs := fs\<rparr>)
               }
           }
         }
     }
   }"

definition cmd_verify_otp_pin :: "crypto \<Rightarrow> command \<Rightarrow> oath \<Rightarrow> oath reply" where
  "cmd_verify_otp_pin cr c st = do {
     let ef_otp_pin = search_ef (ofs st) EF_OTP_PIN;
     h \<leftarrow> file_has_data (ofs st) ef_otp_pin;
     if \<not> h then err SW_CONDITIONS_NOT_SATISFIED st
     else do {
       p \<leftarrow> find_tag (cbuf c) (cnc c) TAG_PASSWORD;
       case p of None \<Rightarrow> err SW_INCORRECT_PARAMS st
       | Some pw \<Rightarrow> do {
           hsh \<leftarrow> pin_password cr c pw;
           d \<leftarrow> file_bytes (ofs st) ef_otp_pin;
           data_hsh \<leftarrow> rd_slice d 0 33;
           if data_hsh ! 0 = 0 \<or> drop 1 data_hsh \<noteq> hsh then do {
             let data_hsh = (if data_hsh ! 0 > 0 then data_hsh[0 := data_hsh ! 0 - 1] else data_hsh);
             (_, fs) \<leftarrow> write_file (ofs st) ef_otp_pin data_hsh;
             err SW_SECURITY_STATUS_NOT_SATISFIED (st\<lparr>ofs := fs, validated := False\<rparr>)
           } else do {
             (_, fs) \<leftarrow> write_file (ofs st) ef_otp_pin (data_hsh[0 := MAX_OTP_COUNTER]);
             ok [] (st\<lparr>ofs := fs, validated := True\<rparr>)
           }
         }
     }
   }"

section \<open>Verification of a code\<close>

definition be32_val :: "u8 \<Rightarrow> u8 \<Rightarrow> u8 \<Rightarrow> u8 \<Rightarrow> u32" where
  "be32_val b0 b1 b2 b3 = push_bit 24 (ucast b0) OR push_bit 16 (ucast b1) OR push_bit 8 (ucast b2) OR ucast b3"

definition verify_code :: "crypto \<Rightarrow> command \<Rightarrow> bytes \<Rightarrow> oath \<Rightarrow> oath reply" where
  "verify_code cr c d st = do {
     k \<leftarrow> find_tag d (length d) TAG_KEY;
     case k of None \<Rightarrow> err SW_INCORRECT_PARAMS st
     | Some key \<Rightarrow> do {
         k0 \<leftarrow> span_rd d key 0;
         if k0 AND OATH_TYPE_MASK \<noteq> OATH_TYPE_HOTP then err SW_DATA_INVALID st
         else do {
           s \<leftarrow> find_tag d (length d) TAG_IMF;
           case s of None \<Rightarrow> err SW_INCORRECT_PARAMS st
           | Some chal \<Rightarrow> do {
               r \<leftarrow> find_tag (cbuf c) (cnc c) TAG_RESPONSE;
               code_int \<leftarrow> (case r of None \<Rightarrow> Some 0
                 | Some code \<Rightarrow> do {
                     c0 \<leftarrow> span_rd (cbuf c) code 0;
                     c1 \<leftarrow> span_rd (cbuf c) code 1;
                     c2 \<leftarrow> span_rd (cbuf c) code 2;
                     c3 \<leftarrow> span_rd (cbuf c) code 3;
                     Some (be32_val c0 c1 c2 c3)
                   });
               (ret, res) \<leftarrow> calculate_oath cr 0x01 d key d chal [];
               if ret \<noteq> CCID_OK then err SW_EXEC_ERROR st
               else do {
                 digits \<leftarrow> rd res 1;
                 let res_int = be32_val (res ! 2) (res ! 3) (res ! 4) (res ! 5);
                 let res_int = (if digits = 6 then res_int mod 1000000 else res_int mod 100000000);
                 if res_int \<noteq> code_int then err SW_WRONG_DATA st else ok [] st
               }
             }
         }
       }
   }"

definition cmd_verify_hotp :: "crypto \<Rightarrow> command \<Rightarrow> oath \<Rightarrow> oath reply" where
  "cmd_verify_hotp cr c st = do {
     n \<leftarrow> find_tag (cbuf c) (cnc c) TAG_NAME;
     case n of None \<Rightarrow> err SW_INCORRECT_PARAMS st
     | Some name \<Rightarrow> do {
         ef \<leftarrow> find_oath_cred (ofs st) (cbuf c) name;
         h \<leftarrow> file_has_data (ofs st) ef;
         if \<not> h then err SW_DATA_INVALID st
         else do {
           d \<leftarrow> file_bytes (ofs st) ef;
           verify_code cr c d st
         }
       }
   }"

section \<open>Dispatch\<close>

definition oath_cmd :: "crypto \<Rightarrow> command \<Rightarrow> oath \<Rightarrow> oath reply" where
  "oath_cmd cr c st =
     (if INS c = 0x01 then cmd_put c st
      else if INS c = 0x02 then cmd_delete c st
      else if INS c = 0x03 then cmd_set_code cr c st
      else if INS c = 0x04 then cmd_reset c st
      else if INS c = 0xa1 then cmd_list st
      else if INS c = 0xa3 then cmd_validate cr c st
      else if INS c = 0xa2 then cmd_calculate cr c st
      else if INS c = 0xa4 then cmd_calculate_all cr c st
      else if INS c = 0xa5 then cmd_send_remaining st
      else if INS c = 0xb4 then cmd_set_otp_pin cr c st
      else if INS c = 0xb3 then cmd_change_otp_pin cr c st
      else if INS c = 0xb2 then cmd_verify_otp_pin cr c st
      else if INS c = 0xb1 then cmd_verify_hotp cr c st
      else err SW_INS_NOT_SUPPORTED st)"

definition oath_process_apdu :: "crypto \<Rightarrow> command \<Rightarrow> oath \<Rightarrow> oath reply" where
  "oath_process_apdu cr c st =
     (if CLA c \<noteq> 0x00 then err SW_CLA_NOT_SUPPORTED st
      else do {
        cap \<leftarrow> cap_supported (ofs st) CAP_OATH;
        if cap then oath_cmd cr c st else err SW_INS_NOT_SUPPORTED st
      })"

end
