(* ===== verification/OathPin.thy ===== *)
theory OathPin
  imports Oath
begin

text \<open>
  What the OATH application promises about its two secrets: the retry counter of the PIN over any sequence
  of VERIFY PIN, the unlimited CHANGE PIN, the access code with VALIDATE, SET CODE and a restart, and RESET.
\<close>

section \<open>The PIN and its retry counter\<close>

text \<open>The files of the application: the PIN is in the static table, the others are dynamic.\<close>

lemma pin_ref: "fs_inv fs \<Longrightarrow> search_ef fs EF_OTP_PIN = Some (Static 11)"
  by (simp add: search_ef_table file_table_def internal_ef_def fid_defs FILE_TYPE_INTERNAL_EF_def FILE_DATA_FLASH_def)

lemma pin_lookup: "fs_inv fs \<Longrightarrow> lookup fs EF_OTP_PIN = Some (Static 11)"
  by (simp add: lookup_def pin_ref)

lemma dyn_code: "dyn_fid EF_OATH_CODE"
  by (simp add: dyn_fid_def file_table_def internal_ef_def fid_defs)

text \<open>The value of an object of the command.\<close>

definition object :: "command \<Rightarrow> u8 \<Rightarrow> bytes \<Rightarrow> bool" where
  "object c t v \<longleftrightarrow> (\<exists>off. find_tag (cbuf c) (cnc c) t = Some (Some (length v, off)) \<and>
     rd_slice (cbuf c) off (length v) = Some v)"

lemma object_tlvs:
  assumes "list_all tlv_ok tvs" and "map_of tvs t = Some v" and "cbuf c = tlvs_bytes tvs @ post"
    and "cnc c = length (tlvs_bytes tvs)"
  shows "object c t v"
  using find_tag_tlvs(2) [OF assms(1,2), of post] assms(3,4) by (simp add: object_def)

text \<open>The PIN file: the counter and the hash.\<close>

definition otp_pin :: "oath \<Rightarrow> u8 \<Rightarrow> bytes \<Rightarrow> bool" where
  "otp_pin st n h \<longleftrightarrow> fs_inv (ofs st) \<and> fget (ofs st) EF_OTP_PIN = Some (n # h) \<and> length h = 32"

lemma write_pin:
  assumes "otp_pin st n h" and "length h' = 32"
  shows "\<exists>fs'. write_file (ofs st) (Some (Static 11)) (n' # h') = Some (CCID_OK, fs') \<and> fs_inv fs' \<and>
    fget fs' = (fget (ofs st))(EF_OTP_PIN \<mapsto> n' # h')"
proof -
  have i: "fs_inv (ofs st)" and g: "fget (ofs st) EF_OTP_PIN = Some (n # h)" and l: "length h = 32"
    using assms(1) by (auto simp: otp_pin_def)
  have "length (n' # h') \<le> length (n # h)" "length (n' # h') \<le> 4096" using assms(2) l by simp_all
  from rewrite_file [OF i pin_lookup [OF i] g this] show ?thesis by blast
qed

lemma verify_pin_spec:
  assumes pin: "otp_pin st n h" and pw: "object c TAG_PASSWORD p" "double_hash_pin cr p = Some hp"
  shows "\<exists>fs'. fs_inv fs' \<and>
    cmd_verify_otp_pin cr c st =
      (if n \<noteq> 0 \<and> hp = h then ok [] (st\<lparr>ofs := fs', validated := True\<rparr>)
       else err SW_SECURITY_STATUS_NOT_SATISFIED (st\<lparr>ofs := fs', validated := False\<rparr>)) \<and>
    fget fs' = (fget (ofs st))(EF_OTP_PIN \<mapsto> (if n \<noteq> 0 \<and> hp = h then 3 else if n = 0 then 0 else n - 1) # h)"
proof -
  have i: "fs_inv (ofs st)" and g: "fget (ofs st) EF_OTP_PIN = Some (n # h)" and l: "length h = 32"
    using pin by (auto simp: otp_pin_def)
  obtain off where t: "find_tag (cbuf c) (cnc c) TAG_PASSWORD = Some (Some (length p, off))"
    "rd_slice (cbuf c) off (length p) = Some p" using pw(1) by (auto simp: object_def)
  have b: "file_has_data (ofs st) (Some (Static 11)) = Some True" "file_bytes (ofs st) (Some (Static 11)) = Some (n # h)"
    using g file_has_data_lookup [OF i pin_lookup [OF i]] file_bytes_lookup [OF i pin_lookup [OF i]]
    by (auto simp: has_def)
  have s: "rd_slice (n # h) 0 33 = Some (n # h)" using l by (simp add: rd_slice_def)
  have nz: "0 < n \<longleftrightarrow> n \<noteq> 0" by (simp add: word_gt_0)
  define m where "m = (if n \<noteq> 0 \<and> hp = h then 3 else if n = 0 then 0 else n - 1)"
  obtain fs' where w: "write_file (ofs st) (Some (Static 11)) (m # h) = Some (CCID_OK, fs')" "fs_inv fs'"
    "fget fs' = (fget (ofs st))(EF_OTP_PIN \<mapsto> m # h)" using write_pin [OF pin l] by blast
  have "cmd_verify_otp_pin cr c st =
      (if n \<noteq> 0 \<and> hp = h then ok [] (st\<lparr>ofs := fs', validated := True\<rparr>)
       else err SW_SECURITY_STATUS_NOT_SATISFIED (st\<lparr>ofs := fs', validated := False\<rparr>))"
    using w(1) t b s pw(2) nz
    by (auto simp: cmd_verify_otp_pin_def pin_ref [OF i] pin_password_def span_bytes_def m_def MAX_OTP_COUNTER_def
        split: if_splits)
  then show ?thesis using w unfolding m_def by blast
qed

text \<open>A sequence of VERIFY PIN commands, with their status words.\<close>

fun verify_run :: "crypto \<Rightarrow> command list \<Rightarrow> oath \<Rightarrow> (u16 list \<times> oath) option" where
  "verify_run cr [] st = Some ([], st)"
| "verify_run cr (c # cs) st = do {
     (w, _, st) \<leftarrow> cmd_verify_otp_pin cr c st;
     (ws, st) \<leftarrow> verify_run cr cs st;
     Some (w # ws, st)
   }"

definition wrong_pin :: "crypto \<Rightarrow> bytes \<Rightarrow> command \<Rightarrow> bool" where
  "wrong_pin cr h c \<longleftrightarrow> (\<exists>p hp. object c TAG_PASSWORD p \<and> double_hash_pin cr p = Some hp \<and> hp \<noteq> h)"

lemma wrong_pins:
  assumes "otp_pin st n h" and "\<forall>c \<in> set cs. wrong_pin cr h c"
  shows "\<exists>st'. verify_run cr cs st = Some (replicate (length cs) SW_SECURITY_STATUS_NOT_SATISFIED, st') \<and>
    otp_pin st' (of_nat (unat n - length cs)) h \<and> (cs \<noteq> [] \<or> \<not> validated st \<longrightarrow> \<not> validated st')"
  using assms
proof (induction cs arbitrary: st n)
  case Nil
  then show ?case by simp
next
  case (Cons c cs)
  obtain p hp where p: "object c TAG_PASSWORD p" "double_hash_pin cr p = Some hp" "hp \<noteq> h"
    using Cons.prems(2) by (auto simp: wrong_pin_def)
  let ?m = "if n = 0 then 0 else n - 1"
  obtain fs' where v: "cmd_verify_otp_pin cr c st =
      err SW_SECURITY_STATUS_NOT_SATISFIED (st\<lparr>ofs := fs', validated := False\<rparr>)"
    "fs_inv fs'" "fget fs' = (fget (ofs st))(EF_OTP_PIN \<mapsto> ?m # h)"
    using verify_pin_spec [OF Cons.prems(1) p(1,2)] p(3) by auto
  then have "otp_pin (st\<lparr>ofs := fs', validated := False\<rparr>) ?m h"
    using Cons.prems(1) by (simp add: otp_pin_def)
  moreover have "unat ?m = unat n - 1" by (auto simp: unat_minus_one)
  ultimately obtain st' where r: "verify_run cr cs (st\<lparr>ofs := fs', validated := False\<rparr>) =
      Some (replicate (length cs) SW_SECURITY_STATUS_NOT_SATISFIED, st')"
    "otp_pin st' (of_nat (unat n - 1 - length cs)) h" "\<not> validated st'"
    using Cons.IH [of "st\<lparr>ofs := fs', validated := False\<rparr>" ?m] Cons.prems(2) by auto
  have "verify_run cr (c # cs) st = Some (replicate (length (c # cs)) SW_SECURITY_STATUS_NOT_SATISFIED, st')"
    using v(1) r(1) by (simp add: err_def)
  then show ?case using r by (intro exI [of _ st']) simp
qed

section \<open>Properties of the PIN\<close>

text \<open>
  C14: any sequence of wrong PINs is refused, the counter of the PIN file falls by one with each, never below
  0, and afterwards the right PIN is accepted exactly when there were fewer wrong ones than the counter had
  tries: then it unlocks and restores the three tries, otherwise it is refused as well.
\<close>

theorem otp_pin_retries:
  assumes pin: "otp_pin st n h" and wrong: "\<forall>c \<in> set cs. wrong_pin cr h c"
    and right: "object c TAG_PASSWORD p" "double_hash_pin cr p = Some h"
  shows "\<exists>st'. verify_run cr cs st = Some (replicate (length cs) SW_SECURITY_STATUS_NOT_SATISFIED, st') \<and>
    otp_pin st' (of_nat (unat n - length cs)) h \<and>
    (\<exists>st''. cmd_verify_otp_pin cr c st' =
        (if length cs < unat n then ok [] st'' else err SW_SECURITY_STATUS_NOT_SATISFIED st'') \<and>
      otp_pin st'' (if length cs < unat n then 3 else 0) h \<and> validated st'' = (length cs < unat n))"
proof -
  obtain st' where s: "verify_run cr cs st = Some (replicate (length cs) SW_SECURITY_STATUS_NOT_SATISFIED, st')"
    "otp_pin st' (of_nat (unat n - length cs)) h" using wrong_pins [OF pin wrong] by blast
  have "unat n - length cs < 256" using byte_bound [of n] by simp
  then have z: "(of_nat (unat n - length cs) :: u8) \<noteq> 0 \<longleftrightarrow> length cs < unat n"
    using unat_small_byte [of "unat n - length cs"] unat_eq_zero [of "of_nat (unat n - length cs) :: u8"] by auto
  obtain fs' where "fs_inv fs'"
    "cmd_verify_otp_pin cr c st' = (if length cs < unat n then ok [] (st'\<lparr>ofs := fs', validated := True\<rparr>)
       else err SW_SECURITY_STATUS_NOT_SATISFIED (st'\<lparr>ofs := fs', validated := False\<rparr>))"
    "fget fs' = (fget (ofs st'))(EF_OTP_PIN \<mapsto> (if length cs < unat n then 3 else 0) # h)"
    using verify_pin_spec [OF s(2) right] z by (auto split: if_splits)
  then have "\<exists>st''. cmd_verify_otp_pin cr c st' =
        (if length cs < unat n then ok [] st'' else err SW_SECURITY_STATUS_NOT_SATISFIED st'') \<and>
      otp_pin st'' (if length cs < unat n then 3 else 0) h \<and> validated st'' = (length cs < unat n)"
    using s(2) by (intro exI [of _ "st'\<lparr>ofs := fs', validated := (length cs < unat n)\<rparr>"]) (auto simp: otp_pin_def)
  with s show ?thesis by blast
qed

text \<open>
  CHANGE PIN has no retry counter.  A wrong old PIN is refused and changes nothing, however often it is
  tried, and the right one sets the new PIN and three tries even when the counter is 0 and VERIFY PIN is
  blocked.
\<close>

theorem change_pin_not_limited:
  assumes pin: "otp_pin st n h" and pw: "object c TAG_PASSWORD p" "double_hash_pin cr p = Some hp"
    and new: "object c TAG_NEW_PASSWORD q" "double_hash_pin cr q = Some hq" and law: "crypto_law cr"
  shows "(hp \<noteq> h \<longrightarrow> cmd_change_otp_pin cr c st = err SW_SECURITY_STATUS_NOT_SATISFIED st) \<and>
    (hp = h \<longrightarrow> (\<exists>fs'. cmd_change_otp_pin cr c st = ok [] (st\<lparr>ofs := fs'\<rparr>) \<and> otp_pin (st\<lparr>ofs := fs'\<rparr>) 3 hq))"
proof -
  have i: "fs_inv (ofs st)" and g: "fget (ofs st) EF_OTP_PIN = Some (n # h)" and l: "length h = 32"
    using pin by (auto simp: otp_pin_def)
  obtain off where t: "find_tag (cbuf c) (cnc c) TAG_PASSWORD = Some (Some (length p, off))"
    "rd_slice (cbuf c) off (length p) = Some p" using pw(1) by (auto simp: object_def)
  obtain off' where t': "find_tag (cbuf c) (cnc c) TAG_NEW_PASSWORD = Some (Some (length q, off'))"
    "rd_slice (cbuf c) off' (length q) = Some q" using new(1) by (auto simp: object_def)
  have b: "file_has_data (ofs st) (Some (Static 11)) = Some True" "file_bytes (ofs st) (Some (Static 11)) = Some (n # h)"
    using g file_has_data_lookup [OF i pin_lookup [OF i]] file_bytes_lookup [OF i pin_lookup [OF i]]
    by (auto simp: has_def)
  have s: "rd_slice (n # h) 1 32 = Some h" using l by (simp add: rd_slice_def)
  have "q \<noteq> []" using new(2) by (auto simp: double_hash_pin_def hash_multi_spec)
  then have lq: "length hq = 32" using double_hash_total [OF law, of q] new(2) by auto
  obtain fs' where w: "write_file (ofs st) (Some (Static 11)) (3 # hq) = Some (CCID_OK, fs')" "fs_inv fs'"
    "fget fs' = (fget (ofs st))(EF_OTP_PIN \<mapsto> 3 # hq)" using write_pin [OF pin lq] by blast
  have "cmd_change_otp_pin cr c st = (if hp \<noteq> h then err SW_SECURITY_STATUS_NOT_SATISFIED st else ok [] (st\<lparr>ofs := fs'\<rparr>))"
    using w(1) t t' b s pw(2) new(2)
    by (simp add: cmd_change_otp_pin_def pin_ref [OF i] pin_password_def span_bytes_def MAX_OTP_COUNTER_def)
  then show ?thesis using w(2,3) lq by (auto simp: otp_pin_def)
qed

text \<open>A token with the PIN \<open>12\<close>, and commands with one or two objects.\<close>

definition hash12 :: bytes where "hash12 = the (double_hash_pin sample_crypto [0x31, 0x32])"

definition pin_fs :: fs where "pin_fs = snd (the (store_file empty_fs EF_OTP_PIN (3 # hash12)))"

definition tlv_command :: "u8 \<Rightarrow> u8 \<Rightarrow> (u8 \<times> bytes) list \<Rightarrow> command" where
  "tlv_command i p2 tvs = \<lparr>CLA = 0, INS = i, P1 = 0, P2 = p2, cbuf = tlvs_bytes tvs, cnc = length (tlvs_bytes tvs),
     random_gen = (\<lambda>n. replicate n 7)\<rparr>"

lemma tlv_command_object: "list_all tlv_ok tvs \<Longrightarrow> map_of tvs t = Some v \<Longrightarrow> object (tlv_command i p2 tvs) t v"
  by (rule object_tlvs [of tvs t v _ "[]"]) (simp_all add: tlv_command_def)

lemma hash12: "double_hash_pin sample_crypto [0x31, 0x32] = Some hash12" "length hash12 = 32"
  using double_hash_total [OF sample_crypto_law, of "[0x31, 0x32]"] by (auto simp: hash12_def)

lemma pin_fs: "otp_pin (oath_boot pin_fs) 3 hash12"
proof -
  have w: "store_file empty_fs EF_OTP_PIN (3 # hash12) = Some (CCID_OK, pin_fs)"
    by (simp add: pin_fs_def store_file_def empty_fs_def boot_fs_def file_new_def search_dynamic_file_def search_ef_def
        file_table_def internal_ef_def fid_defs FILE_TYPE_INTERNAL_EF_def FILE_DATA_FLASH_def write_file_def rd_def
        file_get_size_def flash_sizes new_record_def first_free_def hash12)
  then show ?thesis
    using fsc.put_inv [OF empty_fs_inv _ w] fsc.put_ok [OF empty_fs_inv _ w] hash12(2)
    by (simp add: otp_pin_def oath_boot_def)
qed

lemma wrong_33: "wrong_pin sample_crypto hash12 (tlv_command 0xb2 0 [(TAG_PASSWORD, [0x33])])"
proof -
  have o: "object (tlv_command 0xb2 0 [(TAG_PASSWORD, [0x33])]) TAG_PASSWORD [0x33]"
    by (rule tlv_command_object) (simp_all add: tlv_ok_def oath_defs)
  have "hash12 ! 0 = 4" using sample_double_hash [of "[0x31, 0x32]"] by (simp add: hash12_def cycle_bytes_def)
  moreover obtain h where h: "double_hash_pin sample_crypto [0x33] = Some h" "h ! 0 = 8"
    using sample_double_hash [of "[0x33]"] by (simp add: cycle_bytes_def)
  ultimately have "h \<noteq> hash12" by auto
  with o h(1) show ?thesis unfolding wrong_pin_def by blast
qed

theorem otp_pin_retries_witness:
  "\<exists>st'. verify_run sample_crypto (replicate 3 (tlv_command 0xb2 0 [(TAG_PASSWORD, [0x33])])) (oath_boot pin_fs) =
      Some (replicate (length (replicate 3 (tlv_command 0xb2 0 [(TAG_PASSWORD, [0x33])]))) SW_SECURITY_STATUS_NOT_SATISFIED, st') \<and>
    otp_pin st' (of_nat (unat (3 :: u8) - length (replicate 3 (tlv_command 0xb2 0 [(TAG_PASSWORD, [0x33])])))) hash12 \<and>
    (\<exists>st''. cmd_verify_otp_pin sample_crypto (tlv_command 0xb2 0 [(TAG_PASSWORD, [0x31, 0x32])]) st' =
        (if length (replicate 3 (tlv_command 0xb2 0 [(TAG_PASSWORD, [0x33])])) < unat (3 :: u8) then ok [] st''
         else err SW_SECURITY_STATUS_NOT_SATISFIED st'') \<and>
      otp_pin st'' (if length (replicate 3 (tlv_command 0xb2 0 [(TAG_PASSWORD, [0x33])])) < unat (3 :: u8) then 3 else 0) hash12 \<and>
      validated st'' = (length (replicate 3 (tlv_command 0xb2 0 [(TAG_PASSWORD, [0x33])])) < unat (3 :: u8)))"
proof (rule otp_pin_retries [OF pin_fs _ _ hash12(1)])
  show "\<forall>c \<in> set (replicate 3 (tlv_command 0xb2 0 [(TAG_PASSWORD, [0x33])])). wrong_pin sample_crypto hash12 c"
    using wrong_33 by simp
  show "object (tlv_command 0xb2 0 [(TAG_PASSWORD, [0x31, 0x32])]) TAG_PASSWORD [0x31, 0x32]"
    by (rule tlv_command_object) (simp_all add: tlv_ok_def oath_defs)
qed

theorem change_pin_not_limited_witness:
  "\<exists>fs'. cmd_change_otp_pin sample_crypto
      (tlv_command 0xb3 0 [(TAG_PASSWORD, [0x31, 0x32]), (TAG_NEW_PASSWORD, [0x31, 0x32])]) (oath_boot pin_fs) =
        ok [] (oath_boot pin_fs\<lparr>ofs := fs'\<rparr>) \<and> otp_pin (oath_boot pin_fs\<lparr>ofs := fs'\<rparr>) 3 hash12"
proof (rule change_pin_not_limited [OF pin_fs _ hash12(1) _ hash12(1) sample_crypto_law, THEN conjunct2, THEN mp, OF _ _ refl])
  show "object (tlv_command 0xb3 0 [(TAG_PASSWORD, [0x31, 0x32]), (TAG_NEW_PASSWORD, [0x31, 0x32])]) TAG_PASSWORD [0x31, 0x32]"
    by (rule tlv_command_object) (simp_all add: tlv_ok_def oath_defs)
  show "object (tlv_command 0xb3 0 [(TAG_PASSWORD, [0x31, 0x32]), (TAG_NEW_PASSWORD, [0x31, 0x32])]) TAG_NEW_PASSWORD [0x31, 0x32]"
    by (rule tlv_command_object) (simp_all add: tlv_ok_def oath_defs)
qed

section \<open>Properties of the access code\<close>

text \<open>
  VALIDATE accepts every response that is a prefix of the HMAC of the challenge, and nothing else.  The
  length of the response is the host's: the empty response is always accepted, so the access code can be
  passed without the key.
\<close>

theorem validate_accepts_prefixes:
  assumes inv: "fs_inv (ofs st)" and code: "fget (ofs st) EF_OATH_CODE = Some (k0 # key)"
    and alg: "get_oath_md_info k0 = Some m" and hm: "md_hmac cr m key (challenge st) = Some hm"
    and hx: "md_hmac cr m key x = Some hx" and law: "crypto_law cr"
    and c: "object c TAG_CHALLENGE x" "object c TAG_RESPONSE r" and len: "length r \<le> length hm"
  shows "cmd_validate cr c st =
    (if take (length r) hm = r
     then ok ([TAG_RESPONSE, of_nat (md_get_size m)] @ hx) (st\<lparr>validated := True\<rparr>) else err SW_DATA_INVALID st)"
proof -
  obtain o1 where x: "find_tag (cbuf c) (cnc c) TAG_CHALLENGE = Some (Some (length x, o1))"
    "rd_slice (cbuf c) o1 (length x) = Some x" using c(1) by (auto simp: object_def)
  obtain o2 where r: "find_tag (cbuf c) (cnc c) TAG_RESPONSE = Some (Some (length r, o2))"
    "rd_slice (cbuf c) o2 (length r) = Some r" using c(2) by (auto simp: object_def)
  have h: "has (ofs st) EF_OATH_CODE" using code by (simp add: has_def)
  obtain ref where l: "lookup (ofs st) EF_OATH_CODE = Some ref" using has_lookup [OF h] by blast
  have "length hx = md_get_size m" using law hx by (auto simp: crypto_law_def)
  then have "length hx \<le> 64" by (cases m) auto
  then have e: "emit [] ([TAG_RESPONSE, of_nat (md_get_size m)] @ hx) = Some ([TAG_RESPONSE, of_nat (md_get_size m)] @ hx)"
    by (simp add: emit_def res_max_def)
  have d: "hmac_differs hm r = Some (take (length r) hm \<noteq> r)"
    using len by (simp add: hmac_differs_def)
  show ?thesis
    using x r h l e d alg hm hx dyn_has [OF inv dyn_code] dyn_lookup [OF inv dyn_code] file_bytes_lookup [OF inv l] code
    by (simp add: cmd_validate_def validate_with_def span_bytes_def rd_def)
qed

lemma oath_select_ok:
  assumes inv: "fs_inv (ofs st)" and cap: "cap_supported (ofs st) CAP_OATH = Some True" and law: "crypto_law cr"
    and rnd: "length (random_gen c 8) = 8"
  shows "\<exists>res st'. oath_select cr c st = Some (CCID_OK, res, st') \<and> ofs st' = ofs st \<and> validated st' = validated st"
proof -
  have b: "length (unique_board_id cr) = 8" using law by (simp add: crypto_law_def)
  have e: "length x + length y \<le> 100 \<Longrightarrow> emit x y = Some (x @ y)" for x y by (simp add: emit_def res_max_def)
  have p: "file_has_data (ofs st) (Some (Static 11)) = Some (has (ofs st) EF_OTP_PIN)"
    by (rule file_has_data_lookup [OF inv pin_lookup [OF inv]])
  have d: "has (ofs st) EF_OTP_PIN \<Longrightarrow> \<exists>d0. (do { d \<leftarrow> file_bytes (ofs st) (Some (Static 11)); rd d 0 }) = Some d0"
    using file_bytes_lookup [OF inv pin_lookup [OF inv]] by (auto simp: has_def rd_def)
  show ?thesis
    using cap b rnd e p d dyn_has [OF inv dyn_code]
    by (auto simp: oath_select_def CHALLENGE_LEN_def pin_ref [OF inv] Let_def Option.bind_eq_Some_conv)
qed

lemma delete_code_spec:
  assumes inv: "fs_inv (ofs st)"
  shows "\<exists>fs'. delete_code st = ok [] (st\<lparr>ofs := fs', validated := True\<rparr>) \<and> fs_inv fs' \<and>
    fget fs' = (fget (ofs st))(EF_OATH_CODE := None)"
  using remove_file_spec [OF inv, of EF_OATH_CODE]
  by (auto simp: delete_code_def remove_file_def dyn_lookup [OF inv dyn_code])

text \<open>
  the access code does not survive a restart.  The application starts unlocked, selecting it does not
  lock it although a code is stored, and then SET CODE without data removes the code for good, with no
  proof of the key.
\<close>

theorem restart_removes_code:
  assumes inv: "fs_inv fs" and cap: "cap_supported fs CAP_OATH = Some True" and law: "crypto_law cr"
    and rnd: "length (random_gen sel 8) = 8" and c: "CLA c = 0" "INS c = 0x03" "cnc c = 0"
  shows "\<exists>res st st'. oath_select cr sel (oath_boot fs) = Some (CCID_OK, res, st) \<and>
    oath_process_apdu cr c st = ok [] st' \<and> validated st' \<and> fget (ofs st') = (fget fs)(EF_OATH_CODE := None)"
proof -
  obtain res st where s: "oath_select cr sel (oath_boot fs) = Some (CCID_OK, res, st)" "ofs st = fs" "validated st"
    using oath_select_ok [of "oath_boot fs" cr sel] assms by (auto simp: oath_boot_def)
  obtain fs' where "delete_code st = ok [] (st\<lparr>ofs := fs', validated := True\<rparr>)" "fget fs' = (fget fs)(EF_OATH_CODE := None)"
    using delete_code_spec [of st] inv s by auto
  then have "oath_process_apdu cr c st = ok [] (st\<lparr>ofs := fs', validated := True\<rparr>)" "fget fs' = (fget fs)(EF_OATH_CODE := None)"
    using c cap s by (auto simp: oath_process_apdu_def oath_cmd_def cmd_set_code_def)
  with s show ?thesis by fastforce
qed

section \<open>Reset\<close>

lemma cred_slots_range: "fi \<in> set cred_slots \<Longrightarrow> 0xBA00 \<le> unat fi \<and> unat fi < 0xBAFF"
proof -
  assume "fi \<in> set cred_slots"
  then obtain i where "i < 255" "fi = EF_OATH_CRED + of_nat i" by (auto simp: cred_slots_def MAX_OATH_CRED_def)
  moreover from this have "unat fi = (0xBA00 + i) mod 65536"
    by (simp add: EF_OATH_CRED_def unat_word_ariths unat_of_nat)
  ultimately show ?thesis by simp
qed

lemma cred_slots_dyn: "fi \<in> set cred_slots \<Longrightarrow> dyn_fid fi"
proof -
  assume "fi \<in> set cred_slots"
  note r = cred_slots_range [OF this]
  have ne: "unat fi \<noteq> unat x \<Longrightarrow> x \<noteq> fi" for x by auto
  show "dyn_fid fi"
    unfolding dyn_fid_def file_table_def internal_ef_def fid_defs using r by (simp add: ne)
qed

lemma delete_creds_spec:
  assumes "fs_inv fs" and "\<forall>fi \<in> set fis. dyn_fid fi"
  shows "\<exists>fs'. delete_creds_in fs fis = Some fs' \<and> fs_inv fs' \<and>
    fget fs' = (\<lambda>fi. if fi \<in> set fis \<and> has fs fi then None else fget fs fi)"
  using assms
proof (induction fis arbitrary: fs)
  case Nil
  then show ?case by simp
next
  case (Cons fi fis)
  have dyn: "dyn_fid fi" using Cons.prems by simp
  note h = dyn_has [OF Cons.prems(1) dyn] and l = dyn_lookup [OF Cons.prems(1) dyn]
  show ?case
  proof (cases "has fs fi")
    case False
    then have "delete_creds_in fs (fi # fis) = delete_creds_in fs fis" using h by simp
    moreover obtain fs' where "delete_creds_in fs fis = Some fs'" "fs_inv fs'"
      "fget fs' = (\<lambda>fi. if fi \<in> set fis \<and> has fs fi then None else fget fs fi)"
      using Cons.IH [OF Cons.prems(1)] Cons.prems(2) by auto
    ultimately show ?thesis using False by (auto simp: fun_eq_iff)
  next
    case True
    obtain rc fs1 where d: "remove_file fs fi = Some (rc, fs1)" "fs_inv fs1" "fget fs1 = (fget fs)(fi := None)"
      using remove_file_spec [OF Cons.prems(1), of fi] by blast
    then have "delete_creds_in fs (fi # fis) = delete_creds_in fs1 fis"
      using h l True by (simp add: remove_file_def)
    moreover obtain fs' where "delete_creds_in fs1 fis = Some fs'" "fs_inv fs'"
      "fget fs' = (\<lambda>fi. if fi \<in> set fis \<and> has fs1 fi then None else fget fs1 fi)"
      using Cons.IH [OF d(2)] Cons.prems(2) by auto
    moreover have "has fs1 fj = (fj \<noteq> fi \<and> has fs fj)" for fj using d(3) by (simp add: has_def)
    ultimately show ?thesis using True d(3) by (auto simp: fun_eq_iff)
  qed
qed

text \<open>
  RESET with the magic parameters removes every credential, the access code and the PIN, unlocks the
  application, and touches no other file; with any other parameters nothing happens.
\<close>

theorem oath_reset:
  assumes inv: "fs_inv (ofs st)"
  shows "(P1 c = 0xde \<and> P2 c = 0xad \<longrightarrow>
      (\<exists>st'. cmd_reset c st = ok [] st' \<and> fs_inv (ofs st') \<and> validated st' \<and> (\<forall>fi \<in> set cred_slots. \<not> has (ofs st') fi) \<and>
        fget (ofs st') EF_OATH_CODE = None \<and> fget (ofs st') EF_OTP_PIN = None \<and>
        (\<forall>fi. fi \<notin> set cred_slots \<longrightarrow> fi \<noteq> EF_OATH_CODE \<longrightarrow> fi \<noteq> EF_OTP_PIN \<longrightarrow> fget (ofs st') fi = fget (ofs st) fi))) \<and>
    (\<not> (P1 c = 0xde \<and> P2 c = 0xad) \<longrightarrow> cmd_reset c st = err SW_INCORRECT_P1P2 st)"
proof -
  obtain fs1 where d1: "delete_creds_in (ofs st) cred_slots = Some fs1" "fs_inv fs1"
    "fget fs1 = (\<lambda>fi. if fi \<in> set cred_slots \<and> has (ofs st) fi then None else fget (ofs st) fi)"
    using delete_creds_spec [OF inv] cred_slots_dyn by blast
  obtain rc fs2 where d2: "remove_file fs1 EF_OATH_CODE = Some (rc, fs2)" "fs_inv fs2"
    "fget fs2 = (fget fs1)(EF_OATH_CODE := None)" using remove_file_spec [OF d1(2)] by blast
  obtain fs3 where d3: "clear_file fs2 (Some (Static 11)) = Some fs3" "fs_inv fs3" "fget fs3 = (fget fs2)(EF_OTP_PIN := None)"
    using clear_file_spec [OF d2(2) pin_lookup [OF d2(2)]] by blast
  have "EF_OATH_CODE \<notin> set cred_slots" "EF_OTP_PIN \<notin> set cred_slots"
    using cred_slots_range [of EF_OATH_CODE] cred_slots_range [of EF_OTP_PIN] by (auto simp: fid_defs)
  then have g: "\<forall>fi \<in> set cred_slots. \<not> has fs3 fi" "fget fs3 EF_OATH_CODE = None" "fget fs3 EF_OTP_PIN = None"
    "\<forall>fi. fi \<notin> set cred_slots \<longrightarrow> fi \<noteq> EF_OATH_CODE \<longrightarrow> fi \<noteq> EF_OTP_PIN \<longrightarrow> fget fs3 fi = fget (ofs st) fi"
    using d1(3) d2(3) d3(3) by (auto simp: has_def fid_defs)
  have "cmd_reset c st = ok [] (st\<lparr>ofs := fs3, validated := True\<rparr>)" if "P1 c = 0xde" "P2 c = 0xad"
    using that d1(1) d2(1) d3(1) by (simp add: cmd_reset_def remove_file_def dyn_lookup [OF d1(2) dyn_code] pin_ref [OF d2(2)])
  with g d3(2) show ?thesis by (auto simp: cmd_reset_def)
qed

section \<open>Witnesses\<close>

text \<open>A token with a single file.\<close>

definition single_fs :: "u16 \<Rightarrow> bytes \<Rightarrow> fs" where "single_fs fi bs = snd (the (store_file empty_fs fi bs))"

lemma empty_fget: "fget empty_fs = Map.empty"
  unfolding empty_fs_def by (rule boot_fs_inv) (rule first_free_law)

lemma single_fs:
  assumes "dyn_fid fi" and "length bs \<le> 4096"
  shows "fs_inv (single_fs fi bs)" and "fget (single_fs fi bs) = [fi \<mapsto> bs]"
proof -
  have w: "store_file empty_fs fi bs = Some (CCID_OK, single_fs fi bs)"
    using assms by (simp add: single_fs_def store_file_def empty_fs_def boot_fs_def file_new_def search_dynamic_file_def
        search_ef_def dyn_fid_def MAX_DYNAMIC_FILES_def write_file_def new_file_def rd_def file_get_size_def flash_sizes
        new_record_def first_free_def)
  show "fs_inv (single_fs fi bs)" by (rule fsc.put_inv [OF empty_fs_inv assms(2) w])
  show "fget (single_fs fi bs) = [fi \<mapsto> bs]"
    using fsc.put_ok [OF empty_fs_inv assms(2) w] empty_fget by simp
qed

definition code_fs :: fs where "code_fs = single_fs EF_OATH_CODE [0x21, 9, 9]"

lemmas code_fs = single_fs [OF dyn_code, of "[0x21, 9, 9]", simplified, folded code_fs_def]

lemma boot_sel [simp]: "ofs (oath_boot fs) = fs" "validated (oath_boot fs)" "challenge (oath_boot fs) = replicate 8 0"
  by (simp_all add: oath_boot_def)

theorem validate_accepts_prefixes_witness:
  "cmd_validate sample_crypto (tlv_command 0xa3 0 [(TAG_CHALLENGE, [1, 2]), (TAG_RESPONSE, [])]) (oath_boot code_fs) =
    (if take (length ([] :: bytes)) (toy_hash 20 ([9, 9] @ replicate 8 0)) = []
     then ok ([TAG_RESPONSE, of_nat (md_get_size MD_SHA1)] @ toy_hash 20 ([9, 9] @ [1, 2])) (oath_boot code_fs\<lparr>validated := True\<rparr>)
     else err SW_DATA_INVALID (oath_boot code_fs))"
proof (rule validate_accepts_prefixes)
  show "fget (ofs (oath_boot code_fs)) EF_OATH_CODE = Some (0x21 # [9, 9])" by (simp add: code_fs)
  show "get_oath_md_info 0x21 = Some MD_SHA1" by (simp add: get_oath_md_info_def oath_defs)
  show "object (tlv_command 0xa3 0 [(TAG_CHALLENGE, [1, 2]), (TAG_RESPONSE, [])]) TAG_CHALLENGE [1, 2]"
    by (rule tlv_command_object) (simp_all add: tlv_ok_def oath_defs)
  show "object (tlv_command 0xa3 0 [(TAG_CHALLENGE, [1, 2]), (TAG_RESPONSE, [])]) TAG_RESPONSE []"
    by (rule tlv_command_object) (simp_all add: tlv_ok_def oath_defs)
qed (simp_all add: code_fs sample_crypto_law, simp_all add: sample_crypto_def)

theorem restart_removes_code_witness:
  "\<exists>res st st'. oath_select sample_crypto (tlv_command 0 0 []) (oath_boot code_fs) = Some (CCID_OK, res, st) \<and>
    oath_process_apdu sample_crypto (tlv_command 0x03 0 []) st = ok [] st' \<and> validated st' \<and>
    fget (ofs st') = (fget code_fs)(EF_OATH_CODE := None)"
proof (rule restart_removes_code [OF code_fs(1) _ sample_crypto_law])
  show "cap_supported code_fs CAP_OATH = Some True"
    using cap_supported_spec [OF code_fs(1)] code_fs(2) by (simp add: fid_defs)
qed (simp_all add: tlv_command_def tlvs_bytes_def)

theorem oath_reset_witness:
  "\<exists>st'. cmd_reset (tlv_command 0x04 0xad []\<lparr>P1 := 0xde\<rparr>) (oath_boot code_fs) = ok [] st' \<and>
     fget (ofs st') EF_OATH_CODE = None"
  using oath_reset [of "oath_boot code_fs" "tlv_command 0x04 0xad []\<lparr>P1 := 0xde\<rparr>"] code_fs(1)
  by (auto simp: tlv_command_def)

end
