(* ===== verification/OathCreds.thy ===== *)
theory OathCreds
  imports OathPin "HOL-Library.AList"
begin

text \<open>
  What the OATH application promises about its credentials: the search by name as a search over the contents
  of the files, PUT followed by that search, the moving factor of HOTP, and CALCULATE ALL.
\<close>

section \<open>Finding credentials\<close>

text \<open>The value of an object of a buffer; the outer \<open>None\<close> is a read out of bounds.\<close>

definition value_of :: "bytes \<Rightarrow> nat \<Rightarrow> u8 \<Rightarrow> bytes option option" where
  "value_of b n t = do {
     s \<leftarrow> find_tag b n t;
     case s of None \<Rightarrow> Some None | Some s \<Rightarrow> map_option Some (span_bytes b s)
   }"

lemma value_of_Some: "value_of b n t = Some (Some v) \<longleftrightarrow>
    (\<exists>off. find_tag b n t = Some (Some (length v, off)) \<and> rd_slice b off (length v) = Some v)"
  by (auto simp: value_of_def span_bytes_def Option.bind_eq_Some_conv rd_slice_length split: option.splits)

lemma value_of_None: "value_of b n t = Some None \<longleftrightarrow> find_tag b n t = Some None"
  by (auto simp: value_of_def Option.bind_eq_Some_conv split: option.splits)

lemma object_value: "object c t v \<longleftrightarrow> value_of (cbuf c) (cnc c) t = Some (Some v)"
  by (simp add: object_def value_of_Some)

lemma value_of_tlvs: "list_all tlv_ok tvs \<Longrightarrow> value_of (tlvs_bytes tvs @ post) (length (tlvs_bytes tvs)) t = Some (map_of tvs t)"
  using find_tag_tlvs(1) [of tvs t post] find_tag_tlvs(2) [of tvs t _ post]
  by (cases "map_of tvs t") (auto simp: value_of_Some value_of_None)

lemmas value_of_tlvs0 = value_of_tlvs [where post = "[]", simplified]

text \<open>A file that holds the credential \<open>nm\<close>, and files whose names can all be read.\<close>

definition named :: "fs \<Rightarrow> bytes \<Rightarrow> u16 \<Rightarrow> bool" where
  "named fs nm fi \<longleftrightarrow>
     (case fget fs fi of None \<Rightarrow> False | Some d \<Rightarrow> d \<noteq> [] \<and> value_of d (length d) TAG_NAME = Some (Some nm))"

definition creds_ok :: "fs \<Rightarrow> bool" where
  "creds_ok fs \<longleftrightarrow> (\<forall>fi \<in> set cred_slots. case fget fs fi of None \<Rightarrow> True
     | Some d \<Rightarrow> d \<noteq> [] \<longrightarrow> value_of d (length d) TAG_NAME \<noteq> None)"

lemma named_has: "named fs nm fi \<Longrightarrow> has fs fi"
  by (auto simp: named_def has_def split: option.splits)

lemma find_cred_spec:
  assumes inv: "fs_inv fs" and nm: "span_bytes b name = Some nm"
    and "\<forall>fi \<in> set fis. dyn_fid fi \<and> (case fget fs fi of None \<Rightarrow> True
      | Some d \<Rightarrow> d \<noteq> [] \<longrightarrow> value_of d (length d) TAG_NAME \<noteq> None)"
  shows "find_cred_in fs fis b name = Some (case List.find (named fs nm) fis of None \<Rightarrow> None | Some fi \<Rightarrow> lookup fs fi)"
  using assms(3)
proof (induction fis)
  case Nil
  then show ?case by simp
next
  case (Cons fi fis)
  have dyn: "dyn_fid fi" using Cons.prems by simp
  note h = dyn_has [OF inv dyn] and l = dyn_lookup [OF inv dyn]
  have ln: "fst name = length nm" using nm by (simp add: span_bytes_def rd_slice_length)
  have ih: "find_cred_in fs fis b name = Some (case List.find (named fs nm) fis of None \<Rightarrow> None | Some fi \<Rightarrow> lookup fs fi)"
    using Cons by simp
  show ?case
  proof (cases "has fs fi")
    case False
    then show ?thesis using h ih named_has [of fs nm fi] by auto
  next
    case True
    then obtain r d where d: "lookup fs fi = Some r" "fget fs fi = Some d" "d \<noteq> []"
      using has_lookup by (force simp: has_def)
    have fb: "file_bytes fs (Some r) = Some d" using file_bytes_lookup [OF inv d(1)] d(2) by simp
    have h1: "file_has_data fs (Some r) = Some True" using h l d True by simp
    obtain o1 where o1: "value_of d (length d) TAG_NAME = Some o1" using Cons.prems d by auto
    show ?thesis
    proof (cases o1)
      case None
      then have "find_tag d (length d) TAG_NAME = Some None" using o1 by (simp add: value_of_None)
      moreover have "\<not> named fs nm fi" using d o1 None by (simp add: named_def)
      ultimately show ?thesis using h1 l d fb ih by simp
    next
      case (Some v)
      then obtain off where v: "find_tag d (length d) TAG_NAME = Some (Some (length v, off))"
        "span_bytes d (length v, off) = Some v" using o1 by (auto simp: value_of_Some span_bytes_def)
      moreover have "named fs nm fi \<longleftrightarrow> v = nm" using d o1 Some by (simp add: named_def)
      ultimately show ?thesis using h1 l d fb ih nm ln by auto
    qed
  qed
qed

lemma find_oath_cred_spec:
  assumes "fs_inv fs" and "creds_ok fs" and "span_bytes b name = Some nm"
  shows "find_oath_cred fs b name =
    Some (case List.find (named fs nm) cred_slots of None \<Rightarrow> None | Some fi \<Rightarrow> lookup fs fi)"
  unfolding find_oath_cred_def using assms cred_slots_dyn
  by (intro find_cred_spec) (auto simp: creds_ok_def)

lemma find_slot:
  assumes "List.find P cred_slots = Some fi"
  shows "fi \<in> set cred_slots" and "P fi" and "dyn_fid fi"
  using assms cred_slots_dyn by (auto simp: find_Some_iff)

section \<open>Storing credentials\<close>

text \<open>What PUT stores: a HOTP credential without a moving factor gets one.\<close>

definition with_imf :: "u8 \<Rightarrow> (u8 \<times> bytes) list \<Rightarrow> (u8 \<times> bytes) list" where
  "with_imf k0 tvs =
     (if k0 AND OATH_TYPE_MASK = OATH_TYPE_HOTP \<and> map_of tvs TAG_IMF = None then tvs @ [(TAG_IMF, replicate 8 0)] else tvs)"

lemma with_imf_ok: "list_all tlv_ok tvs \<Longrightarrow> list_all tlv_ok (with_imf k0 tvs)"
  by (simp add: with_imf_def tlv_ok_def oath_defs)

lemma with_imf_name: "map_of tvs TAG_NAME = Some nm \<Longrightarrow> map_of (with_imf k0 tvs) TAG_NAME = Some nm"
  by (simp add: with_imf_def)

lemma imf_bytes: "tlvs_bytes (tvs @ [(TAG_IMF, replicate 8 0)]) = tlvs_bytes tvs @ [0x7a, 8, 0, 0, 0, 0, 0, 0, 0, 0]"
  by (simp add: tlvs_bytes_def tlv_bytes_def format_tlv_len_def oath_defs eval_nat_numeral)

lemma put_imf_spec:
  assumes tvs: "list_all tlv_ok tvs" and hotp: "k0 AND OATH_TYPE_MASK = OATH_TYPE_HOTP"
    and imf: "case map_of tvs TAG_IMF of None \<Rightarrow> 10 \<le> length post | Some v \<Rightarrow> 8 \<le> length v"
  shows "\<exists>post'. put_imf (tlvs_bytes tvs @ post) (length (tlvs_bytes tvs)) =
    Some (tlvs_bytes (with_imf k0 tvs) @ post', length (tlvs_bytes (with_imf k0 tvs)))"
proof (cases "map_of tvs TAG_IMF")
  case None
  have "wr_slice (tlvs_bytes tvs @ post) (length (tlvs_bytes tvs)) [0x7a, 8, 0, 0, 0, 0, 0, 0, 0, 0] =
      Some (tlvs_bytes (tvs @ [(TAG_IMF, replicate 8 0)]) @ drop 10 post)"
    using imf None by (simp add: wr_slice_def imf_bytes)
  then show ?thesis
    using find_tag_tlvs(1) [OF tvs None, of post] None hotp imf_bytes [of tvs]
    by (intro exI [of _ "drop 10 post"]) (simp add: put_imf_def with_imf_def)
next
  case (Some v)
  then show ?thesis using find_tag_tlvs(2) [OF tvs Some, of post] imf
    by (auto simp: put_imf_def with_imf_def)
qed

lemma put_cred_spec:
  assumes inv: "fs_inv fs" and "\<forall>fi \<in> set fis. dyn_fid fi" and len: "length d \<le> 4096"
  shows "case List.find (\<lambda>fi. \<not> has fs fi) fis of
      None \<Rightarrow> put_cred_in fs fis d = Some None
    | Some fi \<Rightarrow> \<exists>rc fs'. store_file fs fi d = Some (rc, fs') \<and> put_cred_in fs fis d = Some (Some fs')"
  using assms(2)
proof (induction fis)
  case Nil
  then show ?case by simp
next
  case (Cons fi fis)
  then have dyn: "dyn_fid fi" by simp
  note h = dyn_has [OF inv dyn]
  obtain rc fs' where "store_file fs fi d = Some (rc, fs')" using fsc.put_total [OF inv len] by blast
  then show ?case using Cons h by (auto simp: store_file_def split: prod.splits option.splits)
qed

text \<open>The file a credential goes to: its own, or the first one without data.\<close>

definition put_target :: "fs \<Rightarrow> bytes \<Rightarrow> u16 option" where
  "put_target fs nm =
     (case List.find (named fs nm) cred_slots of Some fi \<Rightarrow> Some fi
      | None \<Rightarrow> List.find (\<lambda>fi. \<not> has fs fi) cred_slots)"

lemma put_target_slot: "put_target fs nm = Some fi \<Longrightarrow> fi \<in> set cred_slots"
  by (auto simp: put_target_def find_Some_iff split: option.splits)

text \<open>The writing half of PUT.\<close>

definition put_record :: "fs \<Rightarrow> bytes \<Rightarrow> span \<Rightarrow> nat \<Rightarrow> fs option option" where
  "put_record fs b name n = do {
     ef \<leftarrow> find_oath_cred fs b name;
     h \<leftarrow> file_has_data fs ef;
     d \<leftarrow> rd_slice b 0 n;
     if h then do { (_, fs) \<leftarrow> write_file fs ef d; Some (Some fs) } else put_cred_in fs cred_slots d
   }"

lemma put_target_store:
  assumes inv: "fs_inv fs" and ok: "creds_ok fs" and len: "length d \<le> 4096" and nm: "span_bytes b name = Some nm"
    and n: "rd_slice b 0 n = Some d" and t: "put_target fs nm = Some fi"
  shows "\<exists>rc fs'. store_file fs fi d = Some (rc, fs') \<and> put_record fs b name n = Some (Some fs')"
proof (cases "List.find (named fs nm) cred_slots")
  case None
  then have "List.find (\<lambda>fi. \<not> has fs fi) cred_slots = Some fi" using t by (simp add: put_target_def)
  then show ?thesis
    using put_cred_spec [OF inv _ len, of cred_slots] cred_slots_dyn None n find_oath_cred_spec [OF inv ok nm]
    by (auto simp: put_record_def file_has_data_def)
next
  case (Some fj)
  then have fj: "fj = fi" using t by (simp add: put_target_def)
  have h: "has fs fi" using find_slot(2) [OF Some] fj named_has by auto
  then obtain r where r: "lookup fs fi = Some r" using has_lookup by blast
  obtain rc fs' where "store_file fs fi d = Some (rc, fs')" using fsc.put_total [OF inv len] by blast
  then show ?thesis
    using n find_oath_cred_spec [OF inv ok nm] Some fj r h file_has_data_lookup [OF inv r] file_new_existing [OF inv r]
    by (auto simp: put_record_def store_file_def)
qed

lemma named_store:
  assumes t: "put_target fs nm = Some fi" and g: "fget fs' = (fget fs)(fi \<mapsto> d)"
    and d: "d \<noteq> []" "value_of d (length d) TAG_NAME = Some (Some nm)"
  shows "List.find (named fs' nm) cred_slots = Some fi"
proof -
  have nf: "named fs' nm fj \<longleftrightarrow> fj = fi \<or> named fs nm fj" for fj using g d by (simp add: named_def)
  show ?thesis
  proof (cases "List.find (named fs nm) cred_slots")
    case None
    then have no: "\<not> named fs nm fj" if "fj \<in> set cred_slots" for fj using that by (simp add: find_None_iff)
    have "List.find (named fs' nm) cred_slots = List.find (\<lambda>fj. fj = fi) cred_slots"
      using nf no by (intro find_cong) auto
    also have "\<dots> = Some fi"
    proof -
      have "fi \<in> set xs \<Longrightarrow> List.find (\<lambda>fj. fj = fi) xs = Some fi" for xs by (induction xs) auto
      then show ?thesis using put_target_slot [OF t] .
    qed
    finally show ?thesis .
  next
    case (Some fj)
    then have "List.find (named fs nm) cred_slots = Some fi" using t by (simp add: put_target_def)
    then show ?thesis using nf by (fastforce simp: find_Some_iff)
  qed
qed

lemma find_tag_post: "list_all tlv_ok tvs \<Longrightarrow>
    find_tag (tlvs_bytes tvs @ post) (length (tlvs_bytes tvs)) t = find_tag (tlvs_bytes tvs @ post') (length (tlvs_bytes tvs)) t"
  by (simp add: find_tag_def asn1_find_tag_tlvs)

lemma with_imf_prefix: "\<exists>ext. tlvs_bytes (with_imf k0 tvs) = tlvs_bytes tvs @ ext"
  by (simp add: with_imf_def tlvs_bytes_def)

text \<open>The part of PUT behind the parameters, with the buffer as \<open>put_imf\<close> left it.\<close>

lemma cmd_put_eq:
  assumes val: "validated st" and tvs: "list_all tlv_ok tvs" and buf: "cbuf c = tlvs_bytes tvs @ post"
    "cnc c = length (tlvs_bytes tvs)" and key: "map_of tvs TAG_KEY = Some (k0 # ks)" and nm: "map_of tvs TAG_NAME = Some nm"
    and imf: "k0 AND OATH_TYPE_MASK = OATH_TYPE_HOTP \<Longrightarrow>
      case map_of tvs TAG_IMF of None \<Rightarrow> 10 \<le> length post | Some v \<Rightarrow> 8 \<le> length v"
  shows "\<exists>b name. span_bytes b name = Some nm \<and>
    rd_slice b 0 (length (tlvs_bytes (with_imf k0 tvs))) = Some (tlvs_bytes (with_imf k0 tvs)) \<and>
    cmd_put c st = do {
      r \<leftarrow> put_record (ofs st) b name (length (tlvs_bytes (with_imf k0 tvs)));
      case r of None \<Rightarrow> err SW_FILE_FULL st | Some fs \<Rightarrow> ok [] (st\<lparr>ofs := fs\<rparr>) }"
proof -
  let ?n = "length (tlvs_bytes (with_imf k0 tvs))"
  obtain off where name: "find_tag (cbuf c) (cnc c) TAG_NAME = Some (Some (length nm, off))"
    using find_tag_tlvs(2) [OF tvs nm, of post] buf by auto
  obtain koff where k: "find_tag (cbuf c) (cnc c) TAG_KEY = Some (Some (length (k0 # ks), koff))"
    "rd_slice (cbuf c) koff (length (k0 # ks)) = Some (k0 # ks)"
    using find_tag_tlvs(2) [OF tvs key, of post] buf by auto
  have k0: "span_rd (cbuf c) (length (k0 # ks), koff) 0 = Some k0"
    using rd_slice_rd [OF k(2), of 0] by (simp add: span_rd_def)
  obtain post' where p: "(if k0 AND OATH_TYPE_MASK = OATH_TYPE_HOTP then put_imf (cbuf c) (cnc c) else Some (cbuf c, cnc c)) =
      Some (tlvs_bytes (with_imf k0 tvs) @ post', ?n)"
  proof (cases "k0 AND OATH_TYPE_MASK = OATH_TYPE_HOTP")
    case True
    then show ?thesis using that put_imf_spec [OF tvs True imf [OF True]] buf by auto
  next
    case False
    then show ?thesis using that [of post] buf by (simp add: with_imf_def)
  qed
  define b where "b = tlvs_bytes (with_imf k0 tvs) @ post'"
  obtain ext where ext: "b = tlvs_bytes tvs @ ext" using with_imf_prefix [of k0 tvs] by (auto simp: b_def)
  have "find_tag b (cnc c) TAG_NAME = Some (Some (length nm, off))"
    using name find_tag_post [OF tvs, of post TAG_NAME ext] buf ext by simp
  then have nb: "span_bytes b (length nm, off) = Some nm"
    using find_tag_tlvs(2) [OF tvs nm, of ext] ext buf by (auto simp: span_bytes_def)
  have "rd_slice b 0 ?n = Some (tlvs_bytes (with_imf k0 tvs))" by (simp add: b_def rd_slice_def)
  moreover have "cmd_put c st = do {
      r \<leftarrow> put_record (ofs st) b (length nm, off) ?n;
      case r of None \<Rightarrow> err SW_FILE_FULL st | Some fs \<Rightarrow> ok [] (st\<lparr>ofs := fs\<rparr>) }"
    unfolding cmd_put_def put_record_def using val name k(1) k0 p
    by (auto simp: b_def [symmetric] intro!: Option.bind_cong split: option.splits)
  ultimately show ?thesis using nb by blast
qed

lemma creds_ok_store:
  assumes "creds_ok fs" and "fget fs' = (fget fs)(fi \<mapsto> d) \<or> fget fs' = (fget fs)(fi := None)"
    and "value_of d (length d) TAG_NAME \<noteq> None"
  shows "creds_ok fs'"
  using assms by (auto simp: creds_ok_def split: option.splits if_splits)

section \<open>Properties of the credentials\<close>

text \<open>
  PUT of a well-formed credential replaces the one with its name or takes the first file without data,
  and afterwards the search for that name, with which every other command starts, finds exactly that file
  with what was sent, and the moving factor 0 when a HOTP credential came without one.  When the flash has
  no room the answer is \<^verbatim>\<open>9000\<close> all the same and the file, which may have held the old credential, is
  empty.  No other file changes.
\<close>

theorem put_then_find:
  assumes inv: "fs_inv (ofs st)" and ok: "creds_ok (ofs st)" and val: "validated st"
    and tvs: "list_all tlv_ok tvs" and buf: "cbuf c = tlvs_bytes tvs @ post" "cnc c = length (tlvs_bytes tvs)"
    and key: "map_of tvs TAG_KEY = Some (k0 # ks)" and nm: "map_of tvs TAG_NAME = Some nm"
    and imf: "k0 AND OATH_TYPE_MASK = OATH_TYPE_HOTP \<Longrightarrow>
      case map_of tvs TAG_IMF of None \<Rightarrow> 10 \<le> length post | Some v \<Rightarrow> 8 \<le> length v"
    and len: "length (tlvs_bytes (with_imf k0 tvs)) \<le> 4096" and t: "put_target (ofs st) nm = Some fi"
  shows "\<exists>fs'. cmd_put c st = ok [] (st\<lparr>ofs := fs'\<rparr>) \<and> fs_inv fs' \<and> creds_ok fs' \<and>
    (\<forall>fj. fj \<noteq> fi \<longrightarrow> fget fs' fj = fget (ofs st) fj) \<and>
    (fget fs' fi = None \<or> fget fs' fi = Some (tlvs_bytes (with_imf k0 tvs)) \<and>
      (\<forall>b s. span_bytes b s = Some nm \<longrightarrow> find_oath_cred fs' b s = Some (lookup fs' fi)))"
proof -
  let ?d = "tlvs_bytes (with_imf k0 tvs)"
  obtain b name where b: "span_bytes b name = Some nm" "rd_slice b 0 (length ?d) = Some ?d"
    "cmd_put c st = do {
      r \<leftarrow> put_record (ofs st) b name (length ?d);
      case r of None \<Rightarrow> err SW_FILE_FULL st | Some fs \<Rightarrow> ok [] (st\<lparr>ofs := fs\<rparr>) }"
    using cmd_put_eq [OF val tvs buf key nm imf] by blast
  obtain rc fs' where s: "store_file (ofs st) fi ?d = Some (rc, fs')" "cmd_put c st = ok [] (st\<lparr>ofs := fs'\<rparr>)"
    using put_target_store [OF inv ok len b(1,2) t] b(3) by auto
  have v: "value_of ?d (length ?d) TAG_NAME = Some (Some nm)"
    using value_of_tlvs0 [OF with_imf_ok [OF tvs]] with_imf_name [OF nm] by simp
  have ne: "?d \<noteq> []"
    using with_imf_name [OF nm, of k0] by (cases "with_imf k0 tvs") (auto simp: tlvs_bytes_def)
  note i = fsc.put_inv [OF inv len s(1)] and same = fsc.put_get_same [OF inv len s(1)] and
    other = fsc.put_get_other [OF inv len s(1)]
  have g: "fget fs' = (fget (ofs st))(fi \<mapsto> ?d) \<or> fget fs' = (fget (ofs st))(fi := None)"
    using same other by (cases "rc = CCID_OK") (auto simp: fun_eq_iff)
  then have ok': "creds_ok fs'" by (rule creds_ok_store [OF ok]) (simp add: v)
  have "find_oath_cred fs' b s = Some (lookup fs' fi)"
    if "span_bytes b s = Some nm" "fget fs' = (fget (ofs st))(fi \<mapsto> ?d)" for b s
    using find_oath_cred_spec [OF i ok' that(1)] named_store [OF t that(2) ne v] by simp
  with s(2) i ok' other g show ?thesis by (intro exI [of _ fs']) auto
qed

section \<open>HOTP\<close>

lemma be64_roundtrip: "be64_val (be64_bytes v) 0 = v"
proof -
  have j: "push_bit 8 (drop_bit (k + 8) v) OR ucast (ucast (drop_bit k v) :: u8) = drop_bit k v" if "k + 8 \<le> 64" for k
    by (rule bit_word_eqI) (use that in \<open>auto simp: bit_simps\<close>)
  have "push_bit 8 0 OR ucast (ucast (drop_bit 56 v) :: u8) = drop_bit 56 v"
    by (rule bit_word_eqI) (auto simp: bit_simps dest: bit_imp_le_length)
  then show ?thesis
    using j [of 48] j [of 40] j [of 32] j [of 24] j [of 16] j [of 8] j [of 0] by (simp add: be64_bytes_def)
qed

lemma length_be64 [simp]: "length (be64_bytes v) = 8"
  by (simp add: be64_bytes_def)

text \<open>Overwriting the value of the first object with a tag.\<close>

lemma wr_tlvs:
  assumes "list_all tlv_ok tvs" and "first_tlv (length pre) t tvs = Some (off, v)" and "length v' = length v"
  shows "wr_slice (pre @ tlvs_bytes tvs) off v' = Some (pre @ tlvs_bytes (AList.update t v' tvs))"
  using assms
proof (induction tvs arbitrary: pre)
  case Nil
  then show ?case by simp
next
  case (Cons tv tvs)
  show ?case
  proof (cases "fst tv = t")
    case True
    then have "off = length pre + (1 + length (format_tlv_len (length v)))" "snd tv = v" using Cons.prems(2) by auto
    with True Cons.prems(3) show ?thesis
      by (cases tv) (auto simp: wr_slice_def tlvs_bytes_def tlv_bytes_def)
  next
    case False
    then have "first_tlv (length (pre @ tlv_bytes tv)) t tvs = Some (off, v)" using Cons.prems(2) by simp
    from Cons.IH [OF _ this] Cons.prems False show ?thesis by (cases tv) (auto simp: tlvs_bytes_def)
  qed
qed

lemma update_length:
  "first_tlv off t tvs = Some (o', v) \<Longrightarrow> length v' = length v \<Longrightarrow>
    length (tlvs_bytes (AList.update t v' tvs)) = length (tlvs_bytes tvs)"
  by (induction tvs arbitrary: off) (auto simp: tlvs_bytes_def tlv_bytes_def split: if_splits)

lemma first_tlv_find:
  "list_all tlv_ok tvs \<Longrightarrow> first_tlv 0 t tvs = Some (off, v) \<Longrightarrow>
    find_tag (tlvs_bytes tvs) (length (tlvs_bytes tvs)) t = Some (Some (length v, off)) \<and>
    rd_slice (tlvs_bytes tvs) off (length v) = Some v"
  using asn1_find_tag_tlvs [of tvs "[]" t] first_tlv_value [of "[]" t tvs off v "[]"] by (simp add: find_tag_def)

lemma bump_spec:
  assumes inv: "fs_inv fs" and l: "lookup fs fi = Some r" and g: "fget fs fi = Some (tlvs_bytes tvs)"
    and tvs: "list_all tlv_ok tvs" and len: "length (tlvs_bytes tvs) \<le> 4096"
    and f: "first_tlv 0 TAG_IMF tvs = Some (off, be64_bytes n)"
  shows "\<exists>fs'. bump_counter fs (Some r) (tlvs_bytes tvs) (8, off) = Some fs' \<and> fs_inv fs' \<and>
    fget fs' = (fget fs)(fi \<mapsto> tlvs_bytes (AList.update TAG_IMF (be64_bytes (n + 1)) tvs))"
proof -
  let ?d = "tlvs_bytes (AList.update TAG_IMF (be64_bytes (n + 1)) tvs)"
  have "length ?d = length (tlvs_bytes tvs)" using update_length [OF f] by simp
  then obtain fs' where w: "write_file fs (Some r) ?d = Some (CCID_OK, fs')" "fs_inv fs'" "fget fs' = (fget fs)(fi \<mapsto> ?d)"
    using rewrite_file [OF inv l g, of ?d] len by auto
  have "wr_slice (tlvs_bytes tvs) off (be64_bytes (n + 1)) = Some ?d"
    using wr_tlvs [OF tvs, of "[]" TAG_IMF] f by simp
  then show ?thesis using w first_tlv_find [OF tvs f] by (simp add: bump_counter_def be64_roundtrip)
qed

text \<open>The four bytes that RFC 4226 takes from an HMAC.\<close>

definition truncated :: "bytes \<Rightarrow> bytes" where
  "truncated h = (let off = unat (last h AND 0x0f) in [h ! off AND 0x7f, h ! (off + 1), h ! (off + 2), h ! (off + 3)])"

lemma nibble_bound: "unat ((x :: u8) AND 0x0f) \<le> 15"
proof -
  have "x AND 0x0f \<le> 0x0f" by (rule word_and_le1)
  then show ?thesis by (simp add: word_le_nat_alt)
qed

lemma calculate_truncated:
  assumes key: "rd_slice kb koff (length (k0 # k1 # secret)) = Some (k0 # k1 # secret)"
    and alg: "get_oath_md_info k0 = Some m" and chal: "rd_slice cb coff (length x) = Some x"
    and h: "md_hmac cr m secret x = Some h" and law: "crypto_law cr" and room: "length res \<le> 100"
  shows "calculate_oath cr 1 kb (length (k0 # k1 # secret), koff) cb (length x, coff) res =
    Some (CCID_OK, res @ [5, k1] @ truncated h)"
proof -
  have l: "length h = md_get_size m" using law h by (auto simp: crypto_law_def)
  then have ge: "20 \<le> length h" by (cases m) auto
  have "h \<noteq> []" using ge by auto
  then have lst: "rd h (md_get_size m - 1) = Some (last h)" using l ge by (simp add: rd_def last_conv_nth)
  have k: "span_rd kb (length (k0 # k1 # secret), koff) 0 = Some k0" "span_rd kb (length (k0 # k1 # secret), koff) 1 = Some k1"
    using rd_slice_rd [OF key, of 0] rd_slice_rd [OF key, of 1] by (simp_all add: span_rd_def)
  have kf: "span_from kb (length (k0 # k1 # secret), koff) 2 = Some secret"
  proof -
    have b: "koff + length (k0 # k1 # secret) \<le> length kb" and t: "k0 # k1 # secret = take (length (k0 # k1 # secret)) (drop koff kb)"
      using key unfolding rd_slice_eq_Some by blast+
    have "secret = drop 2 (k0 # k1 # secret)" by simp
    also have "\<dots> = take (length secret) (drop (koff + 2) kb)" by (subst t) (simp add: drop_take add.commute)
    finally show ?thesis using b by (simp add: span_from_def rd_slice_def)
  qed
  have o: "unat (last h AND 0x0f) \<le> 15" by (rule nibble_bound)
  then have r: "rd h (unat (last h AND 0x0f) + i) = Some (h ! (unat (last h AND 0x0f) + i))" if "i \<le> 3" for i
    using ge that by (simp add: rd_def)
  show ?thesis
    using k kf alg chal h lst r [of 0] r [of 1] r [of 2] r [of 3] room
    by (simp add: calculate_oath_def span_bytes_def truncated_def Let_def emit_def res_max_def)
qed

text \<open>
  C38: CALCULATE for a HOTP credential with the counter \<open>n\<close> answers the RFC 4226 truncation of the HMAC of
  \<open>n\<close>, whatever the challenge says, and writes the credential back with the counter \<open>n + 1\<close> (which wraps
  around at 64 bits) and nothing else changed, so that no code is given out twice.
\<close>

theorem hotp_calculate_advances:
  assumes inv: "fs_inv (ofs st)" and ok: "creds_ok (ofs st)" and val: "validated st"
    and find: "List.find (named (ofs st) nm) cred_slots = Some fi" and g: "fget (ofs st) fi = Some (tlvs_bytes tvs)"
    and tvs: "list_all tlv_ok tvs" "length (tlvs_bytes tvs) \<le> 4096"
    and key: "map_of tvs TAG_KEY = Some (k0 # k1 # secret)" "k0 AND OATH_TYPE_MASK = OATH_TYPE_HOTP"
    and alg: "get_oath_md_info k0 = Some m" and imf: "map_of tvs TAG_IMF = Some (be64_bytes n)"
    and h: "md_hmac cr m secret (be64_bytes n) = Some h" and law: "crypto_law cr"
    and c: "P2 c = 1" "object c TAG_CHALLENGE x" "object c TAG_NAME nm"
  shows "\<exists>fs'. cmd_calculate cr c st = ok ([TAG_RESPONSE + 1, 5, k1] @ truncated h) (st\<lparr>ofs := fs'\<rparr>) \<and> fs_inv fs' \<and>
    fget fs' = (fget (ofs st))(fi \<mapsto> tlvs_bytes (AList.update TAG_IMF (be64_bytes (n + 1)) tvs))"
proof -
  let ?d = "tlvs_bytes tvs"
  obtain xo where x: "find_tag (cbuf c) (cnc c) TAG_CHALLENGE = Some (Some (length x, xo))" using c(2) by (auto simp: object_def)
  obtain no where nm: "find_tag (cbuf c) (cnc c) TAG_NAME = Some (Some (length nm, no))"
    "span_bytes (cbuf c) (length nm, no) = Some nm" using c(3) by (auto simp: object_def span_bytes_def)
  have m: "map_of tvs t = map_option snd (first_tlv 0 t tvs)" for t
  proof -
    have "map_of tvs t = map_option snd (first_tlv off t tvs)" for off by (induction tvs arbitrary: off) auto
    then show ?thesis .
  qed
  obtain io where io: "first_tlv 0 TAG_IMF tvs = Some (io, be64_bytes n)" using imf m by auto
  obtain ko where ko: "first_tlv 0 TAG_KEY tvs = Some (ko, k0 # k1 # secret)" using key(1) m by auto
  note i = first_tlv_find [OF tvs(1) io] and k = first_tlv_find [OF tvs(1) ko]
  have hs: "has (ofs st) fi" using named_has find_slot(2) [OF find] by auto
  obtain r where r: "lookup (ofs st) fi = Some r" using has_lookup [OF hs] by blast
  have e: "find_oath_cred (ofs st) (cbuf c) (length nm, no) = Some (Some r)"
    using find_oath_cred_spec [OF inv ok nm(2)] find r by simp
  have b: "file_has_data (ofs st) (Some r) = Some True" "file_bytes (ofs st) (Some r) = Some ?d"
    using file_has_data_lookup [OF inv r] hs file_bytes_lookup [OF inv r] g by simp_all
  obtain fs' where bump: "bump_counter (ofs st) (Some r) ?d (8, io) = Some fs'" "fs_inv fs'"
    "fget fs' = (fget (ofs st))(fi \<mapsto> tlvs_bytes (AList.update TAG_IMF (be64_bytes (n + 1)) tvs))"
    using bump_spec [OF inv r g tvs io] by blast
  have k0: "span_rd ?d (length (k0 # k1 # secret), ko) 0 = Some k0"
    using rd_slice_rd [OF conjunct2 [OF k], of 0] by (simp add: span_rd_def)
  have calc: "calculate_oath cr 1 ?d (length (k0 # k1 # secret), ko) ?d (length (be64_bytes n), io) [TAG_RESPONSE + 1] =
      Some (CCID_OK, [TAG_RESPONSE + 1] @ [5, k1] @ truncated h)"
    using k i alg h law by (intro calculate_truncated) auto
  have "calculate_cred cr c (Some r) ?d (length x, xo) st = ok ([TAG_RESPONSE + 1, 5, k1] @ truncated h) (st\<lparr>ofs := fs'\<rparr>)"
    using k i k0 key(2) calc bump(1) c(1) by (simp add: calculate_cred_def emit_def res_max_def)
  then have "cmd_calculate cr c st = ok ([TAG_RESPONSE + 1, 5, k1] @ truncated h) (st\<lparr>ofs := fs'\<rparr>)"
    using val x nm e b c(1) by (simp add: cmd_calculate_def)
  with bump show ?thesis by blast
qed

text \<open>
  in CALCULATE ALL a credential with an unknown algorithm, which PUT accepts, wipes the answers that were
  collected before it: its own two bytes are all that is left, without its name.
\<close>

theorem calculate_all_loses:
  assumes tvs: "list_all tlv_ok tvs" and nm: "map_of tvs TAG_NAME = Some nm"
    and key: "map_of tvs TAG_KEY = Some (k0 # k1 # secret)" "k0 AND OATH_TYPE_MASK \<noteq> OATH_TYPE_HOTP"
    and alg: "get_oath_md_info k0 = None" and pr: "map_of tvs TAG_PROPERTY = None"
    and room: "length res + length nm + 3 \<le> res_max"
  shows "calculate_one cr c chal (tlvs_bytes tvs) res = Some [1, k1]"
proof -
  let ?d = "tlvs_bytes tvs"
  obtain no where n: "find_tag ?d (length ?d) TAG_NAME = Some (Some (length nm, no))" "rd_slice ?d no (length nm) = Some nm"
    using find_tag_tlvs(2) [OF tvs nm, of "[]"] by auto
  obtain ko where k: "find_tag ?d (length ?d) TAG_KEY = Some (Some (length (k0 # k1 # secret), ko))"
    "rd_slice ?d ko (length (k0 # k1 # secret)) = Some (k0 # k1 # secret)"
    using find_tag_tlvs(2) [OF tvs key(1), of "[]"] by auto
  have kk: "span_rd ?d (length (k0 # k1 # secret), ko) 0 = Some k0" "span_rd ?d (length (k0 # k1 # secret), ko) 1 = Some k1"
    using rd_slice_rd [OF k(2), of 0] rd_slice_rd [OF k(2), of 1] by (simp_all add: span_rd_def)
  have p: "find_tag ?d (length ?d) TAG_PROPERTY = Some None" using find_tag_tlvs(1) [OF tvs pr, of "[]"] by simp
  have "uint SW_INCORRECT_PARAMS \<noteq> CCID_OK" by (simp add: sw_defs ccid_defs)
  then show ?thesis
    using n k kk p key(2) alg room
    by (simp add: calculate_one_def span_bytes_def emit_def calculate_oath_def res_max_def)
qed

section \<open>Witnesses\<close>

text \<open>A HOTP credential: SHA-1, six digits.\<close>

definition hotp_tvs :: "(u8 \<times> bytes) list" where
  "hotp_tvs = [(TAG_NAME, [0x61]), (TAG_KEY, [0x11, 6, 1, 2, 3])]"

lemma slots_Cons: "cred_slots = 0xBA00 # tl cred_slots"
  by (simp add: cred_slots_def MAX_OATH_CRED_def upt_conv_Cons EF_OATH_CRED_def)

lemma hotp_tvs_ok: "list_all tlv_ok hotp_tvs" "map_of hotp_tvs TAG_NAME = Some [0x61]" "map_of hotp_tvs TAG_KEY = Some [0x11, 6, 1, 2, 3]"
    "map_of hotp_tvs TAG_IMF = None"
  by (simp_all add: hotp_tvs_def tlv_ok_def oath_defs)

lemma hotp_type: "(0x11 :: u8) AND OATH_TYPE_MASK = OATH_TYPE_HOTP"
  by (simp add: oath_defs)

lemma hotp_tvs_len: "length (tlvs_bytes (with_imf 0x11 hotp_tvs)) = 20"
  by (simp add: with_imf_def hotp_type hotp_tvs_ok(4) imf_bytes)
    (simp add: hotp_tvs_def tlvs_bytes_def tlv_bytes_def format_tlv_len_def)

theorem put_then_find_witness:
  "\<exists>fs'. cmd_put (tlv_command 1 0 hotp_tvs\<lparr>cbuf := tlvs_bytes hotp_tvs @ replicate 10 0\<rparr>) (oath_boot empty_fs) =
      ok [] (oath_boot empty_fs\<lparr>ofs := fs'\<rparr>) \<and> fs_inv fs' \<and> creds_ok fs' \<and>
    (\<forall>fj. fj \<noteq> 0xBA00 \<longrightarrow> fget fs' fj = fget (ofs (oath_boot empty_fs)) fj) \<and>
    (fget fs' 0xBA00 = None \<or> fget fs' 0xBA00 = Some (tlvs_bytes (with_imf 0x11 hotp_tvs)) \<and>
      (\<forall>b s. span_bytes b s = Some [0x61] \<longrightarrow> find_oath_cred fs' b s = Some (lookup fs' 0xBA00)))"
proof (rule put_then_find)
  have "List.find (named empty_fs [0x61]) cred_slots = None" by (simp add: find_None_iff named_def empty_fget)
  moreover have "List.find (\<lambda>fi. \<not> has empty_fs fi) cred_slots = Some 0xBA00"
    by (subst slots_Cons) (simp add: has_def empty_fget)
  ultimately show "put_target (ofs (oath_boot empty_fs)) [0x61] = Some 0xBA00" by (simp add: put_target_def)
  show "creds_ok (ofs (oath_boot empty_fs))" by (simp add: creds_ok_def empty_fget)
  show "map_of hotp_tvs TAG_KEY = Some (0x11 # [6, 1, 2, 3])" by (rule hotp_tvs_ok)
  show "case map_of hotp_tvs TAG_IMF of None \<Rightarrow> 10 \<le> length (replicate 10 (0 :: u8)) | Some v \<Rightarrow> 8 \<le> length v"
    by (simp add: hotp_tvs_ok)
qed (simp_all add: hotp_tvs_ok empty_fs_inv tlv_command_def hotp_tvs_len)

text \<open>The same credential in the first file, with the counter 41.\<close>

definition hotp_full :: "(u8 \<times> bytes) list" where "hotp_full = hotp_tvs @ [(TAG_IMF, be64_bytes 41)]"

definition hotp_fs :: fs where "hotp_fs = single_fs 0xBA00 (tlvs_bytes hotp_full)"

lemma hotp_full_ok: "list_all tlv_ok hotp_full" "map_of hotp_full TAG_NAME = Some [0x61]"
    "map_of hotp_full TAG_KEY = Some [0x11, 6, 1, 2, 3]" "map_of hotp_full TAG_IMF = Some (be64_bytes 41)"
    "length (tlvs_bytes hotp_full) = 20"
  by (simp_all add: hotp_full_def hotp_tvs_def tlv_ok_def oath_defs tlvs_bytes_def tlv_bytes_def format_tlv_len_def)

lemma hotp_fs: "fs_inv hotp_fs" "fget hotp_fs = [0xBA00 \<mapsto> tlvs_bytes hotp_full]"
proof -
  have "0xBA00 \<in> set cred_slots" by (subst slots_Cons) simp
  then have "dyn_fid 0xBA00" by (rule cred_slots_dyn)
  then show "fs_inv hotp_fs" "fget hotp_fs = [0xBA00 \<mapsto> tlvs_bytes hotp_full]"
    using single_fs [of "0xBA00" "tlvs_bytes hotp_full"] hotp_full_ok(5) by (simp_all add: hotp_fs_def)
qed

lemma hotp_name: "value_of (tlvs_bytes hotp_full) 20 TAG_NAME = Some (Some [0x61])"
  using value_of_tlvs0 [OF hotp_full_ok(1), of TAG_NAME] hotp_full_ok by simp

theorem hotp_calculate_advances_witness:
  "\<exists>fs'. cmd_calculate sample_crypto (tlv_command 0xa2 1 [(TAG_NAME, [0x61]), (TAG_CHALLENGE, [])]) (oath_boot hotp_fs) =
      ok ([TAG_RESPONSE + 1, 5, 6] @ truncated (toy_hash 20 ([1, 2, 3] @ be64_bytes 41))) (oath_boot hotp_fs\<lparr>ofs := fs'\<rparr>) \<and>
    fs_inv fs' \<and>
    fget fs' = (fget (ofs (oath_boot hotp_fs)))(0xBA00 \<mapsto> tlvs_bytes (AList.update TAG_IMF (be64_bytes (41 + 1)) hotp_full))"
proof (rule hotp_calculate_advances)
  show "creds_ok (ofs (oath_boot hotp_fs))" using hotp_name hotp_full_ok by (simp add: creds_ok_def hotp_fs)
  have "tlvs_bytes hotp_full \<noteq> []" using hotp_full_ok(5) by auto
  then have n: "named hotp_fs [0x61] 0xBA00" using hotp_name hotp_full_ok by (simp add: named_def hotp_fs)
  then show "List.find (named (ofs (oath_boot hotp_fs)) [0x61]) cred_slots = Some 0xBA00" by (subst slots_Cons) simp
  show "get_oath_md_info 0x11 = Some MD_SHA1" by (simp add: get_oath_md_info_def oath_defs)
  show "object (tlv_command 0xa2 1 [(TAG_NAME, [0x61]), (TAG_CHALLENGE, [])]) TAG_CHALLENGE []"
    by (rule tlv_command_object) (simp_all add: tlv_ok_def oath_defs)
  show "object (tlv_command 0xa2 1 [(TAG_NAME, [0x61]), (TAG_CHALLENGE, [])]) TAG_NAME [0x61]"
    by (rule tlv_command_object) (simp_all add: tlv_ok_def oath_defs)
qed (simp_all add: hotp_fs hotp_full_ok hotp_type sample_crypto_law, simp_all add: sample_crypto_def tlv_command_def)

theorem calculate_all_loses_witness:
  "calculate_one sample_crypto (tlv_command 0xa4 1 []) (0, 0)
     (tlvs_bytes [(TAG_NAME, [0x62]), (TAG_KEY, [0x24, 8, 1])]) [1, 2, 3, 4] = Some [1, 8]"
  by (rule calculate_all_loses [of _ "[0x62]" "0x24" 8 "[1]"])
    (simp_all add: tlv_ok_def oath_defs get_oath_md_info_def res_max_def)

end

