(* ===== verification/Samples.thy ===== *)
theory Samples
  imports Applet
begin

text \<open>
  File systems for concrete runs: \<open>token_fs\<close> stores a list of files, with an allocator that has room for two
  hundred records, and has exactly these contents.
\<close>

definition roomy :: "bool \<Rightarrow> store \<Rightarrow> nat \<Rightarrow> nat option" where
  "roomy p s n = List.find (\<lambda>d. s d = None) [0 ..< 200]"

definition roomy_fs :: fs where "roomy_fs = boot_fs (\<lambda>_. None) roomy"

fun token_fs :: "(u16 \<times> bytes) list \<Rightarrow> fs" where
  "token_fs [] = roomy_fs"
| "token_fs ((fi, bs) # files) = snd (the (store_file (token_fs files) fi bs))"

lemma roomy_law: "pick_law roomy"
  unfolding pick_law_def roomy_def find_Some_iff by auto

lemma roomy_finds:
  assumes "finite (dom s)" and "card (dom s) < 200"
  shows "\<exists>d. roomy p s n = Some d"
proof (cases "roomy p s n")
  case None
  then have "\<forall>d \<in> {0 ..< 200}. s d \<noteq> None" by (simp add: roomy_def find_None_iff)
  then have "{0 ..< 200} \<subseteq> dom s" by auto
  then have "card {0 ..< 200 :: nat} \<le> card (dom s)" using assms(1) by (rule card_mono [rotated])
  then show ?thesis using assms(2) by simp
qed simp

text \<open>The allocator has room for \<open>k\<close> more records.\<close>

definition has_room :: "nat \<Rightarrow> fs \<Rightarrow> bool" where
  "has_room k fs \<longleftrightarrow> pick fs = roomy \<and> finite (dom (store fs)) \<and> card (dom (store fs)) + k \<le> 200 \<and> dynamic_files fs + k \<le> 128"

lemma roomy_room: "fs_inv roomy_fs" "fget roomy_fs = Map.empty" "has_room 100 roomy_fs" "dynamic_files roomy_fs = 0"
    "dyn_fid fi \<Longrightarrow> lookup roomy_fs fi = None"
proof -
  show i: "fs_inv roomy_fs" "fget roomy_fs = Map.empty"
    unfolding roomy_fs_def by (rule boot_fs_inv, rule roomy_law)+
  show "has_room 100 roomy_fs" "dynamic_files roomy_fs = 0" by (simp_all add: roomy_fs_def has_room_def boot_fs_def)
  show "dyn_fid fi \<Longrightarrow> lookup roomy_fs fi = None"
    using dyn_lookup [OF i(1), of fi] by (simp add: roomy_fs_def boot_fs_def search_dynamic_file_def)
qed

lemma new_file_room:
  assumes "fs_inv fs" and "has_room (Suc k) fs"
  shows "\<exists>r fs1. file_new fs fi = (Some r, fs1) \<and> lookup fs1 fi = Some r \<and> fs_inv fs1 \<and> fget fs1 = fget fs \<and>
    pick fs1 = pick fs \<and> store fs1 = store fs \<and>
    (if lookup fs fi = None then lookup fs1 = (lookup fs)(fi \<mapsto> Dynamic (dynamic_files fs)) \<and> dynamic_files fs1 = dynamic_files fs + 1
     else fs1 = fs)"
proof (cases "lookup fs fi")
  case None
  have "dynamic_files fs < 128" using assms(2) by (simp add: has_room_def)
  from file_new_fresh [OF assms(1) None this] None show ?thesis by simp
next
  case (Some r)
  from file_new_existing [OF assms(1) Some] show ?thesis using Some assms(1) by simp
qed

lemma store_room:
  assumes inv: "fs_inv fs" and room: "has_room (Suc k) fs" and none: "fget fs fi = None" and len: "length bs \<le> 4096"
  shows "\<exists>fs'. store_file fs fi bs = Some (CCID_OK, fs') \<and> fs_inv fs' \<and> has_room k fs' \<and> fget fs' = (fget fs)(fi \<mapsto> bs) \<and>
    (lookup fs fi = None \<longrightarrow> lookup fs' = (lookup fs)(fi \<mapsto> Dynamic (dynamic_files fs)) \<and> dynamic_files fs' = dynamic_files fs + 1)"
proof -
  obtain r fs1 where n: "file_new fs fi = (Some r, fs1)" "lookup fs1 fi = Some r" "fs_inv fs1" "fget fs1 = fget fs"
    "pick fs1 = pick fs" "store fs1 = store fs"
    "if lookup fs fi = None then lookup fs1 = (lookup fs)(fi \<mapsto> Dynamic (dynamic_files fs)) \<and> dynamic_files fs1 = dynamic_files fs + 1
     else fs1 = fs" using new_file_room [OF inv room] by blast
  have fin: "finite (dom (store fs))" "card (dom (store fs)) + Suc k \<le> 200" "pick fs = roomy" "dynamic_files fs + Suc k \<le> 128"
    using room by (simp_all add: has_room_def)
  obtain f where f: "deref_file fs1 r = Some f" using lookup_deref [OF n(3,2)] by blast
  have no: "data f = None"
    using fget_at [OF n(3,2) f] n(4) none fs_inv_store [OF n(3,2) f] by (auto simp: record_at_def split: option.splits)
  obtain d where d: "roomy (ftype f AND FILE_PERSISTENT = FILE_PERSISTENT) (store fs) (length bs) = Some d"
    using roomy_finds [of "store fs"] fin by auto
  define fs' where "fs' = upd_file (data_update (\<lambda>_. Some d)) r (fs1\<lparr>store := (store fs1)(d \<mapsto> (fid f, bs))\<rparr>)"
  have w: "write_file fs1 (Some r) bs = Some (CCID_OK, fs')"
    using f no len d fin(3) n(5,6) by (simp add: write_file_def file_get_size_def flash_sizes new_record_def fs'_def)
  then have s: "store_file fs fi bs = Some (CCID_OK, fs')" using n(1) by (simp add: store_file_def)
  have l: "lookup fs' = lookup fs1" using write_file_spec [OF n(3,2) len] w by simp
  have t: "pick fs' = pick fs1" "store fs' = (store fs)(d \<mapsto> (fid f, bs))" "dynamic_files fs' = dynamic_files fs1"
    using n(6) by (cases r; simp add: fs'_def)+
  have "card (insert d (dom (store fs))) \<le> Suc (card (dom (store fs)))" by (rule card_insert_le_m1) simp_all
  then have "has_room k fs'" using t n(5,7) fin by (auto simp: has_room_def split: if_splits)
  moreover have "fs_inv fs'" "fget fs' = (fget fs)(fi \<mapsto> bs)"
    using store_file_spec [OF inv len, of fi] s by (auto simp: ccid_defs)
  ultimately show ?thesis using s l n(7) t(3) by auto
qed

lemma token_fs_room:
  "distinct (map fst files) \<Longrightarrow> list_all (\<lambda>(fi, bs). length bs \<le> 4096) files \<Longrightarrow> length files \<le> 100 \<Longrightarrow>
     fs_inv (token_fs files) \<and> fget (token_fs files) = map_of files \<and> has_room (100 - length files) (token_fs files)"
proof (induction files)
  case Nil
  then show ?case using roomy_room by simp
next
  case (Cons f files)
  obtain fi bs where f: "f = (fi, bs)" by (cases f)
  have ih: "fs_inv (token_fs files)" "fget (token_fs files) = map_of files" "has_room (Suc (100 - length (f # files))) (token_fs files)"
    using Cons Suc_diff_Suc [of "length files" 100] by (auto simp: Suc_diff_le)
  have "fget (token_fs files) fi = None" using ih(2) Cons.prems(1) f by (simp add: map_of_eq_None_iff)
  from store_room [OF ih(1,3) this, of bs] Cons.prems(2) f show ?case by (auto simp: ih(2))
qed

text \<open>The form in which concrete runs use it.\<close>

lemma token_fs:
  assumes "distinct (map fst files)" and "list_all (\<lambda>(fi, bs). length bs \<le> 4096) files" and "length files \<le> 100"
  shows "fs_inv (token_fs files)" and "fget (token_fs files) = map_of files"
  using token_fs_room [OF assms] by simp_all

end
