(* ===== verification/Otp.thy ===== *)
theory Otp
  imports Oath Hid Samples
begin

text \<open>
  The OTP application, \<^verbatim>\<open>src/fido/otp.c\<close>: the two slots with their 52-byte configuration, the commands that
  configure, update, swap and query them, the one-time passwords that the button types, and the transport
  of the commands in feature reports of the keyboard.  A slot file is the configuration and eight more bytes
  with the usage counter or the moving factor.  The board and AES are parameters; the serial number
  and the clock are arguments.
\<close>

section \<open>Constants and state\<close>

definition FIXED_SIZE :: nat where "FIXED_SIZE = 16"
definition KEY_SIZE :: nat where "KEY_SIZE = 16"
definition UID_SIZE :: nat where "UID_SIZE = 6"
definition ACC_CODE_SIZE :: nat where "ACC_CODE_SIZE = 6"
definition CONFIG1_VALID :: u8 where "CONFIG1_VALID = 0x01"
definition CONFIG2_VALID :: u8 where "CONFIG2_VALID = 0x02"
definition CONFIG1_TOUCH :: u8 where "CONFIG1_TOUCH = 0x04"
definition CONFIG2_TOUCH :: u8 where "CONFIG2_TOUCH = 0x08"
definition EXTFLAG_UPDATE_MASK :: u8 where "EXTFLAG_UPDATE_MASK = 0xff"
definition APPEND_CR :: u8 where "APPEND_CR = 0x20"
definition OATH_HOTP :: u8 where "OATH_HOTP = 0x40"
definition CHAL_RESP :: u8 where "CHAL_RESP = 0x40"
definition TKTFLAG_UPDATE_MASK :: u8 where "TKTFLAG_UPDATE_MASK = 0x3f"
definition STATIC_TICKET :: u8 where "STATIC_TICKET = 0x20"
definition SHORT_TICKET :: u8 where "SHORT_TICKET = 0x02"
definition CHAL_YUBICO :: u8 where "CHAL_YUBICO = 0x20"
definition OATH_HOTP8 :: u8 where "OATH_HOTP8 = 0x02"
definition CFGFLAG_UPDATE_MASK :: u8 where "CFGFLAG_UPDATE_MASK = 0x0c"

text \<open>\<^verbatim>\<open>otp_config_t\<close>: the offsets of the packed structure and its size.\<close>

definition otp_config_size :: nat where "otp_config_size = 52"
definition off_uid :: nat where "off_uid = 16"
definition off_aes_key :: nat where "off_aes_key = 22"
definition off_acc_code :: nat where "off_acc_code = 38"
definition off_fixed_size :: nat where "off_fixed_size = 44"
definition off_ext_flags :: nat where "off_ext_flags = 45"
definition off_tkt_flags :: nat where "off_tkt_flags = 46"
definition off_cfg_flags :: nat where "off_cfg_flags = 47"
definition off_rfu :: nat where "off_rfu = 48"

lemmas otp_offs = FIXED_SIZE_def KEY_SIZE_def UID_SIZE_def ACC_CODE_SIZE_def otp_config_size_def off_uid_def off_aes_key_def
  off_acc_code_def off_fixed_size_def off_ext_flags_def off_tkt_flags_def off_cfg_flags_def off_rfu_def

record otp_env =
  rescan :: "fs \<Rightarrow> fs"
  board_id_string :: "nat \<Rightarrow> bytes"
  aes_ecb :: "bytes \<Rightarrow> bytes \<Rightarrow> bytes"

record otp =
  pfs :: fs
  config_seq :: u8
  scanned :: bool
  session_counter :: bytes
  keyboard :: kbd
  otp_rlen :: nat
  otp_frame_rx :: bytes
  otp_frame_tx :: bytes
  otp_exp_seq :: u8
  otp_curr_seq :: u8
  otp_send_size :: nat

definition slot_fid :: "bool \<Rightarrow> u16" where
  "slot_fid first = (if first then EF_OTP_SLOT1 else EF_OTP_SLOT2)"

section \<open>Checksum and alphabet\<close>

definition crc_bit :: "u16 \<Rightarrow> u16" where
  "crc_bit crc = (if crc AND 1 = 1 then drop_bit 1 crc XOR 0x8408 else drop_bit 1 crc)"

definition crc_byte :: "u16 \<Rightarrow> u8 \<Rightarrow> u16" where
  "crc_byte crc b = (crc_bit ^^ 8) (crc XOR ucast b)"

definition calculate_crc :: "bytes \<Rightarrow> u16" where
  "calculate_crc d = foldl crc_byte 0xFFFF d"

definition check_crc :: "bytes \<Rightarrow> bool" where
  "check_crc d \<longleftrightarrow> calculate_crc d = 0xF0B8"

text \<open>The characters \<^verbatim>\<open>cbdefghijklnrtuv\<close>.\<close>

definition modhex_tab :: bytes where
  "modhex_tab = [0x63, 0x62, 0x64, 0x65, 0x66, 0x67, 0x68, 0x69, 0x6a, 0x6b, 0x6c, 0x6e, 0x72, 0x74, 0x75, 0x76]"

fun encode_modhex :: "bytes \<Rightarrow> bytes" where
  "encode_modhex [] = []"
| "encode_modhex (b # bs) = modhex_tab ! unat (drop_bit 4 b) # modhex_tab ! unat (b AND 0xf) # encode_modhex bs"

section \<open>Status, selection and start-up\<close>

definition slots_valid :: "fs \<Rightarrow> (bool \<times> bool) option" where
  "slots_valid fs = do {
     a \<leftarrow> file_has_data fs (search_dynamic_file fs EF_OTP_SLOT1);
     b \<leftarrow> file_has_data fs (search_dynamic_file fs EF_OTP_SLOT2);
     Some (a, b)
   }"

text \<open>The bytes 1 to 6 that \<^verbatim>\<open>otp_status\<close> writes; it leaves the length of the response at 0.\<close>

definition otp_status :: "otp_env \<Rightarrow> otp \<Rightarrow> (bytes \<times> otp) option" where
  "otp_status env st = do {
     let st = (if scanned st then st else st\<lparr>pfs := rescan env (pfs st), scanned := True\<rparr>);
     (a, b) \<leftarrow> slots_valid (pfs st);
     Some ([PICO_FIDO_VERSION_MAJOR, PICO_FIDO_VERSION_MINOR, 0, config_seq st,
            CONFIG2_TOUCH OR CONFIG1_TOUCH OR (if a then CONFIG1_VALID else 0) OR (if b then CONFIG2_VALID else 0), 0],
           st\<lparr>otp_rlen := 0\<rparr>)
   }"

definition otp_select :: "otp_env \<Rightarrow> otp \<Rightarrow> (int \<times> bytes \<times> otp) option" where
  "otp_select env st = do {
     cap \<leftarrow> cap_supported (pfs st) CAP_OTP;
     if \<not> cap then Some (CCID_ERR_FILE_NOT_FOUND, [], st)
     else do {
       (a, b) \<leftarrow> slots_valid (pfs st);
       (res, st) \<leftarrow> otp_status env (st\<lparr>config_seq := (if a \<or> b then 1 else 0)\<rparr>);
       Some (CCID_OK, res, st\<lparr>otp_rlen := 6\<rparr>)
     }
   }"

text \<open>A Yubico OTP slot: neither HOTP nor a static password.\<close>

definition counter_of :: "bytes \<Rightarrow> u16 option" where
  "counter_of d = do {
     h \<leftarrow> rd d otp_config_size;
     l \<leftarrow> rd d (otp_config_size + 1);
     Some (make_uint16_t h l)
   }"

text \<open>\<^verbatim>\<open>new_data\<close>: the configuration and eight more bytes, with the counter.\<close>

definition with_counter :: "bytes \<Rightarrow> u16 \<Rightarrow> bytes option" where
  "with_counter d n = do {
     new_data \<leftarrow> rd_slice d 0 (otp_config_size + 8);
     Some (new_data[otp_config_size := ucast (drop_bit 8 n), otp_config_size + 1 := ucast n])
   }"

definition init_slot :: "fs \<Rightarrow> u16 \<Rightarrow> fs option" where
  "init_slot fs fi = do {
     let ef = search_dynamic_file fs fi;
     h \<leftarrow> file_has_data fs ef;
     if \<not> h then Some fs
     else do {
       d \<leftarrow> file_bytes fs ef;
       tkt \<leftarrow> rd d off_tkt_flags;
       cfg \<leftarrow> rd d off_cfg_flags;
       if tkt AND OATH_HOTP = 0 \<and> \<not> (cfg AND SHORT_TICKET \<noteq> 0 \<or> cfg AND STATIC_TICKET \<noteq> 0) then do {
         n \<leftarrow> counter_of d;
         if n + 1 \<le> 0x7fff then do {
           new_data \<leftarrow> with_counter d (n + 1);
           (_, fs) \<leftarrow> write_file fs ef new_data;
           Some fs
         } else Some fs
       } else Some fs
     }
   }"

definition init_otp :: "otp_env \<Rightarrow> otp \<Rightarrow> otp option" where
  "init_otp env st =
     (if scanned st then Some st
      else do {
        fs \<leftarrow> init_slot (rescan env (pfs st)) EF_OTP_SLOT1;
        fs \<leftarrow> init_slot fs EF_OTP_SLOT2;
        Some (st\<lparr>pfs := fs, scanned := True\<rparr>)
      })"

section \<open>The button\<close>

text \<open>\<^verbatim>\<open>sprintf\<close> with \<^verbatim>\<open>%06lu\<close> or \<^verbatim>\<open>%08lu\<close>, for a number of at most so many digits.\<close>

definition decimal :: "nat \<Rightarrow> nat \<Rightarrow> bytes" where
  "decimal n v = map (\<lambda>i. of_nat (0x30 + v div 10 ^ (n - 1 - i) mod 10)) [0 ..< n]"

text \<open>
  The moving factor behind the configuration.  The fifth byte is shifted as an \<^verbatim>\<open>int\<close>: when its top bit is
  set, the sign fills the upper half.
\<close>

definition hotp_imf :: "bytes \<Rightarrow> u64" where
  "hotp_imf p = push_bit 56 (ucast (p ! 0)) OR push_bit 48 (ucast (p ! 1)) OR push_bit 40 (ucast (p ! 2)) OR
     push_bit 32 (ucast (p ! 3)) OR scast (push_bit 24 (ucast (p ! 4)) :: u32) OR push_bit 16 (ucast (p ! 5)) OR
     push_bit 8 (ucast (p ! 6)) OR ucast (p ! 7)"

definition append_cr :: "bytes \<Rightarrow> u8 \<Rightarrow> otp \<Rightarrow> otp" where
  "append_cr cr tkt st =
     (if tkt AND APPEND_CR \<noteq> 0 then st\<lparr>keyboard := append_keyboard_buffer cr (keyboard st)\<rparr> else st)"

text \<open>HOTP; \<open>junk\<close> is the uninitialised second byte of \<^verbatim>\<open>tmp_key\<close>.\<close>

definition press_hotp :: "crypto \<Rightarrow> u8 \<Rightarrow> file_ref option \<Rightarrow> bytes \<Rightarrow> u8 \<Rightarrow> u8 \<Rightarrow> otp \<Rightarrow> otp option" where
  "press_hotp cr junk ef d tkt cfg st = do {
     key \<leftarrow> rd_slice d off_aes_key KEY_SIZE;
     p \<leftarrow> rd_slice d otp_config_size 8;
     u4 \<leftarrow> rd d (off_uid + 4);
     u5 \<leftarrow> rd d (off_uid + 5);
     let imf = (if hotp_imf p = 0 then push_bit 4 (push_bit 8 (ucast u4) OR ucast u5) else hotp_imf p);
     (ret, res) \<leftarrow> calculate_oath cr 1 ([0x01, junk] @ key) (KEY_SIZE + 2, 0) (be64_bytes imf) (8, 0) [];
     if ret = CCID_OK then do {
       let number = unat (be32_val (res ! 2) (res ! 3) (res ! 4) (res ! 5));
       let n = (if cfg AND OATH_HOTP8 \<noteq> 0 then 8 else 6);
       let st = st\<lparr>keyboard := add_keyboard_buffer (decimal n (number mod 10 ^ n)) True (keyboard st)\<rparr>;
       config \<leftarrow> rd_slice d 0 otp_config_size;
       (_, fs) \<leftarrow> write_file (pfs st) ef (config @ be64_bytes (imf + 1));
       Some (append_cr [0x0d] tkt (st\<lparr>pfs := fs, otp_rlen := 6\<rparr>))
     } else Some (append_cr [0x0d] tkt (st\<lparr>otp_rlen := 0\<rparr>))
   }"

definition press_static :: "bytes \<Rightarrow> u8 \<Rightarrow> otp \<Rightarrow> otp option" where
  "press_static d tkt st = do {
     s \<leftarrow> rd_slice d 0 (FIXED_SIZE + UID_SIZE + KEY_SIZE);
     Some (append_cr [0x28] tkt (st\<lparr>keyboard := add_keyboard_buffer s False (keyboard st)\<rparr>))
   }"

text \<open>
  Yubico OTP: public identity, and the encrypted block of private identity, usage counter, time stamp,
  session counter, two random bytes and checksum.  \<open>counter_of\<close> is the stored usage counter.
\<close>

definition otp_block :: "bytes \<Rightarrow> u16 \<Rightarrow> u32 \<Rightarrow> u8 \<Rightarrow> bytes \<Rightarrow> bytes" where
  "otp_block uid counter ts session rnd =
     (let b = uid @ [ucast counter, ucast (drop_bit 8 counter), ucast ts, ucast (drop_bit 8 ts), ucast (drop_bit 16 ts), session] @ rnd;
          crc = calculate_crc b
      in b @ [ucast (NOT crc), ucast (drop_bit 8 (NOT crc))])"

definition press_yubico :: "otp_env \<Rightarrow> nat \<Rightarrow> u32 \<Rightarrow> bytes \<Rightarrow> file_ref option \<Rightarrow> bytes \<Rightarrow> u8 \<Rightarrow> otp \<Rightarrow> otp option" where
  "press_yubico env num millis rnd ef d tkt st = do {
     stored \<leftarrow> counter_of d;
     let counter = (if stored = 0 then 1 else stored);
     fixed \<leftarrow> rd_slice d 0 6;
     uid \<leftarrow> rd_slice d off_uid UID_SIZE;
     key \<leftarrow> rd_slice d off_aes_key KEY_SIZE;
     session \<leftarrow> rd (session_counter st) (num - 1);
     let otpk = fixed @ aes_ecb env key (otp_block uid counter (drop_bit 3 (millis div 1000)) session rnd);
     let st = append_cr [0x0d] tkt (st\<lparr>keyboard := add_keyboard_buffer (encode_modhex otpk) True (keyboard st)\<rparr>);
     let st = st\<lparr>session_counter := (session_counter st)[num - 1 := session + 1]\<rparr>;
     let wraps = (session + 1 = 0 \<and> counter + 1 \<le> 0x7fff);
     let next = (if session + 1 = 0 then counter + 1 else counter);
     if stored = 0 \<or> wraps then do {
       new_data \<leftarrow> with_counter d next;
       (_, fs) \<leftarrow> write_file (pfs st) ef new_data;
       Some (st\<lparr>pfs := fs\<rparr>)
     } else Some st
   }"

definition otp_button_pressed :: "otp_env \<Rightarrow> crypto \<Rightarrow> nat \<Rightarrow> u32 \<Rightarrow> bytes \<Rightarrow> u8 \<Rightarrow> otp \<Rightarrow> (int \<times> otp) option" where
  "otp_button_pressed env cr num millis rnd junk st = do {
     st \<leftarrow> init_otp env st;
     cap \<leftarrow> cap_supported (pfs st) CAP_OTP;
     if \<not> cap then Some (3, st)
     else do {
       let ef = search_dynamic_file (pfs st) (slot_fid (num = 1));
       h \<leftarrow> file_has_data (pfs st) ef;
       if \<not> h then Some (1, st)
       else do {
         d \<leftarrow> file_bytes (pfs st) ef;
         tkt \<leftarrow> rd d off_tkt_flags;
         cfg \<leftarrow> rd d off_cfg_flags;
         if cfg AND CHAL_YUBICO \<noteq> 0 \<and> tkt AND CHAL_RESP \<noteq> 0 then Some (2, st)
         else if tkt AND OATH_HOTP \<noteq> 0 then map_option (Pair 0) (press_hotp cr junk ef d tkt cfg st)
         else if cfg AND SHORT_TICKET \<noteq> 0 \<or> cfg AND STATIC_TICKET \<noteq> 0 then map_option (Pair 0) (press_static d tkt st)
         else map_option (Pair 0) (press_yubico env num millis rnd ef d tkt st)
       }
     }
   }"

section \<open>The command\<close>

text \<open>
  \<^verbatim>\<open>apdu.data\<close> is read at fixed offsets, whatever \<^verbatim>\<open>apdu.nc\<close> says.  \<open>res\<close> is the response as it was when the
  command began: not every branch sets its length.
\<close>

definition status_reply :: "otp_env \<Rightarrow> otp \<Rightarrow> otp reply" where
  "status_reply env st = do {
     (_, st) \<leftarrow> otp_status env st;
     ok [] st
   }"

definition otp_err :: "u16 \<Rightarrow> otp \<Rightarrow> otp reply" where
  "otp_err w st = err w (st\<lparr>otp_rlen := 0\<rparr>)"

definition access_ok :: "command \<Rightarrow> bytes \<Rightarrow> bool option" where
  "access_ok c d = do {
     acc \<leftarrow> rd_slice d off_acc_code ACC_CODE_SIZE;
     given \<leftarrow> rd_slice (cbuf c) otp_config_size ACC_CODE_SIZE;
     Some (acc = given)
   }"

definition config_valid :: "bytes \<Rightarrow> bool" where
  "config_valid d \<longleftrightarrow> d ! off_rfu = 0 \<and> d ! (off_rfu + 1) = 0 \<and> check_crc d"

definition otp_configure :: "otp_env \<Rightarrow> command \<Rightarrow> otp \<Rightarrow> otp reply" where
  "otp_configure env c st = do {
     let (ef, fs) = file_new (pfs st) (slot_fid (P1 c = 0x01));
     let st = st\<lparr>pfs := fs\<rparr>;
     h \<leftarrow> file_has_data fs ef;
     allowed \<leftarrow> (if h then do { d \<leftarrow> file_bytes fs ef; access_ok c d } else Some True);
     if \<not> allowed then otp_err SW_SECURITY_STATUS_NOT_SATISFIED st
     else do {
       d \<leftarrow> rd_slice (cbuf c) 0 otp_config_size;
       if \<exists>b \<in> set d. b \<noteq> 0 then
         if \<not> config_valid d then otp_err SW_WRONG_DATA st
         else do {
           buf \<leftarrow> wr_slice (cbuf c) otp_config_size (replicate 8 0);
           new_data \<leftarrow> rd_slice buf 0 (otp_config_size + 8);
           (_, fs) \<leftarrow> write_file fs ef new_data;
           status_reply env (st\<lparr>pfs := fs, config_seq := config_seq st + 1\<rparr>)
         }
       else do {
         (_, fs) \<leftarrow> delete_file fs ef;
         (a, b) \<leftarrow> slots_valid fs;
         status_reply env (st\<lparr>pfs := fs, config_seq := (if \<not> a \<and> \<not> b then 0 else config_seq st)\<rparr>)
       }
     }
   }"

text \<open>The flags that an update may change.\<close>

definition updated_config :: "bytes \<Rightarrow> bytes \<Rightarrow> bytes" where
  "updated_config old new = (take (FIXED_SIZE + UID_SIZE + KEY_SIZE) old @ drop (FIXED_SIZE + UID_SIZE + KEY_SIZE) new)
     [off_fixed_size := old ! off_fixed_size,
      off_ext_flags := (old ! off_ext_flags AND NOT EXTFLAG_UPDATE_MASK) OR (new ! off_ext_flags AND EXTFLAG_UPDATE_MASK),
      off_tkt_flags := (old ! off_tkt_flags AND NOT TKTFLAG_UPDATE_MASK) OR (new ! off_tkt_flags AND TKTFLAG_UPDATE_MASK),
      off_cfg_flags := (old ! off_cfg_flags AND NOT CFGFLAG_UPDATE_MASK) OR (new ! off_cfg_flags AND CFGFLAG_UPDATE_MASK)]"

definition otp_update :: "command \<Rightarrow> bytes \<Rightarrow> otp \<Rightarrow> otp reply" where
  "otp_update c res st = do {
     new \<leftarrow> rd_slice (cbuf c) 0 otp_config_size;
     if \<not> config_valid new then otp_err SW_WRONG_DATA st
     else do {
       let ef = search_dynamic_file (pfs st) (slot_fid (P1 c = 0x04));
       h \<leftarrow> file_has_data (pfs st) ef;
       if \<not> h then ok res st
       else do {
         d \<leftarrow> file_bytes (pfs st) ef;
         allowed \<leftarrow> access_ok c d;
         if \<not> allowed then otp_err SW_SECURITY_STATUS_NOT_SATISFIED st
         else do {
           old \<leftarrow> rd_slice d 0 otp_config_size;
           (_, fs) \<leftarrow> write_file (pfs st) ef (updated_config old new);
           ok res (st\<lparr>pfs := fs\<rparr>)
         }
       }
     }
   }"

text \<open>
  \<^verbatim>\<open>tmp\<close> has room for 60 bytes; what the file does not fill keeps what the stack had, \<open>junk\<close>.  The
  references \<^verbatim>\<open>ef1\<close> and \<^verbatim>\<open>ef2\<close> are taken before anything is deleted.
\<close>

definition otp_swap :: "(nat \<Rightarrow> u8) \<Rightarrow> bytes \<Rightarrow> otp \<Rightarrow> otp reply" where
  "otp_swap junk res st = do {
     let (ef1, fs) = file_new (pfs st) EF_OTP_SLOT1;
     let (ef2, fs) = file_new fs EF_OTP_SLOT2;
     ef1_data \<leftarrow> file_has_data fs ef1;
     tmp \<leftarrow> (if ef1_data then do {
         d \<leftarrow> file_bytes fs ef1;
         wr_slice (map junk [0 ..< otp_config_size + 8]) 0 d
       } else Some []);
     h2 \<leftarrow> file_has_data fs ef2;
     fs \<leftarrow> (if h2 then do {
         d \<leftarrow> file_bytes fs ef2;
         map_option snd (write_file fs ef1 d)
       } else map_option snd (delete_file fs ef1));
     fs \<leftarrow> (if ef1_data then map_option snd (write_file fs ef2 tmp) else map_option snd (delete_file fs ef2));
     ok res (st\<lparr>pfs := fs\<rparr>)
   }"

text \<open>
  Challenge-response.  The result of HMAC is not tested; a failure leaves the old bytes in the response and
  has no value here.
\<close>

definition otp_challenge :: "otp_env \<Rightarrow> crypto \<Rightarrow> command \<Rightarrow> bytes \<Rightarrow> otp \<Rightarrow> otp reply" where
  "otp_challenge env cr c res st = do {
     let ef = search_dynamic_file (pfs st) (slot_fid (P1 c = 0x30 \<or> P1 c = 0x20));
     h \<leftarrow> file_has_data (pfs st) ef;
     if \<not> h then ok res st
     else do {
       d \<leftarrow> file_bytes (pfs st) ef;
       cfg \<leftarrow> rd d off_cfg_flags;
       tkt \<leftarrow> rd d off_tkt_flags;
       if \<not> (cfg AND CHAL_YUBICO \<noteq> 0 \<and> tkt AND CHAL_RESP \<noteq> 0) then otp_err SW_WRONG_DATA st
       else do {
         key \<leftarrow> rd_slice d off_aes_key KEY_SIZE;
         if P1 c = 0x30 \<or> P1 c = 0x38 then do {
           x \<leftarrow> rd_slice (cbuf c) 0 8;
           hm \<leftarrow> md_hmac cr MD_SHA1 key x;
           ok hm (st\<lparr>otp_rlen := 20\<rparr>)
         } else do {
           x \<leftarrow> rd_slice (cbuf c) 0 6;
           ok (aes_ecb env key (x @ board_id_string env 10)) (st\<lparr>otp_rlen := 16\<rparr>)
         }
       }
     }
   }"

definition cmd_otp :: "otp_env \<Rightarrow> crypto \<Rightarrow> (nat \<Rightarrow> u8) \<Rightarrow> command \<Rightarrow> bytes \<Rightarrow> otp \<Rightarrow> otp reply" where
  "cmd_otp env cr junk c res st =
     (if P2 c \<noteq> 0x00 then otp_err SW_INCORRECT_P1P2 st
      else if P1 c = 0x01 \<or> P1 c = 0x03 then otp_configure env c st
      else if P1 c = 0x04 \<or> P1 c = 0x05 then otp_update c res st
      else if P1 c = 0x06 then otp_swap junk res st
      else if P1 c = 0x10 then ok (board_id_string env 4) (st\<lparr>otp_rlen := 4\<rparr>)
      else if P1 c = 0x13 then do {
        res \<leftarrow> man_get_config (board_id_string env 4) (pfs st);
        ok res (st\<lparr>otp_rlen := length res\<rparr>)
      }
      else if P1 c = 0x30 \<or> P1 c = 0x38 \<or> P1 c = 0x20 \<or> P1 c = 0x28 then otp_challenge env cr c res st
      else ok res st)"

definition otp_process_apdu :: "otp_env \<Rightarrow> crypto \<Rightarrow> (nat \<Rightarrow> u8) \<Rightarrow> command \<Rightarrow> bytes \<Rightarrow> otp \<Rightarrow> otp reply" where
  "otp_process_apdu env cr junk c res st =
     (if CLA c \<noteq> 0x00 then otp_err SW_CLA_NOT_SUPPORTED st
      else do {
        cap \<leftarrow> cap_supported (pfs st) CAP_OTP;
        if cap \<and> INS c = 0x01 then cmd_otp env cr junk c res st else otp_err SW_INS_NOT_SUPPORTED st
      })"

section \<open>Feature reports\<close>

text \<open>The checksum goes behind the frame; a frame that does not fit \<^verbatim>\<open>otp_frame_tx\<close> is \<open>None\<close>.\<close>

definition otp_send_frame :: "nat \<Rightarrow> otp \<Rightarrow> otp option" where
  "otp_send_frame frame_len st = do {
     frame \<leftarrow> rd_slice (otp_frame_tx st) 0 frame_len;
     let crc = calculate_crc frame;
     tx \<leftarrow> wr_slice (otp_frame_tx st) frame_len [ucast (NOT crc), ucast (drop_bit 8 (NOT crc))];
     let n = frame_len + 2;
     Some (st\<lparr>otp_frame_tx := tx, otp_send_size := n, otp_exp_seq := of_nat (n div 7) + (if n mod 7 \<noteq> 0 then 1 else 0),
              otp_curr_seq := 0\<rparr>)
   }"

definition frame_command :: "bytes \<Rightarrow> command" where
  "frame_command rx = \<lparr>CLA = 0, INS = 0x01, P1 = rx ! 64, P2 = 0, cbuf = rx, cnc = 64, random_gen = (\<lambda>n. [])\<rparr>"

text \<open>
  A complete frame.  The response goes to \<^verbatim>\<open>otp_frame_tx\<close>; its length is the one that the last command left
  when this one does not set it.
\<close>

definition otp_run_frame :: "otp_env \<Rightarrow> crypto \<Rightarrow> (nat \<Rightarrow> u8) \<Rightarrow> otp \<Rightarrow> otp option" where
  "otp_run_frame env cr junk st = do {
     let rx = otp_frame_rx st;
     if calculate_crc (take 64 rx) = make_uint16_t (rx ! 66) (rx ! 65) then do {
       res \<leftarrow> rd_slice (otp_frame_tx st) 0 (otp_rlen st);
       (ret, res, st) \<leftarrow> otp_process_apdu env cr junk (frame_command rx) res st;
       tx \<leftarrow> wr_slice (otp_frame_tx st) 0 res;
       let st = st\<lparr>otp_frame_tx := tx\<rparr>;
       if ret = 0x9000 \<and> otp_rlen st > 0 then otp_send_frame (otp_rlen st) st else Some st
     } else Some st
   }"

definition otp_hid_set_report :: "otp_env \<Rightarrow> crypto \<Rightarrow> (nat \<Rightarrow> u8) \<Rightarrow> bool \<Rightarrow> nat \<Rightarrow> bytes \<Rightarrow> otp \<Rightarrow> (int \<times> otp) option" where
  "otp_hid_set_report env cr junk keyb report_type buffer st =
     (if report_type \<noteq> 3 then Some (0, st)
      else do {
        b7 \<leftarrow> rd buffer 7;
        if keyb \<and> b7 = 0xFF then
          Some (1, st\<lparr>otp_send_size := 0, otp_curr_seq := 0, otp_exp_seq := 0, otp_frame_tx := replicate 70 0\<rparr>)
        else if b7 AND 0x80 \<noteq> 0 then do {
          let rseq = unat (b7 AND 0x1F);
          if rseq < 10 then do {
            let rx = (if rseq = 0 then replicate 70 0 else otp_frame_rx st);
            rx \<leftarrow> wr_slice rx (rseq * 7) (take 7 buffer);
            let st = st\<lparr>otp_frame_rx := rx\<rparr>;
            st \<leftarrow> (if rseq = 9 then otp_run_frame env cr junk st else Some st);
            Some (1, st)
          } else Some (1, st)
        } else Some (1, st)
      })"

text \<open>\<open>first\<close> is the byte at the start of the response buffer, which the status does not set.\<close>

definition otp_hid_get_report :: "otp_env \<Rightarrow> u8 \<Rightarrow> bytes \<Rightarrow> otp \<Rightarrow> (bytes \<times> otp) option" where
  "otp_hid_get_report env first buffer st =
     (if otp_send_size st > 0 then do {
        let n = min 7 (otp_send_size st);
        part \<leftarrow> rd_slice (otp_frame_tx st) (7 * unat (otp_curr_seq st)) n;
        Some (part @ replicate (7 - n) 0 @ [0x40 OR otp_curr_seq st] @ drop 8 buffer,
          st\<lparr>otp_curr_seq := otp_curr_seq st + 1, otp_send_size := otp_send_size st - n\<rparr>)
      }
      else if otp_curr_seq st = otp_exp_seq st \<and> otp_exp_seq st > 0 then
        Some (replicate 7 0 @ [0x40] @ drop 8 buffer, st\<lparr>otp_curr_seq := 0, otp_exp_seq := 0\<rparr>)
      else do {
        (s, st) \<leftarrow> otp_status env st;
        Some ([first] @ s @ drop 7 buffer, st)
      })"

text \<open>A board and a running application on given files, for concrete runs.\<close>

definition sample_env :: otp_env where
  "sample_env = \<lparr>rescan = id, board_id_string = (\<lambda>n. replicate n 7), aes_ecb = (\<lambda>key b. replicate 16 (of_nat (length b)))\<rparr>"

definition sample_otp :: "fs \<Rightarrow> otp" where
  "sample_otp fs = \<lparr>pfs = fs, config_seq = 1, scanned = True, session_counter = [0, 0], keyboard = \<lparr>kb_buf = [], kb_len = 0, kb_w = 0, sent_key = False, kb_encode = True, kb_out = []\<rparr>,
     otp_rlen = 0, otp_frame_rx = replicate 70 0, otp_frame_tx = replicate 70 0, otp_exp_seq = 0, otp_curr_seq = 0, otp_send_size = 0\<rparr>"

lemma sample_otp_sel [simp]: "pfs (sample_otp fs) = fs" "scanned (sample_otp fs)" "session_counter (sample_otp fs) = [0, 0]"
    "otp_frame_tx (sample_otp fs) = replicate 70 0"
  by (simp_all add: sample_otp_def)

end
