(* ===== verification/OtpFrames.thy ===== *)
theory OtpFrames
  imports Otp
begin

text \<open>
  The transport of the OTP application: the checksum of a frame that carries its own checksum, and the
  frames of \<^verbatim>\<open>otp_send_frame\<close>, \<^verbatim>\<open>otp_hid_set_report\<close> and \<^verbatim>\<open>otp_hid_get_report\<close> taken together with a host that
  cuts them into feature reports.
\<close>


section \<open>The checksum\<close>

text \<open>One bit of the checksum is linear, so eight are; shifting bytes in only moves the upper half down.\<close>

lemma and_one_bit: "w AND 1 = 1 \<longleftrightarrow> bit w 0" for w :: u16
  by (simp add: and_one_eq odd_iff_mod_2_eq_one bit_0 split: if_splits)

lemma crc_bit_xor: "crc_bit (x XOR y) = crc_bit x XOR crc_bit y"
  by (rule bit_word_eqI) (auto simp: crc_bit_def and_one_bit bit_simps)

lemma funpow_8: "(f ^^ 8) x = f (f (f (f (f (f (f (f x)))))))"
  by (simp add: eval_nat_numeral)

lemma crc_bits_xor: "(crc_bit ^^ n) (x XOR y) = (crc_bit ^^ n) x XOR (crc_bit ^^ n) y"
  by (induction n) (simp_all add: crc_bit_xor)

lemma crc_bit_shift: "crc_bit (push_bit (Suc k) (ucast (h :: u8))) = push_bit k (ucast h)" if "k < 8"
proof -
  have even: "\<not> push_bit (Suc k) (ucast h :: u16) AND 1 = 1"
    unfolding and_one_bit bit_push_bit_iff by simp
  have "drop_bit 1 (push_bit (Suc k) (ucast h :: u16)) = push_bit k (ucast h)"
    by (rule bit_word_eqI) (use that in \<open>auto simp: bit_simps simp del: push_bit_Suc dest: bit_imp_le_length\<close>)
  with even show ?thesis by (simp add: crc_bit_def)
qed

lemma crc_bits_shift: "(crc_bit ^^ 8) (push_bit 8 (ucast (h :: u8))) = ucast h"
proof -
  have "(crc_bit ^^ n) (push_bit (n + k) (ucast h)) = push_bit k (ucast h)" if "n + k \<le> 8" for n k
    using that
  proof (induction n arbitrary: k)
    case 0
    then show ?case by simp
  next
    case (Suc n)
    have "(crc_bit ^^ n) (push_bit (n + Suc k) (ucast h)) = push_bit (Suc k) (ucast h :: u16)"
      using Suc.prems by (intro Suc.IH) simp
    then show ?case using Suc.prems crc_bit_shift [of k h] by simp
  qed
  from this [of 8 0] show ?thesis by simp
qed

lemma crc_byte_split: "crc_byte (push_bit 8 (ucast (h :: u8)) XOR ucast l) b = ucast h XOR (crc_bit ^^ 8) (ucast (l XOR b))"
proof -
  have "push_bit 8 (ucast h) XOR ucast l XOR ucast b = (push_bit 8 (ucast h) XOR ucast (l XOR b) :: u16)"
    by (rule bit_word_eqI) (auto simp: bit_simps)
  then show ?thesis by (simp add: crc_byte_def crc_bits_xor crc_bits_shift xor.assoc)
qed

lemma crc_halves: "c = push_bit 8 (ucast (ucast (drop_bit 8 c) :: u8)) XOR ucast (ucast c :: u8)" for c :: u16
  by (rule bit_word_eqI) (auto simp: bit_simps)

text \<open>The checksum of a frame that carries its own inverted checksum does not depend on the frame.\<close>

lemma crc_residue: "calculate_crc (d @ [ucast (NOT (calculate_crc d)), ucast (drop_bit 8 (NOT (calculate_crc d)))]) = 0xF0B8"
proof -
  define c where "c = calculate_crc d"
  define h :: u8 where "h = ucast (drop_bit 8 c)"
  define l :: u8 where "l = ucast c"
  have n: "ucast (NOT c) = NOT l" "ucast (drop_bit 8 (NOT c)) = NOT h"
    by (rule bit_word_eqI; auto simp: l_def h_def bit_simps)+
  have c: "c = push_bit 8 (ucast h) XOR ucast l" using crc_halves [of c] by (simp add: h_def l_def)
  have t: "(crc_bit ^^ 8) (0xff :: u16) = push_bit 8 (ucast (0x0f :: u8)) XOR ucast (0x78 :: u8)"
    by (simp add: funpow_8 crc_bit_def)
  have all: "x XOR NOT x = (- 1 :: u8)" for x by (rule bit_word_eqI) (auto simp: bit_simps)
  have "(h XOR 0x78) XOR NOT h = 0x78 XOR (h XOR NOT h)" by (simp only: xor.assoc xor.left_commute)
  then have "l XOR NOT l = 0xff" "(h XOR 0x78) XOR NOT h = (0x87 :: u8)" using all by simp_all
  note lo = this(1) and hi = this(2)
  have x: "ucast (h XOR a) = (ucast h XOR ucast a :: u16)" for a :: u8 by (rule bit_word_eqI) (auto simp: bit_simps)
  have "crc_byte c (NOT l) = ucast h XOR (crc_bit ^^ 8) (ucast (l XOR NOT l))" unfolding c crc_byte_split ..
  also have "\<dots> = ucast h XOR (push_bit 8 (ucast (0x0f :: u8)) XOR ucast (0x78 :: u8))" unfolding lo t [symmetric] by simp
  also have "\<dots> = push_bit 8 (ucast (0x0f :: u8)) XOR ucast (h XOR 0x78)" unfolding x by (simp only: xor.left_commute)
  finally have "crc_byte (crc_byte c (NOT l)) (NOT h) = crc_byte (push_bit 8 (ucast (0x0f :: u8)) XOR ucast (h XOR 0x78)) (NOT h)"
    by simp
  also have "\<dots> = ucast (0x0f :: u8) XOR (crc_bit ^^ 8) (ucast (0x87 :: u8))"
    unfolding crc_byte_split hi ..
  also have "\<dots> = 0xF0B8" by (simp add: funpow_8 crc_bit_def)
  finally show ?thesis using n by (simp add: calculate_crc_def c_def)
qed

section \<open>Frames in reports\<close>

fun feed_reports :: "otp_env \<Rightarrow> crypto \<Rightarrow> (nat \<Rightarrow> u8) \<Rightarrow> bytes list \<Rightarrow> otp \<Rightarrow> otp option" where
  "feed_reports env cr junk [] st = Some st"
| "feed_reports env cr junk (r # rs) st = do {
     (_, st) \<leftarrow> otp_hid_set_report env cr junk True 3 r st;
     feed_reports env cr junk rs st
   }"

fun read_reports :: "otp_env \<Rightarrow> u8 \<Rightarrow> bytes \<Rightarrow> nat \<Rightarrow> otp \<Rightarrow> (bytes list \<times> otp) option" where
  "read_reports env first buffer 0 st = Some ([], st)"
| "read_reports env first buffer (Suc k) st = do {
     (r, st) \<leftarrow> otp_hid_get_report env first buffer st;
     (rs, st) \<leftarrow> read_reports env first buffer k st;
     Some (r # rs, st)
   }"

text \<open>The host's side: seven bytes and the sequence number.\<close>

definition host_report :: "bytes \<Rightarrow> nat \<Rightarrow> bytes" where
  "host_report frame i = take 7 (drop (7 * i) frame) @ [0x80 OR of_nat i]"

lemma feed_append: "feed_reports env cr junk (xs @ ys) st = do { st \<leftarrow> feed_reports env cr junk xs st; feed_reports env cr junk ys st }"
proof (induction xs arbitrary: st)
  case (Cons x xs)
  then show ?case by (cases "otp_hid_set_report env cr junk True 3 x st") auto
qed simp

lemma report_byte: "i < 10 \<Longrightarrow> (0x80 OR of_nat i :: u8) \<noteq> 0xFF \<and> (0x80 OR of_nat i :: u8) AND 0x80 \<noteq> 0 \<and> unat ((0x80 OR of_nat i :: u8) AND 0x1F) = i"
proof -
  assume "i < 10"
  then have "i = 0 \<or> i = 1 \<or> i = 2 \<or> i = 3 \<or> i = 4 \<or> i = 5 \<or> i = 6 \<or> i = 7 \<or> i = 8 \<or> i = 9" by arith
  then show ?thesis by (elim disjE) simp_all
qed

lemma set_report_spec:
  assumes f: "length frame = 70" and i: "i < 10" and rx: "i = 0 \<or> otp_frame_rx st = take (7 * i) frame @ replicate (70 - 7 * i) 0"
  defines "st' \<equiv> st\<lparr>otp_frame_rx := take (7 * Suc i) frame @ replicate (70 - 7 * Suc i) 0\<rparr>"
  shows "otp_hid_set_report env cr junk True 3 (host_report frame i) st =
    map_option (Pair 1) (if i = 9 then otp_run_frame env cr junk st' else Some st')"
proof -
  note b = report_byte [OF i]
  have l: "length (take 7 (drop (7 * i) frame)) = 7" using f i by simp
  then have b7: "rd (host_report frame i) 7 = Some (0x80 OR of_nat i)" and t: "take 7 (host_report frame i) = take 7 (drop (7 * i) frame)"
    by (simp_all add: host_report_def rd_def nth_append)
  let ?rx = "if i = 0 then replicate 70 0 else otp_frame_rx st"
  have rx': "?rx = take (7 * i) frame @ replicate (70 - 7 * i) 0" using rx by auto
  have "take (7 * i) frame @ take 7 (drop (7 * i) frame) = take (7 * Suc i) frame"
    by (simp add: take_add [symmetric] add.commute)
  then have "wr_slice ?rx (i * 7) (take 7 (host_report frame i)) = Some (take (7 * Suc i) frame @ replicate (70 - 7 * Suc i) 0)"
    unfolding rx' t using l f i by (simp add: wr_slice_def mult.commute)
  note w = this
  show ?thesis
  proof (cases "i = 9")
    case True
    then show ?thesis
      using b b7 i w by (cases "otp_run_frame env cr junk st'") (auto simp: otp_hid_set_report_def st'_def Let_def)
  next
    case False
    then show ?thesis using b b7 i w by (auto simp: otp_hid_set_report_def st'_def Let_def)
  qed
qed

lemma feed_prefix:
  assumes f: "length frame = 70"
  shows "k \<le> 9 \<Longrightarrow> 0 < k \<Longrightarrow> feed_reports env cr junk (map (host_report frame) [0 ..< k]) st =
    Some (st\<lparr>otp_frame_rx := take (7 * k) frame @ replicate (70 - 7 * k) 0\<rparr>)"
proof (induction k)
  case 0
  then show ?case by simp
next
  case (Suc k)
  show ?case
  proof (cases k)
    case 0
    then show ?thesis using set_report_spec [OF f, of 0 st env cr junk] by simp
  next
    case (Suc j)
    then have ih: "feed_reports env cr junk (map (host_report frame) [0 ..< k]) st =
        Some (st\<lparr>otp_frame_rx := take (7 * k) frame @ replicate (70 - 7 * k) 0\<rparr>)" using Suc.IH Suc.prems by simp
    have k: "k < 10" "k \<noteq> 9" using Suc.prems by simp_all
    show ?thesis
      using set_report_spec [OF f k(1), of "st\<lparr>otp_frame_rx := take (7 * k) frame @ replicate (70 - 7 * k) 0\<rparr>" env cr junk] k(2)
      by (simp add: feed_append ih)
  qed
qed

lemma read_spec:
  assumes "length (otp_frame_tx st) = 70" and "length buffer = 8" and "7 * k < otp_send_size st + 7" and "otp_send_size st \<le> 7 * k"
    and "unat (otp_curr_seq st) = j" and "7 * j + otp_send_size st \<le> 70"
  shows "\<exists>rs st'. read_reports env first buffer k st = Some (rs, st') \<and> length rs = k \<and>
    take (otp_send_size st) (concat (map (take 7) rs)) = take (otp_send_size st) (drop (7 * j) (otp_frame_tx st)) \<and>
    (\<forall>i < k. length (rs ! i) = 8 \<and> rs ! i ! 7 = 0x40 OR of_nat (j + i)) \<and>
    st' = st\<lparr>otp_curr_seq := of_nat (j + k), otp_send_size := 0\<rparr>"
  using assms
proof (induction k arbitrary: st j)
  case 0
  then have "otp_curr_seq st = of_nat j" by (metis of_nat_unat ucast_id)
  then show ?case using 0 by simp
next
  case (Suc k)
  let ?s = "otp_send_size st" and ?n = "min 7 (otp_send_size st)"
  have s: "0 < ?s" using Suc.prems(3) by simp
  have cs: "otp_curr_seq st = of_nat j" using Suc.prems(5) by (metis of_nat_unat ucast_id)
  define part where "part = take ?n (drop (7 * j) (otp_frame_tx st))"
  have lp: "length part = ?n" using Suc.prems(1,6) by (simp add: part_def)
  define st1 where "st1 = st\<lparr>otp_curr_seq := of_nat (j + 1), otp_send_size := ?s - ?n\<rparr>"
  define r where "r = part @ replicate (7 - ?n) 0 @ [0x40 OR of_nat j]"
  have g: "otp_hid_get_report env first buffer st = Some (r, st1)"
    using s Suc.prems(1,2,5,6) cs by (simp add: otp_hid_get_report_def rd_slice_def part_def r_def st1_def Let_def min_def add.commute)
  have lr: "length r = 8" "take 7 r = part @ replicate (7 - ?n) 0" "r ! 7 = 0x40 OR of_nat j"
    using lp by (auto simp: r_def nth_append)
  have j: "j < 255" using Suc.prems(6) by simp
  then have u1: "unat (otp_curr_seq st1) = j + 1" using unat_small_byte [of "j + 1"] by (simp add: st1_def)
  have pre: "length (otp_frame_tx st1) = 70" "7 * k < otp_send_size st1 + 7" "otp_send_size st1 \<le> 7 * k"
    "7 * (j + 1) + otp_send_size st1 \<le> 70" if "k > 0"
    using Suc.prems that by (auto simp: st1_def min_def)
  show ?case
  proof (cases "k = 0")
    case True
    then have "?n = ?s" using Suc.prems(4) by simp
    then show ?thesis using True g lr lp by (auto simp: st1_def part_def)
  next
    case False
    then have n7: "?n = 7" using Suc.prems(3) by simp
    from Suc.IH [OF pre(1) Suc.prems(2) pre(2,3) u1 pre(4)] False obtain rs st' where
      i: "read_reports env first buffer k st1 = Some (rs, st')" "length rs = k"
      "take (?s - 7) (concat (map (take 7) rs)) = take (?s - 7) (drop (7 * (j + 1)) (otp_frame_tx st))"
      "\<forall>i < k. length (rs ! i) = 8 \<and> rs ! i ! 7 = 0x40 OR of_nat (j + 1 + i)"
      "st' = st1\<lparr>otp_curr_seq := of_nat (j + 1 + k), otp_send_size := 0\<rparr>" using n7 by (auto simp: st1_def)
    have s7: "7 \<le> ?s" using n7 by simp
    have "take ?s (concat (map (take 7) (r # rs))) = part @ take (?s - 7) (concat (map (take 7) rs))"
      using lr(2) n7 lp s7 by simp
    also have "\<dots> = take 7 (drop (7 * j) (otp_frame_tx st)) @ take (?s - 7) (drop (7 * (j + 1)) (otp_frame_tx st))"
      using i(3) n7 by (simp add: part_def)
    also have "\<dots> = take ?s (drop (7 * j) (otp_frame_tx st))"
      using s7 take_add [of 7 "?s - 7" "drop (7 * j) (otp_frame_tx st)"] by (simp add: add.commute)
    finally have t: "take ?s (concat (map (take 7) (r # rs))) = take ?s (drop (7 * j) (otp_frame_tx st))" .
    have "length ((r # rs) ! i) = 8 \<and> (r # rs) ! i ! 7 = 0x40 OR of_nat (j + i)" if "i < Suc k" for i
      using i(4) lr that by (cases i) auto
    moreover have "read_reports env first buffer (Suc k) st = Some (r # rs, st\<lparr>otp_curr_seq := of_nat (j + Suc k), otp_send_size := 0\<rparr>)"
      using g i(1,5) by (simp add: st1_def)
    ultimately show ?thesis using t i(2) by (intro exI conjI) auto
  qed
qed

text \<open>
  C19: a command frame of 70 bytes, sent in ten reports of seven bytes and a sequence number, is executed as
  one command on exactly these bytes, whatever an earlier, interrupted frame has left in the buffer.
\<close>

theorem otp_frame_received:
  assumes "length frame = 70"
  shows "feed_reports env cr junk (map (host_report frame) [0 ..< 10]) st =
    otp_run_frame env cr junk (st\<lparr>otp_frame_rx := frame\<rparr>)"
proof -
  let ?st = "st\<lparr>otp_frame_rx := take 63 frame @ replicate 7 0\<rparr>"
  have "map (host_report frame) [0 ..< 10] = map (host_report frame) [0 ..< 9] @ [host_report frame 9]"
    by (simp add: upt_Suc_append [of 0 9, simplified])
  moreover have "feed_reports env cr junk (map (host_report frame) [0 ..< 9]) st = Some ?st"
    using feed_prefix [OF assms, of 9 env cr junk st] by simp
  moreover have "otp_hid_set_report env cr junk True 3 (host_report frame 9) ?st =
      map_option (Pair 1) (otp_run_frame env cr junk (st\<lparr>otp_frame_rx := frame\<rparr>))"
    using set_report_spec [OF assms, of 9 ?st env cr junk] assms by simp
  ultimately show ?thesis
    by (cases "otp_run_frame env cr junk (st\<lparr>otp_frame_rx := frame\<rparr>)") (simp_all only: feed_append, simp_all)
qed

theorem otp_frame_received_witness:
  "feed_reports sample_env sample_crypto (\<lambda>_. 0) (map (host_report (replicate 70 0)) [0 ..< 10]) (sample_otp roomy_fs) =
    otp_run_frame sample_env sample_crypto (\<lambda>_. 0) (sample_otp roomy_fs\<lparr>otp_frame_rx := replicate 70 0\<rparr>)"
  by (rule otp_frame_received) simp

lemma send_frame_spec:
  assumes "length (otp_frame_tx st) = 70" and "n \<le> 68"
  defines "f \<equiv> take n (otp_frame_tx st)"
  defines "f' \<equiv> f @ [ucast (NOT (calculate_crc f)), ucast (drop_bit 8 (NOT (calculate_crc f)))]"
  shows "\<exists>tx. otp_send_frame n st = Some (st\<lparr>otp_frame_tx := tx, otp_send_size := n + 2,
      otp_exp_seq := of_nat ((n + 8) div 7), otp_curr_seq := 0\<rparr>) \<and> length tx = 70 \<and> take (n + 2) tx = f' \<and> check_crc f'"
proof -
  have "of_nat ((n + 2) div 7) + (if (n + 2) mod 7 \<noteq> 0 then 1 else 0) = (of_nat ((n + 8) div 7) :: u8)"
  proof (cases "(n + 2) mod 7 = 0")
    case True
    then have "(n + 8) div 7 = (n + 2) div 7" by presburger
    then show ?thesis using True by simp
  next
    case False
    then have "(n + 8) div 7 = (n + 2) div 7 + 1" by presburger
    then show ?thesis using False by (simp add: add.commute)
  qed
  moreover have "check_crc f'" by (simp add: check_crc_def f'_def crc_residue)
  ultimately show ?thesis
    using assms(1,2)
    by (intro exI [of _ "f' @ drop (n + 2) (otp_frame_tx st)"]) (simp add: otp_send_frame_def rd_slice_def wr_slice_def Let_def f'_def f_def)
qed

text \<open>
  a response of at most 68 bytes arrives whole: the host reads it in reports of seven bytes, numbered
  from 0, with two bytes behind it that complete the checksum to the constant the host tests, and the report
  after the last one says that the frame has ended.
\<close>

theorem otp_frame_delivered:
  assumes tx: "length (otp_frame_tx st) = 70" and n: "n \<le> 68" and b: "length buffer = 8"
  defines "k \<equiv> (n + 8) div 7"
  shows "\<exists>st1 rs st2. otp_send_frame n st = Some st1 \<and> read_reports env first buffer k st1 = Some (rs, st2) \<and>
    length rs = k \<and> (\<forall>i < k. rs ! i ! 7 = 0x40 OR of_nat i) \<and>
    take n (concat (map (take 7) rs)) = take n (otp_frame_tx st) \<and>
    check_crc (take (n + 2) (concat (map (take 7) rs))) \<and>
    map_option fst (otp_hid_get_report env first buffer st2) = Some (replicate 7 0 @ [0x40])"
proof -
  obtain tx' where s: "otp_send_frame n st = Some (st\<lparr>otp_frame_tx := tx', otp_send_size := n + 2,
      otp_exp_seq := of_nat k, otp_curr_seq := 0\<rparr>)" "length tx' = 70"
    and t: "take (n + 2) tx' = take n (otp_frame_tx st) @ [ucast (NOT (calculate_crc (take n (otp_frame_tx st)))),
      ucast (drop_bit 8 (NOT (calculate_crc (take n (otp_frame_tx st)))))]" and c: "check_crc (take (n + 2) tx')"
    using send_frame_spec [OF tx n] by (auto simp: k_def)
  define st1 where "st1 = st\<lparr>otp_frame_tx := tx', otp_send_size := n + 2, otp_exp_seq := of_nat k, otp_curr_seq := 0\<rparr>"
  have k: "7 * k < n + 2 + 7" "n + 2 \<le> 7 * k" "k \<le> 10" "0 < k" using n by (auto simp: k_def)
  have "\<exists>rs st'. read_reports env first buffer k st1 = Some (rs, st') \<and> length rs = k \<and>
    take (otp_send_size st1) (concat (map (take 7) rs)) = take (otp_send_size st1) (drop (7 * 0) (otp_frame_tx st1)) \<and>
    (\<forall>i < k. length (rs ! i) = 8 \<and> rs ! i ! 7 = 0x40 OR of_nat (0 + i)) \<and>
    st' = st1\<lparr>otp_curr_seq := of_nat (0 + k), otp_send_size := 0\<rparr>"
    by (rule read_spec) (use s(2) b k n in \<open>simp_all add: st1_def\<close>)
  then obtain rs where r: "read_reports env first buffer k st1 = Some (rs, st1\<lparr>otp_curr_seq := of_nat k, otp_send_size := 0\<rparr>)"
    "length rs = k" "take (n + 2) (concat (map (take 7) rs)) = take (n + 2) tx'"
    "\<forall>i < k. rs ! i ! 7 = 0x40 OR of_nat i" by (auto simp: st1_def)
  have "take n (concat (map (take 7) rs)) = take n (take (n + 2) (concat (map (take 7) rs)))" by (simp add: take_take)
  also have "\<dots> = take n (otp_frame_tx st)" unfolding r(3) t using tx n by simp
  finally have p: "take n (concat (map (take 7) rs)) = take n (otp_frame_tx st)" .
  have "unat (of_nat k :: u8) = k" using k(3) by (simp add: unat_small_byte)
  then have "(of_nat k :: u8) > 0" using k(4) by (metis gr0I unat_gt_0 word_gt_0)
  then have e: "map_option fst (otp_hid_get_report env first buffer (st1\<lparr>otp_curr_seq := of_nat k, otp_send_size := 0\<rparr>)) =
      Some (replicate 7 0 @ [0x40])"
    using b by (simp add: otp_hid_get_report_def st1_def)
  show ?thesis
    using s(1) r p e c unfolding st1_def [symmetric]
    by (intro exI [of _ st1] exI [of _ rs] exI [of _ "st1\<lparr>otp_curr_seq := of_nat k, otp_send_size := 0\<rparr>"]) simp
qed

theorem otp_frame_delivered_witness:
  "\<exists>st1 rs st2. otp_send_frame 20 (sample_otp roomy_fs) = Some st1 \<and>
    read_reports sample_env 0 (replicate 8 0) ((20 + 8) div 7) st1 = Some (rs, st2) \<and>
    length rs = (20 + 8) div 7 \<and> (\<forall>i < (20 + 8) div 7. rs ! i ! 7 = 0x40 OR of_nat i) \<and>
    take 20 (concat (map (take 7) rs)) = take 20 (otp_frame_tx (sample_otp roomy_fs)) \<and>
    check_crc (take (20 + 2) (concat (map (take 7) rs))) \<and>
    map_option fst (otp_hid_get_report sample_env 0 (replicate 8 0) st2) = Some (replicate 7 0 @ [0x40])"
  by (rule otp_frame_delivered) simp_all

end
