(* ===== verification/OtpSlots.thy ===== *)
theory OtpSlots
  imports OtpFrames
begin

text \<open>
  The slots of the OTP application: what configuring and swapping do to the files, and the usage counters
  of the one-time passwords over presses and restarts.
\<close>


section \<open>The slots\<close>

lemma dyn_slots: "dyn_fid EF_OTP_SLOT1" "dyn_fid EF_OTP_SLOT2" "dyn_fid (slot_fid b)" "EF_OTP_SLOT1 \<noteq> EF_OTP_SLOT2"
  by (simp_all add: slot_fid_def dyn_fid_def file_table_def internal_ef_def fid_defs)

lemma slots_valid_spec: "fs_inv fs \<Longrightarrow> slots_valid fs = Some (has fs EF_OTP_SLOT1, has fs EF_OTP_SLOT2)"
  by (simp add: slots_valid_def dyn_has dyn_slots)

lemma status_reply_spec: "fs_inv (pfs st) \<Longrightarrow> scanned st \<Longrightarrow> status_reply env st = ok [] (st\<lparr>otp_rlen := 0\<rparr>)"
  by (simp add: status_reply_def otp_status_def slots_valid_spec)

text \<open>The access code that a slot asks for differs from the one behind the configuration in the command.\<close>

definition slot_locked :: "fs \<Rightarrow> u16 \<Rightarrow> command \<Rightarrow> bool" where
  "slot_locked fs fi c \<longleftrightarrow> (\<exists>old. fget fs fi = Some old \<and> old \<noteq> [] \<and> take 6 (drop 38 old) \<noteq> take 6 (drop 52 (cbuf c)))"

definition slot_files_ok :: "fs \<Rightarrow> bool" where
  "slot_files_ok fs \<longleftrightarrow> (\<forall>b old. fget fs (slot_fid b) = Some old \<longrightarrow> old = [] \<or> 52 \<le> length old)"

lemma configure_access:
  assumes inv: "fs_inv fs" and len: "60 \<le> length (cbuf c)" and ok: "slot_files_ok fs"
  shows "(if has fs (slot_fid b) then do { d \<leftarrow> file_bytes fs (lookup fs (slot_fid b)); access_ok c d } else Some True) =
    Some (\<not> slot_locked fs (slot_fid b) c)"
proof (cases "has fs (slot_fid b)")
  case False
  then show ?thesis by (auto simp: slot_locked_def has_def)
next
  case True
  then obtain old where old: "fget fs (slot_fid b) = Some old" "old \<noteq> []" by (auto simp: has_def)
  then have "52 \<le> length old" using ok by (auto simp: slot_files_ok_def)
  then have "access_ok c old = Some (take 6 (drop 38 old) = take 6 (drop 52 (cbuf c)))"
    using len by (simp add: access_ok_def rd_slice_def otp_offs)
  then show ?thesis using True old bytes_ref [OF inv True] by (simp add: slot_locked_def)
qed

text \<open>
  the command that configures a slot.  Without the access code of the slot nothing changes.  With it, or
  when the slot is free, 52 zero bytes delete the slot, a configuration with a bad checksum or reserved bytes
  changes nothing, and a good one becomes the content of the slot with a counter of 0; then the answer is
  \<^verbatim>\<open>9000\<close> also when the flash has no room and the slot is empty afterwards.  Other files never change.
\<close>

theorem otp_configure_cases:
  assumes inv: "fs_inv (pfs st)" and scan: "scanned st" and c: "P2 c = 0" "P1 c = 1 \<or> P1 c = 3"
    and len: "60 \<le> length (cbuf c)" and ok: "slot_files_ok (pfs st)"
  defines "fi \<equiv> slot_fid (P1 c = 1)" and "d \<equiv> take 52 (cbuf c)"
  shows "\<exists>w st'. cmd_otp env cr junk c res st = Some (w, [], st') \<and> fs_inv (pfs st') \<and>
    (if slot_locked (pfs st) fi c then w = SW_SECURITY_STATUS_NOT_SATISFIED \<and> fget (pfs st') = fget (pfs st)
     else if \<forall>b \<in> set d. b = 0 then w = SW_OK \<and> fget (pfs st') = (fget (pfs st))(fi := None)
     else if \<not> config_valid d then w = SW_WRONG_DATA \<and> fget (pfs st') = fget (pfs st)
     else w = SW_OK \<and> config_seq st' = config_seq st + 1 \<and>
       (fget (pfs st') = (fget (pfs st))(fi \<mapsto> d @ replicate 8 0) \<or> fget (pfs st') = (fget (pfs st))(fi := None)))"
proof -
  obtain fs1 where n: "file_new (pfs st) fi = (lookup fs1 fi, fs1)" "fs_inv fs1" "fget fs1 = fget (pfs st)"
    using file_new_spec [OF inv] by blast
  have lk: "slot_locked fs1 fi c = slot_locked (pfs st) fi c" and h: "slot_files_ok fs1"
    using n(3) ok by (simp_all add: slot_locked_def slot_files_ok_def)
  have d: "rd_slice (cbuf c) 0 otp_config_size = Some d" using len by (simp add: rd_slice_def otp_offs d_def)
  define st1 where "st1 = st\<lparr>pfs := fs1\<rparr>"
  have st1: "pfs st1 = fs1" "scanned st1" "config_seq st1 = config_seq st" using scan by (simp_all add: st1_def)
  note acc = configure_access [OF n(2) len h, of "P1 c = 1", folded fi_def]
  have start: "cmd_otp env cr junk c res st = otp_configure env c st" using c by (auto simp: cmd_otp_def)
  note unf = start otp_configure_def Let_def fi_def [symmetric] n(1) acc has_ref [OF n(2)] d st1_def [symmetric] st1
  consider (locked) "slot_locked (pfs st) fi c" | (zero) "\<not> slot_locked (pfs st) fi c" "\<forall>b \<in> set d. b = 0"
    | (bad) "\<not> slot_locked (pfs st) fi c" "\<not> (\<forall>b \<in> set d. b = 0)" "\<not> config_valid d"
    | (good) "\<not> slot_locked (pfs st) fi c" "\<not> (\<forall>b \<in> set d. b = 0)" "config_valid d" by blast
  then show ?thesis
  proof cases
    case locked
    then have "cmd_otp env cr junk c res st = otp_err SW_SECURITY_STATUS_NOT_SATISFIED st1"
      using lk acc by (simp add: unf)
    then show ?thesis using locked n by (simp add: otp_err_def err_def st1)
  next
    case zero
    obtain rc fs2 where r: "delete_file fs1 (lookup fs1 fi) = Some (rc, fs2)" "fs_inv fs2" "fget fs2 = (fget fs1)(fi := None)"
      using delete_ref [OF n(2)] by blast
    have "cmd_otp env cr junk c res st = status_reply env (st1\<lparr>pfs := fs2,
        config_seq := (if \<not> has fs2 EF_OTP_SLOT1 \<and> \<not> has fs2 EF_OTP_SLOT2 then 0 else config_seq st)\<rparr>)"
      using zero lk acc r(1) slots_valid_spec [OF r(2)] by (simp add: unf)
    then show ?thesis using zero r n st1 by (simp add: status_reply_spec ok_def)
  next
    case bad
    then have "cmd_otp env cr junk c res st = otp_err SW_WRONG_DATA st1"
      using lk acc by (auto simp add: unf)
    then show ?thesis using bad n by (auto simp: otp_err_def err_def st1)
  next
    case good
    have l: "length (d @ replicate 8 0) \<le> 4096" by (simp add: d_def)
    have w: "wr_slice (cbuf c) otp_config_size (replicate 8 0) = Some (d @ replicate 8 0 @ drop 60 (cbuf c))"
      using len by (simp add: wr_slice_def otp_offs d_def)
    have s: "rd_slice (d @ replicate 8 0 @ drop 60 (cbuf c)) 0 (otp_config_size + 8) = Some (d @ replicate 8 0)"
      using len by (simp add: rd_slice_def otp_offs d_def)
    obtain rc fs2 where r: "write_file fs1 (lookup fs1 fi) (d @ replicate 8 0) = Some (rc, fs2)" "fs_inv fs2"
      "fget fs2 = (fget fs1)(fi \<mapsto> d @ replicate 8 0) \<or> fget fs2 = (fget fs1)(fi := None)"
      using write_ref [OF n(2) l] by blast
    have "cmd_otp env cr junk c res st = status_reply env (st1\<lparr>pfs := fs2, config_seq := config_seq st + 1\<rparr>)"
      using good lk acc w s r(1) by (auto simp add: unf)
    then show ?thesis using good r n st1 by (auto simp: status_reply_spec ok_def)
  qed
qed

section \<open>Swapping\<close>

text \<open>
  swapping two configured slots exchanges their contents, always succeeds, and changes no other file.
\<close>

theorem otp_swap_exchanges:
  assumes inv: "fs_inv (pfs st)" and d: "fget (pfs st) EF_OTP_SLOT1 = Some d1" "fget (pfs st) EF_OTP_SLOT2 = Some d2"
    and len: "length d1 = 60" "length d2 = 60" and c: "P1 c = 0x06" "P2 c = 0"
  shows "\<exists>fs'. cmd_otp env cr junk c res st = ok res (st\<lparr>pfs := fs'\<rparr>) \<and> fs_inv fs' \<and>
    fget fs' = (fget (pfs st))(EF_OTP_SLOT1 \<mapsto> d2, EF_OTP_SLOT2 \<mapsto> d1)"
proof -
  let ?fs = "pfs st"
  have h: "has ?fs EF_OTP_SLOT1" "has ?fs EF_OTP_SLOT2" using d len by (auto simp: has_def)
  have l: "lookup ?fs EF_OTP_SLOT1 \<noteq> None" "lookup ?fs EF_OTP_SLOT2 \<noteq> None"
    using has_lookup [OF h(1)] has_lookup [OF h(2)] by auto
  have n: "file_new ?fs EF_OTP_SLOT1 = (lookup ?fs EF_OTP_SLOT1, ?fs)" "file_new ?fs EF_OTP_SLOT2 = (lookup ?fs EF_OTP_SLOT2, ?fs)"
    using l file_new_existing [OF inv] by auto
  have w: "wr_slice (map junk [0 ..< otp_config_size + 8]) 0 d1 = Some d1" using len by (simp add: wr_slice_def otp_offs)
  obtain fs2 where s2: "write_file ?fs (lookup ?fs EF_OTP_SLOT1) d2 = Some (CCID_OK, fs2)" "fs_inv fs2"
    "fget fs2 = (fget ?fs)(EF_OTP_SLOT1 \<mapsto> d2)" "lookup fs2 = lookup ?fs"
    using write_ref [OF inv, of d2 EF_OTP_SLOT1] d len by auto
  have "fget fs2 EF_OTP_SLOT2 = Some d2" using s2(3) d dyn_slots(4) by simp
  then obtain fs3 where s3: "write_file fs2 (lookup fs2 EF_OTP_SLOT2) d1 = Some (CCID_OK, fs3)" "fs_inv fs3"
    "fget fs3 = (fget fs2)(EF_OTP_SLOT2 \<mapsto> d1)"
    using write_ref [OF s2(2), of d1 EF_OTP_SLOT2] len by auto
  have "cmd_otp env cr junk c res st = ok res (st\<lparr>pfs := fs3\<rparr>)"
    using c n h w s2(1,4) s3(1) d by (simp add: cmd_otp_def otp_swap_def Let_def has_ref [OF inv] bytes_ref [OF inv])
  then show ?thesis using s2 s3 by auto
qed

text \<open>
  when only the first slot is configured, swapping deletes its file and then writes through a reference
  that no longer fits: with the (empty) file of the second slot right behind it and another file \<open>x\<close> behind
  that, for instance a resident credential, the configuration overwrites \<open>x\<close>, and both slots are empty.
\<close>

theorem otp_swap_overwrites:
  assumes inv: "fs_inv (pfs st)" and d: "fget (pfs st) EF_OTP_SLOT1 = Some d1" "fget (pfs st) EF_OTP_SLOT2 = None"
    and len: "length d1 = 60" and l: "lookup (pfs st) EF_OTP_SLOT1 = Some (Dynamic i)"
      "lookup (pfs st) EF_OTP_SLOT2 = Some (Dynamic (i + 1))" "lookup (pfs st) x = Some (Dynamic (i + 2))"
    and c: "P1 c = 0x06" "P2 c = 0"
  shows "\<exists>fs'. cmd_otp env cr junk c res st = ok res (st\<lparr>pfs := fs'\<rparr>) \<and> fs_inv fs' \<and>
    (fget fs' x = Some d1 \<or> fget fs' x = None) \<and> fget fs' EF_OTP_SLOT1 = None \<and> fget fs' EF_OTP_SLOT2 = None"
proof -
  let ?fs = "pfs st"
  have x: "x \<noteq> EF_OTP_SLOT1" "x \<noteq> EF_OTP_SLOT2" using l by auto
  have h: "has ?fs EF_OTP_SLOT1" "\<not> has ?fs EF_OTP_SLOT2" using d len by (auto simp: has_def)
  have n: "file_new ?fs EF_OTP_SLOT1 = (lookup ?fs EF_OTP_SLOT1, ?fs)" "file_new ?fs EF_OTP_SLOT2 = (lookup ?fs EF_OTP_SLOT2, ?fs)"
    using l file_new_existing [OF inv] by auto
  have w: "wr_slice (map junk [0 ..< otp_config_size + 8]) 0 d1 = Some d1" using len by (simp add: wr_slice_def otp_offs)
  obtain rc fs2 where s2: "delete_file ?fs (lookup ?fs EF_OTP_SLOT1) = Some (rc, fs2)" "fs_inv fs2"
    "fget fs2 = (fget ?fs)(EF_OTP_SLOT1 := None)" using delete_ref [OF inv] by blast
  have lx: "lookup fs2 x = Some (Dynamic (i + 1))"
    using delete_moves_down [OF inv l(1) l(3), of rc fs2] s2(1) l(1) by simp
  have "length d1 \<le> 4096" using len by simp
  from write_file_spec [OF s2(2) lx this] obtain rc3 fs3 where
    s3: "write_file fs2 (Some (Dynamic (i + 1))) d1 = Some (rc3, fs3)" "fs_inv fs3"
    "fget fs3 = (fget fs2)(x \<mapsto> d1) \<or> fget fs3 = (fget fs2)(x := None)" by blast
  have "file_has_data ?fs (Some (Dynamic (i + 1))) = Some False"
    using has_ref [OF inv, of EF_OTP_SLOT2] h(2) l(2) by simp
  then have "cmd_otp env cr junk c res st = ok res (st\<lparr>pfs := fs3\<rparr>)"
    using c n h w s2(1) s3(1) d l(2) has_ref [OF inv] bytes_ref [OF inv h(1)]
    by (simp add: cmd_otp_def otp_swap_def Let_def)
  then show ?thesis using s2 s3 x d by auto
qed

section \<open>The usage counter\<close>

text \<open>A slot with a Yubico OTP and the counter \<open>n\<close>.\<close>

definition yubico_slot :: "bytes \<Rightarrow> u16 \<Rightarrow> bool" where
  "yubico_slot d n \<longleftrightarrow> length d = 60 \<and> d ! 46 AND OATH_HOTP = 0 \<and> d ! 47 AND SHORT_TICKET = 0 \<and> d ! 47 AND STATIC_TICKET = 0 \<and>
     counter_of d = Some n"

lemma with_counter_spec:
  assumes "length d = 60"
  shows "\<exists>d'. with_counter d n = Some d' \<and> length d' = 60 \<and> counter_of d' = Some n \<and> (\<forall>i < 52. d' ! i = d ! i) \<and> take 52 d' = take 52 d"
  using assms by (auto simp: with_counter_def counter_of_def rd_slice_def rd_def otp_offs make_put_uint16)

lemma yubico_with_counter:
  "yubico_slot d n \<Longrightarrow> with_counter d m = Some d' \<Longrightarrow> yubico_slot d' m \<and> take 52 d' = take 52 d"
  using with_counter_spec [of d m] by (auto simp: yubico_slot_def)

lemma yubico_rd: "yubico_slot d n \<Longrightarrow> i < 60 \<Longrightarrow> rd d i = Some (d ! i)"
  by (simp add: yubico_slot_def rd_def)

lemma init_slot_spec:
  assumes inv: "fs_inv fs" and dyn: "dyn_fid fi" and len: "\<forall>d. fget fs fi = Some d \<longrightarrow> length d = 60"
  shows "\<exists>fs'. init_slot fs fi = Some fs' \<and> fs_inv fs' \<and> (\<forall>fj. fj \<noteq> fi \<longrightarrow> fget fs' fj = fget fs fj) \<and>
    (\<forall>d. fget fs' fi = Some d \<longrightarrow> length d = 60) \<and>
    (\<forall>d n. fget fs fi = Some d \<longrightarrow> yubico_slot d n \<longrightarrow> n + 1 \<le> 0x7fff \<longrightarrow>
       (\<exists>d'. fget fs' fi = Some d' \<and> yubico_slot d' (n + 1) \<and> take 52 d' = take 52 d))"
proof (cases "fget fs fi")
  case None
  then have "\<not> has fs fi" by (simp add: has_def)
  then show ?thesis using None inv by (simp add: init_slot_def dyn_lookup [OF inv dyn] has_ref [OF inv])
next
  case (Some d)
  then have l: "length d = 60" and h: "has fs fi" using len by (auto simp: has_def)
  have r: "rd d i = Some (d ! i)" if "i < 60" for i using l that by (simp add: rd_def)
  obtain n where n: "counter_of d = Some n" using r by (simp add: counter_of_def otp_offs)
  have b: "file_bytes fs (lookup fs fi) = Some d" using bytes_ref [OF inv h] Some by simp
  obtain d' where d': "with_counter d (n + 1) = Some d'" "length d' = 60" using with_counter_spec [OF l] by blast
  obtain fs' where w: "write_file fs (lookup fs fi) d' = Some (CCID_OK, fs')" "fs_inv fs'" "fget fs' = (fget fs)(fi \<mapsto> d')"
    using write_ref [OF inv, of d' fi] Some l d'(2) by auto
  let ?y = "d ! 46 AND OATH_HOTP = 0 \<and> \<not> (d ! 47 AND SHORT_TICKET \<noteq> 0 \<or> d ! 47 AND STATIC_TICKET \<noteq> 0) \<and> n + 1 \<le> 0x7fff"
  have "init_slot fs fi = Some (if ?y then fs' else fs)"
    using h b r n d'(1) w(1) by (simp add: init_slot_def dyn_lookup [OF inv dyn] has_ref [OF inv] otp_offs)
  moreover have "yubico_slot d m \<Longrightarrow> m = n \<and> yubico_slot d' (m + 1) \<and> take 52 d' = take 52 d" for m
    using yubico_with_counter [of d m "m + 1" d'] d'(1) n by (auto simp: yubico_slot_def)
  ultimately show ?thesis using w(2,3) Some l d'(2) inv by (auto simp: yubico_slot_def)
qed

definition rescan_law :: "otp_env \<Rightarrow> bool" where
  "rescan_law env \<longleftrightarrow> (\<forall>fs. fs_inv fs \<longrightarrow> fs_inv (rescan env fs) \<and> fget (rescan env fs) = fget fs)"

text \<open>
  A running token whose slot \<open>num\<close> has the configuration \<open>k\<close>, the usage counter \<open>n\<close> and the session
  counter \<open>s\<close>.
\<close>

definition otp_ready :: "nat \<Rightarrow> bytes \<Rightarrow> otp \<Rightarrow> u16 \<Rightarrow> u8 \<Rightarrow> bool" where
  "otp_ready num k st n s \<longleftrightarrow> fs_inv (pfs st) \<and> scanned st \<and> fget (pfs st) EF_DEV_CONF = None \<and> (num = 1 \<or> num = 2) \<and>
     (\<forall>b d. fget (pfs st) (slot_fid b) = Some d \<longrightarrow> length d = 60) \<and> length (session_counter st) = 2 \<and>
     session_counter st ! (num - 1) = s \<and> (\<exists>d. fget (pfs st) (slot_fid (num = 1)) = Some d \<and> yubico_slot d n \<and> take 52 d = k)"

definition used_counter :: "u16 \<Rightarrow> u16" where "used_counter n = (if n = 0 then 1 else n)"

lemma slot_not_conf: "slot_fid b \<noteq> EF_DEV_CONF" "slot_fid b = slot_fid b' \<longleftrightarrow> b = b'"
  by (auto simp: slot_fid_def fid_defs)

text \<open>What a press types.\<close>

definition otp_text :: "otp_env \<Rightarrow> bytes \<Rightarrow> u16 \<Rightarrow> u32 \<Rightarrow> u8 \<Rightarrow> bytes \<Rightarrow> bytes" where
  "otp_text env k counter ms session rnd = encode_modhex (take 6 k @ aes_ecb env (take 16 (drop 22 k))
     (otp_block (take 6 (drop 16 k)) counter (drop_bit 3 (ms div 1000)) session rnd))"

definition typed_otp :: "otp \<Rightarrow> bytes" where "typed_otp st = take 44 (kb_buf (keyboard st))"

lemma length_encode_modhex: "length (encode_modhex bs) = 2 * length bs"
  by (induction bs) auto

lemma typed_text:
  assumes "length t = 44"
  shows "typed_otp (append_cr [c] tkt (st\<lparr>keyboard := add_keyboard_buffer t b kb\<rparr>)) = t"
proof -
  have "unat (of_nat 44 :: u8) = 44" by simp
  then show ?thesis
    using assms by (auto simp: typed_otp_def append_cr_def add_keyboard_buffer_def append_keyboard_buffer_def Let_def)
qed

lemma press_spec:
  assumes ready: "otp_ready num k st n s" and aes: "\<forall>key b. length (aes_ecb env key b) = 16"
  shows "\<exists>st'. otp_button_pressed env cr num ms rnd junk st = Some (0, st') \<and>
    otp_ready num k st' (if s + 1 = 0 \<and> used_counter n + 1 \<le> 0x7fff then used_counter n + 1
      else if n = 0 then (if s + 1 = 0 then 2 else 1) else n) (s + 1) \<and>
    typed_otp st' = otp_text env k (used_counter n) ms s rnd"
proof -
  let ?fs = "pfs st" and ?fi = "slot_fid (num = 1)" and ?u = "used_counter n"
  have inv: "fs_inv ?fs" and sc: "scanned st" and conf: "fget ?fs EF_DEV_CONF = None" and num: "num = 1 \<or> num = 2"
    and ls: "length (session_counter st) = 2" "session_counter st ! (num - 1) = s"
    and sl: "\<forall>b d. fget ?fs (slot_fid b) = Some d \<longrightarrow> length d = 60"
    using ready by (auto simp: otp_ready_def)
  obtain d where d: "fget ?fs ?fi = Some d" "yubico_slot d n" "take 52 d = k" using ready by (auto simp: otp_ready_def)
  then have l: "length d = 60" and f: "d ! 46 AND OATH_HOTP = 0" "d ! 47 AND SHORT_TICKET = 0" "d ! 47 AND STATIC_TICKET = 0"
    "counter_of d = Some n" by (auto simp: yubico_slot_def)
  have h: "has ?fs ?fi" using d(1) l by (auto simp: has_def)
  have b: "file_bytes ?fs (lookup ?fs ?fi) = Some d" using bytes_ref [OF inv h] d by simp
  have cap: "cap_supported ?fs CAP_OTP = Some True" using cap_supported_spec [OF inv] conf by simp
  define m where "m = (if s + 1 = 0 then ?u + 1 else ?u)"
  obtain d' where d': "with_counter d m = Some d'" "length d' = 60" using with_counter_spec [OF l] by blast
  obtain fs' where w: "write_file ?fs (lookup ?fs ?fi) d' = Some (CCID_OK, fs')" "fs_inv fs'" "fget fs' = (fget ?fs)(?fi \<mapsto> d')"
    using write_ref [OF inv, of d' ?fi] d l d'(2) by auto
  have sr: "rd (session_counter st) (num - 1) = Some s" using ls num by (auto simp: rd_def)
  have yc: "d ! 47 AND CHAL_YUBICO = 0" using f(3) by (simp add: CHAL_YUBICO_def STATIC_TICKET_def)
  define otpk where "otpk = take 6 d @ aes_ecb env (take 16 (drop 22 d))
    (otp_block (take 6 (drop 16 d)) ?u (drop_bit 3 (ms div 1000)) s rnd)"
  define st1 where "st1 = (append_cr [0x0d] (d ! 46) (st\<lparr>keyboard := add_keyboard_buffer (encode_modhex otpk) True (keyboard st)\<rparr>))
    \<lparr>session_counter := (session_counter st)[num - 1 := s + 1]\<rparr>"
  have st1: "pfs st1 = ?fs" "scanned st1" "session_counter st1 = (session_counter st)[num - 1 := s + 1]"
    using sc by (simp_all add: st1_def append_cr_def)
  have a: "session_counter (append_cr [0x0d] t (st\<lparr>keyboard := k\<rparr>)) = session_counter st"
    "pfs (append_cr [0x0d] t (st\<lparr>keyboard := k\<rparr>)) = ?fs" for t k
    by (simp_all add: append_cr_def)
  let ?up = "n = 0 \<or> s + 1 = 0 \<and> ?u + 1 \<le> 0x7fff"
  have p: "press_yubico env num ms rnd (lookup ?fs ?fi) d (d ! 46) st = Some (if ?up then st1\<lparr>pfs := fs'\<rparr> else st1)"
    using f(4) l sr d'(1) w(1) a
    by (auto simp: press_yubico_def rd_slice_def otp_offs Let_def st1_def otpk_def used_counter_def m_def)
  have otpk: "encode_modhex otpk = otp_text env k ?u ms s rnd"
    using d(3) by (auto simp: otpk_def otp_text_def take_drop)
  have "length (encode_modhex otpk) = 44" using l aes by (simp add: length_encode_modhex otpk_def)
  from typed_text [OF this] have ty: "typed_otp st1 = otp_text env k ?u ms s rnd"
    by (simp add: st1_def typed_otp_def otpk)
  then have ty2: "typed_otp (st1\<lparr>pfs := fs'\<rparr>) = otp_text env k ?u ms s rnd" by (simp add: typed_otp_def)
  have "otp_button_pressed env cr num ms rnd junk st = Some (0, if ?up then st1\<lparr>pfs := fs'\<rparr> else st1)"
    using sc cap h b l f yc p
    by (simp add: otp_button_pressed_def init_otp_def dyn_lookup [OF inv dyn_slots(3)] has_ref [OF inv] rd_def otp_offs)
  moreover have "yubico_slot d' m" "take 52 d' = k" using yubico_with_counter [OF d(2) d'(1)] d(3) by simp_all
  then have "otp_ready num k (st1\<lparr>pfs := fs'\<rparr>) m (s + 1)"
    using w(2,3) st1 conf num ls sl d'(2) slot_not_conf slot_not_conf(1) [symmetric] by (auto simp: otp_ready_def)
  moreover have "otp_ready num k st1 n (s + 1)"
    using inv st1 conf num ls sl d by (auto simp: otp_ready_def)
  moreover have "s + 1 \<noteq> 0 \<or> ?u + 1 \<le> 0x7fff \<or> n \<noteq> 0" by (auto simp: used_counter_def)
  ultimately show ?thesis using ty ty2 by (auto simp: m_def used_counter_def)
qed

text \<open>A restart: the variables are initialised, then \<^verbatim>\<open>init_fido\<close> calls \<^verbatim>\<open>init_otp\<close>.\<close>

definition otp_restart :: "otp_env \<Rightarrow> otp \<Rightarrow> otp option" where
  "otp_restart env st = init_otp env (st\<lparr>scanned := False, session_counter := [0, 0]\<rparr>)"

lemma restart_spec:
  assumes ready: "otp_ready num k st n s" and env: "rescan_law env" and n: "n + 1 \<le> 0x7fff"
  shows "\<exists>st'. otp_restart env st = Some st' \<and> otp_ready num k st' (n + 1) 0"
proof -
  let ?fs = "rescan env (pfs st)" and ?fi = "slot_fid (num = 1)"
  have "fs_inv (pfs st)" using ready by (simp add: otp_ready_def)
  then have inv: "fs_inv ?fs" and g: "fget ?fs = fget (pfs st)" using env by (auto simp: rescan_law_def)
  have conf: "fget ?fs EF_DEV_CONF = None" and num: "num = 1 \<or> num = 2"
    and sl: "\<forall>b d. fget ?fs (slot_fid b) = Some d \<longrightarrow> length d = 60" using ready g by (auto simp: otp_ready_def)
  obtain d where d: "fget ?fs ?fi = Some d" "yubico_slot d n" "take 52 d = k" using ready g by (auto simp: otp_ready_def)
  have s12: "EF_OTP_SLOT1 = slot_fid True" "EF_OTP_SLOT2 = slot_fid False" by (simp_all add: slot_fid_def)
  obtain fs1 where i1: "init_slot ?fs (slot_fid True) = Some fs1" "fs_inv fs1" "\<forall>fj. fj \<noteq> slot_fid True \<longrightarrow> fget fs1 fj = fget ?fs fj"
    "\<forall>d. fget fs1 (slot_fid True) = Some d \<longrightarrow> length d = 60"
    "\<forall>d n. fget ?fs (slot_fid True) = Some d \<longrightarrow> yubico_slot d n \<longrightarrow> n + 1 \<le> 0x7fff \<longrightarrow>
       (\<exists>d'. fget fs1 (slot_fid True) = Some d' \<and> yubico_slot d' (n + 1) \<and> take 52 d' = take 52 d)"
    using init_slot_spec [OF inv dyn_slots(3), of True] sl by blast
  have "fget fs1 (slot_fid False) = fget ?fs (slot_fid False)" using i1(3) slot_not_conf(2) by simp
  then have "\<forall>d. fget fs1 (slot_fid False) = Some d \<longrightarrow> length d = 60" using sl by simp
  from init_slot_spec [OF i1(2) dyn_slots(3) this] obtain fs2 where i2: "init_slot fs1 (slot_fid False) = Some fs2" "fs_inv fs2" "\<forall>fj. fj \<noteq> slot_fid False \<longrightarrow> fget fs2 fj = fget fs1 fj"
    "\<forall>d. fget fs2 (slot_fid False) = Some d \<longrightarrow> length d = 60"
    "\<forall>d n. fget fs1 (slot_fid False) = Some d \<longrightarrow> yubico_slot d n \<longrightarrow> n + 1 \<le> 0x7fff \<longrightarrow>
       (\<exists>d'. fget fs2 (slot_fid False) = Some d' \<and> yubico_slot d' (n + 1) \<and> take 52 d' = take 52 d)"
    by blast
  have c: "fget fs2 EF_DEV_CONF = None" using i1(3) i2(3) conf slot_not_conf(1) [symmetric] by simp
  have sl2: "fget fs2 (slot_fid b) = Some d \<longrightarrow> length d = 60" for b d
    using i2(3,4) i1(4) slot_not_conf(2) by (cases b) auto
  have "\<exists>d'. fget fs2 ?fi = Some d' \<and> yubico_slot d' (n + 1) \<and> take 52 d' = k"
    using num
  proof
    assume "num = 1"
    then show ?thesis using i1(5) i2(3) d n slot_not_conf(2) by auto
  next
    assume "num = 2"
    then show ?thesis using i1(3) i2(5) d n slot_not_conf(2) by auto
  qed
  moreover have "[0, 0] ! (num - 1) = (0 :: u8)" using num by auto
  ultimately have "otp_ready num k (st\<lparr>scanned := True, session_counter := [0, 0], pfs := fs2\<rparr>) (n + 1) 0"
    using i2(2) c sl2 num by (auto simp: otp_ready_def)
  moreover have "otp_restart env st = Some (st\<lparr>scanned := True, session_counter := [0, 0], pfs := fs2\<rparr>)"
    using i1(1) i2(1) by (simp add: otp_restart_def init_otp_def s12)
  ultimately show ?thesis by blast
qed

datatype otp_event = Press u32 bytes | Restart

text \<open>A life of the token: presses, with the clock and two random bytes, and restarts; what was typed.\<close>

fun otp_life :: "otp_env \<Rightarrow> crypto \<Rightarrow> nat \<Rightarrow> u8 \<Rightarrow> otp_event list \<Rightarrow> otp \<Rightarrow> (bytes list \<times> otp) option" where
  "otp_life env cr num junk [] st = Some ([], st)"
| "otp_life env cr num junk (Press ms rnd # evs) st = do {
     (_, st) \<leftarrow> otp_button_pressed env cr num ms rnd junk st;
     (ts, st') \<leftarrow> otp_life env cr num junk evs st;
     Some (typed_otp st # ts, st')
   }"
| "otp_life env cr num junk (Restart # evs) st = do {
     st \<leftarrow> otp_restart env st;
     otp_life env cr num junk evs st
   }"

text \<open>The text \<open>t\<close> is a one-time password with the two counters of \<open>p\<close>.\<close>

definition otp_at :: "otp_env \<Rightarrow> bytes \<Rightarrow> bytes \<Rightarrow> nat \<Rightarrow> bool" where
  "otp_at env k t p \<longleftrightarrow> (\<exists>ms rnd. t = otp_text env k (of_nat (p div 256)) ms (of_nat (p mod 256)) rnd)"

lemma life_spec:
  assumes "otp_ready num k st n s" and env: "rescan_law env" and aes: "\<forall>key b. length (aes_ecb env key b) = 16"
    and "unat n + 2 * length evs < 0x7fff"
  shows "\<exists>ts st' ps. otp_life env cr num junk evs st = Some (ts, st') \<and> sorted_wrt (<) ps \<and>
    list_all2 (otp_at env k) ts ps \<and> (n \<noteq> 0 \<longrightarrow> (\<forall>p \<in> set ps. 256 * unat n + unat s \<le> p))"
  using assms(1,4)
proof (induction evs arbitrary: st n s)
  case Nil
  then show ?case by simp
next
  case (Cons ev evs)
  have small: "unat n < 0x7ffd" using Cons.prems(2) by simp
  show ?case
  proof (cases ev)
    case Restart
    have "unat (n + 1) = unat n + 1" using small by (simp add: unat_word_ariths)
    then have le: "n + 1 \<le> 0x7fff" and n1: "n + 1 \<noteq> 0" using small by (auto simp: word_le_nat_alt)
    obtain st1 where r: "otp_restart env st = Some st1" "otp_ready num k st1 (n + 1) 0"
      using restart_spec [OF Cons.prems(1) env le] by blast
    have "unat (n + 1) + 2 * length evs < 0x7fff" using Cons.prems(2) \<open>unat (n + 1) = unat n + 1\<close> by simp
    from Cons.IH [OF r(2) this] obtain ts st' ps where
      i: "otp_life env cr num junk evs st1 = Some (ts, st')" "sorted_wrt (<) ps" "list_all2 (otp_at env k) ts ps"
      "\<forall>p \<in> set ps. 256 * (unat n + 1) \<le> p" using n1 \<open>unat (n + 1) = unat n + 1\<close> by auto
    have "unat s < 256" by (rule byte_bound)
    then have "\<forall>p \<in> set ps. 256 * unat n + unat s \<le> p" using i(4) by force
    then show ?thesis using Restart r(1) i by auto
  next
    case (Press ms rnd)
    let ?u = "used_counter n"
    have u: "unat ?u = max 1 (unat n)" using unat_eq_zero [of n] by (auto simp: used_counter_def)
    have u1: "unat (?u + 1) = unat ?u + 1" using small u by (simp add: unat_word_ariths)
    then have le: "?u + 1 \<le> 0x7fff" using small u by (simp add: word_le_nat_alt)
    define n' where "n' = (if s + 1 = 0 then ?u + 1 else ?u)"
    obtain st1 where r: "otp_button_pressed env cr num ms rnd junk st = Some (0, st1)" "otp_ready num k st1 n' (s + 1)"
      "typed_otp st1 = otp_text env k ?u ms s rnd"
      using press_spec [OF Cons.prems(1) aes, of cr ms rnd junk] le by (auto simp: n'_def used_counter_def split: if_splits)
    have n': "n' \<noteq> 0" "unat n' + 2 * length evs < 0x7fff"
      using Cons.prems(2) Press u u1 by (auto simp: n'_def used_counter_def split: if_splits)
    have next_pos: "256 * unat n' + unat (s + 1) = 256 * unat ?u + unat s + 1"
    proof (cases "s + 1 = 0")
      case True
      then have "s = - 1" by (simp add: eq_neg_iff_add_eq_0)
      also have "(- 1 :: u8) = 255" by simp
      finally have "s = 255" .
      then show ?thesis using u1 by (simp add: n'_def)
    next
      case False
      then have "unat (s + 1) = unat s + 1" by (metis add.commute unatSuc Suc_eq_plus1)
      then show ?thesis using False by (simp add: n'_def)
    qed
    from Cons.IH [OF r(2) n'(2)] n'(1) obtain ts st' ps where
      i: "otp_life env cr num junk evs st1 = Some (ts, st')" "sorted_wrt (<) ps" "list_all2 (otp_at env k) ts ps"
      "\<forall>p \<in> set ps. 256 * unat n' + unat (s + 1) \<le> p" by auto
    let ?p = "256 * unat ?u + unat s"
    have s: "unat s < 256" by (rule byte_bound)
    then have "?p div 256 = unat ?u" "?p mod 256 = unat s" by simp_all
    then have "otp_at env k (typed_otp st1) ?p" using r(3) by (auto simp: otp_at_def)
    moreover have "\<forall>p \<in> set ps. ?p < p" using i(4) next_pos by auto
    moreover have "n \<noteq> 0 \<Longrightarrow> unat ?u = unat n" by (simp add: used_counter_def)
    ultimately show ?thesis
      using Press r(1) i by (intro exI [of _ "typed_otp st1 # ts"] exI [of _ st'] exI [of _ "?p # ps"]) (auto intro: less_imp_le)
  qed
qed


section \<open>Updating\<close>

lemma updated_config_spec:
  assumes "length old = 52" and "length new = 52"
  shows "length (updated_config old new) = 52" and "take 38 (updated_config old new) = take 38 old"
    and "updated_config old new ! 44 = old ! 44" and "take 6 (drop 38 (updated_config old new)) = take 6 (drop 38 new)"
    and "updated_config old new ! 46 AND 0xC0 = old ! 46 AND 0xC0" and "updated_config old new ! 47 AND 0xF3 = old ! 47 AND 0xF3"
proof -
  show "length (updated_config old new) = 52" using assms by (simp add: updated_config_def otp_offs)
  show "take 38 (updated_config old new) = take 38 old" "take 6 (drop 38 (updated_config old new)) = take 6 (drop 38 new)"
    using assms by (simp_all add: updated_config_def otp_offs take_update_swap drop_update_swap min_def take_drop list_update_beyond)
  show "updated_config old new ! 44 = old ! 44" using assms by (simp add: updated_config_def otp_offs)
  have m: "((x AND NOT m) OR (y AND m)) AND k = x AND k" if "m AND k = 0" for x y m k :: u8
  proof (rule bit_word_eqI)
    fix n
    have "\<not> (bit m n \<and> bit k n)" using that by (metis bit_and_iff bit_0_eq bot_fun_def bot_bool_def)
    then show "bit (((x AND NOT m) OR (y AND m)) AND k) n = bit (x AND k) n" by (auto simp: bit_simps dest: bit_imp_le_length)
  qed
  show "updated_config old new ! 46 AND 0xC0 = old ! 46 AND 0xC0" "updated_config old new ! 47 AND 0xF3 = old ! 47 AND 0xF3"
    using assms m [of "0x3f" "0xC0" "old ! 46" "new ! 46"] m [of "0x0c" "0xF3" "old ! 47" "new ! 47"]
    by (simp_all add: updated_config_def otp_offs TKTFLAG_UPDATE_MASK_def CFGFLAG_UPDATE_MASK_def)
qed

text \<open>
  the update command keeps the identities, the key and the mode of the slot, whatever the new
  configuration says, and takes its access code and its other flags from the new one; but the record shrinks
  to the 52 bytes of the configuration, and the usage counter behind them is lost.
\<close>

theorem otp_update_drops_counter:
  assumes inv: "fs_inv (pfs st)" and c: "P2 c = 0" "P1 c = 4 \<or> P1 c = 5" and len: "60 \<le> length (cbuf c)"
    and old: "fget (pfs st) (slot_fid (P1 c = 4)) = Some old" "length old = 60"
    and valid: "config_valid (take 52 (cbuf c))" and acc: "\<not> slot_locked (pfs st) (slot_fid (P1 c = 4)) c"
  shows "\<exists>fs' d. cmd_otp env cr junk c res st = ok res (st\<lparr>pfs := fs'\<rparr>) \<and> fs_inv fs' \<and>
    fget fs' = (fget (pfs st))(slot_fid (P1 c = 4) \<mapsto> d) \<and> length d = 52 \<and> take 38 d = take 38 old \<and> d ! 44 = old ! 44 \<and>
    take 6 (drop 38 d) = take 6 (drop 38 (cbuf c)) \<and> d ! 46 AND 0xC0 = old ! 46 AND 0xC0 \<and> d ! 47 AND 0xF3 = old ! 47 AND 0xF3 \<and>
    counter_of d = None"
proof -
  let ?fi = "slot_fid (P1 c = 4)" and ?new = "take 52 (cbuf c)"
  define d where "d = updated_config (take 52 old) ?new"
  have l: "length (take 52 old) = 52" "length ?new = 52" using old(2) len by simp_all
  note u = updated_config_spec [OF l, folded d_def]
  have h: "has (pfs st) ?fi" using old by (auto simp: has_def)
  have a: "access_ok c old = Some True"
    using acc old len by (auto simp: slot_locked_def access_ok_def rd_slice_def otp_offs)
  obtain fs' where w: "write_file (pfs st) (lookup (pfs st) ?fi) d = Some (CCID_OK, fs')" "fs_inv fs'"
    "fget fs' = (fget (pfs st))(?fi \<mapsto> d)" using write_ref [OF inv, of d ?fi] old u(1) by auto
  have "cmd_otp env cr junk c res st = otp_update c res st" using c by (auto simp: cmd_otp_def)
  also have "\<dots> = ok res (st\<lparr>pfs := fs'\<rparr>)"
    using len valid h a old w(1) bytes_ref [OF inv h] dyn_lookup [OF inv dyn_slots(3)]
    by (simp add: otp_update_def Let_def rd_slice_def otp_offs has_ref [OF inv] d_def)
  finally show ?thesis
    using w(2,3) u old(2) by (intro exI [of _ fs'] exI [of _ d]) (simp add: counter_of_def rd_def otp_offs take_drop)
qed

section \<open>Witnesses\<close>

definition two_slots :: fs where
  "two_slots = token_fs [(EF_OTP_SLOT1, replicate 60 0), (EF_OTP_SLOT2, replicate 60 1)]"

lemma two_slots: "fs_inv two_slots" "fget two_slots = [EF_OTP_SLOT2 \<mapsto> replicate 60 1, EF_OTP_SLOT1 \<mapsto> replicate 60 0]"
  unfolding two_slots_def by (subst token_fs; simp add: dyn_slots(4))+

lemma slots_distinct: "EF_OTP_SLOT2 \<noteq> EF_OTP_SLOT1"
  using dyn_slots(4) by simp

lemma two_slots_ok: "slot_files_ok two_slots"
  by (simp add: slot_files_ok_def two_slots slot_fid_def)

text \<open>A command that configures slot 1 with 52 bytes whose checksum is wrong, without the access code.\<close>

definition bad_config :: command where
  "bad_config = \<lparr>CLA = 0, INS = 1, P1 = 1, P2 = 0, cbuf = replicate 60 1, cnc = 60, random_gen = (\<lambda>n. [])\<rparr>"

theorem otp_configure_cases_witness:
  "\<exists>w st'. cmd_otp sample_env sample_crypto (\<lambda>_. 0) bad_config [] (sample_otp two_slots) = Some (w, [], st') \<and>
    w = SW_SECURITY_STATUS_NOT_SATISFIED \<and> fget (pfs st') = fget two_slots"
proof -
  have "slot_locked two_slots (slot_fid True) bad_config"
    by (simp add: slot_locked_def two_slots slot_fid_def bad_config_def dyn_slots(4))
  then show ?thesis
    using otp_configure_cases [of "sample_otp two_slots" bad_config sample_env sample_crypto "\<lambda>_. 0" "[]"] two_slots(1) two_slots_ok
    by (auto simp: bad_config_def)
qed

definition swap_command :: command where "swap_command = bad_config\<lparr>P1 := 0x06\<rparr>"

theorem otp_swap_exchanges_witness:
  "\<exists>fs'. cmd_otp sample_env sample_crypto (\<lambda>_. 0) swap_command [] (sample_otp two_slots) = ok [] (sample_otp two_slots\<lparr>pfs := fs'\<rparr>) \<and>
    fs_inv fs' \<and> fget fs' = (fget (pfs (sample_otp two_slots)))(EF_OTP_SLOT1 \<mapsto> replicate 60 1, EF_OTP_SLOT2 \<mapsto> replicate 60 0)"
  by (rule otp_swap_exchanges) (simp_all add: two_slots swap_command_def bad_config_def dyn_slots(4) slots_distinct)

text \<open>Slot 1, the empty file of slot 2, and a resident credential behind them.\<close>

definition slot_one :: fs where "slot_one = token_fs [(EF_OTP_SLOT1, replicate 60 0)]"
definition slot_one_new :: fs where "slot_one_new = snd (file_new slot_one EF_OTP_SLOT2)"
definition slot_cred :: fs where "slot_cred = snd (the (store_file slot_one_new EF_CRED [5]))"

lemma slot_cred: "fs_inv slot_cred" "fget slot_cred = [EF_OTP_SLOT1 \<mapsto> replicate 60 0, EF_CRED \<mapsto> [5]]"
    "lookup slot_cred EF_OTP_SLOT1 = Some (Dynamic 0)" "lookup slot_cred EF_OTP_SLOT2 = Some (Dynamic 1)"
    "lookup slot_cred EF_CRED = Some (Dynamic 2)"
proof -
  have d: "dyn_fid EF_CRED" "EF_CRED \<noteq> EF_OTP_SLOT1" "EF_CRED \<noteq> EF_OTP_SLOT2"
    by (simp_all add: dyn_fid_def file_table_def internal_ef_def fid_defs)
  have r0: "has_room (Suc 99) roomy_fs" using roomy_room(3) by simp
  obtain fs1 where s1: "store_file roomy_fs EF_OTP_SLOT1 (replicate 60 0) = Some (CCID_OK, fs1)" "fs_inv fs1" "has_room 99 fs1"
    "fget fs1 = [EF_OTP_SLOT1 \<mapsto> replicate 60 0]" "lookup fs1 = (lookup roomy_fs)(EF_OTP_SLOT1 \<mapsto> Dynamic 0)" "dynamic_files fs1 = 1"
    using store_room [OF roomy_room(1) r0, of EF_OTP_SLOT1 "replicate 60 0"] roomy_room(2,4) roomy_room(5) [OF dyn_slots(1)] by auto
  have fs1: "slot_one = fs1" using s1(1) by (simp add: slot_one_def)
  have l1: "lookup fs1 EF_OTP_SLOT2 = None" "lookup fs1 EF_CRED = None"
    using s1(5) roomy_room(5) dyn_slots d by simp_all
  have "has_room (Suc 98) fs1" using s1(3) by simp
  from new_file_room [OF s1(2) this, of EF_OTP_SLOT2] obtain r fs2 where s2: "file_new fs1 EF_OTP_SLOT2 = (Some r, fs2)" "fs_inv fs2"
    "fget fs2 = fget fs1" "pick fs2 = pick fs1" "store fs2 = store fs1"
    "lookup fs2 = (lookup fs1)(EF_OTP_SLOT2 \<mapsto> Dynamic 1)" "dynamic_files fs2 = 2"
    using l1(1) s1(6) by auto
  have fs2: "slot_one_new = fs2" using s2(1) by (simp add: slot_one_new_def fs1)
  have r2: "has_room (Suc 97) fs2" using s1(3) s2(4,5,7) by (simp add: has_room_def)
  have "fget fs2 EF_CRED = None" "lookup fs2 EF_CRED = None" using s2(3,6) s1(4) l1(2) d by simp_all
  from store_room [OF s2(2) r2 this(1), of "[5]"] this(2) obtain fs3 where s3: "store_file fs2 EF_CRED [5] = Some (CCID_OK, fs3)"
    "fs_inv fs3" "fget fs3 = (fget fs2)(EF_CRED \<mapsto> [5])" "lookup fs3 = (lookup fs2)(EF_CRED \<mapsto> Dynamic 2)"
    using s2(7) by auto
  have "slot_cred = fs3" using s3(1) by (simp add: slot_cred_def fs2)
  then show "fs_inv slot_cred" "fget slot_cred = [EF_OTP_SLOT1 \<mapsto> replicate 60 0, EF_CRED \<mapsto> [5]]"
    "lookup slot_cred EF_OTP_SLOT1 = Some (Dynamic 0)" "lookup slot_cred EF_OTP_SLOT2 = Some (Dynamic 1)"
    "lookup slot_cred EF_CRED = Some (Dynamic 2)"
    using s3 s2 s1 d dyn_slots(4) by simp_all
qed

theorem otp_swap_overwrites_witness:
  "\<exists>fs'. cmd_otp sample_env sample_crypto (\<lambda>_. 0) swap_command [] (sample_otp slot_cred) = ok [] (sample_otp slot_cred\<lparr>pfs := fs'\<rparr>) \<and>
    fs_inv fs' \<and> (fget fs' EF_CRED = Some (replicate 60 0) \<or> fget fs' EF_CRED = None) \<and>
    fget fs' EF_OTP_SLOT1 = None \<and> fget fs' EF_OTP_SLOT2 = None"
  by (rule otp_swap_overwrites [where i = 0])
    (simp_all add: slot_cred swap_command_def bad_config_def slots_distinct, simp_all add: slot_cred fid_defs)

lemma sample_ready: "otp_ready 1 (replicate 52 0) (sample_otp two_slots) 0 0"
  by (auto simp: otp_ready_def two_slots slot_fid_def dyn_slots(4) yubico_slot_def counter_of_def rd_def otp_offs make_uint16_t_def
      fid_defs nth_append)


text \<open>52 zero bytes with the checksum of a valid configuration, for a slot with the access code 0.\<close>

definition update_command :: command where
  "update_command = \<lparr>CLA = 0, INS = 1, P1 = 4, P2 = 0,
     cbuf = replicate 50 0 @ [ucast (NOT (calculate_crc (replicate 50 0))), ucast (drop_bit 8 (NOT (calculate_crc (replicate 50 0))))] @ replicate 8 0,
     cnc = 58, random_gen = (\<lambda>n. [])\<rparr>"

lemma update_command_valid: "config_valid (take 52 (cbuf update_command))"
  using crc_residue [of "replicate 50 0"] by (simp add: config_valid_def otp_offs update_command_def check_crc_def nth_append)

theorem otp_update_drops_counter_witness:
  "\<exists>fs' d. cmd_otp sample_env sample_crypto (\<lambda>_. 0) update_command [] (sample_otp two_slots) = ok [] (sample_otp two_slots\<lparr>pfs := fs'\<rparr>) \<and>
    counter_of d = None \<and> fget fs' = (fget two_slots)(EF_OTP_SLOT1 \<mapsto> d)"
proof -
  have f: "slot_fid (P1 update_command = 4) = EF_OTP_SLOT1" by (simp add: slot_fid_def update_command_def)
  have "\<not> slot_locked two_slots EF_OTP_SLOT1 update_command"
    by (simp add: slot_locked_def two_slots dyn_slots(4) update_command_def)
  then show ?thesis
    using otp_update_drops_counter [of "sample_otp two_slots" update_command "replicate 60 0" sample_env sample_crypto "\<lambda>_. 0" "[]",
        unfolded f] two_slots update_command_valid dyn_slots(4)
    by (auto simp: update_command_def)
qed

end
