(* ===== verification/Cbor.thy ===== *)
theory Cbor
  imports Prelude
begin

text \<open>
  The reading of CBOR parameters, \<^verbatim>\<open>src/fido/ctap2_cbor.h\<close>.  The decoder itself (tinycbor) is not part of the
  sources: a request is the sequence of items it delivers.  A container is the flat sequence of its elements, for
  a map the keys and the values in turn, as the iteration of the decoder sees them; an element that it
  rejects is \<open>CBad\<close> with its error.  The macros of the header are functions that take the rest of the
  handler as an argument, the way the macros precede it in the text.
\<close>

datatype cbor = CUint u64 | CNint u64 | CBytes bytes | CText bytes | CBool bool | CArray "cbor list" | CMap "cbor list"
  | COther | CBad int

text \<open>\<^verbatim>\<open>CborErrorImproperValue\<close>, which the handlers replace at their end, and all other codes.\<close>

datatype cerr = Improper | Err int

fun cerr_code :: "cerr \<Rightarrow> int" where
  "cerr_code Improper = 0x11"
| "cerr_code (Err e) = e"

text \<open>Moving to the next element already looks at it.\<close>

definition cbor_next :: "cbor list \<Rightarrow> (cbor list \<Rightarrow> cerr + 'a) \<Rightarrow> cerr + 'a" where
  "cbor_next xs k = (case xs of CBad e # _ \<Rightarrow> Inl (Err e) | _ \<Rightarrow> k xs)"

definition field_uint :: "cbor list \<Rightarrow> (u64 \<Rightarrow> cbor list \<Rightarrow> cerr + 'a) \<Rightarrow> cerr + 'a" where
  "field_uint xs k = (case xs of CUint n # r \<Rightarrow> cbor_next r (k n) | _ \<Rightarrow> Inl Improper)"

text \<open>\<^verbatim>\<open>cbor_value_get_int64\<close> gives the two's complement.\<close>

definition field_int :: "cbor list \<Rightarrow> (int \<Rightarrow> cbor list \<Rightarrow> cerr + 'a) \<Rightarrow> cerr + 'a" where
  "field_int xs k =
     (case xs of CUint n # r \<Rightarrow> cbor_next r (k (sint n)) | CNint n # r \<Rightarrow> cbor_next r (k (sint (NOT n))) | _ \<Rightarrow> Inl Improper)"

definition field_bytes :: "cbor list \<Rightarrow> (bytes \<Rightarrow> cbor list \<Rightarrow> cerr + 'a) \<Rightarrow> cerr + 'a" where
  "field_bytes xs k = (case xs of CBytes b # r \<Rightarrow> cbor_next r (k b) | _ \<Rightarrow> Inl Improper)"

definition field_text :: "cbor list \<Rightarrow> (bytes \<Rightarrow> cbor list \<Rightarrow> cerr + 'a) \<Rightarrow> cerr + 'a" where
  "field_text xs k = (case xs of CText b # r \<Rightarrow> cbor_next r (k b) | _ \<Rightarrow> Inl Improper)"

definition field_bool :: "cbor list \<Rightarrow> (bool \<Rightarrow> cbor list \<Rightarrow> cerr + 'a) \<Rightarrow> cerr + 'a" where
  "field_bool xs k = (case xs of CBool b # r \<Rightarrow> cbor_next r (k b) | _ \<Rightarrow> Inl Improper)"

text \<open>Entering a container; the handlers leave it when its elements are used up.\<close>

definition parse_map :: "cbor list \<Rightarrow> (cbor list \<Rightarrow> cerr + 'b) \<Rightarrow> ('b \<Rightarrow> cbor list \<Rightarrow> cerr + 'a) \<Rightarrow> cerr + 'a" where
  "parse_map xs loop k =
     (case xs of
        CMap m # r \<Rightarrow> (case cbor_next m loop of Inl e \<Rightarrow> Inl e | Inr q \<Rightarrow> cbor_next r (k q))
      | _ \<Rightarrow> Inl Improper)"

definition parse_array :: "cbor list \<Rightarrow> (cbor list \<Rightarrow> cerr + 'b) \<Rightarrow> ('b \<Rightarrow> cbor list \<Rightarrow> cerr + 'a) \<Rightarrow> cerr + 'a" where
  "parse_array xs loop k =
     (case xs of
        CArray m # r \<Rightarrow> (case cbor_next m loop of Inl e \<Rightarrow> Inl e | Inr q \<Rightarrow> cbor_next r (k q))
      | _ \<Rightarrow> Inl Improper)"

text \<open>\<^verbatim>\<open>CBOR_ADVANCE\<close>.  A map has a value for each key; without one there is nothing to skip.\<close>

definition cbor_advance :: "cbor list \<Rightarrow> (cbor list \<Rightarrow> cerr + 'a) \<Rightarrow> cerr + 'a" where
  "cbor_advance xs k = (case xs of _ # r \<Rightarrow> cbor_next r k | [] \<Rightarrow> Inl Improper)"

lemmas cbor_reads = cbor_next_def field_uint_def field_int_def field_bytes_def field_text_def field_bool_def
  parse_map_def parse_array_def cbor_advance_def

text \<open>What a loop needs to know: the handler goes on with fewer elements.\<close>

lemma cbor_next_cong [fundef_cong]:
  "xs = ys \<Longrightarrow> (\<And>zs. zs = ys \<Longrightarrow> k zs = k' zs) \<Longrightarrow> cbor_next xs k = cbor_next ys k'"
  by (auto simp: cbor_next_def split: list.split cbor.split)

lemma field_uint_cong [fundef_cong]:
  "xs = ys \<Longrightarrow> (\<And>n r. ys = CUint n # r \<Longrightarrow> k n r = k' n r) \<Longrightarrow> field_uint xs k = field_uint ys k'"
  by (auto simp: field_uint_def cbor_next_def split: list.split cbor.split)

lemma field_int_cong [fundef_cong]:
  "xs = ys \<Longrightarrow> (\<And>n x r. ys = x # r \<Longrightarrow> k n r = k' n r) \<Longrightarrow> field_int xs k = field_int ys k'"
  by (auto simp: field_int_def cbor_next_def split: list.split cbor.split)

lemma field_bytes_cong [fundef_cong]:
  "xs = ys \<Longrightarrow> (\<And>b r. ys = CBytes b # r \<Longrightarrow> k b r = k' b r) \<Longrightarrow> field_bytes xs k = field_bytes ys k'"
  by (auto simp: field_bytes_def cbor_next_def split: list.split cbor.split)

lemma field_text_cong [fundef_cong]:
  "xs = ys \<Longrightarrow> (\<And>b r. ys = CText b # r \<Longrightarrow> k b r = k' b r) \<Longrightarrow> field_text xs k = field_text ys k'"
  by (auto simp: field_text_def cbor_next_def split: list.split cbor.split)

lemma field_bool_cong [fundef_cong]:
  "xs = ys \<Longrightarrow> (\<And>b r. ys = CBool b # r \<Longrightarrow> k b r = k' b r) \<Longrightarrow> field_bool xs k = field_bool ys k'"
  by (auto simp: field_bool_def cbor_next_def split: list.split cbor.split)

lemma parse_map_cong [fundef_cong]:
  "xs = ys \<Longrightarrow> (\<And>m r. ys = CMap m # r \<Longrightarrow> loop m = loop' m) \<Longrightarrow> (\<And>q m r. ys = CMap m # r \<Longrightarrow> k q r = k' q r) \<Longrightarrow>
     parse_map xs loop k = parse_map ys loop' k'"
  by (auto simp: parse_map_def cbor_next_def split: list.split cbor.split sum.split)

lemma parse_array_cong [fundef_cong]:
  "xs = ys \<Longrightarrow> (\<And>m r. ys = CArray m # r \<Longrightarrow> loop m = loop' m) \<Longrightarrow> (\<And>q m r. ys = CArray m # r \<Longrightarrow> k q r = k' q r) \<Longrightarrow>
     parse_array xs loop k = parse_array ys loop' k'"
  by (auto simp: parse_array_def cbor_next_def split: list.split cbor.split sum.split)

lemma cbor_advance_cong [fundef_cong]:
  "xs = ys \<Longrightarrow> (\<And>x r. ys = x # r \<Longrightarrow> k r = k' r) \<Longrightarrow> cbor_advance xs k = cbor_advance ys k'"
  by (auto simp: cbor_advance_def cbor_next_def split: list.split cbor.split)

text \<open>The order of the integer keys: the mandatory ones in sequence, the others ascending.\<close>

definition key_error :: "u64 \<Rightarrow> u64 \<Rightarrow> u64 \<Rightarrow> cerr option" where
  "key_error mandatory val_c val_u =
     (if val_c \<le> mandatory \<and> val_c \<noteq> val_u then Some (Err 0x14) else if val_u < val_c then Some (Err 0x12) else None)"

text \<open>\<^verbatim>\<open>COSE_read_key\<close>: key type, algorithm, curve and the coordinates of a point.\<close>

record cose =
  kty :: int
  alg :: int
  crv :: int
  kax :: "bytes option"
  kay :: "bytes option"

fun cose_loop :: "cose \<Rightarrow> cbor list \<Rightarrow> cerr + cose" where
  "cose_loop q [] = Inr q"
| "cose_loop q xs =
     field_int xs (\<lambda>kkey r.
       if kkey = 1 then field_int r (\<lambda>n r. cose_loop (q\<lparr>kty := n\<rparr>) r)
       else if kkey = 3 then field_int r (\<lambda>n r. cose_loop (q\<lparr>alg := n\<rparr>) r)
       else if kkey = - 1 then field_int r (\<lambda>n r. cose_loop (q\<lparr>crv := n\<rparr>) r)
       else if kkey = - 2 then field_bytes r (\<lambda>b r. cose_loop (q\<lparr>kax := Some b\<rparr>) r)
       else if kkey = - 3 then field_bytes r (\<lambda>b r. cose_loop (q\<lparr>kay := Some b\<rparr>) r)
       else cbor_advance r (cose_loop q))"

definition no_cose :: cose where
  "no_cose = \<lparr>kty = 0, alg = 0, crv = 0, kax = None, kay = None\<rparr>"

definition COSE_read_key :: "cose \<Rightarrow> cbor list \<Rightarrow> (cose \<Rightarrow> cbor list \<Rightarrow> cerr + 'a) \<Rightarrow> cerr + 'a" where
  "COSE_read_key q xs k = parse_map xs (cose_loop q) k"

lemma COSE_read_key_cong [fundef_cong]:
  "q = q' \<Longrightarrow> xs = ys \<Longrightarrow> (\<And>c m r. ys = CMap m # r \<Longrightarrow> k c r = k' c r) \<Longrightarrow> COSE_read_key q xs k = COSE_read_key q' ys k'"
  by (auto simp: COSE_read_key_def intro: parse_map_cong)

end
