(* ===== verification/Ctap.thy ===== *)
theory Ctap
  imports Samples Cbor
begin

text \<open>
  What the CTAP2 commands share: status codes, the static variables of \<^verbatim>\<open>src/fido/*.c\<close> as one record, and
  the cryptography of the PIN/UV protocols of \<^verbatim>\<open>cbor_client_pin.c\<close>.  mbedtls, the random generator and the clock
  are parameters.  A handler ends with a code and, when it is 0, the CBOR value of its answer, if it has one;
  \<open>None\<close> is undefined behaviour: a read outside of a buffer or through NULL.

  Some handlers write a few bytes behind an array on the stack.  The model goes on as if these bytes were
  unused, and counts them in \<open>overran\<close>.
\<close>

section \<open>Codes and constants\<close>

definition CTAP1_ERR_INVALID_PARAMETER :: int where "CTAP1_ERR_INVALID_PARAMETER = 0x02"
definition CTAP1_ERR_INVALID_LEN :: int where "CTAP1_ERR_INVALID_LEN = 0x03"
definition CTAP1_ERR_INVALID_SEQ :: int where "CTAP1_ERR_INVALID_SEQ = 0x04"
definition CTAP1_ERR_OTHER :: int where "CTAP1_ERR_OTHER = 0x7f"
definition CTAP2_ERR_CBOR_UNEXPECTED_TYPE :: int where "CTAP2_ERR_CBOR_UNEXPECTED_TYPE = 0x11"
definition CTAP2_ERR_INVALID_CBOR :: int where "CTAP2_ERR_INVALID_CBOR = 0x12"
definition CTAP2_ERR_MISSING_PARAMETER :: int where "CTAP2_ERR_MISSING_PARAMETER = 0x14"
definition CTAP2_ERR_LARGE_BLOB_STORAGE_FULL :: int where "CTAP2_ERR_LARGE_BLOB_STORAGE_FULL = 0x18"
definition CTAP2_ERR_INVALID_CREDENTIAL :: int where "CTAP2_ERR_INVALID_CREDENTIAL = 0x22"
definition CTAP2_ERR_KEY_STORE_FULL :: int where "CTAP2_ERR_KEY_STORE_FULL = 0x28"
definition CTAP2_ERR_UNSUPPORTED_OPTION :: int where "CTAP2_ERR_UNSUPPORTED_OPTION = 0x2B"
definition CTAP2_ERR_NO_CREDENTIALS :: int where "CTAP2_ERR_NO_CREDENTIALS = 0x2E"
definition CTAP2_ERR_NOT_ALLOWED :: int where "CTAP2_ERR_NOT_ALLOWED = 0x30"
definition CTAP2_ERR_PIN_INVALID :: int where "CTAP2_ERR_PIN_INVALID = 0x31"
definition CTAP2_ERR_PIN_BLOCKED :: int where "CTAP2_ERR_PIN_BLOCKED = 0x32"
definition CTAP2_ERR_PIN_AUTH_INVALID :: int where "CTAP2_ERR_PIN_AUTH_INVALID = 0x33"
definition CTAP2_ERR_PIN_AUTH_BLOCKED :: int where "CTAP2_ERR_PIN_AUTH_BLOCKED = 0x34"
definition CTAP2_ERR_PIN_NOT_SET :: int where "CTAP2_ERR_PIN_NOT_SET = 0x35"
definition CTAP2_ERR_PUAT_REQUIRED :: int where "CTAP2_ERR_PUAT_REQUIRED = 0x36"
definition CTAP2_ERR_PIN_POLICY_VIOLATION :: int where "CTAP2_ERR_PIN_POLICY_VIOLATION = 0x37"
definition CTAP2_ERR_INTEGRITY_FAILURE :: int where "CTAP2_ERR_INTEGRITY_FAILURE = 0x3D"
definition CTAP2_ERR_INVALID_SUBCOMMAND :: int where "CTAP2_ERR_INVALID_SUBCOMMAND = 0x3E"
definition CTAP2_ERR_UNAUTHORIZED_PERMISSION :: int where "CTAP2_ERR_UNAUTHORIZED_PERMISSION = 0x40"

lemmas ctap_codes = CTAP1_ERR_INVALID_PARAMETER_def CTAP1_ERR_INVALID_LEN_def CTAP1_ERR_INVALID_SEQ_def CTAP1_ERR_OTHER_def
  CTAP2_ERR_CBOR_UNEXPECTED_TYPE_def CTAP2_ERR_INVALID_CBOR_def CTAP2_ERR_MISSING_PARAMETER_def CTAP2_ERR_LARGE_BLOB_STORAGE_FULL_def
  CTAP2_ERR_INVALID_CREDENTIAL_def CTAP2_ERR_KEY_STORE_FULL_def
  CTAP2_ERR_UNSUPPORTED_OPTION_def CTAP2_ERR_NO_CREDENTIALS_def CTAP2_ERR_NOT_ALLOWED_def CTAP2_ERR_PIN_INVALID_def
  CTAP2_ERR_PIN_BLOCKED_def CTAP2_ERR_PIN_AUTH_INVALID_def CTAP2_ERR_PIN_AUTH_BLOCKED_def CTAP2_ERR_PIN_NOT_SET_def
  CTAP2_ERR_PUAT_REQUIRED_def CTAP2_ERR_PIN_POLICY_VIOLATION_def CTAP2_ERR_INTEGRITY_FAILURE_def CTAP2_ERR_INVALID_SUBCOMMAND_def
  CTAP2_ERR_UNAUTHORIZED_PERMISSION_def

definition CTAP_PERMISSION_MC :: u8 where "CTAP_PERMISSION_MC = 0x01"
definition CTAP_PERMISSION_GA :: u8 where "CTAP_PERMISSION_GA = 0x02"
definition CTAP_PERMISSION_CM :: u8 where "CTAP_PERMISSION_CM = 0x04"
definition CTAP_PERMISSION_BE :: u64 where "CTAP_PERMISSION_BE = 0x08"
definition CTAP_PERMISSION_LBW :: u8 where "CTAP_PERMISSION_LBW = 0x10"
definition CTAP_PERMISSION_ACFG :: u8 where "CTAP_PERMISSION_ACFG = 0x20"
definition MAX_PIN_RETRIES :: u8 where "MAX_PIN_RETRIES = 8"
definition TRANSPORT_TIME_LIMIT :: u32 where "TRANSPORT_TIME_LIMIT = 30 * 1000"
definition max_usage_time_period :: u32 where "max_usage_time_period = 600 * 1000"

section \<open>State\<close>

text \<open>\<^verbatim>\<open>pinUvAuthToken_t\<close>; \<open>token\<close> are the bytes behind \<^verbatim>\<open>data\<close>.\<close>

record paut =
  token :: bytes
  in_use :: bool
  permissions :: u8
  rp_id_hash :: bytes
  has_rp_id :: bool
  user_present :: bool
  user_verified :: bool

text \<open>The curves of mbedtls that the code names, in the order of the library, and a key with its curve and secret.\<close>

datatype ecp_group = ECP_NONE | SECP256R1 | SECP384R1 | SECP521R1 | CURVE25519 | SECP256K1 | CURVE448

type_synonym ec_key = "ecp_group \<times> nat"

text \<open>
  The libraries.  \<open>compute_shared d x y\<close> is the shared point of the private key \<open>d\<close> with the point of the
  coordinates \<open>x\<close>, \<open>y\<close>, \<open>None\<close> for a point that it rejects; \<open>public_point d\<close> are the coordinates of its public key; \<open>rand i n\<close> are the \<open>n\<close> bytes of the \<open>i\<close>-th call of
  the random generator; AES in CBC mode takes key, initial vector and a multiple of 16 bytes; ChaCha20-Poly1305
  takes key, nonce, additional data and the text, with the tag of 16 bytes behind the text of the encryption and as an
  argument of its own of the decryption.  \<open>path_step s b\<close> is the buffer \<open>b\<close> after the key derivation with the salt \<open>s\<close>
  has overwritten it, its input and its context being parts of it.  \<open>read_key\<close> and \<open>write_key\<close> convert a secret, \<open>None\<close>
  for one that the curve or the size does not admit; \<open>key_point\<close> are the coordinates of its public key, each as long as the
  prime of the curve, or the one point of a Montgomery curve; \<open>ecdsa_sign k h i\<close> is the encoded signature of the hash \<open>h\<close> with the
  \<open>i\<close>-th random number, \<open>None\<close> when the library fails.  \<open>encode\<close> and \<open>decode\<close> are the CBOR library on stored items.
\<close>

record ctap_env =
  lib :: crypto
  compute_shared :: "bytes \<Rightarrow> bytes \<Rightarrow> bytes \<Rightarrow> bytes option"
  public_point :: "bytes \<Rightarrow> bytes \<times> bytes"
  hkdf :: "bytes \<Rightarrow> bytes \<Rightarrow> nat \<Rightarrow> bytes"
  aes_enc :: "bytes \<Rightarrow> bytes \<Rightarrow> bytes \<Rightarrow> bytes"
  aes_dec :: "bytes \<Rightarrow> bytes \<Rightarrow> bytes \<Rightarrow> bytes"
  chacha_enc :: "bytes \<Rightarrow> bytes \<Rightarrow> bytes \<Rightarrow> bytes \<Rightarrow> bytes"
  chacha_dec :: "bytes \<Rightarrow> bytes \<Rightarrow> bytes \<Rightarrow> bytes \<Rightarrow> bytes \<Rightarrow> bytes option"
  rand :: "nat \<Rightarrow> nat \<Rightarrow> bytes"
  path_step :: "bytes \<Rightarrow> bytes \<Rightarrow> bytes"
  read_key :: "ecp_group \<Rightarrow> bytes \<Rightarrow> nat option"
  write_key :: "ec_key \<Rightarrow> nat \<Rightarrow> bytes option"
  key_point :: "ec_key \<Rightarrow> bytes \<times> bytes"
  ecdsa_sign :: "ec_key \<Rightarrow> bytes \<Rightarrow> nat \<Rightarrow> bytes option"
  sha384 :: "bytes \<Rightarrow> bytes"
  sha512 :: "bytes \<Rightarrow> bytes"
  encode :: "cbor \<Rightarrow> bytes"
  decode :: "bytes \<Rightarrow> cbor"

text \<open>The hash that a listing of credentials goes on with: a pointer to the heap, which may have been given back.\<close>

datatype held_hash = NoHash | Freed | Hash bytes

text \<open>
  \<open>keydev_dec\<close> is the unlocked device key, \<open>None\<close> while \<^verbatim>\<open>has_keydev_dec\<close> is false; \<open>mse\<close> are the point \<^verbatim>\<open>Qpt\<close> and the
  44 bytes of \<^verbatim>\<open>key_enc\<close>, \<open>None\<close> before \<^verbatim>\<open>init\<close>; the counters and \<open>rpIdHashx\<close> belong to the listings of credentials.
\<close>

record ctap =
  cfs :: fs
  draws :: nat
  hkey :: "bytes option"
  paut :: paut
  usage_timer :: u32
  initial_usage_time_limit :: u32
  user_present_time_limit :: u32
  needs_power_cycle :: bool
  new_pin_mismatches :: u8
  expectedLength :: u64
  expectedNextOffset :: u64
  temp_lba :: bytes
  keydev_dec :: "bytes option"
  mse :: "(bytes \<times> bytes) option"
  rp_counter :: u8
  rp_total :: u8
  cred_counter :: u8
  cred_total :: u8
  rpIdHashx :: held_hash
  overran :: nat

type_synonym ctap_reply = "(int \<times> cbor option \<times> ctap) option"

definition fail :: "int \<Rightarrow> ctap \<Rightarrow> ctap_reply" where "fail e st = Some (e, None, st)"
definition fine :: "ctap \<Rightarrow> ctap_reply" where "fine st = Some (0, None, st)"
definition answer :: "cbor \<Rightarrow> ctap \<Rightarrow> ctap_reply" where "answer v st = Some (0, Some v, st)"

lemmas reply_defs = fail_def fine_def answer_def

text \<open>
  The documented sizes, and that decryption inverts encryption, the reading of a key its writing, and the decoder the
  encoder, for an item of the kinds that the code writes, whatever follows it.
\<close>

fun plain_cbor :: "cbor \<Rightarrow> bool" where
  "plain_cbor (CArray xs) = list_all plain_cbor xs"
| "plain_cbor (CMap xs) = (even (length xs) \<and> list_all plain_cbor xs)"
| "plain_cbor COther = False"
| "plain_cbor (CBad e) = False"
| "plain_cbor _ = True"

definition ctap_law :: "ctap_env \<Rightarrow> bool" where
  "ctap_law env \<longleftrightarrow> crypto_law (lib env) \<and> (\<forall>d x y z. compute_shared env d x y = Some z \<longrightarrow> length z = 32) \<and>
     (\<forall>z i n. length (hkdf env z i n) = n) \<and> (\<forall>i n. length (rand env i n) = n) \<and>
     (\<forall>k v x. length x mod 16 = 0 \<longrightarrow> length (aes_enc env k v x) = length x \<and> length (aes_dec env k v x) = length x \<and>
        aes_dec env k v (aes_enc env k v x) = x) \<and>
     (\<forall>k v a x. length (chacha_enc env k v a x) = length x + 16 \<and>
        chacha_dec env k v a (take (length x) (chacha_enc env k v a x)) (drop (length x) (chacha_enc env k v a x)) = Some x) \<and>
     (\<forall>k v a c t x. chacha_dec env k v a c t = Some x \<longrightarrow> length x = length c) \<and>
     (\<forall>s b. length (path_step env s b) = length b) \<and>
     (\<forall>b d. length b = 32 \<longrightarrow> read_key env SECP256R1 b = Some d \<longrightarrow> write_key env (SECP256R1, d) 32 = Some b) \<and>
     (\<forall>v r. plain_cbor v \<longrightarrow> decode env (encode env v @ r) = v)"

lemma ctap_lawD:
  assumes "ctap_law env"
  shows "crypto_law (lib env)" "length (sha256 (lib env) x) = 32" "md_hmac (lib env) m k x = Some h \<Longrightarrow> length h = md_get_size m"
    "compute_shared env d x y = Some z \<Longrightarrow> length z = 32" "length (hkdf env z i n) = n" "length (rand env j n) = n"
    "length b mod 16 = 0 \<Longrightarrow> length (aes_enc env k v b) = length b" "length b mod 16 = 0 \<Longrightarrow> length (aes_dec env k v b) = length b"
    "length b mod 16 = 0 \<Longrightarrow> aes_dec env k v (aes_enc env k v b) = b"
    "length (chacha_enc env k v a b) = length b + 16"
    "chacha_dec env k v a (take (length b) (chacha_enc env k v a b)) (drop (length b) (chacha_enc env k v a b)) = Some b"
    "chacha_dec env k v a c t = Some b \<Longrightarrow> length b = length c"
    "length (path_step env s b) = length b"
    "length b = 32 \<Longrightarrow> read_key env SECP256R1 b = Some e \<Longrightarrow> write_key env (SECP256R1, e) 32 = Some b"
    "plain_cbor q \<Longrightarrow> decode env (encode env q @ u) = q"
  using assms unfolding ctap_law_def crypto_law_def by (simp_all, blast?)

section \<open>The token\<close>

text \<open>\<open>now\<close> is \<^verbatim>\<open>board_millis()\<close>.\<close>

definition beginUsingPinUvAuthToken :: "u32 \<Rightarrow> bool \<Rightarrow> ctap \<Rightarrow> ctap" where
  "beginUsingPinUvAuthToken now userIsPresent st =
     st\<lparr>paut := (paut st)\<lparr>user_present := userIsPresent, user_verified := True, in_use := True\<rparr>,
        initial_usage_time_limit := now, usage_timer := now\<rparr>"

definition clearUserPresentFlag :: "paut \<Rightarrow> paut" where
  "clearUserPresentFlag p = (if in_use p then p\<lparr>user_present := False\<rparr> else p)"

definition clearUserVerifiedFlag :: "paut \<Rightarrow> paut" where
  "clearUserVerifiedFlag p = (if in_use p then p\<lparr>user_verified := False\<rparr> else p)"

definition clearPinUvAuthTokenPermissionsExceptLbw :: "paut \<Rightarrow> paut" where
  "clearPinUvAuthTokenPermissionsExceptLbw p = (if in_use p then p\<lparr>permissions := CTAP_PERMISSION_LBW\<rparr> else p)"

definition stopUsingPinUvAuthToken :: "ctap \<Rightarrow> ctap" where
  "stopUsingPinUvAuthToken st =
     st\<lparr>paut := (paut st)\<lparr>permissions := 0, in_use := False, rp_id_hash := replicate 32 0, has_rp_id := False,
          user_present := False, user_verified := False\<rparr>,
        usage_timer := 0, initial_usage_time_limit := 0, user_present_time_limit := 0\<rparr>"

definition getUserPresentFlagValue :: "paut \<Rightarrow> bool \<times> paut" where
  "getUserPresentFlagValue p = (let p = (if in_use p then p else p\<lparr>user_present := False\<rparr>) in (user_present p, p))"

definition getUserVerifiedFlagValue :: "paut \<Rightarrow> bool \<times> paut" where
  "getUserVerifiedFlagValue p = (let p = (if in_use p then p else p\<lparr>user_verified := False\<rparr>) in (user_verified p, p))"

definition pinUvAuthTokenUsageTimerObserver :: "u32 \<Rightarrow> ctap \<Rightarrow> int \<times> ctap" where
  "pinUvAuthTokenUsageTimerObserver now st =
     (if usage_timer st = 0 then (- 1, st)
      else if usage_timer st + max_usage_time_period > now then
        let st = (if user_present_time_limit st = 0 \<or> user_present_time_limit st + TRANSPORT_TIME_LIMIT < now
                  then st\<lparr>paut := clearUserPresentFlag (paut st)\<rparr> else st)
        in if in_use (paut st) \<and>
              (initial_usage_time_limit st = 0 \<or> initial_usage_time_limit st + TRANSPORT_TIME_LIMIT < now)
           then (1, stopUsingPinUvAuthToken st) else (0, st)
      else (0, st))"

section \<open>The protocols\<close>

definition draw :: "ctap_env \<Rightarrow> nat \<Rightarrow> ctap \<Rightarrow> bytes \<times> ctap" where
  "draw env n st = (rand env (draws st) n, st\<lparr>draws := draws st + 1\<rparr>)"

definition regenerate :: "ctap_env \<Rightarrow> ctap \<Rightarrow> ctap" where
  "regenerate env st = (let (d, st) = draw env 32 st in st\<lparr>hkey := Some d\<rparr>)"

text \<open>\<^verbatim>\<open>"CTAP2 HMAC key"\<close> and \<^verbatim>\<open>"CTAP2 AES key"\<close>.\<close>

definition info_hmac :: bytes where
  "info_hmac = [0x43, 0x54, 0x41, 0x50, 0x32, 0x20, 0x48, 0x4d, 0x41, 0x43, 0x20, 0x6b, 0x65, 0x79]"

definition info_aes :: bytes where
  "info_aes = [0x43, 0x54, 0x41, 0x50, 0x32, 0x20, 0x41, 0x45, 0x53, 0x20, 0x6b, 0x65, 0x79]"

text \<open>\<open>None\<close> is the code \<open>-1\<close>, for another protocol.\<close>

definition kdf :: "ctap_env \<Rightarrow> u8 \<Rightarrow> bytes \<Rightarrow> bytes option" where
  "kdf env protocol z =
     (if protocol = 1 then Some (sha256 (lib env) z)
      else if protocol = 2 then Some (hkdf env z info_hmac 32 @ hkdf env z info_aes 32)
      else None)"

text \<open>
  The code of \<^verbatim>\<open>mbedtls_ecdh_compute_shared\<close> is overwritten by the one of \<^verbatim>\<open>kdf\<close>: for a rejected point \<open>z\<close> is
  still the 0 of its initialisation.
\<close>

definition ecdh :: "ctap_env \<Rightarrow> u8 \<Rightarrow> bytes \<Rightarrow> bytes \<Rightarrow> bytes \<Rightarrow> bytes option" where
  "ecdh env protocol d x y =
     kdf env protocol (case compute_shared env d x y of Some z \<Rightarrow> z | None \<Rightarrow> replicate 32 0)"

text \<open>The bytes behind a pointer that is only stored; none behind NULL.\<close>

definition pointed :: "fs \<Rightarrow> file_ref option \<Rightarrow> bytes option" where
  "pointed fs ef = map_option (case_option [] id) (file_get_data fs ef)"

definition resetPinUvAuthToken :: "ctap_env \<Rightarrow> ctap \<Rightarrow> ctap option" where
  "resetPinUvAuthToken env st = do {
     let (t, st) = draw env 32 st;
     let ef = search_ef (cfs st) EF_AUTHTOKEN;
     (_, fs) \<leftarrow> write_file (cfs st) ef t;
     d \<leftarrow> pointed fs ef;
     Some (st\<lparr>cfs := fs, paut := (paut st)\<lparr>permissions := 0, token := d\<rparr>\<rparr>)
   }"

definition initialize :: "ctap_env \<Rightarrow> ctap \<Rightarrow> ctap option" where
  "initialize env st = resetPinUvAuthToken env (regenerate env st)"

definition encrypt :: "ctap_env \<Rightarrow> u8 \<Rightarrow> bytes \<Rightarrow> bytes \<Rightarrow> ctap \<Rightarrow> bytes option \<times> ctap" where
  "encrypt env protocol key inp st =
     (if protocol = 1 then (if length inp mod 16 = 0 then Some (aes_enc env key (replicate 16 0) inp) else None, st)
      else if protocol = 2 then
        let (iv, st) = draw env 16 st
        in (if length inp mod 16 = 0 then Some (iv @ aes_enc env (drop 32 key) iv inp) else None, st)
      else (None, st))"

text \<open>
  The buffer \<open>out\<close> after the call and whether it succeeded.  For protocol 2 the code copies as many bytes as the
  input has, from behind its initial vector: the last 16 come from behind the input (\<open>past\<close>).  An input that
  does not fit \<open>out\<close> runs over it by \<open>excess\<close> bytes.
\<close>

definition excess :: "bytes \<Rightarrow> bytes \<Rightarrow> nat" where
  "excess out inp = length inp - length out"

definition overwrite :: "bytes \<Rightarrow> bytes \<Rightarrow> bytes" where
  "overwrite out x = take (length out) x @ drop (length x) out"

definition decrypt :: "ctap_env \<Rightarrow> u8 \<Rightarrow> bytes \<Rightarrow> bytes \<Rightarrow> bytes \<Rightarrow> bytes \<Rightarrow> (bool \<times> bytes) option" where
  "decrypt env protocol key inp past out =
     (if protocol = 1 then
        Some (if length inp mod 16 = 0 then (True, overwrite out (aes_dec env key (replicate 16 0) inp)) else (False, overwrite out inp))
      else if protocol = 2 then
        let copied = take (length inp) (drop 16 (inp @ past))
        in if length inp mod 16 \<noteq> 0 then Some (False, overwrite out copied)
           else if length inp < 16 then None
           else Some (True, overwrite (overwrite out copied) (aes_dec env (drop 32 key) (take 16 inp) (drop 16 inp)))
      else Some (False, out))"

definition mac :: "ctap_env \<Rightarrow> bytes \<Rightarrow> bytes \<Rightarrow> bytes option" where
  "mac env key d = md_hmac (lib env) MD_SHA256 (take 32 key) d"

definition authenticate :: "ctap_env \<Rightarrow> u8 \<Rightarrow> bytes \<Rightarrow> bytes \<Rightarrow> bytes option" where
  "authenticate env protocol key d = do {
     h \<leftarrow> mac env key d;
     if protocol = 1 then Some (take 16 h) else if protocol = 2 then Some (take 32 h) else None
   }"

text \<open>
  Whether \<^verbatim>\<open>verify\<close> returns 0.  The key is read for 32 bytes; the signature for 16 or 32, whatever its length.
  It does not look at \<^verbatim>\<open>paut.in_use\<close>.
\<close>

definition verify :: "ctap_env \<Rightarrow> u8 \<Rightarrow> bytes \<Rightarrow> bytes \<Rightarrow> bytes \<Rightarrow> bool option" where
  "verify env protocol key d sign = do {
     k \<leftarrow> rd_slice key 0 32;
     (case mac env k d of
        None \<Rightarrow> Some False
      | Some hmac \<Rightarrow>
          if protocol = 1 then do { s \<leftarrow> rd_slice sign 0 16; Some (s = take 16 hmac) }
          else if protocol = 2 then do { s \<leftarrow> rd_slice sign 0 32; Some (s = take 32 hmac) }
          else Some False)
   }"

section \<open>Options and counters\<close>

definition FIDO2_OPT_EA :: u8 where "FIDO2_OPT_EA = 0x01"

definition get_opts :: "fs \<Rightarrow> u8 option" where
  "get_opts fs = do {
     let ef = search_ef fs EF_OPTS;
     h \<leftarrow> file_has_data fs ef;
     if h then do { d \<leftarrow> file_bytes fs ef; rd d 0 } else Some 0
   }"

definition set_opts :: "fs \<Rightarrow> u8 \<Rightarrow> fs option" where
  "set_opts fs opts = map_option snd (write_file fs (search_ef fs EF_OPTS) [opts])"

definition get_sign_counter :: "fs \<Rightarrow> u32 option" where
  "get_sign_counter fs = do {
     d \<leftarrow> file_bytes fs (search_ef fs EF_COUNTER);
     c \<leftarrow> rd_slice d 0 4;
     Some (of_nat (le_val c))
   }"

end
