(* ===== verification/ClientPin.thy ===== *)
theory ClientPin
  imports Ctap
begin

text \<open>
  \<^verbatim>\<open>authenticatorClientPIN\<close>, \<^verbatim>\<open>src/fido/cbor_client_pin.c\<close>: the parameters, and one definition per subcommand.
  The file \<^verbatim>\<open>ef_pin\<close> holds the number of tries left, the length of the PIN and 16 bytes of its hash;
  \<^verbatim>\<open>ef_minpin\<close> the least length, the order to change the PIN, and the hashes of relying parties.
  \<open>junk\<close> is what the stack and the heap hold before they are written: the 64 bytes of \<^verbatim>\<open>paddedNewPin\<close>, and from
  64 and from 80 on the bytes behind the two encrypted parameters.
\<close>

section \<open>Parameters\<close>

record pin_req =
  pinUvAuthProtocol :: u64
  subcommand :: u64
  req_permissions :: u64
  key_agreement :: cose
  pinUvAuthParam :: "bytes option"
  newPinEnc :: "bytes option"
  pinHashEnc :: "bytes option"
  rpId :: "bytes option"

definition no_pin_req :: pin_req where
  "no_pin_req = \<lparr>pinUvAuthProtocol = 0, subcommand = 0, req_permissions = 0, key_agreement = no_cose, pinUvAuthParam = None,
     newPinEnc = None, pinHashEnc = None, rpId = None\<rparr>"

text \<open>A key that is not known is skipped without its value, which is read as the next key.\<close>

fun pin_loop :: "u64 \<Rightarrow> pin_req \<Rightarrow> cbor list \<Rightarrow> cerr + pin_req" where
  "pin_loop val_c q [] = Inr q"
| "pin_loop val_c q xs =
     field_uint xs (\<lambda>val_u r.
       case key_error 2 val_c val_u of
         Some e \<Rightarrow> Inl e
       | None \<Rightarrow>
           (if val_u = 0x01 then field_uint r (\<lambda>n r. pin_loop (val_u + 1) (q\<lparr>pinUvAuthProtocol := n\<rparr>) r)
            else if val_u = 0x02 then field_uint r (\<lambda>n r. pin_loop (val_u + 1) (q\<lparr>subcommand := n\<rparr>) r)
            else if val_u = 0x03 then COSE_read_key (key_agreement q) r (\<lambda>k r. pin_loop (val_u + 1) (q\<lparr>key_agreement := k\<rparr>) r)
            else if val_u = 0x04 then field_bytes r (\<lambda>b r. pin_loop (val_u + 1) (q\<lparr>pinUvAuthParam := Some b\<rparr>) r)
            else if val_u = 0x05 then field_bytes r (\<lambda>b r. pin_loop (val_u + 1) (q\<lparr>newPinEnc := Some b\<rparr>) r)
            else if val_u = 0x06 then field_bytes r (\<lambda>b r. pin_loop (val_u + 1) (q\<lparr>pinHashEnc := Some b\<rparr>) r)
            else if val_u = 0x09 then field_uint r (\<lambda>n r. pin_loop (val_u + 1) (q\<lparr>req_permissions := n\<rparr>) r)
            else if val_u = 0x0A then field_text r (\<lambda>b r. pin_loop (val_u + 1) (q\<lparr>rpId := Some b\<rparr>) r)
            else pin_loop (val_u + 1) q r))"

section \<open>The PIN file\<close>

definition ef_pin :: "fs \<Rightarrow> file_ref option" where "ef_pin fs = search_ef fs EF_PIN"
definition ef_minpin :: "fs \<Rightarrow> file_ref option" where "ef_minpin fs = search_ef fs EF_MINPINLEN"

definition pin_stack :: "(nat \<Rightarrow> u8) \<Rightarrow> bytes" where "pin_stack junk = map junk [0 ..< 64]"
definition heap_past :: "(nat \<Rightarrow> u8) \<Rightarrow> bytes" where "heap_past junk = map junk [64 ..< 80]"
definition heap_past_new :: "(nat \<Rightarrow> u8) \<Rightarrow> bytes" where "heap_past_new junk = map junk [80 ..< 96]"

text \<open>One try is taken off before the PIN is compared.\<close>

definition spend_try :: "ctap \<Rightarrow> (bytes \<times> ctap) option" where
  "spend_try st = do {
     d \<leftarrow> file_bytes (cfs st) (ef_pin (cfs st));
     pin_data \<leftarrow> rd_slice d 0 18;
     let pin_data = pin_data[0 := pin_data ! 0 - 1];
     (_, fs) \<leftarrow> write_file (cfs st) (ef_pin (cfs st)) pin_data;
     Some (pin_data, st\<lparr>cfs := fs\<rparr>)
   }"

definition restore_tries :: "bytes \<Rightarrow> ctap \<Rightarrow> ctap option" where
  "restore_tries pin_data st = do {
     (_, fs) \<leftarrow> write_file (cfs st) (ef_pin (cfs st)) (pin_data[0 := MAX_PIN_RETRIES]);
     Some (st\<lparr>cfs := fs, new_pin_mismatches := 0\<rparr>)
   }"

definition wrong_pin :: "ctap_env \<Rightarrow> u8 \<Rightarrow> ctap \<Rightarrow> ctap_reply" where
  "wrong_pin env retries st =
     (let st = regenerate env st in
      if retries = 0 then fail CTAP2_ERR_PIN_BLOCKED st
      else let st = st\<lparr>new_pin_mismatches := new_pin_mismatches st + 1\<rparr> in
        if new_pin_mismatches st \<ge> 3 then fail CTAP2_ERR_PIN_AUTH_BLOCKED (st\<lparr>needs_power_cycle := True\<rparr>)
        else fail CTAP2_ERR_PIN_INVALID st)"

text \<open>\<^verbatim>\<open>memcmp(paddedNewPin, file_get_data(ef_pin) + 2, 16)\<close>.\<close>

definition pin_matches :: "bytes \<Rightarrow> ctap \<Rightarrow> bool option" where
  "pin_matches padded st = do {
     d \<leftarrow> file_bytes (cfs st) (ef_pin (cfs st));
     h \<leftarrow> rd_slice d 2 16;
     Some (take 16 padded = h)
   }"

definition padded_pin :: "bytes \<Rightarrow> bytes" where
  "padded_pin padded = takeWhile (\<lambda>b. b \<noteq> 0) padded"

definition min_pin :: "fs \<Rightarrow> u8 option" where
  "min_pin fs = do {
     h \<leftarrow> file_has_data fs (ef_minpin fs);
     if h then do { d \<leftarrow> file_bytes fs (ef_minpin fs); rd d 0 } else Some 4
   }"

definition must_change :: "fs \<Rightarrow> bool option" where
  "must_change fs = do {
     h \<leftarrow> file_has_data fs (ef_minpin fs);
     if h then do { d \<leftarrow> file_bytes fs (ef_minpin fs); f \<leftarrow> rd d 1; Some (f = 1) } else Some False
   }"

definition pin_record :: "ctap_env \<Rightarrow> bytes \<Rightarrow> bytes" where
  "pin_record env pin = [MAX_PIN_RETRIES, of_nat (length pin)] @ take 16 (sha256 (lib env) pin)"

section \<open>Subcommands\<close>

definition get_pin_retries :: "ctap \<Rightarrow> ctap_reply" where
  "get_pin_retries st = do {
     d \<leftarrow> file_bytes (cfs st) (ef_pin (cfs st));
     n \<leftarrow> rd d 0;
     answer (CMap ([CUint 3, CUint (ucast n)] @ (if needs_power_cycle st then [CUint 4, CBool True] else []))) st
   }"

text \<open>\<^verbatim>\<open>COSE_key_shared\<close> for the curve P-256: type 2, algorithm -25, curve 1 and the coordinates.\<close>

definition cose_key_shared :: "bytes \<times> bytes \<Rightarrow> cbor" where
  "cose_key_shared Q = CMap [CUint 1, CUint 2, CUint 3, CNint 24, CNint 0, CUint 1, CNint 1, CBytes (fst Q), CNint 2, CBytes (snd Q)]"

definition get_key_agreement :: "ctap_env \<Rightarrow> pin_req \<Rightarrow> ctap \<Rightarrow> ctap_reply" where
  "get_key_agreement env q st =
     (if pinUvAuthProtocol q = 1 \<or> pinUvAuthProtocol q = 2 then do {
        d \<leftarrow> hkey st;
        answer (CMap [CUint 1, cose_key_shared (public_point env d)]) st
      }
      else if pinUvAuthProtocol q = 0 then fail CTAP2_ERR_MISSING_PARAMETER st
      else fail CTAP1_ERR_INVALID_PARAMETER st)"

text \<open>The shared secret of a request, or its error.\<close>

definition with_secret :: "ctap_env \<Rightarrow> u8 \<Rightarrow> bytes \<Rightarrow> bytes \<Rightarrow> ctap \<Rightarrow> (bytes \<Rightarrow> ctap_reply) \<Rightarrow> ctap_reply" where
  "with_secret env protocol x y st k = do {
     d \<leftarrow> hkey st;
     (case ecdh env protocol d x y of None \<Rightarrow> fail CTAP1_ERR_INVALID_PARAMETER st | Some secret \<Rightarrow> k secret)
   }"

definition new_pin_len :: "u64 \<Rightarrow> nat" where
  "new_pin_len protocol = (if protocol = 1 then 64 else 64 + 16)"

definition set_new_pin :: "ctap_env \<Rightarrow> bytes \<Rightarrow> ctap \<Rightarrow> ctap_reply" where
  "set_new_pin env padded st =
     (if padded ! 63 \<noteq> 0 then fail CTAP2_ERR_PIN_POLICY_VIOLATION st
      else do {
        m \<leftarrow> min_pin (cfs st);
        if (of_nat (length (padded_pin padded)) :: u8) < m then fail CTAP2_ERR_PIN_POLICY_VIOLATION st
        else do {
          (_, fs) \<leftarrow> write_file (cfs st) (ef_pin (cfs st)) (pin_record env (padded_pin padded));
          fine (st\<lparr>cfs := fs\<rparr>)
        }
      })"

definition set_pin :: "ctap_env \<Rightarrow> (nat \<Rightarrow> u8) \<Rightarrow> pin_req \<Rightarrow> ctap \<Rightarrow> ctap_reply" where
  "set_pin env junk q st =
     (case (kax (key_agreement q), kay (key_agreement q), newPinEnc q, pinUvAuthParam q) of
        (Some x, Some y, Some new, Some param) \<Rightarrow>
          if pinUvAuthProtocol q = 0 \<or> alg (key_agreement q) = 0 then fail CTAP2_ERR_MISSING_PARAMETER st
          else if pinUvAuthProtocol q \<noteq> 1 \<and> pinUvAuthProtocol q \<noteq> 2 then fail CTAP1_ERR_INVALID_PARAMETER st
          else do {
            h \<leftarrow> file_has_data (cfs st) (ef_pin (cfs st));
            if h then fail CTAP2_ERR_NOT_ALLOWED st
            else if length new \<noteq> new_pin_len (pinUvAuthProtocol q) then fail CTAP1_ERR_INVALID_PARAMETER st
            else with_secret env (ucast (pinUvAuthProtocol q)) x y st (\<lambda>secret. do {
              let protocol = ucast (pinUvAuthProtocol q);
              v \<leftarrow> verify env protocol secret new param;
              if \<not> v then fail CTAP2_ERR_PIN_AUTH_INVALID st
              else do {
                (good, padded) \<leftarrow> decrypt env protocol secret new (heap_past_new junk) (pin_stack junk);
                let st = st\<lparr>overran := overran st + excess (pin_stack junk) new\<rparr>;
                if \<not> good then fail CTAP2_ERR_PIN_AUTH_INVALID st else set_new_pin env padded st
              }
            })
          }
      | _ \<Rightarrow> fail CTAP2_ERR_MISSING_PARAMETER st)"

text \<open>
  The second half of a change of the PIN, behind the test of the old one.  \<^verbatim>\<open>hsh\<close> has 33 bytes and gets 34.
\<close>

definition change_to :: "ctap_env \<Rightarrow> bytes \<Rightarrow> ctap \<Rightarrow> ctap_reply" where
  "change_to env padded st =
     (if padded ! 63 \<noteq> 0 then fail CTAP1_ERR_INVALID_PARAMETER st
      else do {
        m \<leftarrow> min_pin (cfs st);
        if (of_nat (length (padded_pin padded)) :: u8) < m then fail CTAP2_ERR_PIN_POLICY_VIOLATION st
        else do {
          let hsh = pin_record env (padded_pin padded);
          let st = st\<lparr>overran := overran st + 1\<rparr>;
          forced \<leftarrow> must_change (cfs st);
          same \<leftarrow> (if forced then pin_matches (drop 2 hsh) st else Some False);
          if same then fail CTAP2_ERR_PIN_POLICY_VIOLATION st
          else do {
            (_, fs) \<leftarrow> write_file (cfs st) (ef_pin (cfs st)) hsh;
            fs \<leftarrow> (if forced then do {
                d \<leftarrow> file_bytes fs (ef_minpin fs);
                map_option snd (write_file fs (ef_minpin fs) (d[1 := 0]))
              } else Some fs);
            st \<leftarrow> resetPinUvAuthToken env (st\<lparr>cfs := fs\<rparr>);
            fine st
          }
        }
      })"

definition change_lengths :: "u64 \<Rightarrow> bytes \<Rightarrow> bytes \<Rightarrow> bool" where
  "change_lengths protocol new old \<longleftrightarrow>
     length new = new_pin_len protocol \<and> length old = (if protocol = 1 then 16 else 16 + 16)"

definition change_pin :: "ctap_env \<Rightarrow> (nat \<Rightarrow> u8) \<Rightarrow> pin_req \<Rightarrow> ctap \<Rightarrow> ctap_reply" where
  "change_pin env junk q st =
     (case (kax (key_agreement q), kay (key_agreement q), newPinEnc q, pinUvAuthParam q, pinHashEnc q) of
        (Some x, Some y, Some new, Some param, Some old) \<Rightarrow>
          if pinUvAuthProtocol q = 0 \<or> alg (key_agreement q) = 0 then fail CTAP2_ERR_MISSING_PARAMETER st
          else if pinUvAuthProtocol q \<noteq> 1 \<and> pinUvAuthProtocol q \<noteq> 2 then fail CTAP1_ERR_INVALID_PARAMETER st
          else do {
            h \<leftarrow> file_has_data (cfs st) (ef_pin (cfs st));
            if \<not> h then fail CTAP2_ERR_PIN_NOT_SET st
            else do {
              pd \<leftarrow> file_bytes (cfs st) (ef_pin (cfs st));
              tries \<leftarrow> rd pd 0;
              if tries = 0 then fail CTAP2_ERR_PIN_BLOCKED st
              else if \<not> change_lengths (pinUvAuthProtocol q) new old then fail CTAP1_ERR_INVALID_PARAMETER st
              else with_secret env (ucast (pinUvAuthProtocol q)) x y st (\<lambda>secret. do {
                let protocol = ucast (pinUvAuthProtocol q);
                v \<leftarrow> verify env protocol secret (new @ old) param;
                if \<not> v then fail CTAP2_ERR_PIN_AUTH_INVALID st
                else do {
                  (pin_data, st) \<leftarrow> spend_try st;
                  (good, padded) \<leftarrow> decrypt env protocol secret old (heap_past junk) (pin_stack junk);
                  if \<not> good then fail CTAP2_ERR_PIN_AUTH_INVALID st
                  else do {
                    m \<leftarrow> pin_matches padded st;
                    if \<not> m then wrong_pin env (pin_data ! 0) st
                    else do {
                      st \<leftarrow> restore_tries pin_data st;
                      (good, padded) \<leftarrow> decrypt env protocol secret new (heap_past_new junk) padded;
                      let st = st\<lparr>overran := overran st + excess padded new\<rparr>;
                      if \<not> good then fail CTAP2_ERR_PIN_AUTH_INVALID st else change_to env padded st
                    }
                  }
                }
              })
            }
          }
      | _ \<Rightarrow> fail CTAP2_ERR_MISSING_PARAMETER st)"

text \<open>What follows the right PIN: a new token with the permissions asked for.\<close>

definition granted_permissions :: "pin_req \<Rightarrow> u8" where
  "granted_permissions q = (if subcommand q = 0x05 then CTAP_PERMISSION_MC OR CTAP_PERMISSION_GA else ucast (req_permissions q))"

definition bind_token :: "ctap_env \<Rightarrow> pin_req \<Rightarrow> paut \<Rightarrow> paut" where
  "bind_token env q p =
     (case rpId q of
        Some r \<Rightarrow> p\<lparr>permissions := granted_permissions q, rp_id_hash := sha256 (lib env) r, has_rp_id := True\<rparr>
      | None \<Rightarrow> p\<lparr>permissions := granted_permissions q, has_rp_id := False\<rparr>)"

definition grant :: "ctap_env \<Rightarrow> u32 \<Rightarrow> pin_req \<Rightarrow> bytes \<Rightarrow> ctap \<Rightarrow> ctap_reply" where
  "grant env now q secret st = do {
     forced \<leftarrow> must_change (cfs st);
     if forced then fail CTAP2_ERR_PIN_INVALID st
     else do {
       st \<leftarrow> resetPinUvAuthToken env st;
       let st = beginUsingPinUvAuthToken now False st;
       let st = st\<lparr>paut := bind_token env q (paut st)\<rparr>;
       t \<leftarrow> rd_slice (token (paut st)) 0 32;
       let (enc, st) = encrypt env (ucast (pinUvAuthProtocol q)) secret t st;
       e \<leftarrow> enc;
       answer (CMap [CUint 2, CBytes e]) st
     }
   }"

definition get_pin_token :: "ctap_env \<Rightarrow> (nat \<Rightarrow> u8) \<Rightarrow> u32 \<Rightarrow> pin_req \<Rightarrow> ctap \<Rightarrow> ctap_reply" where
  "get_pin_token env junk now q st =
     (case (kax (key_agreement q), kay (key_agreement q), pinHashEnc q) of
        (Some x, Some y, Some hash) \<Rightarrow>
          if pinUvAuthProtocol q = 0 \<or> alg (key_agreement q) = 0 then fail CTAP2_ERR_MISSING_PARAMETER st
          else if pinUvAuthProtocol q \<noteq> 1 \<and> pinUvAuthProtocol q \<noteq> 2 then fail CTAP1_ERR_INVALID_PARAMETER st
          else if subcommand q = 0x5 \<and> (req_permissions q \<noteq> 0 \<or> rpId q \<noteq> None) then fail CTAP1_ERR_INVALID_PARAMETER st
          else if subcommand q = 0x9 \<and> req_permissions q = 0 then fail CTAP1_ERR_INVALID_PARAMETER st
          else if subcommand q = 0x9 \<and> req_permissions q AND CTAP_PERMISSION_BE \<noteq> 0 then fail CTAP2_ERR_UNAUTHORIZED_PERMISSION st
          else do {
            h \<leftarrow> file_has_data (cfs st) (ef_pin (cfs st));
            if \<not> h then fail CTAP2_ERR_PIN_NOT_SET st
            else do {
              pd \<leftarrow> file_bytes (cfs st) (ef_pin (cfs st));
              tries \<leftarrow> rd pd 0;
              if tries = 0 then fail CTAP2_ERR_PIN_BLOCKED st
              else with_secret env (ucast (pinUvAuthProtocol q)) x y st (\<lambda>secret. do {
                let protocol = ucast (pinUvAuthProtocol q);
                (pin_data, st) \<leftarrow> spend_try st;
                (good, padded) \<leftarrow> decrypt env protocol secret hash (heap_past junk) (pin_stack junk);
                let st = st\<lparr>overran := overran st + excess (pin_stack junk) hash\<rparr>;
                if \<not> good then fail CTAP2_ERR_PIN_AUTH_INVALID st
                else do {
                  m \<leftarrow> pin_matches padded st;
                  if \<not> m then wrong_pin env (pin_data ! 0) st
                  else do {
                    st \<leftarrow> restore_tries pin_data st;
                    grant env now q secret st
                  }
                }
              })
            }
          }
      | _ \<Rightarrow> fail CTAP2_ERR_MISSING_PARAMETER st)"

definition client_pin :: "ctap_env \<Rightarrow> (nat \<Rightarrow> u8) \<Rightarrow> u32 \<Rightarrow> pin_req \<Rightarrow> ctap \<Rightarrow> ctap_reply" where
  "client_pin env junk now q st =
     (if subcommand q = 0x0 then fail CTAP2_ERR_MISSING_PARAMETER st
      else if subcommand q = 0x1 then get_pin_retries st
      else if subcommand q = 0x2 then get_key_agreement env q st
      else if subcommand q = 0x3 then set_pin env junk q st
      else if subcommand q = 0x4 then change_pin env junk q st
      else if subcommand q = 0x9 \<or> subcommand q = 0x5 then get_pin_token env junk now q st
      else fail CTAP2_ERR_UNSUPPORTED_OPTION st)"

definition cbor_client_pin :: "ctap_env \<Rightarrow> (nat \<Rightarrow> u8) \<Rightarrow> u32 \<Rightarrow> cbor \<Rightarrow> ctap \<Rightarrow> ctap_reply" where
  "cbor_client_pin env junk now request st =
     (case cbor_next [request] Inr of
        Inl e \<Rightarrow> fail (cerr_code e) st
      | Inr items \<Rightarrow> do {
          st \<leftarrow> (if hkey st = None then initialize env st else Some st);
          case parse_map items (pin_loop 1 no_pin_req) (\<lambda>q _. Inr q) of
            Inl e \<Rightarrow> fail (cerr_code e) st
          | Inr q \<Rightarrow> client_pin env junk now q st
        })"

end
