(* ===== verification/SampleLib.thy ===== *)
theory SampleLib
  imports Ctap
begin

text \<open>
  Libraries that can be computed with, for concrete runs: encryption adds one to each byte, keys are their bytes, and
  items are written with a tag and unary lengths.
\<close>

section \<open>A codec\<close>

fun toy_chars :: "bytes \<Rightarrow> bytes" where
  "toy_chars [] = [0]"
| "toy_chars (x # xs) = 1 # x # toy_chars xs"

fun toy_encode :: "cbor \<Rightarrow> bytes" where
  "toy_encode (CUint n) = 0 # le_bytes 8 (unat n)"
| "toy_encode (CNint n) = 1 # le_bytes 8 (unat n)"
| "toy_encode (CBytes b) = 2 # toy_chars b"
| "toy_encode (CText b) = 3 # toy_chars b"
| "toy_encode (CBool b) = [if b then 5 else 4]"
| "toy_encode (CArray xs) = 6 # concat (map (\<lambda>x. 1 # toy_encode x) xs) @ [0]"
| "toy_encode (CMap xs) = 7 # concat (map (\<lambda>x. 1 # toy_encode x) xs) @ [0]"
| "toy_encode _ = []"

fun read_chars :: "bytes \<Rightarrow> bytes \<times> bytes" where
  "read_chars (m # x # r) = (if m = 1 then let (c, r) = read_chars r in (x # c, r) else ([], x # r))"
| "read_chars _ = ([], [])"

fun toy_item :: "nat \<Rightarrow> bytes \<Rightarrow> cbor \<times> bytes" and toy_items :: "nat \<Rightarrow> bytes \<Rightarrow> cbor list \<times> bytes" where
  "toy_item (Suc n) (t # r) =
     (if t = 0 then (CUint (of_nat (le_val (take 8 r))), drop 8 r)
      else if t = 1 then (CNint (of_nat (le_val (take 8 r))), drop 8 r)
      else if t = 2 then apfst CBytes (read_chars r)
      else if t = 3 then apfst CText (read_chars r)
      else if t = 4 then (CBool False, r)
      else if t = 5 then (CBool True, r)
      else if t = 6 then apfst CArray (toy_items n r)
      else if t = 7 then apfst CMap (toy_items n r)
      else (CBad 1, r))"
| "toy_item _ r = (CBad 1, r)"
| "toy_items (Suc n) (m # r) =
     (if m = 1 then let (x, r) = toy_item n r; (xs, r) = toy_items n r in (x # xs, r) else ([], r))"
| "toy_items _ r = ([], r)"

definition toy_decode :: "bytes \<Rightarrow> cbor" where "toy_decode bs = fst (toy_item (length bs) bs)"

lemma read_chars [simp]: "read_chars (toy_chars b @ x # r) = (b, x # r)"
  by (induction b) auto

lemma read_chars_end [simp]: "read_chars (toy_chars b) = (b, [])"
  by (induction b) (simp, case_tac b, auto)

lemma chars_split: "read_chars (toy_chars b @ r) = (b, r)"
  by (cases r) simp_all

lemma word_le_val [simp]: "of_nat (le_val (le_bytes 8 (unat x))) = (x :: u64)"
proof -
  have "unat x < 256 ^ 8" using unsigned_less [of x] by simp
  then show ?thesis by (simp add: le_val_le_bytes_id)
qed

lemma toy_items_list:
  assumes "\<And>x n r. x \<in> set xs \<Longrightarrow> length (toy_encode x) \<le> n \<Longrightarrow> toy_item n (toy_encode x @ r) = (x, r)"
    and "length (concat (map (\<lambda>x. 1 # toy_encode x) xs)) < n"
  shows "toy_items n (concat (map (\<lambda>x. 1 # toy_encode x) xs) @ 0 # r) = (xs, r)"
  using assms
proof (induction xs arbitrary: n)
  case Nil
  then show ?case by (cases n) auto
next
  case (Cons x xs)
  then obtain m where m: "n = Suc m" by (cases n) auto
  have "toy_item m (toy_encode x @ s) = (x, s)" for s using Cons.prems m by auto
  moreover have "toy_items m (concat (map (\<lambda>x. 1 # toy_encode x) xs) @ 0 # r) = (xs, r)"
    using Cons m by auto
  ultimately show ?case by (simp add: m)
qed

lemma toy_item_encode: "plain_cbor v \<Longrightarrow> length (toy_encode v) \<le> n \<Longrightarrow> toy_item n (toy_encode v @ r) = (v, r)"
proof (induction v arbitrary: n r)
  case (CArray xs)
  then obtain m where m: "n = Suc m" by (cases n) auto
  have "length (concat (map (\<lambda>x. 1 # toy_encode x) xs)) < m" using CArray.prems m by simp
  from toy_items_list [OF _ this, of r] CArray m show ?case by (auto simp: list_all_iff)
next
  case (CMap xs)
  then obtain m where m: "n = Suc m" by (cases n) auto
  have "length (concat (map (\<lambda>x. 1 # toy_encode x) xs)) < m" using CMap.prems m by simp
  from toy_items_list [OF _ this, of r] CMap m show ?case by (auto simp: list_all_iff)
next
  case (CUint x)
  then show ?case by (cases n) (auto simp: word_le_val)
next
  case (CNint x)
  then show ?case by (cases n) (auto simp: word_le_val)
qed (case_tac n; auto simp: chars_split)+

lemma toy_decode_encode: "plain_cbor v \<Longrightarrow> toy_decode (toy_encode v @ r) = v"
  using toy_item_encode [of v "length (toy_encode v @ r)" r] by (simp add: toy_decode_def)

section \<open>The libraries\<close>

lemma le_bytes_le_val: "le_bytes (length b) (le_val b) = b"
proof (induction b)
  case (Cons x b)
  have "unat x < 256" using unsigned_less [of x] by simp
  then show ?case using Cons by simp
qed simp

definition sample_ctap_env :: ctap_env where
  "sample_ctap_env = \<lparr>lib = sample_crypto, compute_shared = (\<lambda>d x y. if x = [] then None else Some (replicate 32 (hd x))),
     public_point = (\<lambda>d. (d, d)), hkdf = (\<lambda>z i n. replicate n (of_nat (length i))), aes_enc = (\<lambda>k v. map (\<lambda>b. b + 1)),
     aes_dec = (\<lambda>k v. map (\<lambda>b. b - 1)),
     chacha_enc = (\<lambda>k v a x. map (\<lambda>b. b + 1) x @ replicate 16 1),
     chacha_dec = (\<lambda>k v a c t. if t = replicate 16 1 then Some (map (\<lambda>b. b - 1) c) else None), rand = (\<lambda>i n. replicate n (of_nat i)),
     path_step = (\<lambda>s. map (\<lambda>b. b + hd s)), read_key = (\<lambda>g b. Some (le_val b)), write_key = (\<lambda>k n. Some (le_bytes n (snd k))),
     key_point = (\<lambda>k. (le_bytes 32 (snd k), le_bytes 32 (snd k + 1))), ecdsa_sign = (\<lambda>k h i. Some (take 32 h @ le_bytes 8 (snd k))),
     sha384 = (\<lambda>x. take 48 (x @ replicate 48 0)), sha512 = (\<lambda>x. take 64 (x @ replicate 64 0)),
     encode = toy_encode, decode = toy_decode\<rparr>"

lemma sample_ctap_law: "ctap_law sample_ctap_env"
  using le_bytes_le_val by (auto simp: ctap_law_def sample_ctap_env_def sample_crypto_law comp_def toy_decode_encode) metis

definition sample_ctap :: "fs \<Rightarrow> ctap" where
  "sample_ctap fs = \<lparr>cfs = fs, draws = 0, hkey = Some (replicate 32 9),
     paut = \<lparr>token = replicate 32 0, in_use = False, permissions = 0, rp_id_hash = replicate 32 0, has_rp_id = False,
       user_present = False, user_verified = False\<rparr>,
     usage_timer = 0, initial_usage_time_limit = 0, user_present_time_limit = 0, needs_power_cycle = False, new_pin_mismatches = 0,
     expectedLength = 0, expectedNextOffset = 0, temp_lba = replicate 2048 0, keydev_dec = None, mse = None,
     rp_counter = 1, rp_total = 0, cred_counter = 1, cred_total = 0, rpIdHashx = NoHash, overran = 0\<rparr>"

lemma sample_ctap_sel [simp]: "cfs (sample_ctap fs) = fs" "hkey (sample_ctap fs) = Some (replicate 32 9)" "overran (sample_ctap fs) = 0"
    "new_pin_mismatches (sample_ctap fs) = 0" "keydev_dec (sample_ctap fs) = None" "draws (sample_ctap fs) = 0"
  by (simp_all add: sample_ctap_def)

end
