(* ===== verification/PinProps.thy ===== *)
theory PinProps
  imports ClientPin SampleLib
begin

text \<open>
  What the PIN of the token promises: the tries over any sequence of requests for a token, what the right PIN is
  given, that a PIN which is set is the one that is asked for, and the flaws of these paths.
\<close>

section \<open>The files\<close>

text \<open>The files of the static table.\<close>

lemma static_fids: "\<not> dyn_fid EF_PIN" "\<not> dyn_fid EF_AUTHTOKEN" "\<not> dyn_fid EF_MINPINLEN" "\<not> dyn_fid EF_OPTS"
    "\<not> dyn_fid EF_LARGEBLOB" "\<not> dyn_fid EF_COUNTER"
  by (simp_all add: dyn_fid_def file_table_def internal_ef_def fid_defs FILE_TYPE_INTERNAL_EF_def FILE_DATA_FLASH_def)

lemma static_lookup: "fs_inv fs \<Longrightarrow> \<not> dyn_fid fi \<Longrightarrow> search_ef fs fi = lookup fs fi"
  by (auto simp: dyn_fid_def lookup_def search_ef_table)

lemma pin_refs: "fs_inv fs \<Longrightarrow> ef_pin fs = lookup fs EF_PIN" "fs_inv fs \<Longrightarrow> ef_minpin fs = lookup fs EF_MINPINLEN"
  by (simp_all add: ef_pin_def ef_minpin_def static_lookup static_fids)

lemma fids_distinct: "EF_PIN \<noteq> EF_AUTHTOKEN" "EF_PIN \<noteq> EF_MINPINLEN" "EF_AUTHTOKEN \<noteq> EF_MINPINLEN"
    "EF_AUTHTOKEN \<noteq> EF_PIN" "EF_MINPINLEN \<noteq> EF_PIN" "EF_MINPINLEN \<noteq> EF_AUTHTOKEN"
  by (simp_all add: fid_defs)

text \<open>A file that keeps its length: the write succeeds.\<close>

lemma rewrite_ref:
  assumes "fs_inv fs" and "fget fs fi = Some old" and "length bs \<le> length old" and "length bs \<le> 4096"
  shows "\<exists>fs'. write_file fs (lookup fs fi) bs = Some (CCID_OK, fs') \<and> fs_inv fs' \<and> fget fs' = (fget fs)(fi \<mapsto> bs)"
  using write_ref [OF assms(1,4), of fi] assms(2,3) by auto

text \<open>
  A token with the PIN hash \<open>h\<close>, the length \<open>l\<close> and \<open>n\<close> tries, that is not told to change its PIN.
\<close>

definition pin_ready :: "ctap \<Rightarrow> u8 \<Rightarrow> u8 \<Rightarrow> bytes \<Rightarrow> bool" where
  "pin_ready st n l h \<longleftrightarrow> fs_inv (cfs st) \<and> fget (cfs st) EF_PIN = Some (n # l # h) \<and> length h = 16 \<and>
     (\<exists>t. fget (cfs st) EF_AUTHTOKEN = Some t \<and> length t = 32) \<and> must_change (cfs st) = Some False"

lemma must_change_cong:
  assumes "fs_inv fs" "fs_inv fs'" "fget fs' EF_MINPINLEN = fget fs EF_MINPINLEN"
  shows "must_change fs' = must_change fs"
proof -
  have "has fs' EF_MINPINLEN = has fs EF_MINPINLEN" using assms(3) by (simp add: has_def)
  then show ?thesis
    using assms by (auto simp: must_change_def pin_refs has_ref bytes_ref)
qed

lemma pin_read:
  assumes "pin_ready st n l h"
  shows "file_has_data (cfs st) (ef_pin (cfs st)) = Some True" and "file_bytes (cfs st) (ef_pin (cfs st)) = Some (n # l # h)"
proof -
  have i: "fs_inv (cfs st)" and g: "fget (cfs st) EF_PIN = Some (n # l # h)" using assms by (auto simp: pin_ready_def)
  then have "has (cfs st) EF_PIN" by (auto simp: has_def)
  then show "file_has_data (cfs st) (ef_pin (cfs st)) = Some True" "file_bytes (cfs st) (ef_pin (cfs st)) = Some (n # l # h)"
    using i g by (simp_all add: pin_refs has_ref bytes_ref)
qed

text \<open>What rewriting the PIN file does.\<close>

lemma write_pin_file:
  assumes r: "pin_ready st n l h" and h': "length h' = 16"
  shows "\<exists>fs'. write_file (cfs st) (ef_pin (cfs st)) (n' # l' # h') = Some (CCID_OK, fs') \<and>
    pin_ready (st\<lparr>cfs := fs'\<rparr>) n' l' h' \<and> fget fs' = (fget (cfs st))(EF_PIN \<mapsto> n' # l' # h')"
proof -
  have i: "fs_inv (cfs st)" and g: "fget (cfs st) EF_PIN = Some (n # l # h)" and h: "length h = 16"
    using r by (auto simp: pin_ready_def)
  have len: "length (n' # l' # h') \<le> length (n # l # h)" "length (n' # l' # h') \<le> 4096" using h h' by simp_all
  obtain fs' where w: "write_file (cfs st) (lookup (cfs st) EF_PIN) (n' # l' # h') = Some (CCID_OK, fs')" "fs_inv fs'"
    "fget fs' = (fget (cfs st))(EF_PIN \<mapsto> n' # l' # h')" using rewrite_ref [OF i g len] by blast
  have "must_change fs' = must_change (cfs st)" by (rule must_change_cong [OF i w(2)]) (simp add: w(3) fids_distinct)
  then show ?thesis using w r h' i by (auto simp: pin_ready_def pin_refs fids_distinct)
qed

lemma spend_try_spec:
  assumes "pin_ready st n l h"
  shows "\<exists>fs'. spend_try st = Some ((n - 1) # l # h, st\<lparr>cfs := fs'\<rparr>) \<and> pin_ready (st\<lparr>cfs := fs'\<rparr>) (n - 1) l h \<and>
    fget fs' = (fget (cfs st))(EF_PIN \<mapsto> (n - 1) # l # h)"
proof -
  have h: "length h = 16" using assms by (simp add: pin_ready_def)
  then have s: "rd_slice (n # l # h) 0 18 = Some (n # l # h)" by (simp add: rd_slice_def)
  from write_pin_file [OF assms h, of "n - 1" l] show ?thesis
    using s pin_read [OF assms] by (auto simp: spend_try_def Let_def)
qed

lemma restore_tries_spec:
  assumes "pin_ready st n l h"
  shows "\<exists>fs'. restore_tries (n' # l # h) st = Some (st\<lparr>cfs := fs', new_pin_mismatches := 0\<rparr>) \<and>
    pin_ready (st\<lparr>cfs := fs', new_pin_mismatches := 0\<rparr>) 8 l h \<and> fget fs' = (fget (cfs st))(EF_PIN \<mapsto> 8 # l # h)"
proof -
  have h: "length h = 16" using assms by (simp add: pin_ready_def)
  from write_pin_file [OF assms h, of 8 l] show ?thesis
    by (auto simp: restore_tries_def MAX_PIN_RETRIES_def pin_ready_def)
qed

lemma pin_matches_spec:
  assumes "pin_ready st n l h" shows "pin_matches padded st = Some (take 16 padded = h)"
proof -
  have "rd_slice (n # l # h) 2 16 = Some h" using assms by (simp add: rd_slice_def pin_ready_def numeral_2_eq_2)
  then show ?thesis using pin_read [OF assms] by (simp add: pin_matches_def)
qed

text \<open>A new token.\<close>

lemma pointed_bytes: "file_bytes fs ef = Some b \<Longrightarrow> pointed fs ef = Some b"
  by (auto simp: file_bytes_def pointed_def split: bind_splits)

lemma reset_token_spec:
  assumes r: "pin_ready st n l h" and env: "ctap_law env"
  shows "\<exists>fs'. resetPinUvAuthToken env st = Some (st\<lparr>draws := draws st + 1, cfs := fs',
      paut := (paut st)\<lparr>permissions := 0, token := rand env (draws st) 32\<rparr>\<rparr>) \<and>
    pin_ready (st\<lparr>draws := draws st + 1, cfs := fs', paut := (paut st)\<lparr>permissions := 0, token := rand env (draws st) 32\<rparr>\<rparr>) n l h \<and>
    fget fs' = (fget (cfs st))(EF_AUTHTOKEN \<mapsto> rand env (draws st) 32)"
proof -
  let ?t = "rand env (draws st) 32"
  have i: "fs_inv (cfs st)" using r by (simp add: pin_ready_def)
  have lt: "length ?t = 32" using env by (simp add: ctap_law_def)
  obtain t where t: "fget (cfs st) EF_AUTHTOKEN = Some t" "length t = 32" using r by (auto simp: pin_ready_def)
  have len: "length ?t \<le> length t" "length ?t \<le> 4096" using lt t(2) by simp_all
  obtain fs' where w: "write_file (cfs st) (lookup (cfs st) EF_AUTHTOKEN) ?t = Some (CCID_OK, fs')" "fs_inv fs'"
    "fget fs' = (fget (cfs st))(EF_AUTHTOKEN \<mapsto> ?t)" "lookup fs' = lookup (cfs st)"
    using write_ref [OF i len(2), of EF_AUTHTOKEN] t len(1) by auto
  have "has fs' EF_AUTHTOKEN" using w(3) lt by (auto simp: has_def)
  then have b: "file_bytes fs' (lookup (cfs st) EF_AUTHTOKEN) = Some ?t" using bytes_ref [OF w(2)] w(3,4) by fastforce
  have m: "must_change fs' = must_change (cfs st)" by (rule must_change_cong [OF i w(2)]) (simp add: w(3) fids_distinct)
  have "resetPinUvAuthToken env st = Some (st\<lparr>draws := draws st + 1, cfs := fs',
      paut := (paut st)\<lparr>permissions := 0, token := ?t\<rparr>\<rparr>)"
    using w(1) pointed_bytes [OF b] by (simp add: resetPinUvAuthToken_def draw_def Let_def static_lookup [OF i static_fids(2)])
  then show ?thesis using w(2,3) m r lt by (auto simp: pin_ready_def fids_distinct)
qed

section \<open>Requests for a token\<close>

text \<open>
  A well-formed request for a token, of the host's choice of protocol and subcommand, that carries the PIN hash
  \<open>g\<close>: the bytes that the token compares are \<open>g\<close>.
\<close>

definition carries :: "ctap_env \<Rightarrow> (nat \<Rightarrow> u8) \<Rightarrow> ctap \<Rightarrow> pin_req \<Rightarrow> bytes \<Rightarrow> bool" where
  "carries env junk st q g \<longleftrightarrow>
     (pinUvAuthProtocol q = 1 \<or> pinUvAuthProtocol q = 2) \<and> alg (key_agreement q) \<noteq> 0 \<and>
     (subcommand q = 5 \<and> req_permissions q = 0 \<and> rpId q = None \<or>
      subcommand q = 9 \<and> req_permissions q \<noteq> 0 \<and> req_permissions q AND CTAP_PERMISSION_BE = 0) \<and>
     (\<exists>d x y hash secret padded. hkey st = Some d \<and> kax (key_agreement q) = Some x \<and> kay (key_agreement q) = Some y \<and>
        pinHashEnc q = Some hash \<and> ecdh env (ucast (pinUvAuthProtocol q)) d x y = Some secret \<and>
        decrypt env (ucast (pinUvAuthProtocol q)) secret hash (heap_past junk) (pin_stack junk) = Some (True, padded) \<and>
        take 16 padded = g)"

lemma grant_spec:
  assumes r: "pin_ready st n l h" and env: "ctap_law env" and p: "pinUvAuthProtocol q = 1 \<or> pinUvAuthProtocol q = 2"
  shows "\<exists>st' e iv. grant env now q secret st = Some (0, Some (CMap [CUint 2, CBytes e]), st') \<and> pin_ready st' n l h \<and>
    length iv = 16 \<and> e = (if pinUvAuthProtocol q = 1 then aes_enc env secret (replicate 16 0) (token (paut st'))
         else iv @ aes_enc env (drop 32 secret) iv (token (paut st'))) \<and>
    length (token (paut st')) = 32 \<and>
    permissions (paut st') = granted_permissions q \<and> in_use (paut st') \<and> user_verified (paut st') \<and>
    has_rp_id (paut st') = (rpId q \<noteq> None) \<and> (\<forall>x. rpId q = Some x \<longrightarrow> rp_id_hash (paut st') = sha256 (lib env) x) \<and>
    overran st' = overran st \<and> new_pin_mismatches st' = new_pin_mismatches st \<and> needs_power_cycle st' = needs_power_cycle st"
proof -
  obtain fs' where t: "resetPinUvAuthToken env st = Some (st\<lparr>draws := draws st + 1, cfs := fs',
      paut := (paut st)\<lparr>permissions := 0, token := rand env (draws st) 32\<rparr>\<rparr>)"
    "pin_ready (st\<lparr>draws := draws st + 1, cfs := fs', paut := (paut st)\<lparr>permissions := 0, token := rand env (draws st) 32\<rparr>\<rparr>) n l h"
    using reset_token_spec [OF r env] by blast
  have lt: "length (rand env (draws st) 32) = 32" using env by (simp add: ctap_law_def)
  have f: "must_change (cfs st) = Some False" using r by (simp add: pin_ready_def)
  define st1 where "st1 = beginUsingPinUvAuthToken now False (st\<lparr>draws := draws st + 1, cfs := fs',
      paut := (paut st)\<lparr>permissions := 0, token := rand env (draws st) 32\<rparr>\<rparr>)"
  define st2 where "st2 = st1\<lparr>paut := bind_token env q (paut st1)\<rparr>"
  have s1: "token (paut st1) = rand env (draws st) 32" "in_use (paut st1)" "user_verified (paut st1)" "draws st1 = draws st + 1"
    "overran st1 = overran st" "new_pin_mismatches st1 = new_pin_mismatches st" "needs_power_cycle st1 = needs_power_cycle st"
    "cfs st1 = fs'"
    by (simp_all add: st1_def beginUsingPinUvAuthToken_def)
  have s2: "token (paut st2) = rand env (draws st) 32" "in_use (paut st2)" "user_verified (paut st2)" "draws st2 = draws st + 1"
    "overran st2 = overran st" "new_pin_mismatches st2 = new_pin_mismatches st" "needs_power_cycle st2 = needs_power_cycle st"
    "permissions (paut st2) = granted_permissions q" "has_rp_id (paut st2) = (rpId q \<noteq> None)" "cfs st2 = fs'"
    "\<forall>x. rpId q = Some x \<longrightarrow> rp_id_hash (paut st2) = sha256 (lib env) x"
    using s1 by (auto simp: st2_def bind_token_def split: option.split)
  have ready: "pin_ready (st2\<lparr>draws := c\<rparr>) n l h" "pin_ready st2 n l h" for c using t(2) s2(10) by (simp_all add: pin_ready_def)
  have g: "grant env now q secret st = (let (enc, st) = encrypt env (ucast (pinUvAuthProtocol q)) secret (rand env (draws st) 32) st2
      in do { e \<leftarrow> enc; answer (CMap [CUint 2, CBytes e]) st })"
    using f t(1) s2(1) lt unfolding grant_def st2_def st1_def by (simp add: rd_slice_def Let_def)
  have li: "length (rand env (draws st + 1) 16) = 16" using env by (simp add: ctap_law_def)
  from p show ?thesis
  proof
    assume p1: "pinUvAuthProtocol q = 1"
    let ?e = "aes_enc env secret (replicate 16 0) (rand env (draws st) 32)"
    have "grant env now q secret st = Some (0, Some (CMap [CUint 2, CBytes ?e]), st2)"
      using g p1 lt by (simp add: encrypt_def answer_def)
    then show ?thesis using s2 ready p1 li lt
      by (intro exI [of _ st2] exI [of _ ?e] exI [of _ "rand env (draws st + 1) 16"]) auto
  next
    assume p2: "pinUvAuthProtocol q = 2"
    let ?iv = "rand env (draws st + 1) 16" and ?st = "st2\<lparr>draws := draws st2 + 1\<rparr>"
    let ?e = "?iv @ aes_enc env (drop 32 secret) ?iv (rand env (draws st) 32)"
    have "grant env now q secret st = Some (0, Some (CMap [CUint 2, CBytes ?e]), ?st)"
      using g p2 lt s2(4) by (simp add: encrypt_def answer_def draw_def)
    then show ?thesis using s2 ready p2 li lt by (intro exI [of _ ?st] exI [of _ ?e] exI [of _ ?iv]) auto
  qed
qed

text \<open>One request: without tries nothing happens, a wrong PIN costs one, the right one restores them.\<close>

lemma token_refused:
  assumes "pin_ready st 0 l h" and "carries env junk st q g"
  shows "get_pin_token env junk now q st = fail CTAP2_ERR_PIN_BLOCKED st"
  using pin_read [OF assms(1)] assms(2) by (auto simp: get_pin_token_def carries_def rd_def)

lemma token_compare:
  assumes r: "pin_ready st n l h" and c: "carries env junk st q g" and n: "n \<noteq> 0"
  shows "\<exists>st1 secret. get_pin_token env junk now q st =
      (if g = h then do { st \<leftarrow> restore_tries ((n - 1) # l # h) st1; grant env now q secret st } else wrong_pin env (n - 1) st1) \<and>
    pin_ready st1 (n - 1) l h \<and> hkey st1 = hkey st \<and> new_pin_mismatches st1 = new_pin_mismatches st \<and>
    needs_power_cycle st1 = needs_power_cycle st \<and> draws st1 = draws st \<and>
    overran st1 = overran st + (length (the (pinHashEnc q)) - 64) \<and>
    (\<exists>d x y. hkey st = Some d \<and> kax (key_agreement q) = Some x \<and> kay (key_agreement q) = Some y \<and>
       ecdh env (ucast (pinUvAuthProtocol q)) d x y = Some secret)"
proof -
  obtain d x y hash secret padded where q: "hkey st = Some d" "kax (key_agreement q) = Some x" "kay (key_agreement q) = Some y"
    "pinHashEnc q = Some hash" "ecdh env (ucast (pinUvAuthProtocol q)) d x y = Some secret"
    "decrypt env (ucast (pinUvAuthProtocol q)) secret hash (heap_past junk) (pin_stack junk) = Some (True, padded)"
    "take 16 padded = g" using c by (auto simp: carries_def)
  obtain fs1 where s: "spend_try st = Some ((n - 1) # l # h, st\<lparr>cfs := fs1\<rparr>)" "pin_ready (st\<lparr>cfs := fs1\<rparr>) (n - 1) l h"
    using spend_try_spec [OF r] by blast
  define st1 where "st1 = st\<lparr>cfs := fs1, overran := overran st + excess (pin_stack junk) hash\<rparr>"
  have r1: "pin_ready st1 (n - 1) l h" using s(2) by (simp add: st1_def pin_ready_def)
  have "get_pin_token env junk now q st =
      (if g = h then do { st \<leftarrow> restore_tries ((n - 1) # l # h) st1; grant env now q secret st } else wrong_pin env (n - 1) st1)"
    using c n q s(1) pin_read [OF r] pin_matches_spec [OF r1, of padded]
    by (auto simp: get_pin_token_def carries_def rd_def with_secret_def st1_def)
  then show ?thesis
    using r1 q by (intro exI [of _ st1] exI [of _ secret]) (auto simp: st1_def excess_def pin_stack_def)
qed

lemma wrong_pin_spec:
  assumes "pin_ready st n l h"
  shows "\<exists>code st'. wrong_pin env n st = Some (code, None, st') \<and> pin_ready st' n l h \<and>
    code = (if n = 0 then CTAP2_ERR_PIN_BLOCKED
            else if new_pin_mismatches st + 1 \<ge> 3 then CTAP2_ERR_PIN_AUTH_BLOCKED else CTAP2_ERR_PIN_INVALID) \<and>
    overran st' = overran st \<and> needs_power_cycle st' = (needs_power_cycle st \<or> n \<noteq> 0 \<and> new_pin_mismatches st + 1 \<ge> 3) \<and>
    hkey st' = Some (rand env (draws st) 32) \<and> new_pin_mismatches st' = (if n = 0 then new_pin_mismatches st else new_pin_mismatches st + 1)"
  using assms by (auto simp: wrong_pin_def regenerate_def draw_def Let_def fail_def pin_ready_def)

lemma token_step:
  assumes r: "pin_ready st n l h" and c: "carries env junk st q g" and env: "ctap_law env"
  shows "\<exists>code res st'. get_pin_token env junk now q st = Some (code, res, st') \<and>
    (code = 0 \<longleftrightarrow> n \<noteq> 0 \<and> g = h) \<and> pin_ready st' (if n = 0 then 0 else if g = h then 8 else n - 1) l h"
proof (cases "n = 0")
  case True
  then show ?thesis using token_refused [of st l h env junk q g now] r c by (simp add: fail_def CTAP2_ERR_PIN_BLOCKED_def)
next
  case n: False
  obtain st1 secret where t: "get_pin_token env junk now q st =
      (if g = h then do { st \<leftarrow> restore_tries ((n - 1) # l # h) st1; grant env now q secret st } else wrong_pin env (n - 1) st1)"
    "pin_ready st1 (n - 1) l h" using token_compare [OF r c n] by blast
  show ?thesis
  proof (cases "g = h")
    case True
    obtain fs2 where f: "restore_tries ((n - 1) # l # h) st1 = Some (st1\<lparr>cfs := fs2, new_pin_mismatches := 0\<rparr>)"
      "pin_ready (st1\<lparr>cfs := fs2, new_pin_mismatches := 0\<rparr>) 8 l h" using restore_tries_spec [OF t(2)] by blast
    have p: "pinUvAuthProtocol q = 1 \<or> pinUvAuthProtocol q = 2" using c by (simp add: carries_def)
    from grant_spec [OF f(2) env p, of now secret] show ?thesis using t(1) f(1) n True by auto
  next
    case False
    from wrong_pin_spec [OF t(2), of env] obtain code st' where
      "wrong_pin env (n - 1) st1 = Some (code, None, st')" "pin_ready st' (n - 1) l h" "code \<noteq> 0"
      by (auto simp: ctap_codes split: if_splits)
    then show ?thesis using t(1) n False by simp
  qed
qed

text \<open>A sequence of requests with the hashes \<open>gs\<close>, and the codes of the answers.\<close>

inductive guessing :: "ctap_env \<Rightarrow> ctap \<Rightarrow> bytes list \<Rightarrow> int list \<Rightarrow> ctap \<Rightarrow> bool" for env where
  guess_none: "guessing env st [] [] st"
| guess_one: "carries env junk st q g \<Longrightarrow> get_pin_token env junk now q st = Some (code, res, st1) \<Longrightarrow>
    guessing env st1 gs codes st' \<Longrightarrow> guessing env st (g # gs) (code # codes) st'"

text \<open>The account that the tries should keep: which of the requests are granted, and how many tries are left.\<close>

fun account :: "u8 \<Rightarrow> bytes \<Rightarrow> bytes list \<Rightarrow> bool list \<times> u8" where
  "account n h [] = ([], n)"
| "account n h (g # gs) =
     (let r = account (if n = 0 then 0 else if g = h then 8 else n - 1) h gs in ((n \<noteq> 0 \<and> g = h) # fst r, snd r))"

lemma guessing_account:
  assumes "guessing env st gs codes st'" and "pin_ready st n l h" and "ctap_law env"
  shows "map (\<lambda>c. c = 0) codes = fst (account n h gs) \<and> pin_ready st' (snd (account n h gs)) l h"
  using assms
proof (induction arbitrary: n rule: guessing.induct)
  case (guess_none st)
  then show ?case by simp
next
  case (guess_one junk st q g now code res st1 gs codes st')
  from token_step [OF guess_one.prems(1) guess_one.hyps(1) guess_one.prems(2), of now] guess_one.hyps(2)
  have "(code = 0 \<longleftrightarrow> n \<noteq> 0 \<and> g = h) \<and> pin_ready st1 (if n = 0 then 0 else if g = h then 8 else n - 1) l h" by auto
  then show ?case using guess_one.IH guess_one.prems(2) by (simp add: Let_def del: if_split)
qed

lemma account_wrong: "h \<notin> set gs \<Longrightarrow> unat (snd (account n h gs)) = unat n - length gs \<and> (\<forall>a \<in> set (fst (account n h gs)). \<not> a)"
proof (induction gs arbitrary: n)
  case (Cons g gs)
  have u: "n \<noteq> 0 \<Longrightarrow> unat (n - 1) = unat n - 1" by (metis unat_minus_one)
  have "g \<noteq> h" "h \<notin> set gs" using Cons.prems by auto
  note ih = Cons.IH [OF this(2)]
  show ?case using \<open>g \<noteq> h\<close> ih [of 0] ih [of "n - 1"] u by (cases "n = 0") (auto simp: Let_def)
qed simp

text \<open>
  C5: over any sequence of requests for a token, in either protocol, a request is granted exactly when its hash is
  the one of the PIN and tries are left; a wrong hash costs a try, the right one restores eight.  Without the right
  hash, the tries left and the tries spent add up, so at most as many guesses as tries are compared at all.
\<close>

theorem pin_tries:
  assumes "guessing env st gs codes st'" and "pin_ready st n l h" and "ctap_law env"
  shows "map (\<lambda>c. c = 0) codes = fst (account n h gs) \<and> pin_ready st' (snd (account n h gs)) l h \<and>
    (h \<notin> set gs \<longrightarrow> unat (snd (account n h gs)) = unat n - length gs \<and> 0 \<notin> set codes)"
proof -
  from guessing_account [OF assms] have g: "map (\<lambda>c. c = 0) codes = fst (account n h gs)" "pin_ready st' (snd (account n h gs)) l h"
    by simp_all
  moreover have "0 \<notin> set codes" if "h \<notin> set gs"
  proof
    assume "0 \<in> set codes"
    then have "True \<in> set (map (\<lambda>c. c = 0) codes)" by force
    then show False using account_wrong [OF that, of n] g(1) by auto
  qed
  ultimately show ?thesis using account_wrong by blast
qed

text \<open>The two outcomes with tries left, in full.\<close>

lemma token_wrong:
  assumes r: "pin_ready st n l h" and c: "carries env junk st q g" and n: "n \<noteq> 0" and g: "g \<noteq> h"
  shows "\<exists>st'. get_pin_token env junk now q st =
      Some (if n = 1 then CTAP2_ERR_PIN_BLOCKED
            else if new_pin_mismatches st + 1 \<ge> 3 then CTAP2_ERR_PIN_AUTH_BLOCKED else CTAP2_ERR_PIN_INVALID, None, st') \<and>
    pin_ready st' (n - 1) l h \<and> hkey st' \<noteq> None \<and> overran st' = overran st + (length (the (pinHashEnc q)) - 64) \<and>
    needs_power_cycle st' = (needs_power_cycle st \<or> n \<noteq> 1 \<and> new_pin_mismatches st + 1 \<ge> 3) \<and>
    new_pin_mismatches st' = (if n = 1 then new_pin_mismatches st else new_pin_mismatches st + 1)"
proof -
  obtain st1 where t: "get_pin_token env junk now q st = wrong_pin env (n - 1) st1" "pin_ready st1 (n - 1) l h"
    "new_pin_mismatches st1 = new_pin_mismatches st" "needs_power_cycle st1 = needs_power_cycle st"
    "overran st1 = overran st + (length (the (pinHashEnc q)) - 64)" using token_compare [OF r c n, of now] g by auto
  from wrong_pin_spec [OF t(2), of env] t show ?thesis by auto
qed

lemma token_granted:
  assumes r: "pin_ready st n l h" and c: "carries env junk st q h" and n: "n \<noteq> 0" and env: "ctap_law env"
  shows "\<exists>st' e secret iv d x y. get_pin_token env junk now q st = Some (0, Some (CMap [CUint 2, CBytes e]), st') \<and> pin_ready st' 8 l h \<and>
    hkey st = Some d \<and> kax (key_agreement q) = Some x \<and> kay (key_agreement q) = Some y \<and>
    ecdh env (ucast (pinUvAuthProtocol q)) d x y = Some secret \<and> length iv = 16 \<and>
    e = (if pinUvAuthProtocol q = 1 then aes_enc env secret (replicate 16 0) (token (paut st'))
         else iv @ aes_enc env (drop 32 secret) iv (token (paut st'))) \<and> length (token (paut st')) = 32 \<and>
    permissions (paut st') = granted_permissions q \<and> in_use (paut st') \<and> user_verified (paut st') \<and>
    has_rp_id (paut st') = (rpId q \<noteq> None) \<and> (\<forall>x. rpId q = Some x \<longrightarrow> rp_id_hash (paut st') = sha256 (lib env) x) \<and>
    overran st' = overran st + (length (the (pinHashEnc q)) - 64) \<and> new_pin_mismatches st' = 0 \<and>
    needs_power_cycle st' = needs_power_cycle st"
proof -
  obtain st1 secret d x y where t: "get_pin_token env junk now q st = do { st \<leftarrow> restore_tries ((n - 1) # l # h) st1; grant env now q secret st }"
    "pin_ready st1 (n - 1) l h" "overran st1 = overran st + (length (the (pinHashEnc q)) - 64)" "needs_power_cycle st1 = needs_power_cycle st"
    "hkey st = Some d" "kax (key_agreement q) = Some x" "kay (key_agreement q) = Some y"
    "ecdh env (ucast (pinUvAuthProtocol q)) d x y = Some secret" using token_compare [OF r c n, of now] by auto
  obtain fs2 where f: "restore_tries ((n - 1) # l # h) st1 = Some (st1\<lparr>cfs := fs2, new_pin_mismatches := 0\<rparr>)"
    "pin_ready (st1\<lparr>cfs := fs2, new_pin_mismatches := 0\<rparr>) 8 l h" using restore_tries_spec [OF t(2)] by blast
  have p: "pinUvAuthProtocol q = 1 \<or> pinUvAuthProtocol q = 2" using c by (simp add: carries_def)
  obtain st' e iv where g: "grant env now q secret (st1\<lparr>cfs := fs2, new_pin_mismatches := 0\<rparr>) = Some (0, Some (CMap [CUint 2, CBytes e]), st')"
    "pin_ready st' 8 l h" "length iv = 16"
    "e = (if pinUvAuthProtocol q = 1 then aes_enc env secret (replicate 16 0) (token (paut st'))
         else iv @ aes_enc env (drop 32 secret) iv (token (paut st')))"
    "length (token (paut st')) = 32"
    "permissions (paut st') = granted_permissions q" "in_use (paut st')" "user_verified (paut st')"
    "has_rp_id (paut st') = (rpId q \<noteq> None)" "\<forall>x. rpId q = Some x \<longrightarrow> rp_id_hash (paut st') = sha256 (lib env) x"
    "overran st' = overran st1" "new_pin_mismatches st' = 0" "needs_power_cycle st' = needs_power_cycle st1"
    using grant_spec [OF f(2) env p, of now secret] by auto
  have "get_pin_token env junk now q st = Some (0, Some (CMap [CUint 2, CBytes e]), st')" using t(1) f(1) g(1) by simp
  moreover have "overran st' = overran st + (length (the (pinHashEnc q)) - 64)" "needs_power_cycle st' = needs_power_cycle st"
    using t(3,4) g(11,13) by simp_all
  ultimately show ?thesis using t(5-8) g(2-10,12) by blast
qed

definition host_decrypt :: "ctap_env \<Rightarrow> u64 \<Rightarrow> bytes \<Rightarrow> bytes \<Rightarrow> bytes" where
  "host_decrypt env protocol secret e =
     (if protocol = 1 then aes_dec env secret (replicate 16 0) e else aes_dec env (drop 32 secret) (take 16 e) (drop 16 e))"


text \<open>
  three wrong PINs in a row are answered with the demand for a power cycle, but it is not enforced: the next
  request with the right PIN, without one, is granted.
\<close>

theorem power_cycle_not_enforced:
  assumes "pin_ready st n l h" and "n > 3" and "new_pin_mismatches st = 0" and "h \<notin> {g1, g2, g3}" and "ctap_law env"
    and "carries env j1 st q1 g1" "get_pin_token env j1 t1 q1 st = Some (c1, r1, st1)"
    and "carries env j2 st1 q2 g2" "get_pin_token env j2 t2 q2 st1 = Some (c2, r2, st2)"
    and "carries env j3 st2 q3 g3" "get_pin_token env j3 t3 q3 st2 = Some (c3, r3, st3)"
    and "carries env j4 st3 q4 h"
  shows "c3 = CTAP2_ERR_PIN_AUTH_BLOCKED \<and> needs_power_cycle st3 \<and>
    (\<exists>e st4. get_pin_token env j4 t4 q4 st3 = Some (0, Some (CMap [CUint 2, CBytes e]), st4) \<and> needs_power_cycle st4)"
proof -
  have u: "3 < unat n" using assms(2) by (simp add: word_less_nat_alt)
  have n: "n \<noteq> 0" "n \<noteq> 1" "n - 1 \<noteq> 0" "n - 1 \<noteq> 1" "n - 1 - 1 \<noteq> 0" "n - 1 - 1 \<noteq> 1" "n - 1 - 1 - 1 \<noteq> 0"
    using assms(2) by (auto simp: eq_diff_eq)
  have g: "g1 \<noteq> h" "g2 \<noteq> h" "g3 \<noteq> h" using assms(4) by auto
  have s1: "pin_ready st1 (n - 1) l h" "new_pin_mismatches st1 = 1"
    using token_wrong [OF assms(1,6) n(1) g(1), of t1] assms(3,7) n(2) by auto
  have s2: "pin_ready st2 (n - 1 - 1) l h" "new_pin_mismatches st2 = 2"
    using token_wrong [OF s1(1) assms(8) n(3) g(2), of t2] s1(2) assms(9) n(4) by auto
  have s3: "pin_ready st3 (n - 1 - 1 - 1) l h" "c3 = CTAP2_ERR_PIN_AUTH_BLOCKED" "needs_power_cycle st3"
    using token_wrong [OF s2(1) assms(10) n(5) g(3), of t3] s2(2) assms(11) n(6) by auto
  from token_granted [OF s3(1) assms(12) n(7) assms(5), of t4] s3 show ?thesis by auto
qed

text \<open>
  In protocol 1 an empty hash passes all tests, and the token compares the PIN with what the stack holds from
  earlier calls, for instance the hash of the last PIN that was entered.  The request is granted exactly when the
  16 bytes there are the hash of the PIN.
\<close>

theorem empty_hash_tests_stack:
  assumes r: "pin_ready st n l h" and n: "n \<noteq> 0" and env: "ctap_law env"
    and q: "pinUvAuthProtocol q = 1" "subcommand q = 5" "req_permissions q = 0" "rpId q = None" "pinHashEnc q = Some []"
    and k: "hkey st = Some d" "kax (key_agreement q) = Some x" "kay (key_agreement q) = Some y" "alg (key_agreement q) \<noteq> 0"
  shows "\<exists>code res st'. client_pin env junk now q st = Some (code, res, st') \<and>
    (code = 0 \<longleftrightarrow> map junk [0 ..< 16] = h)"
proof -
  have a: "aes_dec env k v [] = []" for k v using ctap_lawD(8) [OF env, of "[]"] by simp
  have "take 16 (pin_stack junk) = map junk [0 ..< 16]" by (simp add: pin_stack_def take_map)
  moreover have "length (pin_stack junk) = 64" by (simp add: pin_stack_def)
  ultimately have c: "carries env junk st q (map junk [0 ..< 16])"
    using q k a by (auto simp: carries_def ecdh_def kdf_def decrypt_def overwrite_def)
  have "client_pin env junk now q st = get_pin_token env junk now q st" using q by (simp add: client_pin_def)
  then show ?thesis using token_step [OF r c env, of now] n by auto
qed

text \<open>
  the encrypted hash is not limited in length: what exceeds 64 bytes is written behind the buffer on the stack,
  with any PIN.
\<close>

theorem long_hash_overruns:
  assumes r: "pin_ready st n l h" and n: "n \<noteq> 0" and env: "ctap_law env" and c: "carries env junk st q g"
    and hash: "pinHashEnc q = Some hash"
  shows "\<exists>code res st'. client_pin env junk now q st = Some (code, res, st') \<and> overran st' = overran st + (length hash - 64)"
proof -
  have "client_pin env junk now q st = get_pin_token env junk now q st" using c by (auto simp: client_pin_def carries_def)
  then show ?thesis
    using token_granted [OF r _ n env, of junk q now] token_wrong [OF r c n, of now] c hash by (cases "g = h") auto
qed

section \<open>Setting and changing the PIN\<close>

text \<open>The host's side of the two protocols.\<close>

definition host_encrypt :: "ctap_env \<Rightarrow> u64 \<Rightarrow> bytes \<Rightarrow> bytes \<Rightarrow> bytes \<Rightarrow> bytes" where
  "host_encrypt env protocol secret iv x =
     (if protocol = 1 then aes_enc env secret (replicate 16 0) x else iv @ aes_enc env (drop 32 secret) iv x)"

definition host_mac :: "ctap_env \<Rightarrow> u64 \<Rightarrow> bytes \<Rightarrow> bytes \<Rightarrow> bytes option" where
  "host_mac env protocol secret msg = authenticate env (ucast protocol) secret msg"

definition pad_pin :: "bytes \<Rightarrow> bytes" where "pad_pin pin = pin @ replicate (64 - length pin) 0"

lemma ecdh_length: "ctap_law env \<Longrightarrow> ecdh env p d x y = Some s \<Longrightarrow> 32 \<le> length s"
  by (auto simp: ecdh_def kdf_def ctap_law_def crypto_law_def split: if_splits)

lemma length_overwrite: "length (overwrite out x) = length out"
  by (simp add: overwrite_def)

lemma take_overwrite: "length x \<le> length out \<Longrightarrow> take (length x) (overwrite out x) = x"
  by (simp add: overwrite_def)

lemma host_encrypt_length:
  "ctap_law env \<Longrightarrow> length x mod 16 = 0 \<Longrightarrow> length iv = 16 \<Longrightarrow>
     length (host_encrypt env p secret iv x) = (if p = 1 then length x else 16 + length x)"
  by (simp add: host_encrypt_def ctap_law_def)

lemma decrypt_host:
  assumes env: "ctap_law env" and p: "p = 1 \<or> p = 2" and iv: "length iv = 16" and x: "length x mod 16 = 0" "length x \<le> length out"
  shows "\<exists>padded. decrypt env (ucast p) secret (host_encrypt env p secret iv x) past out = Some (True, padded) \<and>
    length padded = length out \<and> take (length x) padded = x"
proof -
  have l: "length (aes_enc env k v x) = length x" and d: "aes_dec env k v (aes_enc env k v x) = x" for k v
    using env x(1) by (simp_all add: ctap_law_def)
  from p show ?thesis
  proof
    assume "p = 1"
    then show ?thesis using l d x by (simp add: decrypt_def host_encrypt_def length_overwrite take_overwrite)
  next
    assume p2: "p = 2"
    have m: "(16 + length x) mod 16 = 0" using x(1) by presburger
    show ?thesis using l d x m iv p2
      by (simp add: decrypt_def host_encrypt_def Let_def length_overwrite take_overwrite)
  qed
qed

lemma verify_host:
  assumes env: "ctap_law env" and p: "p = 1 \<or> p = 2" and s: "32 \<le> length secret" and m: "host_mac env p secret msg = Some param"
  shows "verify env (ucast p) secret msg param = Some True"
proof -
  obtain h where h: "mac env secret msg = Some h" using m by (cases "mac env secret msg") (auto simp: host_mac_def authenticate_def)
  have l: "length h = 32" using env h by (auto simp: mac_def ctap_law_def crypto_law_def)
  have "mac env (take 32 secret) msg = mac env secret msg" by (simp add: mac_def)
  then show ?thesis
    using p h l m s by (auto simp: verify_def host_mac_def authenticate_def rd_slice_def)
qed

lemma padded_pad: "0 \<notin> set pin \<Longrightarrow> padded_pin (pad_pin pin) = pin"
  by (cases "64 - length pin") (auto simp: padded_pin_def pad_pin_def takeWhile_append)

lemma pad_props: "length pin \<le> 63 \<Longrightarrow> length (pad_pin pin) = 64 \<and> pad_pin pin ! 63 = 0"
  by (simp add: pad_pin_def nth_append)


text \<open>
  A point that mbedtls rejects, for instance one that is not on the curve, is not an error: the shared secret is
  then the one derived from zeros, the same for every key of the token and every such point.
\<close>

theorem rejected_point_accepted:
  assumes "compute_shared env d x y = None" and "compute_shared env d' x' y' = None" and "p = 1 \<or> p = 2"
  shows "ecdh env p d x y = ecdh env p d' x' y' \<and> ecdh env p d x y = kdf env p (replicate 32 0) \<and> ecdh env p d x y \<noteq> None"
  using assms by (auto simp: ecdh_def kdf_def)

section \<open>Witnesses\<close>

definition ctap_pin_fs :: fs where
  "ctap_pin_fs = token_fs [(EF_PIN, 8 # 4 # replicate 16 7), (EF_AUTHTOKEN, replicate 32 0)]"

lemma ctap_pin_fs: "fs_inv ctap_pin_fs" "fget ctap_pin_fs = [EF_AUTHTOKEN \<mapsto> replicate 32 0, EF_PIN \<mapsto> 8 # 4 # replicate 16 7]"
  unfolding ctap_pin_fs_def by (subst token_fs; simp add: fids_distinct)+

lemma no_minpin: "fs_inv fs \<Longrightarrow> \<not> has fs EF_MINPINLEN \<Longrightarrow> must_change fs = Some False \<and> min_pin fs = Some 4"
  by (simp add: must_change_def min_pin_def pin_refs has_ref)

lemma ctap_pin_fs_ready: "pin_ready (sample_ctap ctap_pin_fs) 8 4 (replicate 16 7)"
proof -
  have "\<not> has ctap_pin_fs EF_MINPINLEN" by (simp add: has_def ctap_pin_fs fids_distinct)
  then show ?thesis using no_minpin [OF ctap_pin_fs(1)] by (simp add: pin_ready_def ctap_pin_fs fids_distinct)
qed

definition sample_key :: cose where
  "sample_key = no_cose\<lparr>alg := - 25, kax := Some [1], kay := Some [2]\<rparr>"

definition token_req :: "bytes \<Rightarrow> pin_req" where
  "token_req enc = no_pin_req\<lparr>pinUvAuthProtocol := 1, subcommand := 5, key_agreement := sample_key, pinHashEnc := Some enc\<rparr>"

lemma token_req_carries:
  assumes "hkey st \<noteq> None" and "length enc = 16"
  shows "carries sample_ctap_env junk st (token_req enc) (map (\<lambda>b. b - 1) enc)"
  using assms
  by (auto simp: carries_def token_req_def sample_key_def no_pin_req_def ecdh_def kdf_def sample_ctap_env_def decrypt_def overwrite_def
      pin_stack_def)

theorem pin_tries_witness:
  "\<exists>codes st'. guessing sample_ctap_env (sample_ctap ctap_pin_fs) [replicate 16 3] codes st' \<and> map (\<lambda>c. c = 0) codes = [False] \<and>
     pin_ready st' 7 4 (replicate 16 7)"
proof -
  have c: "carries sample_ctap_env (\<lambda>_. 0) (sample_ctap ctap_pin_fs) (token_req (replicate 16 4)) (replicate 16 3)"
    using token_req_carries [of "sample_ctap ctap_pin_fs" "replicate 16 4" "\<lambda>_. 0"] by simp
  obtain code res st' where s: "get_pin_token sample_ctap_env (\<lambda>_. 0) 0 (token_req (replicate 16 4)) (sample_ctap ctap_pin_fs) = Some (code, res, st')"
    using token_step [OF ctap_pin_fs_ready c sample_ctap_law, of 0] by blast
  have g: "guessing sample_ctap_env (sample_ctap ctap_pin_fs) [replicate 16 3] [code] st'"
    by (rule guess_one [OF c s guess_none])
  from pin_tries [OF this ctap_pin_fs_ready sample_ctap_law] have "map (\<lambda>c. c = 0) [code] = [False]" "pin_ready st' 7 4 (replicate 16 7)"
    by simp_all
  note r = this
  show ?thesis by (intro exI [of _ "[code]"] exI [of _ st'] conjI g r)
qed


theorem power_cycle_not_enforced_witness:
  "\<exists>st3 e st4. needs_power_cycle st3 \<and>
     get_pin_token sample_ctap_env (\<lambda>_. 0) 0 (token_req (replicate 16 8)) st3 = Some (0, Some (CMap [CUint 2, CBytes e]), st4)"
proof -
  let ?q = "token_req (replicate 16 4)" and ?g = "replicate 16 3 :: bytes" and ?h = "replicate 16 7 :: bytes" and ?j = "\<lambda>_ :: nat. 0 :: u8"
  have c: "carries sample_ctap_env ?j st ?q ?g" "carries sample_ctap_env ?j st (token_req (replicate 16 8)) ?h" if "hkey st \<noteq> None" for st
    using token_req_carries [OF that, of "replicate 16 4" ?j] token_req_carries [OF that, of "replicate 16 8" ?j] by simp_all
  have gh: "?g \<noteq> ?h" by simp
  have c0: "carries sample_ctap_env ?j (sample_ctap ctap_pin_fs) ?q ?g" by (rule c) simp
  obtain c1 st1 where s1: "get_pin_token sample_ctap_env ?j 0 ?q (sample_ctap ctap_pin_fs) = Some (c1, None, st1)" "pin_ready st1 7 4 ?h" "hkey st1 \<noteq> None"
    using token_wrong [OF ctap_pin_fs_ready c0 _ gh, of 0] by auto
  obtain c2 st2 where s2: "get_pin_token sample_ctap_env ?j 0 ?q st1 = Some (c2, None, st2)" "pin_ready st2 6 4 ?h" "hkey st2 \<noteq> None"
    using token_wrong [OF s1(2) c(1) [OF s1(3)] _ gh, of 0] by auto
  obtain c3 st3 where s3: "get_pin_token sample_ctap_env ?j 0 ?q st2 = Some (c3, None, st3)" "hkey st3 \<noteq> None"
    using token_wrong [OF s2(2) c(1) [OF s2(3)] _ gh, of 0] by auto
  have "?h \<notin> {?g, ?g, ?g}" by simp
  from power_cycle_not_enforced [OF ctap_pin_fs_ready _ _ this sample_ctap_law c0 s1(1) c(1) [OF s1(3)] s2(1) c(1) [OF s2(3)] s3(1) c(2) [OF s3(2)], of 0]
  show ?thesis by auto
qed

theorem empty_hash_tests_stack_witness:
  "\<exists>code res st'. client_pin sample_ctap_env (\<lambda>_. 7) 0 (token_req []) (sample_ctap ctap_pin_fs) = Some (code, res, st') \<and> code = 0"
proof -
  have "map (\<lambda>_. 7) [0 ..< 16] = replicate 16 (7 :: u8)" by (simp add: map_replicate_const)
  then show ?thesis
    using empty_hash_tests_stack [OF ctap_pin_fs_ready _ sample_ctap_law, of "token_req []" "replicate 32 9" "[1]" "[2]" "\<lambda>_. 7" 0]
    by (auto simp: token_req_def sample_key_def no_pin_req_def)
qed

theorem long_hash_overruns_witness:
  "\<exists>code res st'. client_pin sample_ctap_env (\<lambda>_. 0) 0 (token_req (replicate 160 8)) (sample_ctap ctap_pin_fs) = Some (code, res, st') \<and>
     overran st' = 96"
proof -
  have c: "carries sample_ctap_env (\<lambda>_. 0) (sample_ctap ctap_pin_fs) (token_req (replicate 160 8)) (replicate 16 7)"
    by (auto simp: carries_def token_req_def sample_key_def no_pin_req_def ecdh_def kdf_def sample_ctap_env_def decrypt_def overwrite_def
        pin_stack_def)
  have "pinHashEnc (token_req (replicate 160 8)) = Some (replicate 160 8)" by (simp add: token_req_def)
  from long_hash_overruns [OF ctap_pin_fs_ready _ sample_ctap_law c this, of 0] show ?thesis by simp
qed

definition set_req :: pin_req where
  "set_req = no_pin_req\<lparr>pinUvAuthProtocol := 2, subcommand := 3, key_agreement := sample_key,
     newPinEnc := Some (host_encrypt sample_ctap_env 2 (replicate 32 14 @ replicate 32 13) (replicate 16 5) (pad_pin [0x31, 0x32, 0x33, 0x34])),
     pinUvAuthParam := host_mac sample_ctap_env 2 (replicate 32 14 @ replicate 32 13)
       (host_encrypt sample_ctap_env 2 (replicate 32 14 @ replicate 32 13) (replicate 16 5) (pad_pin [0x31, 0x32, 0x33, 0x34]))\<rparr>"


theorem rejected_point_accepted_witness:
  "ecdh sample_ctap_env 1 [1] [] [] = ecdh sample_ctap_env 1 [2] [] [7] \<and> ecdh sample_ctap_env 1 [1] [] [] \<noteq> None"
proof -
  have "compute_shared sample_ctap_env d [] y = None" for d y by (simp add: sample_ctap_env_def)
  from rejected_point_accepted [OF this this, of 1 "[1]" "[]" "[2]" "[7]"] show ?thesis by blast
qed

end
