(* ===== verification/LargeBlobs.thy ===== *)
theory LargeBlobs
  imports ClientPin
begin

text \<open>
  \<^verbatim>\<open>authenticatorLargeBlobs\<close>, \<^verbatim>\<open>src/fido/cbor_large_blobs.c\<close>: the large blob is read in slices and written in
  fragments, which are collected in \<^verbatim>\<open>temp_lba\<close> and stored when the announced length is complete.
\<close>

definition MAX_FRAGMENT_LENGTH :: nat where "MAX_FRAGMENT_LENGTH = 1024 - 64"
definition MAX_LARGE_BLOB_SIZE :: nat where "MAX_LARGE_BLOB_SIZE = 2048"

record lb_req =
  lb_get :: u64
  lb_set :: "bytes option"
  lb_offset :: u64
  lb_length :: u64
  lb_param :: "bytes option"
  lb_protocol :: u64

text \<open>An offset that is not given is \<^verbatim>\<open>UINT64_MAX\<close>.\<close>

definition no_lb_req :: lb_req where
  "no_lb_req = \<lparr>lb_get = 0, lb_set = None, lb_offset = - 1, lb_length = 0, lb_param = None, lb_protocol = 0\<rparr>"

fun lb_loop :: "u64 \<Rightarrow> lb_req \<Rightarrow> cbor list \<Rightarrow> cerr + lb_req" where
  "lb_loop val_c q [] = Inr q"
| "lb_loop val_c q xs =
     field_uint xs (\<lambda>val_u r.
       case key_error 0 val_c val_u of
         Some e \<Rightarrow> Inl e
       | None \<Rightarrow>
           (if val_u = 0x01 then field_uint r (\<lambda>n r. lb_loop (val_u + 1) (q\<lparr>lb_get := n\<rparr>) r)
            else if val_u = 0x02 then field_bytes r (\<lambda>b r. lb_loop (val_u + 1) (q\<lparr>lb_set := Some b\<rparr>) r)
            else if val_u = 0x03 then field_uint r (\<lambda>n r. lb_loop (val_u + 1) (q\<lparr>lb_offset := n\<rparr>) r)
            else if val_u = 0x04 then field_uint r (\<lambda>n r. lb_loop (val_u + 1) (q\<lparr>lb_length := n\<rparr>) r)
            else if val_u = 0x05 then field_bytes r (\<lambda>b r. lb_loop (val_u + 1) (q\<lparr>lb_param := Some b\<rparr>) r)
            else if val_u = 0x06 then field_uint r (\<lambda>n r. lb_loop (val_u + 1) (q\<lparr>lb_protocol := n\<rparr>) r)
            else lb_loop (val_u + 1) q r))"

definition ef_largeblob :: "fs \<Rightarrow> file_ref option" where "ef_largeblob fs = search_ef fs EF_LARGEBLOB"

definition lb_read :: "lb_req \<Rightarrow> ctap \<Rightarrow> ctap_reply" where
  "lb_read q st =
     (if lb_length q \<noteq> 0 then fail CTAP1_ERR_INVALID_PARAMETER st
      else do {
        size \<leftarrow> file_get_size (cfs st) (ef_largeblob (cfs st));
        if lb_offset q > of_nat size then fail CTAP1_ERR_INVALID_PARAMETER st
        else do {
          d \<leftarrow> (if size = 0 then Some [] else file_bytes (cfs st) (ef_largeblob (cfs st)));
          s \<leftarrow> rd_slice d (unat (lb_offset q)) (min (unat (lb_get q)) (size - unat (lb_offset q)));
          answer (CMap [CUint 1, CBytes s]) st
        }
      })"

text \<open>The bytes that the fragment is authenticated with; only four bytes of the offset enter.\<close>

definition lb_verify_data :: "ctap_env \<Rightarrow> u64 \<Rightarrow> bytes \<Rightarrow> bytes" where
  "lb_verify_data env off frag =
     replicate 32 0xff @ [0x0C, 0, ucast off, ucast (drop_bit 8 off), ucast (drop_bit 16 off), ucast (drop_bit 24 off)] @
     sha256 (lib env) frag"

text \<open>A complete blob: its last 16 bytes are the beginning of its hash, unless it has 17 bytes.\<close>

definition lb_commit :: "ctap_env \<Rightarrow> ctap \<Rightarrow> ctap_reply" where
  "lb_commit env st = do {
     let n = unat (expectedLength st);
     body \<leftarrow> rd_slice (temp_lba st) 0 (n - 16);
     sum \<leftarrow> rd_slice (temp_lba st) (n - 16) 16;
     if n > 17 \<and> take 16 (sha256 (lib env) body) \<noteq> sum then fail CTAP2_ERR_INTEGRITY_FAILURE st
     else do {
       blob \<leftarrow> rd_slice (temp_lba st) 0 n;
       (_, fs) \<leftarrow> write_file (cfs st) (ef_largeblob (cfs st)) blob;
       fine (st\<lparr>cfs := fs\<rparr>)
     }
   }"

definition lb_store :: "ctap_env \<Rightarrow> lb_req \<Rightarrow> bytes \<Rightarrow> ctap \<Rightarrow> ctap_reply" where
  "lb_store env q frag st =
     (if lb_offset q + of_nat (length frag) > expectedLength st then fail CTAP1_ERR_INVALID_PARAMETER st
      else do {
        let lba = (if lb_offset q = 0 then replicate MAX_LARGE_BLOB_SIZE 0 else temp_lba st);
        lba \<leftarrow> wr_slice lba (unat (expectedNextOffset st)) frag;
        let st = st\<lparr>temp_lba := lba, expectedNextOffset := expectedNextOffset st + of_nat (length frag)\<rparr>;
        if expectedNextOffset st = expectedLength st then lb_commit env st else fine st
      })"

definition lb_authorised :: "ctap_env \<Rightarrow> lb_req \<Rightarrow> bytes \<Rightarrow> ctap \<Rightarrow> ctap_reply" where
  "lb_authorised env q frag st =
     (if lb_offset q \<noteq> expectedNextOffset st then fail CTAP1_ERR_INVALID_SEQ st
      else case lb_param q of
        None \<Rightarrow> fail CTAP2_ERR_PUAT_REQUIRED st
      | Some param \<Rightarrow>
          if lb_protocol q = 0 then fail CTAP2_ERR_MISSING_PARAMETER st
          else do {
            v \<leftarrow> verify env (ucast (lb_protocol q)) (token (paut st)) (lb_verify_data env (lb_offset q) frag) param;
            if \<not> v then fail CTAP2_ERR_PIN_AUTH_INVALID st
            else if permissions (paut st) AND CTAP_PERMISSION_LBW = 0 then fail CTAP2_ERR_PIN_AUTH_INVALID st
            else lb_store env q frag st
          })"

definition lb_write :: "ctap_env \<Rightarrow> lb_req \<Rightarrow> bytes \<Rightarrow> ctap \<Rightarrow> ctap_reply" where
  "lb_write env q frag st =
     (if length frag > MAX_FRAGMENT_LENGTH then fail CTAP1_ERR_INVALID_LEN st
      else if lb_offset q = 0 then
        (if lb_length q = 0 then fail CTAP1_ERR_INVALID_PARAMETER st
         else if lb_length q > of_nat MAX_LARGE_BLOB_SIZE then fail CTAP2_ERR_LARGE_BLOB_STORAGE_FULL st
         else if lb_length q < 17 then fail CTAP1_ERR_INVALID_PARAMETER st
         else lb_authorised env q frag (st\<lparr>expectedLength := lb_length q, expectedNextOffset := 0\<rparr>))
      else if lb_length q \<noteq> 0 then fail CTAP1_ERR_INVALID_PARAMETER st
      else lb_authorised env q frag st)"

definition large_blobs :: "ctap_env \<Rightarrow> lb_req \<Rightarrow> ctap \<Rightarrow> ctap_reply" where
  "large_blobs env q st =
     (if lb_offset q = - 1 then fail CTAP1_ERR_INVALID_PARAMETER st
      else case lb_set q of
        None \<Rightarrow> if lb_get q = 0 then fail CTAP1_ERR_INVALID_PARAMETER st else lb_read q st
      | Some frag \<Rightarrow> if lb_get q \<noteq> 0 then fail CTAP1_ERR_INVALID_PARAMETER st else lb_write env q frag st)"

text \<open>Every error leaves the handler as \<^verbatim>\<open>-CTAP2_ERR_INVALID_CBOR\<close>.\<close>

definition lb_result :: "ctap_reply \<Rightarrow> ctap_reply" where
  "lb_result r = do {
     (e, v, st) \<leftarrow> r;
     Some (if e \<noteq> 0 then (- CTAP2_ERR_INVALID_CBOR, None, st) else (0, v, st))
   }"

definition cbor_large_blobs :: "ctap_env \<Rightarrow> cbor \<Rightarrow> ctap \<Rightarrow> ctap_reply" where
  "cbor_large_blobs env request st =
     lb_result (case cbor_next [request] (\<lambda>items. parse_map items (lb_loop 1 no_lb_req) (\<lambda>q _. Inr q)) of
        Inl e \<Rightarrow> fail (cerr_code e) st
      | Inr q \<Rightarrow> large_blobs env q st)"

end
