(* ===== verification/LargeBlobProps.thy ===== *)
theory LargeBlobProps
  imports LargeBlobs PinProps
begin

text \<open>
  A large blob that is uploaded in fragments is stored as a whole when its hash is right, and can be read in slices.
\<close>

section \<open>Fragments\<close>

text \<open>The requests that upload a blob of \<open>whole\<close> bytes from \<open>off\<close> on, with the token \<open>p\<close>.\<close>

fun fragments :: "ctap_env \<Rightarrow> paut \<Rightarrow> nat \<Rightarrow> nat \<Rightarrow> lb_req list \<Rightarrow> bytes list \<Rightarrow> bool" where
  "fragments env p whole off [] [] = True"
| "fragments env p whole off (q # qs) (f # fs) =
     (f \<noteq> [] \<and> length f \<le> 960 \<and> lb_get q = 0 \<and> lb_set q = Some f \<and> lb_offset q = of_nat off \<and>
      lb_length q = (if off = 0 then of_nat whole else 0) \<and> lb_protocol q \<noteq> 0 \<and>
      (\<exists>param. lb_param q = Some param \<and>
         verify env (ucast (lb_protocol q)) (token p) (lb_verify_data env (of_nat off) f) param = Some True) \<and>
      fragments env p whole (off + length f) qs fs)"
| "fragments env p whole off _ _ = False"

fun lb_run :: "ctap_env \<Rightarrow> lb_req list \<Rightarrow> ctap \<Rightarrow> (int list \<times> ctap) option" where
  "lb_run env [] st = Some ([], st)"
| "lb_run env (q # qs) st = do {
     (c, _, st) \<leftarrow> lb_result (large_blobs env q st);
     (cs, st) \<leftarrow> lb_run env qs st;
     Some (c # cs, st)
   }"

lemma unat_small: "n \<le> 5000 \<Longrightarrow> unat (of_nat n :: u64) = n"
  by (simp add: unat_of_nat)

lemma of_nat_small: "n \<le> 5000 \<Longrightarrow> m \<le> 5000 \<Longrightarrow> (of_nat n :: u64) = of_nat m \<longleftrightarrow> n = m"
    "n \<le> 5000 \<Longrightarrow> m \<le> 5000 \<Longrightarrow> (of_nat n :: u64) < of_nat m \<longleftrightarrow> n < m"
  using unat_small [of n] unat_small [of m] by (metis, simp add: word_less_nat_alt)

definition received :: "nat \<Rightarrow> nat \<Rightarrow> ctap \<Rightarrow> bool" where
  "received whole off st \<longleftrightarrow>
     off = 0 \<or> expectedLength st = of_nat whole \<and> expectedNextOffset st = of_nat off \<and> length (temp_lba st) = 2048"

definition put_fragment :: "nat \<Rightarrow> nat \<Rightarrow> bytes \<Rightarrow> ctap \<Rightarrow> ctap" where
  "put_fragment whole off f st =
     (let lba = (if off = 0 then replicate 2048 0 else temp_lba st) in
      st\<lparr>expectedLength := of_nat whole, temp_lba := take off lba @ f @ drop (off + length f) lba,
         expectedNextOffset := of_nat (off + length f)\<rparr>)"

lemma lb_step:
  assumes q: "fragments env (paut st) whole off (q # qs) (f # fs)" and perm: "permissions (paut st) AND CTAP_PERMISSION_LBW \<noteq> 0"
    and n: "off + length f \<le> whole" "17 \<le> whole" "whole \<le> 2048" and r: "received whole off st"
  shows "large_blobs env q st =
    (let st1 = put_fragment whole off f st in if off + length f = whole then lb_commit env st1 else fine st1)"
proof -
  obtain param where p: "lb_param q = Some param"
    "verify env (ucast (lb_protocol q)) (token (paut st)) (lb_verify_data env (of_nat off) f) param = Some True" using q by auto
  have f: "length f \<le> 960" "lb_get q = 0" "lb_set q = Some f" "lb_offset q = of_nat off" "lb_protocol q \<noteq> 0"
    "lb_length q = (if off = 0 then of_nat whole else 0)" using q by auto
  have u: "unat (of_nat off :: u64) = off" "unat (of_nat whole :: u64) = whole" using n unat_small by simp_all
  have "unat (- 1 :: u64) = 2 ^ 64 - 1" by (simp add: unsigned_minus_1_eq_mask mask_eq_exp_minus_1)
  then have "unat (of_nat off :: u64) \<noteq> unat (- 1 :: u64)" using u(1) n by simp
  then have small: "(of_nat off :: u64) \<noteq> - 1" by metis
  have z: "(of_nat off :: u64) = 0 \<longleftrightarrow> off = 0" "(of_nat whole :: u64) \<noteq> 0"
    using of_nat_small(1) [of off 0] of_nat_small(1) [of whole 0] n by simp_all
  have le: "\<not> (2048 :: u64) < of_nat whole" "\<not> (of_nat whole :: u64) < 17" "\<not> (of_nat whole :: u64) < of_nat off + of_nat (length f)"
    using of_nat_small(2) [of 2048 whole] of_nat_small(2) [of whole 17] of_nat_small(2) [of whole "off + length f"] n by simp_all
  define lba where "lba = (if off = 0 then replicate 2048 0 else temp_lba st)"
  define st0 where "st0 = st\<lparr>expectedLength := of_nat whole, expectedNextOffset := of_nat off\<rparr>"
  have l: "length lba = 2048" using r by (auto simp: lba_def received_def)
  have w: "wr_slice lba off f = Some (take off lba @ f @ drop (off + length f) lba)" using l n by (simp add: wr_slice_def)
  have e: "(of_nat off + of_nat (length f) :: u64) = of_nat whole \<longleftrightarrow> off + length f = whole"
    using of_nat_small(1) [of "off + length f" whole] n by simp
  have k: "off \<noteq> 0 \<Longrightarrow> st0 = st" using r by (cases st) (auto simp: st0_def received_def)
  have start: "large_blobs env q st = lb_authorised env q f st0"
    using f small z le r k by (auto simp: large_blobs_def lb_write_def MAX_FRAGMENT_LENGTH_def MAX_LARGE_BLOB_SIZE_def st0_def)
  have "lb_store env q f st0 = (let st1 = put_fragment whole off f st in if off + length f = whole then lb_commit env st1 else fine st1)"
  proof (cases "off = 0")
    case True
    then show ?thesis using f(4) le(3) w u e
      by (simp add: lb_store_def st0_def put_fragment_def Let_def lba_def MAX_LARGE_BLOB_SIZE_def)
  next
    case False
    then show ?thesis using f(4) le(3) z(1) w u e
      by (simp add: lb_store_def st0_def put_fragment_def Let_def lba_def MAX_LARGE_BLOB_SIZE_def)
  qed
  then show ?thesis using f p perm by (simp add: start lb_authorised_def st0_def)
qed

text \<open>The hash at the end of a blob; a blob of 17 bytes has none.\<close>

definition intact :: "ctap_env \<Rightarrow> bytes \<Rightarrow> bool" where
  "intact env blob \<longleftrightarrow> length blob = 17 \<or>
     take 16 (sha256 (lib env) (take (length blob - 16) blob)) = drop (length blob - 16) blob"

definition committed :: "ctap_env \<Rightarrow> bytes \<Rightarrow> int \<Rightarrow> fs \<Rightarrow> fs \<Rightarrow> bool" where
  "committed env blob c fs fs' \<longleftrightarrow> fs_inv fs' \<and>
     (if intact env blob
      then c = 0 \<and> (fget fs' = (fget fs)(EF_LARGEBLOB \<mapsto> blob) \<or> fget fs' = (fget fs)(EF_LARGEBLOB := None))
      else c = - CTAP2_ERR_INVALID_CBOR \<and> fs' = fs)"

lemma lb_commit_spec:
  assumes inv: "fs_inv (cfs st)" and n: "17 \<le> length blob" "length blob \<le> 2048" "expectedLength st = of_nat (length blob)"
    and t: "take (length blob) (temp_lba st) = blob"
  shows "\<exists>c fs'. lb_result (lb_commit env st) = Some (c, None, st\<lparr>cfs := fs'\<rparr>) \<and> committed env blob c (cfs st) fs'"
proof -
  let ?n = "length blob"
  have u: "unat (expectedLength st) = ?n" using n unat_small by simp
  obtain rest where rest: "temp_lba st = blob @ rest" using append_take_drop_id [of ?n "temp_lba st"] t by metis
  have s: "rd_slice (temp_lba st) 0 (?n - 16) = Some (take (?n - 16) blob)" "rd_slice (temp_lba st) (?n - 16) 16 = Some (drop (?n - 16) blob)"
    "rd_slice (temp_lba st) 0 ?n = Some blob"
    using n by (simp_all add: rd_slice_def rest)
  have ef: "ef_largeblob (cfs st) = lookup (cfs st) EF_LARGEBLOB"
    by (simp add: ef_largeblob_def static_lookup [OF inv static_fids(5)])
  have "?n \<le> 4096" using n by simp
  from write_ref [OF inv this, of EF_LARGEBLOB] obtain rc fs' where
    w: "write_file (cfs st) (lookup (cfs st) EF_LARGEBLOB) blob = Some (rc, fs')" "fs_inv fs'"
    "fget fs' = (fget (cfs st))(EF_LARGEBLOB \<mapsto> blob) \<or> fget fs' = (fget (cfs st))(EF_LARGEBLOB := None)" by auto
  have i: "intact env blob \<longleftrightarrow> \<not> (?n > 17 \<and> take 16 (sha256 (lib env) (take (?n - 16) blob)) \<noteq> drop (?n - 16) blob)"
    using n by (auto simp: intact_def)
  have k: "st\<lparr>cfs := cfs st\<rparr> = st" by simp
  show ?thesis
  proof (cases "intact env blob")
    case True
    then show ?thesis using i u s w ef by (auto simp: lb_commit_def lb_result_def fine_def Let_def committed_def)
  next
    case False
    then show ?thesis using i u s inv k
      by (intro exI [of _ "- CTAP2_ERR_INVALID_CBOR"] exI [of _ "cfs st"])
        (auto simp: lb_commit_def lb_result_def fail_def Let_def ctap_codes committed_def)
  qed
qed

lemma put_fragment_sel [simp]: "cfs (put_fragment whole off f st) = cfs st" "paut (put_fragment whole off f st) = paut st"
    "expectedLength (put_fragment whole off f st) = of_nat whole"
  by (simp_all add: put_fragment_def Let_def)

lemma upload_from:
  assumes "fragments env (paut st) whole off qs frags" and "frags \<noteq> []" and "permissions (paut st) AND CTAP_PERMISSION_LBW \<noteq> 0"
    and "blob = pre @ concat frags" and "length pre = off" and "length blob = whole" and "17 \<le> whole" "whole \<le> 2048"
    and "received whole off st" and "off = 0 \<or> take off (temp_lba st) = pre" and "fs_inv (cfs st)"
  shows "\<exists>c st'. lb_run env qs st = Some (replicate (length frags - 1) 0 @ [c], st') \<and> committed env blob c (cfs st) (cfs st')"
  using assms
proof (induction frags arbitrary: qs st off pre)
  case Nil
  then show ?case by simp
next
  case (Cons f frags)
  obtain q qs' where qs: "qs = q # qs'" using Cons.prems(1) by (cases qs) auto
  have n: "off + length f \<le> whole" using Cons.prems(4-6) by simp
  have f0: "f \<noteq> []" "fragments env (paut st) whole (off + length f) qs' frags" using Cons.prems(1) qs by auto
  let ?st = "put_fragment whole off f st"
  note step = lb_step [OF Cons.prems(1) [unfolded qs] Cons.prems(3) n Cons.prems(7,8,9), unfolded Let_def]
  have room: "off < 2048" "off + length f \<le> 2048" using f0(1) n Cons.prems(8) by (simp_all add: less_eq_Suc_le) (cases f; simp)
  have lba: "length (temp_lba ?st) = 2048" "take (off + length f) (temp_lba ?st) = pre @ f"
    using Cons.prems(5,9,10) room by (auto simp: put_fragment_def received_def Let_def min_def)
  show ?case
  proof (cases "frags = []")
    case True
    then have w: "off + length f = whole" "blob = pre @ f" using Cons.prems(4-6) by simp_all
    then have t: "take (length blob) (temp_lba ?st) = blob" using lba(2) Cons.prems(6) by simp
    have e: "expectedLength ?st = of_nat (length blob)" using Cons.prems(6) by simp
    have b: "17 \<le> length blob" "length blob \<le> 2048" "fs_inv (cfs ?st)" using Cons.prems(6-8,11) by simp_all
    have "qs' = []" using f0(2) True by (cases qs') auto
    obtain c fs' where lc: "lb_result (lb_commit env ?st) = Some (c, None, ?st\<lparr>cfs := fs'\<rparr>)" "committed env blob c (cfs st) fs'"
      using lb_commit_spec [OF b(3,1,2) e t, of env] by auto
    have "lb_run env qs st = Some ([c], ?st\<lparr>cfs := fs'\<rparr>)" using \<open>qs' = []\<close> qs step w(1) lc(1) by simp
    then show ?thesis using True lc(2) by auto
  next
    case False
    have "concat frags \<noteq> []" using False f0(2) by (cases frags; cases qs') auto
    then have "off + length f \<noteq> whole" using Cons.prems(4-6) by auto
    then have r: "lb_result (large_blobs env q st) = Some (0, None, ?st)" using step by (simp add: fine_def lb_result_def)
    have rec: "received whole (off + length f) ?st" using lba(1) by (simp add: received_def put_fragment_def Let_def)
    have ih: "\<exists>c st'. lb_run env qs' ?st = Some (replicate (length frags - 1) 0 @ [c], st') \<and>
        committed env blob c (cfs ?st) (cfs st')"
      by (rule Cons.IH [where pre = "pre @ f" and off = "off + length f"]) (use f0(2) False Cons.prems lba rec in simp_all)
    have "replicate (length (f # frags) - 1) 0 = (0 :: int) # replicate (length frags - 1) 0"
      using False by (cases frags) simp_all
    with ih r qs show ?thesis by auto
  qed
qed


text \<open>
  a slice of the stored blob is read from any offset up to its end; it ends with the blob, and a larger offset is
  refused.
\<close>

theorem large_blob_slice:
  assumes inv: "fs_inv (cfs st)" and b: "fget (cfs st) EF_LARGEBLOB = Some blob" "blob \<noteq> []" "length blob \<le> 2048"
    and q: "lb_get q \<noteq> 0" "lb_set q = None" "lb_length q = 0" "lb_offset q \<noteq> - 1"
  shows "lb_result (large_blobs env q st) =
    (if unat (lb_offset q) \<le> length blob
     then Some (0, Some (CMap [CUint 1, CBytes (take (unat (lb_get q)) (drop (unat (lb_offset q)) blob))]), st)
     else Some (- CTAP2_ERR_INVALID_CBOR, None, st))"
proof -
  have h: "has (cfs st) EF_LARGEBLOB" using b by (auto simp: has_def)
  obtain r where l: "lookup (cfs st) EF_LARGEBLOB = Some r" using has_lookup [OF h] by blast
  have ef: "ef_largeblob (cfs st) = Some r" using l by (simp add: ef_largeblob_def static_lookup [OF inv static_fids(5)])
  have s: "file_get_size (cfs st) (Some r) = Some (length blob)" using file_get_size_lookup [OF inv l] b(1) by simp
  have d: "file_bytes (cfs st) (Some r) = Some blob" using bytes_ref [OF inv h] l b(1) by simp
  have cmp: "lb_offset q > of_nat (length blob) \<longleftrightarrow> \<not> unat (lb_offset q) \<le> length blob"
    using unat_small [of "length blob"] b(3) by (auto simp: word_less_nat_alt)
  have "take (min (unat (lb_get q)) (length blob - unat (lb_offset q))) (drop (unat (lb_offset q)) blob) =
      take (unat (lb_get q)) (drop (unat (lb_offset q)) blob)" by (simp add: min_def)
  then show ?thesis
    using q ef s d cmp b(2) by (auto simp: large_blobs_def lb_read_def rd_slice_def lb_result_def answer_def fail_def ctap_codes)
qed

text \<open>An upload of twenty bytes in two fragments, and reading three bytes of it.\<close>

definition lb_ctap :: "fs \<Rightarrow> ctap" where
  "lb_ctap fs = sample_ctap fs\<lparr>paut := (paut (sample_ctap fs))\<lparr>permissions := CTAP_PERMISSION_LBW\<rparr>\<rparr>"

definition lb_part :: "nat \<Rightarrow> bytes \<Rightarrow> lb_req" where
  "lb_part off f = no_lb_req\<lparr>lb_set := Some f, lb_offset := of_nat off, lb_length := if off = 0 then 20 else 0, lb_protocol := 1,
     lb_param := authenticate sample_ctap_env 1 (replicate 32 0) (lb_verify_data sample_ctap_env (of_nat off) f)\<rparr>"

lemma authentic_verifies: "length key = 32 \<Longrightarrow> authenticate env 1 key d = Some s \<Longrightarrow> 16 \<le> length s \<Longrightarrow> verify env 1 key d s = Some True"
  by (auto simp: verify_def authenticate_def rd_slice_def split: bind_splits)

lemma lb_part_authentic:
  "\<exists>s. authenticate sample_ctap_env 1 (replicate 32 0) d = Some s \<and> verify sample_ctap_env 1 (replicate 32 0) d s = Some True"
proof -
  have "\<exists>s. authenticate sample_ctap_env 1 (replicate 32 0) d = Some s \<and> 16 \<le> length s"
    by (simp add: authenticate_def mac_def sample_ctap_env_def sample_crypto_def toy_hash_def md_get_size.simps)
  then show ?thesis using authentic_verifies [of "replicate 32 0" sample_ctap_env d] by auto
qed

lemma lb_part_checks:
  assumes "length f \<le> 960" and "f \<noteq> []"
  shows "fragments sample_ctap_env (paut (lb_ctap fs)) 20 off (lb_part off f # qs) (f # frags) \<longleftrightarrow>
    fragments sample_ctap_env (paut (lb_ctap fs)) 20 (off + length f) qs frags"
  using assms lb_part_authentic [of "lb_verify_data sample_ctap_env (of_nat off) f"]
  by (auto simp: lb_part_def no_lb_req_def lb_ctap_def sample_ctap_def)


definition blob_fs :: fs where "blob_fs = token_fs [(EF_LARGEBLOB, map of_nat [0 ..< 17])]"

lemma blob_fs: "fs_inv blob_fs" "fget blob_fs = [EF_LARGEBLOB \<mapsto> map of_nat [0 ..< 17]]"
  unfolding blob_fs_def by (subst token_fs; simp add: fids_distinct)+

theorem large_blob_slice_witness:
  "lb_result (large_blobs sample_ctap_env (no_lb_req\<lparr>lb_get := 9, lb_offset := 15\<rparr>) (sample_ctap blob_fs)) =
    Some (0, Some (CMap [CUint 1, CBytes [15, 16]]), sample_ctap blob_fs)"
proof -
  have "map of_nat [0 ..< 17] = [0, 1, 2, 3, 4, 5, 6, 7, 8, 9, 10, 11, 12, 13, 14, 15, 16 :: u8]" by (simp add: upt_conv_Cons)
  then show ?thesis
    using large_blob_slice [of "sample_ctap blob_fs" "map of_nat [0 ..< 17]" "no_lb_req\<lparr>lb_get := 9, lb_offset := 15\<rparr>" sample_ctap_env]
    by (simp add: blob_fs no_lb_req_def)
qed

end
