(* ===== verification/DeviceKey.thy ===== *)
theory DeviceKey
  imports Ctap
begin

text \<open>
  The device key and the keys that are derived from it, \<^verbatim>\<open>src/fido/fido.c\<close>, and the files that a token
  starts with.  A private key that is passed as \<^verbatim>\<open>mbedtls_ecdsa_context\<close> is its curve and its secret.
\<close>

definition MBEDTLS_ERR_ECP_INVALID_KEY :: int where "MBEDTLS_ERR_ECP_INVALID_KEY = - 0x4C80"
definition MBEDTLS_ERR_MD_BAD_INPUT_DATA :: int where "MBEDTLS_ERR_MD_BAD_INPUT_DATA = - 0x5100"
definition CTAP2_ERR_UNSUPPORTED_ALGORITHM :: int where "CTAP2_ERR_UNSUPPORTED_ALGORITHM = 0x26"
definition KEY_PATH_LEN :: nat where "KEY_PATH_LEN = 32"
definition KEY_PATH_ENTRIES :: nat where "KEY_PATH_ENTRIES = 8"
definition KEY_HANDLE_LEN :: nat where "KEY_HANDLE_LEN = 64"

lemmas handle_sizes = KEY_PATH_LEN_def KEY_PATH_ENTRIES_def KEY_HANDLE_LEN_def

section \<open>Curves\<close>

definition fido_curve_to_mbedtls :: "int \<Rightarrow> ecp_group" where
  "fido_curve_to_mbedtls curve =
     (if curve = 1 then SECP256R1
      else if curve = 2 then SECP384R1
      else if curve = 3 then SECP521R1
      else if curve = 8 then SECP256K1
      else if curve = 4 then CURVE25519
      else if curve = 5 then CURVE448
      else ECP_NONE)"

text \<open>For Curve25519 it is the number that mbedtls gives to the curve.\<close>

definition mbedtls_curve_to_fido :: "ecp_group \<Rightarrow> int" where
  "mbedtls_curve_to_fido g =
     (if g = SECP256R1 then 1
      else if g = SECP384R1 then 2
      else if g = SECP521R1 then 3
      else if g = SECP256K1 then 8
      else if g = CURVE25519 then 9
      else if g = CURVE448 then 5
      else 0)"

text \<open>\<^verbatim>\<open>bit_size\<close> in the table of mbedtls.\<close>

fun curve_bits :: "ecp_group \<Rightarrow> nat option" where
  "curve_bits SECP256R1 = Some 256"
| "curve_bits SECP384R1 = Some 384"
| "curve_bits SECP521R1 = Some 521"
| "curve_bits SECP256K1 = Some 256"
| "curve_bits CURVE25519 = Some 256"
| "curve_bits CURVE448 = Some 448"
| "curve_bits ECP_NONE = None"

section \<open>Deriving keys\<close>

text \<open>The device key at the beginning of the buffer \<open>key\<close>; a file that does not fit it is undefined.\<close>

definition load_keydev :: "ctap \<Rightarrow> bytes \<Rightarrow> (int \<times> bytes) option" where
  "load_keydev st key =
     (case keydev_dec st of
        Some k \<Rightarrow> do { key \<leftarrow> wr_slice key 0 k; Some (CCID_OK, key) }
      | None \<Rightarrow> do {
          let ef = search_ef (cfs st) EF_KEY_DEV;
          h \<leftarrow> file_has_data (cfs st) ef;
          if \<not> h then Some (CCID_ERR_MEMORY_FATAL, key)
          else do {
            d \<leftarrow> file_bytes (cfs st) ef;
            key \<leftarrow> wr_slice key 0 d;
            Some (CCID_OK, key)
          }
        })"

text \<open>A word of a path with its top bit set.\<close>

definition hardened :: "bytes \<Rightarrow> bytes" where
  "hardened w = le_bytes 4 (unat ((of_nat (le_val w) :: u32) OR 0x80000000))"

text \<open>The loop over the words of the path: the handle, the key material and the state.\<close>

fun derive_path :: "ctap_env \<Rightarrow> bool \<Rightarrow> nat list \<Rightarrow> bytes \<Rightarrow> bytes \<Rightarrow> ctap \<Rightarrow> (bytes \<times> bytes \<times> ctap) option" where
  "derive_path env new_key [] key_handle outk st = Some (key_handle, outk, st)"
| "derive_path env new_key (i # is) key_handle outk st = do {
     let (val, st) = (if new_key then draw env 4 st else ([], st));
     key_handle \<leftarrow> (if new_key then wr_slice key_handle (4 * i) (hardened val) else Some key_handle);
     salt \<leftarrow> rd_slice key_handle (4 * i) 4;
     derive_path env new_key is key_handle (path_step env salt outk) st
   }"

text \<open>The private key of a curve from the key material.\<close>

definition curve_key :: "ctap_env \<Rightarrow> ecp_group \<Rightarrow> bytes \<Rightarrow> (int \<times> ec_key option) option" where
  "curve_key env curve outk =
     (case curve_bits curve of
        None \<Rightarrow> Some (1, None)
      | Some n \<Rightarrow> do {
          let outk = (if n mod 8 \<noteq> 0 then outk[0 := drop_bit (8 - n mod 8) (outk ! 0)] else outk);
          k \<leftarrow> rd_slice outk 0 ((n + 7) div 8);
          (case read_key env curve k of
             None \<Rightarrow> Some (MBEDTLS_ERR_ECP_INVALID_KEY, None)
           | Some d \<Rightarrow> Some (0, Some (curve, d)))
        })"

text \<open>The code of the handle: a hash of the application and the path, with the derived key.\<close>

definition seal_handle :: "ctap_env \<Rightarrow> bytes \<Rightarrow> bytes \<Rightarrow> bytes \<Rightarrow> (int \<times> bytes) option" where
  "seal_handle env app_id key_handle outk = do {
     a \<leftarrow> rd_slice app_id 0 32;
     p \<leftarrow> rd_slice key_handle 0 KEY_PATH_LEN;
     (case md_hmac (lib env) MD_SHA256 (take 32 outk) (a @ p) of
        None \<Rightarrow> Some (MBEDTLS_ERR_MD_BAD_INPUT_DATA, key_handle)
      | Some h \<Rightarrow> do { key_handle \<leftarrow> wr_slice key_handle 32 h; Some (0, key_handle) })
   }"

text \<open>The result, the handle, the key when one is asked for, and the state.\<close>

definition derive_key :: "ctap_env \<Rightarrow> bytes \<Rightarrow> bool \<Rightarrow> bytes \<Rightarrow> ecp_group \<Rightarrow> bool \<Rightarrow> ctap \<Rightarrow>
    (int \<times> bytes \<times> ec_key option \<times> ctap) option" where
  "derive_key env app_id new_key key_handle curve key st = do {
     (r, outk) \<leftarrow> load_keydev st (replicate 67 0);
     if r \<noteq> CCID_OK then Some (r, key_handle, None, st)
     else do {
       (key_handle, outk, st) \<leftarrow> derive_path env new_key [0 ..< KEY_PATH_ENTRIES] key_handle outk st;
       (r, key_handle) \<leftarrow> (if new_key then seal_handle env app_id key_handle outk else Some (0, key_handle));
       if r \<noteq> 0 then Some (r, key_handle, None, st)
       else if \<not> key then Some (0, key_handle, None, st)
       else do {
         (r, k) \<leftarrow> curve_key env curve outk;
         Some (r, key_handle, k, st)
       }
     }
   }"

definition fido_load_key :: "ctap_env \<Rightarrow> int \<Rightarrow> bytes \<Rightarrow> ctap \<Rightarrow> (int \<times> ec_key option) option" where
  "fido_load_key env curve cred_id st =
     (if fido_curve_to_mbedtls curve = ECP_NONE then Some (CTAP2_ERR_UNSUPPORTED_ALGORITHM, None)
      else do {
        p \<leftarrow> rd_slice cred_id 0 KEY_PATH_LEN;
        let key_path = concat (le_bytes 4 (unat (0x80000000 OR 10022 :: u32)) #
          map (\<lambda>i. hardened (take 4 (drop (4 * i) p))) [1 ..< KEY_PATH_ENTRIES]);
        (r, _, k, _) \<leftarrow> derive_key env [] False key_path (fido_curve_to_mbedtls curve) True st;
        Some (r, k)
      })"

text \<open>
  \<open>key\<close> is \<open>None\<close> for NULL.  The result of \<^verbatim>\<open>memcmp\<close> is 0 or 1.
\<close>

definition verify_key :: "ctap_env \<Rightarrow> bytes \<Rightarrow> bytes \<Rightarrow> ec_key option \<Rightarrow> ctap \<Rightarrow> int option" where
  "verify_key env appId keyHandle key st = do {
     p \<leftarrow> rd_slice keyHandle 0 KEY_PATH_LEN;
     if \<not> (\<forall>i \<in> set [0 ..< KEY_PATH_ENTRIES]. (of_nat (le_val (take 4 (drop (4 * i) p))) :: u32) AND 0x80000000 \<noteq> 0) then Some (- 1)
     else do {
       (r, key) \<leftarrow> (case key of
          Some k \<Rightarrow> Some (0, Some k)
        | None \<Rightarrow> do { (r, _, k, _) \<leftarrow> derive_key env appId False keyHandle SECP256R1 True st; Some (r, k) });
       if r \<noteq> 0 then Some (- 3)
       else do {
         k \<leftarrow> key;
         (case write_key env k 32 of
            None \<Rightarrow> Some (- 2)
          | Some d \<Rightarrow> do {
              a \<leftarrow> rd_slice appId 0 32;
              hmac \<leftarrow> md_hmac (lib env) MD_SHA256 d (a @ p);
              m \<leftarrow> rd_slice keyHandle KEY_PATH_LEN 32;
              Some (if m = hmac then 0 else 1)
            })
       }
     }
   }"

section \<open>The files of a new token\<close>

text \<open>A step of \<^verbatim>\<open>scan_files\<close>: the code with which the function returns there, if it does.\<close>

type_synonym scan_step = "(int option \<times> ctap) option"

definition then_scan :: "scan_step \<Rightarrow> (ctap \<Rightarrow> scan_step) \<Rightarrow> scan_step" where
  "then_scan s k = do { (r, st) \<leftarrow> s; case r of None \<Rightarrow> k st | Some e \<Rightarrow> Some (Some e, st) }"

text \<open>A file that is written when it is empty.\<close>

definition fill_file :: "u16 \<Rightarrow> bytes \<Rightarrow> ctap \<Rightarrow> (int \<times> ctap) option" where
  "fill_file fi bs st = do {
     (r, fs) \<leftarrow> write_file (cfs st) (search_ef (cfs st) fi) bs;
     Some (r, st\<lparr>cfs := fs\<rparr>)
   }"

definition is_empty :: "u16 \<Rightarrow> ctap \<Rightarrow> bool option" where
  "is_empty fi st = map_option Not (file_has_data (cfs st) (search_ef (cfs st) fi))"

text \<open>The private key is written without its leading zeros.\<close>

definition scan_keydev :: "ctap_env \<Rightarrow> ctap \<Rightarrow> scan_step" where
  "scan_keydev env st = do {
     e1 \<leftarrow> is_empty EF_KEY_DEV st;
     e2 \<leftarrow> is_empty EF_KEY_DEV_ENC st;
     if e1 \<and> e2 then do {
       let (d, st) = draw env 32 st;
       (ret, st) \<leftarrow> fill_file EF_KEY_DEV (dropWhile (\<lambda>b. b = 0) d) st;
       Some (if ret \<noteq> CCID_OK then Some ret else None, st)
     } else Some (None, st)
   }"

text \<open>\<open>cert d s\<close> is the certificate for the key \<open>d\<close> with the serial number \<open>s\<close>, or the error of mbedtls.\<close>

definition scan_certdev :: "ctap_env \<Rightarrow> (nat \<Rightarrow> bytes \<Rightarrow> int + bytes) \<Rightarrow> ctap \<Rightarrow> scan_step" where
  "scan_certdev env cert st = do {
     e \<leftarrow> is_empty EF_EE_DEV st;
     if \<not> e then Some (None, st)
     else do {
       k \<leftarrow> pointed (cfs st) (search_ef (cfs st) EF_KEY_DEV);
       (case read_key env SECP256R1 k of
          None \<Rightarrow> Some (Some MBEDTLS_ERR_ECP_INVALID_KEY, st)
        | Some d \<Rightarrow> do {
            let (serial, st) = draw env 20 st;
            (case cert d serial of
               Inl e \<Rightarrow> Some (Some e, st)
             | Inr c \<Rightarrow>
                 if c = [] then Some (Some 0, st)
                 else do { (_, st) \<leftarrow> fill_file EF_EE_DEV c st; Some (None, st) })
          })
     }
   }"

definition scan_counter :: "ctap \<Rightarrow> scan_step" where
  "scan_counter st = do {
     e \<leftarrow> is_empty EF_COUNTER st;
     if e then do { (_, st) \<leftarrow> fill_file EF_COUNTER [0, 0, 0, 0] st; Some (None, st) } else Some (None, st)
   }"

definition scan_token :: "ctap_env \<Rightarrow> ctap \<Rightarrow> scan_step" where
  "scan_token env st = do {
     e \<leftarrow> is_empty EF_AUTHTOKEN st;
     st \<leftarrow> (if e then do {
         let (t, st) = draw env 32 st;
         (_, st) \<leftarrow> fill_file EF_AUTHTOKEN t st;
         Some st
       } else Some st);
     d \<leftarrow> pointed (cfs st) (search_ef (cfs st) EF_AUTHTOKEN);
     Some (None, st\<lparr>paut := (paut st)\<lparr>token := d\<rparr>\<rparr>)
   }"

definition empty_large_blob :: bytes where
  "empty_large_blob = [0x80, 0x76, 0xbe, 0x8b, 0x52, 0x8d, 0x00, 0x75, 0xf7, 0xaa, 0xe9, 0x8d, 0x6f, 0xa5, 0x7a, 0x6d, 0x3c]"

definition scan_largeblob :: "ctap \<Rightarrow> scan_step" where
  "scan_largeblob st = do {
     e \<leftarrow> is_empty EF_LARGEBLOB st;
     if e then do { (_, st) \<leftarrow> fill_file EF_LARGEBLOB empty_large_blob st; Some (None, st) } else Some (None, st)
   }"

definition scan_files :: "ctap_env \<Rightarrow> (nat \<Rightarrow> bytes \<Rightarrow> int + bytes) \<Rightarrow> ctap \<Rightarrow> (int \<times> ctap) option" where
  "scan_files env cert st = do {
     (r, st) \<leftarrow> then_scan (then_scan (then_scan (then_scan (scan_keydev env st) (scan_certdev env cert)) scan_counter)
       (scan_token env)) scan_largeblob;
     Some (case r of None \<Rightarrow> CCID_OK | Some e \<Rightarrow> e, st)
   }"

end
