(* ===== verification/Cose.thy ===== *)
theory Cose
  imports DeviceKey
begin

text \<open>
  Public keys in CBOR, \<^verbatim>\<open>src/fido/cbor.c\<close>.
\<close>

definition FIDO2_ALG_ES256 :: int where "FIDO2_ALG_ES256 = - 7"
definition FIDO2_ALG_ES384 :: int where "FIDO2_ALG_ES384 = - 35"
definition FIDO2_ALG_ES512 :: int where "FIDO2_ALG_ES512 = - 36"
definition FIDO2_ALG_ES256K :: int where "FIDO2_ALG_ES256K = - 47"
definition FIDO2_ALG_ECDH_ES_HKDF_256 :: int where "FIDO2_ALG_ECDH_ES_HKDF_256 = - 25"

lemmas alg_defs = FIDO2_ALG_ES256_def FIDO2_ALG_ES384_def FIDO2_ALG_ES512_def FIDO2_ALG_ES256K_def FIDO2_ALG_ECDH_ES_HKDF_256_def

text \<open>\<^verbatim>\<open>cbor_encode_negative_int\<close> of the absolute value; 0 becomes the largest one.\<close>

definition negative_int :: "int \<Rightarrow> cbor" where "negative_int a = CNint (of_int a - 1)"

text \<open>\<open>Q\<close> are the coordinates, each as long as the prime of the curve, or the point of a Montgomery curve.\<close>

definition COSE_key_params :: "int \<Rightarrow> int \<Rightarrow> bytes \<times> bytes \<Rightarrow> cbor" where
  "COSE_key_params curve algo Q =
     (let kty = (if curve \<in> {1, 2, 3, 8} then 2 else 1) in
      CMap ([CUint 1, CUint kty, CUint 3, negative_int (- algo), negative_int 1, CUint (of_int curve), negative_int 2, CBytes (fst Q)] @
        (if kty = 2 then [negative_int 3, CBytes (snd Q)] else [])))"

definition COSE_key :: "ctap_env \<Rightarrow> ec_key \<Rightarrow> cbor" where
  "COSE_key env key =
     (let curve = mbedtls_curve_to_fido (fst key);
          algo = (if fst key = SECP256R1 then FIDO2_ALG_ES256
                 else if fst key = SECP384R1 then FIDO2_ALG_ES384
                 else if fst key = SECP521R1 then FIDO2_ALG_ES512
                 else if fst key = SECP256K1 then FIDO2_ALG_ES256K
                 else if fst key = CURVE25519 then FIDO2_ALG_ECDH_ES_HKDF_256
                 else 0)
      in COSE_key_params curve algo (key_point env key))"

text \<open>\<^verbatim>\<open>"alg"\<close>, \<^verbatim>\<open>"type"\<close>, \<^verbatim>\<open>"public-key"\<close>.\<close>

definition text_alg :: bytes where "text_alg = [0x61, 0x6c, 0x67]"
definition text_type :: bytes where "text_type = [0x74, 0x79, 0x70, 0x65]"
definition text_public_key :: bytes where "text_public_key = [0x70, 0x75, 0x62, 0x6c, 0x69, 0x63, 0x2d, 0x6b, 0x65, 0x79]"

definition COSE_public_key :: "int \<Rightarrow> cbor" where
  "COSE_public_key algo = CMap [CText text_alg, negative_int (- algo), CText text_type, CText text_public_key]"

end
