(* ===== verification/Credential.thy ===== *)
theory Credential
  imports DeviceKey
begin

text \<open>
  Credentials, \<^verbatim>\<open>src/fido/credential.c\<close>: the identifier of a credential is its encrypted description; a resident
  credential is a file with the hash of its relying party and this identifier, and each relying party has a file
  with the number of its credentials.
\<close>

definition MAX_CRED_ID_LENGTH :: nat where "MAX_CRED_ID_LENGTH = 1024"
definition MAX_CREDBLOB_LENGTH :: nat where "MAX_CREDBLOB_LENGTH = 128"
definition MAX_RESIDENT_CREDENTIALS :: nat where "MAX_RESIDENT_CREDENTIALS = 256"
definition CRED_PROTO :: bytes where "CRED_PROTO = [0xf1, 0xd0, 0x02, 0x01]"
definition MBEDTLS_ERR_CHACHAPOLY_AUTH_FAILED :: int where "MBEDTLS_ERR_CHACHAPOLY_AUTH_FAILED = - 0x56"

text \<open>\<^verbatim>\<open>CborErrorOutOfMemory\<close>.\<close>

definition cbor_out_of_memory :: int where "cbor_out_of_memory = - (2 ^ 31)"


lemmas cred_sizes = MAX_CRED_ID_LENGTH_def MAX_CREDBLOB_LENGTH_def MAX_RESIDENT_CREDENTIALS_def

section \<open>Keys for credentials\<close>

text \<open>\<^verbatim>\<open>mbedtls_md_hmac(md, outk, 32, label, ..., outk)\<close>, whose code is not tested.\<close>

definition mac_step :: "ctap_env \<Rightarrow> md \<Rightarrow> bytes \<Rightarrow> bytes \<Rightarrow> bytes" where
  "mac_step env md label outk =
     (case md_hmac (lib env) md (take 32 outk) label of None \<Rightarrow> outk | Some h \<Rightarrow> overwrite outk h)"

text \<open>\<^verbatim>\<open>"SLIP-0022"\<close>, \<^verbatim>\<open>"hmac-secret"\<close>, \<^verbatim>\<open>"Encryption key"\<close>, \<^verbatim>\<open>"largeBlobKey"\<close>.\<close>

definition slip_label :: bytes where "slip_label = [0x53, 0x4c, 0x49, 0x50, 0x2d, 0x30, 0x30, 0x32, 0x32]"
definition hmac_label :: bytes where "hmac_label = [0x68, 0x6d, 0x61, 0x63, 0x2d, 0x73, 0x65, 0x63, 0x72, 0x65, 0x74]"
definition encryption_label :: bytes where
  "encryption_label = [0x45, 0x6e, 0x63, 0x72, 0x79, 0x70, 0x74, 0x69, 0x6f, 0x6e, 0x20, 0x6b, 0x65, 0x79]"
definition large_blob_label :: bytes where
  "large_blob_label = [0x6c, 0x61, 0x72, 0x67, 0x65, 0x42, 0x6c, 0x6f, 0x62, 0x4b, 0x65, 0x79]"

text \<open>A key from the device key; without one the buffer stays zero.\<close>

definition chain_key :: "ctap_env \<Rightarrow> md \<Rightarrow> bytes list \<Rightarrow> nat \<Rightarrow> ctap \<Rightarrow> (int \<times> bytes) option" where
  "chain_key env md labels n st = do {
     (r, outk) \<leftarrow> load_keydev st (replicate n 0);
     if r \<noteq> 0 then Some (r, outk)
     else Some (0, fold (mac_step env md) labels outk)
   }"

definition credential_derive_hmac_key :: "ctap_env \<Rightarrow> bytes \<Rightarrow> ctap \<Rightarrow> (int \<times> bytes) option" where
  "credential_derive_hmac_key env cred_id st = chain_key env MD_SHA512 [slip_label, CRED_PROTO, hmac_label, cred_id] 64 st"

definition credential_derive_chacha_key :: "ctap_env \<Rightarrow> ctap \<Rightarrow> (int \<times> bytes) option" where
  "credential_derive_chacha_key env st = chain_key env MD_SHA256 [slip_label, CRED_PROTO, encryption_label] 32 st"

definition credential_derive_large_blob_key :: "ctap_env \<Rightarrow> bytes \<Rightarrow> ctap \<Rightarrow> (int \<times> bytes) option" where
  "credential_derive_large_blob_key env cred_id st = chain_key env MD_SHA256 [slip_label, CRED_PROTO, large_blob_label, cred_id] 32 st"

section \<open>Descriptions\<close>

text \<open>A \<^verbatim>\<open>const bool *\<close> is \<open>None\<close> for NULL.\<close>

record cred_options =
  rk :: "bool option"
  up :: "bool option"
  uv :: "bool option"
  opts_present :: bool

record cred_extensions =
  hmac_secret :: "bool option"
  credProtect :: u64
  minPinLength :: "bool option"
  credBlob :: "bytes option"
  largeBlobKey :: "bool option"
  thirdPartyPayment :: "bool option"
  ext_present :: bool

record credential =
  cr_rpId :: "bytes option"
  userId :: "bytes option"
  userName :: "bytes option"
  userDisplayName :: "bytes option"
  creation :: u64
  extensions :: cred_extensions
  use_sign_count :: "bool option"
  cr_alg :: int
  cr_curve :: int
  cr_id :: "bytes option"
  opts :: cred_options
  cr_present :: bool

definition no_options :: cred_options where
  "no_options = \<lparr>rk = None, up = None, uv = None, opts_present = False\<rparr>"

definition no_extensions :: cred_extensions where
  "no_extensions = \<lparr>hmac_secret = None, credProtect = 0, minPinLength = None, credBlob = None, largeBlobKey = None,
     thirdPartyPayment = None, ext_present = False\<rparr>"

text \<open>The structure of zeros.\<close>

definition no_credential :: credential where
  "no_credential = \<lparr>cr_rpId = None, userId = None, userName = None, userDisplayName = None, creation = 0, extensions = no_extensions,
     use_sign_count = None, cr_alg = 0, cr_curve = 0, cr_id = None, opts = no_options, cr_present = False\<rparr>"

text \<open>\<^verbatim>\<open>"credBlob"\<close>, \<^verbatim>\<open>"credProtect"\<close>, \<^verbatim>\<open>"hmac-secret"\<close>, \<^verbatim>\<open>"largeBlobKey"\<close>, \<^verbatim>\<open>"thirdPartyPayment"\<close>, \<^verbatim>\<open>"rk"\<close>.\<close>

definition text_credBlob :: bytes where "text_credBlob = [0x63, 0x72, 0x65, 0x64, 0x42, 0x6c, 0x6f, 0x62]"
definition text_credProtect :: bytes where "text_credProtect = [0x63, 0x72, 0x65, 0x64, 0x50, 0x72, 0x6f, 0x74, 0x65, 0x63, 0x74]"
definition text_thirdPartyPayment :: bytes where
  "text_thirdPartyPayment = [0x74, 0x68, 0x69, 0x72, 0x64, 0x50, 0x61, 0x72, 0x74, 0x79, 0x50, 0x61, 0x79, 0x6d, 0x65, 0x6e, 0x74]"
definition text_rk :: bytes where "text_rk = [0x72, 0x6b]"

lemmas text_defs = text_credBlob_def text_credProtect_def hmac_label_def large_blob_label_def text_thirdPartyPayment_def text_rk_def

text \<open>\<^verbatim>\<open>CBOR_APPEND_KEY_UINT_VAL_STRING\<close>, which writes up to the first zero, and \<^verbatim>\<open>..._BYTES\<close>, \<^verbatim>\<open>..._INT\<close>.\<close>

definition c_string :: "bytes \<Rightarrow> bytes" where "c_string b = takeWhile (\<lambda>x. x \<noteq> 0) b"

definition append_string :: "u64 \<Rightarrow> bytes option \<Rightarrow> cbor list" where
  "append_string k v = (case v of Some b \<Rightarrow> if b \<noteq> [] then [CUint k, CText (c_string b)] else [] | None \<Rightarrow> [])"

definition append_bytes :: "u64 \<Rightarrow> bytes option \<Rightarrow> cbor list" where
  "append_bytes k v = (case v of Some b \<Rightarrow> if b \<noteq> [] then [CUint k, CBytes b] else [] | None \<Rightarrow> [])"

definition cbor_int :: "int \<Rightarrow> cbor" where
  "cbor_int i = (if i \<ge> 0 then CUint (of_int i) else CNint (NOT (of_int i)))"

definition extension_items :: "cred_extensions \<Rightarrow> cbor list" where
  "extension_items x =
     (case credBlob x of Some b \<Rightarrow> if length b < MAX_CREDBLOB_LENGTH then [CText text_credBlob, CBytes b] else [] | None \<Rightarrow> []) @
     (if credProtect x \<noteq> 0 then [CText text_credProtect, CUint (credProtect x)] else []) @
     (case hmac_secret x of Some b \<Rightarrow> [CText hmac_label, CBool b] | None \<Rightarrow> []) @
     (if largeBlobKey x = Some True then [CText large_blob_label, CBool True] else []) @
     (if thirdPartyPayment x = Some True then [CText text_thirdPartyPayment, CBool True] else [])"

text \<open>The description that \<^verbatim>\<open>credential_create\<close> writes; \<open>now\<close> is the clock.\<close>

definition describe :: "ctap_env \<Rightarrow> u32 \<Rightarrow> credential \<Rightarrow> cbor" where
  "describe env now c = CMap (
     append_string 1 (cr_rpId c) @
     [CUint 2, CBytes (sha256 (lib env) (case_option [] id (cr_rpId c)))] @
     append_bytes 3 (userId c) @
     append_string 4 (userName c) @
     append_string 5 (userDisplayName c) @
     [CUint 6, CUint (ucast now)] @
     (if ext_present (extensions c) then [CUint 7, CMap (extension_items (extensions c))] else []) @
     [CUint 8, CBool (use_sign_count c = Some True)] @
     (if cr_alg c \<noteq> - 7 \<or> cr_curve c \<noteq> 1 then [CUint 9, cbor_int (cr_alg c), CUint 10, cbor_int (cr_curve c)] else []) @
     (if opts_present (opts c)
      then [CUint 11, CMap (case rk (opts c) of Some b \<Rightarrow> [CText text_rk, CBool b] | None \<Rightarrow> [])] else []))"

text \<open>
  The arguments of \<^verbatim>\<open>credential_create\<close> are the fields of \<open>c\<close>, and \<open>buf\<close> is what the array \<^verbatim>\<open>cred_id\<close> of the caller holds
  before.  The size \<^verbatim>\<open>rs\<close> of the description is taken from the beginning of that array, not from where the encoder starts: 16
  bytes behind the description are encrypted with it, and the code of a long one is written behind the array.
  The result is the code and the identifier.
\<close>

definition credential_create :: "ctap_env \<Rightarrow> u32 \<Rightarrow> credential \<Rightarrow> bytes \<Rightarrow> ctap \<Rightarrow> (int \<times> bytes \<times> ctap) option" where
  "credential_create env now c buf st = do {
     let rp = sha256 (lib env) (case_option [] id (cr_rpId c));
     let body = encode env (describe env now c);
     if length body > MAX_CRED_ID_LENGTH - (4 + 12 + 16) then Some (cbor_out_of_memory, [], st)
     else do {
       let rs = 4 + 12 + length body;
       buf \<leftarrow> wr_slice buf (4 + 12) body;
       inp \<leftarrow> rd_slice buf (4 + 12) rs;
       (_, key) \<leftarrow> credential_derive_chacha_key env st;
       let (iv, st) = draw env 12 st;
       Some (0, CRED_PROTO @ iv @ chacha_enc env key iv rp inp, st\<lparr>overran := overran st + (4 + 12 + rs + 16 - MAX_CRED_ID_LENGTH)\<rparr>)
     }
   }"

section \<open>Reading them back\<close>

text \<open>The code, and the buffer with the decrypted description in its place.\<close>

definition credential_verify :: "ctap_env \<Rightarrow> bytes \<Rightarrow> bytes \<Rightarrow> ctap \<Rightarrow> (int \<times> bytes) option" where
  "credential_verify env cred_id rp st =
     (if length cred_id < 4 + 12 + 16 then Some (- 1, cred_id)
      else do {
        (_, key) \<leftarrow> credential_derive_chacha_key env st;
        let n = length cred_id - (4 + 12 + 16);
        aad \<leftarrow> rd_slice rp 0 32;
        (case chacha_dec env key (take 12 (drop 4 cred_id)) aad (take n (drop 16 cred_id)) (drop (n + 16) cred_id) of
           None \<Rightarrow> Some (MBEDTLS_ERR_CHACHAPOLY_AUTH_FAILED, take 16 cred_id @ replicate n 0 @ drop (n + 16) cred_id)
         | Some x \<Rightarrow> Some (0, take 16 cred_id @ x @ drop (n + 16) cred_id))
      })"

text \<open>\<^verbatim>\<open>CBOR_FIELD_GET_KEY_TEXT\<close>: a key of at most 64 bytes, as a C string.\<close>

definition field_key :: "cbor list \<Rightarrow> (bytes \<Rightarrow> cbor list \<Rightarrow> cerr + 'a) \<Rightarrow> cerr + 'a" where
  "field_key xs k = field_text xs (\<lambda>t r. if length t > 64 then Inl (Err cbor_out_of_memory) else k (c_string t) r)"

lemma field_key_cong [fundef_cong]:
  "xs = ys \<Longrightarrow> (\<And>b x r. ys = x # r \<Longrightarrow> k b r = k' b r) \<Longrightarrow> field_key xs k = field_key ys k'"
  by (auto simp: field_key_def intro!: field_text_cong)

fun ext_loop :: "cred_extensions \<Rightarrow> cbor list \<Rightarrow> cerr + cred_extensions" where
  "ext_loop x [] = Inr x"
| "ext_loop x xs =
     field_key xs (\<lambda>key r.
       if key = hmac_label then field_bool r (\<lambda>b r. ext_loop (x\<lparr>hmac_secret := Some b\<rparr>) r)
       else if key = text_credProtect then field_uint r (\<lambda>n r. ext_loop (x\<lparr>credProtect := n\<rparr>) r)
       else if key = text_credBlob then field_bytes r (\<lambda>b r. ext_loop (x\<lparr>credBlob := Some b\<rparr>) r)
       else if key = large_blob_label then field_bool r (\<lambda>b r. ext_loop (x\<lparr>largeBlobKey := Some b\<rparr>) r)
       else if key = text_thirdPartyPayment then field_bool r (\<lambda>b r. ext_loop (x\<lparr>thirdPartyPayment := Some b\<rparr>) r)
       else cbor_advance r (ext_loop x))"

fun opts_loop :: "cred_options \<Rightarrow> cbor list \<Rightarrow> cerr + cred_options" where
  "opts_loop o1 [] = Inr o1"
| "opts_loop o1 xs =
     field_key xs (\<lambda>key r.
       if key = text_rk then field_bool r (\<lambda>b r. opts_loop (o1\<lparr>rk := Some b\<rparr>) r)
       else cbor_advance r (opts_loop o1))"

fun cred_loop :: "credential \<Rightarrow> cbor list \<Rightarrow> cerr + credential" where
  "cred_loop c [] = Inr c"
| "cred_loop c xs =
     field_uint xs (\<lambda>val_u r.
       if val_u = 0x01 then field_text r (\<lambda>b r. cred_loop (c\<lparr>cr_rpId := Some b\<rparr>) r)
       else if val_u = 0x03 then field_bytes r (\<lambda>b r. cred_loop (c\<lparr>userId := Some b\<rparr>) r)
       else if val_u = 0x04 then field_text r (\<lambda>b r. cred_loop (c\<lparr>userName := Some b\<rparr>) r)
       else if val_u = 0x05 then field_text r (\<lambda>b r. cred_loop (c\<lparr>userDisplayName := Some b\<rparr>) r)
       else if val_u = 0x06 then field_uint r (\<lambda>n r. cred_loop (c\<lparr>creation := n\<rparr>) r)
       else if val_u = 0x07 then
         parse_map r (ext_loop ((extensions c)\<lparr>ext_present := True\<rparr>)) (\<lambda>x r. cred_loop (c\<lparr>extensions := x\<rparr>) r)
       else if val_u = 0x08 then field_bool r (\<lambda>b r. cred_loop (c\<lparr>use_sign_count := Some b\<rparr>) r)
       else if val_u = 0x09 then field_int r (\<lambda>n r. cred_loop (c\<lparr>cr_alg := n\<rparr>) r)
       else if val_u = 0x0A then field_int r (\<lambda>n r. cred_loop (c\<lparr>cr_curve := n\<rparr>) r)
       else if val_u = 0x0B then
         parse_map r (opts_loop ((opts c)\<lparr>opts_present := True\<rparr>)) (\<lambda>x r. cred_loop (c\<lparr>opts := x\<rparr>) r)
       else cbor_advance r (cred_loop c))"

text \<open>
  The credential, or the code with which loading it fails.  \<open>old\<close> is what the structure holds before, which stays in the
  fields of a U2F credential.
\<close>

definition credential_load :: "ctap_env \<Rightarrow> bytes \<Rightarrow> bytes \<Rightarrow> credential \<Rightarrow> ctap \<Rightarrow> (int + credential) option" where
  "credential_load env cred_id rp old st = do {
     (ret, copy) \<leftarrow> credential_verify env cred_id rp st;
     if ret \<noteq> 0 then do {
       v \<leftarrow> (if length cred_id \<noteq> KEY_HANDLE_LEN then Some 1 else verify_key env rp cred_id None st);
       Some (if v \<noteq> 0 then Inl CTAP2_ERR_INVALID_CREDENTIAL else Inr (old\<lparr>cr_id := Some cred_id, cr_present := True\<rparr>))
     }
     else
       Some (case cbor_next [decode env (take (length cred_id - (4 + 12 + 16)) (drop 16 copy))]
           (\<lambda>items. parse_map items (cred_loop (no_credential\<lparr>cr_curve := 1, cr_alg := - 7\<rparr>)) (\<lambda>c _. Inr c)) of
         Inl e \<Rightarrow> Inl (cerr_code e)
       | Inr c \<Rightarrow> Inr (c\<lparr>cr_id := Some cred_id, cr_present := True\<rparr>))
   }"

section \<open>Resident credentials\<close>

text \<open>\<^verbatim>\<open>memcmp\<close> over the common length.\<close>

definition same_prefix :: "bytes option \<Rightarrow> bytes option \<Rightarrow> bool" where
  "same_prefix a b =
     (let x = case_option [] id a; y = case_option [] id b; n = min (length x) (length y) in take n x = take n y)"

text \<open>The search for the place of a credential: the slot, and whether it is a new record.\<close>

fun find_cred_slot :: "ctap_env \<Rightarrow> ctap \<Rightarrow> bytes \<Rightarrow> credential \<Rightarrow> nat list \<Rightarrow> nat option \<Rightarrow> (nat option \<times> bool) option" where
  "find_cred_slot env st rp cred [] sloti = Some (sloti, True)"
| "find_cred_slot env st rp cred (i # is) sloti = do {
     let ef = search_dynamic_file (cfs st) (EF_CRED + of_nat i);
     h \<leftarrow> file_has_data (cfs st) ef;
     if \<not> h then find_cred_slot env st rp cred is (if sloti = None then Some i else sloti)
     else do {
       d \<leftarrow> file_bytes (cfs st) ef;
       p \<leftarrow> rd_slice d 0 32;
       if p \<noteq> take 32 rp then find_cred_slot env st rp cred is sloti
       else do {
         l \<leftarrow> credential_load env (drop 32 d) rp no_credential st;
         (case l of
            Inl _ \<Rightarrow> find_cred_slot env st rp cred is sloti
          | Inr rcred \<Rightarrow>
              if same_prefix (userId rcred) (userId cred) then Some (Some i, False)
              else find_cred_slot env st rp cred is sloti)
       }
     }
   }"

text \<open>The same for the file of the relying party.\<close>

fun find_rp_slot :: "fs \<Rightarrow> bytes \<Rightarrow> nat list \<Rightarrow> nat option \<Rightarrow> nat option option" where
  "find_rp_slot fs rp [] sloti = Some sloti"
| "find_rp_slot fs rp (i # is) sloti = do {
     let ef = search_dynamic_file fs (EF_RP + of_nat i);
     h \<leftarrow> file_has_data fs ef;
     if \<not> h then find_rp_slot fs rp is (if sloti = None then Some i else sloti)
     else do {
       d \<leftarrow> file_bytes fs ef;
       p \<leftarrow> rd_slice d 1 32;
       if p = take 32 rp then Some (Some i) else find_rp_slot fs rp is sloti
     }
   }"

text \<open>One more credential of a relying party; the number is a byte.\<close>

definition count_rp :: "bytes \<Rightarrow> bytes \<Rightarrow> fs \<Rightarrow> (int \<times> fs) option" where
  "count_rp rp rpId fs = do {
     s \<leftarrow> find_rp_slot fs rp [0 ..< MAX_RESIDENT_CREDENTIALS] None;
     (case s of
        None \<Rightarrow> Some (- 1, fs)
      | Some i \<Rightarrow> do {
          let ef = search_dynamic_file fs (EF_RP + of_nat i);
          h \<leftarrow> file_has_data fs ef;
          if h then do {
            d \<leftarrow> file_bytes fs ef;
            (_, fs) \<leftarrow> write_file fs ef (d[0 := d ! 0 + 1]);
            Some (0, fs)
          } else do {
            let (ef, fs) = file_new fs (EF_RP + of_nat i);
            (_, fs) \<leftarrow> write_file fs ef (1 # rp @ rpId);
            Some (0, fs)
          }
        })
   }"

definition credential_store :: "ctap_env \<Rightarrow> bytes \<Rightarrow> bytes \<Rightarrow> ctap \<Rightarrow> (int \<times> ctap) option" where
  "credential_store env cred_id rp st = do {
     l \<leftarrow> credential_load env cred_id rp no_credential st;
     (case l of
        Inl e \<Rightarrow> Some (e, st)
      | Inr cred \<Rightarrow> do {
          (s, new_record) \<leftarrow> find_cred_slot env st rp cred [0 ..< MAX_RESIDENT_CREDENTIALS] None;
          (case s of
             None \<Rightarrow> Some (- 1, st)
           | Some i \<Rightarrow> do {
               rp \<leftarrow> rd_slice rp 0 32;
               let (ef, fs) = file_new (cfs st) (EF_CRED + of_nat i);
               (_, fs) \<leftarrow> write_file fs ef (rp @ cred_id);
               (r, fs) \<leftarrow> (if new_record then count_rp rp (case_option [] id (cr_rpId cred)) fs else Some (0, fs));
               Some (r, st\<lparr>cfs := fs\<rparr>)
             })
        })
   }"

end
