(* ===== verification/Vendor.thy ===== *)
theory Vendor
  imports ClientPin
begin

text \<open>
  The vendor commands, \<^verbatim>\<open>src/fido/cbor_vendor.c\<close>: backup and restoring of the locked device key, the secure channel
  (\<^verbatim>\<open>mse\<close>) that its lock is opened through, and the certificate for enterprise attestation.
\<close>

definition CTAP_VENDOR_BACKUP :: u8 where "CTAP_VENDOR_BACKUP = 0x01"
definition CTAP_VENDOR_MSE :: u8 where "CTAP_VENDOR_MSE = 0x02"
definition CTAP_VENDOR_UNLOCK :: u8 where "CTAP_VENDOR_UNLOCK = 0x03"
definition CTAP_VENDOR_EA :: u8 where "CTAP_VENDOR_EA = 0x04"
definition CTAP2_ERR_PROCESSING :: int where "CTAP2_ERR_PROCESSING = 0x21"

lemmas vendor_cmds = CTAP_VENDOR_BACKUP_def CTAP_VENDOR_MSE_def CTAP_VENDOR_UNLOCK_def CTAP_VENDOR_EA_def

definition ef_keydev :: "fs \<Rightarrow> file_ref option" where "ef_keydev fs = search_ef fs EF_KEY_DEV"
definition ef_keydev_enc :: "fs \<Rightarrow> file_ref option" where "ef_keydev_enc fs = search_ef fs EF_KEY_DEV_ENC"

section \<open>Parameters\<close>

record vendor_req =
  vendorCmd :: u64
  vendorParam :: "bytes option"
  vendor_key :: cose
  vendor_protocol :: u64
  vendor_auth :: "bytes option"

definition no_vendor_req :: vendor_req where
  "no_vendor_req = \<lparr>vendorCmd = 0, vendorParam = None, vendor_key = no_cose, vendor_protocol = 0, vendor_auth = None\<rparr>"

fun vendor_sub :: "vendor_req \<Rightarrow> cbor list \<Rightarrow> cerr + vendor_req" where
  "vendor_sub q [] = Inr q"
| "vendor_sub q xs =
     field_uint xs (\<lambda>subpara r.
       if subpara = 0x01 then field_bytes r (\<lambda>b r. vendor_sub (q\<lparr>vendorParam := Some b\<rparr>) r)
       else if subpara = 0x02 then COSE_read_key (vendor_key q) r (\<lambda>k r. vendor_sub (q\<lparr>vendor_key := k\<rparr>) r)
       else cbor_advance r (vendor_sub q))"

fun vendor_loop :: "u64 \<Rightarrow> vendor_req \<Rightarrow> cbor list \<Rightarrow> cerr + vendor_req" where
  "vendor_loop val_c q [] = Inr q"
| "vendor_loop val_c q xs =
     field_uint xs (\<lambda>val_u r.
       case key_error 1 val_c val_u of
         Some e \<Rightarrow> Inl e
       | None \<Rightarrow>
           (if val_u = 0x01 then field_uint r (\<lambda>n r. vendor_loop (val_u + 1) (q\<lparr>vendorCmd := n\<rparr>) r)
            else if val_u = 0x02 then parse_map r (vendor_sub q) (\<lambda>q r. vendor_loop (val_u + 1) q r)
            else if val_u = 0x03 then field_uint r (\<lambda>n r. vendor_loop (val_u + 1) (q\<lparr>vendor_protocol := n\<rparr>) r)
            else if val_u = 0x04 then field_bytes r (\<lambda>b r. vendor_loop (val_u + 1) (q\<lparr>vendor_auth := Some b\<rparr>) r)
            else vendor_loop (val_u + 1) q r))"

section \<open>The secure channel\<close>

text \<open>
  The text that the channel decrypts, with its tag behind it, as it stays in the buffer; the inner \<open>None\<close> is a
  rejected text.  A text without the 16 bytes of a tag has a length below 0.
\<close>

definition mse_decrypt_ct :: "ctap_env \<Rightarrow> bytes \<Rightarrow> ctap \<Rightarrow> bytes option option" where
  "mse_decrypt_ct env x st = do {
     (Qpt, key_enc) \<leftarrow> mse st;
     let n = length x - 16;
     t \<leftarrow> (if 16 \<le> length x then Some (drop n x) else None);
     Some (map_option (\<lambda>d. d @ t) (chacha_dec env (drop 12 key_enc) (take 12 key_enc) Qpt (take n x) t))
   }"

text \<open>A number of any length as 32 bytes, if it fits.\<close>

definition coordinate :: "bytes \<Rightarrow> bytes option" where
  "coordinate b =
     (let s = dropWhile (\<lambda>x. x = 0) b in if length s \<le> 32 then Some (replicate (32 - length s) 0 @ s) else None)"

text \<open>
  The key agreement.  \<^verbatim>\<open>mse.Qpt\<close> is written before the secret is computed: when that fails, a channel that was open
  goes on with the old key and the new point.
\<close>

definition vendor_mse :: "ctap_env \<Rightarrow> vendor_req \<Rightarrow> ctap \<Rightarrow> ctap_reply" where
  "vendor_mse env q st =
     (if vendorCmd q = 0x01 then
        (case (kax (vendor_key q), kay (vendor_key q)) of
           (Some x, Some y) \<Rightarrow>
             if alg (vendor_key q) = 0 then fail CTAP2_ERR_MISSING_PARAMETER st
             else let (d, st) = draw env 32 st in
               (case coordinate x of
                  None \<Rightarrow> fail CTAP1_ERR_INVALID_PARAMETER st
                | Some X \<Rightarrow>
                    (case coordinate y of
                       None \<Rightarrow> fail CTAP1_ERR_INVALID_PARAMETER (st\<lparr>mse := map_option (apfst (\<lambda>p. 0x04 # X @ drop 33 p)) (mse st)\<rparr>)
                     | Some Y \<Rightarrow>
                         let Qpt = 0x04 # X @ Y in
                         (case compute_shared env d x y of
                            None \<Rightarrow> fail CTAP1_ERR_INVALID_PARAMETER (st\<lparr>mse := map_option (apfst (\<lambda>_. Qpt)) (mse st)\<rparr>)
                          | Some z \<Rightarrow>
                              answer (CMap [CUint 1, cose_key_shared (public_point env d)])
                                (st\<lparr>mse := Some (Qpt, hkdf env z Qpt 44)\<rparr>))))
         | _ \<Rightarrow> fail CTAP2_ERR_MISSING_PARAMETER st)
      else None)"

section \<open>The device key\<close>

text \<open>The encrypted key is opened with the first 32 bytes that came through the channel.\<close>

definition open_keydev :: "ctap_env \<Rightarrow> bytes \<Rightarrow> bytes \<Rightarrow> bytes option option" where
  "open_keydev env k keyenc = do {
     key \<leftarrow> rd_slice k 0 32;
     nonce \<leftarrow> rd_slice keyenc 0 12;
     t \<leftarrow> (if 16 \<le> length keyenc then Some (drop (length keyenc - 16) keyenc) else None);
     c \<leftarrow> rd_slice keyenc 12 32;
     Some (chacha_dec env key nonce [] c t)
   }"

text \<open>A wrong key sets \<^verbatim>\<open>keydev_dec\<close> to zeros, but not \<^verbatim>\<open>has_keydev_dec\<close>.\<close>

definition vendor_unlock :: "ctap_env \<Rightarrow> vendor_req \<Rightarrow> ctap \<Rightarrow> ctap_reply" where
  "vendor_unlock env q st =
     (if mse st = None then fail CTAP2_ERR_NOT_ALLOWED st
      else do {
        r \<leftarrow> mse_decrypt_ct env (case_option [] id (vendorParam q)) st;
        (case r of
           None \<Rightarrow> fail CTAP1_ERR_INVALID_PARAMETER st
         | Some k \<Rightarrow> do {
             h \<leftarrow> file_has_data (cfs st) (ef_keydev_enc (cfs st));
             if \<not> h then fail CTAP2_ERR_INTEGRITY_FAILURE st
             else do {
               keyenc \<leftarrow> file_bytes (cfs st) (ef_keydev_enc (cfs st));
               d \<leftarrow> open_keydev env k keyenc;
               (case d of
                  None \<Rightarrow> fail CTAP1_ERR_INVALID_PARAMETER (st\<lparr>keydev_dec := map_option (\<lambda>_. replicate 32 0) (keydev_dec st)\<rparr>)
                | Some d \<Rightarrow> fine (st\<lparr>keydev_dec := Some d\<rparr>))
             }
           })
      })"

text \<open>The clear key is overwritten with zeros, then its file is made empty.\<close>

definition wipe_keydev :: "bytes \<Rightarrow> fs \<Rightarrow> fs option" where
  "wipe_keydev zeros fs = do {
     n \<leftarrow> file_get_size fs (ef_keydev fs);
     z \<leftarrow> rd_slice zeros 0 n;
     (_, fs) \<leftarrow> write_file fs (ef_keydev fs) z;
     (_, fs) \<leftarrow> write_file fs (ef_keydev fs) [];
     Some fs
   }"

definition vendor_backup :: "vendor_req \<Rightarrow> ctap \<Rightarrow> ctap_reply" where
  "vendor_backup q st =
     (if vendorCmd q = 0x01 then
        (if keydev_dec st = None then fail CTAP2_ERR_PIN_AUTH_INVALID st
         else do {
           d \<leftarrow> pointed (cfs st) (ef_keydev_enc (cfs st));
           answer (CMap [CUint 1, CBytes d]) st
         })
      else if vendorCmd q = 0x02 then
        (case vendorParam q of
           None \<Rightarrow> fail CTAP2_ERR_MISSING_PARAMETER st
         | Some p \<Rightarrow> do {
             (_, fs) \<leftarrow> write_file (cfs st) (ef_keydev_enc (cfs st)) p;
             fs \<leftarrow> wipe_keydev (replicate 32 0) fs;
             fine (st\<lparr>cfs := fs\<rparr>)
           })
      else fail CTAP2_ERR_INVALID_SUBCOMMAND st)"

text \<open>\<open>csr d\<close> is the certificate request for the key \<open>d\<close>, \<open>None\<close> when the library cannot make it.\<close>

definition ea_request_cert :: "ctap_env \<Rightarrow> (nat \<Rightarrow> bytes option) \<Rightarrow> ctap \<Rightarrow> ctap_reply" where
  "ea_request_cert env csr st = do {
     k \<leftarrow> pointed (cfs st) (ef_keydev (cfs st));
     (case Option.bind (read_key env SECP256R1 k) csr of
        None \<Rightarrow> fail CTAP2_ERR_PROCESSING st
      | Some c \<Rightarrow> if c = [] then fail CTAP2_ERR_PROCESSING st else answer (CMap [CUint 1, CBytes c]) st)
   }"

definition ea_store_cert :: "vendor_req \<Rightarrow> ctap \<Rightarrow> ctap_reply" where
  "ea_store_cert q st =
     (case vendorParam q of
        None \<Rightarrow> fail CTAP2_ERR_MISSING_PARAMETER st
      | Some p \<Rightarrow> do {
          let ef = search_ef (cfs st) EF_EE_DEV_EA;
          fs \<leftarrow> (if ef \<noteq> None then map_option snd (write_file (cfs st) ef p) else Some (cfs st));
          fine (st\<lparr>cfs := fs\<rparr>)
        })"

definition vendor_ea :: "ctap_env \<Rightarrow> (nat \<Rightarrow> bytes option) \<Rightarrow> vendor_req \<Rightarrow> ctap \<Rightarrow> ctap_reply" where
  "vendor_ea env csr q st =
     (if vendorCmd q = 0x01 then ea_request_cert env csr st
      else if vendorCmd q = 0x02 then ea_store_cert q st
      else None)"

text \<open>Other values of \<^verbatim>\<open>vendorCmd\<close> in two of the commands close a container that was never opened.\<close>

definition cbor_vendor_generic :: "ctap_env \<Rightarrow> (nat \<Rightarrow> bytes option) \<Rightarrow> u8 \<Rightarrow> cbor \<Rightarrow> ctap \<Rightarrow> ctap_reply" where
  "cbor_vendor_generic env csr cmd request st =
     (case cbor_next [request] (\<lambda>items. parse_map items (vendor_loop 1 no_vendor_req) (\<lambda>q _. Inr q)) of
        Inl e \<Rightarrow> fail (cerr_code e) st
      | Inr q \<Rightarrow>
          if cmd = CTAP_VENDOR_BACKUP then vendor_backup q st
          else if cmd = CTAP_VENDOR_MSE then vendor_mse env q st
          else if cmd = CTAP_VENDOR_UNLOCK then vendor_unlock env q st
          else if cmd = CTAP_VENDOR_EA then vendor_ea env csr q st
          else fail CTAP2_ERR_UNSUPPORTED_OPTION st)"

text \<open>\<open>cmd\<close> is the first byte, if there is one.\<close>

definition cbor_vendor :: "ctap_env \<Rightarrow> (nat \<Rightarrow> bytes option) \<Rightarrow> u8 option \<Rightarrow> cbor \<Rightarrow> ctap \<Rightarrow> ctap_reply" where
  "cbor_vendor env csr cmd request st =
     (case cmd of
        None \<Rightarrow> fail CTAP1_ERR_INVALID_LEN st
      | Some c \<Rightarrow>
          if c \<ge> CTAP_VENDOR_BACKUP then cbor_vendor_generic env csr c request st
          else fail CTAP2_ERR_INVALID_CBOR st)"

end
