(* ===== verification/AuthConfig.thy ===== *)
theory AuthConfig
  imports Vendor
begin

text \<open>
  \<^verbatim>\<open>authenticatorConfig\<close>, \<^verbatim>\<open>src/fido/cbor_config.c\<close>: the lock of the device key, the least length of a PIN and
  enterprise attestation.  \<open>raw\<close> are the bytes of the second parameter as they came in, \<open>junk\<close> is what the stack holds.
\<close>

definition CTAP_CONFIG_AUT_ENABLE :: u64 where "CTAP_CONFIG_AUT_ENABLE = 0x03e43f56b34285e2"
definition CTAP_CONFIG_AUT_DISABLE :: u64 where "CTAP_CONFIG_AUT_DISABLE = 0x1831a40f04a25ed9"

section \<open>Parameters\<close>

record config_req =
  cfg_subcommand :: u64
  cfg_protocol :: u64
  vendorCommandId :: u64
  newMinPinLength :: u64
  cfg_param :: "bytes option"
  vendorAutCt :: "bytes option"
  minPinLengthRPIDs :: "bytes list"
  forceChangePin :: "bool option"

definition no_config_req :: config_req where
  "no_config_req = \<lparr>cfg_subcommand = 0, cfg_protocol = 0, vendorCommandId = 0, newMinPinLength = 0, cfg_param = None,
     vendorAutCt = None, minPinLengthRPIDs = [], forceChangePin = None\<rparr>"

text \<open>At most 31 names of relying parties.\<close>

fun rpid_loop :: "bytes list \<Rightarrow> cbor list \<Rightarrow> cerr + bytes list" where
  "rpid_loop ids [] = Inr ids"
| "rpid_loop ids xs =
     field_text xs (\<lambda>b r. if length ids + 1 \<ge> 32 then Inl (Err CTAP2_ERR_KEY_STORE_FULL) else rpid_loop (ids @ [b]) r)"

text \<open>
  The subparameters.  For other subcommands the loop does not advance: \<open>Inr None\<close> is a loop without end.
\<close>

fun config_sub :: "config_req \<Rightarrow> cbor list \<Rightarrow> cerr + config_req option" where
  "config_sub q [] = Inr (Some q)"
| "config_sub q xs =
     (if cfg_subcommand q = 0x7f then
        field_uint xs (\<lambda>subpara r.
          if subpara = 0x01 then field_uint r (\<lambda>n r. config_sub (q\<lparr>vendorCommandId := n\<rparr>) r)
          else if subpara = 0x02 then field_bytes r (\<lambda>b r. config_sub (q\<lparr>vendorAutCt := Some b\<rparr>) r)
          else config_sub q r)
      else if cfg_subcommand q = 0x03 then
        field_uint xs (\<lambda>subpara r.
          if subpara = 0x01 then field_uint r (\<lambda>n r. config_sub (q\<lparr>newMinPinLength := n\<rparr>) r)
          else if subpara = 0x02 then
            parse_array r (rpid_loop (minPinLengthRPIDs q)) (\<lambda>ids r. config_sub (q\<lparr>minPinLengthRPIDs := ids\<rparr>) r)
          else if subpara = 0x03 then field_bool r (\<lambda>b r. config_sub (q\<lparr>forceChangePin := Some b\<rparr>) r)
          else config_sub q r)
      else Inr None)"

text \<open>A map whose loop may not end.\<close>

definition parse_map_end :: "cbor list \<Rightarrow> (cbor list \<Rightarrow> cerr + 'b option) \<Rightarrow> ('b \<Rightarrow> cbor list \<Rightarrow> cerr + 'a option) \<Rightarrow> cerr + 'a option" where
  "parse_map_end xs loop k =
     (case xs of
        CMap m # r \<Rightarrow> (case cbor_next m loop of Inl e \<Rightarrow> Inl e | Inr None \<Rightarrow> Inr None | Inr (Some q) \<Rightarrow> cbor_next r (k q))
      | _ \<Rightarrow> Inl Improper)"

lemma parse_map_end_cong [fundef_cong]:
  "xs = ys \<Longrightarrow> (\<And>m r. ys = CMap m # r \<Longrightarrow> loop m = loop' m) \<Longrightarrow> (\<And>q m r. ys = CMap m # r \<Longrightarrow> k q r = k' q r) \<Longrightarrow>
     parse_map_end xs loop k = parse_map_end ys loop' k'"
  by (auto simp: parse_map_end_def cbor_next_def split: list.split cbor.split sum.split option.split)

fun config_loop :: "u64 \<Rightarrow> config_req \<Rightarrow> cbor list \<Rightarrow> cerr + config_req option" where
  "config_loop val_c q [] = Inr (Some q)"
| "config_loop val_c q xs =
     field_uint xs (\<lambda>val_u r.
       case key_error 1 val_c val_u of
         Some e \<Rightarrow> Inl e
       | None \<Rightarrow>
           (if val_u = 0x01 then field_uint r (\<lambda>n r. config_loop (val_u + 1) (q\<lparr>cfg_subcommand := n\<rparr>) r)
            else if val_u = 0x02 then parse_map_end r (config_sub q) (\<lambda>q r. config_loop (val_u + 1) q r)
            else if val_u = 0x03 then field_uint r (\<lambda>n r. config_loop (val_u + 1) (q\<lparr>cfg_protocol := n\<rparr>) r)
            else if val_u = 0x04 then field_bytes r (\<lambda>b r. config_loop (val_u + 1) (q\<lparr>cfg_param := Some b\<rparr>) r)
            else config_loop (val_u + 1) q r))"

section \<open>The lock of the device key\<close>

text \<open>The unlocked key is written back; \<^verbatim>\<open>keydev_dec\<close> is cleared, but stays in use.\<close>

definition aut_disable :: "ctap \<Rightarrow> ctap_reply" where
  "aut_disable st = do {
     h \<leftarrow> file_has_data (cfs st) (ef_keydev_enc (cfs st));
     if \<not> h then fail CTAP2_ERR_NOT_ALLOWED st
     else (case keydev_dec st of
       None \<Rightarrow> fail CTAP2_ERR_PIN_AUTH_INVALID st
     | Some k \<Rightarrow> do {
         (_, fs) \<leftarrow> write_file (cfs st) (ef_keydev (cfs st)) k;
         (_, fs) \<leftarrow> write_file fs (ef_keydev_enc fs) [];
         fine (st\<lparr>cfs := fs, keydev_dec := Some (replicate 32 0)\<rparr>)
       })
   }"

text \<open>The key is encrypted into an array of 60 bytes, which is written as a whole.\<close>

definition aut_enable :: "ctap_env \<Rightarrow> (nat \<Rightarrow> u8) \<Rightarrow> config_req \<Rightarrow> ctap \<Rightarrow> ctap_reply" where
  "aut_enable env junk q st = do {
     h \<leftarrow> file_has_data (cfs st) (ef_keydev (cfs st));
     if \<not> h then fail CTAP2_ERR_NOT_ALLOWED st
     else if mse st = None then fail CTAP2_ERR_NOT_ALLOWED st
     else do {
       r \<leftarrow> mse_decrypt_ct env (case_option [] id (vendorAutCt q)) st;
       (case r of
          None \<Rightarrow> fail CTAP1_ERR_INVALID_PARAMETER st
        | Some k \<Rightarrow> do {
            let (nonce, st) = draw env 12 st;
            key \<leftarrow> rd_slice k 0 32;
            d \<leftarrow> file_bytes (cfs st) (ef_keydev (cfs st));
            key_dev_enc \<leftarrow> wr_slice (map junk [0 ..< 60]) 0 (nonce @ chacha_enc env key nonce [] d);
            (_, fs) \<leftarrow> write_file (cfs st) (ef_keydev_enc (cfs st)) key_dev_enc;
            fs \<leftarrow> wipe_keydev (replicate 60 0) fs;
            fine (st\<lparr>cfs := fs\<rparr>)
          })
     }
   }"

section \<open>The least length of a PIN\<close>

text \<open>The length is kept in a byte.\<close>

definition set_min_pin :: "ctap_env \<Rightarrow> config_req \<Rightarrow> ctap \<Rightarrow> ctap_reply" where
  "set_min_pin env q st = do {
     currentMinPinLen \<leftarrow> min_pin (cfs st);
     let n = (if newMinPinLength q = 0 then ucast currentMinPinLen else newMinPinLength q);
     if n < ucast currentMinPinLen then fail CTAP2_ERR_PIN_POLICY_VIOLATION st
     else do {
       h \<leftarrow> file_has_data (cfs st) (ef_pin (cfs st));
       if forceChangePin q = Some True \<and> \<not> h then fail CTAP2_ERR_PIN_NOT_SET st
       else do {
         short \<leftarrow> (if h then do { d \<leftarrow> file_bytes (cfs st) (ef_pin (cfs st)); l \<leftarrow> rd d 1; Some (ucast l < n) } else Some False);
         let force = (forceChangePin q = Some True \<or> short);
         (_, fs) \<leftarrow> write_file (cfs st) (ef_minpin (cfs st))
           ([ucast n, if force then 1 else 0] @ concat (map (sha256 (lib env)) (minPinLengthRPIDs q)));
         fine (st\<lparr>cfs := fs\<rparr>)
       }
     }
   }"

section \<open>The command\<close>

definition config_verify_data :: "config_req \<Rightarrow> bytes \<Rightarrow> bytes" where
  "config_verify_data q raw = replicate 32 0xff @ [0x0d, ucast (cfg_subcommand q)] @ raw"

definition config_run :: "ctap_env \<Rightarrow> (nat \<Rightarrow> u8) \<Rightarrow> config_req \<Rightarrow> ctap \<Rightarrow> ctap_reply" where
  "config_run env junk q st =
     (if cfg_subcommand q = 0x7f then
        (if vendorCommandId q = CTAP_CONFIG_AUT_DISABLE then aut_disable st
         else if vendorCommandId q = CTAP_CONFIG_AUT_ENABLE then aut_enable env junk q st
         else fail CTAP2_ERR_INVALID_SUBCOMMAND st)
      else if cfg_subcommand q = 0x03 then set_min_pin env q st
      else if cfg_subcommand q = 0x01 then do {
        o1 \<leftarrow> get_opts (cfs st);
        fs \<leftarrow> set_opts (cfs st) (o1 OR FIDO2_OPT_EA);
        fine (st\<lparr>cfs := fs\<rparr>)
      }
      else fail CTAP2_ERR_UNSUPPORTED_OPTION st)"

definition config_authorised :: "ctap_env \<Rightarrow> (nat \<Rightarrow> u8) \<Rightarrow> bytes \<Rightarrow> config_req \<Rightarrow> ctap \<Rightarrow> ctap_reply" where
  "config_authorised env junk raw q st =
     (case cfg_param q of
        None \<Rightarrow> fail CTAP2_ERR_PUAT_REQUIRED st
      | Some param \<Rightarrow>
          if cfg_protocol q = 0 then fail CTAP2_ERR_MISSING_PARAMETER st
          else do {
            v \<leftarrow> verify env (ucast (cfg_protocol q)) (token (paut st)) (config_verify_data q raw) param;
            if \<not> v then fail CTAP2_ERR_PIN_AUTH_INVALID st
            else if permissions (paut st) AND CTAP_PERMISSION_ACFG = 0 then fail CTAP2_ERR_PIN_AUTH_INVALID st
            else config_run env junk q st
          })"

definition cbor_config :: "ctap_env \<Rightarrow> (nat \<Rightarrow> u8) \<Rightarrow> bytes \<Rightarrow> cbor \<Rightarrow> ctap \<Rightarrow> ctap_reply" where
  "cbor_config env junk raw request st =
     (case cbor_next [request] (\<lambda>items. parse_map_end items (config_loop 1 no_config_req) (\<lambda>q _. Inr (Some q))) of
        Inl e \<Rightarrow> fail (cerr_code e) st
      | Inr None \<Rightarrow> None
      | Inr (Some q) \<Rightarrow> config_authorised env junk raw q st)"

end
