(* ===== verification/CredMgmt.thy ===== *)
theory CredMgmt
  imports Cose Credential AuthConfig
begin

text \<open>
  \<^verbatim>\<open>authenticatorCredentialManagement\<close>, \<^verbatim>\<open>src/fido/cbor_cred_mgmt.c\<close>: counting, listing, deleting and updating of resident
  credentials.  The listings go on over several commands, with their counters in the state.  \<open>raw\<close> are the bytes of
  the second parameter, \<open>preview\<close> says whether the command came with its old number 0x41.
\<close>

section \<open>Parameters\<close>

record mgmt_req =
  mg_subcommand :: u64
  mg_protocol :: u64
  mg_param :: "bytes option"
  mg_rpIdHash :: "bytes option"
  mg_id :: "bytes option"
  mg_type :: "bytes option"
  mg_transports :: "bytes list"
  mg_user_id :: "bytes option"
  mg_user_name :: "bytes option"
  mg_user_displayName :: "bytes option"

definition no_mgmt_req :: mgmt_req where
  "no_mgmt_req = \<lparr>mg_subcommand = 0, mg_protocol = 0, mg_param = None, mg_rpIdHash = None, mg_id = None, mg_type = None,
     mg_transports = [], mg_user_id = None, mg_user_name = None, mg_user_displayName = None\<rparr>"

text \<open>\<^verbatim>\<open>"id"\<close>, \<^verbatim>\<open>"transports"\<close>, \<^verbatim>\<open>"name"\<close>, \<^verbatim>\<open>"displayName"\<close>.\<close>

definition text_id :: bytes where "text_id = [0x69, 0x64]"
definition text_transports :: bytes where "text_transports = [0x74, 0x72, 0x61, 0x6e, 0x73, 0x70, 0x6f, 0x72, 0x74, 0x73]"
definition text_name :: bytes where "text_name = [0x6e, 0x61, 0x6d, 0x65]"
definition text_displayName :: bytes where
  "text_displayName = [0x64, 0x69, 0x73, 0x70, 0x6c, 0x61, 0x79, 0x4e, 0x61, 0x6d, 0x65]"

text \<open>The array has room for 8 names; the ninth is written over its own counter: \<open>Inr None\<close>.\<close>

fun transports_loop :: "bytes list \<Rightarrow> cbor list \<Rightarrow> cerr + bytes list option" where
  "transports_loop ts [] = Inr (Some ts)"
| "transports_loop ts xs = field_text xs (\<lambda>b r. if length ts \<ge> 8 then Inr None else transports_loop (ts @ [b]) r)"

definition parse_array_end :: "cbor list \<Rightarrow> (cbor list \<Rightarrow> cerr + 'b option) \<Rightarrow> ('b \<Rightarrow> cbor list \<Rightarrow> cerr + 'a option) \<Rightarrow> cerr + 'a option" where
  "parse_array_end xs loop k =
     (case xs of
        CArray m # r \<Rightarrow> (case cbor_next m loop of Inl e \<Rightarrow> Inl e | Inr None \<Rightarrow> Inr None | Inr (Some q) \<Rightarrow> cbor_next r (k q))
      | _ \<Rightarrow> Inl Improper)"

lemma parse_array_end_cong [fundef_cong]:
  "xs = ys \<Longrightarrow> (\<And>m r. ys = CArray m # r \<Longrightarrow> loop m = loop' m) \<Longrightarrow> (\<And>q m r. ys = CArray m # r \<Longrightarrow> k q r = k' q r) \<Longrightarrow>
     parse_array_end xs loop k = parse_array_end ys loop' k'"
  by (auto simp: parse_array_end_def cbor_next_def split: list.split cbor.split sum.split option.split)

text \<open>A key that is not known is skipped without its value.\<close>

fun desc_loop :: "mgmt_req \<Rightarrow> cbor list \<Rightarrow> cerr + mgmt_req option" where
  "desc_loop q [] = Inr (Some q)"
| "desc_loop q xs =
     field_key xs (\<lambda>key r.
       if key = text_id then field_bytes r (\<lambda>b r. desc_loop (q\<lparr>mg_id := Some b\<rparr>) r)
       else if key = text_type then field_text r (\<lambda>b r. desc_loop (q\<lparr>mg_type := Some b\<rparr>) r)
       else if key = text_transports then
         parse_array_end r (transports_loop (mg_transports q)) (\<lambda>ts r. desc_loop (q\<lparr>mg_transports := ts\<rparr>) r)
       else desc_loop q r)"

fun user_loop :: "mgmt_req \<Rightarrow> cbor list \<Rightarrow> cerr + mgmt_req option" where
  "user_loop q [] = Inr (Some q)"
| "user_loop q xs =
     field_key xs (\<lambda>key r.
       if key = text_id then field_bytes r (\<lambda>b r. user_loop (q\<lparr>mg_user_id := Some b\<rparr>) r)
       else if key = text_name then field_text r (\<lambda>b r. user_loop (q\<lparr>mg_user_name := Some b\<rparr>) r)
       else if key = text_displayName then field_text r (\<lambda>b r. user_loop (q\<lparr>mg_user_displayName := Some b\<rparr>) r)
       else user_loop q r)"

text \<open>
  The subparameters.  For the third one the code enters \<^verbatim>\<open>_f1\<close> instead of \<^verbatim>\<open>_f2\<close>: it reads the map of the subparameters
  itself, \<open>whole\<close>, from its beginning, which is the integer of its first key.
\<close>

fun mgmt_sub :: "cbor list \<Rightarrow> mgmt_req \<Rightarrow> cbor list \<Rightarrow> cerr + mgmt_req option" where
  "mgmt_sub whole q [] = Inr (Some q)"
| "mgmt_sub whole q xs =
     field_uint xs (\<lambda>subpara r.
       if subpara = 0x01 then field_bytes r (\<lambda>b r. mgmt_sub whole (q\<lparr>mg_rpIdHash := Some b\<rparr>) r)
       else if subpara = 0x02 then parse_map_end r (desc_loop q) (\<lambda>q r. mgmt_sub whole q r)
       else if subpara = 0x03 then
         (case user_loop q whole of Inl e \<Rightarrow> Inl e | Inr None \<Rightarrow> Inr None | Inr (Some q) \<Rightarrow> mgmt_sub whole q r)
       else mgmt_sub whole q r)"

fun mgmt_loop :: "u64 \<Rightarrow> mgmt_req \<Rightarrow> cbor list \<Rightarrow> cerr + mgmt_req option" where
  "mgmt_loop val_c q [] = Inr (Some q)"
| "mgmt_loop val_c q xs =
     field_uint xs (\<lambda>val_u r.
       case key_error 1 val_c val_u of
         Some e \<Rightarrow> Inl e
       | None \<Rightarrow>
           (if val_u = 0x01 then field_uint r (\<lambda>n r. mgmt_loop (val_u + 1) (q\<lparr>mg_subcommand := n\<rparr>) r)
            else if val_u = 0x02 then parse_map_end r (\<lambda>m. mgmt_sub m q m) (\<lambda>q r. mgmt_loop (val_u + 1) q r)
            else if val_u = 0x03 then field_uint r (\<lambda>n r. mgmt_loop (val_u + 1) (q\<lparr>mg_protocol := n\<rparr>) r)
            else if val_u = 0x04 then field_bytes r (\<lambda>b r. mgmt_loop (val_u + 1) (q\<lparr>mg_param := Some b\<rparr>) r)
            else mgmt_loop (val_u + 1) q r))"

section \<open>Authorisation\<close>

text \<open>The code of the token over \<open>payload\<close>, then the test \<open>denied\<close> of its permissions.\<close>

definition mgmt_guard :: "ctap_env \<Rightarrow> mgmt_req \<Rightarrow> bytes \<Rightarrow> bool option \<Rightarrow> ctap \<Rightarrow> ctap_reply \<Rightarrow> ctap_reply" where
  "mgmt_guard env q payload denied st k = do {
     v \<leftarrow> verify env (ucast (mg_protocol q)) (token (paut st)) payload (case_option [] id (mg_param q));
     if \<not> v then fail CTAP2_ERR_PIN_AUTH_INVALID st
     else do {
       d \<leftarrow> denied;
       if d then fail CTAP2_ERR_PIN_AUTH_INVALID st else k
     }
   }"

definition denied_all :: "bool \<Rightarrow> ctap \<Rightarrow> bool option" where
  "denied_all preview st = Some (\<not> preview \<and> (permissions (paut st) AND CTAP_PERMISSION_CM = 0 \<or> has_rp_id (paut st)))"

text \<open>A token that is bound to a relying party is compared with the parameter, which may not be there.\<close>

definition denied_rp :: "bool \<Rightarrow> mgmt_req \<Rightarrow> ctap \<Rightarrow> bool option" where
  "denied_rp preview q st =
     (if preview then Some False
      else if permissions (paut st) AND CTAP_PERMISSION_CM = 0 then Some True
      else if \<not> has_rp_id (paut st) then Some False
      else do { h \<leftarrow> mg_rpIdHash q; p \<leftarrow> rd_slice h 0 32; Some (rp_id_hash (paut st) \<noteq> p) })"

section \<open>Counting and listing\<close>

fun count_creds :: "fs \<Rightarrow> nat list \<Rightarrow> u8 option" where
  "count_creds fs [] = Some 0"
| "count_creds fs (i # is) = do {
     h \<leftarrow> file_has_data fs (search_dynamic_file fs (EF_CRED + of_nat i));
     n \<leftarrow> count_creds fs is;
     Some (if h then n + 1 else n)
   }"

definition mgmt_metadata :: "ctap_env \<Rightarrow> bool \<Rightarrow> mgmt_req \<Rightarrow> ctap \<Rightarrow> ctap_reply" where
  "mgmt_metadata env preview q st =
     mgmt_guard env q [0x01] (denied_all preview st) st (do {
       existing \<leftarrow> count_creds (cfs st) [0 ..< MAX_RESIDENT_CREDENTIALS];
       answer (CMap [CUint 1, CUint (ucast existing), CUint 2, CUint (of_nat (MAX_RESIDENT_CREDENTIALS - unat existing))]) st
     })"

text \<open>
  The loop of both listings over the files: \<open>there\<close> are the ones that count, \<open>counter\<close> the one that is wanted.  The
  first command goes through all and counts them, the others stop at the wanted one.
\<close>

fun list_scan :: "(nat \<Rightarrow> bool option) \<Rightarrow> bool \<Rightarrow> u8 \<Rightarrow> nat list \<Rightarrow> u8 \<Rightarrow> nat option \<Rightarrow> u8 \<Rightarrow> (nat option \<times> u8) option" where
  "list_scan there first counter [] skip ef n = Some (ef, n)"
| "list_scan there first counter (i # is) skip ef n = do {
     t \<leftarrow> there i;
     if t then
       let skip = skip + 1; hit = (skip = counter); ef = (if hit \<and> ef = None then Some i else ef)
       in if hit \<and> \<not> first then Some (ef, n)
          else list_scan there first counter is skip ef (if first then n + 1 else n)
     else list_scan there first counter is skip ef n
   }"

definition rp_there :: "fs \<Rightarrow> nat \<Rightarrow> bool option" where
  "rp_there fs i = do {
     let tef = search_dynamic_file fs (EF_RP + of_nat i);
     h \<leftarrow> file_has_data fs tef;
     if h then do { d \<leftarrow> file_bytes fs tef; n \<leftarrow> rd d 0; Some (n > 0) } else Some False
   }"

definition list_rp :: "bool \<Rightarrow> ctap \<Rightarrow> ctap_reply" where
  "list_rp first st = do {
     (ef, n) \<leftarrow> list_scan (rp_there (cfs st)) first (rp_counter st) [0 ..< MAX_RESIDENT_CREDENTIALS] 0 None (rp_total st);
     let st = st\<lparr>rp_total := n\<rparr>;
     (case ef of
        None \<Rightarrow> fail CTAP2_ERR_NO_CREDENTIALS st
      | Some i \<Rightarrow> do {
          d \<leftarrow> file_bytes (cfs st) (search_dynamic_file (cfs st) (EF_RP + of_nat i));
          h \<leftarrow> rd_slice d 1 32;
          answer (CMap ([CUint 3, CMap [CText text_id, CText (drop 33 d)], CUint 4, CBytes h] @
            (if first then [CUint 5, CUint (ucast n)] else []))) (st\<lparr>rp_counter := rp_counter st + 1\<rparr>)
        })
   }"

definition mgmt_rps :: "ctap_env \<Rightarrow> bool \<Rightarrow> mgmt_req \<Rightarrow> ctap \<Rightarrow> ctap_reply" where
  "mgmt_rps env preview q st =
     (if mg_subcommand q = 0x02 then
        mgmt_guard env q [0x02] (denied_all preview st) st (list_rp True (st\<lparr>rp_counter := 1, rp_total := 0\<rparr>))
      else if rp_counter st > rp_total st then fail CTAP2_ERR_NOT_ALLOWED st
      else list_rp False st)"

text \<open>The hash that is compared, \<open>None\<close> for NULL.\<close>

definition cred_there :: "fs \<Rightarrow> bytes option \<Rightarrow> nat \<Rightarrow> bool option" where
  "cred_there fs hash i = do {
     let tef = search_dynamic_file fs (EF_CRED + of_nat i);
     h \<leftarrow> file_has_data fs tef;
     if h then do {
       d \<leftarrow> file_bytes fs tef;
       p \<leftarrow> rd_slice d 0 32;
       x \<leftarrow> hash;
       x \<leftarrow> rd_slice x 0 32;
       Some (p = x)
     } else Some False
   }"

text \<open>\<^verbatim>\<open>CBOR_FREE_BYTE_STRING(rpIdHash)\<close> at the end of a command that goes on with the kept hash.\<close>

definition drop_hash :: "bool \<Rightarrow> ctap \<Rightarrow> ctap" where
  "drop_hash first st = (if first \<or> rpIdHashx st = NoHash then st else st\<lparr>rpIdHashx := Freed\<rparr>)"

definition user_map :: "credential \<Rightarrow> cbor" where
  "user_map cred = CMap (
     (case userId cred of Some b \<Rightarrow> [CText text_id, CBytes b] | None \<Rightarrow> []) @
     (case userName cred of Some b \<Rightarrow> [CText text_name, CText b] | None \<Rightarrow> []) @
     (case userDisplayName cred of Some b \<Rightarrow> [CText text_displayName, CText b] | None \<Rightarrow> []))"

definition ext_items :: "credential \<Rightarrow> bytes \<Rightarrow> cbor list" where
  "ext_items cred lbk =
     (let x = extensions cred in
      if ext_present x then
        (if credProtect x > 0 then [CUint 0x0A, CUint (credProtect x)] else []) @
        (if largeBlobKey x = Some True then [CUint 0x0B, CBytes lbk] else []) @
        [CUint 0x0C, CBool (thirdPartyPayment x = Some True)]
      else [CUint 0x0C, CBool False])"

text \<open>The answer for the credential \<open>cred\<close> with its key.\<close>

definition tell_cred :: "ctap_env \<Rightarrow> bool \<Rightarrow> credential \<Rightarrow> bytes \<Rightarrow> ec_key \<Rightarrow> bytes option \<Rightarrow> ctap \<Rightarrow> ctap_reply" where
  "tell_cred env first cred cid key hash st = do {
     let st = st\<lparr>cred_counter := cred_counter st + 1\<rparr>;
     let st = (if cred_counter st \<le> cred_total st
               then (case hash of Some h \<Rightarrow> st\<lparr>rpIdHashx := Hash h\<rparr> | None \<Rightarrow> st) else drop_hash first st);
     (ret, lbk) \<leftarrow> (if ext_present (extensions cred) \<and> largeBlobKey (extensions cred) = Some True
                    then credential_derive_large_blob_key env cid st else Some (0, []));
     if ret \<noteq> 0 then fail CTAP2_ERR_PROCESSING st
     else answer (CMap ([CUint 6, user_map cred, CUint 7, CMap [CText text_id, CBytes cid, CText text_type, CText text_public_key],
         CUint 8, COSE_key env key] @ (if first then [CUint 9, CUint (ucast (cred_total st))] else []) @ ext_items cred lbk)) st
   }"

definition list_cred :: "ctap_env \<Rightarrow> bool \<Rightarrow> bytes option \<Rightarrow> ctap \<Rightarrow> ctap_reply" where
  "list_cred env first hash st = do {
     (ef, n) \<leftarrow> list_scan (cred_there (cfs st) hash) first (cred_counter st) [0 ..< MAX_RESIDENT_CREDENTIALS] 0 None (cred_total st);
     let st = st\<lparr>cred_total := n\<rparr>;
     (case ef of
        None \<Rightarrow> fail CTAP2_ERR_NO_CREDENTIALS (drop_hash first st)
      | Some i \<Rightarrow> do {
          d \<leftarrow> file_bytes (cfs st) (search_dynamic_file (cfs st) (EF_CRED + of_nat i));
          h \<leftarrow> hash;
          let cid = drop 32 d;
          l \<leftarrow> credential_load env cid h no_credential st;
          (case l of
             Inl _ \<Rightarrow> fail CTAP2_ERR_NOT_ALLOWED (drop_hash first st)
           | Inr cred \<Rightarrow> do {
               (r, key) \<leftarrow> fido_load_key env (cr_curve cred) cid st;
               if r \<noteq> 0 then fail CTAP2_ERR_NOT_ALLOWED (drop_hash first st)
               else do { k \<leftarrow> key; tell_cred env first cred cid k hash st }
             })
        })
   }"

text \<open>Going on with a hash that was given back to the heap is undefined.\<close>

definition mgmt_creds :: "ctap_env \<Rightarrow> bool \<Rightarrow> bytes \<Rightarrow> mgmt_req \<Rightarrow> ctap \<Rightarrow> ctap_reply" where
  "mgmt_creds env preview raw q st =
     (if mg_subcommand q = 0x04 then
        (if mg_rpIdHash q = None then fail CTAP2_ERR_MISSING_PARAMETER st
         else mgmt_guard env q (0x04 # raw) (denied_rp preview q st) st
           (list_cred env True (mg_rpIdHash q) (st\<lparr>cred_counter := 1, cred_total := 0\<rparr>)))
      else if cred_counter st > cred_total st then fail CTAP2_ERR_NOT_ALLOWED st
      else (case rpIdHashx st of
        Freed \<Rightarrow> None
      | NoHash \<Rightarrow> list_cred env False None st
      | Hash h \<Rightarrow> list_cred env False (Some h) st))"

section \<open>Deleting and updating\<close>

text \<open>The first credential with the identifier, compared over the shorter length.\<close>

fun find_id :: "fs \<Rightarrow> bytes \<Rightarrow> nat list \<Rightarrow> nat option option" where
  "find_id fs cid [] = Some None"
| "find_id fs cid (i # is) = do {
     let ef = search_dynamic_file fs (EF_CRED + of_nat i);
     h \<leftarrow> file_has_data fs ef;
     if \<not> h then find_id fs cid is
     else do {
       d \<leftarrow> file_bytes fs ef;
       p \<leftarrow> rd_slice d 0 32;
       if same_prefix (Some (drop 32 d)) (Some cid) then Some (Some i) else find_id fs cid is
     }
   }"

text \<open>One credential less for a relying party; the file goes with the last one.\<close>

fun uncount_rp :: "bytes \<Rightarrow> nat list \<Rightarrow> fs \<Rightarrow> fs option" where
  "uncount_rp rp [] fs = Some fs"
| "uncount_rp rp (j # js) fs = do {
     let ef = search_dynamic_file fs (EF_RP + of_nat j);
     h \<leftarrow> file_has_data fs ef;
     if \<not> h then uncount_rp rp js fs
     else do {
       d \<leftarrow> file_bytes fs ef;
       p \<leftarrow> rd_slice d 1 32;
       if p \<noteq> rp then uncount_rp rp js fs
       else if d ! 0 - 1 = 0 then map_option snd (delete_file fs ef)
       else map_option snd (write_file fs ef (d[0 := d ! 0 - 1]))
     }
   }"

text \<open>
  The hash of the relying party is read from the record after the record was removed: its bytes are still in the flash.
\<close>

definition delete_cred :: "bytes \<Rightarrow> ctap \<Rightarrow> ctap_reply" where
  "delete_cred cid st = do {
     s \<leftarrow> find_id (cfs st) cid [0 ..< MAX_RESIDENT_CREDENTIALS];
     (case s of
        None \<Rightarrow> fail CTAP2_ERR_NO_CREDENTIALS st
      | Some i \<Rightarrow> do {
          let ef = search_dynamic_file (cfs st) (EF_CRED + of_nat i);
          d \<leftarrow> file_bytes (cfs st) ef;
          (r, fs) \<leftarrow> delete_file (cfs st) ef;
          if r \<noteq> 0 then fail CTAP2_ERR_NOT_ALLOWED (st\<lparr>cfs := fs\<rparr>)
          else do {
            fs \<leftarrow> uncount_rp (take 32 d) [0 ..< MAX_RESIDENT_CREDENTIALS] fs;
            fine (st\<lparr>cfs := fs\<rparr>)
          }
        })
   }"

definition mgmt_delete :: "ctap_env \<Rightarrow> bool \<Rightarrow> bytes \<Rightarrow> mgmt_req \<Rightarrow> ctap \<Rightarrow> ctap_reply" where
  "mgmt_delete env preview raw q st =
     (case mg_id q of
        None \<Rightarrow> fail CTAP2_ERR_MISSING_PARAMETER st
      | Some cid \<Rightarrow> mgmt_guard env q (0x06 # raw) (denied_rp preview q st) st (delete_cred cid st))"

text \<open>
  A new identifier with other names.  \<^verbatim>\<open>use_sign_count\<close> is passed as the pointer, which is true when it is not NULL.
\<close>

definition update_cred :: "ctap_env \<Rightarrow> (nat \<Rightarrow> u8) \<Rightarrow> u32 \<Rightarrow> bytes \<Rightarrow> bytes \<Rightarrow> mgmt_req \<Rightarrow> ctap \<Rightarrow> ctap_reply" where
  "update_cred env junk now cid uid q st = do {
     s \<leftarrow> find_id (cfs st) cid [0 ..< MAX_RESIDENT_CREDENTIALS];
     (case s of
        None \<Rightarrow> fail CTAP2_ERR_NO_CREDENTIALS st
      | Some i \<Rightarrow> do {
          d \<leftarrow> file_bytes (cfs st) (search_dynamic_file (cfs st) (EF_CRED + of_nat i));
          l \<leftarrow> credential_load env (drop 32 d) (take 32 d) no_credential st;
          (case l of
             Inl _ \<Rightarrow> fail CTAP2_ERR_NOT_ALLOWED st
           | Inr cred \<Rightarrow>
               if \<not> same_prefix (Some uid) (userId cred) then fail CTAP1_ERR_INVALID_PARAMETER st
               else do {
                 (r, newcred, st) \<leftarrow> credential_create env now
                   (cred\<lparr>userName := mg_user_name q, userDisplayName := mg_user_displayName q,
                      use_sign_count := Some (use_sign_count cred \<noteq> None)\<rparr>) (map junk [0 ..< 1024]) st;
                 if r \<noteq> 0 then fail CTAP2_ERR_NOT_ALLOWED st
                 else do {
                   (r, st) \<leftarrow> credential_store env newcred (take 32 d) st;
                   if r \<noteq> 0 then fail CTAP2_ERR_NOT_ALLOWED st else fine st
                 }
               })
        })
   }"

definition mgmt_update :: "ctap_env \<Rightarrow> (nat \<Rightarrow> u8) \<Rightarrow> u32 \<Rightarrow> bool \<Rightarrow> bytes \<Rightarrow> mgmt_req \<Rightarrow> ctap \<Rightarrow> ctap_reply" where
  "mgmt_update env junk now preview raw q st =
     (case (mg_id q, mg_user_id q) of
        (Some cid, Some uid) \<Rightarrow>
          mgmt_guard env q (0x07 # raw) (denied_rp preview q st) st (update_cred env junk now cid uid q st)
      | _ \<Rightarrow> fail CTAP2_ERR_MISSING_PARAMETER st)"

section \<open>The command\<close>

text \<open>Another subcommand closes a container that was never opened.\<close>

definition cred_mgmt :: "ctap_env \<Rightarrow> (nat \<Rightarrow> u8) \<Rightarrow> u32 \<Rightarrow> bool \<Rightarrow> bytes \<Rightarrow> mgmt_req \<Rightarrow> ctap \<Rightarrow> ctap_reply" where
  "cred_mgmt env junk now preview raw q st =
     (let n = mg_subcommand q in
      if n \<noteq> 0x03 \<and> n \<noteq> 0x05 \<and> mg_param q = None then fail CTAP2_ERR_PUAT_REQUIRED st
      else if n \<noteq> 0x03 \<and> n \<noteq> 0x05 \<and> mg_protocol q \<noteq> 1 \<and> mg_protocol q \<noteq> 2 then fail CTAP1_ERR_INVALID_PARAMETER st
      else if n = 0x01 then mgmt_metadata env preview q st
      else if n = 0x02 \<or> n = 0x03 then mgmt_rps env preview q st
      else if n = 0x04 \<or> n = 0x05 then mgmt_creds env preview raw q st
      else if n = 0x06 then mgmt_delete env preview raw q st
      else if n = 0x07 then mgmt_update env junk now preview raw q st
      else None)"

definition cbor_cred_mgmt :: "ctap_env \<Rightarrow> (nat \<Rightarrow> u8) \<Rightarrow> u32 \<Rightarrow> bool \<Rightarrow> bytes \<Rightarrow> cbor \<Rightarrow> ctap \<Rightarrow> ctap_reply" where
  "cbor_cred_mgmt env junk now preview raw request st =
     (case cbor_next [request] (\<lambda>items. parse_map_end items (mgmt_loop 1 no_mgmt_req) (\<lambda>q _. Inr (Some q))) of
        Inl e \<Rightarrow> fail (cerr_code e) st
      | Inr None \<Rightarrow> None
      | Inr (Some q) \<Rightarrow> cred_mgmt env junk now preview raw q st)"

end
