(* ===== verification/DeviceProps.thy ===== *)
theory DeviceProps
  imports DeviceKey PinProps
begin

text \<open>
  The key handles of U2F: a handle that the token makes is recognised for its application, and only by the code that
  seals it.
\<close>

section \<open>Key handles\<close>

definition path_word :: "bytes \<Rightarrow> nat \<Rightarrow> bytes" where "path_word h i = take 4 (drop (4 * i) h)"

definition is_hard :: "bytes \<Rightarrow> bool" where "is_hard w \<longleftrightarrow> (of_nat (le_val w) :: u32) AND 0x80000000 \<noteq> 0"

lemma hardened_length [simp]: "length (hardened w) = 4" by (simp add: hardened_def)

lemma hardened_hard: "is_hard (hardened w)"
proof -
  define x :: u32 where "x = of_nat (le_val w) OR 0x80000000"
  have "unat x < 256 ^ 4" using unsigned_less [of x] by simp
  then have "(of_nat (le_val (hardened w)) :: u32) = x" by (simp add: hardened_def x_def le_val_le_bytes_id)
  moreover have "x AND 0x80000000 = 0x80000000" unfolding x_def by (simp add: bit.conj_disj_distrib2)
  ultimately show ?thesis by (simp add: is_hard_def)
qed

lemma word_after_write:
  assumes "wr_slice h (4 * i) w = Some h'" and "length w = 4"
  shows "length h' = length h" "path_word h' i = w" "j < i \<Longrightarrow> path_word h' j = path_word h j"
    "take (4 * i) h' = take (4 * i) h" "4 * i + 4 \<le> 32 \<Longrightarrow> drop 32 h' = drop 32 h"
proof -
  have e: "4 * i + 4 \<le> length h" "h' = take (4 * i) h @ w @ drop (4 * i + 4) h"
    using assms by (auto simp: wr_slice_def split: if_splits)
  show "length h' = length h" "path_word h' i = w" "take (4 * i) h' = take (4 * i) h"
    "4 * i + 4 \<le> 32 \<Longrightarrow> drop 32 h' = drop 32 h"
    using e assms(2) by (simp_all add: path_word_def)
  assume "j < i"
  then have "4 * j + 4 \<le> 4 * i" by simp
  have "path_word h' j = drop (4 * j) (take (4 * j + 4) (take (4 * i) h'))"
    using \<open>4 * j + 4 \<le> 4 * i\<close> by (simp add: path_word_def take_drop min_def add.commute)
  also have "\<dots> = drop (4 * j) (take (4 * j + 4) (take (4 * i) h))" using \<open>take (4 * i) h' = take (4 * i) h\<close> by simp
  also have "\<dots> = path_word h j" using \<open>4 * j + 4 \<le> 4 * i\<close> by (simp add: path_word_def take_drop min_def add.commute)
  finally show "path_word h' j = path_word h j" .
qed

text \<open>A new path can be derived again from its handle.\<close>

lemma derive_path_again:
  assumes "derive_path env True [i ..< n] h outk st = Some (h', outk', st')" and "n \<le> 8" and "ctap_law env"
  shows "length h' = length h \<and> length outk' = length outk \<and> take (4 * i) h' = take (4 * i) h \<and> drop 32 h' = drop 32 h \<and>
    (\<forall>j. i \<le> j \<longrightarrow> j < n \<longrightarrow> is_hard (path_word h' j)) \<and> (\<exists>d. st' = st\<lparr>draws := d\<rparr>) \<and>
    (\<forall>st2. derive_path env False [i ..< n] h' outk st2 = Some (h', outk', st2))"
  using assms(1)
proof (induction "n - i" arbitrary: i h outk st)
  case 0
  then show ?case by (auto intro: exI [of _ "draws st"])
next
  case (Suc k)
  then have up: "[i ..< n] = i # [Suc i ..< n]" and k: "k = n - Suc i" and i: "i < n" by (simp_all add: upt_conv_Cons)
  obtain h1 where w: "wr_slice h (4 * i) (hardened (rand env (draws st) 4)) = Some h1"
    and s: "rd_slice h1 (4 * i) 4 = Some (path_word h1 i)"
    and rest: "derive_path env True [Suc i ..< n] h1 (path_step env (path_word h1 i) outk) (st\<lparr>draws := draws st + 1\<rparr>) = Some (h', outk', st')"
    using Suc.prems unfolding up by (auto simp: draw_def path_word_def rd_slice_eq_Some split: bind_splits)
  note w1 = word_after_write [OF w, simplified]
  note ih = Suc.hyps(1) [OF k rest]
  have 4: "4 * i + 4 \<le> 32" using i assms(2) by simp
  have t: "take (4 * i + 4) h' = take (4 * i + 4) h1" using ih by (simp add: add.commute)
  have wi: "path_word h' i = path_word h1 i"
    using arg_cong [OF t, of "drop (4 * i)"] by (simp add: path_word_def drop_take)
  have t0: "take (4 * i) h' = take (4 * i) h" using arg_cong [OF t, of "take (4 * i)"] w1(4) by (simp add: min_def)
  have "rd_slice h' (4 * i) 4 = Some (path_word h' i)" using s ih by (simp add: rd_slice_def path_word_def split: if_splits)
  then have again: "derive_path env False [i ..< n] h' outk st2 = Some (h', outk', st2)" for st2
    using ih wi unfolding up by simp
  have hard: "is_hard (path_word h' j)" if "i \<le> j" "j < n" for j
    using that ih wi w1(2) hardened_hard by (cases "i = j") auto
  have "length outk' = length outk" using ih assms(3) by (simp add: ctap_law_def)
  then show ?case using ih w1(1,5) 4 t0 again hard by auto
qed

lemma load_keydev_draws [simp]: "load_keydev (st\<lparr>draws := d\<rparr>) key = load_keydev st key"
  by (simp add: load_keydev_def Let_def cong: if_cong split: option.split)

lemma load_keydev_length: "load_keydev st key = Some (r, key') \<Longrightarrow> length key' = length key"
  by (auto simp: load_keydev_def Let_def dest!: wr_slice_length split: option.splits if_splits bind_splits)

text \<open>What is behind the path does not matter.\<close>

lemma derive_path_reads:
  "\<forall>i \<in> set is. rd_slice h (4 * i) 4 = rd_slice h' (4 * i) 4 \<Longrightarrow>
    derive_path env False is h outk st = map_option (\<lambda>(_, y, z). (h, y, z)) (derive_path env False is h' outk st)"
proof (induction "is" arbitrary: outk st)
  case (Cons i js)
  then have e: "rd_slice h (4 * i) 4 = rd_slice h' (4 * i) 4" by simp
  have ih: "derive_path env False js h o1 s = map_option (\<lambda>(_, y, z). (h, y, z)) (derive_path env False js h' o1 s)" for o1 s
    using Cons by simp
  show ?case using e by (cases "rd_slice h' (4 * i) 4") (simp_all add: ih)
qed simp

text \<open>
  A new handle leads to the same key again, and is accepted when its code is the right one, also as the beginning of a
  longer buffer.
\<close>

lemma handle_again:
  assumes d: "derive_key env app True buf SECP256R1 True st = Some (0, handle, Some k, st')" and law: "ctap_law env"
    and buf: "length buf = 64" and app: "length app = 32"
  obtains secret tag where "length handle = 64" "length secret = 32" "take 32 (drop 32 handle) = tag" "md_hmac (lib env) MD_SHA256 secret (app @ take 32 handle) = Some tag"
    "\<exists>n. st' = st\<lparr>draws := n\<rparr>"
    "\<And>st2 a more. (\<And>key. load_keydev st2 key = load_keydev st key) \<Longrightarrow>
      derive_key env a False (handle @ more) SECP256R1 True st2 = Some (0, handle @ more, Some k, st2)"
    "\<And>st2 a more key. (\<And>key. load_keydev st2 key = load_keydev st key) \<Longrightarrow> length a = 32 \<Longrightarrow> key = None \<or> key = Some k \<Longrightarrow>
      verify_key env a (handle @ more) key st2 =
        map_option (\<lambda>t. if t = tag then 0 else 1) (md_hmac (lib env) MD_SHA256 secret (a @ take 32 handle))"
proof -
  obtain outk where l: "load_keydev st (replicate 67 0) = Some (CCID_OK, outk)"
    using d by (auto simp: derive_key_def split: bind_splits if_splits)
  obtain h1 o1 st1 where p: "derive_path env True [0 ..< 8] buf outk st = Some (h1, o1, st1)"
    and s: "seal_handle env app h1 o1 = Some (0, handle)" and c: "curve_key env SECP256R1 o1 = Some (0, Some k)" and st1: "st' = st1"
    using d l by (auto simp: derive_key_def KEY_PATH_ENTRIES_def split: bind_splits if_splits)
  note again = derive_path_again [OF p order_refl law]
  have lo: "length o1 = 67" "length h1 = 64" using again load_keydev_length [OF l] buf by simp_all
  obtain tag where tag: "md_hmac (lib env) MD_SHA256 (take 32 o1) (app @ take 32 h1) = Some tag"
    and h: "wr_slice h1 32 tag = Some handle"
    using s app lo by (auto simp: seal_handle_def rd_slice_def KEY_PATH_LEN_def MBEDTLS_ERR_MD_BAD_INPUT_DATA_def split: option.splits bind_splits)
  have lt: "length tag = 32" using law tag by (auto simp: ctap_law_def crypto_law_def)
  have handle: "handle = take 32 h1 @ tag" using h lo lt by (simp add: wr_slice_def)
  have t32: "take 32 handle = take 32 h1" "length handle = 64" "take 32 (drop 32 handle) = tag" using handle lo lt by simp_all
  have sl: "rd_slice (handle @ more) (4 * i) 4 = rd_slice h1 (4 * i) 4" if "i < 8" for i more
  proof -
    have "take 4 (drop (4 * i) (handle @ more)) = take 4 (drop (4 * i) (take 32 h1))"
      using that handle lo by (simp add: take_drop min_def)
    also have "\<dots> = take 4 (drop (4 * i) h1)" using that by (simp add: take_drop min_def)
    finally show ?thesis using that lo t32(2) by (simp add: rd_slice_def)
  qed
  have path: "derive_path env False [0 ..< 8] (handle @ more) outk st2 = Some (handle @ more, o1, st2)" for st2 more
    using derive_path_reads [of "[0 ..< 8]" "handle @ more" h1 env outk st2] sl again by simp
  have der: "derive_key env a False (handle @ more) SECP256R1 True st2 = Some (0, handle @ more, Some k, st2)"
    if "\<And>key. load_keydev st2 key = load_keydev st key" for a st2 more
    using l path c that by (simp add: derive_key_def KEY_PATH_ENTRIES_def)
  obtain dd where k: "k = (SECP256R1, dd)" "read_key env SECP256R1 (take 32 o1) = Some dd"
    using c lo by (auto simp: curve_key_def rd_slice_def split: option.splits)
  have wk: "write_key env k 32 = Some (take 32 o1)" using law k lo by (simp add: ctap_law_def)
  have hard: "\<forall>i \<in> set [0 ..< KEY_PATH_ENTRIES]. (of_nat (le_val (take 4 (drop (4 * i) (take 32 h1)))) :: u32) AND 0x80000000 \<noteq> 0"
  proof
    fix i assume "i \<in> set [0 ..< KEY_PATH_ENTRIES]"
    then have i: "i < 8" by (simp add: KEY_PATH_ENTRIES_def)
    then have "take 4 (drop (4 * i) (take 32 h1)) = path_word h1 i" by (simp add: path_word_def take_drop min_def)
    moreover have "is_hard (path_word h1 i)" using again i by simp
    ultimately show "(of_nat (le_val (take 4 (drop (4 * i) (take 32 h1)))) :: u32) AND 0x80000000 \<noteq> 0" by (simp add: is_hard_def)
  qed
  have v: "verify_key env a (handle @ more) key st2 =
      map_option (\<lambda>t. if t = tag then 0 else 1) (md_hmac (lib env) MD_SHA256 (take 32 o1) (a @ take 32 h1))"
    if "\<And>key. load_keydev st2 key = load_keydev st key" "length a = 32" "key = None \<or> key = Some k" for a st2 more key
    using that(2,3) der [OF that(1)] wk hard t32 handle lo lt
    by (auto simp: verify_key_def rd_slice_def KEY_PATH_LEN_def split: option.splits bind_splits)
  have st: "\<exists>n. st' = st\<lparr>draws := n\<rparr>" using again st1 by auto
  show ?thesis by (rule that [of "take 32 o1" tag]) (use t32 lo tag st der v in auto)
qed

text \<open>
  C31: when the token makes a handle for an application with \<^verbatim>\<open>derive_key\<close>, \<^verbatim>\<open>verify_key\<close> accepts it for this
  application, also after other files and random numbers were used, as long as the device key is the same.  For
  another application it accepts the handle exactly when both have the same code.
\<close>

theorem key_handle_verifies:
  assumes d: "derive_key env app True buf SECP256R1 True st = Some (0, handle, Some k, st')" and law: "ctap_law env"
    and buf: "length buf = 64" and app: "length app = 32" "length app' = 32"
    and same: "\<And>key. load_keydev st2 key = load_keydev st key"
  shows "\<exists>secret tag. take 32 (drop 32 handle) = tag \<and> md_hmac (lib env) MD_SHA256 secret (app @ take 32 handle) = Some tag \<and>
    verify_key env app handle None st2 = Some 0 \<and>
    verify_key env app' handle None st2 =
      map_option (\<lambda>t. if t = tag then 0 else 1) (md_hmac (lib env) MD_SHA256 secret (app' @ take 32 handle))"
proof -
  from handle_again [OF d law buf app(1)] obtain secret tag where h: "take 32 (drop 32 handle) = tag"
    "md_hmac (lib env) MD_SHA256 secret (app @ take 32 handle) = Some tag"
    "\<And>a. length a = 32 \<Longrightarrow> verify_key env a (handle @ []) None st2 =
      map_option (\<lambda>t. if t = tag then 0 else 1) (md_hmac (lib env) MD_SHA256 secret (a @ take 32 handle))"
    using same by metis
  show ?thesis using h(1,2) h(3) [OF app(1)] h(3) [OF app(2)] by (intro exI [of _ secret] exI [of _ tag]) simp
qed

lemma derive_path_total:
  assumes "4 * n \<le> length h"
  shows "\<exists>h' o' st'. derive_path env True [i ..< n] h outk st = Some (h', o', st') \<and> length h' = length h"
  using assms
proof (induction "n - i" arbitrary: i h outk st)
  case (Suc k)
  then have up: "[i ..< n] = i # [Suc i ..< n]" and k: "k = n - Suc i" and i: "i < n" by (simp_all add: upt_conv_Cons)
  let ?h1 = "take (4 * i) h @ hardened (rand env (draws st) 4) @ drop (4 * i + 4) h"
  have w: "wr_slice h (4 * i) (hardened (rand env (draws st) 4)) = Some ?h1" "length ?h1 = length h"
    using Suc.prems i by (simp_all add: wr_slice_def)
  have "rd_slice ?h1 (4 * i) 4 = Some (path_word ?h1 i)" using w(2) Suc.prems i by (simp add: rd_slice_def path_word_def)
  then show ?case
    using Suc.hyps(1) [OF k, of ?h1 "path_step env (path_word ?h1 i) outk" "st\<lparr>draws := draws st + 1\<rparr>"] Suc.prems w up
    by (simp add: draw_def)
qed simp

definition keyed_ctap :: ctap where "keyed_ctap = sample_ctap roomy_fs\<lparr>keydev_dec := Some (replicate 32 7)\<rparr>"

theorem key_handle_verifies_witness:
  "\<exists>handle k st'. derive_key sample_ctap_env (replicate 32 1) True (replicate 64 0) SECP256R1 True keyed_ctap = Some (0, handle, Some k, st') \<and>
     verify_key sample_ctap_env (replicate 32 1) handle None keyed_ctap = Some 0"
proof -
  have l: "load_keydev keyed_ctap (replicate 67 0) = Some (CCID_OK, replicate 32 7 @ replicate 35 0)"
    by (simp add: load_keydev_def keyed_ctap_def wr_slice_def drop_replicate)
  obtain h o1 st1 where p: "derive_path sample_ctap_env True [0 ..< 8] (replicate 64 0) (replicate 32 7 @ replicate 35 0) keyed_ctap = Some (h, o1, st1)"
    and h: "length h = 64"
    using derive_path_total [of 8 "replicate 64 0" sample_ctap_env 0 "replicate 32 7 @ replicate 35 0" keyed_ctap] by auto
  have o1: "length o1 = 67" using derive_path_again [OF p order_refl sample_ctap_law] by simp
  obtain handle k where d: "derive_key sample_ctap_env (replicate 32 1) True (replicate 64 0) SECP256R1 True keyed_ctap = Some (0, handle, Some k, st1)"
    using l p h o1
    by (auto simp: derive_key_def KEY_PATH_ENTRIES_def seal_handle_def KEY_PATH_LEN_def rd_slice_def wr_slice_def curve_key_def
        sample_ctap_env_def sample_crypto_def toy_hash_def)
  from key_handle_verifies [OF d sample_ctap_law, of "replicate 32 1" keyed_ctap] d show ?thesis by auto
qed

section \<open>The first start\<close>

lemma more_static_fids: "\<not> dyn_fid EF_KEY_DEV" "\<not> dyn_fid EF_KEY_DEV_ENC" "\<not> dyn_fid EF_EE_DEV" "\<not> dyn_fid EF_EE_DEV_EA"
  by (simp_all add: dyn_fid_def file_table_def internal_ef_def fid_defs FILE_TYPE_INTERNAL_EF_def FILE_DATA_FLASH_def)

lemmas all_static = static_fids more_static_fids

definition factory_files :: "u16 set" where
  "factory_files = {EF_KEY_DEV, EF_EE_DEV, EF_COUNTER, EF_AUTHTOKEN, EF_LARGEBLOB}"

definition filled :: "ctap \<Rightarrow> ctap \<Rightarrow> bool" where
  "filled st st' \<longleftrightarrow> fs_inv (cfs st') \<and> keydev_dec st' = keydev_dec st \<and> (\<forall>fi. has (cfs st) fi \<longrightarrow> fget (cfs st') fi = fget (cfs st) fi) \<and>
     (\<forall>fi. fi \<notin> factory_files \<longrightarrow> fget (cfs st') fi = fget (cfs st) fi)"

lemma filled_refl: "fs_inv (cfs st) \<Longrightarrow> filled st st" by (simp add: filled_def)

lemma filled_trans: "filled st st1 \<Longrightarrow> filled st1 st2 \<Longrightarrow> filled st st2"
  unfolding filled_def has_def by metis

definition good_step :: "scan_step \<Rightarrow> ctap \<Rightarrow> bool" where
  "good_step s st \<longleftrightarrow> (\<exists>r st'. s = Some (r, st') \<and> filled st st')"

lemma good_then: "good_step s st \<Longrightarrow> (\<And>st'. filled st st' \<Longrightarrow> good_step (k st') st') \<Longrightarrow> good_step (then_scan s k) st"
  unfolding good_step_def then_scan_def by (auto split: option.splits) (metis filled_trans option.exhaust)+

lemma is_empty_spec: "fs_inv (cfs st) \<Longrightarrow> \<not> dyn_fid fi \<Longrightarrow> is_empty fi st = Some (\<not> has (cfs st) fi)"
  by (simp add: is_empty_def static_lookup has_ref)

lemma fill_file_spec:
  assumes inv: "fs_inv (cfs st)" and fi: "\<not> dyn_fid fi" "fi \<in> factory_files" and len: "length bs \<le> 4096" and no: "\<not> has (cfs st) fi"
  shows "\<exists>r st'. fill_file fi bs st = Some (r, st') \<and> filled st st'"
proof -
  obtain r fs' where w: "write_file (cfs st) (lookup (cfs st) fi) bs = Some (r, fs')" "fs_inv fs'"
    "fget fs' = (fget (cfs st))(fi \<mapsto> bs) \<or> fget fs' = (fget (cfs st))(fi := None)"
    using write_ref [OF inv len, of fi] by auto
  have "has (cfs st) g \<Longrightarrow> g \<noteq> fi" for g using no by auto
  then have "filled st (st\<lparr>cfs := fs'\<rparr>)" using w(2,3) fi(2) by (auto simp: filled_def)
  then show ?thesis using w(1) by (auto simp: fill_file_def static_lookup [OF inv fi(1)])
qed

lemma static_ref: "fs_inv fs \<Longrightarrow> \<not> dyn_fid fi \<Longrightarrow> \<exists>r. lookup fs fi = Some r"
  using static_lookup [of fs fi] by (auto simp: dyn_fid_def search_ef_table)

definition content :: "fs \<Rightarrow> u16 \<Rightarrow> bytes" where "content fs fi = case_option [] id (fget fs fi)"

lemma pointed_content: "fs_inv fs \<Longrightarrow> \<not> dyn_fid fi \<Longrightarrow> pointed fs (search_ef fs fi) = Some (content fs fi)"
  using static_ref [of fs fi] by (auto simp: pointed_def static_lookup content_def file_get_data_lookup)

definition cert_law :: "(nat \<Rightarrow> bytes \<Rightarrow> int + bytes) \<Rightarrow> bool" where
  "cert_law cert \<longleftrightarrow> (\<forall>d s c. cert d s = Inr c \<longrightarrow> c \<noteq> [] \<and> length c \<le> 4096) \<and> (\<forall>d s e. cert d s = Inl e \<longrightarrow> e \<noteq> 0)"

lemma filled_draws: "filled (st\<lparr>draws := n\<rparr>) st' = filled st st'" "fs_inv (cfs st) \<Longrightarrow> filled st (st\<lparr>draws := n\<rparr>)"
  by (simp_all add: filled_def)

lemma in_factory [simp]: "EF_KEY_DEV \<in> factory_files" "EF_EE_DEV \<in> factory_files" "EF_COUNTER \<in> factory_files"
    "EF_AUTHTOKEN \<in> factory_files" "EF_LARGEBLOB \<in> factory_files"
  by (simp_all add: factory_files_def)

lemma scan_steps:
  assumes inv: "fs_inv (cfs st)" and law: "ctap_law env" "cert_law cert"
  shows "good_step (scan_keydev env st) st" "good_step (scan_certdev env cert st) st" "good_step (scan_counter st) st"
    "good_step (scan_token env st) st" "good_step (scan_largeblob st) st"
proof -
  note e = is_empty_spec [OF inv] all_static
  have d: "fs_inv (cfs (st\<lparr>draws := n\<rparr>))" for n using inv by simp
  show "good_step (scan_keydev env st) st"
  proof (cases "has (cfs st) EF_KEY_DEV \<or> has (cfs st) EF_KEY_DEV_ENC")
    case False
    define bs where "bs = dropWhile (\<lambda>b. b = 0) (rand env (draws st) 32)"
    have "length bs \<le> 4096" unfolding bs_def
      using length_dropWhile_le [of "\<lambda>b. b = 0" "rand env (draws st) 32"] by (simp add: ctap_lawD [OF law(1)])
    from fill_file_spec [OF d _ _ this, of EF_KEY_DEV] False obtain r st' where
      "fill_file EF_KEY_DEV bs (st\<lparr>draws := draws st + 1\<rparr>) = Some (r, st')" "filled st st'"
      by (simp add: filled_draws all_static) blast
    then show ?thesis using False by (auto simp: good_step_def scan_keydev_def e draw_def bs_def)
  qed (use inv in \<open>auto simp: good_step_def scan_keydev_def e filled_refl\<close>)
  show "good_step (scan_certdev env cert st) st"
  proof (cases "has (cfs st) EF_EE_DEV")
    case False
    have p: "pointed (cfs st) (search_ef (cfs st) EF_KEY_DEV) = Some (content (cfs st) EF_KEY_DEV)"
      by (rule pointed_content [OF inv]) (rule all_static)
    show ?thesis
    proof (cases "read_key env SECP256R1 (content (cfs st) EF_KEY_DEV)")
      case (Some s)
      show ?thesis
      proof (cases "cert s (rand env (draws st) 20)")
        case (Inr c)
        then have "c \<noteq> []" "length c \<le> 4096" using law(2) by (auto simp: cert_law_def)
        moreover from fill_file_spec [OF d _ _ this(2), of EF_EE_DEV] False obtain r st' where
          "fill_file EF_EE_DEV c (st\<lparr>draws := draws st + 1\<rparr>) = Some (r, st')" "filled st st'"
          by (simp add: filled_draws all_static) blast
        ultimately show ?thesis using False Some Inr p by (auto simp: good_step_def scan_certdev_def e draw_def)
      qed (use False Some p inv in \<open>auto simp: good_step_def scan_certdev_def e draw_def filled_draws\<close>)
    qed (use False p inv in \<open>auto simp: good_step_def scan_certdev_def e filled_refl\<close>)
  qed (use inv in \<open>auto simp: good_step_def scan_certdev_def e filled_refl\<close>)
  show "good_step (scan_counter st) st"
    using fill_file_spec [OF inv, of EF_COUNTER "[0, 0, 0, 0]"] inv by (auto simp: good_step_def scan_counter_def e filled_refl)
  show "good_step (scan_largeblob st) st"
    using fill_file_spec [OF inv, of EF_LARGEBLOB empty_large_blob] inv
    by (auto simp: good_step_def scan_largeblob_def e filled_refl empty_large_blob_def)
  show "good_step (scan_token env st) st"
  proof (cases "has (cfs st) EF_AUTHTOKEN")
    case True
    then show ?thesis using inv pointed_content [OF inv all_static(2)] by (auto simp: good_step_def scan_token_def e filled_def)
  next
    case False
    have "length (rand env (draws st) 32) \<le> 4096" by (simp add: ctap_lawD [OF law(1)])
    from fill_file_spec [OF d _ _ this, of EF_AUTHTOKEN] False obtain r st' where
      f: "fill_file EF_AUTHTOKEN (rand env (draws st) 32) (st\<lparr>draws := draws st + 1\<rparr>) = Some (r, st')" "filled st st'"
      by (simp add: filled_draws all_static) blast
    then have "fs_inv (cfs st')" by (simp add: filled_def)
    from pointed_content [OF this all_static(2)] f False show ?thesis
      by (auto simp: good_step_def scan_token_def e draw_def filled_def)
  qed
qed


lemma filled_inv: "filled st st' \<Longrightarrow> fs_inv (cfs st')" by (simp add: filled_def)

text \<open>With all files there a start writes nothing.\<close>

lemma scan_nothing:
  assumes inv: "fs_inv (cfs st)" and h: "\<forall>fi \<in> factory_files. has (cfs st) fi" and t: "token (paut st) = content (cfs st) EF_AUTHTOKEN"
  shows "scan_files env cert st = Some (CCID_OK, st)"
proof -
  have "scan_token env st = Some (None, st)"
    using h pointed_content [OF inv all_static(2)] t [symmetric] by (simp add: scan_token_def is_empty_spec [OF inv] all_static)
  then show ?thesis
    using h by (simp add: scan_files_def then_scan_def scan_keydev_def scan_certdev_def scan_counter_def scan_largeblob_def
        is_empty_spec [OF inv] all_static)
qed

lemma content_filled: "filled st st' \<Longrightarrow> has (cfs st) fi \<Longrightarrow> content (cfs st') fi = content (cfs st) fi"
  by (simp add: filled_def content_def)

lemma largeblob_only:
  assumes "scan_largeblob st = Some (r, st')" and inv: "fs_inv (cfs st)"
  shows "fget (cfs st') EF_AUTHTOKEN = fget (cfs st) EF_AUTHTOKEN"
proof -
  have d: "EF_AUTHTOKEN \<noteq> EF_LARGEBLOB" "length empty_large_blob \<le> 4096" by (simp_all add: fid_defs empty_large_blob_def)
  from write_ref [OF inv d(2), of EF_LARGEBLOB] assms(1) d(1) show ?thesis
    by (auto simp: scan_largeblob_def is_empty_spec [OF inv] fill_file_def static_lookup [OF inv] all_static split: if_splits)
qed

lemma early_return:
  assumes "cert_law cert"
  shows "scan_keydev env st = Some (Some e, st') \<Longrightarrow> e \<noteq> CCID_OK" "scan_certdev env cert st = Some (Some e, st') \<Longrightarrow> e \<noteq> CCID_OK"
proof -
  show "scan_keydev env st = Some (Some e, st') \<Longrightarrow> e \<noteq> CCID_OK"
    by (auto simp: scan_keydev_def draw_def split: bind_splits if_splits)
  show "scan_certdev env cert st = Some (Some e, st') \<Longrightarrow> e \<noteq> CCID_OK"
    using assms by (auto simp: scan_certdev_def draw_def cert_law_def ccid_defs MBEDTLS_ERR_ECP_INVALID_KEY_def
        split: bind_splits if_splits option.splits sum.splits)
qed


definition factory_list :: "(u16 \<times> bytes) list" where
  "factory_list = [(EF_KEY_DEV, replicate 32 7), (EF_EE_DEV, [0x30]), (EF_COUNTER, [0, 0, 0, 0]), (EF_AUTHTOKEN, replicate 32 0),
     (EF_LARGEBLOB, empty_large_blob)]"

definition factory_fs :: fs where "factory_fs = token_fs factory_list"

lemma factory_distinct: "distinct [EF_KEY_DEV, EF_EE_DEV, EF_COUNTER, EF_AUTHTOKEN, EF_LARGEBLOB]"
  by (simp add: fid_defs)

lemma factory_fs: "fs_inv factory_fs" "fget factory_fs = map_of factory_list"
  unfolding factory_fs_def
  by (rule token_fs; use factory_distinct in \<open>simp add: factory_list_def empty_large_blob_def\<close>)+


end
