(* ===== verification/CredProps.thy ===== *)
theory CredProps
  imports Credential DeviceProps
begin

text \<open>
  What the token writes into the identifier of a credential it reads back, and what the resident credentials promise.
\<close>

section \<open>The description\<close>

text \<open>Items that the decoder does not reject.\<close>

definition good :: "cbor list \<Rightarrow> bool" where "good xs \<longleftrightarrow> (case xs of CBad _ # _ \<Rightarrow> False | _ \<Rightarrow> True)"

lemma cbor_next_good [simp]: "good xs \<Longrightarrow> cbor_next xs k = k xs"
  by (auto simp: good_def cbor_next_def split: list.splits cbor.splits)

lemma good_Nil [simp]: "good []" and good_Cons [simp]: "good (CUint n # r)" "good (CBytes b # r)" "good (CText b # r)"
    "good (CBool x # r)" "good (CMap m # r)" "good (CNint n # r)"
  by (simp_all add: good_def)

lemma good_plain: "list_all plain_cbor xs \<Longrightarrow> good xs"
  by (cases xs) (auto simp: good_def split: cbor.splits)

lemma field_good [simp]: "good r \<Longrightarrow> field_uint (CUint n # r) k = k n r" "good r \<Longrightarrow> field_bytes (CBytes b # r) j = j b r"
    "good r \<Longrightarrow> field_text (CText t # r) l = l t r" "good r \<Longrightarrow> field_bool (CBool x # r) h = h x r"
  by (simp_all add: field_uint_def field_bytes_def field_text_def field_bool_def)

text \<open>What is left of a description: a string up to its first zero, and nothing of an empty one.\<close>

definition kept_string :: "bytes option \<Rightarrow> bytes option" where
  "kept_string v = (case v of Some b \<Rightarrow> if b \<noteq> [] then Some (c_string b) else None | None \<Rightarrow> None)"

definition kept_bytes :: "bytes option \<Rightarrow> bytes option" where
  "kept_bytes v = (case v of Some b \<Rightarrow> if b \<noteq> [] then Some b else None | None \<Rightarrow> None)"

definition kept_extensions :: "cred_extensions \<Rightarrow> cred_extensions" where
  "kept_extensions x = x\<lparr>minPinLength := None,
     credBlob := (case credBlob x of Some b \<Rightarrow> if length b < MAX_CREDBLOB_LENGTH then Some b else None | None \<Rightarrow> None),
     largeBlobKey := (if largeBlobKey x = Some True then Some True else None),
     thirdPartyPayment := (if thirdPartyPayment x = Some True then Some True else None), ext_present := True\<rparr>"

definition kept :: "u32 \<Rightarrow> credential \<Rightarrow> bytes \<Rightarrow> credential" where
  "kept now c i = \<lparr>cr_rpId = kept_string (cr_rpId c), userId = kept_bytes (userId c), userName = kept_string (userName c),
     userDisplayName = kept_string (userDisplayName c), creation = ucast now,
     extensions = (if ext_present (extensions c) then kept_extensions (extensions c) else no_extensions),
     use_sign_count = Some (use_sign_count c = Some True), cr_alg = cr_alg c, cr_curve = cr_curve c, cr_id = Some i,
     opts = (if opts_present (opts c) then no_options\<lparr>rk := rk (opts c), opts_present := True\<rparr> else no_options), cr_present = True\<rparr>"

lemma text_distinct:
  "text_credProtect \<noteq> hmac_label" "text_credBlob \<noteq> hmac_label" "text_credBlob \<noteq> text_credProtect" "large_blob_label \<noteq> hmac_label"
  "large_blob_label \<noteq> text_credProtect" "large_blob_label \<noteq> text_credBlob" "text_thirdPartyPayment \<noteq> hmac_label"
  "text_thirdPartyPayment \<noteq> text_credProtect" "text_thirdPartyPayment \<noteq> text_credBlob" "text_thirdPartyPayment \<noteq> large_blob_label"
  by (simp_all add: text_defs)

lemma text_key [simp]: "good r \<Longrightarrow> field_key (CText t # r) k = (if length t > 64 then Inl (Err cbor_out_of_memory) else k (c_string t) r)"
  by (simp add: field_key_def)

lemma text_short: "\<not> length text_credBlob > 64 \<and> c_string text_credBlob = text_credBlob" "\<not> length text_credProtect > 64 \<and> c_string text_credProtect = text_credProtect"
    "\<not> length hmac_label > 64 \<and> c_string hmac_label = hmac_label" "\<not> length large_blob_label > 64 \<and> c_string large_blob_label = large_blob_label"
    "\<not> length text_thirdPartyPayment > 64 \<and> c_string text_thirdPartyPayment = text_thirdPartyPayment" "\<not> length text_rk > 64 \<and> c_string text_rk = text_rk"
  by (simp_all add: text_defs c_string_def)

lemma ext_steps:
  assumes "good r"
  shows "ext_loop x (CText text_credBlob # CBytes b # r) = ext_loop (x\<lparr>credBlob := Some b\<rparr>) r"
    "ext_loop x (CText text_credProtect # CUint n # r) = ext_loop (x\<lparr>credProtect := n\<rparr>) r"
    "ext_loop x (CText hmac_label # CBool f # r) = ext_loop (x\<lparr>hmac_secret := Some f\<rparr>) r"
    "ext_loop x (CText large_blob_label # CBool f # r) = ext_loop (x\<lparr>largeBlobKey := Some f\<rparr>) r"
    "ext_loop x (CText text_thirdPartyPayment # CBool f # r) = ext_loop (x\<lparr>thirdPartyPayment := Some f\<rparr>) r"
  using assms text_short by (simp_all add: text_distinct)

text \<open>The items are plain, and come in pairs.\<close>

lemma extension_plain: "list_all plain_cbor (extension_items x)" "even (length (extension_items x))"
  by (auto simp: extension_items_def split: option.split)

lemma ext_loop_items:
  "ext_loop (no_extensions\<lparr>ext_present := True\<rparr>) (extension_items x) = Inr (kept_extensions x)"
proof -
  have g: "good (if b then [CText u, v] else [])" for b u v by simp
  have g2: "good ((case z of Some y \<Rightarrow> [CText u, v y] | None \<Rightarrow> []) @ r)" if "good r" for z u v r
    using that by (auto split: option.split)
  show ?thesis
    by (cases x; cases "credBlob x"; cases "hmac_secret x"; cases "credProtect x = 0")
      (auto simp: extension_items_def ext_steps kept_extensions_def no_extensions_def simp del: ext_loop.simps(2))
qed

lemma sint_of_int64: "- (2 ^ 63) \<le> i \<Longrightarrow> i < 2 ^ 63 \<Longrightarrow> sint (of_int i :: u64) = i"
  by (simp add: sint_sbintrunc' signed_take_bit_int_eq_self)

lemma cred_strings:
  assumes "good r"
  shows "cred_loop c (append_string 1 v @ r) = cred_loop (c\<lparr>cr_rpId := (if kept_string v = None then cr_rpId c else kept_string v)\<rparr>) r"
    "cred_loop c (append_bytes 3 v @ r) = cred_loop (c\<lparr>userId := (if kept_bytes v = None then userId c else kept_bytes v)\<rparr>) r"
    "cred_loop c (append_string 4 v @ r) = cred_loop (c\<lparr>userName := (if kept_string v = None then userName c else kept_string v)\<rparr>) r"
    "cred_loop c (append_string 5 v @ r) = cred_loop (c\<lparr>userDisplayName := (if kept_string v = None then userDisplayName c else kept_string v)\<rparr>) r"
  using assms by (auto simp: append_string_def append_bytes_def kept_string_def kept_bytes_def split: option.split)

lemma cred_steps:
  assumes "good r"
  shows "cred_loop c (CUint 2 # CBytes b # r) = cred_loop c r" "cred_loop c (CUint 6 # CUint n # r) = cred_loop (c\<lparr>creation := n\<rparr>) r"
    "cred_loop c (CUint 8 # CBool f # r) = cred_loop (c\<lparr>use_sign_count := Some f\<rparr>) r"
  using assms by (simp_all add: cbor_advance_def)

lemma cbor_int_read: "- (2 ^ 63) \<le> i \<Longrightarrow> i < 2 ^ 63 \<Longrightarrow> good r \<Longrightarrow> field_int (cbor_int i # r) k = k i r"
  using sint_of_int64 [of i] by (auto simp: cbor_int_def field_int_def)

lemma cbor_int_good [simp]: "good (cbor_int i # r)" and cbor_int_plain [simp]: "plain_cbor (cbor_int i)"
  by (simp_all add: cbor_int_def)

lemma cred_ints:
  assumes "good r" and "- (2 ^ 31) \<le> i" "i < 2 ^ 31"
  shows "cred_loop c (CUint 9 # cbor_int i # r) = cred_loop (c\<lparr>cr_alg := i\<rparr>) r"
    "cred_loop c (CUint 10 # cbor_int i # r) = cred_loop (c\<lparr>cr_curve := i\<rparr>) r"
  using assms cbor_int_read [of i r] by simp_all

lemma cred_ext: "good r \<Longrightarrow> extensions c = no_extensions \<Longrightarrow>
    cred_loop c (CUint 7 # CMap (extension_items x) # r) = cred_loop (c\<lparr>extensions := kept_extensions x\<rparr>) r"
  using good_plain [OF extension_plain(1)] by (simp add: parse_map_def ext_loop_items)

lemma cred_opts: "opts c = no_options \<Longrightarrow>
    cred_loop c [CUint 11, CMap (case v of Some b \<Rightarrow> [CText text_rk, CBool b] | None \<Rightarrow> [])] =
      Inr (c\<lparr>opts := no_options\<lparr>rk := v, opts_present := True\<rparr>\<rparr>)"
  by (cases v) (simp_all add: parse_map_def text_short no_options_def)

lemma describe_plain: "plain_cbor (describe env now c)"
  by (auto simp: describe_def append_string_def append_bytes_def extension_plain split: option.split)

text \<open>Reading a description gives what it keeps.\<close>

lemma describe_read:
  assumes "- (2 ^ 31) \<le> cr_alg c" "cr_alg c < 2 ^ 31" "- (2 ^ 31) \<le> cr_curve c" "cr_curve c < 2 ^ 31"
  shows "parse_map [describe env now c] (cred_loop (no_credential\<lparr>cr_curve := 1, cr_alg := - 7\<rparr>)) (\<lambda>c _. Inr c) =
    Inr ((kept now c i)\<lparr>cr_id := None, cr_present := False\<rparr>)"
proof -
  define t5 where "t5 = (if opts_present (opts c) then [CUint 11, CMap (case rk (opts c) of Some b \<Rightarrow> [CText text_rk, CBool b] | None \<Rightarrow> [])] else [])"
  define t4 where "t4 = (if cr_alg c \<noteq> - 7 \<or> cr_curve c \<noteq> 1 then [CUint 9, cbor_int (cr_alg c), CUint 10, cbor_int (cr_curve c)] else []) @ t5"
  define t3 where "t3 = (if ext_present (extensions c) then [CUint 7, CMap (extension_items (extensions c))] else []) @
    [CUint 8, CBool (use_sign_count c = Some True)] @ t4"
  define t2 where "t2 = append_string 5 (userDisplayName c) @ [CUint 6, CUint (ucast now)] @ t3"
  define t1 where "t1 = append_string 4 (userName c) @ t2"
  define t0 where "t0 = append_bytes 3 (userId c) @ t1"
  define s0 where "s0 = [CUint 2, CBytes (sha256 (lib env) (case_option [] id (cr_rpId c)))] @ t0"
  have g: "good t5" "good t4" "good t3" "good t2" "good t1" "good t0" "good s0" "good (append_string 1 (cr_rpId c) @ s0)"
    unfolding t5_def t4_def t3_def t2_def t1_def t0_def s0_def by (auto simp: append_string_def append_bytes_def split: option.split)
  have d: "describe env now c = CMap (append_string 1 (cr_rpId c) @ s0)"
    by (simp add: describe_def s0_def t0_def t1_def t2_def t3_def t4_def t5_def)
  have c5: "cred_loop x t5 = Inr (x\<lparr>opts := opts (kept now c i)\<rparr>)" if "opts x = no_options" for x
    using that cred_opts [of x] by (cases x) (auto simp: t5_def kept_def simp del: cred_loop.simps(2))
  have c4: "cred_loop x t4 = cred_loop (x\<lparr>cr_alg := cr_alg c, cr_curve := cr_curve c\<rparr>) t5" if "cr_alg x = - 7" "cr_curve x = 1" for x
    using that g assms by (cases x) (auto simp: t4_def cred_ints simp del: cred_loop.simps(2))
  have c3: "cred_loop x t3 = cred_loop (x\<lparr>extensions := extensions (kept now c i), use_sign_count := use_sign_count (kept now c i)\<rparr>) t4"
    if "extensions x = no_extensions" for x
    using that g by (cases x) (auto simp: t3_def cred_ext cred_steps kept_def simp del: cred_loop.simps(2))
  have "parse_map [describe env now c] (cred_loop (no_credential\<lparr>cr_curve := 1, cr_alg := - 7\<rparr>)) (\<lambda>c _. Inr c) =
      cred_loop (no_credential\<lparr>cr_curve := 1, cr_alg := - 7\<rparr>) (append_string 1 (cr_rpId c) @ s0)"
    using g by (simp add: d parse_map_def split: sum.split)
  also have "\<dots> = cred_loop (no_credential\<lparr>cr_curve := 1, cr_alg := - 7, cr_rpId := cr_rpId (kept now c i), userId := userId (kept now c i),
      userName := userName (kept now c i), userDisplayName := userDisplayName (kept now c i), creation := ucast now\<rparr>) t3"
    using g by (auto simp: cred_strings s0_def t0_def t1_def t2_def cred_steps kept_def no_credential_def simp del: cred_loop.simps(2))
  also have "\<dots> = Inr ((kept now c i)\<lparr>cr_id := None, cr_present := False\<rparr>)"
    using c3 c4 c5 by (simp add: no_credential_def kept_def del: cred_loop.simps(2))
  finally show ?thesis .
qed

lemma chacha_key_same: "(\<And>key. load_keydev st2 key = load_keydev st key) \<Longrightarrow>
    credential_derive_chacha_key env st2 = credential_derive_chacha_key env st"
  by (simp add: credential_derive_chacha_key_def chain_key_def)

lemma create_load_spec:
  assumes law: "ctap_law env" and c: "credential_create env now c buf st = Some (0, i, st')"
    and int: "- (2 ^ 31) \<le> cr_alg c" "cr_alg c < 2 ^ 31" "- (2 ^ 31) \<le> cr_curve c" "cr_curve c < 2 ^ 31"
    and same: "\<And>key. load_keydev st2 key = load_keydev st key"
    and rp: "rp = sha256 (lib env) (case_option [] id (cr_rpId c))"
  shows "credential_load env i rp old st2 = Some (Inr (kept now c i))"
    "length i = length (encode env (describe env now c)) + 48" "length i \<le> MAX_CRED_ID_LENGTH + 16"
    "overran st' = overran st + (length i - MAX_CRED_ID_LENGTH)"
proof -
  define body where "body = encode env (describe env now c)"
  obtain r key buf' inp where k: "credential_derive_chacha_key env st = Some (r, key)" and len: "length body \<le> 992"
    and w: "wr_slice buf 16 body = Some buf'" "rd_slice buf' 16 (16 + length body) = Some inp"
    and i: "i = CRED_PROTO @ rand env (draws st) 12 @ chacha_enc env key (rand env (draws st) 12) rp inp"
    and o: "overran st' = overran st + (length body + 48 - 1024)"
    using c by (auto simp: credential_create_def Let_def draw_def rp body_def cred_sizes cbor_out_of_memory_def algebra_simps split: bind_splits if_splits)
  have inp: "take (length body) inp = body" "length inp = length body + 16"
    using w by (auto simp: wr_slice_def rd_slice_def min_def split: if_splits)
  let ?iv = "rand env (draws st) 12"
  let ?ct = "chacha_enc env key ?iv rp inp"
  have l: "length ?iv = 12" "length ?ct = length inp + 16" "length rp = 32" "length CRED_PROTO = 4"
    by (simp_all add: ctap_lawD [OF law] rp CRED_PROTO_def)
  have li: "length i = length inp + 32" by (simp add: i l)
  then show "length i = length (encode env (describe env now c)) + 48" "length i \<le> MAX_CRED_ID_LENGTH + 16"
    "overran st' = overran st + (length i - MAX_CRED_ID_LENGTH)"
    using len inp o by (simp_all add: cred_sizes body_def)
  have parts: "take 12 (drop 4 i) = ?iv" "take (length inp) (drop 16 i) = take (length inp) ?ct" "drop (length inp + 16) i = drop (length inp) ?ct"
    "take 16 i = CRED_PROTO @ ?iv" by (simp_all add: i l)
  have v: "credential_verify env i rp st2 = Some (0, (CRED_PROTO @ ?iv) @ inp @ drop (length inp) ?ct)"
    using li k l parts ctap_lawD(11) [OF law, of key ?iv rp inp]
    by (simp add: credential_verify_def chacha_key_same [OF same] rd_slice_def Let_def)
  have "inp = body @ drop (length body) inp" using inp(1) by (metis append_take_drop_id)
  then have d: "decode env inp = describe env now c"
    unfolding body_def by (metis ctap_lawD(15) [OF law describe_plain])
  have "take (length i - 32) (drop 16 ((CRED_PROTO @ ?iv) @ inp @ drop (length inp) ?ct)) = inp" by (simp add: li l)
  moreover have "good [describe env now c]" by (simp add: describe_def)
  ultimately show "credential_load env i rp old st2 = Some (Inr (kept now c i))"
    using v d describe_read [OF int, of env now i] by (simp add: credential_load_def) (simp add: kept_def)
qed

text \<open>
  C22: the identifier of a credential carries its description: what \<^verbatim>\<open>credential_create\<close> is given, \<^verbatim>\<open>credential_load\<close> returns,
  also after other commands, as long as the device key is the same: relying party, user, algorithm, curve,
  extensions and options.  Names are kept up to their first zero, and a credBlob of 128 bytes or more is dropped.
  An identifier may be 16 bytes longer than the array that it is made in.
\<close>

theorem credential_create_load:
  assumes "ctap_law env" and "credential_create env now c buf st = Some (0, i, st')"
    and "- (2 ^ 31) \<le> cr_alg c" "cr_alg c < 2 ^ 31" "- (2 ^ 31) \<le> cr_curve c" "cr_curve c < 2 ^ 31"
    and "\<And>key. load_keydev st2 key = load_keydev st key"
  shows "credential_load env i (sha256 (lib env) (case_option [] id (cr_rpId c))) old st2 = Some (Inr (kept now c i)) \<and>
    length i \<le> MAX_CRED_ID_LENGTH + 16 \<and> overran st' = overran st + (length i - MAX_CRED_ID_LENGTH)"
  using create_load_spec(1,3,4) [OF assms refl] by blast

definition sample_cred :: credential where
  "sample_cred = no_credential\<lparr>cr_rpId := Some [0x61, 0x2e, 0x62], userId := Some [7], userName := Some [0x65, 0, 0x66], cr_alg := - 7,
     cr_curve := 1, extensions := no_extensions\<lparr>hmac_secret := Some True, credProtect := 2, ext_present := True\<rparr>\<rparr>"

lemma sample_create: "\<exists>i st'. credential_create sample_ctap_env 5 sample_cred (replicate 1024 0) keyed_ctap = Some (0, i, st')"
proof -
  have "\<exists>r k. credential_derive_chacha_key sample_ctap_env keyed_ctap = Some (r, k)"
    by (auto simp: credential_derive_chacha_key_def chain_key_def load_keydev_def keyed_ctap_def wr_slice_def)
  moreover have "length (toy_encode (describe sample_ctap_env 5 sample_cred)) \<le> 900"
    by (simp add: describe_def sample_cred_def no_credential_def append_string_def append_bytes_def c_string_def extension_items_def
        no_extensions_def text_defs no_options_def sample_ctap_env_def sample_crypto_def toy_hash_def upt_conv_Cons)
  ultimately show ?thesis by (auto simp: credential_create_def draw_def Let_def cred_sizes sample_ctap_env_def wr_slice_def rd_slice_def)
qed

theorem credential_create_load_witness:
  "\<exists>i cred. credential_load sample_ctap_env i (sha256 sample_crypto [0x61, 0x2e, 0x62]) no_credential keyed_ctap = Some (Inr cred) \<and>
     userId cred = Some [7] \<and> userName cred = Some [0x65] \<and> credProtect (extensions cred) = 2 \<and> cr_curve cred = 1"
proof -
  obtain i st' where c: "credential_create sample_ctap_env 5 sample_cred (replicate 1024 0) keyed_ctap = Some (0, i, st')" using sample_create by blast
  have h: "sha256 (lib sample_ctap_env) (case_option [] id (cr_rpId sample_cred)) = sha256 sample_crypto [0x61, 0x2e, 0x62]"
    by (simp add: sample_ctap_env_def sample_cred_def)
  have "- (2 ^ 31) \<le> cr_alg sample_cred" "cr_alg sample_cred < 2 ^ 31" "- (2 ^ 31) \<le> cr_curve sample_cred" "cr_curve sample_cred < 2 ^ 31"
    by (simp_all add: sample_cred_def)
  from credential_create_load [OF sample_ctap_law c this, of keyed_ctap no_credential, unfolded h]
  have "credential_load sample_ctap_env i (sha256 sample_crypto [0x61, 0x2e, 0x62]) no_credential keyed_ctap = Some (Inr (kept 5 sample_cred i))"
    by blast
  moreover have "userId (kept 5 sample_cred i) = Some [7]" "userName (kept 5 sample_cred i) = Some [0x65]"
    "credProtect (extensions (kept 5 sample_cred i)) = 2" "cr_curve (kept 5 sample_cred i) = 1"
    by (simp_all add: sample_cred_def kept_def kept_string_def kept_bytes_def c_string_def kept_extensions_def)
  ultimately show ?thesis by blast
qed

end
