(* ===== verification/CredStore.thy ===== *)
theory CredStore
  imports CredProps
begin

text \<open>
  Storing a resident credential: where it goes, what it replaces, and that the files of the relying parties keep
  counting the credentials.
\<close>

section \<open>The search for a place\<close>

text \<open>
  Both loops of \<^verbatim>\<open>credential_store\<close> look at the files in order: \<open>look i\<close> is \<open>Some None\<close> for a free one, and
  for a used one whether it is what they look for.  The first such file ends the search; otherwise it is the first free one.
\<close>

locale slot_search =
  fixes look :: "nat \<Rightarrow> bool option option"
    and search :: "nat list \<Rightarrow> nat option \<Rightarrow> 'r option"
    and found :: "nat \<Rightarrow> 'r"
    and none :: "nat option \<Rightarrow> 'r"
  assumes search_Nil: "search [] s = Some (none s)"
    and search_Cons: "search (i # is) s =
      (case look i of None \<Rightarrow> None | Some None \<Rightarrow> search is (if s = None then Some i else s)
       | Some (Some b) \<Rightarrow> if b then Some (found i) else search is s)"
begin

lemma search_eq:
  assumes "\<forall>i \<in> set is. look i \<noteq> None"
  shows "search is s = Some (case List.find (\<lambda>i. look i = Some (Some True)) is of Some i \<Rightarrow> found i
    | None \<Rightarrow> none (case s of Some j \<Rightarrow> Some j | None \<Rightarrow> List.find (\<lambda>i. look i = Some None) is))"
  using assms
proof (induction "is" arbitrary: s)
  case (Cons i js)
  then show ?case by (cases "look i"; cases "the (look i)") (auto simp: search_Cons split: option.split)
qed (auto simp: search_Nil split: option.split)

text \<open>The two ends of a search that has room.\<close>

lemma find_upt: "List.find P [0 ..< n] = Some i \<Longrightarrow> i < n \<and> P i \<and> (\<forall>j < i. \<not> P j)"
  by (auto simp: find_Some_iff)

lemma search_ends:
  assumes "\<forall>i < n. look i \<noteq> None" and "\<exists>i < n. look i = Some None"
  obtains (hit) i where "i < n" "look i = Some (Some True)" "\<forall>j < i. look j \<noteq> Some (Some True)" "search [0 ..< n] None = Some (found i)"
    | (free) i where "i < n" "look i = Some None" "\<forall>j < i. look j \<noteq> Some None" "\<forall>j < n. look j \<noteq> Some (Some True)"
      "search [0 ..< n] None = Some (none (Some i))"
proof (cases "List.find (\<lambda>i. look i = Some (Some True)) [0 ..< n]")
  case (Some i)
  from find_upt [OF this] Some show ?thesis using hit [of i] search_eq [of "[0 ..< n]" None] assms(1) by simp
next
  case None
  then obtain j where j: "List.find (\<lambda>i. look i = Some None) [0 ..< n] = Some j"
    using assms(2) by (cases "List.find (\<lambda>i. look i = Some None) [0 ..< n]") (auto simp: find_None_iff)
  have "search [0 ..< n] None = Some (none (Some j))" using search_eq [of "[0 ..< n]" None] assms(1) None j by simp
  moreover have "\<forall>j < n. look j \<noteq> Some (Some True)" using None by (simp add: find_None_iff)
  ultimately show ?thesis using find_upt [OF j] free [of j] by blast
qed

end

definition cred_look :: "ctap_env \<Rightarrow> ctap \<Rightarrow> bytes \<Rightarrow> credential \<Rightarrow> nat \<Rightarrow> bool option option" where
  "cred_look env st rp cred i = do {
     let ef = search_dynamic_file (cfs st) (EF_CRED + of_nat i);
     h \<leftarrow> file_has_data (cfs st) ef;
     if \<not> h then Some None
     else do {
       d \<leftarrow> file_bytes (cfs st) ef;
       p \<leftarrow> rd_slice d 0 32;
       if p \<noteq> take 32 rp then Some (Some False)
       else do {
         l \<leftarrow> credential_load env (drop 32 d) rp no_credential st;
         Some (Some (case l of Inl _ \<Rightarrow> False | Inr rcred \<Rightarrow> same_prefix (userId rcred) (userId cred)))
       }
     }
   }"

definition rp_look :: "fs \<Rightarrow> bytes \<Rightarrow> nat \<Rightarrow> bool option option" where
  "rp_look fs rp i = do {
     let ef = search_dynamic_file fs (EF_RP + of_nat i);
     h \<leftarrow> file_has_data fs ef;
     if \<not> h then Some None
     else do { d \<leftarrow> file_bytes fs ef; p \<leftarrow> rd_slice d 1 32; Some (Some (p = take 32 rp)) }
   }"

interpretation crs: slot_search "cred_look env st rp cred" "find_cred_slot env st rp cred" "\<lambda>i. (Some i, False)" "\<lambda>s. (s, True)"
  for env st rp cred
  by unfold_locales (auto simp: cred_look_def Let_def split: option.split sum.split bind_split)

interpretation rps: slot_search "rp_look fs rp" "find_rp_slot fs rp" Some id for fs rp
  by unfold_locales (auto simp: rp_look_def Let_def split: option.split bind_split)

section \<open>The files of the resident credentials\<close>

abbreviation cred_file :: "nat \<Rightarrow> u16" where "cred_file i \<equiv> EF_CRED + of_nat i"
abbreviation rp_file :: "nat \<Rightarrow> u16" where "rp_file i \<equiv> EF_RP + of_nat i"

lemma slot_unat: "i < 256 \<Longrightarrow> unat (cred_file i) = 0xCF00 + i" "i < 256 \<Longrightarrow> unat (rp_file i) = 0xD000 + i"
  by (simp_all add: fid_defs unat_word_ariths unat_of_nat)

lemma slot_inj: "i < 256 \<Longrightarrow> j < 256 \<Longrightarrow> cred_file i = cred_file j \<longleftrightarrow> i = j" "i < 256 \<Longrightarrow> j < 256 \<Longrightarrow> rp_file i = rp_file j \<longleftrightarrow> i = j"
    "i < 256 \<Longrightarrow> j < 256 \<Longrightarrow> cred_file i \<noteq> rp_file j" "i < 256 \<Longrightarrow> j < 256 \<Longrightarrow> rp_file i \<noteq> cred_file j"
  by (metis slot_unat(1) add_left_cancel, metis slot_unat(2) add_left_cancel)
    (use slot_unat in \<open>fastforce dest: arg_cong [of _ _ unat]\<close>)+

lemma slot_dyn: "i < 256 \<Longrightarrow> dyn_fid (cred_file i)" "i < 256 \<Longrightarrow> dyn_fid (rp_file i)"
proof -
  have d: "0xCF00 \<le> unat f \<Longrightarrow> unat f < 0xD100 \<Longrightarrow> dyn_fid f" for f
    by (auto simp: dyn_fid_def file_table_def internal_ef_def fid_defs FILE_TYPE_INTERNAL_EF_def FILE_DATA_FLASH_def)
  show "i < 256 \<Longrightarrow> dyn_fid (cred_file i)" "i < 256 \<Longrightarrow> dyn_fid (rp_file i)"
    using d slot_unat by auto
qed

text \<open>There are 128 dynamic files: the 256 places are never all used.\<close>

lemma slots_used:
  assumes inv: "fs_inv fs" and f: "inj_on (f :: nat \<Rightarrow> u16) {..< 256}" "\<And>i. i < 256 \<Longrightarrow> dyn_fid (f i)"
  shows "card {i. i < 256 \<and> has fs (f i)} \<le> 128"
proof -
  let ?U = "{i. i < 256 \<and> has fs (f i)}"
  have "the (lookup fs (f i)) \<in> Dynamic ` {..< dynamic_files fs} \<and> lookup fs (f i) \<noteq> None" if i: "i \<in> ?U" for i
  proof -
    obtain r where r: "lookup fs (f i) = Some r" using has_lookup [of fs "f i"] i by blast
    from inv r show ?thesis
    proof (cases rule: lookup_cases)
      case (static j g)
      then show ?thesis using f(2) [of i] i search_ef_table [OF inv] by (simp add: dyn_fid_def)
    qed (use r in auto)
  qed
  then have d: "the (lookup fs (f i)) \<in> Dynamic ` {..< dynamic_files fs}" "lookup fs (f i) = Some (the (lookup fs (f i)))"
    if "i \<in> ?U" for i using that by auto
  have "(\<lambda>i. the (lookup fs (f i))) ` ?U \<subseteq> Dynamic ` {..< dynamic_files fs}" using d(1) by (auto simp del: image_iff)
  moreover have "inj_on (\<lambda>i. the (lookup fs (f i))) ?U"
  proof (rule inj_onI)
    fix i j :: nat
    assume a: "i \<in> ?U" "j \<in> ?U" "the (lookup fs (f i)) = the (lookup fs (f j))"
    then have "f i = f j" using lookup_inj [OF inv d(2) [of i], of "f j"] d(2) [of j] by simp
    then show "i = j" using f(1) a by (simp add: inj_on_def)
  qed
  ultimately have "card ?U \<le> card (Dynamic ` {..< dynamic_files fs})" by (intro card_inj_on_le) simp_all
  also have "\<dots> \<le> dynamic_files fs" using card_image_le [of "{..< dynamic_files fs}" Dynamic] by simp
  finally show ?thesis using inv by (simp add: fs_inv_def)
qed

lemma slot_used: "fs_inv fs \<Longrightarrow> card {i. i < 256 \<and> has fs (cred_file i)} \<le> 128" "fs_inv fs \<Longrightarrow> card {i. i < 256 \<and> has fs (rp_file i)} \<le> 128"
  by (rule slots_used; auto simp only: inj_on_def lessThan_iff slot_inj slot_dyn)+

lemma few_free: "card {i :: nat. i < 256 \<and> P i} \<le> 128 \<Longrightarrow> \<exists>i < 256. \<not> P i"
proof (rule ccontr)
  assume a: "card {i :: nat. i < 256 \<and> P i} \<le> 128" "\<not> (\<exists>i < 256. \<not> P i)"
  then have "{i :: nat. i < 256 \<and> P i} = {..< 256}" by auto
  then show False using a(1) by simp
qed

lemma slot_free: "fs_inv fs \<Longrightarrow> \<exists>i < 256. \<not> has fs (cred_file i)" "fs_inv fs \<Longrightarrow> \<exists>i < 256. \<not> has fs (rp_file i)"
  by (rule few_free, erule slot_used)+

text \<open>Records that are long enough, and the counts of the relying parties.\<close>

definition rp_hash :: "fs \<Rightarrow> nat \<Rightarrow> bytes" where "rp_hash fs i = take 32 (drop 1 (content fs (rp_file i)))"

definition of_rp :: "fs \<Rightarrow> bytes \<Rightarrow> nat set" where
  "of_rp fs h = {i. i < 256 \<and> has fs (cred_file i) \<and> take 32 (content fs (cred_file i)) = h}"

definition resident_ok :: "fs \<Rightarrow> bool" where
  "resident_ok fs \<longleftrightarrow> (\<forall>i < 256. (has fs (cred_file i) \<longrightarrow> 32 \<le> length (content fs (cred_file i))) \<and>
     (has fs (rp_file i) \<longrightarrow> 33 \<le> length (content fs (rp_file i)) \<and> length (content fs (rp_file i)) \<le> 4096))"

definition counted :: "fs \<Rightarrow> bool" where
  "counted fs \<longleftrightarrow>
     (\<forall>i < 256. \<forall>j < 256. has fs (rp_file i) \<longrightarrow> has fs (rp_file j) \<longrightarrow> rp_hash fs i = rp_hash fs j \<longrightarrow> i = j) \<and>
     (\<forall>i < 256. has fs (rp_file i) \<longrightarrow> content fs (rp_file i) ! 0 = of_nat (card (of_rp fs (rp_hash fs i)))) \<and>
     (\<forall>i < 256. has fs (cred_file i) \<longrightarrow> (\<exists>j < 256. has fs (rp_file j) \<and> rp_hash fs j = take 32 (content fs (cred_file i))))"

section \<open>Loading always ends\<close>

definition key_fits :: "ctap \<Rightarrow> bool" where
  "key_fits st \<longleftrightarrow> (case keydev_dec st of Some k \<Rightarrow> length k \<le> 32 | None \<Rightarrow> \<forall>d. fget (cfs st) EF_KEY_DEV = Some d \<longrightarrow> length d \<le> 32)"

lemma load_keydev_total:
  assumes inv: "fs_inv (cfs st)" and "key_fits st" "32 \<le> length key"
  shows "\<exists>r k. load_keydev st key = Some (r, k) \<and> length k = length key"
proof (cases "keydev_dec st")
  case (Some k)
  then show ?thesis using assms by (auto simp: load_keydev_def key_fits_def wr_slice_def)
next
  case None
  note r = static_lookup [OF inv more_static_fids(1)] and h = has_ref [OF inv, of EF_KEY_DEV]
  show ?thesis
  proof (cases "has (cfs st) EF_KEY_DEV")
    case True
    then obtain d where "fget (cfs st) EF_KEY_DEV = Some d" by (auto simp: has_def)
    then show ?thesis using True None assms r h bytes_ref [OF inv True] by (auto simp: load_keydev_def key_fits_def wr_slice_def)
  qed (use None r h in \<open>simp add: load_keydev_def\<close>)
qed

lemma derive_path_read:
  assumes "\<forall>i \<in> set is. 4 * i + 4 \<le> length h" and "ctap_law env"
  shows "\<exists>o'. derive_path env False is h outk st = Some (h, o', st) \<and> length o' = length outk"
  using assms
proof (induction "is" arbitrary: outk)
  case (Cons i js)
  then have s: "rd_slice h (4 * i) 4 = Some (take 4 (drop (4 * i) h))" by (simp add: rd_slice_def)
  from Cons obtain o' where "derive_path env False js h (path_step env (take 4 (drop (4 * i) h)) outk) st = Some (h, o', st)"
    "length o' = length (path_step env (take 4 (drop (4 * i) h)) outk)" by fastforce
  then show ?case using s ctap_lawD(13) [OF Cons.prems(2)] by simp
qed simp

lemma derive_key_read:
  assumes inv: "fs_inv (cfs st)" and k: "key_fits st" and law: "ctap_law env" and h: "32 \<le> length h"
  shows "\<exists>r k. derive_key env app False h SECP256R1 True st = Some (r, h, k, st) \<and> (r = 0 \<longrightarrow> k \<noteq> None)"
proof -
  obtain r o1 where l: "load_keydev st (replicate 67 0) = Some (r, o1)" "length o1 = 67"
    using load_keydev_total [OF inv k, of "replicate 67 0"] by auto
  obtain o2 where p: "derive_path env False [0 ..< KEY_PATH_ENTRIES] h o1 st = Some (h, o2, st)" "length o2 = 67"
    using derive_path_read [OF _ law, of "[0 ..< KEY_PATH_ENTRIES]" h o1 st] h l by (auto simp: KEY_PATH_ENTRIES_def)
  show ?thesis using l p
    by (auto simp: derive_key_def curve_key_def rd_slice_def ccid_defs MBEDTLS_ERR_ECP_INVALID_KEY_def split: option.split)
qed

definition hmac_total :: "ctap_env \<Rightarrow> bool" where "hmac_total env \<longleftrightarrow> (\<forall>k x. md_hmac (lib env) MD_SHA256 k x \<noteq> None)"

lemma verify_key_total:
  assumes inv: "fs_inv (cfs st)" and k: "key_fits st" and law: "ctap_law env" "hmac_total env" and h: "length h = 64" "32 \<le> length app"
  shows "\<exists>r. verify_key env app h None st = Some r"
proof -
  obtain r k where d: "derive_key env app False h SECP256R1 True st = Some (r, h, k, st)" "r = 0 \<longrightarrow> k \<noteq> None"
    using derive_key_read [OF inv k law(1), of h app] h by auto
  have "\<exists>hm. \<forall>x y. md_hmac (lib env) MD_SHA256 x y = Some (hm x y)" 
    using law(2) by (intro exI [of _ "\<lambda>x y. the (md_hmac (lib env) MD_SHA256 x y)"]) (simp add: hmac_total_def)
  then show ?thesis using d h
    by (cases "r = 0") (auto simp: verify_key_def rd_slice_def KEY_PATH_LEN_def Let_def split: option.split)
qed

lemma credential_load_total:
  assumes inv: "fs_inv (cfs st)" and k: "key_fits st" and law: "ctap_law env" "hmac_total env" and rp: "32 \<le> length rp"
  shows "\<exists>l. credential_load env i rp old st = Some l"
proof -
  obtain r key where "credential_derive_chacha_key env st = Some (r, key)"
    using load_keydev_total [OF inv k, of "replicate 32 0"]
    by (fastforce simp: credential_derive_chacha_key_def chain_key_def split: if_splits)
  then obtain ret copy where "credential_verify env i rp st = Some (ret, copy)"
    using rp by (cases "chacha_dec env key (take 12 (drop 4 i)) (take 32 rp) (take (length i - 32) (drop 16 i)) (drop (length i - 16) i)";
      cases "length i < 32") (auto simp: credential_verify_def rd_slice_def Let_def)
  then show ?thesis using verify_key_total [OF inv k law _ rp, of i] by (auto simp: credential_load_def KEY_HANDLE_LEN_def)
qed

section \<open>Storing\<close>

text \<open>The record \<open>i\<close> is a credential of the relying party whose user is taken for the one of \<open>cred\<close>.\<close>

definition same_user :: "ctap_env \<Rightarrow> ctap \<Rightarrow> bytes \<Rightarrow> credential \<Rightarrow> nat \<Rightarrow> bool" where
  "same_user env st rp cred i \<longleftrightarrow> has (cfs st) (cred_file i) \<and> take 32 (content (cfs st) (cred_file i)) = rp \<and>
     (\<exists>rcred. credential_load env (drop 32 (content (cfs st) (cred_file i))) rp no_credential st = Some (Inr rcred) \<and>
        same_prefix (userId rcred) (userId cred))"

lemma content_bytes: "fs_inv fs \<Longrightarrow> dyn_fid fi \<Longrightarrow> has fs fi \<Longrightarrow> file_bytes fs (search_dynamic_file fs fi) = Some (content fs fi)"
  using bytes_ref [of fs fi] dyn_lookup [of fs fi] by (auto simp: has_def content_def)

lemma cred_look_eq:
  assumes inv: "fs_inv (cfs st)" and k: "key_fits st" and law: "ctap_law env" "hmac_total env" and rp: "length rp = 32"
    and ok: "resident_ok (cfs st)" and i: "i < 256"
  shows "cred_look env st rp cred i = Some (if has (cfs st) (cred_file i) then Some (same_user env st rp cred i) else None)"
proof (cases "has (cfs st) (cred_file i)")
  case True
  let ?d = "content (cfs st) (cred_file i)"
  obtain l where l: "credential_load env (drop 32 ?d) rp no_credential st = Some l"
    using credential_load_total [OF inv k law, of rp "drop 32 ?d" no_credential] rp by auto
  have "rd_slice ?d 0 32 = Some (take 32 ?d)" using ok i True by (simp add: resident_ok_def rd_slice_def)
  then show ?thesis using l True rp dyn_has [OF inv slot_dyn(1) [OF i]] content_bytes [OF inv slot_dyn(1) [OF i] True]
    by (auto simp: cred_look_def same_user_def split: sum.split)
qed (simp add: cred_look_def dyn_has [OF inv slot_dyn(1) [OF i]])

lemma rp_look_eq:
  assumes inv: "fs_inv fs" and rp: "length rp = 32" and ok: "resident_ok fs" and i: "i < 256"
  shows "rp_look fs rp i = Some (if has fs (rp_file i) then Some (rp_hash fs i = rp) else None)"
proof (cases "has fs (rp_file i)")
  case True
  have "rd_slice (content fs (rp_file i)) 1 32 = Some (rp_hash fs i)"
    using ok i True by (auto simp: resident_ok_def rd_slice_def rp_hash_def)
  then show ?thesis using True rp dyn_has [OF inv slot_dyn(2) [OF i]] content_bytes [OF inv slot_dyn(2) [OF i] True]
    by (simp add: rp_look_def)
qed (simp add: rp_look_def dyn_has [OF inv slot_dyn(2) [OF i]])

lemma count_rp_spec:
  assumes inv: "fs_inv fs" and rp: "length rp = 32" and ok: "resident_ok fs" and len: "length rid \<le> 4000"
  shows "\<exists>k fs'. k < 256 \<and> count_rp rp rid fs = Some (0, fs') \<and> fs_inv fs' \<and>
    (if has fs (rp_file k) then rp_hash fs k = rp \<and>
        fget fs' = (fget fs)(rp_file k \<mapsto> (content fs (rp_file k))[0 := content fs (rp_file k) ! 0 + 1])
     else (\<forall>j < 256. has fs (rp_file j) \<longrightarrow> rp_hash fs j \<noteq> rp) \<and>
        (fget fs' = (fget fs)(rp_file k \<mapsto> 1 # rp @ rid) \<or> fget fs' = (fget fs)(rp_file k := None)))"
proof -
  note look = rp_look_eq [OF inv rp ok]
  have total: "\<forall>i < 256. rp_look fs rp i \<noteq> None" "\<exists>i < 256. rp_look fs rp i = Some None"
    using look slot_free(2) [OF inv] by fastforce+
  from total show ?thesis
  proof (cases rule: rps.search_ends)
    case (hit k)
    then have k: "k < 256" "has fs (rp_file k)" "rp_hash fs k = rp" using look [of k] by (auto split: if_splits)
    let ?c = "content fs (rp_file k)"
    have c: "fget fs (rp_file k) = Some ?c" "length ?c \<le> 4096" using k ok by (auto simp: has_def content_def resident_ok_def)
    obtain r fs' where "write_file fs (lookup fs (rp_file k)) (?c[0 := ?c ! 0 + 1]) = Some (r, fs')" "fs_inv fs'"
      "fget fs' = (fget fs)(rp_file k \<mapsto> ?c[0 := ?c ! 0 + 1])"
      using write_ref [OF inv, of "?c[0 := ?c ! 0 + 1]" "rp_file k"] c by auto
    then show ?thesis using k hit(4) dyn_has [OF inv slot_dyn(2) [OF k(1)]] content_bytes [OF inv slot_dyn(2) [OF k(1)] k(2)]
        dyn_lookup [OF inv slot_dyn(2) [OF k(1)]]
      by (intro exI [of _ k] exI [of _ fs']) (simp add: count_rp_def MAX_RESIDENT_CREDENTIALS_def)
  next
    case (free k)
    then have k: "k < 256" "\<not> has fs (rp_file k)" "\<forall>j < 256. has fs (rp_file j) \<longrightarrow> rp_hash fs j \<noteq> rp"
      using look by (auto split: if_splits)
    obtain r fs' where "store_file fs (rp_file k) (1 # rp @ rid) = Some (r, fs')" "fs_inv fs'"
      "fget fs' = (fget fs)(rp_file k \<mapsto> 1 # rp @ rid) \<or> fget fs' = (fget fs)(rp_file k := None)"
      using store_file_spec [OF inv, of "1 # rp @ rid" "rp_file k"] rp len by auto
    then show ?thesis using k free(5) dyn_has [OF inv slot_dyn(2) [OF k(1)]]
      by (intro exI [of _ k] exI [of _ fs'])
        (auto simp: count_rp_def MAX_RESIDENT_CREDENTIALS_def store_file_def split: prod.splits)
  qed
qed

text \<open>What becomes of the files: the place \<open>i\<close>, and the state before the relying party is counted.\<close>

lemma credential_store_spec:
  assumes inv: "fs_inv (cfs st)" and k: "key_fits st" and law: "ctap_law env" "hmac_total env" and rp: "length rp = 32"
    and ok: "resident_ok (cfs st)" and load: "credential_load env cred_id rp no_credential st = Some (Inr cred)"
    and len: "length cred_id \<le> 4000" "length (case_option [] id (cr_rpId cred)) \<le> 4000"
  shows "\<exists>i fs1 fs2. i < 256 \<and> credential_store env cred_id rp st = Some (0, st\<lparr>cfs := fs2\<rparr>) \<and> fs_inv fs1 \<and>
    (fget fs1 = (fget (cfs st))(cred_file i \<mapsto> rp @ cred_id) \<or> fget fs1 = (fget (cfs st))(cred_file i := None)) \<and>
    (if has (cfs st) (cred_file i) then same_user env st rp cred i \<and> (\<forall>j < i. \<not> same_user env st rp cred j) \<and> fs2 = fs1
     else (\<forall>j < i. has (cfs st) (cred_file j)) \<and> (\<forall>j < 256. \<not> same_user env st rp cred j) \<and> count_rp rp (case_option [] id (cr_rpId cred)) fs1 = Some (0, fs2)) \<and>
    resident_ok fs1"
proof -
  note look = cred_look_eq [OF inv k law rp ok]
  have total: "\<forall>i < 256. cred_look env st rp cred i \<noteq> None" "\<exists>i < 256. cred_look env st rp cred i = Some None"
    using look slot_free(1) [OF inv] by fastforce+
  have rp0: "rd_slice rp 0 32 = Some rp" using rp by (simp add: rd_slice_def)
  have place: "\<exists>fs1 fs2. credential_store env cred_id rp st = Some (0, st\<lparr>cfs := fs2\<rparr>) \<and> fs_inv fs1 \<and>
      (fget fs1 = (fget (cfs st))(cred_file i \<mapsto> rp @ cred_id) \<or> fget fs1 = (fget (cfs st))(cred_file i := None)) \<and>
      (if n then count_rp rp (case_option [] id (cr_rpId cred)) fs1 = Some (0, fs2) else fs2 = fs1) \<and> resident_ok fs1"
    if i: "i < 256" and s: "find_cred_slot env st rp cred [0 ..< 256] None = Some (Some i, n)" for i n
  proof -
    obtain r fs1 where w: "store_file (cfs st) (cred_file i) (rp @ cred_id) = Some (r, fs1)" "fs_inv fs1"
      "fget fs1 = (fget (cfs st))(cred_file i \<mapsto> rp @ cred_id) \<or> fget fs1 = (fget (cfs st))(cred_file i := None)"
      using store_file_spec [OF inv, of "rp @ cred_id" "cred_file i"] rp len by auto
    have ok1: "resident_ok fs1"
      using ok w(3) i rp slot_inj unfolding resident_ok_def has_def content_def by (elim disjE) (simp_all split: if_splits)
    obtain fs2 where "count_rp rp (case_option [] id (cr_rpId cred)) fs1 = Some (0, fs2)"
      using count_rp_spec [OF w(2) rp ok1 len(2)] by blast
    then show ?thesis
      using w ok1 s load rp0 by (auto simp: credential_store_def MAX_RESIDENT_CREDENTIALS_def store_file_def split: prod.splits)
  qed
  from total show ?thesis
  proof (cases rule: crs.search_ends)
    case (hit i)
    then have i: "i < 256" "has (cfs st) (cred_file i)" "same_user env st rp cred i" using look [of i] by (auto split: if_splits)
    moreover have "\<forall>j < i. \<not> same_user env st rp cred j" using hit(3) i(1) look by (auto simp: same_user_def)
    moreover note place [OF i(1) hit(4)] ultimately show ?thesis by auto
  next
    case (free i)
    then have i: "i < 256" "\<not> has (cfs st) (cred_file i)" "\<forall>j < 256. \<not> same_user env st rp cred j"
      using look by (auto simp: same_user_def split: if_splits)
    moreover have "\<forall>j < i. has (cfs st) (cred_file j)" using free(3) i(1) look by (auto split: if_splits)
    moreover note place [OF i(1) free(5)] ultimately show ?thesis by auto
  qed
qed

section \<open>The counts\<close>

lemma has_upd: "fget fs' = (fget fs)(a \<mapsto> b) \<Longrightarrow> has fs' x \<longleftrightarrow> (if x = a then b \<noteq> [] else has fs x)"
    "fget fs' = (fget fs)(a \<mapsto> b) \<Longrightarrow> content fs' x = (if x = a then b else content fs x)"
  by (simp_all add: has_def content_def)

lemma of_rp_upd:
  assumes "fget fs' = (fget fs)(cred_file i \<mapsto> rp @ b)" and "i < 256" "length rp = 32"
  shows "of_rp fs' h = (if h = rp then insert i (of_rp fs h) else of_rp fs h - {i})"
proof -
  have ne: "rp @ b \<noteq> []" and t: "take 32 (rp @ b) = rp" using assms(3) by auto
  have "j \<in> of_rp fs' h \<longleftrightarrow> j \<in> (if h = rp then insert i (of_rp fs h) else of_rp fs h - {i})" for j
    using assms(2) ne t slot_inj(1) [of j i] by (cases "j = i") (auto simp: of_rp_def has_upd [OF assms(1)] simp del: add_left_cancel)
  then show ?thesis by blast
qed

lemma of_rp_other: "fget fs' = (fget fs)(rp_file i \<mapsto> b) \<Longrightarrow> i < 256 \<Longrightarrow> of_rp fs' h = of_rp fs h"
  using slot_inj(3) [of _ i] unfolding of_rp_def by (auto simp: has_upd simp del: add_left_cancel)

lemma of_rp_finite: "finite (of_rp fs h)" by (simp add: of_rp_def)

lemma counted_uncounted: "counted fs \<Longrightarrow> \<forall>j < 256. has fs (rp_file j) \<longrightarrow> rp_hash fs j \<noteq> h \<Longrightarrow> of_rp fs h = {}"
  by (auto simp: counted_def of_rp_def)

text \<open>A record at its place again, and a record at a free place with its relying party.\<close>

lemma counted_replace:
  assumes c: "counted fs" and up: "fget fs' = (fget fs)(cred_file i \<mapsto> rp @ b)" and i: "i < 256" and rp: "length rp = 32" and mem: "i \<in> of_rp fs rp"
  shows "counted fs'"
proof -
  have "i \<in> of_rp fs h \<longleftrightarrow> h = rp" for h using mem by (auto simp: of_rp_def)
  then have o: "of_rp fs' h = of_rp fs h" for h by (auto simp: of_rp_upd [OF up i rp])
  have f: "j < 256 \<Longrightarrow> has fs' (rp_file j) = has fs (rp_file j)" "j < 256 \<Longrightarrow> content fs' (rp_file j) = content fs (rp_file j)" for j
    using slot_inj(4) [of j i] i by (simp_all add: has_upd [OF up] del: add_left_cancel)
  then have h: "j < 256 \<Longrightarrow> rp_hash fs' j = rp_hash fs j" for j by (simp add: rp_hash_def)
  have "j < 256 \<Longrightarrow> has fs' (cred_file j) \<Longrightarrow> has fs (cred_file j) \<and> take 32 (content fs' (cred_file j)) = take 32 (content fs (cred_file j))" for j
    using mem rp by (cases "cred_file j = cred_file i") (simp_all add: has_upd [OF up] of_rp_def del: add_left_cancel)
  then have "\<exists>l < 256. has fs' (rp_file l) \<and> rp_hash fs' l = take 32 (content fs' (cred_file j))"
    if "j < 256" "has fs' (cred_file j)" for j using that c f(1) h unfolding counted_def by metis
  then show ?thesis using c unfolding counted_def by (simp add: o f h)
qed

lemma counted_insert:
  assumes c: "counted fs" and up: "fget fs1 = (fget fs)(cred_file i \<mapsto> rp @ b)" and i: "i < 256" and rp: "length rp = 32"
    and new: "\<not> has fs (cred_file i)" and k: "k < 256" and up2: "fget fs2 = (fget fs1)(rp_file k \<mapsto> d)"
    and d: "if has fs (rp_file k) then rp_hash fs k = rp \<and> content fs (rp_file k) = n # t \<and> d = (n + 1) # t
      else (\<forall>j < 256. has fs (rp_file j) \<longrightarrow> rp_hash fs j \<noteq> rp) \<and> d = 1 # rp @ t"
  shows "counted fs2"
proof -
  have o: "of_rp fs2 h = (if h = rp then insert i (of_rp fs h) else of_rp fs h)" for h
    using new by (simp add: of_rp_other [OF up2 k] of_rp_upd [OF up i rp]) (simp add: of_rp_def)
  have f: "j < 256 \<Longrightarrow> has fs2 (rp_file j) = (j = k \<or> has fs (rp_file j))"
    "j < 256 \<Longrightarrow> content fs2 (rp_file j) = (if j = k then d else content fs (rp_file j))" for j
    using slot_inj(2) [of j k] slot_inj(4) [of j i] i k d
    by (auto simp: has_upd [OF up] has_upd [OF up2] simp del: add_left_cancel split: if_splits)
  have h: "rp_hash fs2 j = (if j = k then rp else rp_hash fs j)" if "j < 256" for j
    using d f(2) [OF that] rp by (auto simp: rp_hash_def split: if_splits)
  have ci: "i \<notin> of_rp fs rp" using new by (simp add: of_rp_def)
  have cr: "j < 256 \<Longrightarrow> has fs2 (cred_file j) \<Longrightarrow> j = i \<and> take 32 (content fs2 (cred_file j)) = rp \<or>
      has fs (cred_file j) \<and> content fs2 (cred_file j) = content fs (cred_file j)" for j
    using slot_inj(3) [of j k] slot_inj(1) [of j i] i k rp by (auto simp: has_upd [OF up] has_upd [OF up2] simp del: add_left_cancel split: if_splits)
  have num: "d ! 0 = of_nat (card (of_rp fs2 rp))"
  proof (cases "has fs (rp_file k)")
    case True
    then have "n = of_nat (card (of_rp fs rp))" using c d k unfolding counted_def by (metis nth_Cons_0)
    then show ?thesis using True d ci of_rp_finite [of fs rp] by (simp add: o)
  next
    case False
    then have "of_rp fs rp = {}" using counted_uncounted [OF c, of rp] d by simp
    then show ?thesis using False d by (simp add: o)
  qed
  have uniq: "j = k" if "j < 256" "has fs (rp_file j)" "rp_hash fs j = rp" for j
    using that c d k unfolding counted_def by (metis (full_types))
  show ?thesis unfolding counted_def
  proof (intro conjI allI impI)
    fix j l :: nat
    assume a: "j < 256" "l < 256" "has fs2 (rp_file j)" "has fs2 (rp_file l)" "rp_hash fs2 j = rp_hash fs2 l"
    then show "j = l" using h uniq c f(1) unfolding counted_def by (metis (full_types))
  next
    fix j :: nat
    assume a: "j < 256" "has fs2 (rp_file j)"
    show "content fs2 (rp_file j) ! 0 = of_nat (card (of_rp fs2 (rp_hash fs2 j)))"
    proof (cases "j = k")
      case True
      then show ?thesis using num h [OF k] f(2) [OF k] by simp
    next
      case False
      then have "has fs (rp_file j)" "rp_hash fs j \<noteq> rp" using a f(1) uniq by blast+
      then show ?thesis using False a c h [OF a(1)] f(2) [OF a(1)] by (simp add: o counted_def)
    qed
  next
    fix j :: nat
    assume a: "j < 256" "has fs2 (cred_file j)"
    from cr [OF this] show "\<exists>l < 256. has fs2 (rp_file l) \<and> rp_hash fs2 l = take 32 (content fs2 (cred_file j))"
    proof
      assume "j = i \<and> take 32 (content fs2 (cred_file j)) = rp"
      then show ?thesis using k f(1) [OF k] h [OF k] by auto
    next
      assume b: "has fs (cred_file j) \<and> content fs2 (cred_file j) = content fs (cred_file j)"
      then obtain l where "l < 256" "has fs (rp_file l)" "rp_hash fs l = take 32 (content fs2 (cred_file j))"
        using c a(1) unfolding counted_def by metis
      then show ?thesis using f(1) [of l] h [of l] d by (intro exI [of _ l]) auto
    qed
  qed
qed

lemma counted_recorded:
  assumes c: "counted fs" and up: "fget fs1 = (fget fs)(cred_file i \<mapsto> rp @ b)" and i: "i < 256" and rp: "length rp = 32"
    and new: "\<not> has fs (cred_file i)" and fs1: "fs_inv fs1" "resident_ok fs1" and len: "length rid \<le> 4000"
    and n: "count_rp rp rid fs1 = Some (0, fs2)" and h: "k' < 256" "has fs2 (rp_file k')" "rp_hash fs2 k' = rp"
  shows "counted fs2 \<and> i \<in> of_rp fs2 rp"
proof -
  from count_rp_spec [OF fs1(1) rp fs1(2) len] n obtain k where k: "k < 256"
    "if has fs1 (rp_file k) then rp_hash fs1 k = rp \<and>
        fget fs2 = (fget fs1)(rp_file k \<mapsto> (content fs1 (rp_file k))[0 := content fs1 (rp_file k) ! 0 + 1])
     else (\<forall>j < 256. has fs1 (rp_file j) \<longrightarrow> rp_hash fs1 j \<noteq> rp) \<and>
        (fget fs2 = (fget fs1)(rp_file k \<mapsto> 1 # rp @ rid) \<or> fget fs2 = (fget fs1)(rp_file k := None))"
    by auto
  have old: "j < 256 \<Longrightarrow> has fs1 (rp_file j) = has fs (rp_file j)" "j < 256 \<Longrightarrow> content fs1 (rp_file j) = content fs (rp_file j)" for j
    using slot_inj(4) [of j i] i by (simp_all add: has_upd [OF up] del: add_left_cancel)
  then have oldh: "j < 256 \<Longrightarrow> rp_hash fs1 j = rp_hash fs j" for j by (simp add: rp_hash_def)
  show ?thesis
  proof (cases "has fs1 (rp_file k)")
    case True
    then obtain n t where nt: "content fs1 (rp_file k) = n # t" using fs1(2) k(1) by (cases "content fs1 (rp_file k)") (auto simp: resident_ok_def)
    then have up2: "fget fs2 = (fget fs1)(rp_file k \<mapsto> (n + 1) # t)" using True k(2) by simp
    from counted_insert [OF c up i rp new k(1) up2, of n t] True k old oldh nt
    show ?thesis by (simp add: of_rp_other [OF up2 k(1)] of_rp_upd [OF up i rp])
  next
    case no: False
    have "fget fs2 \<noteq> (fget fs1)(rp_file k := None)"
    proof
      assume e: "fget fs2 = (fget fs1)(rp_file k := None)"
      then have "rp_hash fs2 j = rp_hash fs1 j" if "has fs2 (rp_file j)" for j using that by (auto simp: has_def rp_hash_def content_def)
      moreover have "has fs2 (rp_file j) \<Longrightarrow> has fs1 (rp_file j)" for j using e by (auto simp: has_def split: if_splits)
      ultimately show False using h k(2) no by auto
    qed
    then have up2: "fget fs2 = (fget fs1)(rp_file k \<mapsto> 1 # rp @ rid)" using k(2) no by simp
    from counted_insert [OF c up i rp new k(1) up2] no k(2) old oldh k(1)
    show ?thesis by (simp add: of_rp_other [OF up2 k(1)] of_rp_upd [OF up i rp])
  qed
qed


text \<open>A token without credentials, and an identifier that it made.\<close>

lemma keyed_facts: "fs_inv (cfs keyed_ctap)" "key_fits keyed_ctap" "resident_ok (cfs keyed_ctap)" "counted (cfs keyed_ctap)" "hmac_total sample_ctap_env"
  using roomy_room by (simp_all add: keyed_ctap_def key_fits_def resident_ok_def counted_def has_def hmac_total_def sample_ctap_env_def sample_crypto_def)

definition sample_rp :: bytes where "sample_rp = sha256 sample_crypto [0x61, 0x2e, 0x62]"

lemma sample_loads:
  "\<exists>i cred. credential_load sample_ctap_env i sample_rp no_credential keyed_ctap = Some (Inr cred) \<and> length i \<le> 4000 \<and>
     cr_rpId cred = Some [0x61, 0x2e, 0x62] \<and> length sample_rp = 32"
proof -
  obtain i st' where c: "credential_create sample_ctap_env 5 sample_cred (replicate 1024 0) keyed_ctap = Some (0, i, st')" using sample_create by blast
  have e: "sample_rp = sha256 (lib sample_ctap_env) (case_option [] id (cr_rpId sample_cred))"
    by (simp add: sample_rp_def sample_ctap_env_def sample_cred_def)
  have b: "- (2 ^ 31) \<le> cr_alg sample_cred" "cr_alg sample_cred < 2 ^ 31" "- (2 ^ 31) \<le> cr_curve sample_cred" "cr_curve sample_cred < 2 ^ 31"
    by (simp_all add: sample_cred_def)
  note l = create_load_spec(1) [OF sample_ctap_law c b refl e, of no_credential] create_load_spec(3) [OF sample_ctap_law c b refl e]
  have "cr_rpId (kept 5 sample_cred i) = Some [0x61, 0x2e, 0x62]" by (simp add: kept_def sample_cred_def kept_string_def c_string_def)
  moreover have "length sample_rp = 32" by (simp add: e ctap_lawD [OF sample_ctap_law])
  ultimately show ?thesis using l by (intro exI [of _ i] exI [of _ "kept 5 sample_cred i"]) (simp add: cred_sizes)
qed




end
