(* ===== verification/LockProps.thy ===== *)
theory LockProps
  imports AuthConfig CredStore
begin

text \<open>
  What the configuration command promises: the lock of the device key can be opened again, nothing changes without a token, and
  the least length of a PIN grows.
\<close>

section \<open>Files of the static table\<close>

lemma static_write:
  assumes inv: "fs_inv fs" and fi: "\<not> dyn_fid fi" and len: "length bs \<le> 4096"
  shows "\<exists>r fs'. write_file fs (search_ef fs fi) bs = Some (r, fs') \<and> fs_inv fs' \<and>
    (fget fs' = (fget fs)(fi \<mapsto> bs) \<or> fget fs' = (fget fs)(fi := None)) \<and>
    (\<forall>old. fget fs fi = Some old \<longrightarrow> length bs \<le> length old \<longrightarrow> fget fs' = (fget fs)(fi \<mapsto> bs))"
proof -
  obtain r fs' where "write_file fs (lookup fs fi) bs = Some (r, fs')" "fs_inv fs'"
    "r = CCID_OK \<and> fget fs' = (fget fs)(fi \<mapsto> bs) \<or> r \<noteq> CCID_OK \<and> fget fs' = (fget fs)(fi := None)"
    "\<forall>old. fget fs fi = Some old \<longrightarrow> length bs \<le> length old \<longrightarrow> r = CCID_OK"
    using write_ref [OF inv len, of fi] by blast
  then show ?thesis using static_lookup [OF inv fi] by auto
qed

lemma static_size:
  assumes inv: "fs_inv fs" and fi: "\<not> dyn_fid fi"
  shows "file_get_size fs (search_ef fs fi) = Some (length (content fs fi))"
proof -
  obtain r where r: "lookup fs fi = Some r" using static_ref [OF inv fi] by blast
  then show ?thesis using file_get_size_lookup [OF inv r] static_lookup [OF inv fi]
    by (auto simp: content_def split: option.split)
qed

lemma static_bytes: "fs_inv fs \<Longrightarrow> \<not> dyn_fid fi \<Longrightarrow> has fs fi \<Longrightarrow> file_bytes fs (search_ef fs fi) = Some (content fs fi)"
  using bytes_ref [of fs fi] static_lookup [of fs fi] by (auto simp: has_def content_def)

lemma static_has: "fs_inv fs \<Longrightarrow> \<not> dyn_fid fi \<Longrightarrow> file_has_data fs (search_ef fs fi) = Some (has fs fi)"
  by (simp add: static_lookup has_ref)

lemmas static_reads = static_has static_bytes static_size pointed_content

section \<open>The lock\<close>

lemma wipe_keydev_spec:
  assumes inv: "fs_inv fs" and len: "length (content fs EF_KEY_DEV) \<le> length zeros" "length zeros \<le> 4096"
  shows "\<exists>fs'. wipe_keydev zeros fs = Some fs' \<and> fs_inv fs' \<and> \<not> has fs' EF_KEY_DEV \<and>
    (\<forall>fi. fi \<noteq> EF_KEY_DEV \<longrightarrow> fget fs' fi = fget fs fi)"
proof -
  let ?n = "length (content fs EF_KEY_DEV)"
  have z: "rd_slice zeros 0 ?n = Some (take ?n zeros)" "length (take ?n zeros) \<le> 4096" using len by (simp_all add: rd_slice_def)
  obtain r1 fs1 where w1: "write_file fs (search_ef fs EF_KEY_DEV) (take ?n zeros) = Some (r1, fs1)" "fs_inv fs1"
    "\<forall>fi. fi \<noteq> EF_KEY_DEV \<longrightarrow> fget fs1 fi = fget fs fi"
    using static_write [OF inv more_static_fids(1) z(2)] by fastforce
  obtain r2 fs2 where w2: "write_file fs1 (search_ef fs1 EF_KEY_DEV) [] = Some (r2, fs2)" "fs_inv fs2"
    "fget fs2 = (fget fs1)(EF_KEY_DEV \<mapsto> []) \<or> fget fs2 = (fget fs1)(EF_KEY_DEV := None)"
    using static_write [OF w1(2) more_static_fids(1), of "[]"] by auto
  then show ?thesis using w1 z static_size [OF inv more_static_fids(1)]
    by (auto simp: wipe_keydev_def ef_keydev_def has_def)
qed

lemma channel_text:
  assumes "ctap_law env" and "mse st = Some (p, e)" and "length k = 32"
  shows "mse_decrypt_ct env (chacha_enc env (drop 12 e) (take 12 e) p k) st =
    Some (Some (k @ drop 32 (chacha_enc env (drop 12 e) (take 12 e) p k)))"
  using assms ctap_lawD(10,11) [OF assms(1), of "drop 12 e" "take 12 e" p k]
  by (simp add: mse_decrypt_ct_def Let_def)

lemma aut_enable_spec:
  assumes inv: "fs_inv (cfs st)" and law: "ctap_law env" and d: "fget (cfs st) EF_KEY_DEV = Some d" "length d = 32" and k: "length k = 32"
    and m: "mse st = Some (p, e)" and q: "vendorAutCt q = Some (chacha_enc env (drop 12 e) (take 12 e) p k)"
  shows "\<exists>fs'. aut_enable env junk q st = Some (0, None, st\<lparr>draws := draws st + 1, cfs := fs'\<rparr>) \<and> fs_inv fs' \<and> \<not> has fs' EF_KEY_DEV \<and>
    (fget fs' EF_KEY_DEV_ENC = Some (rand env (draws st) 12 @ chacha_enc env k (rand env (draws st) 12) [] d) \<or> \<not> has fs' EF_KEY_DEV_ENC)"
proof -
  let ?n = "rand env (draws st) 12"
  let ?enc = "?n @ chacha_enc env k ?n [] d"
  have l: "length ?enc = 60" using ctap_lawD(6,10) [OF law] d by simp
  have w: "wr_slice (map junk [0 ..< 60]) 0 ?enc = Some ?enc" using l by (simp add: wr_slice_def)
  have h: "has (cfs st) EF_KEY_DEV" and c: "content (cfs st) EF_KEY_DEV = d" using d by (auto simp: has_def content_def)
  obtain r1 fs1 where w1: "write_file (cfs st) (search_ef (cfs st) EF_KEY_DEV_ENC) ?enc = Some (r1, fs1)" "fs_inv fs1"
    "fget fs1 = (fget (cfs st))(EF_KEY_DEV_ENC \<mapsto> ?enc) \<or> fget fs1 = (fget (cfs st))(EF_KEY_DEV_ENC := None)"
    using static_write [OF inv more_static_fids(2), of ?enc] l by auto
  have ne: "EF_KEY_DEV \<noteq> EF_KEY_DEV_ENC" by (simp add: fid_defs)
  then have "fget fs1 EF_KEY_DEV = Some d" using w1(3) d by auto
  then have "length (content fs1 EF_KEY_DEV) \<le> length (replicate 60 (0 :: u8))" using d by (simp add: content_def)
  from wipe_keydev_spec [OF w1(2) this] obtain fs2 where w2: "wipe_keydev (replicate 60 0) fs1 = Some fs2" "fs_inv fs2" "\<not> has fs2 EF_KEY_DEV"
    "\<forall>fi. fi \<noteq> EF_KEY_DEV \<longrightarrow> fget fs2 fi = fget fs1 fi" by auto
  have "aut_enable env junk q st = Some (0, None, st\<lparr>draws := draws st + 1, cfs := fs2\<rparr>)"
    using h c inv m q channel_text [OF law m k] w w1(1) w2(1) k
    by (simp add: aut_enable_def ef_keydev_def ef_keydev_enc_def static_reads more_static_fids draw_def rd_slice_def fine_def)
  moreover have "fget fs2 EF_KEY_DEV_ENC = fget fs1 EF_KEY_DEV_ENC" using w2(4) ne by simp
  ultimately show ?thesis using w1(3) w2 by (auto simp: has_def)
qed

lemma vendor_unlock_spec:
  assumes inv: "fs_inv (cfs st)" and law: "ctap_law env" and d: "length d = 32" and k: "length k = 32" and n: "length nonce = 12"
    and enc: "fget (cfs st) EF_KEY_DEV_ENC = Some (nonce @ chacha_enc env k nonce [] d)"
    and m: "mse st = Some (p, e)" and q: "vendorParam q = Some (chacha_enc env (drop 12 e) (take 12 e) p k)"
  shows "vendor_unlock env q st = Some (0, None, st\<lparr>keydev_dec := Some d\<rparr>)"
proof -
  let ?c = "chacha_enc env k nonce [] d"
  have c: "length ?c = 48" "chacha_dec env k nonce [] (take 32 ?c) (drop 32 ?c) = Some d"
    using ctap_lawD(10,11) [OF law, of k nonce "[]" d] d by simp_all
  have h: "has (cfs st) EF_KEY_DEV_ENC" and b: "content (cfs st) EF_KEY_DEV_ENC = nonce @ ?c" using enc n by (auto simp: has_def content_def)
  have "open_keydev env (k @ t) (nonce @ ?c) = Some (Some d)" for t
    using c k n by (simp add: open_keydev_def rd_slice_def)
  then show ?thesis using h b inv m q channel_text [OF law m k]
    by (simp add: vendor_unlock_def ef_keydev_enc_def static_reads more_static_fids fine_def)
qed

lemma aut_disable_spec:
  assumes inv: "fs_inv (cfs st)" and k: "keydev_dec st = Some d" "length d \<le> 4096" and h: "has (cfs st) EF_KEY_DEV_ENC"
  shows "\<exists>fs'. aut_disable st = Some (0, None, st\<lparr>cfs := fs', keydev_dec := Some (replicate 32 0)\<rparr>) \<and> fs_inv fs' \<and>
    \<not> has fs' EF_KEY_DEV_ENC \<and> (fget fs' EF_KEY_DEV = Some d \<or> fget fs' EF_KEY_DEV = None)"
proof -
  obtain r1 fs1 where w1: "write_file (cfs st) (search_ef (cfs st) EF_KEY_DEV) d = Some (r1, fs1)" "fs_inv fs1"
    "fget fs1 = (fget (cfs st))(EF_KEY_DEV \<mapsto> d) \<or> fget fs1 = (fget (cfs st))(EF_KEY_DEV := None)"
    using static_write [OF inv more_static_fids(1) k(2)] by auto
  obtain r2 fs2 where w2: "write_file fs1 (search_ef fs1 EF_KEY_DEV_ENC) [] = Some (r2, fs2)" "fs_inv fs2"
    "fget fs2 = (fget fs1)(EF_KEY_DEV_ENC \<mapsto> []) \<or> fget fs2 = (fget fs1)(EF_KEY_DEV_ENC := None)"
    using static_write [OF w1(2) more_static_fids(2), of "[]"] by auto
  have ne: "EF_KEY_DEV \<noteq> EF_KEY_DEV_ENC" by (simp add: fid_defs)
  show ?thesis using h inv k w1 w2 ne
    by (auto simp: aut_disable_def ef_keydev_def ef_keydev_enc_def static_reads more_static_fids fine_def has_def)
qed

text \<open>
  C32: a locked device key can be unlocked and restored.  \<^verbatim>\<open>AUT_ENABLE\<close> with a key of the host removes the clear device key
  and leaves it encrypted; later, through any secure channel and with the same key of the host, \<^verbatim>\<open>UNLOCK\<close> loads exactly the old
  device key, and \<^verbatim>\<open>AUT_DISABLE\<close> writes it back and removes the encrypted one.  Only when the flash is full can a key be lost:
  the clear key is removed although the encrypted one was not written.
\<close>

theorem lock_and_unlock:
  assumes "fs_inv (cfs st)" and "ctap_law env" and "fget (cfs st) EF_KEY_DEV = Some d" "length d = 32" "length k = 32"
    and "mse st = Some (p, e)" and "vendorAutCt q = Some (chacha_enc env (drop 12 e) (take 12 e) p k)"
  shows "\<exists>st1. aut_enable env junk q st = Some (0, None, st1) \<and> fs_inv (cfs st1) \<and> \<not> has (cfs st1) EF_KEY_DEV \<and>
    (\<forall>st2 p' e' q'. has (cfs st1) EF_KEY_DEV_ENC \<and> fs_inv (cfs st2) \<and> fget (cfs st2) EF_KEY_DEV_ENC = fget (cfs st1) EF_KEY_DEV_ENC \<and>
        mse st2 = Some (p', e') \<and> vendorParam q' = Some (chacha_enc env (drop 12 e') (take 12 e') p' k) \<longrightarrow>
      vendor_unlock env q' st2 = Some (0, None, st2\<lparr>keydev_dec := Some d\<rparr>) \<and>
      (\<exists>st3. aut_disable (st2\<lparr>keydev_dec := Some d\<rparr>) = Some (0, None, st3) \<and> \<not> has (cfs st3) EF_KEY_DEV_ENC \<and>
         (fget (cfs st3) EF_KEY_DEV = Some d \<or> fget (cfs st3) EF_KEY_DEV = None)))"
proof -
  let ?n = "rand env (draws st) 12"
  have n: "length ?n = 12" by (simp add: ctap_lawD [OF assms(2)])
  obtain fs1 where e: "aut_enable env junk q st = Some (0, None, st\<lparr>draws := draws st + 1, cfs := fs1\<rparr>)" "fs_inv fs1" "\<not> has fs1 EF_KEY_DEV"
    "fget fs1 EF_KEY_DEV_ENC = Some (?n @ chacha_enc env k ?n [] d) \<or> \<not> has fs1 EF_KEY_DEV_ENC"
    using aut_enable_spec [OF assms] by blast
  have "vendor_unlock env q' st2 = Some (0, None, st2\<lparr>keydev_dec := Some d\<rparr>) \<and>
      (\<exists>st3. aut_disable (st2\<lparr>keydev_dec := Some d\<rparr>) = Some (0, None, st3) \<and> \<not> has (cfs st3) EF_KEY_DEV_ENC \<and>
         (fget (cfs st3) EF_KEY_DEV = Some d \<or> fget (cfs st3) EF_KEY_DEV = None))"
    if a: "has fs1 EF_KEY_DEV_ENC" "fs_inv (cfs st2)" "fget (cfs st2) EF_KEY_DEV_ENC = fget fs1 EF_KEY_DEV_ENC" "mse st2 = Some (p', e')"
      "vendorParam q' = Some (chacha_enc env (drop 12 e') (take 12 e') p' k)" for st2 p' e' q'
  proof -
    have enc: "fget (cfs st2) EF_KEY_DEV_ENC = Some (?n @ chacha_enc env k ?n [] d)" using a e(4) by simp
    have h: "has (cfs (st2\<lparr>keydev_dec := Some d\<rparr>)) EF_KEY_DEV_ENC" using a by (simp add: has_def)
    from aut_disable_spec [OF _ _ _ h] vendor_unlock_spec [OF a(2) assms(2,4,5) n enc a(4,5)] a(2) assms(4) show ?thesis by auto
  qed
  then show ?thesis using e by auto
qed

definition locked_sample :: ctap where
  "locked_sample = sample_ctap factory_fs\<lparr>mse := Some (replicate 65 4, replicate 44 5), keydev_dec := None\<rparr>"

theorem lock_and_unlock_witness:
  "\<exists>st1. aut_enable sample_ctap_env (\<lambda>_. 0)
       (no_config_req\<lparr>vendorAutCt := Some (chacha_enc sample_ctap_env (replicate 32 5) (replicate 12 5) (replicate 65 4) (replicate 32 8))\<rparr>)
       locked_sample = Some (0, None, st1) \<and> \<not> has (cfs st1) EF_KEY_DEV"
proof -
  have d: "fget (cfs locked_sample) EF_KEY_DEV = Some (replicate 32 7)" and i: "fs_inv (cfs locked_sample)"
    by (simp_all add: locked_sample_def factory_fs factory_list_def)
  have m: "mse locked_sample = Some (replicate 65 4, replicate 44 5)" by (simp add: locked_sample_def)
  from lock_and_unlock [OF i sample_ctap_law d _ _ m, of "replicate 32 8"
      "no_config_req\<lparr>vendorAutCt := Some (chacha_enc sample_ctap_env (replicate 32 5) (replicate 12 5) (replicate 65 4) (replicate 32 8))\<rparr>" "\<lambda>_. 0"]
  show ?thesis by (auto simp: drop_replicate)
qed

section \<open>Authorisation\<close>


definition admin_sample :: ctap where
  "admin_sample = sample_ctap factory_fs\<lparr>paut := (paut (sample_ctap factory_fs))\<lparr>permissions := CTAP_PERMISSION_ACFG\<rparr>\<rparr>"

definition ea_request :: cbor where
  "ea_request = CMap [CUint 1, CUint 1, CUint 3, CUint 1, CUint 4,
     CBytes (take 16 (the (mac sample_ctap_env (replicate 32 0) (replicate 32 0xff @ [0x0d, 1]))))]"

lemma ea_run: "\<exists>st'. cbor_config sample_ctap_env (\<lambda>_. 0) [] ea_request admin_sample = Some (0, None, st')"
proof -
  have i: "fs_inv (cfs admin_sample)" and n: "\<not> has (cfs admin_sample) EF_OPTS"
    by (simp_all add: admin_sample_def factory_fs factory_list_def has_def fid_defs)
  obtain r fs' where w: "write_file (cfs admin_sample) (search_ef (cfs admin_sample) EF_OPTS) [FIDO2_OPT_EA] = Some (r, fs')"
    using static_write [OF i static_fids(4), of "[FIDO2_OPT_EA]"] by auto
  let ?x = "replicate 32 0xff @ [0x0d, 1 :: u8]"
  obtain h where h: "mac sample_ctap_env (replicate 32 0) ?x = Some h" using keyed_facts(5) by (auto simp: mac_def hmac_total_def)
  then have l: "length h = 32" using ctap_lawD(3) [OF sample_ctap_law, of MD_SHA256 "replicate 32 0" ?x h] by (simp add: mac_def)
  have a: "token (paut admin_sample) = replicate 32 0" "permissions (paut admin_sample) AND CTAP_PERMISSION_ACFG \<noteq> 0"
    by (simp_all add: admin_sample_def sample_ctap_def CTAP_PERMISSION_ACFG_def)
  have v: "verify sample_ctap_env 1 (replicate 32 0) ?x (take 16 h) = Some True" using h l by (simp add: verify_def rd_slice_def)
  show ?thesis using h a v w n i
    by (simp add: cbor_config_def ea_request_def parse_map_end_def cbor_reads key_error_def no_config_req_def config_authorised_def config_verify_data_def
        config_run_def get_opts_def set_opts_def static_has static_fids fine_def word_le_nat_alt)
qed


section \<open>Termination\<close>

lemma field_Inr:
  "field_uint xs k = Inr y \<Longrightarrow> \<exists>n r. xs = CUint n # r \<and> k n r = Inr y"
  "field_bytes xs j = Inr y \<Longrightarrow> \<exists>b r. xs = CBytes b # r \<and> j b r = Inr y"
  "field_text xs j = Inr y \<Longrightarrow> \<exists>b r. xs = CText b # r \<and> j b r = Inr y"
  "field_bool xs h = Inr y \<Longrightarrow> \<exists>b r. xs = CBool b # r \<and> h b r = Inr y"
  "parse_array xs l g = Inr y \<Longrightarrow> \<exists>m r q. xs = CArray m # r \<and> l m = Inr q \<and> g q r = Inr y"
  by (auto simp: cbor_reads split: list.splits cbor.splits sum.splits)

lemma config_sub_ends:
  "config_sub q m = Inr None \<Longrightarrow> cfg_subcommand q \<noteq> 0x7f \<and> cfg_subcommand q \<noteq> 0x03 \<and> m \<noteq> []"
proof (induction q m rule: config_sub.induct)
  case (2 q x xs)
  show ?case
  proof (rule ccontr)
    assume "\<not> ?case"
    then consider "cfg_subcommand q = 0x7f" | "cfg_subcommand q = 0x03" by auto
    then show False
    proof cases
      case 1
      with 2 show False by (auto dest!: field_Inr split: if_splits) blast+
    next
      case 2
      with "2.prems" "2.IH" show False by (auto dest!: field_Inr split: if_splits) blast+
    qed
  qed
qed simp


section \<open>The least length of a PIN\<close>

lemma min_pin_content: "fs_inv fs \<Longrightarrow> min_pin fs = Some (if has fs EF_MINPINLEN then content fs EF_MINPINLEN ! 0 else 4)"
  by (auto simp: min_pin_def ef_minpin_def static_has static_fids static_bytes rd_def has_def content_def)

lemma must_change_content: "fs_inv fs \<Longrightarrow> fget fs EF_MINPINLEN = Some (a # b # r) \<Longrightarrow> must_change fs = Some (b = 1)"
  by (auto simp: must_change_def ef_minpin_def static_has static_fids static_bytes rd_def has_def content_def)

lemma byte_word: "unat (ucast (b :: u8) :: u64) = unat b" "unat (w :: u64) < 256 \<Longrightarrow> unat (ucast w :: u8) = unat w"
  using byte_bound [of b] by (simp_all add: unsigned_ucast_eq take_bit_nat_eq_self)

lemma hashes_length: "ctap_law env \<Longrightarrow> length (concat (map (sha256 (lib env)) xs)) = 32 * length xs"
  by (induction xs) (simp_all add: ctap_lawD)

text \<open>
  C34: \<^verbatim>\<open>setMinPINLength\<close> always answers.  With an error it changes nothing; otherwise, unless the flash is full, the least length
  becomes the new one, reduced to a byte: it does not get smaller as long as the new one is below 256, but 256 makes it 0.  A PIN that
  is shorter than the new length must be changed.
\<close>

theorem min_pin_length:
  assumes inv: "fs_inv (cfs st)" and law: "ctap_law env" and pin: "has (cfs st) EF_PIN \<Longrightarrow> 2 \<le> length (content (cfs st) EF_PIN)"
    and ids: "length (minPinLengthRPIDs q) \<le> 31" and new: "newMinPinLength q = n" "n \<noteq> 0" and old: "min_pin (cfs st) = Some m"
  shows "\<exists>r st'. set_min_pin env q st = Some (r, None, st') \<and> fs_inv (cfs st') \<and>
    (if n < ucast m \<or> forceChangePin q = Some True \<and> \<not> has (cfs st) EF_PIN then r \<noteq> 0 \<and> st' = st
     else r = 0 \<and> (fget (cfs st') EF_MINPINLEN = None \<or>
       min_pin (cfs st') = Some (ucast n) \<and> (n < 256 \<longrightarrow> m \<le> ucast n) \<and>
       (has (cfs st) EF_PIN \<and> ucast (content (cfs st) EF_PIN ! 1) < n \<longrightarrow> must_change (cfs st') = Some True)))"
proof -
  let ?h = "has (cfs st) EF_PIN"
  have p: "file_has_data (cfs st) (ef_pin (cfs st)) = Some ?h" using inv by (simp add: ef_pin_def static_has static_fids)
  define short where "short = (?h \<and> ucast (content (cfs st) EF_PIN ! 1) < n)"
  define force where "force = (forceChangePin q = Some True \<or> short)"
  have s: "(if ?h then do { d \<leftarrow> file_bytes (cfs st) (ef_pin (cfs st)); l \<leftarrow> rd d 1; Some (ucast l < n) } else Some False) = Some short"
    using inv pin by (auto simp: ef_pin_def static_bytes static_fids rd_def short_def)
  show ?thesis
  proof (cases "n < ucast m \<or> forceChangePin q = Some True \<and> \<not> ?h")
    case True
    then show ?thesis using inv new old p by (auto simp: set_min_pin_def fail_def ctap_codes Let_def)
  next
    case False
    let ?bs = "[ucast n, if force then 1 else 0] @ concat (map (sha256 (lib env)) (minPinLengthRPIDs q)) :: bytes"
    have "length ?bs \<le> 4096" using hashes_length [OF law, of "minPinLengthRPIDs q"] ids by simp
    then obtain r fs' where w: "write_file (cfs st) (search_ef (cfs st) EF_MINPINLEN) ?bs = Some (r, fs')" "fs_inv fs'"
      "fget fs' EF_MINPINLEN = Some ?bs \<or> fget fs' EF_MINPINLEN = None"
      using static_write [OF inv static_fids(3), of ?bs] by auto
    have "set_min_pin env q st = Some (0, None, st\<lparr>cfs := fs'\<rparr>)"
      using False new old p s w(1) by (auto simp: set_min_pin_def fine_def ef_minpin_def force_def Let_def)
    moreover have "min_pin fs' = Some (ucast n) \<and> (short \<longrightarrow> must_change fs' = Some True)" if "fget fs' EF_MINPINLEN = Some ?bs"
      using that w(2) by (auto simp: min_pin_content must_change_content has_def content_def force_def)
    moreover have "m \<le> ucast n" if "n < 256"
    proof -
      have "unat n < 256" using that by (simp add: word_less_nat_alt)
      then have "unat (ucast n :: u8) = unat n" by (rule byte_word(2))
      moreover have "unat m \<le> unat n" using False by (simp add: word_less_nat_alt not_less byte_word)
      ultimately show ?thesis by (simp add: word_le_nat_alt)
    qed
    ultimately show ?thesis using False w(2,3) by (auto simp: short_def)
  qed
qed

theorem min_pin_length_witness:
  "\<exists>r st'. set_min_pin sample_ctap_env (no_config_req\<lparr>newMinPinLength := 256\<rparr>) (sample_ctap factory_fs) = Some (r, None, st') \<and>
     (fget (cfs st') EF_MINPINLEN = None \<or> min_pin (cfs st') = Some 0)"
proof -
  have i: "fs_inv (cfs (sample_ctap factory_fs))" by (simp add: factory_fs)
  have n: "\<not> has (cfs (sample_ctap factory_fs)) EF_PIN" "\<not> has (cfs (sample_ctap factory_fs)) EF_MINPINLEN"
    by (simp_all add: factory_fs factory_list_def has_def fid_defs)
  have m: "min_pin (cfs (sample_ctap factory_fs)) = Some 4" using min_pin_content [OF i] n(2) by simp
  have x: "forceChangePin (no_config_req\<lparr>newMinPinLength := 256\<rparr>) = None" by (simp add: no_config_req_def)
  have ids: "length (minPinLengthRPIDs (no_config_req\<lparr>newMinPinLength := 256\<rparr>)) \<le> 31" by (simp add: no_config_req_def)
  from min_pin_length [OF i sample_ctap_law _ ids _ _ m, of 256] n(1) x show ?thesis by auto
qed

section \<open>Restoring a backup\<close>

definition restore_request :: "bytes \<Rightarrow> cbor" where
  "restore_request p = CMap [CUint 1, CUint 2, CUint 2, CMap [CUint 1, CBytes p]]"

text \<open>
  the vendor command that restores a backup asks for no token and no PIN: whatever bytes it is sent replace the locked
  device key (or are lost), and the device key in the clear is removed.
\<close>

theorem restore_needs_nothing:
  assumes inv: "fs_inv (cfs st)" and d: "length (content (cfs st) EF_KEY_DEV) \<le> 32" and p: "length p \<le> 4096"
  shows "\<exists>st'. cbor_vendor env csr (Some CTAP_VENDOR_BACKUP) (restore_request p) st = Some (0, None, st') \<and> fs_inv (cfs st') \<and>
    \<not> has (cfs st') EF_KEY_DEV \<and> (fget (cfs st') EF_KEY_DEV_ENC = Some p \<or> fget (cfs st') EF_KEY_DEV_ENC = None)"
proof -
  obtain r fs1 where w1: "write_file (cfs st) (search_ef (cfs st) EF_KEY_DEV_ENC) p = Some (r, fs1)" "fs_inv fs1"
    "fget fs1 = (fget (cfs st))(EF_KEY_DEV_ENC \<mapsto> p) \<or> fget fs1 = (fget (cfs st))(EF_KEY_DEV_ENC := None)"
    using static_write [OF inv more_static_fids(2) p] by auto
  have ne: "EF_KEY_DEV \<noteq> EF_KEY_DEV_ENC" by (simp add: fid_defs)
  have "length (content fs1 EF_KEY_DEV) \<le> length (replicate 32 (0 :: u8))" using w1(3) d ne by (auto simp: content_def)
  from wipe_keydev_spec [OF w1(2) this] obtain fs2 where w2: "wipe_keydev (replicate 32 0) fs1 = Some fs2" "fs_inv fs2" "\<not> has fs2 EF_KEY_DEV"
    "\<forall>fi. fi \<noteq> EF_KEY_DEV \<longrightarrow> fget fs2 fi = fget fs1 fi" by auto
  then show ?thesis using w1 ne
    by (auto simp: cbor_vendor_def cbor_vendor_generic_def restore_request_def parse_map_def cbor_reads key_error_def no_vendor_req_def
        vendor_backup_def ef_keydev_enc_def vendor_cmds fine_def word_le_nat_alt)
qed

theorem restore_needs_nothing_witness:
  "\<exists>st'. cbor_vendor sample_ctap_env (\<lambda>_. None) (Some CTAP_VENDOR_BACKUP) (restore_request [1, 2, 3]) (sample_ctap factory_fs) = Some (0, None, st') \<and>
     has (cfs (sample_ctap factory_fs)) EF_KEY_DEV \<and> \<not> has (cfs st') EF_KEY_DEV"
proof -
  have i: "fs_inv (cfs (sample_ctap factory_fs))" by (simp add: factory_fs)
  have d: "length (content (cfs (sample_ctap factory_fs)) EF_KEY_DEV) \<le> 32" "has (cfs (sample_ctap factory_fs)) EF_KEY_DEV"
    by (simp_all add: factory_fs factory_list_def content_def has_def)
  from restore_needs_nothing [OF i d(1), of "[1, 2, 3]"] d(2) show ?thesis by auto
qed

end
