(* ===== verification/CredMgmtProps.thy ===== *)
theory CredMgmtProps
  imports CredMgmt LockProps
begin

text \<open>
  What credential management promises: deleting keeps the counts, the listing goes through all relying parties, and files
  change only with a token.
\<close>

section \<open>Deleting\<close>

definition with_id :: "fs \<Rightarrow> bytes \<Rightarrow> nat \<Rightarrow> bool" where
  "with_id fs cid i \<longleftrightarrow> has fs (cred_file i) \<and> same_prefix (Some (drop 32 (content fs (cred_file i)))) (Some cid)"

lemma find_id_eq:
  assumes inv: "fs_inv fs" and ok: "resident_ok fs"
  shows "\<forall>i \<in> set is. i < 256 \<Longrightarrow> find_id fs cid is = Some (List.find (with_id fs cid) is)"
proof (induction "is")
  case (Cons i js)
  then have i: "i < 256" by simp
  note r = dyn_has [OF inv slot_dyn(1) [OF i]] content_bytes [OF inv slot_dyn(1) [OF i]]
  have "has fs (cred_file i) \<Longrightarrow> rd_slice (content fs (cred_file i)) 0 32 = Some (take 32 (content fs (cred_file i)))"
    using ok i by (simp add: resident_ok_def rd_slice_def)
  then show ?case using Cons r by (auto simp: with_id_def)
qed simp

definition uncount_at :: "nat \<Rightarrow> fs \<Rightarrow> fs option" where
  "uncount_at k fs =
     (let ef = search_dynamic_file fs (rp_file k); d = content fs (rp_file k) in
      if d ! 0 - 1 = 0 then map_option snd (delete_file fs ef) else map_option snd (write_file fs ef (d[0 := d ! 0 - 1])))"

lemma uncount_rp_eq:
  assumes inv: "fs_inv fs" and ok: "resident_ok fs"
  shows "\<forall>i \<in> set is. i < 256 \<Longrightarrow> uncount_rp rp is fs =
    (case List.find (\<lambda>k. has fs (rp_file k) \<and> rp_hash fs k = rp) is of None \<Rightarrow> Some fs | Some k \<Rightarrow> uncount_at k fs)"
proof (induction "is")
  case (Cons i js)
  then have i: "i < 256" by simp
  note r = dyn_has [OF inv slot_dyn(2) [OF i]] content_bytes [OF inv slot_dyn(2) [OF i]]
  have "has fs (rp_file i) \<Longrightarrow> rd_slice (content fs (rp_file i)) 1 32 = Some (rp_hash fs i)"
    using ok i by (auto simp: resident_ok_def rd_slice_def rp_hash_def)
  then show ?case using Cons r by (auto simp: uncount_at_def Let_def)
qed simp

lemma dyn_delete:
  assumes inv: "fs_inv fs" and d: "dyn_fid fi" and h: "has fs fi"
  shows "\<exists>fs'. delete_file fs (search_dynamic_file fs fi) = Some (CCID_OK, fs') \<and> fs_inv fs' \<and> fget fs' = (fget fs)(fi := None)"
proof -
  obtain r where l: "lookup fs fi = Some r" using has_lookup [OF h] by blast
  have "search_ef fs fi = None" using d search_ef_table [OF inv] by (simp add: dyn_fid_def)
  then show ?thesis using delete_file_spec [OF inv l] dyn_lookup [OF inv d] l by auto
qed

lemma uncount_at_spec:
  assumes inv: "fs_inv fs" and ok: "resident_ok fs" and k: "k < 256" "has fs (rp_file k)"
  shows "\<exists>fs'. uncount_at k fs = Some fs' \<and> fs_inv fs' \<and>
    (if content fs (rp_file k) ! 0 - 1 = 0 then fget fs' = (fget fs)(rp_file k := None)
     else fget fs' = (fget fs)(rp_file k \<mapsto> (content fs (rp_file k))[0 := content fs (rp_file k) ! 0 - 1]))"
proof (cases "content fs (rp_file k) ! 0 - 1 = 0")
  case True
  then show ?thesis using dyn_delete [OF inv slot_dyn(2) [OF k(1)] k(2)] by (auto simp: uncount_at_def Let_def)
next
  case False
  let ?d = "content fs (rp_file k)"
  have "length ?d \<le> 4096" "fget fs (rp_file k) = Some ?d" using ok k by (auto simp: resident_ok_def has_def content_def)
  then obtain r fs' where "write_file fs (lookup fs (rp_file k)) (?d[0 := ?d ! 0 - 1]) = Some (r, fs')" "fs_inv fs'"
    "fget fs' = (fget fs)(rp_file k \<mapsto> ?d[0 := ?d ! 0 - 1])"
    using write_ref [OF inv, of "?d[0 := ?d ! 0 - 1]" "rp_file k"] by auto
  then show ?thesis using False dyn_lookup [OF inv slot_dyn(2) [OF k(1)]] by (auto simp: uncount_at_def Let_def)
qed

lemma has_del: "fget fs' = (fget fs)(a := None) \<Longrightarrow> has fs' x \<longleftrightarrow> x \<noteq> a \<and> has fs x"
    "fget fs' = (fget fs)(a := None) \<Longrightarrow> x \<noteq> a \<Longrightarrow> content fs' x = content fs x"
  by (simp_all add: has_def content_def)

text \<open>The files of the relying parties when the credential \<open>i\<close> is gone and one of them, \<open>k\<close>, has counted this.\<close>

lemma counted_remove:
  assumes c: "counted fs" and up: "fget fs1 = (fget fs)(cred_file i := None)" and i: "i < 256" and h: "has fs (cred_file i)"
    and k: "k < 256" "has fs (rp_file k)" "rp_hash fs k = take 32 (content fs (cred_file i))"
    and up2: "if content fs (rp_file k) ! 0 - 1 = 0 then fget fs2 = (fget fs1)(rp_file k := None)
      else fget fs2 = (fget fs1)(rp_file k \<mapsto> (content fs (rp_file k))[0 := content fs (rp_file k) ! 0 - 1])"
  shows "counted fs2"
proof -
  let ?rp = "take 32 (content fs (cred_file i))" and ?d = "content fs (rp_file k)"
  let ?del = "?d ! 0 - 1 = 0"
  have up2': "fget fs2 = (fget fs1)(rp_file k := (if ?del then None else Some (?d[0 := ?d ! 0 - 1])))" using up2 by simp
  have cr: "has fs2 (cred_file j) \<longleftrightarrow> j \<noteq> i \<and> has fs (cred_file j)" "j \<noteq> i \<Longrightarrow> content fs2 (cred_file j) = content fs (cred_file j)"
    if "j < 256" for j
    using slot_inj(1) [OF that i] slot_inj(3) [OF that k(1)] by (simp_all add: has_def content_def up up2' del: add_left_cancel)
  have o: "of_rp fs2 g = of_rp fs g - {i}" for g using cr by (auto simp: of_rp_def)
  have rf: "has fs2 (rp_file j) \<longleftrightarrow> has fs (rp_file j) \<and> (j = k \<longrightarrow> \<not> ?del)"
    "has fs2 (rp_file j) \<Longrightarrow> content fs2 (rp_file j) = (if j = k then ?d[0 := ?d ! 0 - 1] else content fs (rp_file j))"
    if "j < 256" for j
    using slot_inj(2) [OF that k(1)] slot_inj(4) [OF that i] k(2) by (auto simp: has_def content_def up up2' simp del: add_left_cancel split: if_splits)
  have rh: "rp_hash fs2 j = rp_hash fs j" if "j < 256" "has fs2 (rp_file j)" for j
    using rf(2) [OF that] k(2) by (cases "content fs (rp_file k)") (auto simp: rp_hash_def)
  have mem: "i \<in> of_rp fs ?rp" using i h by (simp add: of_rp_def)
  have num: "?d ! 0 = of_nat (card (of_rp fs ?rp))" using c k unfolding counted_def by metis
  have sub: "of_rp fs ?rp \<subseteq> {..< 256}" unfolding of_rp_def by blast
  have card: "0 < card (of_rp fs ?rp)" "card (of_rp fs ?rp) \<le> 256"
    using mem of_rp_finite [of fs ?rp] card_mono [OF _ sub] by (simp_all add: card_gt_0_iff) blast
  have uniq: "j = k" if "j < 256" "has fs (rp_file j)" "rp_hash fs j = ?rp" for j using that c k unfolding counted_def by (metis (full_types))
  have one: "of_rp fs ?rp = {i}" if "?del"
  proof -
    have "of_nat (card (of_rp fs ?rp)) = (1 :: u8)" using that num by simp
    then have "card (of_rp fs ?rp) mod 256 = 1" using unat_of_nat [where 'a = 8, of "card (of_rp fs ?rp)"] by simp
    then have "card (of_rp fs ?rp) = 1" using card(2) by (cases "card (of_rp fs ?rp) = 256") simp_all
    then show ?thesis using mem by (metis card_1_singletonE singletonD)
  qed
  show ?thesis unfolding counted_def
  proof (intro conjI allI impI)
    fix j l :: nat
    assume a: "j < 256" "l < 256" "has fs2 (rp_file j)" "has fs2 (rp_file l)" "rp_hash fs2 j = rp_hash fs2 l"
    then show "j = l" using rh rf(1) c unfolding counted_def by (metis (full_types))
  next
    fix j :: nat
    assume a: "j < 256" "has fs2 (rp_file j)"
    show "content fs2 (rp_file j) ! 0 = of_nat (card (of_rp fs2 (rp_hash fs2 j)))"
    proof (cases "j = k")
      case True
      have "card (of_rp fs ?rp - {i}) = card (of_rp fs ?rp) - 1" using mem of_rp_finite by simp
      moreover have "?d \<noteq> []" using k(2) by (auto simp: has_def content_def)
      ultimately show ?thesis using True a rh [OF a] rf(2) [OF a] k(3) num card(1) by (simp add: o of_nat_diff)
    next
      case False
      then have "has fs (rp_file j)" "i \<notin> of_rp fs (rp_hash fs j)" using a rf(1) uniq mem by (auto simp: of_rp_def)
      then show ?thesis using False a c rh [OF a] rf(2) [OF a] by (simp add: o counted_def)
    qed
  next
    fix j :: nat
    assume a: "j < 256" "has fs2 (cred_file j)"
    then have j: "j \<noteq> i" "has fs (cred_file j)" "content fs2 (cred_file j) = content fs (cred_file j)" using cr by auto
    then obtain l where l: "l < 256" "has fs (rp_file l)" "rp_hash fs l = take 32 (content fs (cred_file j))"
      using c a(1) unfolding counted_def by metis
    have "has fs2 (rp_file l)"
    proof (cases "l = k \<and> ?del")
      case True
      then have "j \<in> of_rp fs ?rp" using a(1) j l k(3) by (simp add: of_rp_def)
      then show ?thesis using one True j(1) by auto
    qed (use rf(1) l in auto)
    then show "\<exists>l < 256. has fs2 (rp_file l) \<and> rp_hash fs2 l = take 32 (content fs2 (cred_file j))"
      using l j rh by (intro exI [of _ l]) simp
  qed
qed

lemma delete_cred_spec:
  assumes inv: "fs_inv (cfs st)" and ok: "resident_ok (cfs st)" and c: "counted (cfs st)"
  shows "\<exists>r st'. delete_cred cid st = Some (r, None, st') \<and>
    (if \<forall>i < 256. \<not> with_id (cfs st) cid i then r = CTAP2_ERR_NO_CREDENTIALS \<and> st' = st
     else \<exists>i fs'. i < 256 \<and> with_id (cfs st) cid i \<and> (\<forall>j < i. \<not> with_id (cfs st) cid j) \<and> r = 0 \<and> st' = st\<lparr>cfs := fs'\<rparr> \<and>
       fs_inv fs' \<and> counted fs' \<and> fget fs' (cred_file i) = None \<and>
       (\<forall>fi. fi \<noteq> cred_file i \<longrightarrow> fi \<notin> rp_file ` {..< 256} \<longrightarrow> fget fs' fi = fget (cfs st) fi))"
proof -
  have f: "find_id (cfs st) cid [0 ..< MAX_RESIDENT_CREDENTIALS] = Some (List.find (with_id (cfs st) cid) [0 ..< 256])"
    using find_id_eq [OF inv ok, of "[0 ..< 256]"] by (simp add: MAX_RESIDENT_CREDENTIALS_def)
  show ?thesis
  proof (cases "List.find (with_id (cfs st) cid) [0 ..< 256]")
    case None
    then have "\<forall>i < 256. \<not> with_id (cfs st) cid i" by (simp add: find_None_iff)
    then show ?thesis using None f by (simp add: delete_cred_def fail_def)
  next
    case (Some i)
    then have i: "i < 256" "with_id (cfs st) cid i" "\<forall>j < i. \<not> with_id (cfs st) cid j" using crs.find_upt [OF Some] by simp_all
    have h: "has (cfs st) (cred_file i)" using i(2) by (simp add: with_id_def)
    obtain fs1 where d1: "delete_file (cfs st) (search_dynamic_file (cfs st) (cred_file i)) = Some (CCID_OK, fs1)" "fs_inv fs1"
      "fget fs1 = (fget (cfs st))(cred_file i := None)" using dyn_delete [OF inv slot_dyn(1) [OF i(1)] h] by blast
    let ?rp = "take 32 (content (cfs st) (cred_file i))"
    have same: "has fs1 (rp_file j) = has (cfs st) (rp_file j)" "content fs1 (rp_file j) = content (cfs st) (rp_file j)"
      "rp_hash fs1 j = rp_hash (cfs st) j" if "j < 256" for j
      using slot_inj(4) [OF that i(1)] by (simp_all add: has_del [OF d1(3)] rp_hash_def del: add_left_cancel)
    have ok1: "resident_ok fs1" using ok same has_del [OF d1(3)] unfolding resident_ok_def by metis
    obtain k where k: "k < 256" "has (cfs st) (rp_file k)" "rp_hash (cfs st) k = ?rp" using c i(1) h unfolding counted_def by metis
    then have "List.find (\<lambda>k. has fs1 (rp_file k) \<and> rp_hash fs1 k = ?rp) [0 ..< 256] \<noteq> None" using same by (auto simp: find_None_iff)
    then obtain k where f1: "List.find (\<lambda>k. has fs1 (rp_file k) \<and> rp_hash fs1 k = ?rp) [0 ..< 256] = Some k" by auto
    then have k: "k < 256" "has (cfs st) (rp_file k)" "rp_hash (cfs st) k = ?rp" using crs.find_upt [OF f1] same by auto
    have k1: "has fs1 (rp_file k)" "content fs1 (rp_file k) = content (cfs st) (rp_file k)" using k same by auto
    obtain fs2 where u: "uncount_at k fs1 = Some fs2" "fs_inv fs2"
      "if content (cfs st) (rp_file k) ! 0 - 1 = 0 then fget fs2 = (fget fs1)(rp_file k := None)
       else fget fs2 = (fget fs1)(rp_file k \<mapsto> (content (cfs st) (rp_file k))[0 := content (cfs st) (rp_file k) ! 0 - 1])"
      using uncount_at_spec [OF d1(2) ok1 k(1) k1(1)] unfolding k1(2) by blast
    have "uncount_rp ?rp [0 ..< MAX_RESIDENT_CREDENTIALS] fs1 = Some fs2"
      using uncount_rp_eq [OF d1(2) ok1, of "[0 ..< 256]" ?rp] f1 u(1) by (simp add: MAX_RESIDENT_CREDENTIALS_def)
    then have run: "delete_cred cid st = Some (0, None, st\<lparr>cfs := fs2\<rparr>)"
      using f Some d1(1) content_bytes [OF inv slot_dyn(1) [OF i(1)] h] by (simp add: delete_cred_def ccid_defs fine_def)
    have "counted fs2" by (rule counted_remove [OF c d1(3) i(1) h k u(3)])
    moreover have "fget fs2 fi = fget fs1 fi" if "fi \<notin> rp_file ` {..< 256}" for fi using u(3) k(1) that by (auto split: if_splits)
    moreover have "cred_file i \<notin> rp_file ` {..< 256}" using slot_inj(3) [OF i(1)] by (auto simp del: add_left_cancel)
    ultimately have "\<exists>i fs'. i < 256 \<and> with_id (cfs st) cid i \<and> (\<forall>j < i. \<not> with_id (cfs st) cid j) \<and> (0 :: int) = 0 \<and> st\<lparr>cfs := fs2\<rparr> = st\<lparr>cfs := fs'\<rparr> \<and>
       fs_inv fs' \<and> counted fs' \<and> fget fs' (cred_file i) = None \<and>
       (\<forall>fi. fi \<noteq> cred_file i \<longrightarrow> fi \<notin> rp_file ` {..< 256} \<longrightarrow> fget fs' fi = fget (cfs st) fi)"
      using i u(2) d1(3) by (intro exI [of _ i] exI [of _ fs2]) auto
    moreover have "\<not> (\<forall>i < 256. \<not> with_id (cfs st) cid i)" using i by blast
    ultimately show ?thesis using run by (intro exI [of _ 0] exI [of _ "st\<lparr>cfs := fs2\<rparr>"]) (simp; blast)
  qed
qed

text \<open>
  C25: \<^verbatim>\<open>deleteCredential\<close> removes the first credential whose identifier begins like the given one or is its beginning, and nothing
  else, and takes it off the count of its relying party; the file of the relying party goes with its last credential.  The counts
  stay right.  Without such a credential nothing changes.
\<close>

theorem delete_keeps_counts:
  assumes inv: "fs_inv (cfs st)" and ok: "resident_ok (cfs st)" and c: "counted (cfs st)"
  shows "\<exists>r st'. delete_cred cid st = Some (r, None, st') \<and>
    (if \<forall>i < 256. \<not> with_id (cfs st) cid i then r = CTAP2_ERR_NO_CREDENTIALS \<and> st' = st
     else \<exists>i fs'. i < 256 \<and> with_id (cfs st) cid i \<and> (\<forall>j < i. \<not> with_id (cfs st) cid j) \<and> r = 0 \<and> st' = st\<lparr>cfs := fs'\<rparr> \<and>
       fs_inv fs' \<and> counted fs' \<and> fget fs' (cred_file i) = None \<and>
       (\<forall>fi. fi \<noteq> cred_file i \<longrightarrow> fi \<notin> rp_file ` {..< 256} \<longrightarrow> fget fs' fi = fget (cfs st) fi))"
  by (rule delete_cred_spec [OF inv ok c])

text \<open>A token with one credential.\<close>

definition one_cred_fs :: fs where
  "one_cred_fs = token_fs [(EF_CRED, replicate 32 1 @ [5, 6]), (EF_RP, 1 # replicate 32 1 @ [0x61])]"

lemma one_cred_fs: "fs_inv one_cred_fs" "fget one_cred_fs = [EF_CRED \<mapsto> replicate 32 1 @ [5, 6], EF_RP \<mapsto> 1 # replicate 32 1 @ [0x61]]"
proof -
  let ?l = "[(EF_CRED, replicate 32 1 @ [5, 6]), (EF_RP, 1 # replicate 32 1 @ [0x61 :: u8])]"
  have d: "distinct (map fst ?l)" by (simp add: fid_defs)
  have "list_all (\<lambda>(fi, bs). length bs \<le> 4096) ?l" "length ?l \<le> 100" by simp_all
  from token_fs [OF d this] show "fs_inv one_cred_fs" "fget one_cred_fs = [EF_CRED \<mapsto> replicate 32 1 @ [5, 6], EF_RP \<mapsto> 1 # replicate 32 1 @ [0x61]]"
    unfolding one_cred_fs_def using d by (simp_all add: fun_upd_twist)
qed

lemma one_cred_slots:
  "content one_cred_fs EF_CRED = replicate 32 1 @ [5, 6]" "content one_cred_fs EF_RP = 1 # replicate 32 1 @ [0x61]"
  "has one_cred_fs EF_CRED" "has one_cred_fs EF_RP"
  "i < 256 \<Longrightarrow> has one_cred_fs (cred_file i) \<longleftrightarrow> i = 0" "i < 256 \<Longrightarrow> has one_cred_fs (rp_file i) \<longleftrightarrow> i = 0"
proof -
  have d: "EF_CRED \<noteq> EF_RP" by (simp add: fid_defs)
  show "content one_cred_fs EF_CRED = replicate 32 1 @ [5, 6]" "content one_cred_fs EF_RP = 1 # replicate 32 1 @ [0x61]"
    "has one_cred_fs EF_CRED" "has one_cred_fs EF_RP" using d by (simp_all add: has_def content_def one_cred_fs(2))
  show "i < 256 \<Longrightarrow> has one_cred_fs (cred_file i) \<longleftrightarrow> i = 0" "i < 256 \<Longrightarrow> has one_cred_fs (rp_file i) \<longleftrightarrow> i = 0"
    using slot_inj(1) [of i 0] slot_inj(2) [of i 0] slot_inj(3) [of i 0] slot_inj(4) [of i 0] d
    by (auto simp: has_def one_cred_fs(2) simp del: add_left_cancel add_cancel_right_right)
qed

lemma one_cred_facts: "resident_ok one_cred_fs" "counted one_cred_fs"
proof -
  show "resident_ok one_cred_fs" using one_cred_slots(1-4) one_cred_slots(5,6) by (auto simp: resident_ok_def)
  have "of_rp one_cred_fs (replicate 32 1) = {0}" using one_cred_slots by (auto simp: of_rp_def)
  moreover have "rp_hash one_cred_fs 0 = replicate 32 1" using one_cred_slots(2) by (simp add: rp_hash_def)
  ultimately show "counted one_cred_fs" using one_cred_slots unfolding counted_def by auto
qed

lemma one_cred_delete:
  assumes c: "cfs st = one_cred_fs" and spec: "\<exists>r st'. delete_cred [5, 6] st = Some (r, None, st') \<and>
    (if \<forall>i < 256. \<not> with_id (cfs st) [5, 6] i then r = CTAP2_ERR_NO_CREDENTIALS \<and> st' = st
     else \<exists>i fs'. i < 256 \<and> with_id (cfs st) [5, 6] i \<and> (\<forall>j < i. \<not> with_id (cfs st) [5, 6] j) \<and> r = 0 \<and> st' = st\<lparr>cfs := fs'\<rparr> \<and>
       fs_inv fs' \<and> counted fs' \<and> fget fs' (cred_file i) = None \<and>
       (\<forall>fi. fi \<noteq> cred_file i \<longrightarrow> fi \<notin> rp_file ` {..< 256} \<longrightarrow> fget fs' fi = fget (cfs st) fi))"
  shows "\<exists>st'. delete_cred [5, 6] st = Some (0, None, st') \<and> counted (cfs st') \<and> \<not> has (cfs st') (cred_file 0)"
proof -
  have w: "with_id one_cred_fs [5, 6] i \<longleftrightarrow> i = 0" if "i < 256" for i
    using one_cred_slots(5) [OF that] one_cred_slots(1,3) by (auto simp: with_id_def same_prefix_def)
  then have "\<not> (\<forall>i < 256. \<not> with_id (cfs st) [5, 6] i)" unfolding c by (auto intro!: exI [of _ "0 :: nat"])
  then obtain i fs' where i: "delete_cred [5, 6] st = Some (0, None, st\<lparr>cfs := fs'\<rparr>)" "i < 256" "with_id one_cred_fs [5, 6] i" "counted fs'"
    "fget fs' (cred_file i) = None" using spec unfolding c by (auto split: if_splits)
  then show ?thesis using w [of i] by (intro exI [of _ "st\<lparr>cfs := fs'\<rparr>"]) (simp add: has_def)
qed

theorem delete_keeps_counts_witness:
  "\<exists>st'. delete_cred [5, 6] (sample_ctap one_cred_fs) = Some (0, None, st') \<and> counted (cfs st') \<and> \<not> has (cfs st') (cred_file 0)"
proof -
  have a: "fs_inv (cfs (sample_ctap one_cred_fs))" "resident_ok (cfs (sample_ctap one_cred_fs))" "counted (cfs (sample_ctap one_cred_fs))"
    using one_cred_fs(1) one_cred_facts by simp_all
  show ?thesis by (rule one_cred_delete [OF _ delete_keeps_counts [OF a]]) simp
qed

section \<open>Listing the relying parties\<close>

text \<open>The scan, with the files that count given by \<open>P\<close>.\<close>

lemma scan_first:
  assumes "\<forall>i \<in> set is. there i = Some (P i)" and "unat skip + length (filter P is) < 256" "skip < c \<or> ef \<noteq> None"
  shows "list_scan there True c is skip ef n = Some
    (if ef \<noteq> None then ef else if unat c - unat skip \<le> length (filter P is) then Some (filter P is ! (unat c - unat skip - 1)) else None,
     n + of_nat (length (filter P is)))"
  using assms
proof (induction "is" arbitrary: skip ef n)
  case Nil
  then show ?case by (auto simp: word_less_nat_alt)
next
  case (Cons i js)
  show ?case
  proof (cases "P i")
    case False
    then show ?thesis using Cons by simp
  next
    case True
    then have u: "unat (skip + 1) = unat skip + 1" using Cons.prems(2) by (simp add: unat_word_ariths)
    have e: "skip + 1 = c \<longleftrightarrow> unat c = unat skip + 1" using u by (auto simp: word_unat_eq_iff)
    have less: "skip + 1 < c \<longleftrightarrow> unat skip + 1 < unat c" using u by (simp add: word_less_nat_alt)
    have lc: "ef = None \<Longrightarrow> unat skip < unat c" using Cons.prems(3) by (simp add: word_less_nat_alt)
    have b: "unat (skip + 1) + length (filter P js) < 256" using Cons.prems(2) True u by simp
    note ih = Cons.IH [OF _ b]
    show ?thesis
    proof (cases "ef = None \<and> unat c \<noteq> unat skip + 1")
      case t: True
      then have "skip + 1 < c" using lc less by simp
      with ih [of None "n + 1"] Cons.prems(1) True t e u lc show ?thesis by (auto simp: Let_def nth_Cons' Suc_diff_Suc algebra_simps)
    next
      case f: False
      with ih [of "if ef = None then Some i else ef" "n + 1"] Cons.prems(1) True e u show ?thesis by (auto simp: Let_def algebra_simps)
    qed
  qed
qed

lemma scan_next:
  assumes "\<forall>i \<in> set is. there i = Some (P i)" and "unat skip + length (filter P is) < 256" "skip < c"
  shows "list_scan there False c is skip None n = Some
    (if unat c - unat skip \<le> length (filter P is) then Some (filter P is ! (unat c - unat skip - 1)) else None, n)"
  using assms
proof (induction "is" arbitrary: skip)
  case Nil
  then show ?case by (auto simp: word_less_nat_alt)
next
  case (Cons i js)
  show ?case
  proof (cases "P i")
    case False
    then show ?thesis using Cons by simp
  next
    case True
    then have u: "unat (skip + 1) = unat skip + 1" using Cons.prems(2) by (simp add: unat_word_ariths)
    have e: "skip + 1 = c \<longleftrightarrow> unat c = unat skip + 1" using u by (auto simp: word_unat_eq_iff)
    have lc: "unat skip < unat c" using Cons.prems(3) by (simp add: word_less_nat_alt)
    have b: "unat (skip + 1) + length (filter P js) < 256" using Cons.prems(2) True u by simp
    show ?thesis
    proof (cases "unat c = unat skip + 1")
      case False
      then have "skip + 1 < c" using lc u by (simp add: word_less_nat_alt)
      from Cons.IH [OF _ b this] Cons.prems(1) True False e u lc show ?thesis by (auto simp: Let_def nth_Cons' Suc_diff_Suc)
    qed (use Cons.prems(1) True e in \<open>simp add: Let_def\<close>)
  qed
qed

text \<open>The relying parties that count, and the entry of one of them.\<close>

definition rp_live :: "fs \<Rightarrow> nat \<Rightarrow> bool" where "rp_live fs i \<longleftrightarrow> has fs (rp_file i) \<and> content fs (rp_file i) ! 0 > 0"

definition live_rps :: "fs \<Rightarrow> nat list" where "live_rps fs = filter (rp_live fs) [0 ..< 256]"

definition rp_entry :: "fs \<Rightarrow> nat \<Rightarrow> cbor list" where
  "rp_entry fs i = [CUint 3, CMap [CText text_id, CText (drop 33 (content fs (rp_file i)))], CUint 4, CBytes (rp_hash fs i)]"

lemma live_rps_few: "fs_inv fs \<Longrightarrow> length (live_rps fs) \<le> 128"
proof -
  assume inv: "fs_inv fs"
  have "length (live_rps fs) = card {i. i < 256 \<and> rp_live fs i}"
    unfolding live_rps_def length_filter_conv_card by (rule arg_cong [of _ _ card]) auto
  also have "\<dots> \<le> card {i. i < 256 \<and> has fs (rp_file i)}" by (rule card_mono) (auto simp: rp_live_def)
  also have "\<dots> \<le> 128" by (rule slot_used(2) [OF inv])
  finally show ?thesis .
qed

lemma rp_there_eq:
  assumes inv: "fs_inv fs" and i: "i < 256"
  shows "rp_there fs i = Some (rp_live fs i)"
  using dyn_has [OF inv slot_dyn(2) [OF i]] content_bytes [OF inv slot_dyn(2) [OF i]]
  by (auto simp: rp_there_def rp_live_def rd_def has_def content_def Let_def)

lemma list_rp_eq:
  assumes inv: "fs_inv (cfs st)" and ok: "resident_ok (cfs st)"
    and c: "0 < rp_counter st" and f: "first \<Longrightarrow> rp_counter st = 1 \<and> rp_total st = 0"
  defines "R \<equiv> live_rps (cfs st)"
  defines "n \<equiv> (if first then of_nat (length R) else rp_total st)"
  shows "list_rp first st =
    (if unat (rp_counter st) \<le> length R
     then answer (CMap (rp_entry (cfs st) (R ! (unat (rp_counter st) - 1)) @ (if first then [CUint 5, CUint (ucast n)] else [])))
       (st\<lparr>rp_total := n, rp_counter := rp_counter st + 1\<rparr>)
     else fail CTAP2_ERR_NO_CREDENTIALS (st\<lparr>rp_total := n\<rparr>))"
proof -
  have t: "\<forall>i \<in> set [0 ..< 256]. rp_there (cfs st) i = Some (rp_live (cfs st) i)" using rp_there_eq [OF inv] by simp
  have b: "unat (0 :: u8) + length (filter (rp_live (cfs st)) [0 ..< 256]) < 256" using live_rps_few [OF inv] by (simp add: live_rps_def)
  have s: "list_scan (rp_there (cfs st)) first (rp_counter st) [0 ..< MAX_RESIDENT_CREDENTIALS] 0 None (rp_total st) =
      Some (if unat (rp_counter st) \<le> length R then Some (R ! (unat (rp_counter st) - 1)) else None, n)"
    using scan_first [OF t b, of "rp_counter st" None "rp_total st"] scan_next [OF t b, of "rp_counter st" "rp_total st"] c f
    by (auto simp: R_def n_def live_rps_def MAX_RESIDENT_CREDENTIALS_def)
  show ?thesis
  proof (cases "unat (rp_counter st) \<le> length R")
    case True
    obtain i where e: "R ! (unat (rp_counter st) - 1) = i" by blast
    have "unat (rp_counter st) - 1 < length R" using True c by (simp add: word_less_nat_alt)
    then have "i \<in> set R" using e nth_mem by blast
    then have i: "i < 256" "has (cfs st) (rp_file i)" by (auto simp: R_def live_rps_def rp_live_def)
    have "rd_slice (content (cfs st) (rp_file i)) 1 32 = Some (rp_hash (cfs st) i)"
      using ok i by (auto simp: resident_ok_def rd_slice_def rp_hash_def)
    then show ?thesis using True s e content_bytes [OF inv slot_dyn(2) [OF i(1)] i(2)]
      by (simp add: list_rp_def rp_entry_def answer_def)
  qed (use s in \<open>simp add: list_rp_def\<close>)
qed

text \<open>A host that asks for \<open>n\<close> more relying parties.\<close>

fun next_rps :: "ctap_env \<Rightarrow> mgmt_req \<Rightarrow> nat \<Rightarrow> ctap \<Rightarrow> (int \<times> cbor option) list option" where
  "next_rps env q 0 st = Some []"
| "next_rps env q (Suc n) st = do {
     (r, v, st) \<leftarrow> mgmt_rps env False q st;
     rs \<leftarrow> next_rps env q n st;
     Some ((r, v) # rs)
   }"

definition rp_answer :: "fs \<Rightarrow> nat \<Rightarrow> int \<times> cbor option" where
  "rp_answer fs k = (if k < length (live_rps fs) then (0, Some (CMap (rp_entry fs (live_rps fs ! k)))) else (CTAP2_ERR_NOT_ALLOWED, None))"

lemma next_rps_eq:
  assumes q: "mg_subcommand q = 0x03" and inv: "fs_inv fs" and ok: "resident_ok fs"
  shows "cfs st = fs \<Longrightarrow> unat (rp_total st) = length (live_rps fs) \<Longrightarrow> 0 < rp_counter st \<Longrightarrow> unat (rp_counter st) \<le> length (live_rps fs) + 1 \<Longrightarrow>
    next_rps env q n st = Some (map (rp_answer fs) [unat (rp_counter st) - 1 ..< unat (rp_counter st) - 1 + n])"
proof (induction n arbitrary: st)
  case (Suc n)
  let ?c = "unat (rp_counter st)"
  have c: "0 < ?c" using Suc.prems(3) by (simp add: word_less_nat_alt)
  show ?case
  proof (cases "?c \<le> length (live_rps fs)")
    case True
    let ?st = "st\<lparr>rp_total := rp_total st, rp_counter := rp_counter st + 1\<rparr>"
    have u: "unat (rp_counter st + 1) = ?c + 1" using True live_rps_few [OF inv] by (simp add: unat_word_ariths)
    have "mgmt_rps env False q st = answer (CMap (rp_entry fs (live_rps fs ! (?c - 1)))) ?st"
      using list_rp_eq [of st False] Suc.prems inv ok True q by (auto simp: mgmt_rps_def word_less_nat_alt)
    moreover have "next_rps env q n ?st = Some (map (rp_answer fs) [?c ..< ?c + n])"
      using Suc.IH [of ?st] Suc.prems u True by (simp add: word_less_nat_alt)
    moreover have "rp_answer fs (?c - 1) = (0, Some (CMap (rp_entry fs (live_rps fs ! (?c - 1)))))" using True c by (simp add: rp_answer_def)
    moreover have "[?c - 1 ..< ?c - 1 + Suc n] = (?c - 1) # [?c ..< ?c + n]" using c by (cases ?c) (simp_all add: upt_conv_Cons)
    ultimately show ?thesis by (simp add: answer_def)
  next
    case False
    then have "mgmt_rps env False q st = fail CTAP2_ERR_NOT_ALLOWED st" using Suc.prems(2) q by (simp add: mgmt_rps_def word_less_nat_alt)
    moreover have "rp_answer fs (?c - 1) = (CTAP2_ERR_NOT_ALLOWED, None)" using False Suc.prems(4) by (simp add: rp_answer_def)
    moreover have past: "map (rp_answer fs) [?c - 1 ..< ?c - 1 + m] = replicate m (CTAP2_ERR_NOT_ALLOWED, None)" for m
    proof (intro nth_equalityI)
      fix i assume "i < length (map (rp_answer fs) [?c - 1 ..< ?c - 1 + m])"
      then show "map (rp_answer fs) [?c - 1 ..< ?c - 1 + m] ! i = replicate m (CTAP2_ERR_NOT_ALLOWED, None) ! i"
        using False by (simp add: rp_answer_def)
    qed simp
    moreover have "next_rps env q n st = Some (replicate n (CTAP2_ERR_NOT_ALLOWED, None))" using Suc.IH [of st] Suc.prems past by simp
    ultimately show ?thesis by (simp only: next_rps.simps past) (simp add: fail_def)
  qed
qed simp

text \<open>
  C26: the listing of the relying parties goes through each one with credentials exactly once, in the order of their files: the
  first command gives the first one and their number, each further one the next, and after the last one the answer is an error,
  however often the host asks.
\<close>

theorem rp_listing:
  assumes inv: "fs_inv (cfs st)" and ok: "resident_ok (cfs st)" and q: "mg_subcommand q = 0x03" and some: "live_rps (cfs st) \<noteq> []"
  shows "\<exists>st1. list_rp True (st\<lparr>rp_counter := 1, rp_total := 0\<rparr>) =
      Some (0, Some (CMap (rp_entry (cfs st) (live_rps (cfs st) ! 0) @ [CUint 5, CUint (of_nat (length (live_rps (cfs st))))])), st1) \<and>
    next_rps env q n st1 = Some (map (rp_answer (cfs st)) [1 ..< 1 + n])"
proof -
  let ?R = "live_rps (cfs st)"
  let ?st1 = "st\<lparr>rp_counter := 2, rp_total := of_nat (length ?R)\<rparr>"
  have len: "0 < length ?R" "length ?R \<le> 128" using some live_rps_few [OF inv] by simp_all
  have u: "unat (of_nat (length ?R) :: u8) = length ?R" using len by (simp add: unat_of_nat)
  have w: "(ucast (of_nat (length ?R) :: u8) :: u64) = of_nat (length ?R)"
    using len u byte_word(1) [of "of_nat (length ?R)"] by (simp add: word_unat_eq_iff unat_of_nat)
  have "list_rp True (st\<lparr>rp_counter := 1, rp_total := 0\<rparr>) =
      Some (0, Some (CMap (rp_entry (cfs st) (?R ! 0) @ [CUint 5, CUint (of_nat (length ?R))])), ?st1)"
    using list_rp_eq [of "st\<lparr>rp_counter := 1, rp_total := 0\<rparr>" True] inv ok len w by (simp add: answer_def Suc_le_eq)
  moreover have "next_rps env q n ?st1 = Some (map (rp_answer (cfs st)) [1 ..< 1 + n])"
    using next_rps_eq [OF q inv ok, of ?st1 env n] u len by (simp add: word_less_nat_alt)
  ultimately show ?thesis by blast
qed

theorem rp_listing_witness:
  "\<exists>st1. list_rp True (sample_ctap one_cred_fs\<lparr>rp_counter := 1, rp_total := 0\<rparr>) =
      Some (0, Some (CMap [CUint 3, CMap [CText text_id, CText [0x61]], CUint 4, CBytes (replicate 32 1), CUint 5, CUint 1]), st1) \<and>
    next_rps sample_ctap_env (no_mgmt_req\<lparr>mg_subcommand := 0x03\<rparr>) 1 st1 = Some [(CTAP2_ERR_NOT_ALLOWED, None)]"
proof -
  have "rp_live one_cred_fs i \<longleftrightarrow> i = 0" if "i < 256" for i using one_cred_slots that by (auto simp: rp_live_def)
  then have "live_rps one_cred_fs = filter (\<lambda>i. i = 0) [0 ..< 256]" by (unfold live_rps_def) (rule filter_cong, auto)
  also have "[0 ..< 256 :: nat] = 0 # [1 ..< 256]" by (simp add: upt_conv_Cons)
  also have "filter (\<lambda>i. i = 0) \<dots> = [0]" by (simp add: filter_empty_conv)
  finally have l: "live_rps one_cred_fs = [0]" .
  have a: "fs_inv (cfs (sample_ctap one_cred_fs))" "resident_ok (cfs (sample_ctap one_cred_fs))" "mg_subcommand (no_mgmt_req\<lparr>mg_subcommand := 0x03\<rparr>) = 0x03"
    "live_rps (cfs (sample_ctap one_cred_fs)) \<noteq> []"
    using one_cred_fs(1) one_cred_facts l by simp_all
  from rp_listing [OF a, of sample_ctap_env 1] l one_cred_slots(2) show ?thesis
    by (simp add: rp_entry_def rp_hash_def rp_answer_def)
qed

section \<open>What the token protects\<close>

lemma guard_same:
  "mgmt_guard env q payload d st k = Some (r, v, st') \<Longrightarrow> r = CTAP2_ERR_PIN_AUTH_INVALID \<and> st' = st \<or>
    verify env (ucast (mg_protocol q)) (token (paut st)) payload (case_option [] id (mg_param q)) = Some True \<and> d = Some False \<and> k = Some (r, v, st')"
  by (auto simp: mgmt_guard_def fail_def Let_def split: Option.bind_splits if_splits)

lemma drop_hash_cfs [simp]: "cfs (drop_hash first st) = cfs st" by (simp add: drop_hash_def)

lemma list_rp_cfs: "list_rp first st = Some (r, v, st') \<Longrightarrow> cfs st' = cfs st"
  by (auto simp: list_rp_def fail_def answer_def Let_def split: Option.bind_splits option.splits)

lemma tell_cred_cfs: "tell_cred env first cred cid key hash st = Some (r, v, st') \<Longrightarrow> cfs st' = cfs st"
  by (auto simp: tell_cred_def fail_def answer_def Let_def split: Option.bind_splits option.splits if_splits)

lemma list_cred_cfs: "list_cred env first hash st = Some (r, v, st') \<Longrightarrow> cfs st' = cfs st"
  by (auto simp: list_cred_def fail_def Let_def dest!: tell_cred_cfs split: Option.bind_splits option.splits sum.splits if_splits)

text \<open>
  C27: a command of the credential management changes a file only when it is the deletion or the update of a credential and its
  code was made with the token in force; unless the command came with its old number, the token has the permission
  \<open>cm\<close>, and a token that is bound to a relying party is bound to the one of the parameter.
\<close>

theorem cred_mgmt_needs_token:
  assumes run: "cred_mgmt env junk now preview raw q st = Some (r, v, st')" and changed: "cfs st' \<noteq> cfs st"
  shows "mg_subcommand q \<in> {0x06, 0x07} \<and>
    verify env (ucast (mg_protocol q)) (token (paut st)) (ucast (mg_subcommand q) # raw) (case_option [] id (mg_param q)) = Some True \<and>
    (preview \<or> permissions (paut st) AND CTAP_PERMISSION_CM \<noteq> 0 \<and>
      (has_rp_id (paut st) \<longrightarrow> (\<exists>h. mg_rpIdHash q = Some h \<and> take 32 h = rp_id_hash (paut st))))"
proof -
  let ?n = "mg_subcommand q"
  have rps: "mgmt_rps env preview q st \<noteq> Some (r, v, st')"
    using changed by (auto simp: mgmt_rps_def fail_def dest!: guard_same list_rp_cfs)
  have creds: "mgmt_creds env preview raw q st \<noteq> Some (r, v, st')"
    using changed by (auto simp: mgmt_creds_def fail_def dest!: guard_same list_cred_cfs split: held_hash.splits if_splits)
  have meta: "mgmt_metadata env preview q st \<noteq> Some (r, v, st')"
    using changed by (auto simp: mgmt_metadata_def answer_def dest!: guard_same split: Option.bind_splits)
  have del: "mgmt_delete env preview raw q st = Some (r, v, st') \<and> ?n = 0x06 \<or> mgmt_update env junk now preview raw q st = Some (r, v, st') \<and> ?n = 0x07"
    using run changed rps creds meta by (auto simp: cred_mgmt_def fail_def Let_def split: if_splits)
  then obtain k where "mgmt_guard env q (ucast ?n # raw) (denied_rp preview q st) st k = Some (r, v, st')" and n: "?n \<in> {0x06, 0x07}"
    using changed by (auto simp: mgmt_delete_def mgmt_update_def fail_def split: option.splits)
  then have g: "verify env (ucast (mg_protocol q)) (token (paut st)) (ucast ?n # raw) (case_option [] id (mg_param q)) = Some True"
    "denied_rp preview q st = Some False" using changed guard_same by blast+
  have "preview \<or> permissions (paut st) AND CTAP_PERMISSION_CM \<noteq> 0 \<and>
      (has_rp_id (paut st) \<longrightarrow> (\<exists>h. mg_rpIdHash q = Some h \<and> take 32 h = rp_id_hash (paut st)))"
    using g(2) by (auto simp: denied_rp_def rd_slice_def split: Option.bind_splits if_splits)
  then show ?thesis using n g(1) by blast
qed

definition cm_sample :: ctap where
  "cm_sample = sample_ctap one_cred_fs\<lparr>paut := (paut (sample_ctap one_cred_fs))\<lparr>permissions := CTAP_PERMISSION_CM\<rparr>\<rparr>"

definition del_request :: mgmt_req where
  "del_request = no_mgmt_req\<lparr>mg_subcommand := 0x06, mg_protocol := 1, mg_id := Some [5, 6],
     mg_param := Some (take 16 (the (mac sample_ctap_env (replicate 32 0) [0x06])))\<rparr>"

theorem cred_mgmt_needs_token_witness:
  "\<exists>st'. cred_mgmt sample_ctap_env (\<lambda>_. 0) 0 False [] del_request cm_sample = Some (0, None, st') \<and>
    permissions (paut cm_sample) AND CTAP_PERMISSION_CM \<noteq> 0"
proof -
  obtain h where h: "mac sample_ctap_env (replicate 32 0) [0x06] = Some h" using keyed_facts(5) by (auto simp: mac_def hmac_total_def)
  then have l: "length h = 32" using ctap_lawD(3) [OF sample_ctap_law, of MD_SHA256 "replicate 32 0" "[0x06]" h] by (simp add: mac_def)
  have a: "token (paut cm_sample) = replicate 32 0" "permissions (paut cm_sample) = CTAP_PERMISSION_CM" "\<not> has_rp_id (paut cm_sample)"
    "cfs cm_sample = one_cred_fs" by (simp_all add: cm_sample_def sample_ctap_def)
  obtain st' where d: "delete_cred [5, 6] cm_sample = Some (0, None, st')" "\<not> has (cfs st') (cred_file 0)"
    using one_cred_delete [OF a(4) delete_cred_spec] one_cred_fs(1) one_cred_facts a(4) by auto
  have v: "verify sample_ctap_env 1 (replicate 32 0) [0x06] (take 16 h) = Some True" using h l by (simp add: verify_def rd_slice_def)
  have "cred_mgmt sample_ctap_env (\<lambda>_. 0) 0 False [] del_request cm_sample = Some (0, None, st')"
    using v h a d by (simp add: cred_mgmt_def mgmt_delete_def mgmt_guard_def denied_rp_def del_request_def no_mgmt_req_def CTAP_PERMISSION_CM_def)
  moreover have "cfs st' \<noteq> cfs cm_sample" using d(2) one_cred_slots(3) a(4) by auto
  ultimately show ?thesis using cred_mgmt_needs_token by blast
qed

section \<open>Updating\<close>

lemma field_key_Inr: "field_key xs k = Inr y \<Longrightarrow> \<exists>b r. xs = CText b # r \<and> k (c_string b) r = Inr y"
  by (auto simp: field_key_def dest!: field_Inr split: if_splits)

lemma container_cases:
  "parse_map_end xs loop km = Inr y \<Longrightarrow> y = None \<or> (\<exists>m r q. xs = CMap m # r \<and> loop m = Inr (Some q) \<and> km q r = Inr y)"
  "parse_array_end xs loop km = Inr y \<Longrightarrow> y = None \<or> (\<exists>m r q. xs = CArray m # r \<and> loop m = Inr (Some q) \<and> km q r = Inr y)"
  by (auto simp: parse_map_end_def parse_array_end_def cbor_next_def split: list.splits cbor.splits option.splits sum.splits)

lemma user_loop_whole: "user_loop q (CUint k # m) = Inl Improper" by (simp add: field_key_def field_text_def)

lemma desc_loop_user: "desc_loop q xs = Inr (Some q') \<Longrightarrow> mg_user_id q' = mg_user_id q"
proof (induction "length xs" arbitrary: q xs rule: less_induct)
  case less
  show ?case
  proof (cases xs)
    case (Cons x ys)
    then show ?thesis using less(2) by (auto dest!: field_Inr field_key_Inr container_cases less(1) [rotated] split: if_splits)
  qed (use less in simp)
qed

lemma mgmt_sub_user: "mgmt_sub (CUint k # m) q xs = Inr (Some q') \<Longrightarrow> mg_user_id q' = mg_user_id q"
proof (induction "length xs" arbitrary: q xs rule: less_induct)
  case less
  show ?case
  proof (cases xs)
    case (Cons x ys)
    then show ?thesis using less(2)
      by (auto simp: user_loop_whole simp del: user_loop.simps
        dest!: field_Inr field_key_Inr container_cases less(1) [rotated] desc_loop_user split: if_splits)
  qed (use less in simp)
qed

lemma mgmt_sub_head: "mgmt_sub m q (x # xs) = Inr y \<Longrightarrow> \<exists>k. x = CUint k" by (auto dest!: field_Inr field_key_Inr)

lemma mgmt_loop_user: "mgmt_loop c q xs = Inr (Some q') \<Longrightarrow> mg_user_id q' = mg_user_id q"
proof (induction "length xs" arbitrary: c q xs rule: less_induct)
  case less
  have s: "mg_user_id p = mg_user_id q" if "mgmt_sub m q m = Inr (Some p)" for m p
  proof (cases m)
    case (Cons y ys)
    then show ?thesis using that mgmt_sub_user mgmt_sub_head by blast
  qed (use that in simp)
  show ?case
  proof (cases xs)
    case (Cons x ys)
    then show ?thesis using less(2)
      by (auto simp: s dest!: field_Inr field_key_Inr container_cases less(1) [rotated] split: option.splits if_splits)
  qed (use less in simp)
qed

text \<open>
  the subcommand \<^verbatim>\<open>updateUserInformation\<close> can never be carried out: whatever request is read, no user is found in it and the
  answer is that a parameter is missing; and a well-formed request with the new names is refused as malformed, since the
  reading goes back to the beginning of the subparameters instead of into the map of the user.
\<close>

theorem user_update_dead:
  assumes read: "mgmt_loop 1 no_mgmt_req items = Inr (Some q)" and cmd: "mg_subcommand q = 0x07"
    and param: "mg_param q = Some pin" and proto: "mg_protocol q \<in> {1, 2}"
  shows "cred_mgmt env junk now preview raw q st = fail CTAP2_ERR_MISSING_PARAMETER st \<and>
    cbor_cred_mgmt env junk now preview raw (CMap [CUint 1, CUint 7,
      CUint 2, CMap [CUint 2, CMap [CText text_id, CBytes cid, CText text_type, CText text_public_key], CUint 3, CMap user],
      CUint 3, CUint p, CUint 4, CBytes auth]) st = fail 0x11 st"
proof -
  have "mg_user_id q = None" using mgmt_loop_user [OF read] by (simp add: no_mgmt_req_def)
  then have "cred_mgmt env junk now preview raw q st = fail CTAP2_ERR_MISSING_PARAMETER st"
    using cmd param proto by (auto simp: cred_mgmt_def mgmt_update_def split: option.split)
  moreover have "cbor_cred_mgmt env junk now preview raw (CMap [CUint 1, CUint 7,
      CUint 2, CMap [CUint 2, CMap [CText text_id, CBytes cid, CText text_type, CText text_public_key], CUint 3, CMap user],
      CUint 3, CUint p, CUint 4, CBytes auth]) st = fail 0x11 st"
    by (simp add: cbor_cred_mgmt_def cbor_reads parse_map_end_def key_error_def field_key_def text_id_def text_type_def text_public_key_def c_string_def)
  ultimately show ?thesis by blast
qed

theorem user_update_dead_witness:
  "cred_mgmt sample_ctap_env (\<lambda>_. 0) 0 False [] (no_mgmt_req\<lparr>mg_subcommand := 0x07, mg_protocol := 1, mg_param := Some []\<rparr>) (sample_ctap one_cred_fs) =
    fail CTAP2_ERR_MISSING_PARAMETER (sample_ctap one_cred_fs)"
proof -
  have "mgmt_loop 1 no_mgmt_req [CUint 1, CUint 7, CUint 3, CUint 1, CUint 4, CBytes []] =
      Inr (Some (no_mgmt_req\<lparr>mg_subcommand := 0x07, mg_protocol := 1, mg_param := Some []\<rparr>))"
    by (simp add: cbor_reads key_error_def no_mgmt_req_def word_le_nat_alt)
  from user_update_dead [OF this] show ?thesis by simp
qed

end
