(* ===== verification/U2f.thy ===== *)
theory U2f
  imports DeviceKey Credential Management
begin

text \<open>
  The U2F application, \<^verbatim>\<open>src/fido/cmd_register.c\<close>, \<^verbatim>\<open>cmd_authenticate.c\<close> and \<^verbatim>\<open>cmd_version.c\<close>.  \<open>timeout\<close> is the result of
  \<^verbatim>\<open>wait_button_pressed\<close>: true when the button was not pressed in time.  The buffer of a command is the memory from
  \<^verbatim>\<open>apdu.data\<close> on, which may go on behind the \<open>cnc\<close> bytes of the command.
\<close>

definition KEY_HANDLE_BYTE :: u8 where "KEY_HANDLE_BYTE = 64"
definition CTAP_APPID_SIZE :: nat where "CTAP_APPID_SIZE = 32"
definition CTAP_CHAL_SIZE :: nat where "CTAP_CHAL_SIZE = 32"
definition CTAP_REGISTER :: u8 where "CTAP_REGISTER = 0x01"
definition CTAP_AUTHENTICATE :: u8 where "CTAP_AUTHENTICATE = 0x02"
definition CTAP_VERSION :: u8 where "CTAP_VERSION = 0x03"
definition CTAP_REGISTER_ID :: u8 where "CTAP_REGISTER_ID = 0x05"
definition CTAP_REGISTER_HASH_ID :: u8 where "CTAP_REGISTER_HASH_ID = 0x00"
definition CTAP_AUTH_ENFORCE :: u8 where "CTAP_AUTH_ENFORCE = 0x03"
definition CTAP_AUTH_CHECK_ONLY :: u8 where "CTAP_AUTH_CHECK_ONLY = 0x07"
definition CTAP_AUTH_FLAG_TUP :: u8 where "CTAP_AUTH_FLAG_TUP = 0x01"
definition ERR_CHANNEL_BUSY :: int where "ERR_CHANNEL_BUSY = 0x06"

lemmas u2f_defs = KEY_HANDLE_BYTE_def CTAP_APPID_SIZE_def CTAP_CHAL_SIZE_def CTAP_REGISTER_def CTAP_AUTHENTICATE_def CTAP_VERSION_def
  CTAP_REGISTER_ID_def CTAP_REGISTER_HASH_ID_def CTAP_AUTH_ENFORCE_def CTAP_AUTH_CHECK_ONLY_def CTAP_AUTH_FLAG_TUP_def
  ERR_CHANNEL_BUSY_def

text \<open>The status word and the answer, or the code of an error frame that \<^verbatim>\<open>ctap_error\<close> sends instead.\<close>

type_synonym u2f_reply = "((int + u16 \<times> bytes) \<times> ctap) option"

definition sw :: "u16 \<Rightarrow> ctap \<Rightarrow> u2f_reply" where "sw w st = Some (Inr (w, []), st)"

text \<open>The encoded point of a public key, not compressed.\<close>

definition pub_point :: "ctap_env \<Rightarrow> ec_key \<Rightarrow> bytes" where
  "pub_point env k = 0x04 # fst (key_point env k) @ snd (key_point env k)"

definition bogus_firefox :: bytes where "bogus_firefox = replicate 32 0x00"
definition bogus_chrome :: bytes where "bogus_chrome = replicate 32 0x41"

text \<open>
  The attestation key is read from the file of the device key itself, also when the token is locked.
\<close>

definition cmd_register :: "ctap_env \<Rightarrow> bool \<Rightarrow> command \<Rightarrow> ctap \<Rightarrow> u2f_reply" where
  "cmd_register env timeout c st =
     (if cnc c \<noteq> CTAP_APPID_SIZE + CTAP_CHAL_SIZE then sw SW_WRONG_LENGTH st
      else if timeout then sw SW_CONDITIONS_NOT_SATISFIED st
      else do {
        chal \<leftarrow> rd_slice (cbuf c) 0 CTAP_CHAL_SIZE;
        appId \<leftarrow> rd_slice (cbuf c) CTAP_CHAL_SIZE CTAP_APPID_SIZE;
        if appId = bogus_firefox \<or> appId = bogus_chrome then Some (Inl ERR_CHANNEL_BUSY, st)
        else do {
          (r, handle, key, st) \<leftarrow> derive_key env appId True (replicate KEY_HANDLE_LEN 0) SECP256R1 True st;
          if r \<noteq> CCID_OK then sw SW_EXEC_ERROR st
          else do {
            key \<leftarrow> key;
            let pubKey = pub_point env key;
            cert \<leftarrow> pointed (cfs st) (search_ef (cfs st) EF_EE_DEV);
            let hash = sha256 (lib env) (CTAP_REGISTER_HASH_ID # appId @ chal @ handle @ pubKey);
            d \<leftarrow> pointed (cfs st) (search_ef (cfs st) EF_KEY_DEV);
            d \<leftarrow> rd_slice d 0 32;
            (case read_key env SECP256R1 d of
               None \<Rightarrow> sw SW_EXEC_ERROR st
             | Some s \<Rightarrow>
                 (case ecdsa_sign env (SECP256R1, s) hash (draws st) of
                    None \<Rightarrow> sw SW_EXEC_ERROR (st\<lparr>draws := draws st + 1\<rparr>)
                  | Some sig \<Rightarrow>
                      Some (Inr (SW_OK, CTAP_REGISTER_ID # pubKey @ [KEY_HANDLE_BYTE] @ handle @ cert @ sig), st\<lparr>draws := draws st + 1\<rparr>)))
          }
        }
      })"

text \<open>
  The key of a handle: a credential of CTAP2 or a path.  A key that could not be derived is the one of an empty context,
  or of the curve without a secret, and is compared all the same.
\<close>

definition handle_key :: "ctap_env \<Rightarrow> bytes \<Rightarrow> bytes \<Rightarrow> nat \<Rightarrow> ctap \<Rightarrow> (int \<times> ec_key option) option option" where
  "handle_key env appId handle n st = do {
     tmp_kh \<leftarrow> rd_slice handle 0 n;
     (r, _) \<leftarrow> credential_verify env tmp_kh appId st;
     if r = 0 then map_option Some (fido_load_key env 1 handle st)
     else do {
       (r, _, key, _) \<leftarrow> derive_key env appId False handle SECP256R1 True st;
       v \<leftarrow> verify_key env appId handle
         (Some (case key of Some k \<Rightarrow> k | None \<Rightarrow> if r = MBEDTLS_ERR_ECP_INVALID_KEY then (SECP256R1, 0) else (ECP_NONE, 0))) st;
       Some (if v \<noteq> 0 then None else Some (r, key))
     }
   }"

text \<open>The counter that follows is written whatever the code of the write is.\<close>

definition sign_auth :: "ctap_env \<Rightarrow> bytes \<Rightarrow> bytes \<Rightarrow> u8 \<Rightarrow> ec_key \<Rightarrow> ctap \<Rightarrow> u2f_reply" where
  "sign_auth env appId chal flags key st = do {
     ctr \<leftarrow> get_sign_counter (cfs st);
     let ctr_bytes = rev (le_bytes 4 (unat ctr));
     let hash = sha256 (lib env) (appId @ [flags] @ ctr_bytes @ chal);
     (case ecdsa_sign env key hash (draws st) of
        None \<Rightarrow> sw SW_EXEC_ERROR (st\<lparr>draws := draws st + 1\<rparr>)
      | Some sig \<Rightarrow> do {
          (_, fs) \<leftarrow> write_file (cfs st) (search_ef (cfs st) EF_COUNTER) (le_bytes 4 (unat (ctr + 1)));
          Some (Inr (SW_OK, flags # ctr_bytes @ sig), st\<lparr>draws := draws st + 1, cfs := fs\<rparr>)
        })
   }"

definition cmd_authenticate :: "ctap_env \<Rightarrow> bool \<Rightarrow> command \<Rightarrow> ctap \<Rightarrow> u2f_reply" where
  "cmd_authenticate env timeout c st =
     (if cnc c < CTAP_CHAL_SIZE + CTAP_APPID_SIZE + 1 + 1 then sw SW_WRONG_DATA st
      else do {
        n \<leftarrow> rd (cbuf c) 64;
        if unat n < KEY_HANDLE_LEN then sw SW_INCORRECT_PARAMS st
        else if P1 c = CTAP_AUTH_ENFORCE \<and> timeout then sw SW_CONDITIONS_NOT_SATISFIED st
        else do {
          chal \<leftarrow> rd_slice (cbuf c) 0 CTAP_CHAL_SIZE;
          appId \<leftarrow> rd_slice (cbuf c) CTAP_CHAL_SIZE CTAP_APPID_SIZE;
          k \<leftarrow> handle_key env appId (drop 65 (cbuf c)) (unat n) st;
          (case k of
             None \<Rightarrow> sw SW_INCORRECT_PARAMS st
           | Some (r, key) \<Rightarrow>
               if r \<noteq> CCID_OK then sw SW_EXEC_ERROR st
               else if P1 c = CTAP_AUTH_CHECK_ONLY then sw SW_CONDITIONS_NOT_SATISFIED st
               else do {
                 key \<leftarrow> key;
                 sign_auth env appId chal (if P1 c = CTAP_AUTH_ENFORCE then CTAP_AUTH_FLAG_TUP else 0) key st
               })
        }
      })"

text \<open>\<^verbatim>\<open>"U2F_V2"\<close>.\<close>

definition cmd_version :: "ctap \<Rightarrow> u2f_reply" where
  "cmd_version st = Some (Inr (SW_OK, [0x55, 0x32, 0x46, 0x5F, 0x56, 0x32]), st)"

definition u2f_select :: "ctap \<Rightarrow> int option" where
  "u2f_select st = do {
     s \<leftarrow> cap_supported (cfs st) CAP_U2F;
     Some (if s then CCID_OK else CCID_ERR_FILE_NOT_FOUND)
   }"

text \<open>The table of the commands.\<close>

definition u2f_cmd :: "ctap_env \<Rightarrow> bool \<Rightarrow> command \<Rightarrow> ctap \<Rightarrow> u2f_reply option" where
  "u2f_cmd env timeout c st =
     (if INS c = CTAP_REGISTER then Some (cmd_register env timeout c st)
      else if INS c = CTAP_AUTHENTICATE then Some (cmd_authenticate env timeout c st)
      else if INS c = CTAP_VERSION then Some (cmd_version st)
      else None)"

definition u2f_process_apdu :: "ctap_env \<Rightarrow> bool \<Rightarrow> command \<Rightarrow> ctap \<Rightarrow> u2f_reply" where
  "u2f_process_apdu env timeout c st =
     (if CLA c \<noteq> 0x00 then sw SW_CLA_NOT_SUPPORTED st
      else do {
        s \<leftarrow> cap_supported (cfs st) CAP_U2F;
        if \<not> s then sw SW_INS_NOT_SUPPORTED st
        else (case u2f_cmd env timeout c st of Some r \<Rightarrow> r | None \<Rightarrow> sw SW_INS_NOT_SUPPORTED st)
      })"

end
