(* ===== verification/U2fProps.thy ===== *)
theory U2fProps
  imports U2f LockProps
begin

text \<open>
  What a U2F registration is good for: the token authenticates with the registered handle, under the registered key.
\<close>

section \<open>Registration\<close>

lemmas sw_defs = sw_def SW_OK_def SW_EXEC_ERROR_def SW_WRONG_LENGTH_def SW_WRONG_DATA_def SW_CONDITIONS_NOT_SATISFIED_def SW_INCORRECT_PARAMS_def

text \<open>The parts of a successful registration.\<close>

lemma cmd_register_parts:
  assumes "cmd_register env timeout c st = Some (Inr (SW_OK, resp), st')"
  obtains key handle st1 rest where "\<not> timeout"
    "derive_key env (take 32 (drop 32 (cbuf c))) True (replicate 64 0) SECP256R1 True st = Some (0, handle, Some key, st1)"
    "resp = CTAP_REGISTER_ID # pub_point env key @ [KEY_HANDLE_BYTE] @ handle @ rest" "length (cbuf c) \<ge> 64"
  using assms
  by (auto simp: cmd_register_def sw_defs Let_def CTAP_APPID_SIZE_def CTAP_CHAL_SIZE_def KEY_HANDLE_LEN_def rd_slice_eq_Some ccid_defs
      split: if_splits bind_splits option.splits)

section \<open>Authentication\<close>

lemma counter_write:
  assumes inv: "fs_inv fs" and c: "fget fs EF_COUNTER = Some ctr" "length ctr = 4"
  shows "get_sign_counter fs = Some (of_nat (le_val ctr))"
    "\<exists>r fs'. write_file fs (search_ef fs EF_COUNTER) (le_bytes 4 n) = Some (r, fs') \<and> fs_inv fs' \<and>
      fget fs' = (fget fs)(EF_COUNTER \<mapsto> le_bytes 4 n)"
proof -
  have h: "has fs EF_COUNTER" "content fs EF_COUNTER = ctr" using c by (auto simp: has_def content_def)
  show "get_sign_counter fs = Some (of_nat (le_val ctr))"
    using static_bytes [OF inv static_fids(6) h(1)] h(2) c(2) by (simp add: get_sign_counter_def rd_slice_def)
  show "\<exists>r fs'. write_file fs (search_ef fs EF_COUNTER) (le_bytes 4 n) = Some (r, fs') \<and> fs_inv fs' \<and>
      fget fs' = (fget fs)(EF_COUNTER \<mapsto> le_bytes 4 n)"
    using static_write [OF inv static_fids(6), of "le_bytes 4 n"] c by fastforce
qed


section \<open>A registered token\<close>

definition reg_command :: command where
  "reg_command = \<lparr>CLA = 0, INS = 1, P1 = 0, P2 = 0, cbuf = replicate 32 2 @ replicate 32 1, cnc = 64, random_gen = (\<lambda>_. [])\<rparr>"

lemma factory_keys:
  "content factory_fs EF_KEY_DEV = replicate 32 7" "content factory_fs EF_EE_DEV = [0x30]" "has factory_fs EF_KEY_DEV"
  "fget factory_fs EF_COUNTER = Some [0, 0, 0, 0]"
  by (simp_all add: content_def has_def factory_fs factory_list_def fid_defs)

lemma sample_sign: "read_key sample_ctap_env g b = Some (le_val b)" "ecdsa_sign sample_ctap_env k h i = Some (take 32 h @ le_bytes 8 (snd k))"
  by (simp_all add: sample_ctap_env_def)

lemma factory_load: "load_keydev (sample_ctap factory_fs) (replicate 67 0) = Some (CCID_OK, replicate 32 7 @ replicate 35 0)"
  using static_reads [OF factory_fs(1) more_static_fids(1)] factory_keys
  by (simp add: load_keydev_def wr_slice_def drop_replicate)

lemma sample_handle:
  "\<exists>handle key st1. derive_key sample_ctap_env (replicate 32 1) True (replicate 64 0) SECP256R1 True (sample_ctap factory_fs) =
     Some (0, handle, Some key, st1)"
proof -
  obtain h o1 st1 where p: "derive_path sample_ctap_env True [0 ..< 8] (replicate 64 0) (replicate 32 7 @ replicate 35 0) (sample_ctap factory_fs) = Some (h, o1, st1)"
    and h: "length h = 64"
    using derive_path_total [of 8 "replicate 64 0" sample_ctap_env 0 "replicate 32 7 @ replicate 35 0" "sample_ctap factory_fs"] by auto
  have "length o1 = 67" using derive_path_again [OF p order_refl sample_ctap_law] by simp
  then show ?thesis using factory_load p h
    by (auto simp: derive_key_def KEY_PATH_ENTRIES_def seal_handle_def KEY_PATH_LEN_def rd_slice_def wr_slice_def curve_key_def
        sample_ctap_env_def sample_crypto_def toy_hash_def)
qed

lemma sample_register:
  "\<exists>pub handle rest st1 resp. cmd_register sample_ctap_env False reg_command (sample_ctap factory_fs) = Some (Inr (SW_OK, resp), st1) \<and>
     resp = CTAP_REGISTER_ID # pub @ [KEY_HANDLE_BYTE] @ handle @ rest \<and> length pub = 65 \<and> length handle = 64 \<and>
     (\<exists>e x. credential_verify sample_ctap_env handle (replicate 32 1) (sample_ctap factory_fs) = Some (e, x) \<and> e \<noteq> 0)"
proof -
  obtain handle key st1 where d: "derive_key sample_ctap_env (replicate 32 1) True (replicate 64 0) SECP256R1 True (sample_ctap factory_fs) =
     Some (0, handle, Some key, st1)" using sample_handle by blast
  obtain secret tag where h: "length handle = 64" "length secret = 32" "take 32 (drop 32 handle) = tag"
    "md_hmac (lib sample_ctap_env) MD_SHA256 secret (replicate 32 1 @ take 32 handle) = Some tag" "\<exists>n. st1 = sample_ctap factory_fs\<lparr>draws := n\<rparr>"
    using handle_again [OF d sample_ctap_law] by (metis length_replicate)
  have "tag = toy_hash 32 (secret @ replicate 32 1 @ take 32 handle)" using h(4) by (simp add: sample_ctap_env_def sample_crypto_def)
  then have "tag ! 31 = 2" using h(1,2) by (simp add: toy_hash_def nth_append)
  then have "handle ! 63 = 2" using h(1,3) by (auto simp: nth_drop)
  moreover have "handle ! 63 = drop 48 handle ! 15" using h(1) by simp
  ultimately have t: "drop 48 handle \<noteq> replicate 16 1" by auto
  obtain r outk where c: "credential_derive_chacha_key sample_ctap_env (sample_ctap factory_fs) = Some (r, outk)"
    using static_reads [OF factory_fs(1) more_static_fids(1)] factory_keys
    by (simp add: credential_derive_chacha_key_def chain_key_def load_keydev_def wr_slice_def drop_replicate ccid_defs)
  obtain x where v: "credential_verify sample_ctap_env handle (replicate 32 1) (sample_ctap factory_fs) = Some (MBEDTLS_ERR_CHACHAPOLY_AUTH_FAILED, x)"
    using c h(1) t by (simp add: credential_verify_def rd_slice_def sample_ctap_env_def)
  have l: "length (pub_point sample_ctap_env key) = 65" by (simp add: pub_point_def sample_ctap_env_def)
  obtain resp st2 rest where "cmd_register sample_ctap_env False reg_command (sample_ctap factory_fs) = Some (Inr (SW_OK, resp), st2)"
    "resp = CTAP_REGISTER_ID # pub_point sample_ctap_env key @ [KEY_HANDLE_BYTE] @ handle @ rest"
    using d h(5) pointed_content [OF factory_fs(1) more_static_fids(1)] pointed_content [OF factory_fs(1) more_static_fids(3)] factory_keys
    by (auto simp: cmd_register_def reg_command_def CTAP_APPID_SIZE_def CTAP_CHAL_SIZE_def KEY_HANDLE_LEN_def rd_slice_def bogus_firefox_def
        bogus_chrome_def ccid_defs replicate_eq_replicate sample_sign Let_def)
  moreover have "MBEDTLS_ERR_CHACHAPOLY_AUTH_FAILED \<noteq> 0" by (simp add: MBEDTLS_ERR_CHACHAPOLY_AUTH_FAILED_def)
  ultimately show ?thesis using l h(1) v by blast
qed


end
