(* ===== verification/KnownApps.thy ===== *)
theory KnownApps
  imports Prelude
begin

text \<open>
  The relying parties that are treated in a special way, \<^verbatim>\<open>src/fido/known_apps.c\<close>: the hash of their name, a label, and
  whether they get a signature counter and a self attestation; \<open>None\<close> is NULL.
\<close>

datatype known_app = known_app (ka_hash: bytes) (ka_label: string) (ka_use_sign_count: "bool option") (ka_use_self_attestation: "bool option")

text \<open>The table, without its end mark, in parts.\<close>

definition kapps1 :: "known_app list" where
  "kapps1 = [
    known_app
      [0x96, 0x89, 0x78, 0xa2, 0x99, 0x53, 0xde, 0x52, 0xd3, 0xef, 0x0f, 0x0c, 0x71, 0xb7, 0xb7, 0xb6, 0xb1, 0xaf, 0x9f, 0x08, 0xe2, 0x57, 0x89, 0x6a, 0x8d, 0x81, 0x26, 0x91, 0x85, 0x30, 0x29, 0x3b]
      ''aws.amazon.com'' None None,
    known_app
      [0xc3, 0x40, 0x8c, 0x04, 0x47, 0x88, 0xae, 0xa5, 0xb3, 0xdf, 0x30, 0x89, 0x52, 0xfd, 0x8c, 0xa3, 0xc7, 0x0e, 0x21, 0xfe, 0xf4, 0xf6, 0xc1, 0xc2, 0x37, 0x4c, 0xaa, 0x1d, 0xf9, 0xb2, 0x8d, 0xdd]
      ''www.binance.com'' (Some False) (Some True),
    known_app
      [0x20, 0xf6, 0x61, 0xb1, 0x94, 0x0c, 0x34, 0x70, 0xac, 0x54, 0xfa, 0x2e, 0xb4, 0x99, 0x90, 0xfd, 0x33, 0xb5, 0x6d, 0xe8, 0xde, 0x60, 0x18, 0x70, 0xff, 0x02, 0xa8, 0x06, 0x0f, 0x3b, 0x7c, 0x58]
      ''binance.com'' (Some False) (Some True),
    known_app
      [0x12, 0x74, 0x3b, 0x92, 0x12, 0x97, 0xb7, 0x7f, 0x11, 0x35, 0xe4, 0x1f, 0xde, 0xdd, 0x4a, 0x84, 0x6a, 0xfe, 0x82, 0xe1, 0xf3, 0x69, 0x32, 0xa9, 0x91, 0x2f, 0x3b, 0x0d, 0x8d, 0xfb, 0x7d, 0x0e]
      ''bitbucket.org'' None None,
    known_app
      [0x30, 0x2f, 0xd5, 0xb4, 0x49, 0x2a, 0x07, 0xb9, 0xfe, 0xbb, 0x30, 0xe7, 0x32, 0x69, 0xec, 0xa5, 0x01, 0x20, 0x5c, 0xcf, 0xe0, 0xc2, 0x0b, 0xf7, 0xb4, 0x72, 0xfa, 0x2d, 0x31, 0xe2, 0x1e, 0x63]
      ''www.bitfinex.com'' None None,
    known_app
      [0xa3, 0x4d, 0x30, 0x9f, 0xfa, 0x28, 0xc1, 0x24, 0x14, 0xb8, 0xba, 0x6c, 0x07, 0xee, 0x1e, 0xfa, 0xe1, 0xa8, 0x5e, 0x8a, 0x04, 0x61, 0x48, 0x59, 0xa6, 0x7c, 0x04, 0x93, 0xb6, 0x95, 0x61, 0x90]
      ''vault.bitwarden.com'' None None,
    known_app
      [0x19, 0x81, 0x5c, 0xb9, 0xa5, 0xfb, 0x25, 0xd8, 0x05, 0xde, 0xbd, 0x7b, 0x32, 0x53, 0x7e, 0xd5, 0x78, 0x63, 0x9b, 0x3e, 0xd1, 0x08, 0xec, 0x7c, 0x5b, 0xb9, 0xe8, 0xf0, 0xdf, 0xb1, 0x68, 0x73]
      ''dash.cloudflare.com'' None None,
    known_app
      [0xe2, 0x7d, 0x61, 0xb4, 0xe9, 0x9d, 0xe0, 0xed, 0x98, 0x16, 0x3c, 0xb3, 0x8b, 0x7a, 0xf9, 0x33, 0xc6, 0x66, 0x5e, 0x55, 0x09, 0xe8, 0x49, 0x08, 0x37, 0x05, 0x58, 0x13, 0x77, 0x8e, 0x23, 0x6a]
      ''coinbase.com'' None None,
    known_app
      [0x68, 0x20, 0x19, 0x15, 0xd7, 0x4c, 0xb4, 0x2a, 0xf5, 0xb3, 0xcc, 0x5c, 0x95, 0xb9, 0x55, 0x3e, 0x3e, 0x3a, 0x83, 0xb4, 0xd2, 0xa9, 0x3b, 0x45, 0xfb, 0xad, 0xaa, 0x84, 0x69, 0xff, 0x8e, 0x6e]
      ''www.dashlane.com'' None None,
    known_app
      [0xc5, 0x0f, 0x8a, 0x7b, 0x70, 0x8e, 0x92, 0xf8, 0x2e, 0x7a, 0x50, 0xe2, 0xbd, 0xc5, 0x5d, 0x8f, 0xd9, 0x1a, 0x22, 0xfe, 0x6b, 0x29, 0xc0, 0xcd, 0xf7, 0x80, 0x55, 0x30, 0x84, 0x2a, 0xf5, 0x81]
      ''www.dropbox.com'' (Some False) None,
    known_app
      [0x82, 0xf4, 0xa8, 0xc9, 0x5f, 0xec, 0x94, 0xb2, 0x6b, 0xaf, 0x9e, 0x37, 0x25, 0x0e, 0x95, 0x63, 0xd9, 0xa3, 0x66, 0xc7, 0xbe, 0x26, 0x1c, 0xa4, 0xdd, 0x01, 0x01, 0xf4, 0xd5, 0xef, 0xcb, 0x83]
      ''www.dropbox.com'' (Some False) None,
    known_app
      [0xf3, 0xe2, 0x04, 0x2f, 0x94, 0x60, 0x7d, 0xa0, 0xa9, 0xc1, 0xf3, 0xb9, 0x5e, 0x0d, 0x2f, 0x2b, 0xb2, 0xe0, 0x69, 0xc5, 0xbb, 0x4f, 0xa7, 0x64, 0xaf, 0xfa, 0x64, 0x7d, 0x84, 0x7b, 0x7e, 0xd6]
      ''duosecurity.com'' None None,
    known_app
      [0x31, 0x19, 0x33, 0x28, 0xf8, 0xe2, 0x1d, 0xfb, 0x6c, 0x99, 0xf3, 0x22, 0xd2, 0x2d, 0x7b, 0x0b, 0x50, 0x87, 0x78, 0xe6, 0x4f, 0xfb, 0xba, 0x86, 0xe5, 0x22, 0x93, 0x37, 0x90, 0x31, 0xb8, 0x74]
      ''facebook.com'' None None,
    known_app
      [0x69, 0x66, 0xab, 0xe3, 0x67, 0x4e, 0xa2, 0xf5, 0x30, 0x79, 0xeb, 0x71, 0x01, 0x97, 0x84, 0x8c, 0x9b, 0xe6, 0xf3, 0x63, 0x99, 0x2f, 0xd0, 0x29, 0xe9, 0x89, 0x84, 0x47, 0xcb, 0x9f, 0x00, 0x84]
      ''www.fastmail.com'' None None,
    known_app
      [0x3f, 0xcb, 0x82, 0x82, 0xb8, 0x46, 0x76, 0xeb, 0xee, 0x71, 0x40, 0xe3, 0x9e, 0xca, 0xe1, 0x6e, 0xeb, 0x19, 0x90, 0x64, 0xc7, 0xc7, 0xe4, 0x43, 0x2e, 0x28, 0xc9, 0xb5, 0x7e, 0x4b, 0x60, 0x39]
      ''fastmail.com'' None None,
    known_app
      [0x9d, 0x61, 0x44, 0x2f, 0x5c, 0xe1, 0x33, 0xbd, 0x46, 0x54, 0x4f, 0xc4, 0x2f, 0x0a, 0x6d, 0x54, 0xc0, 0xde, 0xb8, 0x88, 0x40, 0xca, 0xc2, 0xb6, 0xae, 0xfa, 0x65, 0x14, 0xf8, 0x93, 0x49, 0xe9]
      ''fedoraproject.org'' None None]"

definition kapps2 :: "known_app list" where
  "kapps2 = [
    known_app
      [0xa4, 0xe2, 0x2d, 0xca, 0xfe, 0xa7, 0xe9, 0x0e, 0x12, 0x89, 0x50, 0x11, 0x39, 0x89, 0xfc, 0x45, 0x97, 0x8d, 0xc9, 0xfb, 0x87, 0x76, 0x75, 0x60, 0x51, 0x6c, 0x1c, 0x69, 0xdf, 0xdf, 0xd1, 0x96]
      ''gandi.net'' (Some False) None,
    known_app
      [0x54, 0xce, 0x65, 0x1e, 0xd7, 0x15, 0xb4, 0xaa, 0xa7, 0x55, 0xee, 0xce, 0xbd, 0x4e, 0xa0, 0x95, 0x08, 0x15, 0xb3, 0x34, 0xbd, 0x07, 0xd1, 0x09, 0x89, 0x3e, 0x96, 0x30, 0x18, 0xcd, 0xdb, 0xd9]
      ''gandi.net'' (Some False) None,
    known_app
      [0x86, 0x06, 0xc1, 0x68, 0xe5, 0x1f, 0xc1, 0x31, 0xe5, 0x46, 0xad, 0x57, 0xa1, 0x9f, 0x32, 0x97, 0xb1, 0x1e, 0x0e, 0x5c, 0xe8, 0x3e, 0x8e, 0x89, 0x31, 0xb2, 0x85, 0x08, 0x11, 0xcf, 0xa8, 0x81]
      ''gemini.com'' (Some False) (Some True),
    known_app
      [0x70, 0x61, 0x7d, 0xfe, 0xd0, 0x65, 0x86, 0x3a, 0xf4, 0x7c, 0x15, 0x55, 0x6c, 0x91, 0x79, 0x88, 0x80, 0x82, 0x8c, 0xc4, 0x07, 0xfd, 0xf7, 0x0a, 0xe8, 0x50, 0x11, 0x56, 0x94, 0x65, 0xa0, 0x75]
      ''github.com'' (Some True) None,
    known_app
      [0x3a, 0xeb, 0x00, 0x24, 0x60, 0x38, 0x1c, 0x6f, 0x25, 0x8e, 0x83, 0x95, 0xd3, 0x02, 0x6f, 0x57, 0x1f, 0x0d, 0x9a, 0x76, 0x48, 0x8d, 0xcd, 0x83, 0x76, 0x39, 0xb1, 0x3a, 0xed, 0x31, 0x65, 0x60]
      ''github.com'' (Some True) None,
    known_app
      [0xe7, 0xbe, 0x96, 0xa5, 0x1b, 0xd0, 0x19, 0x2a, 0x72, 0x84, 0x0d, 0x2e, 0x59, 0x09, 0xf7, 0x2b, 0xa8, 0x2a, 0x2f, 0xe9, 0x3f, 0xaa, 0x62, 0x4f, 0x03, 0x39, 0x6b, 0x30, 0xe4, 0x94, 0xc8, 0x04]
      ''gitlab.com'' None None,
    known_app
      [0xa5, 0x46, 0x72, 0xb2, 0x22, 0xc4, 0xcf, 0x95, 0xe1, 0x51, 0xed, 0x8d, 0x4d, 0x3c, 0x76, 0x7a, 0x6c, 0xc3, 0x49, 0x43, 0x59, 0x43, 0x79, 0x4e, 0x88, 0x4f, 0x3d, 0x02, 0x3a, 0x82, 0x29, 0xfd]
      ''google.com'' None None,
    known_app
      [0xd4, 0xc9, 0xd9, 0x02, 0x73, 0x26, 0x27, 0x1a, 0x89, 0xce, 0x51, 0xfc, 0xaf, 0x32, 0x8e, 0xd6, 0x73, 0xf1, 0x7b, 0xe3, 0x34, 0x69, 0xff, 0x97, 0x9e, 0x8a, 0xb8, 0xdd, 0x50, 0x1e, 0x66, 0x4f]
      ''google.com'' None None,
    known_app
      [0x53, 0xa1, 0x5b, 0xa4, 0x2a, 0x7c, 0x03, 0x25, 0xb8, 0xdb, 0xee, 0x28, 0x96, 0x34, 0xa4, 0x8f, 0x58, 0xae, 0xa3, 0x24, 0x66, 0x45, 0xd5, 0xff, 0x41, 0x8f, 0x9b, 0xb8, 0x81, 0x98, 0x85, 0xa9]
      ''keepersecurity.com'' None None,
    known_app
      [0xd6, 0x5f, 0x00, 0x5e, 0xf4, 0xde, 0xa9, 0x32, 0x0c, 0x99, 0x73, 0x05, 0x3c, 0x95, 0xff, 0x60, 0x20, 0x11, 0x5d, 0x5f, 0xec, 0x1b, 0x7f, 0xee, 0x41, 0xa5, 0x78, 0xe1, 0x8d, 0xf9, 0xca, 0x8c]
      ''keepersecurity.eu'' None None,
    known_app
      [0x3f, 0x37, 0x50, 0x85, 0x33, 0x2c, 0xac, 0x4f, 0xad, 0xf9, 0xe5, 0xdd, 0x28, 0xcd, 0x54, 0x69, 0x8f, 0xab, 0x98, 0x4b, 0x75, 0xd9, 0xc3, 0x6a, 0x07, 0x2c, 0xb1, 0x60, 0x77, 0x3f, 0x91, 0x52]
      ''kraken.com'' None None,
    known_app
      [0xf8, 0x3f, 0xc3, 0xa1, 0xb2, 0x89, 0xa0, 0xde, 0xc5, 0xc1, 0xc8, 0xaa, 0x07, 0xe9, 0xb5, 0xdd, 0x9c, 0xbb, 0x76, 0xf6, 0xb2, 0xf5, 0x60, 0x60, 0x17, 0x66, 0x72, 0x68, 0xe5, 0xb9, 0xc4, 0x5e]
      ''secure.login.gov'' (Some False) None,
    known_app
      [0x35, 0x6c, 0x9e, 0xd4, 0xa0, 0x93, 0x21, 0xb9, 0x69, 0x5f, 0x1e, 0xaf, 0x91, 0x82, 0x03, 0xf1, 0xb5, 0x5f, 0x68, 0x9d, 0xa6, 0x1f, 0xbc, 0x96, 0x18, 0x4c, 0x15, 0x7d, 0xda, 0x68, 0x0c, 0x81]
      ''login.microsoft.com'' (Some False) (Some False),
    known_app
      [0xab, 0x2d, 0xaf, 0x07, 0x43, 0xde, 0x78, 0x2a, 0x70, 0x18, 0x9a, 0x0f, 0x5e, 0xfc, 0x30, 0x90, 0x2f, 0x92, 0x5b, 0x9f, 0x9a, 0x18, 0xc5, 0xd7, 0x14, 0x1b, 0x7b, 0x12, 0xf8, 0xa0, 0x10, 0x0c]
      ''mojeid.cz'' None None,
    known_app
      [0x85, 0x71, 0x01, 0x36, 0x1b, 0x20, 0xa9, 0x54, 0x4c, 0xdb, 0x9b, 0xef, 0x65, 0x85, 0x8b, 0x6b, 0xac, 0x70, 0x13, 0x55, 0x0d, 0x8f, 0x84, 0xf7, 0xef, 0xee, 0x25, 0x2b, 0x96, 0xfa, 0x7c, 0x1e]
      ''www.namecheap.com'' None None,
    known_app
      [0x08, 0xb2, 0xa3, 0xd4, 0x19, 0x39, 0xaa, 0x31, 0x66, 0x84, 0x93, 0xcb, 0x36, 0xcd, 0xcc, 0x4f, 0x16, 0xc4, 0xd9, 0xb4, 0xc8, 0x23, 0x8b, 0x73, 0xc2, 0xf6, 0x72, 0xc0, 0x33, 0x00, 0x71, 0x97]
      ''slushpool.com'' None None]"

definition kapps3 :: "known_app list" where
  "kapps3 = [
    known_app
      [0x38, 0x80, 0x4f, 0x2e, 0xff, 0x74, 0xf2, 0x28, 0xb7, 0x41, 0x51, 0xc2, 0x01, 0xaa, 0x82, 0xe7, 0xe8, 0xee, 0xfc, 0xac, 0xfe, 0xcf, 0x23, 0xfa, 0x14, 0x6b, 0x13, 0xa3, 0x76, 0x66, 0x31, 0x4f]
      ''slushpool.com'' None None,
    known_app
      [0x2a, 0xc6, 0xad, 0x09, 0xa6, 0xd0, 0x77, 0x2c, 0x44, 0xda, 0x73, 0xa6, 0x07, 0x2f, 0x9d, 0x24, 0x0f, 0xc6, 0x85, 0x4a, 0x70, 0xd7, 0x9c, 0x10, 0x24, 0xff, 0x7c, 0x75, 0x59, 0x59, 0x32, 0x92]
      ''stripe.com'' None None,
    known_app
      [0xfa, 0xbe, 0xec, 0xe3, 0x98, 0x2f, 0xad, 0x9d, 0xdc, 0xc9, 0x8f, 0x91, 0xbd, 0x2e, 0x75, 0xaf, 0xc7, 0xd1, 0xf4, 0xca, 0x54, 0x49, 0x29, 0xb2, 0xd0, 0xd0, 0x42, 0x12, 0xdf, 0xfa, 0x30, 0xfa]
      ''tutanota.com'' None None,
    known_app
      [0x1b, 0x3c, 0x16, 0xdd, 0x2f, 0x7c, 0x46, 0xe2, 0xb4, 0xc2, 0x89, 0xdc, 0x16, 0x74, 0x6b, 0xcc, 0x60, 0xdf, 0xcf, 0x0f, 0xb8, 0x18, 0xe1, 0x32, 0x15, 0x52, 0x6e, 0x14, 0x08, 0xe7, 0xf4, 0x68]
      ''u2f.bin.coffee'' None None,
    known_app
      [0xa6, 0x42, 0xd2, 0x1b, 0x7c, 0x6d, 0x55, 0xe1, 0xce, 0x23, 0xc5, 0x39, 0x98, 0x28, 0xd2, 0xc7, 0x49, 0xbf, 0x6a, 0x6e, 0xf2, 0xfe, 0x03, 0xcc, 0x9e, 0x10, 0xcd, 0xf4, 0xed, 0x53, 0x08, 0x8b]
      ''webauthn.bin.coffee'' None None,
    known_app
      [0x74, 0xa6, 0xea, 0x92, 0x13, 0xc9, 0x9c, 0x2f, 0x74, 0xb2, 0x24, 0x92, 0xb3, 0x20, 0xcf, 0x40, 0x26, 0x2a, 0x94, 0xc1, 0xa9, 0x50, 0xa0, 0x39, 0x7f, 0x29, 0x25, 0x0b, 0x60, 0x84, 0x1e, 0xf0]
      ''webauthn.io'' None None,
    known_app
      [0xf9, 0x5b, 0xc7, 0x38, 0x28, 0xee, 0x21, 0x0f, 0x9f, 0xd3, 0xbb, 0xe7, 0x2d, 0x97, 0x90, 0x80, 0x13, 0xb0, 0xa3, 0x75, 0x9e, 0x9a, 0xea, 0x3d, 0x0a, 0xe3, 0x18, 0x76, 0x6c, 0xd2, 0xe1, 0xad]
      ''webauthn.me'' None None,
    known_app
      [0xc4, 0x6c, 0xef, 0x82, 0xad, 0x1b, 0x54, 0x64, 0x77, 0x59, 0x1d, 0x00, 0x8b, 0x08, 0x75, 0x9e, 0xc3, 0xe6, 0xd2, 0xec, 0xb4, 0xf3, 0x94, 0x74, 0xbf, 0xea, 0x69, 0x69, 0x92, 0x5d, 0x03, 0xb7]
      ''demo.yubico.com'' None None]"

definition kapps :: "known_app list" where "kapps = kapps1 @ kapps2 @ kapps3"

definition find_app_by_rp_id_hash :: "bytes \<Rightarrow> known_app option" where
  "find_app_by_rp_id_hash rp = find (\<lambda>ka. take 32 rp = ka_hash ka) kapps"

lemma find_app_Some: "find_app_by_rp_id_hash rp = Some ka \<Longrightarrow> ka \<in> set kapps \<and> take 32 rp = ka_hash ka"
  by (auto simp: find_app_by_rp_id_hash_def find_Some_iff)

end
