(* ===== verification/MakeCred.thy ===== *)
theory MakeCred
  imports CredMgmt KnownApps ClientPin
begin

text \<open>
  \<^verbatim>\<open>authenticatorMakeCredential\<close>, \<^verbatim>\<open>src/fido/cbor_make_credential.c\<close>, and what it shares with the assertions.  \<open>now\<close> is the
  clock, \<open>timeout\<close> the result of \<^verbatim>\<open>wait_button_pressed\<close>, \<open>nitrokey\<close> the variable \<^verbatim>\<open>is_nitrokey\<close> of the HID layer; \<open>junk\<close> and \<open>old\<close>
  are what the stack holds where an array and a credential are not initialised.
\<close>

definition CTAP2_ERR_CREDENTIAL_EXCLUDED :: int where "CTAP2_ERR_CREDENTIAL_EXCLUDED = 0x19"
definition CTAP2_ERR_OPERATION_DENIED :: int where "CTAP2_ERR_OPERATION_DENIED = 0x27"
definition CTAP2_ERR_INVALID_OPTION :: int where "CTAP2_ERR_INVALID_OPTION = 0x2C"
definition MAX_CREDENTIAL_COUNT_IN_LIST :: nat where "MAX_CREDENTIAL_COUNT_IN_LIST = 16"
definition CRED_PROT_UV_OPTIONAL_WITH_LIST :: u64 where "CRED_PROT_UV_OPTIONAL_WITH_LIST = 0x02"
definition CRED_PROT_UV_REQUIRED :: u64 where "CRED_PROT_UV_REQUIRED = 0x03"
definition FIDO2_ALG_RS256 :: int where "FIDO2_ALG_RS256 = - 257"
definition FIDO2_ALG_RS512 :: int where "FIDO2_ALG_RS512 = - 259"
definition FIDO2_AUT_FLAG_UP :: u8 where "FIDO2_AUT_FLAG_UP = 0x01"
definition FIDO2_AUT_FLAG_UV :: u8 where "FIDO2_AUT_FLAG_UV = 0x04"
definition FIDO2_AUT_FLAG_AT :: u8 where "FIDO2_AUT_FLAG_AT = 0x40"
definition FIDO2_AUT_FLAG_ED :: u8 where "FIDO2_AUT_FLAG_ED = 0x80"

lemmas aut_flags = FIDO2_AUT_FLAG_UP_def FIDO2_AUT_FLAG_UV_def FIDO2_AUT_FLAG_AT_def FIDO2_AUT_FLAG_ED_def
lemmas make_codes = CTAP2_ERR_CREDENTIAL_EXCLUDED_def CTAP2_ERR_OPERATION_DENIED_def CTAP2_ERR_INVALID_OPTION_def

definition aaguid :: bytes where
  "aaguid = [0x89, 0xFB, 0x94, 0xB7, 0x06, 0xC9, 0x36, 0x73, 0x9B, 0x7E, 0x30, 0x52, 0x6D, 0x96, 0x81, 0x45]"

text \<open>\<^verbatim>\<open>"minPinLength"\<close>, \<^verbatim>\<open>"up"\<close>, \<^verbatim>\<open>"uv"\<close>, \<^verbatim>\<open>"packed"\<close>, \<^verbatim>\<open>"sig"\<close>, \<^verbatim>\<open>"x5c"\<close>.\<close>

definition text_minPinLength :: bytes where
  "text_minPinLength = [0x6d, 0x69, 0x6e, 0x50, 0x69, 0x6e, 0x4c, 0x65, 0x6e, 0x67, 0x74, 0x68]"
definition text_up :: bytes where "text_up = [0x75, 0x70]"
definition text_uv :: bytes where "text_uv = [0x75, 0x76]"
definition text_packed :: bytes where "text_packed = [0x70, 0x61, 0x63, 0x6b, 0x65, 0x64]"
definition text_sig :: bytes where "text_sig = [0x73, 0x69, 0x67]"
definition text_x5c :: bytes where "text_x5c = [0x78, 0x35, 0x63]"

section \<open>Parameters\<close>

record descriptor =
  d_type :: "bytes option"
  d_id :: "bytes option"
  d_transports :: "bytes list"

definition no_descriptor :: descriptor where "no_descriptor = \<lparr>d_type = None, d_id = None, d_transports = []\<rparr>"

text \<open>\<^verbatim>\<open>Inr None\<close> is a write outside of an array: the ninth transport, the seventeenth element of a list.\<close>

fun descriptor_loop :: "descriptor \<Rightarrow> cbor list \<Rightarrow> cerr + descriptor option" where
  "descriptor_loop d [] = Inr (Some d)"
| "descriptor_loop d xs =
     field_key xs (\<lambda>key r.
       if key = text_id then field_bytes r (\<lambda>b r. descriptor_loop (d\<lparr>d_id := Some b\<rparr>) r)
       else if key = text_type then field_text r (\<lambda>b r. descriptor_loop (d\<lparr>d_type := Some b\<rparr>) r)
       else if key = text_transports then
         parse_array_end r (transports_loop (d_transports d)) (\<lambda>ts r. descriptor_loop (d\<lparr>d_transports := ts\<rparr>) r)
       else descriptor_loop d r)"

fun descriptors_loop :: "descriptor list \<Rightarrow> cbor list \<Rightarrow> cerr + descriptor list option" where
  "descriptors_loop ds [] = Inr (Some ds)"
| "descriptors_loop ds xs =
     parse_map_end xs (\<lambda>m. if length ds \<ge> MAX_CREDENTIAL_COUNT_IN_LIST then Inr None else descriptor_loop no_descriptor m)
       (\<lambda>d r. descriptors_loop (ds @ [d]) r)"

record cred_param =
  p_type :: "bytes option"
  p_alg :: int

fun param_loop :: "cred_param \<Rightarrow> cbor list \<Rightarrow> cerr + cred_param option" where
  "param_loop p [] = Inr (Some p)"
| "param_loop p xs =
     field_key xs (\<lambda>key r.
       if key = text_type then field_text r (\<lambda>b r. param_loop (p\<lparr>p_type := Some b\<rparr>) r)
       else if key = text_alg then field_int r (\<lambda>n r. param_loop (p\<lparr>p_alg := n\<rparr>) r)
       else param_loop p r)"

fun params_loop :: "cred_param list \<Rightarrow> cbor list \<Rightarrow> cerr + cred_param list option" where
  "params_loop ps [] = Inr (Some ps)"
| "params_loop ps xs =
     parse_map_end xs (\<lambda>m. if length ps \<ge> MAX_CREDENTIAL_COUNT_IN_LIST then Inr None else param_loop \<lparr>p_type = None, p_alg = 0\<rparr> m)
       (\<lambda>p r. params_loop (ps @ [p]) r)"

record make_req =
  mk_hash :: "bytes option"
  mk_rp_id :: "bytes option"
  mk_rp_name :: "bytes option"
  mk_user_id :: "bytes option"
  mk_user_name :: "bytes option"
  mk_user_displayName :: "bytes option"
  mk_params :: "cred_param list"
  mk_exclude :: "descriptor list"
  mk_ext :: cred_extensions
  mk_opts :: cred_options
  mk_param :: "bytes option"
  mk_protocol :: u64
  mk_enterprise :: u64

definition no_make_req :: make_req where
  "no_make_req = \<lparr>mk_hash = None, mk_rp_id = None, mk_rp_name = None, mk_user_id = None, mk_user_name = None, mk_user_displayName = None,
     mk_params = [], mk_exclude = [], mk_ext = no_extensions, mk_opts = no_options, mk_param = None, mk_protocol = 0, mk_enterprise = 0\<rparr>"

fun rp_loop :: "make_req \<Rightarrow> cbor list \<Rightarrow> cerr + make_req option" where
  "rp_loop q [] = Inr (Some q)"
| "rp_loop q xs =
     field_key xs (\<lambda>key r.
       if key = text_id then field_text r (\<lambda>b r. rp_loop (q\<lparr>mk_rp_id := Some b\<rparr>) r)
       else if key = text_name then field_text r (\<lambda>b r. rp_loop (q\<lparr>mk_rp_name := Some b\<rparr>) r)
       else rp_loop q r)"

fun make_user_loop :: "make_req \<Rightarrow> cbor list \<Rightarrow> cerr + make_req option" where
  "make_user_loop q [] = Inr (Some q)"
| "make_user_loop q xs =
     field_key xs (\<lambda>key r.
       if key = text_id then field_bytes r (\<lambda>b r. make_user_loop (q\<lparr>mk_user_id := Some b\<rparr>) r)
       else if key = text_name then field_text r (\<lambda>b r. make_user_loop (q\<lparr>mk_user_name := Some b\<rparr>) r)
       else if key = text_displayName then field_text r (\<lambda>b r. make_user_loop (q\<lparr>mk_user_displayName := Some b\<rparr>) r)
       else cbor_advance r (make_user_loop q))"

fun make_ext_loop :: "cred_extensions \<Rightarrow> cbor list \<Rightarrow> cerr + cred_extensions option" where
  "make_ext_loop x [] = Inr (Some x)"
| "make_ext_loop x xs =
     field_key xs (\<lambda>key r.
       if key = hmac_label then field_bool r (\<lambda>b r. make_ext_loop (x\<lparr>hmac_secret := Some b\<rparr>) r)
       else if key = text_credProtect then field_uint r (\<lambda>n r. make_ext_loop (x\<lparr>credProtect := n\<rparr>) r)
       else if key = text_minPinLength then field_bool r (\<lambda>b r. make_ext_loop (x\<lparr>minPinLength := Some b\<rparr>) r)
       else if key = text_credBlob then field_bytes r (\<lambda>b r. make_ext_loop (x\<lparr>credBlob := Some b\<rparr>) r)
       else if key = large_blob_label then field_bool r (\<lambda>b r. make_ext_loop (x\<lparr>largeBlobKey := Some b\<rparr>) r)
       else if key = text_thirdPartyPayment then field_bool r (\<lambda>b r. make_ext_loop (x\<lparr>thirdPartyPayment := Some b\<rparr>) r)
       else cbor_advance r (make_ext_loop x))"

fun options_loop :: "cred_options \<Rightarrow> cbor list \<Rightarrow> cerr + cred_options option" where
  "options_loop o1 [] = Inr (Some o1)"
| "options_loop o1 xs =
     field_key xs (\<lambda>key r.
       if key = text_rk then field_bool r (\<lambda>b r. options_loop (o1\<lparr>rk := Some b\<rparr>) r)
       else if key = text_up then field_bool r (\<lambda>b r. options_loop (o1\<lparr>up := Some b\<rparr>) r)
       else if key = text_uv then field_bool r (\<lambda>b r. options_loop (o1\<lparr>uv := Some b\<rparr>) r)
       else cbor_advance r (options_loop o1))"

fun make_loop :: "u64 \<Rightarrow> make_req \<Rightarrow> cbor list \<Rightarrow> cerr + make_req option" where
  "make_loop val_c q [] = Inr (Some q)"
| "make_loop val_c q xs =
     field_uint xs (\<lambda>val_u r.
       case key_error 4 val_c val_u of
         Some e \<Rightarrow> Inl e
       | None \<Rightarrow>
           (if val_u = 0x01 then field_bytes r (\<lambda>b r. make_loop (val_u + 1) (q\<lparr>mk_hash := Some b\<rparr>) r)
            else if val_u = 0x02 then parse_map_end r (rp_loop q) (\<lambda>q r. make_loop (val_u + 1) q r)
            else if val_u = 0x03 then parse_map_end r (make_user_loop q) (\<lambda>q r. make_loop (val_u + 1) q r)
            else if val_u = 0x04 then parse_array_end r (params_loop []) (\<lambda>ps r. make_loop (val_u + 1) (q\<lparr>mk_params := ps\<rparr>) r)
            else if val_u = 0x05 then parse_array_end r (descriptors_loop []) (\<lambda>ds r. make_loop (val_u + 1) (q\<lparr>mk_exclude := ds\<rparr>) r)
            else if val_u = 0x06 then
              parse_map_end r (make_ext_loop ((mk_ext q)\<lparr>ext_present := True\<rparr>)) (\<lambda>x r. make_loop (val_u + 1) (q\<lparr>mk_ext := x\<rparr>) r)
            else if val_u = 0x07 then
              parse_map_end r (options_loop ((mk_opts q)\<lparr>opts_present := True\<rparr>)) (\<lambda>x r. make_loop (val_u + 1) (q\<lparr>mk_opts := x\<rparr>) r)
            else if val_u = 0x08 then field_bytes r (\<lambda>b r. make_loop (val_u + 1) (q\<lparr>mk_param := Some b\<rparr>) r)
            else if val_u = 0x09 then field_uint r (\<lambda>n r. make_loop (val_u + 1) (q\<lparr>mk_protocol := n\<rparr>) r)
            else if val_u = 0x0A then field_uint r (\<lambda>n r. make_loop (val_u + 1) (q\<lparr>mk_enterprise := n\<rparr>) r)
            else make_loop (val_u + 1) q r))"

section \<open>Tests\<close>

definition check_user_presence :: "u32 \<Rightarrow> bool \<Rightarrow> ctap \<Rightarrow> bool" where
  "check_user_presence now timeout st =
     (if user_present_time_limit st = 0 \<or> user_present_time_limit st + TRANSPORT_TIME_LIMIT < now then \<not> timeout else True)"

text \<open>The code that the parameters of the token end with, if they do; an empty parameter asks for a touch.\<close>

definition param_error :: "u32 \<Rightarrow> bool \<Rightarrow> bytes option \<Rightarrow> u64 \<Rightarrow> ctap \<Rightarrow> int option option" where
  "param_error now timeout param protocol st =
     (case param of
        None \<Rightarrow> Some None
      | Some p \<Rightarrow>
          if p = [] then
            if \<not> check_user_presence now timeout st then Some (Some CTAP2_ERR_OPERATION_DENIED)
            else do {
              h \<leftarrow> file_has_data (cfs st) (ef_pin (cfs st));
              Some (Some (if \<not> h then CTAP2_ERR_PIN_NOT_SET else CTAP2_ERR_PIN_AUTH_INVALID))
            }
          else if protocol = 0 then Some (Some CTAP2_ERR_MISSING_PARAMETER)
          else if protocol \<noteq> 1 \<and> protocol \<noteq> 2 then Some (Some CTAP1_ERR_INVALID_PARAMETER)
          else Some None)"

definition alg_curve :: "int \<Rightarrow> int option" where
  "alg_curve a =
     (if a = FIDO2_ALG_ES256 then Some 1
      else if a = FIDO2_ALG_ES384 then Some 2
      else if a = FIDO2_ALG_ES512 then Some 3
      else if a = FIDO2_ALG_ES256K then Some 8
      else None)"

text \<open>The first algorithm that has a curve; all of them are looked at.\<close>

fun pick_alg :: "cred_param list \<Rightarrow> int \<Rightarrow> int \<Rightarrow> int + int \<times> int" where
  "pick_alg [] curve algo = Inr (curve, algo)"
| "pick_alg (p # ps) curve algo =
     (case p_type p of
        None \<Rightarrow> Inl CTAP2_ERR_INVALID_CBOR
      | Some t \<Rightarrow>
          if p_alg p = 0 then Inl CTAP2_ERR_INVALID_CBOR
          else if c_string t \<noteq> text_public_key then Inl CTAP2_ERR_CBOR_UNEXPECTED_TYPE
          else if alg_curve (p_alg p) = None \<and> \<not> (p_alg p \<le> FIDO2_ALG_RS256 \<and> p_alg p \<ge> FIDO2_ALG_RS512)
          then Inl CTAP2_ERR_CBOR_UNEXPECTED_TYPE
          else
            let curve = (case alg_curve (p_alg p) of Some c \<Rightarrow> if curve \<le> 0 then c else curve | None \<Rightarrow> curve)
            in pick_alg ps curve (if curve > 0 \<and> algo = 0 then p_alg p else algo))"

text \<open>The curve and the algorithm, or the code of the first test that fails.\<close>

definition make_tests :: "make_req \<Rightarrow> ctap \<Rightarrow> (int + int \<times> int) option" where
  "make_tests q st =
     (if mk_params q = [] then Some (Inl CTAP2_ERR_MISSING_PARAMETER)
      else case pick_alg (mk_params q) (- 1) 0 of
        Inl e \<Rightarrow> Some (Inl e)
      | Inr (curve, algo) \<Rightarrow>
          if curve \<le> 0 then Some (Inl CTAP2_ERR_UNSUPPORTED_ALGORITHM)
          else if opts_present (mk_opts q) \<and> (uv (mk_opts q) = Some True \<or> up (mk_opts q) \<noteq> None) then Some (Inl CTAP2_ERR_INVALID_OPTION)
          else do {
            h \<leftarrow> file_has_data (cfs st) (ef_pin (cfs st));
            if mk_param q = None \<and> uv (mk_opts q) \<noteq> Some True \<and> h then Some (Inl CTAP2_ERR_PUAT_REQUIRED)
            else if mk_enterprise q > 0 then do {
              o1 \<leftarrow> get_opts (cfs st);
              if o1 AND FIDO2_OPT_EA = 0 then Some (Inl CTAP1_ERR_INVALID_PARAMETER)
              else if mk_enterprise q \<noteq> 1 \<and> mk_enterprise q \<noteq> 2 then Some (Inl CTAP2_ERR_INVALID_OPTION)
              else Some (Inr (curve, algo))
            } else Some (Inr (curve, algo))
          })"

text \<open>The token must be allowed to make credentials, and is bound to the relying party by its first use.\<close>

definition make_auth :: "ctap_env \<Rightarrow> make_req \<Rightarrow> bytes \<Rightarrow> ctap \<Rightarrow> (int option \<times> ctap) option" where
  "make_auth env q rp st =
     (case mk_param q of
        None \<Rightarrow> Some (None, st)
      | Some p \<Rightarrow> do {
          v \<leftarrow> verify env (ucast (mk_protocol q)) (token (paut st)) (case_option [] id (mk_hash q)) p;
          if \<not> v then Some (Some CTAP2_ERR_PIN_AUTH_INVALID, st)
          else if permissions (paut st) AND CTAP_PERMISSION_MC = 0 then Some (Some CTAP2_ERR_PIN_AUTH_INVALID, st)
          else if has_rp_id (paut st) \<and> rp_id_hash (paut st) \<noteq> rp then Some (Some CTAP2_ERR_PIN_AUTH_INVALID, st)
          else
            let (b, pa) = getUserVerifiedFlagValue (paut st)
            in if \<not> b then Some (Some CTAP2_ERR_PIN_AUTH_INVALID, st\<lparr>paut := pa\<rparr>)
               else Some (None, st\<lparr>paut := (if has_rp_id pa then pa else pa\<lparr>rp_id_hash := rp, has_rp_id := True\<rparr>)\<rparr>)
        })"

text \<open>The code with which the list of excluded credentials ends the command, if it does.\<close>

fun exclude_error :: "ctap_env \<Rightarrow> bytes \<Rightarrow> bool \<Rightarrow> credential \<Rightarrow> ctap \<Rightarrow> descriptor list \<Rightarrow> int option option" where
  "exclude_error env rp verified old st [] = Some None"
| "exclude_error env rp verified old st (d # ds) =
     (case (d_type d, d_id d) of
        (Some t, Some i) \<Rightarrow>
          if c_string t \<noteq> text_public_key then exclude_error env rp verified old st ds
          else do {
            l \<leftarrow> credential_load env i rp old st;
            case l of
              Inr c \<Rightarrow>
                if credProtect (extensions c) \<noteq> CRED_PROT_UV_REQUIRED \<or> verified then Some (Some CTAP2_ERR_CREDENTIAL_EXCLUDED)
                else exclude_error env rp verified old st ds
            | Inl e \<Rightarrow> exclude_error env rp verified old st ds
          }
      | _ \<Rightarrow> Some (Some CTAP2_ERR_MISSING_PARAMETER))"

text \<open>
  The use of the presence: without a token nobody is asked to touch the button.
\<close>

definition use_token :: "paut \<Rightarrow> paut" where
  "use_token p = clearPinUvAuthTokenPermissionsExceptLbw (clearUserVerifiedFlag (clearUserPresentFlag p))"

definition make_presence :: "u32 \<Rightarrow> bool \<Rightarrow> make_req \<Rightarrow> ctap \<Rightarrow> int option \<times> u8 \<times> ctap" where
  "make_presence now timeout q st =
     (if up (mk_opts q) = Some True \<or> up (mk_opts q) = None then
        let (b, pa) = (if mk_param q \<noteq> None then getUserPresentFlagValue (paut st) else (True, paut st));
            st = st\<lparr>paut := pa\<rparr>
        in if \<not> b \<and> \<not> check_user_presence now timeout st then (Some CTAP2_ERR_OPERATION_DENIED, 0, st)
           else (None, FIDO2_AUT_FLAG_UP, st\<lparr>paut := use_token pa\<rparr>)
      else (None, 0, st))"

section \<open>The answer\<close>

text \<open>The list of relying parties that may know the least length of a PIN, behind the first two bytes of the file.\<close>

fun knows_pin_length :: "bytes \<Rightarrow> bytes \<Rightarrow> nat list \<Rightarrow> bool option" where
  "knows_pin_length d rp [] = Some False"
| "knows_pin_length d rp (k # ks) = do {
     p \<leftarrow> rd_slice d k 32;
     if p = rp then Some True else knows_pin_length d rp ks
   }"

definition min_pin_ext :: "fs \<Rightarrow> bytes \<Rightarrow> u8 option" where
  "min_pin_ext fs rp = do {
     let ef = search_ef fs EF_MINPINLEN;
     h \<leftarrow> file_has_data fs ef;
     if \<not> h then Some 0
     else do {
       d \<leftarrow> file_bytes fs ef;
       k \<leftarrow> knows_pin_length d rp (map (\<lambda>i. 2 + 32 * i) [0 ..< (length d - 2 + 31) div 32]);
       if k then rd d 0 else Some 0
     }
   }"

text \<open>The extensions in the authenticator data.\<close>

definition make_ext :: "ctap_env \<Rightarrow> fs \<Rightarrow> bytes \<Rightarrow> cred_extensions \<Rightarrow> bytes option" where
  "make_ext env fs rp x =
     (if \<not> ext_present x then Some []
      else do {
        m \<leftarrow> (if minPinLength x \<noteq> None then min_pin_ext fs rp else Some 0);
        Some (encode env (CMap (
          (case credBlob x of Some b \<Rightarrow> [CText text_credBlob, CBool (length b < MAX_CREDBLOB_LENGTH)] | None \<Rightarrow> []) @
          (if credProtect x \<noteq> 0 then [CText text_credProtect, CUint (credProtect x)] else []) @
          (case hmac_secret x of Some b \<Rightarrow> [CText hmac_label, CBool b] | None \<Rightarrow> []) @
          (if m > 0 then [CText text_minPinLength, CUint (ucast m)] else []))))
      })"

text \<open>The hash that is signed for a curve.\<close>

definition curve_hash :: "ctap_env \<Rightarrow> ecp_group \<Rightarrow> bytes \<Rightarrow> bytes" where
  "curve_hash env g x = (if g = SECP384R1 then sha384 env x else if g = SECP521R1 then sha512 env x else sha256 (lib env) x)"

text \<open>A signature that fails is empty: its code is not looked at.\<close>

definition sign_or_empty :: "ctap_env \<Rightarrow> ec_key option \<Rightarrow> bytes \<Rightarrow> ctap \<Rightarrow> bytes \<times> ctap" where
  "sign_or_empty env k h st =
     (case Option.bind k (\<lambda>k. ecdsa_sign env k h (draws st)) of Some s \<Rightarrow> s | None \<Rightarrow> [], st\<lparr>draws := draws st + 1\<rparr>)"

text \<open>
  With an attestation of the token the key is the one of its file, and it signs the first 32 bytes of the hash that was made for
  the curve of the credential.
\<close>

definition make_signature :: "ctap_env \<Rightarrow> bool \<Rightarrow> ec_key \<Rightarrow> bytes \<Rightarrow> ctap \<Rightarrow> (bytes \<times> ctap) option" where
  "make_signature env self k h st =
     (if self then Some (sign_or_empty env (Some k) h st)
      else do {
        d \<leftarrow> pointed (cfs st) (search_ef (cfs st) EF_KEY_DEV);
        d \<leftarrow> rd_slice d 0 32;
        Some (sign_or_empty env (map_option (\<lambda>s. (SECP256R1, s)) (read_key env SECP256R1 d)) (take 32 h) st)
      })"

definition be_counter :: "u32 \<Rightarrow> bytes" where "be_counter ctr = rev (le_bytes 4 (unat ctr))"

definition make_aut_data :: "ctap_env \<Rightarrow> bytes \<Rightarrow> u8 \<Rightarrow> u32 \<Rightarrow> bytes \<Rightarrow> ec_key \<Rightarrow> bytes \<Rightarrow> bytes" where
  "make_aut_data env rp flags ctr cred_id key ext =
     rp @ [flags] @ be_counter ctr @ aaguid @ rev (le_bytes 2 (length cred_id)) @ cred_id @ encode env (COSE_key env key) @ ext"

definition attestation_cert :: "fs \<Rightarrow> u64 \<Rightarrow> bytes option" where
  "attestation_cert fs ea = do {
     h \<leftarrow> (if ea = 2 then file_has_data fs (search_ef fs EF_EE_DEV_EA) else Some False);
     pointed fs (search_ef fs (if h then EF_EE_DEV_EA else EF_EE_DEV))
   }"

definition next_counter :: "u32 \<Rightarrow> ctap \<Rightarrow> ctap option" where
  "next_counter ctr st = do {
     (_, fs) \<leftarrow> write_file (cfs st) (search_ef (cfs st) EF_COUNTER) (le_bytes 4 (unat (ctr + 1)));
     Some (st\<lparr>cfs := fs\<rparr>)
   }"

text \<open>From the identifier on.\<close>

definition make_answer :: "ctap_env \<Rightarrow> bool \<Rightarrow> make_req \<Rightarrow> known_app option \<Rightarrow> bytes \<Rightarrow> u8 \<Rightarrow> int \<Rightarrow> int \<Rightarrow> bytes \<Rightarrow> ctap \<Rightarrow> ctap_reply" where
  "make_answer env nitrokey q ka rp flags curve algo cred_id st = do {
     let (b, pa) = getUserVerifiedFlagValue (paut st);
     let st = st\<lparr>paut := pa\<rparr>;
     let flags = (if b then flags OR FIDO2_AUT_FLAG_UV else flags);
     ext \<leftarrow> make_ext env (cfs st) rp (mk_ext q);
     let flags = (if ext_present (mk_ext q) then flags OR FIDO2_AUT_FLAG_ED else flags);
     (r, key) \<leftarrow> fido_load_key env curve cred_id st;
     if r \<noteq> 0 then fail CTAP1_ERR_OTHER st
     else do {
       key \<leftarrow> key;
       ctr \<leftarrow> get_sign_counter (cfs st);
       let aut_data = make_aut_data env rp flags ctr cred_id key ext;
       let h = curve_hash env (fst key) (aut_data @ case_option [] id (mk_hash q));
       let self = (\<not> (mk_enterprise q = 2 \<or> (\<exists>a. ka = Some a \<and> ka_use_self_attestation a = Some False)));
       (sig, st) \<leftarrow> make_signature env self key h st;
       let lb = (largeBlobKey (mk_ext q) = Some True \<and> rk (mk_opts q) = Some True);
       (r, lbk) \<leftarrow> (if lb then credential_derive_large_blob_key env cred_id st else Some (0, []));
       if r \<noteq> 0 then fail CTAP2_ERR_PROCESSING st
       else do {
         x5c \<leftarrow> (if \<not> self \<or> nitrokey
                  then do { c \<leftarrow> attestation_cert (cfs st) (mk_enterprise q); Some [CText text_x5c, CArray [CBytes c]] } else Some []);
         let att = CMap ([CText text_alg, negative_int (if self \<or> nitrokey then - algo else - FIDO2_ALG_ES256), CText text_sig, CBytes sig] @ x5c);
         let resp = CMap ([CUint 1, CText text_packed, CUint 2, CBytes aut_data, CUint 3, att, CUint 4, CBool (mk_enterprise q = 2)] @
           (if lb then [CUint 5, CBytes lbk] else []));
         (r, st) \<leftarrow> (if rk (mk_opts q) = Some True then credential_store env cred_id rp st else Some (0, st));
         if r \<noteq> 0 then fail CTAP2_ERR_KEY_STORE_FULL st
         else do { st \<leftarrow> next_counter ctr st; answer resp st }
       }
     }
   }"

section \<open>The command\<close>

text \<open>The arguments of \<^verbatim>\<open>credential_create\<close>.\<close>

definition new_credential :: "make_req \<Rightarrow> known_app option \<Rightarrow> int \<Rightarrow> int \<Rightarrow> credential" where
  "new_credential q ka curve algo = no_credential\<lparr>cr_rpId := mk_rp_id q, userId := mk_user_id q, userName := mk_user_name q,
     userDisplayName := mk_user_displayName q, opts := mk_opts q, extensions := mk_ext q,
     use_sign_count := Some (case ka of None \<Rightarrow> True | Some a \<Rightarrow> ka_use_sign_count a = Some True), cr_alg := algo, cr_curve := curve\<rparr>"

definition make_credential :: "ctap_env \<Rightarrow> (nat \<Rightarrow> u8) \<Rightarrow> credential \<Rightarrow> bool \<Rightarrow> u32 \<Rightarrow> bool \<Rightarrow> make_req \<Rightarrow> ctap \<Rightarrow> ctap_reply" where
  "make_credential env junk old nitrokey now timeout q st = do {
     let rp = sha256 (lib env) (case_option [] id (mk_rp_id q));
     e \<leftarrow> param_error now timeout (mk_param q) (mk_protocol q) st;
     case e of Some e \<Rightarrow> fail e st | None \<Rightarrow> do {
     t \<leftarrow> make_tests q st;
     case t of Inl e \<Rightarrow> fail e st | Inr (curve, algo) \<Rightarrow> do {
     (e, st) \<leftarrow> make_auth env q rp st;
     case e of Some e \<Rightarrow> fail e st | None \<Rightarrow> do {
     let flags = FIDO2_AUT_FLAG_AT OR (if mk_param q \<noteq> None then FIDO2_AUT_FLAG_UV else 0);
     e \<leftarrow> exclude_error env rp (mk_param q \<noteq> None) old st (mk_exclude q);
     case e of Some e \<Rightarrow> fail e st | None \<Rightarrow>
     if largeBlobKey (mk_ext q) = Some False \<or> largeBlobKey (mk_ext q) = Some True \<and> rk (mk_opts q) \<noteq> Some True
     then fail CTAP2_ERR_INVALID_OPTION st
     else case make_presence now timeout q st of (e, f, st) \<Rightarrow>
     (case e of Some e \<Rightarrow> fail e st | None \<Rightarrow> do {
     let ka = find_app_by_rp_id_hash rp;
     (r, cred_id, st) \<leftarrow> credential_create env now (new_credential q ka curve algo) (map junk [0 ..< MAX_CRED_ID_LENGTH]) st;
     if r \<noteq> 0 then fail r st
     else make_answer env nitrokey q ka rp (flags OR f) curve algo cred_id st })}}}}"

definition cbor_make_credential :: "ctap_env \<Rightarrow> (nat \<Rightarrow> u8) \<Rightarrow> credential \<Rightarrow> bool \<Rightarrow> u32 \<Rightarrow> bool \<Rightarrow> cbor \<Rightarrow> ctap \<Rightarrow> ctap_reply" where
  "cbor_make_credential env junk old nitrokey now timeout request st =
     (case cbor_next [request] (\<lambda>items. parse_map_end items (make_loop 1 no_make_req) (\<lambda>q _. Inr (Some q))) of
        Inl e \<Rightarrow> fail (cerr_code e) st
      | Inr None \<Rightarrow> None
      | Inr (Some q) \<Rightarrow> make_credential env junk old nitrokey now timeout q st)"

end
