(* ===== verification/Assertion.thy ===== *)
theory Assertion
  imports MakeCred
begin

text \<open>
  \<^verbatim>\<open>authenticatorGetAssertion\<close> and \<^verbatim>\<open>authenticatorGetNextAssertion\<close>, \<^verbatim>\<open>src/fido/cbor_get_assertion.c\<close>.  What a
  further assertion goes on with is kept in \<open>pending\<close>: the credentials, the request and their flags.
\<close>

definition CTAP2_ERR_EXTENSION_FIRST :: int where "CTAP2_ERR_EXTENSION_FIRST = 0xE0"
definition IV_SIZE :: nat where "IV_SIZE = 16"

section \<open>Parameters\<close>

record assert_req =
  ga_rpId :: "bytes option"
  ga_hash :: "bytes option"
  ga_allow :: "descriptor list"
  ga_ext :: cred_extensions
  ga_credBlob :: "bool option"
  ga_cose :: cose
  ga_salt_enc :: "bytes option"
  ga_salt_auth :: "bytes option"
  ga_hmac_protocol :: u64
  ga_opts :: cred_options
  ga_param :: "bytes option"
  ga_protocol :: u64

definition no_assert_req :: assert_req where
  "no_assert_req = \<lparr>ga_rpId = None, ga_hash = None, ga_allow = [], ga_ext = no_extensions, ga_credBlob = None,
     ga_cose = no_cose\<lparr>kty := 2\<rparr>, ga_salt_enc = None, ga_salt_auth = None, ga_hmac_protocol = 1, ga_opts = no_options,
     ga_param = None, ga_protocol = 0\<rparr>"

fun hmac_loop :: "assert_req \<Rightarrow> cbor list \<Rightarrow> cerr + assert_req" where
  "hmac_loop q [] = Inr q"
| "hmac_loop q xs =
     field_uint xs (\<lambda>ukey r.
       if ukey = 0x01 then COSE_read_key (ga_cose q) r (\<lambda>c r. hmac_loop (q\<lparr>ga_cose := c\<rparr>) r)
       else if ukey = 0x02 then field_bytes r (\<lambda>b r. hmac_loop (q\<lparr>ga_salt_enc := Some b\<rparr>) r)
       else if ukey = 0x03 then field_bytes r (\<lambda>b r. hmac_loop (q\<lparr>ga_salt_auth := Some b\<rparr>) r)
       else if ukey = 0x04 then field_uint r (\<lambda>n r. hmac_loop (q\<lparr>ga_hmac_protocol := n\<rparr>) r)
       else cbor_advance r (hmac_loop q))"

fun assert_ext_loop :: "assert_req \<Rightarrow> cbor list \<Rightarrow> cerr + assert_req" where
  "assert_ext_loop q [] = Inr q"
| "assert_ext_loop q xs =
     field_key xs (\<lambda>key r.
       if key = hmac_label then
         parse_map r (hmac_loop (q\<lparr>ga_ext := (ga_ext q)\<lparr>hmac_secret := Some True\<rparr>\<rparr>)) (\<lambda>q r. assert_ext_loop q r)
       else if key = text_credBlob then field_bool r (\<lambda>b r. assert_ext_loop (q\<lparr>ga_credBlob := Some b\<rparr>) r)
       else if key = large_blob_label then
         field_bool r (\<lambda>b r. assert_ext_loop (q\<lparr>ga_ext := (ga_ext q)\<lparr>largeBlobKey := Some b\<rparr>\<rparr>) r)
       else if key = text_thirdPartyPayment then
         field_bool r (\<lambda>b r. assert_ext_loop (q\<lparr>ga_ext := (ga_ext q)\<lparr>thirdPartyPayment := Some b\<rparr>\<rparr>) r)
       else cbor_advance r (assert_ext_loop q))"

text \<open>A loop that always ends, among those that may not.\<close>

definition ends :: "cerr + 'a \<Rightarrow> cerr + 'a option" where
  "ends x = (case x of Inl e \<Rightarrow> Inl e | Inr y \<Rightarrow> Inr (Some y))"

fun assert_loop :: "u64 \<Rightarrow> assert_req \<Rightarrow> cbor list \<Rightarrow> cerr + assert_req option" where
  "assert_loop val_c q [] = Inr (Some q)"
| "assert_loop val_c q xs =
     field_uint xs (\<lambda>val_u r.
       case key_error 2 val_c val_u of
         Some e \<Rightarrow> Inl e
       | None \<Rightarrow>
           (if val_u = 0x01 then field_text r (\<lambda>b r. assert_loop (val_u + 1) (q\<lparr>ga_rpId := Some b\<rparr>) r)
            else if val_u = 0x02 then field_bytes r (\<lambda>b r. assert_loop (val_u + 1) (q\<lparr>ga_hash := Some b\<rparr>) r)
            else if val_u = 0x03 then parse_array_end r (descriptors_loop []) (\<lambda>ds r. assert_loop (val_u + 1) (q\<lparr>ga_allow := ds\<rparr>) r)
            else if val_u = 0x04 then
              parse_map_end r (\<lambda>m. ends (assert_ext_loop (q\<lparr>ga_ext := (ga_ext q)\<lparr>ext_present := True\<rparr>\<rparr>) m)) (\<lambda>q r. assert_loop (val_u + 1) q r)
            else if val_u = 0x05 then
              parse_map_end r (options_loop ((ga_opts q)\<lparr>opts_present := True\<rparr>)) (\<lambda>x r. assert_loop (val_u + 1) (q\<lparr>ga_opts := x\<rparr>) r)
            else if val_u = 0x06 then field_bytes r (\<lambda>b r. assert_loop (val_u + 1) (q\<lparr>ga_param := Some b\<rparr>) r)
            else if val_u = 0x07 then field_uint r (\<lambda>n r. assert_loop (val_u + 1) (q\<lparr>ga_protocol := n\<rparr>) r)
            else assert_loop (val_u + 1) q r))"

section \<open>Tests\<close>

text \<open>The options; \<open>Inr\<close> are \<^verbatim>\<open>up\<close> and \<^verbatim>\<open>uv\<close> as the command goes on with them.\<close>

definition assert_options :: "cred_options \<Rightarrow> int + bool \<times> bool" where
  "assert_options o1 =
     (if \<not> opts_present o1 then Inr (True, False)
      else if uv o1 = Some True then Inl CTAP2_ERR_INVALID_OPTION
      else if rk o1 \<noteq> None then Inl CTAP2_ERR_UNSUPPORTED_OPTION
      else Inr (case up o1 of Some b \<Rightarrow> b | None \<Rightarrow> True, case uv o1 of Some b \<Rightarrow> b | None \<Rightarrow> False))"

definition assert_auth :: "ctap_env \<Rightarrow> assert_req \<Rightarrow> bytes \<Rightarrow> ctap \<Rightarrow> (int option \<times> ctap) option" where
  "assert_auth env q rp st =
     (case ga_param q of
        None \<Rightarrow> Some (None, st)
      | Some p \<Rightarrow> do {
          v \<leftarrow> verify env (ucast (ga_protocol q)) (token (paut st)) (case_option [] id (ga_hash q)) p;
          if \<not> v then Some (Some CTAP2_ERR_PIN_AUTH_INVALID, st)
          else
            let (b, pa) = getUserVerifiedFlagValue (paut st); st = st\<lparr>paut := pa\<rparr>
            in if \<not> b then Some (Some CTAP2_ERR_PIN_AUTH_INVALID, st)
               else if permissions pa AND CTAP_PERMISSION_GA = 0 then Some (Some CTAP2_ERR_PIN_AUTH_INVALID, st)
               else if has_rp_id pa \<and> rp_id_hash pa \<noteq> rp then Some (Some CTAP2_ERR_PIN_AUTH_INVALID, st)
               else Some (None, st)
        })"

text \<open>The lengths are compared as 64-bit numbers, with the protocol as it came in.\<close>

definition hmac_error :: "assert_req \<Rightarrow> int option" where
  "hmac_error q =
     (if \<not> (ext_present (ga_ext q) \<and> hmac_secret (ga_ext q) = Some True) then None
      else (case (kax (ga_cose q), kay (ga_cose q), ga_salt_enc q, ga_salt_auth q) of
        (Some x, Some y, Some s, Some a) \<Rightarrow>
          if crv (ga_cose q) = 0 \<or> alg (ga_cose q) = 0 then Some CTAP2_ERR_MISSING_PARAMETER
          else let p = (ga_hmac_protocol q - 1) * of_nat IV_SIZE; n = of_nat (length s)
               in if n \<noteq> 32 + p \<and> n \<noteq> 64 + p then Some CTAP1_ERR_INVALID_LEN else None
      | _ \<Rightarrow> Some CTAP2_ERR_MISSING_PARAMETER))"

section \<open>Credentials\<close>

text \<open>
  The credentials of the list that can be loaded.  A place of the array is used again after a credential that could not;
  it is zero before, so a U2F credential has no other fields.
\<close>

fun allowed :: "ctap_env \<Rightarrow> bytes \<Rightarrow> ctap \<Rightarrow> descriptor list \<Rightarrow> (int + credential list) option" where
  "allowed env rp st [] = Some (Inr [])"
| "allowed env rp st (d # ds) =
     (case (d_type d, d_id d) of
        (Some t, Some i) \<Rightarrow>
          if c_string t \<noteq> text_public_key then allowed env rp st ds
          else do {
            l \<leftarrow> credential_load env i rp no_credential st;
            cs \<leftarrow> allowed env rp st ds;
            Some (case cs of Inl e \<Rightarrow> Inl e | Inr cs \<Rightarrow> Inr (case l of Inl e \<Rightarrow> cs | Inr c \<Rightarrow> c # cs))
          }
      | _ \<Rightarrow> Some (Inl CTAP2_ERR_MISSING_PARAMETER))"

text \<open>The first resident credentials of the relying party, as many as the array has places.\<close>

fun residents :: "ctap_env \<Rightarrow> bytes \<Rightarrow> ctap \<Rightarrow> nat list \<Rightarrow> nat \<Rightarrow> credential list option" where
  "residents env rp st [] n = Some []"
| "residents env rp st (i # is) n =
     (if n \<ge> MAX_CREDENTIAL_COUNT_IN_LIST then Some []
      else do {
        let ef = search_dynamic_file (cfs st) (EF_CRED + of_nat i);
        h \<leftarrow> file_has_data (cfs st) ef;
        if \<not> h then residents env rp st is n
        else do {
          d \<leftarrow> file_bytes (cfs st) ef;
          p \<leftarrow> rd_slice d 0 32;
          if p \<noteq> rp then residents env rp st is n
          else do {
            l \<leftarrow> credential_load env (drop 32 d) rp no_credential st;
            case l of
              Inl e \<Rightarrow> residents env rp st is n
            | Inr c \<Rightarrow> do { cs \<leftarrow> residents env rp st is (n + 1); Some (c # cs) }
          }
        }
      })"

text \<open>Whether a protected credential may be used.\<close>

definition usable :: "bool \<Rightarrow> bool \<Rightarrow> credential \<Rightarrow> bool" where
  "usable resident verified c =
     (cr_present c \<and> (ext_present (extensions c) \<longrightarrow>
        \<not> (credProtect (extensions c) = CRED_PROT_UV_REQUIRED \<and> \<not> verified) \<and>
        \<not> (credProtect (extensions c) = CRED_PROT_UV_OPTIONAL_WITH_LIST \<and> resident \<and> \<not> verified)))"

text \<open>
  The exchanges of the two loops: the credential \<open>x\<close> of the outer loop goes through the ones behind it.
\<close>

fun bubble :: "credential \<Rightarrow> credential list \<Rightarrow> credential \<times> credential list" where
  "bubble x [] = (x, [])"
| "bubble x (y # ys) =
     (if creation y > creation x then let (m, zs) = bubble y ys in (m, x # zs)
      else let (m, zs) = bubble x ys in (m, y # zs))"

lemma bubble_length: "length (snd (bubble x ys)) = length ys"
  by (induction x ys rule: bubble.induct) (auto split: prod.split)

function newest_first :: "credential list \<Rightarrow> credential list" where
  "newest_first [] = []"
| "newest_first (x # xs) = (let p = bubble x xs in fst p # newest_first (snd p))"
  by pat_completeness auto
termination by (relation "measure length") (auto simp: bubble_length)

section \<open>The answer\<close>

text \<open>
  The \<^verbatim>\<open>hmac-secret\<close> extension: two salts are decrypted into an array of 64 bytes, behind which protocol 2 writes 16 more.
  A protocol number like 257 admits thousands of bytes, which is undefined.  \<open>past\<close> are the bytes behind the salts.
\<close>

definition hmac_outputs :: "ctap_env \<Rightarrow> bytes \<Rightarrow> bytes \<Rightarrow> bool \<Rightarrow> bytes option" where
  "hmac_outputs env crd salt_dec two = do {
     a \<leftarrow> md_hmac (lib env) MD_SHA256 crd (take 32 salt_dec);
     if two then do { b \<leftarrow> md_hmac (lib env) MD_SHA256 crd (drop 32 salt_dec); Some (a @ b) } else Some a
   }"

definition hmac_ext :: "ctap_env \<Rightarrow> bytes \<Rightarrow> assert_req \<Rightarrow> u8 \<Rightarrow> bytes \<Rightarrow> ctap \<Rightarrow> ((int + bytes) \<times> ctap) option" where
  "hmac_ext env past q flags cid st = do {
     d \<leftarrow> hkey st;
     x \<leftarrow> kax (ga_cose q);
     y \<leftarrow> kay (ga_cose q);
     salt_enc \<leftarrow> ga_salt_enc q;
     salt_auth \<leftarrow> ga_salt_auth q;
     let protocol = (ucast (ga_hmac_protocol q) :: u8);
     let poff = (ucast ((ga_hmac_protocol q - 1) * of_nat IV_SIZE) :: u8);
     (case ecdh env protocol d x y of
        None \<Rightarrow> Some (Inl CTAP1_ERR_INVALID_PARAMETER, st)
      | Some secret \<Rightarrow> do {
          v \<leftarrow> verify env protocol secret salt_enc salt_auth;
          if \<not> v then Some (Inl CTAP2_ERR_EXTENSION_FIRST, st)
          else if length salt_enc > 64 + unat poff then None
          else do {
            let st = st\<lparr>overran := overran st + excess (replicate 64 0) salt_enc\<rparr>;
            (b, salt_dec) \<leftarrow> decrypt env protocol secret salt_enc past (replicate 64 0);
            if \<not> b then Some (Inl CTAP1_ERR_INVALID_PARAMETER, st)
            else do {
              (r, cred_random) \<leftarrow> credential_derive_hmac_key env cid st;
              if r \<noteq> 0 then Some (Inl CTAP1_ERR_INVALID_PARAMETER, st)
              else do {
                let crd = (if flags AND FIDO2_AUT_FLAG_UV \<noteq> 0 then drop 32 cred_random else take 32 cred_random);
                out1 \<leftarrow> hmac_outputs env crd salt_dec (length salt_enc = 64 + unat poff);
                let (res, st) = encrypt env protocol secret out1 st;
                res \<leftarrow> res;
                Some (Inr res, st)
              }
            }
          }
        })
   }"

text \<open>The extensions in the authenticator data, or the code that ends the command.\<close>

definition assert_ext :: "ctap_env \<Rightarrow> bytes \<Rightarrow> assert_req \<Rightarrow> u8 \<Rightarrow> credential \<Rightarrow> bytes \<Rightarrow> ctap \<Rightarrow> ((int + bytes) \<times> ctap) option" where
  "assert_ext env past q flags cred cid st =
     (if \<not> ext_present (ga_ext q) then Some (Inr [], st)
      else do {
        let blob = (if ga_credBlob q = Some True
                    then [CText text_credBlob, CBytes (case credBlob (extensions cred) of Some b \<Rightarrow> b | None \<Rightarrow> [])] else []);
        let hm = (hmac_secret (ga_ext q) \<noteq> None \<and> up (ga_opts q) \<noteq> Some False);
        (h, st) \<leftarrow> (if hm then hmac_ext env past q flags cid st else Some (Inr [], st));
        Some (case h of
          Inl e \<Rightarrow> Inl e
        | Inr h \<Rightarrow> Inr (encode env (CMap (blob @ (if hm then [CText hmac_label, CBytes h] else []) @
            (case thirdPartyPayment (ga_ext q) of
               Some _ \<Rightarrow> [CText text_thirdPartyPayment, CBool (thirdPartyPayment (extensions cred) = Some True)]
             | None \<Rightarrow> [])))), st)
      })"

text \<open>The user, with the names when there are several resident credentials.\<close>

definition assert_user :: "credential \<Rightarrow> bool \<Rightarrow> cbor" where
  "assert_user cred several = CMap ([CText text_id, CBytes (case_option [] id (userId cred))] @
     (if several then
        (case userName cred of Some b \<Rightarrow> [CText text_name, CText (c_string b)] | None \<Rightarrow> []) @
        (case userDisplayName cred of Some b \<Rightarrow> [CText text_displayName, CText (c_string b)] | None \<Rightarrow> [])
      else []))"

text \<open>The key of a credential; when it cannot be loaded, the one of a U2F handle.\<close>

definition assert_key :: "ctap_env \<Rightarrow> bytes \<Rightarrow> credential \<Rightarrow> bytes \<Rightarrow> ctap \<Rightarrow> ec_key option option" where
  "assert_key env rp cred cid st = do {
     (r, key) \<leftarrow> fido_load_key env (cr_curve cred) cid st;
     if r = 0 then Some key
     else do {
       (r, _, key, _) \<leftarrow> derive_key env rp False cid SECP256R1 True st;
       Some (if r \<noteq> 0 then None else key)
     }
   }"

definition assert_answer :: "ctap_env \<Rightarrow> bytes \<Rightarrow> assert_req \<Rightarrow> bool \<Rightarrow> bytes \<Rightarrow> u8 \<Rightarrow> nat \<Rightarrow> credential \<Rightarrow> ctap \<Rightarrow> ctap_reply" where
  "assert_answer env past q next1 rp flags n cred st = do {
     cid \<leftarrow> cr_id cred;
     key \<leftarrow> assert_key env rp cred cid st;
     case key of None \<Rightarrow> fail CTAP1_ERR_OTHER st | Some key \<Rightarrow> do {
     let lb = (largeBlobKey (ga_ext q) = Some True \<and> largeBlobKey (extensions cred) = Some True);
     (r, lbk) \<leftarrow> (if lb then credential_derive_large_blob_key env cid st else Some (0, []));
     if r \<noteq> 0 then fail CTAP2_ERR_PROCESSING st
     else do {
       (ext, st) \<leftarrow> assert_ext env past q flags cred cid st;
       case ext of Inl e \<Rightarrow> fail e st | Inr ext \<Rightarrow> do {
       let flags = (if ext_present (ga_ext q) then flags OR FIDO2_AUT_FLAG_ED else flags);
       ctr \<leftarrow> get_sign_counter (cfs st);
       let aut_data = rp @ [flags] @ be_counter ctr @ ext;
       let (sig, st) = sign_or_empty env (Some key) (curve_hash env (fst key) (aut_data @ case_option [] id (ga_hash q))) st;
       let user = (opts_present (opts cred) \<and> rk (opts cred) = Some True);
       let resp = CMap ([CUint 1, CMap [CText text_id, CBytes cid, CText text_type, CText text_public_key],
           CUint 2, CBytes aut_data, CUint 3, CBytes sig] @
           (if user then [CUint 4, assert_user cred (n > 1 \<and> ga_allow q = [])] else []) @
           (if n > 1 \<and> \<not> next1 then [CUint 5, CUint (of_nat n)] else []) @
           (if lb then [CUint 7, CBytes lbk] else []));
       st \<leftarrow> next_counter ctr st;
       answer resp st
     }}}
   }"

section \<open>The commands\<close>

text \<open>
  \<open>timerx\<close> is the time of the last one; the flags, the number and the credentials are those of the first one.  \<open>sharedx\<close> says that
  two places of the array point to the same memory.
\<close>

record pending =
  residentx :: bool
  credsx :: "credential list"
  credentialCounter :: u8
  numberOfCredentialsx :: u8
  flagsx :: u8
  timerx :: u32
  datax :: "assert_req option"
  sharedx :: bool

definition no_pending :: pending where
  "no_pending = \<lparr>residentx = False, credsx = [], credentialCounter = 1, numberOfCredentialsx = 0, flagsx = 0, timerx = 0, datax = None, sharedx = False\<rparr>"

type_synonym assert_reply = "(int \<times> cbor option \<times> ctap \<times> pending) option"

definition with_pending :: "pending \<Rightarrow> ctap_reply \<Rightarrow> assert_reply" where
  "with_pending pe r = map_option (\<lambda>(c, v, st). (c, v, st, pe)) r"

text \<open>The presence, as it is asked for in an assertion.\<close>

definition assert_presence :: "u32 \<Rightarrow> bool \<Rightarrow> assert_req \<Rightarrow> ctap \<Rightarrow> int option \<times> u8 \<times> ctap" where
  "assert_presence now timeout q st =
     (if up (ga_opts q) = Some True \<or> \<not> opts_present (ga_opts q) \<or> up (ga_opts q) = None then
        let (b, pa) = (if ga_param q \<noteq> None then getUserPresentFlagValue (paut st) else (False, paut st));
            st = st\<lparr>paut := pa\<rparr>
        in if \<not> b \<and> \<not> check_user_presence now timeout st then (Some CTAP2_ERR_OPERATION_DENIED, 0, st)
           else (None, FIDO2_AUT_FLAG_UP, st\<lparr>paut := use_token pa\<rparr>)
      else (None, 0, st))"

definition find_creds :: "ctap_env \<Rightarrow> assert_req \<Rightarrow> bytes \<Rightarrow> ctap \<Rightarrow> (int + credential list) option" where
  "find_creds env q rp st =
     (if ga_allow q \<noteq> [] then allowed env rp st (ga_allow q)
      else map_option Inr (residents env rp st [0 ..< MAX_RESIDENT_CREDENTIALS] 0))"

text \<open>
  The tests of a first assertion up to the choice of the credentials: their list, the flags, whether they are kept, and whether
  places of the array share memory: a usable credential is moved down over the ones that are not, but stays where it was too.
  Such an array that is not kept is given back at the end of the command, the same memory twice, which is undefined.
\<close>

definition first_choice :: "ctap_env \<Rightarrow> u32 \<Rightarrow> bool \<Rightarrow> assert_req \<Rightarrow> bytes \<Rightarrow> ctap \<Rightarrow> ((int + credential list \<times> u8 \<times> bool \<times> bool) \<times> ctap) option" where
  "first_choice env now timeout q rp st = do {
     e \<leftarrow> param_error now timeout (ga_param q) (ga_protocol q) st;
     case e of Some e \<Rightarrow> Some (Inl e, st) | None \<Rightarrow>
     case assert_options (ga_opts q) of Inl e \<Rightarrow> Some (Inl e, st) | Inr (upv, uvv) \<Rightarrow> do {
     (e, st) \<leftarrow> assert_auth env q rp st;
     case e of Some e \<Rightarrow> Some (Inl e, st) | None \<Rightarrow>
     case hmac_error q of Some e \<Rightarrow> Some (Inl e, st) | None \<Rightarrow> do {
     let verified = (ga_param q \<noteq> None);
     cs \<leftarrow> find_creds env q rp st;
     case cs of Inl e \<Rightarrow> Some (Inl e, st) | Inr cs \<Rightarrow>
     let kept = filter (usable (ga_allow q = []) verified) cs; shared = (kept \<noteq> take (length kept) cs);
         keep = ((upv \<or> uvv) \<and> length kept > 1) in
     if kept = [] then Some (Inl CTAP2_ERR_NO_CREDENTIALS, st)
     else case assert_presence now timeout q st of (e, f, st) \<Rightarrow>
     if shared \<and> (e \<noteq> None \<or> largeBlobKey (ga_ext q) = Some False \<or> \<not> keep) then None
     else (case e of Some e \<Rightarrow> Some (Inl e, st) | None \<Rightarrow>
     if largeBlobKey (ga_ext q) = Some False then Some (Inl CTAP2_ERR_INVALID_OPTION, st)
     else Some (Inr (newest_first kept, (if verified then FIDO2_AUT_FLAG_UV else 0) OR f, keep, shared), st)) }}}"

definition get_assertion :: "ctap_env \<Rightarrow> bytes \<Rightarrow> u32 \<Rightarrow> bool \<Rightarrow> assert_req \<Rightarrow> ctap \<Rightarrow> pending \<Rightarrow> assert_reply" where
  "get_assertion env past now timeout q st pe =
     (if ga_rpId q = None \<or> ga_hash q = None then with_pending pe (fail CTAP2_ERR_MISSING_PARAMETER st)
      else do {
        let rp = sha256 (lib env) (case_option [] id (ga_rpId q));
        (c, st) \<leftarrow> first_choice env now timeout q rp st;
        case c of
          Inl e \<Rightarrow> with_pending pe (fail e st)
        | Inr (cs, flags, keep, shared) \<Rightarrow>
            let pe = (if keep then pe\<lparr>residentx := (ga_allow q = []), credsx := cs, numberOfCredentialsx := of_nat (length cs),
                        datax := Some q, flagsx := flags, timerx := now, credentialCounter := 1, sharedx := shared\<rparr> else pe)
            in with_pending pe (assert_answer env past q False rp flags (length cs) (hd cs) st)
      })"

text \<open>A further one, with the kept request.\<close>

definition next_assertion :: "ctap_env \<Rightarrow> bytes \<Rightarrow> ctap \<Rightarrow> pending \<Rightarrow> ctap_reply" where
  "next_assertion env past st pe = do {
     q \<leftarrow> datax pe;
     cred \<leftarrow> (if unat (credentialCounter pe) < length (credsx pe) then Some (credsx pe ! unat (credentialCounter pe)) else None);
     assert_answer env past q True (sha256 (lib env) (case_option [] id (ga_rpId q))) (flagsx pe) (unat (numberOfCredentialsx pe)) cred st
   }"

text \<open>The credentials are given back.\<close>

definition drop_pending :: "pending \<Rightarrow> pending option" where
  "drop_pending pe =
     (if sharedx pe then None
      else Some (pe\<lparr>credsx := [], datax := None, residentx := False, timerx := 0, flagsx := 0, credentialCounter := 0, numberOfCredentialsx := 0\<rparr>))"

definition give_up :: "int \<Rightarrow> ctap \<Rightarrow> pending \<Rightarrow> assert_reply" where
  "give_up e st pe = do { pe \<leftarrow> drop_pending pe; with_pending pe (fail e st) }"

definition cbor_get_next_assertion :: "ctap_env \<Rightarrow> bytes \<Rightarrow> u32 \<Rightarrow> ctap \<Rightarrow> pending \<Rightarrow> assert_reply" where
  "cbor_get_next_assertion env past now st pe =
     (if credentialCounter pe \<ge> numberOfCredentialsx pe then give_up CTAP2_ERR_NOT_ALLOWED st pe
      else if timerx pe + 30 * 1000 < now then give_up CTAP2_ERR_NOT_ALLOWED st pe
      else do {
        (r, v, st) \<leftarrow> next_assertion env past st pe;
        if r \<noteq> 0 then give_up r st pe
        else do {
          let pe = pe\<lparr>timerx := now, credentialCounter := credentialCounter pe + 1\<rparr>;
          pe \<leftarrow> (if credentialCounter pe = numberOfCredentialsx pe then drop_pending pe else Some pe);
          with_pending pe (Some (0, v, st))
        }
      })"

definition cbor_get_assertion :: "ctap_env \<Rightarrow> bytes \<Rightarrow> u32 \<Rightarrow> bool \<Rightarrow> cbor \<Rightarrow> ctap \<Rightarrow> pending \<Rightarrow> assert_reply" where
  "cbor_get_assertion env past now timeout request st pe =
     (case cbor_next [request] (\<lambda>items. parse_map_end items (assert_loop 1 no_assert_req) (\<lambda>q _. Inr (Some q))) of
        Inl e \<Rightarrow> with_pending pe (fail (cerr_code e) st)
      | Inr None \<Rightarrow> None
      | Inr (Some q) \<Rightarrow> get_assertion env past now timeout q st pe)"

end
