(* ===== verification/CtapMain.thy ===== *)
theory CtapMain
  imports Assertion AuthConfig LargeBlobs Vendor U2f Management
begin

text \<open>
  The CTAP2 authenticator as a whole: \<^verbatim>\<open>cbor_get_info.c\<close>, \<^verbatim>\<open>cbor_reset.c\<close>, \<^verbatim>\<open>cbor_selection.c\<close>, the dispatcher and the
  card thread of \<^verbatim>\<open>cbor.c\<close>, and the application of \<^verbatim>\<open>fido.c\<close> that serves the same commands over APDUs.  The state are the
  static variables (\<open>ctap\<close>) and the assertions that are kept (\<open>pending\<close>).
\<close>

section \<open>Constants\<close>

definition CTAP1_ERR_INVALID_CMD :: int where "CTAP1_ERR_INVALID_CMD = 0x01"
definition CTAP2_ERR_USER_ACTION_TIMEOUT :: int where "CTAP2_ERR_USER_ACTION_TIMEOUT = 0x2F"
definition CTAP_MAKE_CREDENTIAL :: u8 where "CTAP_MAKE_CREDENTIAL = 0x01"
definition CTAP_GET_ASSERTION :: u8 where "CTAP_GET_ASSERTION = 0x02"
definition CTAP_GET_INFO :: u8 where "CTAP_GET_INFO = 0x04"
definition CTAP_CLIENT_PIN :: u8 where "CTAP_CLIENT_PIN = 0x06"
definition CTAP_RESET :: u8 where "CTAP_RESET = 0x07"
definition CTAP_GET_NEXT_ASSERTION :: u8 where "CTAP_GET_NEXT_ASSERTION = 0x08"
definition CTAP_CREDENTIAL_MGMT :: u8 where "CTAP_CREDENTIAL_MGMT = 0x0A"
definition CTAP_SELECTION :: u8 where "CTAP_SELECTION = 0x0B"
definition CTAP_LARGE_BLOBS :: u8 where "CTAP_LARGE_BLOBS = 0x0C"
definition CTAP_CONFIG :: u8 where "CTAP_CONFIG = 0x0D"
definition CTAP_VENDOR_CBOR :: u8 where "CTAP_VENDOR_CBOR = 0x80 OR 0x40 + 1"
definition CTAP_CBOR :: u8 where "CTAP_CBOR = 0x10"
definition CTAPHID_CBOR_CMD :: u8 where "CTAPHID_CBOR_CMD = 0x80 OR 0x10"
definition MAX_MSG_SIZE :: u64 where "MAX_MSG_SIZE = 1024"
definition PICO_FIDO_VERSION :: u64 where "PICO_FIDO_VERSION = 0x0508"

lemmas ctap_commands = CTAP_MAKE_CREDENTIAL_def CTAP_GET_ASSERTION_def CTAP_GET_INFO_def CTAP_CLIENT_PIN_def CTAP_RESET_def
  CTAP_GET_NEXT_ASSERTION_def CTAP_CREDENTIAL_MGMT_def CTAP_SELECTION_def CTAP_LARGE_BLOBS_def CTAP_CONFIG_def
  CTAP_VENDOR_CBOR_def CTAP_CBOR_def CTAPHID_CBOR_CMD_def

section \<open>What the token says of itself\<close>

definition ctext :: "string \<Rightarrow> cbor" where "ctext s = CText (map of_char s)"

text \<open>\<^verbatim>\<open>"ep"\<close> is set when the option bits have the one of enterprise attestation.\<close>

definition info_options :: "bool \<Rightarrow> bool \<Rightarrow> cbor" where
  "info_options ep pin =
     CMap [ctext ''ep'', CBool ep, ctext ''rk'', CBool True, ctext ''credMgmt'', CBool True, ctext ''authnrCfg'', CBool True,
       ctext ''clientPin'', CBool pin, ctext ''largeBlobs'', CBool True, ctext ''pinUvAuthToken'', CBool True,
       ctext ''setMinPINLength'', CBool True]"

definition cbor_get_info :: "ctap \<Rightarrow> ctap_reply" where
  "cbor_get_info st = do {
     o1 \<leftarrow> get_opts (cfs st);
     pin \<leftarrow> file_has_data (cfs st) (ef_pin (cfs st));
     force \<leftarrow> must_change (cfs st);
     len \<leftarrow> min_pin (cfs st);
     answer (CMap [
       CUint 0x01, CArray [ctext ''U2F_V2'', ctext ''FIDO_2_0'', ctext ''FIDO_2_1''],
       CUint 0x02, CArray [ctext ''credBlob'', ctext ''credProtect'', ctext ''hmac-secret'', ctext ''largeBlobKey'',
         ctext ''minPinLength'', ctext ''thirdPartyPayment''],
       CUint 0x03, CBytes aaguid,
       CUint 0x04, info_options (o1 AND FIDO2_OPT_EA \<noteq> 0) pin,
       CUint 0x05, CUint MAX_MSG_SIZE,
       CUint 0x06, CArray [CUint 1, CUint 2],
       CUint 0x07, CUint (of_nat MAX_CREDENTIAL_COUNT_IN_LIST),
       CUint 0x08, CUint (of_nat MAX_CRED_ID_LENGTH),
       CUint 0x0A, CArray (map COSE_public_key [FIDO2_ALG_ES256, FIDO2_ALG_ES384, FIDO2_ALG_ES512, FIDO2_ALG_ES256K]),
       CUint 0x0B, CUint (of_nat MAX_LARGE_BLOB_SIZE),
       CUint 0x0C, CBool force,
       CUint 0x0D, CUint (ucast len),
       CUint 0x0E, CUint PICO_FIDO_VERSION,
       CUint 0x0F, CUint (of_nat MAX_CREDBLOB_LENGTH),
       CUint 0x15, CArray [CUint CTAP_CONFIG_AUT_ENABLE, CUint CTAP_CONFIG_AUT_DISABLE]]) st
   }"

section \<open>Selection and reset\<close>

definition cbor_selection :: "bool \<Rightarrow> ctap \<Rightarrow> ctap_reply" where
  "cbor_selection timeout st = (if timeout then fail CTAP2_ERR_USER_ACTION_TIMEOUT st else fine st)"

text \<open>
  \<^verbatim>\<open>initialize_flash(true)\<close> cuts the chain of the records at its head, and the scan that follows finds none: none of the
  files of this firmware is in the permanent pool.
\<close>

definition reset_flash :: "fs \<Rightarrow> fs" where
  "reset_flash fs = soft_init (fs\<lparr>store := Map.empty\<rparr>)"

text \<open>The result of \<^verbatim>\<open>scan_files\<close> is not looked at; \<^verbatim>\<open>init_otp\<close> does nothing after the start.\<close>

definition cbor_reset :: "ctap_env \<Rightarrow> (nat \<Rightarrow> bytes \<Rightarrow> int + bytes) \<Rightarrow> u32 \<Rightarrow> bool \<Rightarrow> ctap \<Rightarrow> ctap_reply" where
  "cbor_reset env cert now timeout st =
     (if now > 10000 then fail CTAP2_ERR_NOT_ALLOWED st
      else if timeout then fail CTAP2_ERR_USER_ACTION_TIMEOUT st
      else do {
        (_, st) \<leftarrow> scan_files env cert (st\<lparr>cfs := reset_flash (cfs st)\<rparr>);
        fine st
      })"

section \<open>The dispatcher\<close>

text \<open>
  What a command finds around it: the clock, whether the button is not pressed in time, memory that is not initialised (\<open>at_stack\<close>,
  \<open>at_cred\<close>) or lies behind the salts (\<open>at_salts\<close>), the bytes of the second parameter in the message, whether the host spoke
  through the channel of the Nitrokey, the serial number, and the certificates that the library makes.
\<close>

record around =
  at_time :: u32
  at_timeout :: bool
  at_stack :: "nat \<Rightarrow> u8"
  at_cred :: credential
  at_salts :: bytes
  at_raw :: bytes
  at_nitrokey :: bool
  at_serial :: bytes
  at_cert :: "nat \<Rightarrow> bytes \<Rightarrow> int + bytes"
  at_csr :: "nat \<Rightarrow> bytes option"

text \<open>The code, the answer when the response buffer was prepared, and the state.\<close>

type_synonym outcome = "(int \<times> bytes option \<times> ctap \<times> pending) option"

definition refused :: "bool \<Rightarrow> int \<Rightarrow> ctap \<Rightarrow> pending \<Rightarrow> outcome" where
  "refused prepared e st pe = Some (e, if prepared then Some [0] else None, st, pe)"

text \<open>The status byte 0 is in the cleared buffer in front of the encoded answer.\<close>

definition respond :: "ctap_env \<Rightarrow> assert_reply \<Rightarrow> outcome" where
  "respond env r = map_option (\<lambda>(c, v, st, pe). (c, Some (0 # (case v of None \<Rightarrow> [] | Some v \<Rightarrow> encode env v)), st, pe)) r"

definition cbor_command :: "ctap_env \<Rightarrow> around \<Rightarrow> u8 \<Rightarrow> cbor \<Rightarrow> ctap \<Rightarrow> pending \<Rightarrow> assert_reply option" where
  "cbor_command env a c request st pe =
     (if c = CTAP_MAKE_CREDENTIAL then
        Some (with_pending pe (cbor_make_credential env (at_stack a) (at_cred a) (at_nitrokey a) (at_time a) (at_timeout a) request st))
      else if c = CTAP_GET_INFO then Some (with_pending pe (cbor_get_info st))
      else if c = CTAP_RESET then Some (with_pending pe (cbor_reset env (at_cert a) (at_time a) (at_timeout a) st))
      else if c = CTAP_CLIENT_PIN then Some (with_pending pe (cbor_client_pin env (at_stack a) (at_time a) request st))
      else if c = CTAP_GET_ASSERTION then Some (cbor_get_assertion env (at_salts a) (at_time a) (at_timeout a) request st pe)
      else if c = CTAP_GET_NEXT_ASSERTION then Some (cbor_get_next_assertion env (at_salts a) (at_time a) st pe)
      else if c = CTAP_SELECTION then Some (with_pending pe (cbor_selection (at_timeout a) st))
      else if c = CTAP_CREDENTIAL_MGMT \<or> c = 0x41 then
        Some (with_pending pe (cbor_cred_mgmt env (at_stack a) (at_time a) (c = 0x41) (at_raw a) request st))
      else if c = CTAP_CONFIG then Some (with_pending pe (cbor_config env (at_stack a) (at_raw a) request st))
      else if c = CTAP_LARGE_BLOBS then Some (with_pending pe (cbor_large_blobs env request st))
      else None)"

definition cbor_parse :: "ctap_env \<Rightarrow> around \<Rightarrow> u8 \<Rightarrow> bytes \<Rightarrow> ctap \<Rightarrow> pending \<Rightarrow> outcome" where
  "cbor_parse env a cmd msg st pe =
     (if msg = [] \<and> cmd = CTAPHID_CBOR_CMD then refused False CTAP1_ERR_INVALID_LEN st pe
      else do {
        s \<leftarrow> cap_supported (cfs st) CAP_FIDO2;
        if \<not> s then refused False CTAP1_ERR_INVALID_CMD st pe
        else if cmd = CTAPHID_CBOR_CMD then
          (case cbor_command env a (hd msg) (decode env (tl msg)) st pe of
             Some r \<Rightarrow> respond env r
           | None \<Rightarrow> refused True CTAP1_ERR_INVALID_CMD st pe)
        else if cmd = CTAP_VENDOR_CBOR then
          respond env (with_pending pe (cbor_vendor env (at_csr a) (if msg = [] then None else Some (hd msg)) (decode env (tl msg)) st))
        else if cmd = 0xC2 then do {
          (w, res, fs) \<leftarrow> cmd_read_config (at_serial a) (cfs st);
          if w = 0x9000 then Some (0, Some res, st\<lparr>cfs := fs\<rparr>, pe) else refused True CTAP1_ERR_INVALID_CMD (st\<lparr>cfs := fs\<rparr>) pe
        }
        else refused True CTAP1_ERR_INVALID_CMD st pe
      })"

text \<open>
  One turn of the card thread: the bytes that the host gets.  The code is cut to 16 bits, and the status byte to 8.  When the
  buffer was not prepared, the status byte is written behind the byte that is sent, the one left there (\<open>stale\<close>).
\<close>

definition cbor_thread_step :: "ctap_env \<Rightarrow> around \<Rightarrow> u8 \<Rightarrow> u8 \<Rightarrow> bytes \<Rightarrow> ctap \<Rightarrow> pending \<Rightarrow> (bytes \<times> ctap \<times> pending) option" where
  "cbor_thread_step env a stale cmd msg st pe = do {
     (c, m, st, pe) \<leftarrow> cbor_parse env a cmd msg st pe;
     let w = (of_int c :: u16);
     Some (case m of None \<Rightarrow> [stale] | Some m \<Rightarrow> if w = 0 then m else [ucast w], st, pe)
   }"

section \<open>The application\<close>

definition fido_select :: "ctap \<Rightarrow> int option" where
  "fido_select st = do {
     s \<leftarrow> cap_supported (cfs st) CAP_FIDO2;
     Some (if s then CCID_OK else CCID_ERR_FILE_NOT_FOUND)
   }"

type_synonym fido_reply = "((int + u16 \<times> bytes) \<times> ctap \<times> pending) option"

definition cmd_cbor :: "ctap_env \<Rightarrow> around \<Rightarrow> command \<Rightarrow> ctap \<Rightarrow> pending \<Rightarrow> fido_reply" where
  "cmd_cbor env a c st pe = do {
     msg \<leftarrow> rd_slice (cbuf c) 0 (cnc c);
     (r, m, st, pe) \<leftarrow> cbor_parse env a 0x90 msg st pe;
     Some (if r \<noteq> 0 then Inr (SW_EXEC_ERROR, []) else Inr (SW_OK, case_option [] id m), st, pe)
   }"

definition fido_cmd :: "ctap_env \<Rightarrow> around \<Rightarrow> command \<Rightarrow> ctap \<Rightarrow> pending \<Rightarrow> fido_reply option" where
  "fido_cmd env a c st pe =
     (let u2f = map_option (\<lambda>(r, st). (r, st, pe)) in
      if INS c = CTAP_REGISTER then Some (u2f (cmd_register env (at_timeout a) c st))
      else if INS c = CTAP_AUTHENTICATE then Some (u2f (cmd_authenticate env (at_timeout a) c st))
      else if INS c = CTAP_VERSION then Some (u2f (cmd_version st))
      else if INS c = CTAP_CBOR then Some (cmd_cbor env a c st pe)
      else None)"

definition fido_process_apdu :: "ctap_env \<Rightarrow> around \<Rightarrow> command \<Rightarrow> ctap \<Rightarrow> pending \<Rightarrow> fido_reply" where
  "fido_process_apdu env a c st pe =
     (if CLA c \<noteq> 0x00 \<and> CLA c \<noteq> 0x80 then Some (Inr (SW_CLA_NOT_SUPPORTED, []), st, pe)
      else do {
        s \<leftarrow> cap_supported (cfs st) CAP_U2F;
        case (if s then fido_cmd env a c st pe else None) of
          Some r \<Rightarrow> r
        | None \<Rightarrow> Some (Inr (SW_INS_NOT_SUPPORTED, []), st, pe)
      })"

end
