(* ===== verification/MakeProps.thy ===== *)
theory MakeProps
  imports Assertion CredMgmtProps U2fProps
begin

text \<open>
  What a made credential is good for: the token makes assertions with its identifier, under the key of the answer.
\<close>

section \<open>Making\<close>

lemma fido_load_same:
  assumes "\<And>key. load_keydev st2 key = load_keydev st key"
  shows "fido_load_key env curve cid st2 = fido_load_key env curve cid st"
proof -
  have st: "derive_path env False is h o1 s = map_option (\<lambda>(x, y, _). (x, y, s)) (derive_path env False is h o1 s')" for "is" h o1 s s'
  proof (induction "is" arbitrary: o1)
    case (Cons i js)
    show ?case
    proof (cases "rd_slice h (4 * i) 4")
      case (Some salt)
      then show ?thesis using Cons.IH [of "path_step env salt o1"] by simp
    qed simp
  qed simp
  have "derive_key env app False h g True st2 = map_option (\<lambda>(a, b, c, _). (a, b, c, st2)) (derive_key env app False h g True st)" for app h g
    using st [of "[0 ..< KEY_PATH_ENTRIES]" h _ st2 st]
    by (auto simp: derive_key_def assms split: bind_splits option.split prod.splits)
  then show ?thesis by (auto simp: fido_load_key_def Let_def split: bind_split)
qed

lemma pick_alg_range:
  "pick_alg ps curve algo = Inr (c, a) \<Longrightarrow> curve \<in> {- 1, 1, 2, 3, 8} \<Longrightarrow> - 300 \<le> algo \<Longrightarrow> algo \<le> 0 \<Longrightarrow>
     c \<in> {- 1, 1, 2, 3, 8} \<and> - 300 \<le> a \<and> a \<le> 0"
proof (induction ps arbitrary: curve algo)
  case (Cons p ps)
  obtain x where x: "- 300 \<le> p_alg p" "p_alg p \<le> 0" "alg_curve (p_alg p) = None \<or> alg_curve (p_alg p) = Some x \<and> x \<in> {1, 2, 3, 8}"
    "pick_alg ps (case alg_curve (p_alg p) of Some c \<Rightarrow> if curve \<le> 0 then c else curve | None \<Rightarrow> curve)
       (if (case alg_curve (p_alg p) of Some c \<Rightarrow> if curve \<le> 0 then c else curve | None \<Rightarrow> curve) > 0 \<and> algo = 0 then p_alg p else algo) = Inr (c, a)"
    using Cons.prems(1) by (auto simp: alg_curve_def alg_defs FIDO2_ALG_RS256_def FIDO2_ALG_RS512_def Let_def split: option.splits if_splits)
  show ?case by (rule Cons.IH [OF x(4)]) (use x Cons.prems in auto)
qed simp

lemma make_auth_keeps: "make_auth env q rp st = Some (e, st') \<Longrightarrow> st' = st\<lparr>paut := paut st'\<rparr>"
  by (auto simp: make_auth_def Let_def split: option.splits bind_splits if_splits prod.splits)

lemma make_presence_keeps: "make_presence now timeout q st = (e, f, st') \<Longrightarrow> st' = st\<lparr>paut := paut st'\<rparr>"
  by (auto simp: make_presence_def Let_def split: if_splits prod.splits)

lemma load_keydev_cong:
  assumes "keydev_dec st2 = keydev_dec st" and "cfs st2 = cfs st"
  shows "load_keydev st2 key = load_keydev st key"
  unfolding load_keydev_def assms by (rule refl)

lemma load_keydev_other: "load_keydev (st\<lparr>paut := pa\<rparr>) key = load_keydev st key" "load_keydev (st\<lparr>draws := n\<rparr>) key = load_keydev st key"
    "load_keydev (st\<lparr>overran := n\<rparr>) key = load_keydev st key"
  by (rule load_keydev_cong; simp)+

lemma create_keeps: "credential_create env now c buf st = Some (r, cid, st') \<Longrightarrow> st' = st\<lparr>draws := draws st', overran := overran st'\<rparr>"
  by (auto simp: credential_create_def Let_def draw_def split: if_splits bind_splits)

text \<open>The parts of a successful answer.\<close>

lemma make_answer_parts:
  assumes "make_answer env nitrokey q ka rp flags curve algo cid st = Some (0, Some v, st')"
  obtains key flags' ctr ext rest where "fido_load_key env curve cid st = Some (0, Some key)"
    "v = CMap (CUint 1 # CText text_packed # CUint 2 # CBytes (make_aut_data env rp flags' ctr cid key ext) # rest)"
    "get_sign_counter (cfs st) = Some ctr"
proof -
  obtain b pa where f: "getUserVerifiedFlagValue (paut st) = (b, pa)" by (cases "getUserVerifiedFlagValue (paut st)")
  define fl where "fl = (let f = (if b then flags OR FIDO2_AUT_FLAG_UV else flags) in if ext_present (mk_ext q) then f OR FIDO2_AUT_FLAG_ED else f)"
  have ld: "fido_load_key env curve cid (st\<lparr>paut := x\<rparr>) = fido_load_key env curve cid st" for x
    by (rule fido_load_same) (rule load_keydev_other)
  obtain ext r key where k: "make_ext env (cfs st) rp (mk_ext q) = Some ext" "fido_load_key env curve cid st = Some (r, key)"
    using assms by (auto simp: make_answer_def Let_def ld f bind_eq_Some_conv)
  have r: "r = 0" using assms k by (simp add: make_answer_def Let_def ld f reply_defs split: if_splits)
  obtain key' ctr where c: "key = Some key'" "get_sign_counter (cfs st) = Some ctr"
    using assms k r by (auto simp: make_answer_def Let_def ld f bind_eq_Some_conv)
  have "\<exists>rest. v = CMap (CUint 1 # CText text_packed # CUint 2 # CBytes (make_aut_data env rp fl ctr cid key' ext) # rest)"
    using assms k r c by (auto simp: make_answer_def Let_def ld f reply_defs bind_eq_Some_conv fl_def split: prod.splits if_splits)
  with k r c that show ?thesis by blast
qed

lemma make_credential_parts:
  assumes "make_credential env junk old nitrokey now timeout q st = Some (0, Some v, st')"
  obtains curve algo cid st1 st2 key flags ctr ext rest where "pick_alg (mk_params q) (- 1) 0 = Inr (curve, algo)"
    "credential_create env now (new_credential q (find_app_by_rp_id_hash (sha256 (lib env) (case_option [] id (mk_rp_id q)))) curve algo)
       (map junk [0 ..< MAX_CRED_ID_LENGTH]) st1 = Some (0, cid, st2)"
    "\<And>key. load_keydev st1 key = load_keydev st key" "fido_load_key env curve cid st1 = Some (0, Some key)"
    "v = CMap (CUint 1 # CText text_packed # CUint 2 #
       CBytes (make_aut_data env (sha256 (lib env) (case_option [] id (mk_rp_id q))) flags ctr cid key ext) # rest)"
proof -
  define rp where "rp = sha256 (lib env) (case_option [] id (mk_rp_id q))"
  note m0 = assms [unfolded make_credential_def Let_def, folded rp_def]
  have t1: "param_error now timeout (mk_param q) (mk_protocol q) st = Some None"
    using m0 by (cases "param_error now timeout (mk_param q) (mk_protocol q) st") (auto simp: reply_defs split: option.splits)
  obtain t where t2: "make_tests q st = Some t" using m0 t1 by (cases "make_tests q st") simp_all
  have "\<exists>c. t = Inr c" using m0 t1 t2 by (cases t) (simp_all add: reply_defs)
  then obtain curve algo where t: "param_error now timeout (mk_param q) (mk_protocol q) st = Some None" "make_tests q st = Some (Inr (curve, algo))"
    using t1 t2 by auto
  obtain sa where a: "make_auth env q rp st = Some (None, sa)" "exclude_error env rp (mk_param q \<noteq> None) old sa (mk_exclude q) = Some None"
    using m0 t by (auto simp: reply_defs bind_eq_Some_conv split: option.splits)
  obtain f sp where p: "make_presence now timeout q sa = (None, f, sp)"
    using m0 t a by (auto simp: reply_defs split: option.splits if_splits prod.splits)
  define cr where "cr = credential_create env now (new_credential q (find_app_by_rp_id_hash rp) curve algo) (map junk [0 ..< MAX_CRED_ID_LENGTH]) sp"
  define flags where "flags = (FIDO2_AUT_FLAG_AT OR (if mk_param q \<noteq> None then FIDO2_AUT_FLAG_UV else 0)) OR f"
  have m: "(do { (r, cred_id, st) \<leftarrow> cr; if r \<noteq> 0 then fail r st else make_answer env nitrokey q (find_app_by_rp_id_hash rp) rp flags curve algo cred_id st }) =
      Some (0, Some v, st')"
    using m0 t a p unfolding cr_def flags_def by (cases "mk_param q") (simp_all add: reply_defs cong: if_cong split: if_splits)
  then obtain cid st2 where c: "cr = Some (0, cid, st2)" "make_answer env nitrokey q (find_app_by_rp_id_hash rp) rp flags curve algo cid st2 = Some (0, Some v, st')"
    by (auto simp: reply_defs bind_eq_Some_conv split: if_splits)
  obtain key flags' ctr ext rest where k: "fido_load_key env curve cid st2 = Some (0, Some key)"
    "v = CMap (CUint 1 # CText text_packed # CUint 2 # CBytes (make_aut_data env rp flags' ctr cid key ext) # rest)"
    using make_answer_parts [OF c(2)] by metis
  have pick: "pick_alg (mk_params q) (- 1) 0 = Inr (curve, algo)"
    using t(2) by (auto simp: make_tests_def bind_eq_Some_conv split: if_splits sum.splits)
  have cc: "credential_create env now (new_credential q (find_app_by_rp_id_hash rp) curve algo) (map junk [0 ..< MAX_CRED_ID_LENGTH]) sp = Some (0, cid, st2)"
    using c(1) by (simp add: cr_def)
  have e: "keydev_dec sa = keydev_dec st" "cfs sa = cfs st" "keydev_dec sp = keydev_dec sa" "cfs sp = cfs sa" "keydev_dec st2 = keydev_dec sp" "cfs st2 = cfs sp"
    using arg_cong [OF make_auth_keeps [OF a(1)], of keydev_dec] arg_cong [OF make_auth_keeps [OF a(1)], of cfs]
      arg_cong [OF make_presence_keeps [OF p], of keydev_dec] arg_cong [OF make_presence_keeps [OF p], of cfs]
      arg_cong [OF create_keeps [OF cc], of keydev_dec] arg_cong [OF create_keeps [OF cc], of cfs] by simp_all
  have l: "load_keydev sp key = load_keydev st key" for key using e by (intro load_keydev_cong) simp_all
  have "fido_load_key env curve cid sp = fido_load_key env curve cid st2" using e by (intro fido_load_same load_keydev_cong) simp_all
  with k cc pick l that show ?thesis unfolding rp_def by metis
qed

section \<open>Using\<close>

text \<open>A request without options, extensions and token, for one credential.\<close>

definition plain_request :: "bytes \<Rightarrow> bytes \<Rightarrow> bytes \<Rightarrow> assert_req" where
  "plain_request rid ch cid = no_assert_req\<lparr>ga_rpId := Some rid, ga_hash := Some ch,
     ga_allow := [\<lparr>d_type = Some text_public_key, d_id = Some cid, d_transports = []\<rparr>]\<rparr>"

lemma plain_request_sel [simp]:
  "ga_rpId (plain_request rid ch cid) = Some rid" "ga_hash (plain_request rid ch cid) = Some ch" "ga_param (plain_request rid ch cid) = None"
  "ga_opts (plain_request rid ch cid) = no_options" "ga_ext (plain_request rid ch cid) = no_extensions"
  "ga_allow (plain_request rid ch cid) = [\<lparr>d_type = Some text_public_key, d_id = Some cid, d_transports = []\<rparr>]"
  by (simp_all add: plain_request_def no_assert_req_def)

lemma c_string_public [simp]: "c_string text_public_key = text_public_key"
  by (simp add: c_string_def text_public_key_def)

lemma plain_choice:
  assumes "credential_load env cid rp no_credential st = Some (Inr c)" and "usable False False c" and "check_user_presence now timeout st"
  shows "first_choice env now timeout (plain_request rid ch cid) rp st =
    Some (Inr ([c], FIDO2_AUT_FLAG_UP, False, False), st\<lparr>paut := use_token (paut st)\<rparr>)"
proof -
  have p: "assert_presence now timeout (plain_request rid ch cid) st = (None, FIDO2_AUT_FLAG_UP, st\<lparr>paut := use_token (paut st)\<rparr>)"
    using assms(3) by (simp add: assert_presence_def no_options_def)
  have o: "assert_options no_options = Inr (True, False)" by (simp add: assert_options_def no_options_def)
  show ?thesis using assms(1,2) p o
    by (simp add: first_choice_def param_error_def assert_auth_def hmac_error_def find_creds_def no_extensions_def no_options_def Let_def)
qed

lemma make_then_assert_spec:
  assumes mk: "make_credential env junk old nitrokey now timeout q st = Some (0, Some v, st1)" and law: "ctap_law env"
    and rid: "mk_rp_id q = Some rid" and prot: "\<not> (ext_present (mk_ext q) \<and> credProtect (mk_ext q) = CRED_PROT_UV_REQUIRED)"
    and same: "\<And>key. load_keydev st2 key = load_keydev st key" and touch: "check_user_presence now2 timeout2 st2"
    and inv: "fs_inv (cfs st2)" "fget (cfs st2) EF_COUNTER = Some ctr" "length ctr = 4"
  shows "\<exists>cid key flags ctr1 ext rest. v = CMap (CUint 1 # CText text_packed # CUint 2 #
      CBytes (make_aut_data env (sha256 (lib env) rid) flags ctr1 cid key ext) # rest) \<and>
    (let aut = sha256 (lib env) rid @ [FIDO2_AUT_FLAG_UP] @ rev ctr;
         sig = (case ecdsa_sign env key (curve_hash env (fst key) (aut @ ch)) (draws st2) of Some s \<Rightarrow> s | None \<Rightarrow> []);
         user = opts_present (mk_opts q) \<and> rk (mk_opts q) = Some True
     in \<exists>fs'. get_assertion env past now2 timeout2 (plain_request rid ch cid) st2 pe = Some (0, Some (CMap (
           [CUint 1, CMap [CText text_id, CBytes cid, CText text_type, CText text_public_key], CUint 2, CBytes aut, CUint 3, CBytes sig] @
           (if user then [CUint 4, CMap [CText text_id, CBytes (case_option [] id (mk_user_id q))]] else []))),
         st2\<lparr>paut := use_token (paut st2), draws := draws st2 + 1, cfs := fs'\<rparr>, pe) \<and> fs_inv fs' \<and>
       fget fs' = (fget (cfs st2))(EF_COUNTER \<mapsto> le_bytes 4 (unat (of_nat (le_val ctr) + 1 :: u32))))"
proof -
  define rp where "rp = sha256 (lib env) rid"
  obtain curve algo cid s1 s2 key flags ctr1 ext rest where m: "pick_alg (mk_params q) (- 1) 0 = Inr (curve, algo)"
    "credential_create env now (new_credential q (find_app_by_rp_id_hash rp) curve algo) (map junk [0 ..< MAX_CRED_ID_LENGTH]) s1 = Some (0, cid, s2)"
    "\<And>key. load_keydev s1 key = load_keydev st key" "fido_load_key env curve cid s1 = Some (0, Some key)"
    "v = CMap (CUint 1 # CText text_packed # CUint 2 # CBytes (make_aut_data env rp flags ctr1 cid key ext) # rest)"
    by (rule make_credential_parts [OF mk]) (auto simp: rid rp_def)
  define nc where "nc = new_credential q (find_app_by_rp_id_hash rp) curve algo"
  have nc: "cr_alg nc = algo" "cr_curve nc = curve" "extensions nc = mk_ext q" "opts nc = mk_opts q" "cr_rpId nc = Some rid" "userId nc = mk_user_id q"
    by (simp_all add: nc_def new_credential_def rid)
  have range: "- (2 ^ 31) \<le> cr_alg nc" "cr_alg nc < 2 ^ 31" "- (2 ^ 31) \<le> cr_curve nc" "cr_curve nc < 2 ^ 31"
    using pick_alg_range [OF m(1)] by (auto simp: nc)
  define st3 where "st3 = st2\<lparr>paut := use_token (paut st2)\<rparr>"
  define c where "c = kept now nc cid"
  have l: "load_keydev st2 k = load_keydev s1 k" "load_keydev st3 k = load_keydev s1 k" for k
    using same m(3) by (simp_all add: st3_def load_keydev_other)
  have load: "credential_load env cid rp no_credential st2 = Some (Inr c)"
    using create_load_spec(1) [OF law m(2) [folded nc_def] range l(1), of rp] by (simp add: c_def rp_def nc)
  have c: "usable False False c" "cr_curve c = curve" "cr_id c = Some cid" "largeBlobKey (extensions c) = Some True \<longrightarrow> ext_present (mk_ext q)"
    "opts c = (if opts_present (mk_opts q) then no_options\<lparr>rk := rk (mk_opts q), opts_present := True\<rparr> else no_options)"
    "case_option [] id (userId c) = case_option [] id (mk_user_id q)"
    using prot by (auto simp: usable_def c_def kept_def nc kept_extensions_def no_extensions_def kept_bytes_def CRED_PROT_UV_REQUIRED_def
        CRED_PROT_UV_OPTIONAL_WITH_LIST_def split: option.split)
  have k: "assert_key env rp c cid st3 = Some (Some key)"
    using m(4) fido_load_same [OF l(2), of env curve cid] by (simp add: assert_key_def c)
  have b: "be_counter (of_nat (le_val ctr)) = rev ctr"
  proof -
    have "le_val ctr < 2 ^ 32" using le_val_bound [of ctr] inv(3) by simp
    then show ?thesis using le_bytes_le_val [of ctr] inv(3) by (simp add: be_counter_def unat_of_nat)
  qed
  obtain r fs' where w: "write_file (cfs st2) (search_ef (cfs st2) EF_COUNTER) (le_bytes 4 (unat (of_nat (le_val ctr) + 1 :: u32))) = Some (r, fs')"
    "fs_inv fs'" "fget fs' = (fget (cfs st2))(EF_COUNTER \<mapsto> le_bytes 4 (unat (of_nat (le_val ctr) + 1 :: u32)))"
    using counter_write(2) [OF inv] by blast
  note ctr0 = counter_write(1) [OF inv]
  have a: "assert_answer env past (plain_request rid ch cid) False rp FIDO2_AUT_FLAG_UP 1 c st3 = Some (0, Some (CMap (
      [CUint 1, CMap [CText text_id, CBytes cid, CText text_type, CText text_public_key], CUint 2, CBytes (rp @ [FIDO2_AUT_FLAG_UP] @ rev ctr), CUint 3,
       CBytes (case ecdsa_sign env key (curve_hash env (fst key) ((rp @ [FIDO2_AUT_FLAG_UP] @ rev ctr) @ ch)) (draws st2) of Some s \<Rightarrow> s | None \<Rightarrow> [])] @
      (if opts_present (mk_opts q) \<and> rk (mk_opts q) = Some True then [CUint 4, CMap [CText text_id, CBytes (case_option [] id (mk_user_id q))]] else []))),
      st2\<lparr>paut := use_token (paut st2), draws := draws st2 + 1, cfs := fs'\<rparr>)"
    using k w ctr0 b
    by (simp add: assert_answer_def c assert_ext_def no_extensions_def Let_def st3_def sign_or_empty_def next_counter_def reply_defs assert_user_def no_options_def)
  then have "get_assertion env past now2 timeout2 (plain_request rid ch cid) st2 pe = Some (0, Some (CMap (
      [CUint 1, CMap [CText text_id, CBytes cid, CText text_type, CText text_public_key], CUint 2, CBytes (rp @ [FIDO2_AUT_FLAG_UP] @ rev ctr), CUint 3,
       CBytes (case ecdsa_sign env key (curve_hash env (fst key) ((rp @ [FIDO2_AUT_FLAG_UP] @ rev ctr) @ ch)) (draws st2) of Some s \<Rightarrow> s | None \<Rightarrow> [])] @
      (if opts_present (mk_opts q) \<and> rk (mk_opts q) = Some True then [CUint 4, CMap [CText text_id, CBytes (case_option [] id (mk_user_id q))]] else []))),
      st2\<lparr>paut := use_token (paut st2), draws := draws st2 + 1, cfs := fs'\<rparr>, pe)"
    using plain_choice [OF load c(1) touch, of rid ch] by (simp add: get_assertion_def with_pending_def rp_def st3_def Let_def)
  with m(5) w show ?thesis unfolding rp_def Let_def by blast
qed

text \<open>
  C1: a credential is good for assertions.  When \<^verbatim>\<open>cbor_make_credential\<close> answers, its authenticator data hold an identifier and a
  public key; \<^verbatim>\<open>cbor_get_assertion\<close> for the same relying party with this identifier, at any later time when the device key is still
  the same, answers after a touch, with this identifier, the flag of the presence and the counter, signed with that key, and the counter of the
  token grows by one.  The user is named when the credential was asked to be resident.  A credential whose protection requires
  the verification of the user is not meant here.
\<close>

theorem make_then_assert:
  assumes mk: "make_credential env junk old nitrokey now timeout q st = Some (0, Some v, st1)" and law: "ctap_law env"
    and rid: "mk_rp_id q = Some rid" and prot: "\<not> (ext_present (mk_ext q) \<and> credProtect (mk_ext q) = CRED_PROT_UV_REQUIRED)"
    and same: "\<And>key. load_keydev st2 key = load_keydev st key" and touch: "check_user_presence now2 timeout2 st2"
    and inv: "fs_inv (cfs st2)" "fget (cfs st2) EF_COUNTER = Some ctr" "length ctr = 4"
  shows "\<exists>cid key flags ctr1 ext rest. v = CMap (CUint 1 # CText text_packed # CUint 2 #
      CBytes (make_aut_data env (sha256 (lib env) rid) flags ctr1 cid key ext) # rest) \<and>
    (let aut = sha256 (lib env) rid @ [FIDO2_AUT_FLAG_UP] @ rev ctr;
         sig = (case ecdsa_sign env key (curve_hash env (fst key) (aut @ ch)) (draws st2) of Some s \<Rightarrow> s | None \<Rightarrow> []);
         user = opts_present (mk_opts q) \<and> rk (mk_opts q) = Some True
     in \<exists>fs'. get_assertion env past now2 timeout2 (plain_request rid ch cid) st2 pe = Some (0, Some (CMap (
           [CUint 1, CMap [CText text_id, CBytes cid, CText text_type, CText text_public_key], CUint 2, CBytes aut, CUint 3, CBytes sig] @
           (if user then [CUint 4, CMap [CText text_id, CBytes (case_option [] id (mk_user_id q))]] else []))),
         st2\<lparr>paut := use_token (paut st2), draws := draws st2 + 1, cfs := fs'\<rparr>, pe) \<and> fs_inv fs' \<and>
       fget fs' = (fget (cfs st2))(EF_COUNTER \<mapsto> le_bytes 4 (unat (of_nat (le_val ctr) + 1 :: u32))))"
  by (rule make_then_assert_spec [OF assms])

section \<open>A token that makes a credential\<close>

definition sample_make_req :: make_req where
  "sample_make_req = no_make_req\<lparr>mk_hash := Some [1], mk_rp_id := Some [0x61, 0x2e, 0x62], mk_user_id := Some [7],
     mk_params := [\<lparr>p_type = Some text_public_key, p_alg = - 7\<rparr>]\<rparr>"

lemma sample_make_req_sel [simp]:
  "mk_hash sample_make_req = Some [1]" "mk_rp_id sample_make_req = Some [0x61, 0x2e, 0x62]" "mk_user_id sample_make_req = Some [7]"
  "mk_params sample_make_req = [\<lparr>p_type = Some text_public_key, p_alg = - 7\<rparr>]" "mk_param sample_make_req = None"
  "mk_exclude sample_make_req = []" "mk_ext sample_make_req = no_extensions" "mk_opts sample_make_req = no_options" "mk_enterprise sample_make_req = 0"
  "mk_user_name sample_make_req = None" "mk_user_displayName sample_make_req = None"
  by (simp_all add: sample_make_req_def no_make_req_def)

lemma factory_loads:
  assumes "cfs st = factory_fs" and "keydev_dec st = None" and "32 \<le> n"
  shows "load_keydev st (replicate n 0) = Some (CCID_OK, replicate 32 7 @ replicate (n - 32) 0)"
proof -
  have "load_keydev (sample_ctap factory_fs) (replicate n 0) = Some (CCID_OK, replicate 32 7 @ replicate (n - 32) 0)"
    using static_reads [OF factory_fs(1) more_static_fids(1)] factory_keys assms(3)
    by (simp add: load_keydev_def wr_slice_def drop_replicate)
  then show ?thesis using load_keydev_cong [of st "sample_ctap factory_fs"] assms(1,2) by simp
qed

lemma sample_loads_key:
  assumes "cfs st = factory_fs" and "keydev_dec st = None" and "32 \<le> length cid"
  shows "\<exists>d. fido_load_key sample_ctap_env 1 cid st = Some (0, Some (SECP256R1, d))"
proof -
  define path where "path = concat (le_bytes 4 (unat (0x80000000 OR 10022 :: u32)) #
      map (\<lambda>i. hardened (take 4 (drop (4 * i) (take 32 cid)))) [1 ..< KEY_PATH_ENTRIES])"
  have lp: "length path = 32" by (simp add: path_def KEY_PATH_ENTRIES_def hardened_def upt_conv_Cons)
  obtain o1 where p: "derive_path sample_ctap_env False [0 ..< KEY_PATH_ENTRIES] path (replicate 32 7 @ replicate (67 - 32) 0) st = Some (path, o1, st)"
    "length o1 = 67"
    using derive_path_read [OF _ sample_ctap_law, of "[0 ..< KEY_PATH_ENTRIES]" path "replicate 32 7 @ replicate (67 - 32) 0" st] lp
    by (auto simp: KEY_PATH_ENTRIES_def)
  have "curve_key sample_ctap_env SECP256R1 o1 = Some (0, Some (SECP256R1, le_val (take 32 o1)))"
    using p(2) by (simp add: curve_key_def rd_slice_def sample_sign)
  moreover have "fido_load_key sample_ctap_env 1 cid st =
      do { (r, _, k, _) \<leftarrow> derive_key sample_ctap_env [] False path SECP256R1 True st; Some (r, k) }"
    using assms(3) by (simp add: fido_load_key_def rd_slice_def KEY_PATH_LEN_def fido_curve_to_mbedtls_def path_def Let_def)
  ultimately show ?thesis
    using p(1) factory_loads [OF assms(1,2), of 67] by (simp add: derive_key_def ccid_defs)
qed

lemma sample_makes:
  "\<exists>v st'. make_credential sample_ctap_env junk old False 5 False sample_make_req (sample_ctap factory_fs) = Some (0, Some v, st')"
proof -
  let ?st = "sample_ctap factory_fs"
  define rp where "rp = sha256 (lib sample_ctap_env) [0x61, 0x2e, 0x62]"
  define nc where "nc = new_credential sample_make_req (find_app_by_rp_id_hash rp) 1 (- 7)"
  have pin: "file_has_data factory_fs (ef_pin factory_fs) = Some False"
    using static_reads(1) [OF factory_fs(1) static_fids(1)] factory_fs(2) fids_distinct
    by (simp add: ef_pin_def has_def factory_list_def fid_defs)
  have t: "make_tests sample_make_req ?st = Some (Inr (1, - 7))"
    using pin by (simp add: make_tests_def alg_curve_def alg_defs no_options_def)
  have use: "use_token (paut ?st) = paut ?st"
    by (simp add: use_token_def sample_ctap_def clearUserPresentFlag_def clearUserVerifiedFlag_def clearPinUvAuthTokenPermissionsExceptLbw_def)
  have p: "make_presence 5 False sample_make_req ?st = (None, FIDO2_AUT_FLAG_UP, ?st)"
    using use by (simp add: make_presence_def no_options_def)
  have "length (toy_encode (describe sample_ctap_env 5 nc)) \<le> 900"
    by (simp add: describe_def nc_def new_credential_def no_credential_def append_string_def append_bytes_def c_string_def
        no_extensions_def no_options_def sample_ctap_env_def sample_crypto_def toy_hash_def upt_conv_Cons)
  then obtain cid st2 where c: "credential_create sample_ctap_env 5 nc (map junk [0 ..< MAX_CRED_ID_LENGTH]) ?st = Some (0, cid, st2)"
    using factory_loads [of ?st 32]
    by (auto simp: credential_create_def draw_def Let_def cred_sizes wr_slice_def rd_slice_def credential_derive_chacha_key_def chain_key_def
        ccid_defs sample_ctap_env_def [THEN arg_cong, of encode])
  have fs2: "cfs st2 = factory_fs" "keydev_dec st2 = None"
    using arg_cong [OF create_keeps [OF c], of cfs] arg_cong [OF create_keeps [OF c], of keydev_dec] by simp_all
  have "- (2 ^ 31) \<le> cr_alg nc" "cr_alg nc < 2 ^ 31" "- (2 ^ 31) \<le> cr_curve nc" "cr_curve nc < 2 ^ 31" by (simp_all add: nc_def new_credential_def)
  from create_load_spec(2) [OF sample_ctap_law c this refl refl] have "32 \<le> length cid" by simp
  then obtain d where k: "fido_load_key sample_ctap_env 1 cid (st2\<lparr>paut := pa\<rparr>) = Some (0, Some (SECP256R1, d))" for pa
    using sample_loads_key [OF fs2, of cid] fido_load_same [OF load_keydev_other(1)] by metis
  have ctr: "get_sign_counter factory_fs = Some 0"
    using counter_write(1) [OF factory_fs(1) factory_keys(4)] by simp
  obtain r fs' where w: "write_file factory_fs (search_ef factory_fs EF_COUNTER) (le_bytes 4 (Suc 0)) = Some (r, fs')"
    using counter_write(2) [OF factory_fs(1) factory_keys(4), of "Suc 0"] by auto
  have key: "pointed factory_fs (search_ef factory_fs EF_KEY_DEV) = Some (replicate 32 7)" "pointed factory_fs (search_ef factory_fs EF_EE_DEV) = Some [0x30]"
    using pointed_content [OF factory_fs(1) more_static_fids(1)] pointed_content [OF factory_fs(1) more_static_fids(3)] factory_keys by simp_all
  have sig: "\<exists>sg m. make_signature sample_ctap_env self kk h (st2\<lparr>paut := pa\<rparr>) = Some (sg, st2\<lparr>paut := pa, draws := m\<rparr>)" for self kk h pa
    using key(1) fs2(1) by (auto simp: make_signature_def sign_or_empty_def rd_slice_def)
  have "\<exists>v st'. make_answer sample_ctap_env False sample_make_req ka rp flags 1 (- 7) cid st2 = Some (0, Some v, st')" for ka flags
  proof -
    obtain b pa where f: "getUserVerifiedFlagValue (paut st2) = (b, pa)" by fastforce
    let ?fl = "if b then flags OR FIDO2_AUT_FLAG_UV else flags"
    let ?h = "curve_hash sample_ctap_env SECP256R1 (make_aut_data sample_ctap_env rp ?fl 0 cid (SECP256R1, d) [] @ [1])"
    obtain sg m where sg: "make_signature sample_ctap_env True (SECP256R1, d) ?h (st2\<lparr>paut := pa\<rparr>) = Some (sg, st2\<lparr>paut := pa, draws := m\<rparr>)"
      using sig by blast
    obtain sg2 m2 where sg2: "make_signature sample_ctap_env False (SECP256R1, d) ?h (st2\<lparr>paut := pa\<rparr>) = Some (sg2, st2\<lparr>paut := pa, draws := m2\<rparr>)"
      using sig by blast
    show ?thesis using sg sg2 k w ctr key(2) fs2 f
      by (auto simp: make_answer_def Let_def make_ext_def no_extensions_def no_options_def next_counter_def reply_defs attestation_cert_def)
  qed
  then obtain v st' where a: "make_answer sample_ctap_env False sample_make_req (find_app_by_rp_id_hash rp) rp
      ((FIDO2_AUT_FLAG_AT OR 0) OR FIDO2_AUT_FLAG_UP) 1 (- 7) cid st2 = Some (0, Some v, st')" by blast
  have "make_credential sample_ctap_env junk old False 5 False sample_make_req ?st = Some (0, Some v, st')"
    using t p c a by (simp add: make_credential_def param_error_def make_auth_def no_extensions_def Let_def rp_def nc_def)
  then show ?thesis by blast
qed

lemma sample_request_facts:
  "\<not> (ext_present (mk_ext sample_make_req) \<and> credProtect (mk_ext sample_make_req) = CRED_PROT_UV_REQUIRED)"
  "check_user_presence 9 False (sample_ctap factory_fs)" "fs_inv (cfs (sample_ctap factory_fs))"
  "fget (cfs (sample_ctap factory_fs)) EF_COUNTER = Some [0, 0, 0, 0]" "length [0, 0, 0, 0 :: u8] = 4"
  using factory_fs(1) factory_keys by (simp_all add: no_extensions_def check_user_presence_def)

lemma sample_asserts:
  "\<exists>cid v st'. get_assertion sample_ctap_env [] 9 False (plain_request [0x61, 0x2e, 0x62] [2] cid) (sample_ctap factory_fs) no_pending =
     Some (0, Some v, st', no_pending)"
proof -
  obtain v st' where mk: "make_credential sample_ctap_env (\<lambda>_. 0) no_credential False 5 False sample_make_req (sample_ctap factory_fs) = Some (0, Some v, st')"
    using sample_makes by blast
  show ?thesis
    using make_then_assert_spec [OF mk sample_ctap_law _ sample_request_facts(1) refl sample_request_facts(2-5), of "[0x61, 0x2e, 0x62]" "[2]" "[]" no_pending]
    unfolding Let_def by (simp only: sample_make_req_sel) blast
qed

theorem make_then_assert_witness:
  "\<exists>cid sig st'. get_assertion sample_ctap_env [] 9 False (plain_request [0x61, 0x2e, 0x62] [2] cid) (sample_ctap factory_fs) no_pending =
     Some (0, Some (CMap [CUint 1, CMap [CText text_id, CBytes cid, CText text_type, CText text_public_key],
       CUint 2, CBytes (sha256 (lib sample_ctap_env) [0x61, 0x2e, 0x62] @ [FIDO2_AUT_FLAG_UP, 0, 0, 0, 0]), CUint 3, CBytes sig]), st', no_pending)"
proof -
  obtain v st' where mk: "make_credential sample_ctap_env (\<lambda>_. 0) no_credential False 5 False sample_make_req (sample_ctap factory_fs) = Some (0, Some v, st')"
    using sample_makes by blast
  show ?thesis
    using make_then_assert [OF mk sample_ctap_law _ sample_request_facts(1) refl sample_request_facts(2-5), of "[0x61, 0x2e, 0x62]" "[2]" "[]" no_pending]
    by (simp add: Let_def no_options_def) blast
qed

end
