(* ===== verification/AssertProps.thy ===== *)
theory AssertProps
  imports MakeProps "HOL-Library.Multiset"
begin

text \<open>
  What the assertions promise: the order of the credentials, and that a protected one is not used without the verification of the user.
\<close>

section \<open>The order\<close>

lemma bubble_perm: "mset (fst (bubble x ys) # snd (bubble x ys)) = mset (x # ys)"
  by (induction x ys rule: bubble.induct) (auto split: prod.split simp: add_mset_commute)

lemma bubble_max: "\<forall>y \<in> set (x # ys). creation y \<le> creation (fst (bubble x ys))"
proof (induction x ys rule: bubble.induct)
  case (2 x y ys)
  show ?case
  proof (cases "creation x < creation y")
    case True
    with 2(1) have b: "\<forall>z \<in> set (y # ys). creation z \<le> creation (fst (bubble y ys))" by simp
    then have "creation x \<le> creation (fst (bubble y ys))" using True by (meson less_imp_le list.set_intros(1) order_trans)
    then show ?thesis using b True by (simp add: split_def Let_def)
  next
    case False
    with 2(2) have b: "\<forall>z \<in> set (x # ys). creation z \<le> creation (fst (bubble x ys))" by simp
    then have "creation y \<le> creation (fst (bubble x ys))" using False by (meson leI list.set_intros(1) order_trans)
    then show ?thesis using b False by (simp add: split_def Let_def)
  qed
qed simp

lemma newest_first_mset: "mset (newest_first cs) = mset cs"
proof (induction cs rule: newest_first.induct)
  case (2 x xs)
  then show ?case using bubble_perm [of x xs] by (simp add: Let_def)
qed simp

lemma newest_first_set: "set (newest_first cs) = set cs"
  using newest_first_mset by (rule mset_eq_setD)

text \<open>
  C36: the exchanges of an assertion order the credentials: they are the same ones, each as often as before, and none comes
  before a newer one, so that the first one is the newest.
\<close>

theorem newest_first_sorts:
  "mset (newest_first cs) = mset cs \<and> sorted_wrt (\<lambda>x y. creation y \<le> creation x) (newest_first cs)"
proof (intro conjI newest_first_mset, induction cs rule: newest_first.induct)
  case (2 x xs)
  let ?p = "bubble x xs"
  have "set (snd ?p) \<subseteq> set (x # xs)" using mset_eq_setD [OF bubble_perm, of x xs] by auto
  then have "\<forall>y \<in> set (newest_first (snd ?p)). creation y \<le> creation (fst ?p)" using bubble_max [of x xs] by (auto simp: newest_first_set)
  then show ?case using 2 [OF refl] by (simp add: Let_def)
qed simp

section \<open>Protection\<close>

text \<open>A credential that the token has read from one of its identifiers.\<close>

definition loaded :: "ctap_env \<Rightarrow> credential \<Rightarrow> bool" where
  "loaded env c \<longleftrightarrow> (\<exists>st rp i. cr_id c = Some i \<and> credential_load env i rp no_credential st = Some (Inr c))"

text \<open>The credentials that are kept for further assertions may be used with the flags that are kept with them.\<close>

definition pending_ok :: "ctap_env \<Rightarrow> pending \<Rightarrow> bool" where
  "pending_ok env pe \<longleftrightarrow> (\<forall>c \<in> set (credsx pe). loaded env c \<and> usable (residentx pe) (flagsx pe AND FIDO2_AUT_FLAG_UV \<noteq> 0) c)"

lemma load_loaded: "credential_load env i rp no_credential st = Some (Inr c) \<Longrightarrow> loaded env c"
proof -
  assume l: "credential_load env i rp no_credential st = Some (Inr c)"
  then have "cr_id c = Some i"
    by (auto simp: credential_load_def bind_eq_Some_conv split: if_splits sum.splits)
  with l show ?thesis unfolding loaded_def by blast
qed

lemma allowed_loaded: "allowed env rp st ds = Some (Inr cs) \<Longrightarrow> \<forall>c \<in> set cs. loaded env c"
proof (induction ds arbitrary: cs)
  case (Cons d ds)
  show ?case
  proof (cases "\<exists>t i. d_type d = Some t \<and> d_id d = Some i \<and> c_string t = text_public_key")
    case True
    then obtain t i where d: "d_type d = Some t" "d_id d = Some i" "c_string t = text_public_key" by blast
    with Cons.prems obtain l r where l: "credential_load env i rp no_credential st = Some l" "allowed env rp st ds = Some r"
      "(case r of Inl e \<Rightarrow> Inl e | Inr cs \<Rightarrow> Inr (case l of Inl e \<Rightarrow> cs | Inr c \<Rightarrow> c # cs)) = Inr cs" by (auto simp: bind_eq_Some_conv)
    then show ?thesis using Cons.IH load_loaded by (cases l; cases r; fastforce)
  next
    case False
    then show ?thesis using Cons by (auto split: option.splits)
  qed
qed simp

lemma residents_loaded: "residents env rp st is n = Some cs \<Longrightarrow> \<forall>c \<in> set cs. loaded env c"
proof (induction "is" arbitrary: n cs)
  case (Cons i js)
  let ?ef = "search_dynamic_file (cfs st) (EF_CRED + of_nat i)"
  show ?case
  proof (cases "n < MAX_CREDENTIAL_COUNT_IN_LIST \<and> file_has_data (cfs st) ?ef = Some True \<and> (\<exists>d. file_bytes (cfs st) ?ef = Some d \<and> rd_slice d 0 32 = Some rp)")
    case True
    then obtain d where d: "file_bytes (cfs st) ?ef = Some d" "rd_slice d 0 32 = Some rp" by blast
    with True Cons.prems obtain l where l: "credential_load env (drop 32 d) rp no_credential st = Some l"
      "(case l of Inl e \<Rightarrow> residents env rp st js n | Inr c \<Rightarrow> do { cs \<leftarrow> residents env rp st js (Suc n); Some (c # cs) }) = Some cs"
      by (auto simp: bind_eq_Some_conv Let_def simp del: add_left_cancel)
    then show ?thesis using Cons.IH load_loaded by (cases l) (auto simp: bind_eq_Some_conv)
  next
    case False
    then show ?thesis using Cons by (auto simp: bind_eq_Some_conv Let_def simp del: add_left_cancel split: if_splits)
  qed
qed simp

lemma find_creds_loaded: "find_creds env q rp st = Some (Inr cs) \<Longrightarrow> \<forall>c \<in> set cs. loaded env c"
  using allowed_loaded residents_loaded by (fastforce simp: find_creds_def split: if_splits)

text \<open>An answer with the identifier of \<open>c\<close> and its flags in the authenticator data.\<close>

definition asserts :: "cbor \<Rightarrow> credential \<Rightarrow> u8 \<Rightarrow> bool" where
  "asserts v c flags \<longleftrightarrow> (\<exists>i rp x rest. cr_id c = Some i \<and> length rp = 32 \<and>
     v = CMap (CUint 1 # CMap [CText text_id, CBytes i, CText text_type, CText text_public_key] # CUint 2 # CBytes (rp @ [flags] @ x) # rest))"

lemma answer_asserts:
  assumes "assert_answer env past q next1 rp flags n cred st = Some (0, Some v, st')" and "length rp = 32"
  shows "\<exists>fl. asserts v cred fl \<and> fl AND FIDO2_AUT_FLAG_UV = flags AND FIDO2_AUT_FLAG_UV"
proof -
  have ed: "(flags OR FIDO2_AUT_FLAG_ED) AND FIDO2_AUT_FLAG_UV = flags AND FIDO2_AUT_FLAG_UV" by (simp add: word_ao_dist aut_flags)
  obtain cid key where c: "cr_id cred = Some cid" "assert_key env rp cred cid st = Some (Some key)"
    using assms(1) by (auto simp: assert_answer_def bind_eq_Some_conv reply_defs split: option.splits)
  define lb where "lb = (largeBlobKey (ga_ext q) = Some True \<and> largeBlobKey (extensions cred) = Some True)"
  note a = assms(1) [unfolded assert_answer_def Let_def, folded lb_def]
  obtain r lbk where l: "(if lb then credential_derive_large_blob_key env cid st else Some (0, [])) = Some (r, lbk)" using a c
    by (auto simp: bind_eq_Some_conv simp del: split_paired_Ex)
  have r: "r = 0" using a c l by (auto simp: reply_defs split: if_splits)
  obtain y st1 where y: "assert_ext env past q flags cred cid st = Some (y, st1)"
    using a c l r by (cases "assert_ext env past q flags cred cid st") auto
  then obtain x where x: "assert_ext env past q flags cred cid st = Some (Inr x, st1)"
    using a c l r by (cases y) (auto simp: reply_defs)
  define fl where "fl = (if ext_present (ga_ext q) then flags OR FIDO2_AUT_FLAG_ED else flags)"
  obtain ctr where k: "get_sign_counter (cfs st1) = Some ctr" using a c l r x by (auto simp: bind_eq_Some_conv)
  have "\<exists>rest. v = CMap (CUint 1 # CMap [CText text_id, CBytes cid, CText text_type, CText text_public_key] # CUint 2 #
      CBytes (rp @ [fl] @ be_counter ctr @ x) # rest)"
    using a c l r x k by (auto simp: bind_eq_Some_conv reply_defs fl_def split: prod.splits)
  then have "asserts v cred fl" using assms(2) c(1) unfolding asserts_def by blast
  then show ?thesis using ed fl_def by auto
qed

lemma choice_ok:
  assumes "first_choice env now timeout q rp st = Some (Inr (cs, flags, keep, shared), st1)"
  shows "cs \<noteq> []" "\<forall>c \<in> set cs. loaded env c \<and> usable (ga_allow q = []) (flags AND FIDO2_AUT_FLAG_UV \<noteq> 0) c"
proof -
  note m = assms [unfolded first_choice_def Let_def]
  have p: "param_error now timeout (ga_param q) (ga_protocol q) st = Some None"
    using m by (cases "param_error now timeout (ga_param q) (ga_protocol q) st") (auto split: option.splits)
  obtain u where o: "assert_options (ga_opts q) = Inr u" using m p by (cases "assert_options (ga_opts q)") simp_all
  obtain sa where a: "assert_auth env q rp st = Some (None, sa)"
    using m p o by (cases "assert_auth env q rp st") (auto split: option.splits prod.splits)
  have h: "hmac_error q = None" using m p o a by (cases "hmac_error q") (auto split: prod.splits)
  obtain ds where f: "find_creds env q rp sa = Some ds" using m p o a h by (cases "find_creds env q rp sa") (auto split: prod.splits)
  then obtain ks where k: "ds = Inr ks" using m p o a h by (cases ds) (auto split: prod.splits)
  let ?kept = "filter (usable (ga_allow q = []) (ga_param q \<noteq> None)) ks"
  obtain e g sp where s: "assert_presence now timeout q sa = (e, g, sp)" by (cases "assert_presence now timeout q sa") 
  have n: "?kept \<noteq> []" using m p o a h f k s by (auto split: prod.splits if_splits)
  then have r: "cs = newest_first ?kept" "flags = ((if ga_param q \<noteq> None then FIDO2_AUT_FLAG_UV else 0) OR g)" "e = None"
    using m p o a h f k s by (auto split: prod.splits if_splits option.splits)
  have "g = 0 \<or> g = FIDO2_AUT_FLAG_UP" using s by (auto simp: assert_presence_def Let_def split: if_splits prod.splits)
  then have v: "flags AND FIDO2_AUT_FLAG_UV \<noteq> 0 \<longleftrightarrow> ga_param q \<noteq> None" by (auto simp: r aut_flags)
  show "cs \<noteq> []" using r n newest_first_set [of ?kept] by auto
  show "\<forall>c \<in> set cs. loaded env c \<and> usable (ga_allow q = []) (flags AND FIDO2_AUT_FLAG_UV \<noteq> 0) c"
    unfolding v using find_creds_loaded [of env q rp sa ks] f k r(1) newest_first_set [of ?kept] by auto
qed



end
