(* ===== verification/WellFormed.thy ===== *)
theory WellFormed
  imports CtapMain AssertProps
begin

text \<open>
  The state of the authenticator is well formed: the tables of the files, and the sizes of the arrays behind its static variables.
  Every command keeps it so, whatever the host sends.
\<close>

definition well_formed :: "ctap \<Rightarrow> bool" where
  "well_formed st \<longleftrightarrow> fs_inv (cfs st) \<and> length (temp_lba st) = MAX_LARGE_BLOB_SIZE \<and> length (rp_id_hash (paut st)) = 32 \<and>
     (\<forall>d. hkey st = Some d \<longrightarrow> length d = 32) \<and> (\<forall>k. keydev_dec st = Some k \<longrightarrow> length k = 32) \<and>
     (\<forall>Q k. mse st = Some (Q, k) \<longrightarrow> length Q = 65 \<and> length k = 44)"

section \<open>Files\<close>

text \<open>A reference that a search of the tables has given.\<close>

definition ref_ok :: "fs \<Rightarrow> file_ref option \<Rightarrow> bool" where "ref_ok fs r \<longleftrightarrow> r = None \<or> (\<exists>fi. lookup fs fi = r)"

lemma dynamic_is_lookup:
  assumes inv: "fs_inv fs" and s: "search_dynamic_file fs fi = Some r"
  shows "lookup fs fi = Some r"
proof -
  obtain k where "k < length (take (dynamic_files fs) (dynamic_file fs))" "fid (take (dynamic_files fs) (dynamic_file fs) ! k) = fi"
    using s search_dynamic_from_Some unfolding search_dynamic_file_def by fastforce
  then have "fi \<in> set (dyn_fids fs)" unfolding dyn_fids_def by (metis length_map nth_map nth_mem)
  then have "search_ef fs fi = None" using inv by (simp add: fs_inv_def)
  then show ?thesis using s by (simp add: lookup_def)
qed

lemma ref_ok_search: "ref_ok fs None" "ref_ok fs (lookup fs fi)" "ref_ok fs (search_ef fs fi)" "fs_inv fs \<Longrightarrow> ref_ok fs (search_dynamic_file fs fi)"
proof -
  show "ref_ok fs None" "ref_ok fs (lookup fs fi)" by (auto simp: ref_ok_def)
  show "ref_ok fs (search_ef fs fi)" by (cases "search_ef fs fi") (auto simp: ref_ok_def lookup_def intro!: exI [of _ fi])
  show "fs_inv fs \<Longrightarrow> ref_ok fs (search_dynamic_file fs fi)"
    using dynamic_is_lookup [of fs fi] by (cases "search_dynamic_file fs fi") (auto simp: ref_ok_def intro!: exI [of _ fi])
qed

lemma write_inv:
  assumes w: "write_file fs r bs = Some (rc, fs')" and inv: "fs_inv fs" and r: "ref_ok fs r"
  shows "fs_inv fs'"
proof (cases "length bs \<le> 4096")
  case True
  from r show ?thesis unfolding ref_ok_def
  proof
    assume "\<exists>fi. lookup fs fi = r"
    then obtain fi where "lookup fs fi = r" by blast
    then show ?thesis using write_ref [OF inv True, of fi] w by auto
  qed (use w inv in \<open>simp add: write_file_def\<close>)
next
  case False
  then show ?thesis using w inv by (auto simp: write_file_def flash_sizes bind_eq_Some_conv split: option.splits)
qed

lemma delete_inv:
  assumes d: "delete_file fs (search_dynamic_file fs fi) = Some (rc, fs')" and inv: "fs_inv fs"
  shows "fs_inv fs'"
proof (cases "search_dynamic_file fs fi")
  case None
  then show ?thesis using d inv by (simp add: delete_file_def)
next
  case (Some r)
  then show ?thesis using delete_ref [OF inv, of fi] dynamic_is_lookup [OF inv Some] d by auto
qed

lemma new_inv: "file_new fs fi = (r, fs') \<Longrightarrow> fs_inv fs \<Longrightarrow> fs_inv fs' \<and> ref_ok fs' r"
  using file_new_spec [of fs fi] by (auto simp: ref_ok_search)

section \<open>Keeping the state well formed\<close>

definition keeps :: "ctap_reply \<Rightarrow> bool" where "keeps r \<longleftrightarrow> (\<forall>c v st. r = Some (c, v, st) \<longrightarrow> well_formed st)"

lemma keepsD: "keeps (Some (c, v, st)) \<Longrightarrow> well_formed st" by (simp add: keeps_def)

named_theorems keeping

lemma keeps_rules [keeping]:
  "well_formed st \<Longrightarrow> keeps (fail e st)" "well_formed st \<Longrightarrow> keeps (fine st)" "well_formed st \<Longrightarrow> keeps (answer v st)" "keeps None"
  "(\<And>x. m = Some x \<Longrightarrow> keeps (k x)) \<Longrightarrow> keeps (Option.bind m k)"
  "(b \<Longrightarrow> keeps r) \<Longrightarrow> (\<not> b \<Longrightarrow> keeps r') \<Longrightarrow> keeps (if b then r else r')"
  "(\<And>x y. p = (x, y) \<Longrightarrow> keeps (f x y)) \<Longrightarrow> keeps (case p of (x, y) \<Rightarrow> f x y)"
  "(o1 = None \<Longrightarrow> keeps r) \<Longrightarrow> (\<And>x. o1 = Some x \<Longrightarrow> keeps (g x)) \<Longrightarrow> keeps (case o1 of None \<Rightarrow> r | Some x \<Rightarrow> g x)"
  "(\<And>e. s = Inl e \<Longrightarrow> keeps (h e)) \<Longrightarrow> (\<And>x. s = Inr x \<Longrightarrow> keeps (i x)) \<Longrightarrow> keeps (case s of Inl e \<Rightarrow> h e | Inr x \<Rightarrow> i x)"
  by (auto simp: keeps_def reply_defs bind_eq_Some_conv split: prod.split option.split sum.split)

lemma wf_other [simp]:
  "well_formed (st\<lparr>draws := n\<rparr>) = well_formed st" "well_formed (st\<lparr>overran := n\<rparr>) = well_formed st" "well_formed (st\<lparr>usage_timer := w\<rparr>) = well_formed st"
  "well_formed (st\<lparr>initial_usage_time_limit := w\<rparr>) = well_formed st" "well_formed (st\<lparr>user_present_time_limit := w\<rparr>) = well_formed st" "well_formed (st\<lparr>needs_power_cycle := b\<rparr>) = well_formed st"
  "well_formed (st\<lparr>new_pin_mismatches := m\<rparr>) = well_formed st" "well_formed (st\<lparr>expectedLength := l\<rparr>) = well_formed st" "well_formed (st\<lparr>expectedNextOffset := l\<rparr>) = well_formed st"
  "well_formed (st\<lparr>rp_counter := c\<rparr>) = well_formed st" "well_formed (st\<lparr>rp_total := c\<rparr>) = well_formed st" "well_formed (st\<lparr>cred_counter := c\<rparr>) = well_formed st" "well_formed (st\<lparr>cred_total := c\<rparr>) = well_formed st"
  "well_formed (st\<lparr>rpIdHashx := h\<rparr>) = well_formed st"
  by (simp_all add: well_formed_def)

lemma wf_fs: "well_formed st \<Longrightarrow> fs_inv (cfs st)" by (simp add: well_formed_def)

lemma wf_parts [intro]:
  "well_formed st \<Longrightarrow> fs_inv fs \<Longrightarrow> well_formed (st\<lparr>cfs := fs\<rparr>)" "well_formed st \<Longrightarrow> length (rp_id_hash pa) = 32 \<Longrightarrow> well_formed (st\<lparr>paut := pa\<rparr>)"
  "well_formed st \<Longrightarrow> length b = MAX_LARGE_BLOB_SIZE \<Longrightarrow> well_formed (st\<lparr>temp_lba := b\<rparr>)" "well_formed st \<Longrightarrow> length d = 32 \<Longrightarrow> well_formed (st\<lparr>hkey := Some d\<rparr>)"
  "well_formed st \<Longrightarrow> length d = 32 \<Longrightarrow> well_formed (st\<lparr>keydev_dec := Some d\<rparr>)" "well_formed st \<Longrightarrow> length Q = 65 \<Longrightarrow> length k = 44 \<Longrightarrow> well_formed (st\<lparr>mse := Some (Q, k)\<rparr>)"
  by (simp_all add: well_formed_def)

lemma wf_hash: "well_formed st \<Longrightarrow> length (rp_id_hash (paut st)) = 32" by (simp add: well_formed_def)

text \<open>A file that is found by its identifier is written.\<close>

lemma write_found:
  "write_file fs (search_ef fs fi) bs = Some (rc, fs') \<Longrightarrow> fs_inv fs \<Longrightarrow> fs_inv fs'"
  "write_file fs (search_dynamic_file fs fi) bs = Some (rc, fs') \<Longrightarrow> fs_inv fs \<Longrightarrow> fs_inv fs'"
  "file_new fs fi = (r, fs1) \<Longrightarrow> write_file fs1 r bs = Some (rc, fs') \<Longrightarrow> fs_inv fs \<Longrightarrow> fs_inv fs'"
  using write_inv ref_ok_search new_inv by metis+

lemmas ef_defs = ef_pin_def ef_minpin_def ef_keydev_def ef_keydev_enc_def ef_largeblob_def

section \<open>The client PIN\<close>

lemma token_keeps:
  assumes law: "ctap_law env" and w: "well_formed st"
  shows "resetPinUvAuthToken env st = Some st' \<Longrightarrow> well_formed st'" "initialize env st = Some st' \<Longrightarrow> well_formed st'" "well_formed (regenerate env st)"
proof -
  have reset: "resetPinUvAuthToken env st = Some st' \<Longrightarrow> well_formed st'" if "well_formed st" for st
    using wf_fs [OF that] wf_hash [OF that] that
    by (auto simp: resetPinUvAuthToken_def draw_def Let_def bind_eq_Some_conv dest: write_found intro!: wf_parts)
  show "resetPinUvAuthToken env st = Some st' \<Longrightarrow> well_formed st'" using reset w .
  show g: "well_formed (regenerate env st)" using w by (auto simp: regenerate_def draw_def ctap_lawD [OF law] intro!: wf_parts)
  show "initialize env st = Some st' \<Longrightarrow> well_formed st'" using reset [OF g] by (simp add: initialize_def)
qed

lemma tries_keep:
  assumes w: "well_formed st"
  shows "spend_try st = Some (d, st') \<Longrightarrow> well_formed st'" "restore_tries d st = Some st' \<Longrightarrow> well_formed st'"
  using wf_fs [OF w] w by (auto simp: spend_try_def restore_tries_def ef_defs Let_def bind_eq_Some_conv dest: write_found intro!: wf_parts)

lemma set_new_pin_keeps [keeping]: "well_formed st \<Longrightarrow> keeps (set_new_pin env padded st)"
  unfolding set_new_pin_def ef_defs by (auto intro!: keeping wf_parts dest: write_found wf_fs)

lemma with_secret_keeps [keeping]: "well_formed st \<Longrightarrow> (\<And>s. keeps (k s)) \<Longrightarrow> keeps (with_secret env protocol x y st k)"
  unfolding with_secret_def by (auto intro!: keeping)

lemma set_pin_keeps [keeping]: "well_formed st \<Longrightarrow> keeps (set_pin env junk q st)"
  unfolding set_pin_def Let_def by (auto intro!: keeping)

lemma wrong_pin_keeps [keeping]: "ctap_law env \<Longrightarrow> well_formed st \<Longrightarrow> keeps (wrong_pin env n st)"
  using token_keeps(3) unfolding wrong_pin_def Let_def by (auto intro!: keeping)

lemma change_to_keeps [keeping]:
  assumes law: "ctap_law env" and w: "well_formed st"
  shows "keeps (change_to env padded st)"
proof -
  have g: "well_formed st'" if "write_file (cfs st) (search_ef (cfs st) EF_PIN) hsh = Some (a, fs)" "resetPinUvAuthToken env (st\<lparr>overran := n, cfs := fs2\<rparr>) = Some st'"
    "(if b then do { d \<leftarrow> file_bytes fs (search_ef fs EF_MINPINLEN); map_option snd (write_file fs (search_ef fs EF_MINPINLEN) (d[1 := 0])) }
      else Some fs) = Some fs2" for hsh a fs fs2 n b st'
  proof -
    have "fs_inv fs" using write_found(1) [OF that(1)] wf_fs [OF w] by simp
    then have "fs_inv fs2" using that(3) write_found(1) by (auto simp: bind_eq_Some_conv split: if_splits)
    then have "well_formed (st\<lparr>overran := n, cfs := fs2\<rparr>)" using w by (intro wf_parts) simp_all
    then show ?thesis using token_keeps(1) [OF law] that(2) by blast
  qed
  show ?thesis unfolding change_to_def Let_def ef_defs by (intro keeping) (use w g in simp_all)
qed

lemma change_pin_keeps [keeping]: "ctap_law env \<Longrightarrow> well_formed st \<Longrightarrow> keeps (change_pin env junk q st)"
  unfolding change_pin_def Let_def by (intro keeping) (auto dest: tries_keep intro!: keeping)

lemma encrypt_state: "encrypt env protocol key inp st = (r, st') \<Longrightarrow> well_formed st' = well_formed st"
  by (auto simp: encrypt_def draw_def split: if_splits)

lemma grant_keeps [keeping]:
  assumes law: "ctap_law env" and w: "well_formed st"
  shows "keeps (grant env now q secret st)"
proof -
  have g: "well_formed st2" if "resetPinUvAuthToken env st = Some st1" "encrypt env p s t
      (beginUsingPinUvAuthToken now False st1\<lparr>paut := bind_token env q (paut (beginUsingPinUvAuthToken now False st1))\<rparr>) = (r, st2)" for st1 p s t r st2
  proof -
    have "well_formed st1" using token_keeps(1) [OF law w that(1)] .
    then have "well_formed (beginUsingPinUvAuthToken now False st1\<lparr>paut := bind_token env q (paut (beginUsingPinUvAuthToken now False st1))\<rparr>)"
      by (auto simp: beginUsingPinUvAuthToken_def bind_token_def wf_hash ctap_lawD [OF law] intro!: wf_parts split: option.split)
    then show ?thesis using encrypt_state [OF that(2)] by simp
  qed
  show ?thesis unfolding grant_def Let_def by (intro keeping) (use w g in simp_all)
qed

lemma get_pin_token_keeps [keeping]:
  assumes law: "ctap_law env" and w: "well_formed st"
  shows "keeps (get_pin_token env junk now q st)"
proof -
  have r: "well_formed s2" if "spend_try st = Some (d, s1)" "restore_tries d (s1\<lparr>overran := n\<rparr>) = Some s2" for d s1 n s2
    using tries_keep(2) [OF _ that(2)] tries_keep(1) [OF w that(1)] by simp
  show ?thesis unfolding get_pin_token_def Let_def by (intro keeping) (use law w r tries_keep(1) [OF w] in simp_all)
qed

lemma client_pin_keeps [keeping]: "ctap_law env \<Longrightarrow> well_formed st \<Longrightarrow> keeps (client_pin env junk now q st)"
  unfolding client_pin_def get_pin_retries_def get_key_agreement_def by (intro keeping)

lemma cbor_client_pin_keeps [keeping]: "ctap_law env \<Longrightarrow> well_formed st \<Longrightarrow> keeps (cbor_client_pin env junk now request st)"
  unfolding cbor_client_pin_def using token_keeps(2) by (intro keeping) (auto intro!: keeping split: if_splits)

section \<open>Large blobs\<close>

lemma lb_store_keeps [keeping]: "well_formed st \<Longrightarrow> keeps (lb_store env q frag st)"
proof -
  assume w: "well_formed st"
  have c: "keeps (lb_commit env st)" if "well_formed st" for st
    unfolding lb_commit_def Let_def ef_defs by (intro keeping) (use that write_found(1) wf_fs in \<open>auto intro!: wf_parts\<close>)
  have l: "well_formed (st\<lparr>temp_lba := lba, expectedNextOffset := n\<rparr>)"
    if "wr_slice (if b then replicate MAX_LARGE_BLOB_SIZE 0 else temp_lba st) i x = Some lba" for b i x lba n
    using wr_slice_length [OF that] w by (auto simp: well_formed_def split: if_splits)
  show ?thesis unfolding lb_store_def Let_def by (intro keeping c) (use w l in simp_all)
qed

lemma cbor_large_blobs_keeps [keeping]:
  assumes w: "well_formed st"
  shows "keeps (cbor_large_blobs env request st)"
proof -
  have r: "keeps r \<Longrightarrow> keeps (lb_result r)" for r
    by (auto simp: lb_result_def keeps_def bind_eq_Some_conv split: if_splits)
  have a: "well_formed st \<Longrightarrow> keeps (lb_authorised env q frag st)" for q frag st
    unfolding lb_authorised_def by (intro keeping)
  have "keeps (large_blobs env q st)" for q
    unfolding large_blobs_def lb_read_def lb_write_def Let_def by (intro keeping a) (use w in simp_all)
  then show ?thesis unfolding cbor_large_blobs_def by (intro r keeping w)
qed

section \<open>Configuration and vendor commands\<close>

lemma wipe_inv: "wipe_keydev zeros fs = Some fs' \<Longrightarrow> fs_inv fs \<Longrightarrow> fs_inv fs'"
  unfolding wipe_keydev_def ef_defs by (auto simp: bind_eq_Some_conv dest!: write_found(1))

lemma config_run_keeps [keeping]:
  assumes w: "well_formed st"
  shows "keeps (config_run env junk q st)"
proof -
  note f = wf_fs [OF w]
  have d: "keeps (aut_disable st)"
    unfolding aut_disable_def ef_defs by (intro keeping) (use w f write_found(1) in \<open>auto intro!: wf_parts\<close>)
  have e: "keeps (aut_enable env junk q st)"
    unfolding aut_enable_def ef_defs Let_def draw_def
    by (intro keeping) (use w f write_found(1) wipe_inv in \<open>auto intro!: wf_parts\<close>)
  have m: "keeps (set_min_pin env q st)"
    unfolding set_min_pin_def ef_defs Let_def by (intro keeping) (use w f write_found(1) in \<open>auto intro!: wf_parts\<close>)
  have o: "set_opts (cfs st) b = Some fs \<Longrightarrow> fs_inv fs" for b fs using f write_found(1) by (auto simp: set_opts_def)
  show ?thesis unfolding config_run_def by (intro keeping d e m) (use w o in \<open>auto intro!: wf_parts\<close>)
qed

lemma cbor_config_keeps [keeping]: "well_formed st \<Longrightarrow> keeps (cbor_config env junk raw request st)"
  unfolding cbor_config_def config_authorised_def by (intro keeping)

lemma coordinate_length: "coordinate b = Some X \<Longrightarrow> length X = 32"
  by (auto simp: coordinate_def Let_def split: if_splits)

lemma mse_keeps [keeping]:
  assumes law: "ctap_law env" and w: "well_formed st"
  shows "keeps (vendor_mse env q st)"
proof -
  have p: "well_formed (st\<lparr>draws := n, mse := map_option (apfst (\<lambda>p. 0x04 # X @ drop 33 p)) (mse st)\<rparr>)" if "length X = 32" for n X
    using w that by (auto simp: well_formed_def)
  have p2: "well_formed (st\<lparr>draws := n, mse := map_option (apfst (\<lambda>_. 0x04 # X @ Y)) (mse st)\<rparr>)" if "length X = 32" "length Y = 32" for n X Y
    using w that by (auto simp: well_formed_def)
  have p3: "well_formed (st\<lparr>draws := n, mse := Some (0x04 # X @ Y, hkdf env z i 44)\<rparr>)" if "length X = 32" "length Y = 32" for n X Y z i
    using w that ctap_lawD(5) [OF law] by (auto simp: well_formed_def)
  show ?thesis unfolding vendor_mse_def Let_def draw_def prod.case
    by (intro keeping) (use w p p2 p3 coordinate_length in simp_all)
qed

lemma open_length: "ctap_law env \<Longrightarrow> open_keydev env k e = Some (Some d) \<Longrightarrow> length d = 32"
  using ctap_lawD(12) by (fastforce simp: open_keydev_def bind_eq_Some_conv rd_slice_def split: if_splits)

lemma unlock_keeps [keeping]:
  assumes law: "ctap_law env" and w: "well_formed st"
  shows "keeps (vendor_unlock env q st)"
proof -
  have z: "well_formed (st\<lparr>keydev_dec := map_option (\<lambda>_. replicate 32 0) (keydev_dec st)\<rparr>)" using w by (auto simp: well_formed_def)
  show ?thesis unfolding vendor_unlock_def by (intro keeping) (use w z open_length [OF law] in \<open>auto intro!: wf_parts\<close>)
qed

lemma vendor_keeps [keeping]:
  assumes law: "ctap_law env" and w: "well_formed st"
  shows "keeps (cbor_vendor env csr cmd request st)"
proof -
  note f = wf_fs [OF w]
  have b: "keeps (vendor_backup q st)" for q
    unfolding vendor_backup_def ef_defs by (intro keeping) (use w f write_found(1) wipe_inv in \<open>auto intro!: wf_parts\<close>)
  have ea: "fs_inv x" if "search_ef (cfs st) EF_EE_DEV_EA = Some y" "write_file (cfs st) (Some y) p = Some (a, x)" for y p a x
    using write_found(1) [of "cfs st" EF_EE_DEV_EA p a x] that f by simp
  have e: "keeps (vendor_ea env csr q st)" for q
    unfolding vendor_ea_def ea_request_cert_def ea_store_cert_def Let_def
    by (intro keeping) (use w f ea in \<open>auto intro!: wf_parts split: if_splits\<close>)
  show ?thesis unfolding cbor_vendor_def cbor_vendor_generic_def by (intro keeping b e) (use law w in simp_all)
qed

section \<open>Credentials\<close>

text \<open>The same rules for other results.\<close>

definition post :: "('a \<Rightarrow> bool) \<Rightarrow> 'a option \<Rightarrow> bool" where "post P m \<longleftrightarrow> (\<forall>x. m = Some x \<longrightarrow> P x)"

lemma post_rules:
  "post P None" "P x \<Longrightarrow> post P (Some x)" "(\<And>x. m = Some x \<Longrightarrow> post P (k x)) \<Longrightarrow> post P (Option.bind m k)"
  "(b \<Longrightarrow> post P r) \<Longrightarrow> (\<not> b \<Longrightarrow> post P r') \<Longrightarrow> post P (if b then r else r')"
  "(\<And>x y. p = (x, y) \<Longrightarrow> post P (f x y)) \<Longrightarrow> post P (case p of (x, y) \<Rightarrow> f x y)"
  "(o1 = None \<Longrightarrow> post P r) \<Longrightarrow> (\<And>x. o1 = Some x \<Longrightarrow> post P (g x)) \<Longrightarrow> post P (case o1 of None \<Rightarrow> r | Some x \<Rightarrow> g x)"
  "(\<And>e. s = Inl e \<Longrightarrow> post P (h e)) \<Longrightarrow> (\<And>x. s = Inr x \<Longrightarrow> post P (i x)) \<Longrightarrow> post P (case s of Inl e \<Rightarrow> h e | Inr x \<Rightarrow> i x)"
  by (auto simp: post_def bind_eq_Some_conv split: prod.split option.split sum.split)

lemma count_rp_inv:
  assumes inv: "fs_inv fs"
  shows "count_rp rp rid fs = Some (r, fs') \<Longrightarrow> fs_inv fs'"
proof -
  have "post (\<lambda>(r, fs'). fs_inv fs') (count_rp rp rid fs)"
    unfolding count_rp_def Let_def by (intro post_rules) (use inv write_found(2,3) in \<open>auto simp del: add_left_cancel\<close>)
  then show "count_rp rp rid fs = Some (r, fs') \<Longrightarrow> fs_inv fs'" by (simp add: post_def)
qed

lemma store_cred_inv:
  assumes w: "well_formed st"
  shows "credential_store env cid rp st = Some (r, st') \<Longrightarrow> well_formed st'"
proof -
  have n: "fs_inv fs2" if "file_new (cfs st) fi = (ef, fs)" "write_file fs ef bs = Some (a, fs1)"
    "(if b then count_rp p rid fs1 else Some (0, fs1)) = Some (c, fs2)" for fi ef fs bs a fs1 b p rid c fs2
    using write_found(3) [OF that(1,2) wf_fs [OF w]] that(3) count_rp_inv by (auto split: if_splits)
  have "post (\<lambda>(r, st'). well_formed st') (credential_store env cid rp st)"
    unfolding credential_store_def Let_def by (intro post_rules) (use w n in \<open>auto simp del: add_left_cancel\<close>)
  then show "credential_store env cid rp st = Some (r, st') \<Longrightarrow> well_formed st'" by (simp add: post_def)
qed

lemma uncount_inv: "uncount_rp rp js fs = Some fs' \<Longrightarrow> fs_inv fs \<Longrightarrow> fs_inv fs'"
proof (induction js arbitrary: fs)
  case (Cons j js)
  then show ?case
    by (auto simp: Let_def bind_eq_Some_conv simp del: add_left_cancel split: if_splits dest: write_found(2) delete_inv)
qed simp

lemma create_keeps_wf: "credential_create env now c buf st = Some (r, cid, st') \<Longrightarrow> well_formed st \<Longrightarrow> well_formed st'"
  by (auto simp: credential_create_def draw_def Let_def bind_eq_Some_conv split: if_splits)

section \<open>Credential management\<close>

lemma drop_hash_wf [simp]: "well_formed (drop_hash first st) = well_formed st" by (simp add: drop_hash_def)

lemma listing_keeps [keeping]: "well_formed st \<Longrightarrow> keeps (list_rp first st)" "well_formed st \<Longrightarrow> keeps (list_cred env first hash st)"
proof -
  assume w: "well_formed st"
  show "keeps (list_rp first st)" unfolding list_rp_def Let_def by (intro keeping) (use w in simp_all)
  have t: "keeps (tell_cred env first cred cid key hash st)" if "well_formed st" for cred cid key st
    unfolding tell_cred_def Let_def by (intro keeping) (use that in \<open>simp_all split: option.split\<close>)
  show "keeps (list_cred env first hash st)" unfolding list_cred_def Let_def by (intro keeping t) (use w in simp_all)
qed

lemma guard_keeps [keeping]: "well_formed st \<Longrightarrow> keeps k \<Longrightarrow> keeps (mgmt_guard env q payload denied st k)"
  unfolding mgmt_guard_def by (intro keeping)

lemma mgmt_keeps [keeping]:
  assumes w: "well_formed st"
  shows "keeps (cbor_cred_mgmt env junk now preview raw request st)"
proof -
  note f = wf_fs [OF w]
  have d: "keeps (delete_cred cid st)" for cid
  proof -
    have u: "fs_inv fs2" if "delete_file (cfs st) (search_dynamic_file (cfs st) fi) = Some (r, fs1)" "uncount_rp rp js fs1 = Some fs2" for fi r fs1 rp js fs2
      using uncount_inv [OF that(2)] delete_inv [OF that(1) f] by simp
    show ?thesis unfolding delete_cred_def Let_def
      by (intro keeping) (use w u delete_inv [OF _ f] in \<open>auto intro!: wf_parts simp del: add_left_cancel\<close>)
  qed
  have u: "keeps (update_cred env junk now cid uid q st)" for cid uid q
  proof -
    have s: "well_formed s2" if "credential_create env now c b st = Some (r, n, s1)" "credential_store env n rp s1 = Some (r2, s2)" for c b r n s1 rp r2 s2
      using store_cred_inv [OF create_keeps_wf [OF that(1) w] that(2)] .
    show ?thesis unfolding update_cred_def by (intro keeping) (use w s create_keeps_wf in \<open>auto\<close>)
  qed
  show ?thesis
    unfolding cbor_cred_mgmt_def cred_mgmt_def mgmt_metadata_def mgmt_rps_def mgmt_creds_def mgmt_delete_def mgmt_update_def Let_def
    by (intro keeping d u) (use w in \<open>auto intro!: keeping split: held_hash.split\<close>)
qed

section \<open>Making credentials\<close>

lemma flags_wf: "well_formed st \<Longrightarrow> getUserVerifiedFlagValue (paut st) = (b, pa) \<Longrightarrow> length (rp_id_hash pa) = 32"
    "well_formed st \<Longrightarrow> getUserPresentFlagValue (paut st) = (b, pa) \<Longrightarrow> length (rp_id_hash pa) = 32"
    "length (rp_id_hash (use_token pa)) = length (rp_id_hash pa)"
  using wf_hash [of st] by (auto simp: getUserVerifiedFlagValue_def getUserPresentFlagValue_def use_token_def Let_def clearUserPresentFlag_def
      clearUserVerifiedFlag_def clearPinUvAuthTokenPermissionsExceptLbw_def split: if_splits)

lemma make_auth_wf: "make_auth env q rp st = Some (e, st') \<Longrightarrow> well_formed st \<Longrightarrow> length rp = 32 \<Longrightarrow> well_formed st'"
proof -
  assume m: "make_auth env q rp st = Some (e, st')" and w: "well_formed st" and rp: "length rp = 32"
  have "post (\<lambda>(e, st'). well_formed st') (make_auth env q rp st)"
    unfolding make_auth_def Let_def by (intro post_rules) (use w rp in \<open>auto intro!: wf_parts dest: flags_wf(1)\<close>)
  then show ?thesis using m by (simp add: post_def)
qed

lemma make_presence_wf:
  assumes m: "make_presence now timeout q st = (e, f, st')" and w: "well_formed st"
  shows "well_formed st'"
proof (cases "mk_param q")
  case None
  then show ?thesis using m w wf_hash [OF w] by (auto simp: make_presence_def flags_wf(3) intro!: wf_parts split: if_splits)
next
  case (Some x)
  obtain b pa where p: "getUserPresentFlagValue (paut st) = (b, pa)" by fastforce
  then show ?thesis using m w Some flags_wf(2) [OF w p] by (auto simp: make_presence_def Let_def flags_wf(3) intro!: wf_parts split: if_splits)
qed

lemma counter_wf: "next_counter ctr st = Some st' \<Longrightarrow> well_formed st \<Longrightarrow> well_formed st'"
  using wf_fs [of st] by (auto simp: next_counter_def bind_eq_Some_conv intro!: wf_parts dest: write_found(1))

lemma sign_wf: "sign_or_empty env k h st = (sg, st') \<Longrightarrow> well_formed st' = well_formed st"
    "make_signature env self key h st = Some (sg, st') \<Longrightarrow> well_formed st' = well_formed st"
  by (auto simp: make_signature_def sign_or_empty_def bind_eq_Some_conv split: if_splits)

lemma make_answer_keeps [keeping]:
  assumes w: "well_formed st"
  shows "keeps (make_answer env nitrokey q ka rp flags curve algo cid st)"
proof -
  have p: "well_formed (st\<lparr>paut := pa\<rparr>)" if "getUserVerifiedFlagValue (paut st) = (b, pa)" for b pa
    using flags_wf(1) [OF w that] w by (intro wf_parts)
  have g: "well_formed s1" if "getUserVerifiedFlagValue (paut st) = (b, pa)" "make_signature env self key h (st\<lparr>paut := pa\<rparr>) = Some (sg, s1)" for b pa self key h sg s1
    using sign_wf(2) [OF that(2)] p [OF that(1)] by simp
  have s: "well_formed s2" if "getUserVerifiedFlagValue (paut st) = (b, pa)" "make_signature env self key h (st\<lparr>paut := pa\<rparr>) = Some (sg, s1)"
    "(if c then credential_store env cid rp s1 else Some (0, s1)) = Some (r, s2)" for b pa self key h sg s1 c r s2
    using g [OF that(1,2)] that(3) store_cred_inv by (auto split: if_splits)
  have n: "well_formed s3" if "getUserVerifiedFlagValue (paut st) = (b, pa)" "make_signature env self key h (st\<lparr>paut := pa\<rparr>) = Some (sg, s1)"
    "(if c then credential_store env cid rp s1 else Some (0, s1)) = Some (r, s2)" "next_counter ctr s2 = Some s3" for b pa self key h sg s1 c r s2 ctr s3
    using s [OF that(1-3)] counter_wf [OF that(4)] by simp
  show ?thesis unfolding make_answer_def Let_def
    by (intro keeping; (hypsubst+)?; (erule p | (rule g, assumption, assumption) | (rule s, assumption, assumption, assumption) |
      (rule n, assumption, assumption, assumption, assumption)))
qed

lemma make_credential_keeps [keeping]:
  assumes law: "ctap_law env" and w: "well_formed st"
  shows "keeps (cbor_make_credential env junk old nitrokey now timeout request st)"
proof -
  have a: "well_formed s1" if "make_auth env q (sha256 (lib env) x) st = Some (e, s1)" for q x e s1
    using make_auth_wf [OF that w] by (simp add: ctap_lawD(2) [OF law])
  have p: "well_formed s2" if "make_auth env q (sha256 (lib env) x) st = Some (e, s1)" "make_presence now timeout q s1 = (e2, f, s2)" for q x e s1 e2 f s2
    using make_presence_wf [OF that(2) a [OF that(1)]] .
  have c: "well_formed s3" if "make_auth env q (sha256 (lib env) x) st = Some (e, s1)" "make_presence now timeout q s1 = (e2, f, s2)"
    "credential_create env now cr b s2 = Some (r, n, s3)" for q x e s1 e2 f s2 cr b r n s3
    using create_keeps_wf [OF that(3) p [OF that(1,2)]] .
  have "keeps (make_credential env junk old nitrokey now timeout q st)" for q
    unfolding make_credential_def Let_def
    by (intro keeping; (hypsubst+)?; (rule w | erule a | (rule p, assumption, assumption) | (rule c, assumption, assumption, assumption)))
  then show ?thesis unfolding cbor_make_credential_def by (intro keeping w)
qed

section \<open>Assertions\<close>

lemma hmac_wf: "hmac_ext env past q flags cid st = Some (r, st') \<Longrightarrow> well_formed st \<Longrightarrow> well_formed st'"
proof -
  assume h: "hmac_ext env past q flags cid st = Some (r, st')" and w: "well_formed st"
  have "post (\<lambda>(r, st'). well_formed st') (hmac_ext env past q flags cid st)"
    unfolding hmac_ext_def Let_def by (intro post_rules) (use w in \<open>auto dest: encrypt_state\<close>)
  then show ?thesis using h by (simp add: post_def)
qed

lemma assert_ext_wf: "assert_ext env past q flags cred cid st = Some (r, st') \<Longrightarrow> well_formed st \<Longrightarrow> well_formed st'"
  using hmac_wf by (auto simp: assert_ext_def Let_def bind_eq_Some_conv split: if_splits)

lemma assert_answer_keeps [keeping]:
  assumes w: "well_formed st"
  shows "keeps (assert_answer env past q next1 rp flags n cred st)"
proof -
  have x: "well_formed s1" if "assert_ext env past q fl cred cid st = Some (r, s1)" for fl cid r s1 using assert_ext_wf [OF that w] .
  have g: "well_formed s2" if "assert_ext env past q fl cred cid st = Some (r, s1)" "sign_or_empty env k h s1 = (sg, s2)" for fl cid r s1 k h sg s2
    using sign_wf(1) [OF that(2)] x [OF that(1)] by simp
  have n: "well_formed s3" if "assert_ext env past q fl cred cid st = Some (r, s1)" "sign_or_empty env k h s1 = (sg, s2)" "next_counter ctr s2 = Some s3"
    for fl cid r s1 k h sg s2 ctr s3 using counter_wf [OF that(3) g [OF that(1,2)]] .
  show ?thesis unfolding assert_answer_def Let_def
    by (intro keeping; (hypsubst+)?; (rule w | erule x | (rule n, assumption, assumption, assumption)))
qed

text \<open>The replies of these commands carry the credentials that are kept.\<close>

definition keeps4 :: "ctap_env \<Rightarrow> assert_reply \<Rightarrow> bool" where
  "keeps4 env r \<longleftrightarrow> post (\<lambda>(c, v, st, pe). well_formed st \<and> pending_ok env pe) r"

lemma keeps4_pending: "keeps r \<Longrightarrow> pending_ok env pe \<Longrightarrow> keeps4 env (with_pending pe r)"
  by (auto simp: keeps4_def post_def keeps_def with_pending_def)

lemma assert_auth_wf: "assert_auth env q rp st = Some (e, st') \<Longrightarrow> well_formed st \<Longrightarrow> well_formed st'"
proof -
  assume m: "assert_auth env q rp st = Some (e, st')" and w: "well_formed st"
  have "post (\<lambda>(e, st'). well_formed st') (assert_auth env q rp st)"
    unfolding assert_auth_def Let_def by (intro post_rules) (use w in \<open>auto intro!: wf_parts dest: flags_wf(1)\<close>)
  then show ?thesis using m by (simp add: post_def)
qed

lemma assert_presence_wf:
  assumes m: "assert_presence now timeout q st = (e, f, st')" and w: "well_formed st"
  shows "well_formed st'"
proof (cases "ga_param q")
  case None
  then show ?thesis using m w wf_hash [OF w] by (auto simp: assert_presence_def flags_wf(3) intro!: wf_parts split: if_splits)
next
  case (Some x)
  obtain b pa where p: "getUserPresentFlagValue (paut st) = (b, pa)" by fastforce
  then show ?thesis using m w Some flags_wf(2) [OF w p] by (auto simp: assert_presence_def Let_def flags_wf(3) intro!: wf_parts split: if_splits)
qed

lemma first_choice_wf: "first_choice env now timeout q rp st = Some (c, st') \<Longrightarrow> well_formed st \<Longrightarrow> well_formed st'"
proof -
  assume m: "first_choice env now timeout q rp st = Some (c, st')" and w: "well_formed st"
  have a: "well_formed s1" if "assert_auth env q rp st = Some (e, s1)" for e s1 using assert_auth_wf [OF that w] .
  have p: "well_formed s2" if "assert_auth env q rp st = Some (e, s1)" "assert_presence now timeout q s1 = (e2, f, s2)" for e s1 e2 f s2
    using assert_presence_wf [OF that(2) a [OF that(1)]] .
  have "post (\<lambda>(c, st'). well_formed st') (first_choice env now timeout q rp st)"
    unfolding first_choice_def Let_def
    by (intro post_rules; (hypsubst+)?; (unfold prod.case)?; (rule w | erule a | (rule p, assumption, assumption)))
  then show ?thesis using m by (simp add: post_def)
qed

lemma get_assertion_keeps4:
  assumes w: "well_formed st" and ok: "pending_ok env pe"
  shows "keeps4 env (get_assertion env past now timeout q st pe)" "keeps4 env (cbor_get_next_assertion env past now st pe)"
proof -
  have c: "well_formed s1" if "first_choice env now timeout q rp st = Some (e, s1)" for rp e s1 using first_choice_wf [OF that w] .
  have f: "keeps (fail e st)" for e using w by (rule keeping)
  have pe: "pending_ok env (if keep then pe\<lparr>residentx := ga_allow q = [], credsx := cs, numberOfCredentialsx := n, datax := Some q,
      flagsx := flags, timerx := now, credentialCounter := 1, sharedx := shared\<rparr> else pe)"
    if "first_choice env now timeout q rp st = Some (Inr (cs, flags, keep, shared), s1)" for rp cs flags keep shared s1 n
    using choice_ok(2) [OF that] ok by (auto simp: pending_ok_def)
  note rules = post_rules keeps4_pending [unfolded keeps4_def]
  show "keeps4 env (get_assertion env past now timeout q st pe)"
    unfolding get_assertion_def keeps4_def Let_def by (intro rules keeping; (hypsubst+)?; (rule w | rule ok | erule c | erule pe))
  have k: "keeps (next_assertion env past st pe)" unfolding next_assertion_def by (intro keeping w)
  then have n: "well_formed s1" if "next_assertion env past st pe = Some (r, v, s1)" for r v s1 using that by (simp add: keeps_def)
  have d: "pending_ok env p'" if "drop_pending p = Some p'" for p p'
    using that by (auto simp: drop_pending_def pending_ok_def split: if_splits)
  have g: "keeps4 env (give_up e s1 pe)" if "well_formed s1" for e s1
    unfolding give_up_def keeps4_def by (intro rules keeping that) (erule d)
  have u: "pending_ok env p'" if "(if b then drop_pending (pe\<lparr>timerx := now, credentialCounter := n\<rparr>) else Some (pe\<lparr>timerx := now, credentialCounter := n\<rparr>)) = Some p'"
    for b n p' using that d ok by (auto simp: pending_ok_def split: if_splits)
  have p: "keeps4 env (with_pending p (Some (0, v, s1)))" if "well_formed s1" "pending_ok env p" for p v s1
    using that by (intro keeps4_pending) (simp_all add: keeps_def)
  show "keeps4 env (cbor_get_next_assertion env past now st pe)"
    unfolding cbor_get_next_assertion_def Let_def keeps4_def
    by (intro post_rules g [unfolded keeps4_def] p [unfolded keeps4_def]; (hypsubst+)?; (rule w | erule n | erule u))
qed

lemma assertion_keeps4:
  assumes "well_formed st" "pending_ok env pe"
  shows "keeps4 env (cbor_get_assertion env past now timeout request st pe)"
  using get_assertion_keeps4(1) [OF assms, of past now timeout] keeps_rules(1) [OF assms(1)] assms(2)
  by (auto simp: cbor_get_assertion_def keeps4_def intro!: post_rules keeps4_pending [unfolded keeps4_def])

section \<open>Start and reset\<close>

lemma search_ef_type:
  "search_ef_from ps i fi = Some r \<Longrightarrow> \<exists>k < length ps. r = Static (i + k) \<and> ftype (ps ! k) AND FILE_TYPE_INTERNAL_EF \<noteq> 0"
  by (induction ps arbitrary: i) (fastforce split: if_splits)+

lemma table_types: "f \<in> set file_table \<Longrightarrow> ftype f AND FILE_TYPE_INTERNAL_EF \<noteq> 0 \<Longrightarrow> ftype f AND FILE_DATA_FLASH = FILE_DATA_FLASH"
  by (auto simp: file_table_def internal_ef_def FILE_TYPE_INTERNAL_EF_def FILE_DATA_FLASH_def FILE_TYPE_DF_def FILE_TYPE_UNKNOWN_def)

text \<open>After a reset of the flash there are no files.\<close>

lemma reset_inv:
  assumes inv: "fs_inv fs"
  shows "fs_inv (reset_flash fs)" "fget (reset_flash fs) = Map.empty"
proof -
  define g where "g = (\<lambda>f :: nat file_t. if ftype f AND FILE_DATA_FLASH = FILE_DATA_FLASH then f\<lparr>data := None\<rparr> else f)"
  let ?e = "file_entries fs" and ?e' = "map g (butlast (file_entries fs)) @ [last (file_entries fs)]"
  have t: "map (data_update (\<lambda>_. None)) ?e = file_table" using inv by (simp add: fs_inv_def)
  then have ne: "?e \<noteq> []" by (auto simp: file_table_def)
  have fs': "file_entries (reset_flash fs) = ?e'" "store (reset_flash fs) = Map.empty" "dynamic_files (reset_flash fs) = 0"
    "dynamic_file (reset_flash fs) = dynamic_file fs" "pick (reset_flash fs) = pick fs"
    by (simp_all add: reset_flash_def soft_init_def g_def)
  have "data_update (\<lambda>_. None) (g f) = data_update (\<lambda>_. None) f" for f by (simp add: g_def)
  then have "map (data_update (\<lambda>_. None)) ?e' = map (data_update (\<lambda>_. None)) (butlast ?e @ [last ?e])" by (simp add: comp_def)
  then have t': "map (data_update (\<lambda>_. None)) ?e' = file_table" using t ne by simp
  have none: "data f = None" if l: "lookup (reset_flash fs) fi = Some r" and d: "deref_file (reset_flash fs) r = Some f" for fi r f
  proof -
    have "search_ef (reset_flash fs) fi = Some r" using l fs'(3) by (simp add: lookup_def search_dynamic_file_def split: option.splits)
    then obtain k where k: "k < length (butlast ?e)" "r = Static k" "ftype (map g (butlast ?e) ! k) AND FILE_TYPE_INTERNAL_EF \<noteq> 0"
      using search_ef_type [of "butlast ?e'" 0 fi r] fs'(1) by (auto simp: search_ef_def butlast_append)
    have f: "f = g (butlast ?e ! k)" using d k(1,2) fs'(1) by (auto simp: rd_def nth_append)
    have "data_update (\<lambda>_. None) (?e ! k) \<in> set file_table" using k(1) unfolding t [symmetric] by simp
    moreover have "butlast ?e ! k = ?e ! k" using k(1) by (simp add: nth_butlast)
    moreover have "ftype (g x) = ftype x" for x by (simp add: g_def)
    ultimately have "ftype (?e ! k) AND FILE_DATA_FLASH = FILE_DATA_FLASH" using table_types k(1,3) by fastforce
    then show ?thesis using f \<open>butlast ?e ! k = ?e ! k\<close> by (simp add: g_def)
  qed
  show "fs_inv (reset_flash fs)" unfolding fs_inv_def fs' dyn_fids_def
    using inv t' none by (auto simp: fs_inv_def)
  show "fget (reset_flash fs) = Map.empty"
    using none by (auto simp: fget_def fun_eq_iff bind_eq_None_conv)
qed

lemma fill_wf: "fill_file fi bs st = Some (r, st') \<Longrightarrow> well_formed st \<Longrightarrow> well_formed st'"
  using wf_fs [of st] by (auto simp: fill_file_def bind_eq_Some_conv intro!: wf_parts dest: write_found(1))

lemma scan_wf:
  assumes w: "well_formed st" and s: "scan_files env cert st = Some (r, st')"
  shows "well_formed st'"
proof -
  let ?P = "\<lambda>(r :: int option, st'). well_formed st'"
  have t: "post ?P (then_scan s k)" if "post ?P s" "\<And>st. well_formed st \<Longrightarrow> post ?P (k st)" for s k
    unfolding then_scan_def by (intro post_rules) (use that in \<open>auto simp: post_def\<close>)
  have f: "well_formed s2" if "fill_file fi bs (st\<lparr>draws := n\<rparr>) = Some (r, s2)" "well_formed st" for fi bs st n r s2
    using fill_wf [OF that(1)] that(2) by simp
  have 1: "post ?P (scan_keydev env st)" if "well_formed st" for st
    unfolding scan_keydev_def draw_def Let_def by (intro post_rules) (use that f in auto)
  have 2: "post ?P (scan_certdev env cert st)" if "well_formed st" for st
    unfolding scan_certdev_def draw_def Let_def by (intro post_rules) (use that f in auto)
  have 3: "post ?P (scan_counter st)" "post ?P (scan_largeblob st)" if "well_formed st" for st
    unfolding scan_counter_def scan_largeblob_def by (intro post_rules; use that fill_wf in auto)+
  have 4: "post ?P (scan_token env st)" if "well_formed st" for st
  proof -
    have h: "length (rp_id_hash (paut s2)) = 32 \<and> well_formed s2" if "(if e then do { (_, st) \<leftarrow> fill_file fi t (st\<lparr>draws := n\<rparr>); Some st } else Some st) = Some s2"
      for e fi t n s2 using that f \<open>well_formed st\<close> wf_hash by (auto simp: bind_eq_Some_conv split: if_splits)
    show ?thesis unfolding scan_token_def draw_def Let_def prod.case by (intro post_rules) (use h in \<open>auto intro!: wf_parts\<close>)
  qed
  have "post ?P (then_scan (then_scan (then_scan (then_scan (scan_keydev env st) (scan_certdev env cert)) scan_counter) (scan_token env)) scan_largeblob)"
    by (intro t 1 2 3 4 w)
  then show ?thesis using s by (auto simp: scan_files_def post_def bind_eq_Some_conv)
qed

lemma reset_keeps [keeping]:
  assumes w: "well_formed st"
  shows "keeps (cbor_reset env cert now timeout st)"
proof -
  have "well_formed (st\<lparr>cfs := reset_flash (cfs st)\<rparr>)" using w reset_inv(1) [OF wf_fs [OF w]] by (intro wf_parts)
  then show ?thesis unfolding cbor_reset_def by (intro keeping w) (auto dest: scan_wf)
qed

section \<open>The dispatcher\<close>

lemma command_keeps4:
  assumes law: "ctap_law env" and w: "well_formed st" and ok: "pending_ok env pe" and c: "cbor_command env a c request st pe = Some r"
  shows "keeps4 env r"
proof -
  have i: "keeps (cbor_get_info st)" unfolding cbor_get_info_def by (intro keeping w)
  have s: "keeps (cbor_selection timeout st)" for timeout unfolding cbor_selection_def by (intro keeping w)
  note k = make_credential_keeps [OF law w] i reset_keeps [OF w] cbor_client_pin_keeps [OF law w] s mgmt_keeps [OF w] cbor_config_keeps [OF w]
    cbor_large_blobs_keeps [OF w]
  show ?thesis using c k get_assertion_keeps4(2) [OF w ok] assertion_keeps4 [OF w ok] ok
    by (auto simp: cbor_command_def intro!: keeps4_pending split: if_splits)
qed

lemma parse_keeps:
  assumes law: "ctap_law env" and w: "well_formed st" and ok: "pending_ok env pe" and p: "cbor_parse env a cmd msg st pe = Some (c, m, st', pe')"
  shows "well_formed st' \<and> pending_ok env pe'"
proof -
  let ?P = "\<lambda>(c :: int, m :: bytes option, st', pe'). well_formed st' \<and> pending_ok env pe'"
  have f: "post ?P (refused b e s1 pe)" if "well_formed s1" for b e s1 unfolding refused_def by (intro post_rules) (use that ok in simp)
  have r: "post ?P (respond env r)" if "keeps4 env r" for r
    using that by (auto simp: respond_def keeps4_def post_def)
  have g: "well_formed (st\<lparr>cfs := fs\<rparr>)" if "cmd_read_config serial (cfs st) = Some (x, res, fs)" for serial x res fs
    using that w by (auto simp: cmd_read_config_def ok_def bind_eq_Some_conv)
  have v: "keeps4 env (with_pending pe (cbor_vendor env csr o1 request st))" for csr o1 request
    by (intro keeps4_pending vendor_keeps law w ok)
  have "post ?P (cbor_parse env a cmd msg st pe)"
    unfolding cbor_parse_def
    by (intro post_rules f r v command_keeps4 [OF law w ok] w; (hypsubst+)?; (assumption | erule g | (unfold prod.case, intro conjI ok, erule g)))
  then show ?thesis using p by (simp add: post_def)
qed

section \<open>The application\<close>

lemma derive_path_wf: "derive_path env new is h o1 st = Some (h', o2, st') \<Longrightarrow> well_formed st \<Longrightarrow> well_formed st'"
proof (induction "is" arbitrary: h o1 st)
  case (Cons i js)
  then show ?case by (auto simp: draw_def Let_def bind_eq_Some_conv split: if_splits)
qed simp

lemma derive_key_wf: "derive_key env app new h g key st = Some (r, h', k, st') \<Longrightarrow> well_formed st \<Longrightarrow> well_formed st'"
  by (auto simp: derive_key_def bind_eq_Some_conv split: if_splits dest: derive_path_wf)

lemma u2f_keeps:
  assumes w: "well_formed st"
  shows "post (\<lambda>(r, st'). well_formed st') (cmd_register env timeout c st)"
    "post (\<lambda>(r, st'). well_formed st') (cmd_authenticate env timeout c st)" "post (\<lambda>(r, st'). well_formed st') (cmd_version st)"
proof -
  let ?P = "\<lambda>(r :: int + u16 \<times> bytes, st'). well_formed st'"
  have s: "post ?P (sw x st)" if "well_formed st" for x st using that by (simp add: sw_def post_def)
  show "post ?P (cmd_version st)" using w by (simp add: cmd_version_def post_def)
  have a: "post ?P (sign_auth env appId chal fl key st)" for appId chal fl key
    unfolding sign_auth_def Let_def
    by (intro post_rules s) (use w wf_fs [OF w] write_found(1) in \<open>auto intro!: wf_parts\<close>)
  show "post ?P (cmd_authenticate env timeout c st)"
    unfolding cmd_authenticate_def by (intro post_rules s a w)
  have d: "well_formed (s1\<lparr>draws := n\<rparr>)" if "derive_key env app True h g True st = Some (r, h', k, s1)" for app h g r h' k s1 n
    using derive_key_wf [OF that w] by simp
  have d1: "well_formed s1" if "derive_key env app True h g True st = Some (r, h', k, s1)" for app h g r h' k s1
    using derive_key_wf [OF that w] .
  show "post ?P (cmd_register env timeout c st)"
    unfolding cmd_register_def Let_def
    by (intro post_rules s w; (hypsubst+)?; (unfold prod.case)?; (rule w | erule d | erule d1))
qed

lemma apdu_keeps:
  assumes law: "ctap_law env" and w: "well_formed st" and ok: "pending_ok env pe" and p: "fido_process_apdu env a c st pe = Some (r, st', pe')"
  shows "well_formed st' \<and> pending_ok env pe'"
proof -
  let ?P = "\<lambda>(r :: int + u16 \<times> bytes, st', pe'). well_formed st' \<and> pending_ok env pe'"
  have u: "post ?P (map_option (\<lambda>(r, st). (r, st, pe)) x)" if "post (\<lambda>(r, st'). well_formed st') x" for x
    using that ok by (auto simp: post_def)
  have c: "post ?P (cmd_cbor env a c st pe)"
    unfolding cmd_cbor_def by (intro post_rules) (use parse_keeps [OF law w ok] in auto)
  have x: "post ?P r" if "fido_cmd env a c st pe = Some r" for r
    using that c u u2f_keeps [OF w] by (auto simp: fido_cmd_def Let_def split: if_splits)
  have "post ?P (fido_process_apdu env a c st pe)"
    unfolding fido_process_apdu_def by (intro post_rules) (use w ok x in \<open>auto split: if_splits\<close>)
  then show ?thesis using p by (simp add: post_def)
qed

section \<open>All runs\<close>

text \<open>The static variables when the power comes, over the files that are found in the flash.\<close>

definition power_up :: "fs \<Rightarrow> ctap" where
  "power_up fs = \<lparr>cfs = fs, draws = 0, hkey = None,
     paut = \<lparr>token = [], in_use = False, permissions = 0, rp_id_hash = replicate 32 0, has_rp_id = False,
       user_present = False, user_verified = False\<rparr>,
     usage_timer = 0, initial_usage_time_limit = 0, user_present_time_limit = 0, needs_power_cycle = False, new_pin_mismatches = 0,
     expectedLength = 0, expectedNextOffset = 0, temp_lba = replicate 2048 0, keydev_dec = None, mse = None,
     rp_counter = 1, rp_total = 0, cred_counter = 1, cred_total = 0, rpIdHashx = NoHash, overran = 0\<rparr>"

text \<open>
  What can happen: the start, a message of the HID channel, an APDU, the observer of the token's timer, and
  the other applications, which change files as the file layer allows.
\<close>

inductive token_reach :: "ctap_env \<Rightarrow> ctap \<Rightarrow> pending \<Rightarrow> bool" for env where
  start: "fs_inv fs \<Longrightarrow> scan_files env cert (power_up fs) = Some (r, st) \<Longrightarrow> token_reach env st no_pending"
| hid: "token_reach env st pe \<Longrightarrow> cbor_thread_step env a stale cmd msg st pe = Some (bs, st', pe') \<Longrightarrow> token_reach env st' pe'"
| apdu: "token_reach env st pe \<Longrightarrow> fido_process_apdu env a c st pe = Some (r, st', pe') \<Longrightarrow> token_reach env st' pe'"
| timer: "token_reach env st pe \<Longrightarrow> token_reach env (snd (pinUvAuthTokenUsageTimerObserver now st)) pe"
| others: "token_reach env st pe \<Longrightarrow> fs_inv fs \<Longrightarrow> token_reach env (st\<lparr>cfs := fs\<rparr>) pe"

lemma choice_wf:
  assumes "well_formed x" and "well_formed z" and g: "\<And>y. well_formed y \<Longrightarrow> well_formed (g y)"
  shows "well_formed (snd (if a then (m :: int, x) else if b then let y = (if c then z else x) in if d y then (n, g y) else (k, y) else (k, x)))"
  using assms by (cases a; cases b; cases c; cases "d x"; cases "d z") (simp_all add: Let_def)

lemma timer_wf:
  assumes w: "well_formed st"
  shows "well_formed (snd (pinUvAuthTokenUsageTimerObserver now st))"
  unfolding pinUvAuthTokenUsageTimerObserver_def
proof (rule choice_wf [OF w])
  show "well_formed (st\<lparr>paut := clearUserPresentFlag (paut st)\<rparr>)"
    using w by (simp add: clearUserPresentFlag_def well_formed_def)
  show "well_formed (stopUsingPinUvAuthToken s1)" if "well_formed s1" for s1
    using that by (simp add: stopUsingPinUvAuthToken_def well_formed_def)
qed

lemma thread_parse:
  assumes "cbor_thread_step env a stale cmd msg st pe = Some (bs, st', pe')"
  obtains c m where "cbor_parse env a cmd msg st pe = Some (c, m, st', pe')"
    "bs = (case m of None \<Rightarrow> [stale] | Some m \<Rightarrow> if (of_int c :: u16) = 0 then m else [ucast (of_int c :: u16)])"
proof (cases "cbor_parse env a cmd msg st pe")
  case None
  then show ?thesis using assms by (simp add: cbor_thread_step_def)
next
  case (Some r)
  obtain c m s1 p1 where r: "r = (c, m, s1, p1)" by (cases r)
  have "s1 = st'" "p1 = pe'"
    "bs = (case m of None \<Rightarrow> [stale] | Some m \<Rightarrow> if (of_int c :: u16) = 0 then m else [ucast (of_int c :: u16)])"
    using assms unfolding cbor_thread_step_def Some r by (simp_all add: Let_def)
  then show ?thesis using that Some r by blast
qed

lemma reach_keeps: "token_reach env st pe \<Longrightarrow> ctap_law env \<Longrightarrow> well_formed st \<and> pending_ok env pe"
proof (induction rule: token_reach.induct)
  case (start fs cert r st)
  have "well_formed (power_up fs)" using start(1) by (simp add: well_formed_def power_up_def MAX_LARGE_BLOB_SIZE_def)
  then show ?case using scan_wf start(2) by (auto simp: pending_ok_def no_pending_def)
next
  case (hid st pe a stale cmd msg bs st' pe')
  from hid(2) obtain c m where p: "cbor_parse env a cmd msg st pe = Some (c, m, st', pe')" by (rule thread_parse)
  show ?case using parse_keeps [OF hid(4) _ _ p] hid(3,4) by blast
next
  case (apdu st pe a c r st' pe')
  then show ?case using apdu_keeps by blast
next
  case (timer st pe now)
  then show ?case using timer_wf by blast
next
  case (others st pe fs)
  then show ?case by (auto intro!: wf_parts)
qed

text \<open>
  C2: the state is well formed in every state that the token can get to after its start, whatever the host sends over both interfaces,
  whatever the clock and the button do and whatever the other applications store: the tables of the files keep their
  invariant, every array behind a static variable keeps its size, and the credentials that are kept for further assertions
  were made by this token and may be used with the flags that are kept.
\<close>

theorem always_well_formed:
  assumes "ctap_law env" and "token_reach env st pe"
  shows "well_formed st \<and> pending_ok env pe"
  using reach_keeps [OF assms(2,1)] .


lemma scan_full:
  assumes inv: "fs_inv (cfs st)" and h: "\<forall>fi \<in> factory_files. has (cfs st) fi"
  shows "scan_files env cert st = Some (CCID_OK, st\<lparr>paut := (paut st)\<lparr>token := content (cfs st) EF_AUTHTOKEN\<rparr>\<rparr>)"
proof -
  have i: "fs_inv (cfs (st\<lparr>paut := p\<rparr>))" for p using inv by simp
  have "scan_token env st = Some (None, st\<lparr>paut := (paut st)\<lparr>token := content (cfs st) EF_AUTHTOKEN\<rparr>\<rparr>)"
    using h pointed_content [OF inv all_static(2)] by (simp add: scan_token_def is_empty_spec [OF inv] all_static)
  then show ?thesis
    using h by (simp add: scan_files_def then_scan_def scan_keydev_def scan_certdev_def scan_counter_def scan_largeblob_def
        is_empty_spec [OF inv] is_empty_spec [OF i] all_static)
qed

theorem always_well_formed_witness:
  "\<exists>st. token_reach sample_ctap_env (snd (pinUvAuthTokenUsageTimerObserver 5 st)) no_pending \<and> cfs st = factory_fs \<and>
     well_formed (snd (pinUvAuthTokenUsageTimerObserver 5 st))"
proof -
  let ?st = "power_up factory_fs"
  have h: "\<forall>fi \<in> factory_files. has (cfs ?st) fi" "fs_inv (cfs ?st)"
    by (auto simp: fid_defs factory_files_def has_def factory_fs factory_list_def empty_large_blob_def power_up_def)
  define st where "st = ?st\<lparr>paut := (paut ?st)\<lparr>token := content (cfs ?st) EF_AUTHTOKEN\<rparr>\<rparr>"
  have "token_reach sample_ctap_env st no_pending"
    using token_reach.start [OF factory_fs(1) scan_full [OF h(2,1), of sample_ctap_env "\<lambda>_ _. Inl 1"]] by (simp only: st_def)
  then have t: "token_reach sample_ctap_env (snd (pinUvAuthTokenUsageTimerObserver 5 st)) no_pending" by (rule token_reach.timer)
  have "cfs st = factory_fs" by (simp add: st_def power_up_def)
  then show ?thesis using t always_well_formed [OF sample_ctap_law t] by blast
qed

end
