(* ===== verification/MainProps.thy ===== *)
theory MainProps
  imports WellFormed
begin

text \<open>
  Properties of the whole authenticator: the status byte that the host gets, and what a reset leaves behind.
\<close>

section \<open>Reset\<close>

text \<open>What a start may write to a file with random numbers that were drawn from the \<open>n\<close>-th draw on.\<close>

definition fresh_file :: "ctap_env \<Rightarrow> (nat \<Rightarrow> bytes \<Rightarrow> int + bytes) \<Rightarrow> nat \<Rightarrow> u16 \<Rightarrow> bytes \<Rightarrow> bool" where
  "fresh_file env cert n fi c \<longleftrightarrow>
     fi = EF_KEY_DEV \<and> (\<exists>k \<ge> n. c = dropWhile (\<lambda>b. b = 0) (rand env k 32)) \<or>
     fi = EF_EE_DEV \<and> (\<exists>k \<ge> n. \<exists>d. cert d (rand env k 20) = Inr c) \<or>
     fi = EF_COUNTER \<and> c = [0, 0, 0, 0] \<or>
     fi = EF_AUTHTOKEN \<and> (\<exists>k \<ge> n. c = rand env k 32) \<or>
     fi = EF_LARGEBLOB \<and> c = empty_large_blob"

lemma fresh_in: "fresh_file env cert n fi c \<Longrightarrow> fi \<in> factory_files" by (auto simp: fresh_file_def)

definition only_fresh :: "ctap_env \<Rightarrow> (nat \<Rightarrow> bytes \<Rightarrow> int + bytes) \<Rightarrow> nat \<Rightarrow> ctap \<Rightarrow> bool" where
  "only_fresh env cert n st \<longleftrightarrow> fs_inv (cfs st) \<and> n \<le> draws st \<and> (\<forall>fi c. fget (cfs st) fi = Some c \<longrightarrow> fresh_file env cert n fi c)"

lemma fill_fresh:
  assumes f: "fill_file fi bs st = Some (r, st')" and s: "only_fresh env cert n st" and p: "fresh_file env cert n fi bs"
    and l: "length bs \<le> 4096"
  shows "only_fresh env cert n st'"
proof -
  have inv: "fs_inv (cfs st)" using s by (simp add: only_fresh_def)
  have st: "\<not> dyn_fid fi" using p by (auto simp: fresh_file_def all_static)
  obtain rc fs' where w: "write_file (cfs st) (lookup (cfs st) fi) bs = Some (rc, fs')" "fs_inv fs'"
    "fget fs' = (fget (cfs st))(fi \<mapsto> bs) \<or> fget fs' = (fget (cfs st))(fi := None)"
    using write_ref [OF inv l, of fi] by auto
  have "st' = st\<lparr>cfs := fs'\<rparr>" using f w(1) by (simp add: fill_file_def static_lookup [OF inv st])
  moreover have "fresh_file env cert n fj c" if "fget fs' fj = Some c" for fj c
    using w(3) that s p by (auto simp: only_fresh_def split: if_splits)
  ultimately show ?thesis using w(2) s by (simp add: only_fresh_def)
qed


lemma scan_fresh:
  assumes s: "only_fresh env cert n st" and law: "ctap_law env" "cert_law cert" and r: "scan_files env cert st = Some (r, st')"
  shows "only_fresh env cert n st'"
proof -
  let ?P = "\<lambda>(r :: int option, st'). only_fresh env cert n st'"
  have t: "post ?P (then_scan s k)" if "post ?P s" "\<And>st. only_fresh env cert n st \<Longrightarrow> post ?P (k st)" for s k
    unfolding then_scan_def by (intro post_rules) (use that in \<open>auto simp: post_def\<close>)
  have d: "only_fresh env cert n (st\<lparr>draws := draws st + 1\<rparr>)" if "only_fresh env cert n st" for st using that by (simp add: only_fresh_def)
  have m: "n \<le> draws st" if "only_fresh env cert n st" for st using that by (simp add: only_fresh_def)
  note l = ctap_lawD [OF law(1)]
  have 1: "post ?P (scan_keydev env st)" if o: "only_fresh env cert n st" for st
  proof -
    have "length (dropWhile (\<lambda>b. b = 0) (rand env (draws st) 32)) \<le> 4096"
      using length_dropWhile_le [of "\<lambda>b. b = 0" "rand env (draws st) 32"] by (simp add: l)
    then have "only_fresh env cert n s2" if "fill_file EF_KEY_DEV (dropWhile (\<lambda>b. b = 0) (rand env (draws st) 32)) (st\<lparr>draws := draws st + 1\<rparr>) = Some (r, s2)"
      for r s2 using fill_fresh [OF that d [OF o]] m [OF o] by (auto simp: fresh_file_def)
    then show ?thesis unfolding scan_keydev_def draw_def Let_def prod.case by (intro post_rules) (use o in auto)
  qed
  have 2: "post ?P (scan_certdev env cert st)" if o: "only_fresh env cert n st" for st
  proof -
    have "only_fresh env cert n s2" if "cert k (rand env (draws st) 20) = Inr c" "fill_file EF_EE_DEV c (st\<lparr>draws := draws st + 1\<rparr>) = Some (r, s2)"
      for k c r s2 using fill_fresh [OF that(2) d [OF o]] that(1) m [OF o] law(2) by (auto simp: fresh_file_def cert_law_def)
    then show ?thesis unfolding scan_certdev_def draw_def Let_def prod.case by (intro post_rules) (use o d in auto)
  qed
  have 3: "post ?P (scan_counter st)" "post ?P (scan_largeblob st)" if o: "only_fresh env cert n st" for st
    unfolding scan_counter_def scan_largeblob_def
    by (intro post_rules; use o fill_fresh [OF _ o] in \<open>auto simp: fresh_file_def empty_large_blob_def\<close>)+
  have 4: "post ?P (scan_token env st)" if o: "only_fresh env cert n st" for st
  proof -
    have "only_fresh env cert n s2" if "fill_file EF_AUTHTOKEN (rand env (draws st) 32) (st\<lparr>draws := draws st + 1\<rparr>) = Some (r, s2)"
      for r s2 using fill_fresh [OF that d [OF o]] m [OF o] by (auto simp: fresh_file_def l)
    then have h: "only_fresh env cert n s2"
      if "(if e then do { (_, st) \<leftarrow> fill_file EF_AUTHTOKEN (rand env (draws st) 32) (st\<lparr>draws := draws st + 1\<rparr>); Some st } else Some st) = Some s2"
      for e s2 using that o by (auto simp: bind_eq_Some_conv split: if_splits)
    have u: "only_fresh env cert n (s2\<lparr>paut := p\<rparr>) = only_fresh env cert n s2" for s2 p by (simp add: only_fresh_def)
    show ?thesis unfolding scan_token_def draw_def Let_def prod.case by (intro post_rules) (use h u in auto)
  qed
  have "post ?P (then_scan (then_scan (then_scan (then_scan (scan_keydev env st) (scan_certdev env cert)) scan_counter) (scan_token env)) scan_largeblob)"
    by (intro t 1 2 3 4 s)
  then show ?thesis using r by (auto simp: scan_files_def post_def bind_eq_Some_conv)
qed

lemma scan_good:
  assumes inv: "fs_inv (cfs st)" and law: "ctap_law env" "cert_law cert"
  shows "\<exists>r st'. scan_files env cert st = Some (r, st') \<and> filled st st'"
proof -
  have "good_step (then_scan (then_scan (then_scan (then_scan (scan_keydev env st) (scan_certdev env cert)) scan_counter) (scan_token env)) scan_largeblob) st"
    by (rule good_then good_then scan_steps [OF inv law] scan_steps [OF filled_inv law] | assumption)+
  then show ?thesis by (auto simp: good_step_def scan_files_def)
qed




section \<open>The status byte\<close>

lemma low_byte: "(ucast (of_int c :: u16) :: u8) = of_int c"
  by (rule bit_word_eqI) (simp add: bit_simps)

lemma parse_zero:
  assumes p: "cbor_parse env a cmd msg st pe = Some (c, Some m, st', pe')" and n: "cmd \<noteq> 0xC2"
  shows "\<exists>rest. m = 0 # rest"
proof -
  let ?P = "\<lambda>(c :: int, m :: bytes option, st' :: ctap, pe' :: pending). case m of None \<Rightarrow> True | Some m \<Rightarrow> \<exists>rest. m = 0 # rest"
  have f: "post ?P (refused b e s1 p1)" for b e s1 p1 by (simp add: refused_def post_def)
  have r: "post ?P (respond env r)" for r by (auto simp: respond_def post_def split: option.split)
  have "post ?P (cbor_parse env a cmd msg st pe)"
    unfolding cbor_parse_def by (intro post_rules f r) (use n in simp)
  then show ?thesis using p by (simp add: post_def)
qed

text \<open>
  C29: the first byte that the host gets for a command of the authenticator is the code of the handler modulo 256, and behind it there is
  an answer only when the code is a multiple of 65536.  So an error whose code ends in eight zero bits, as those that the CBOR
  library reports for a text that is longer than its buffer, reads as success with an empty answer.
\<close>

theorem status_byte:
  assumes p: "cbor_parse env a cmd msg st pe = Some (c, Some m, st', pe')" and n: "cmd \<noteq> 0xC2"
  shows "\<exists>rest. cbor_thread_step env a stale cmd msg st pe = Some (of_int c # rest, st', pe') \<and>
    ((of_int c :: u8) = 0 \<longleftrightarrow> c mod 256 = 0) \<and> (rest = [] \<or> c mod 65536 = 0)"
proof -
  obtain rest where m: "m = 0 # rest" using parse_zero [OF p n] by blast
  have z: "(of_int c :: u8) = 0 \<longleftrightarrow> c mod 256 = 0" "(of_int c :: u16) = 0 \<longleftrightarrow> c mod 65536 = 0"
    by (simp_all add: word_of_int_eq_0_iff take_bit_eq_mod dvd_eq_mod_eq_0)
  have "c mod 65536 mod 256 = c mod 256" by (rule mod_mod_cancel) simp
  then have h: "c mod 256 = 0" if "c mod 65536 = 0" using that by simp
  then show ?thesis using p m z h low_byte [of c] by (auto simp: cbor_thread_step_def Let_def)
qed


text \<open>A request whose site has a key of 65 letters.\<close>

definition long_key :: cbor where
  "long_key = CMap [CUint 1, CBytes [1], CUint 2, CMap [CText (replicate 65 0x61), CText []]]"

definition sample_around :: around where
  "sample_around = \<lparr>at_time = 0, at_timeout = False, at_stack = (\<lambda>_. 0), at_cred = no_credential, at_salts = [], at_raw = [],
     at_nitrokey = False, at_serial = [], at_cert = (\<lambda>_ _. Inr [0x30]), at_csr = (\<lambda>_. None)\<rparr>"

lemma long_key_fails:
  "cbor_make_credential env junk old nk now timeout long_key st = Some (cbor_out_of_memory, None, st)"
proof -
  have t: "field_key [CText (replicate 65 0x61), CText []] k = Inl (Err cbor_out_of_memory)" for k :: "bytes \<Rightarrow> cbor list \<Rightarrow> cerr + make_req option"
    using text_key [of "[CText []]" "replicate 65 0x61" k] by simp
  have "rp_loop q [CText (replicate 65 0x61), CText []] = Inl (Err cbor_out_of_memory)" for q by (simp only: rp_loop.simps t)
  then show ?thesis by (simp add: cbor_make_credential_def long_key_def parse_map_end_def key_error_def reply_defs )
qed

theorem status_byte_witness:
  "cbor_parse sample_ctap_env sample_around 0x90 (1 # toy_encode long_key) (sample_ctap factory_fs) no_pending =
     Some (cbor_out_of_memory, Some [0], sample_ctap factory_fs, no_pending) \<and>
   (\<exists>rest. cbor_thread_step sample_ctap_env sample_around 7 0x90 (1 # toy_encode long_key) (sample_ctap factory_fs) no_pending =
     Some (0 # rest, sample_ctap factory_fs, no_pending))"
proof -
  have s: "cap_supported factory_fs CAP_FIDO2 = Some True"
    by (simp add: cap_supported_spec [OF factory_fs(1)] factory_fs(2) factory_list_def fid_defs)
  have d: "decode sample_ctap_env (toy_encode long_key) = long_key"
    using toy_decode_encode [of long_key "[]"] by (simp add: sample_ctap_env_def long_key_def)
  have p: "cbor_parse sample_ctap_env sample_around 0x90 (1 # toy_encode long_key) (sample_ctap factory_fs) no_pending =
     Some (cbor_out_of_memory, Some [0], sample_ctap factory_fs, no_pending)"
    by (simp add: cbor_parse_def s d CTAPHID_CBOR_CMD_def cbor_command_def CTAP_MAKE_CREDENTIAL_def long_key_fails respond_def with_pending_def)
  then show ?thesis using status_byte [OF p, of 7] by (auto simp: cbor_out_of_memory_def)
qed

end
