(* ===== verification/Ccid.thy ===== *)
theory Ccid
  imports Apdu
begin

text \<open>
  The smart card interface, \<^verbatim>\<open>pico-keys-sdk/src/usb/ccid/ccid.c\<close>, with the buffers of \<^verbatim>\<open>usb.c\<close> for it.  A message has a head of ten
  bytes: type, length (four bytes), slot, sequence number, three bytes of parameters or status.  The transmit buffer is the one of the APDU
  layer (\<open>tx\<close> in \<open>capdu\<close>); pointers into it are offsets.  What the USB stack accepts of a piece is in
  \<open>ccid_env\<close>; the pieces that it has accepted are collected in \<open>sent\<close>, and the calls of \<^verbatim>\<open>card_start\<close> and \<^verbatim>\<open>card_exit\<close>, which
  concern the other core, in \<open>card_calls\<close>.
\<close>

section \<open>Constants and state\<close>

definition CCID_SET_PARAMS :: u8 where "CCID_SET_PARAMS = 0x61"
definition CCID_POWER_ON :: u8 where "CCID_POWER_ON = 0x62"
definition CCID_POWER_OFF :: u8 where "CCID_POWER_OFF = 0x63"
definition CCID_SLOT_STATUS :: u8 where "CCID_SLOT_STATUS = 0x65"
definition CCID_GET_PARAMS :: u8 where "CCID_GET_PARAMS = 0x6C"
definition CCID_RESET_PARAMS :: u8 where "CCID_RESET_PARAMS = 0x6D"
definition CCID_XFR_BLOCK :: u8 where "CCID_XFR_BLOCK = 0x6F"
definition CCID_DATA_BLOCK_RET :: u8 where "CCID_DATA_BLOCK_RET = 0x80"
definition CCID_SLOT_STATUS_RET :: u8 where "CCID_SLOT_STATUS_RET = 0x81"
definition CCID_PARAMS_RET :: u8 where "CCID_PARAMS_RET = 0x82"
definition CCID_CMD_STATUS_TIMEEXT :: u8 where "CCID_CMD_STATUS_TIMEEXT = 0x80"

lemmas ccid_types = CCID_SET_PARAMS_def CCID_POWER_ON_def CCID_POWER_OFF_def CCID_SLOT_STATUS_def CCID_GET_PARAMS_def
  CCID_RESET_PARAMS_def CCID_XFR_BLOCK_def CCID_DATA_BLOCK_RET_def CCID_SLOT_STATUS_RET_def CCID_PARAMS_RET_def
  CCID_CMD_STATUS_TIMEEXT_def

datatype card_call = Card_start | Card_exit

record ccid =
  c_rx :: bytes
  c_woff :: nat
  capdu :: apdu
  ccid_response :: nat
  c_wlen :: u16
  c_roff :: u16
  ccid_status :: u8
  c_timeout :: u32
  card_calls :: "card_call list"
  sent :: "bytes list"

text \<open>\<open>accepts\<close>: how much of a piece the stack takes; \<open>flushed\<close>: what \<^verbatim>\<open>tud_vendor_flush\<close> returns; \<open>atr\<close>: the bytes behind the length in \<^verbatim>\<open>atr_fido\<close>.\<close>

record ccid_env =
  accepts :: "bytes \<Rightarrow> nat"
  flushed :: nat
  atr :: bytes

definition ctx :: "ccid \<Rightarrow> bytes" where "ctx st = tx (capdu st)"

definition put_ctx :: "nat \<Rightarrow> bytes \<Rightarrow> ccid \<Rightarrow> ccid option" where
  "put_ctx off bs st = map_option (\<lambda>t. st\<lparr>capdu := (capdu st)\<lparr>tx := t\<rparr>\<rparr>) (wr_slice (ctx st) off bs)"

definition atr_fido :: bytes where
  "atr_fido = [0x3b, 0xfd, 0x13, 0x00, 0x00, 0x81, 0x31, 0xfe, 0x15, 0x80, 0x73, 0xc0, 0x21, 0xc0, 0x57, 0x59,
     0x75, 0x62, 0x69, 0x4b, 0x65, 0x79, 0x40]"

section \<open>Buffers\<close>

text \<open>\<^verbatim>\<open>usb_rx\<close> with a \<open>NULL\<close> buffer reads from the stack: \<open>buf\<close> is what it holds.\<close>

definition ccid_rx :: "bytes \<Rightarrow> ccid \<Rightarrow> nat \<times> ccid" where
  "ccid_rx buf st =
     (let n = min (4096 - c_woff st) (length buf) in
      if n > 0
      then (n, st\<lparr>c_rx := take (c_woff st) (c_rx st) @ take n buf @ drop (c_woff st + n) (c_rx st), c_woff := c_woff st + n\<rparr>)
      else (n, st))"

definition tud_vendor_rx_cb :: "bytes \<Rightarrow> ccid \<Rightarrow> ccid" where "tud_vendor_rx_cb buf st = snd (ccid_rx buf st)"

definition driver_write_ccid :: "ccid_env \<Rightarrow> bytes \<Rightarrow> ccid \<Rightarrow> nat \<times> ccid" where
  "driver_write_ccid e buf st =
     (let r = accepts e buf; st = st\<lparr>sent := sent st @ [take r buf]\<rparr> in (if r > 0 then max (flushed e) r else r, st))"

definition ccid_usb_write_offset :: "ccid_env \<Rightarrow> u16 \<Rightarrow> u16 \<Rightarrow> ccid \<Rightarrow> ccid option" where
  "ccid_usb_write_offset e len off st = do {
     let len = (if len > 4096 + 64 then 4096 + 64 else len);
     buf \<leftarrow> rd_slice (ctx st) (unat off) (min (unat len) 64);
     let (w, st) = driver_write_ccid e buf st;
     Some (st\<lparr>c_wlen := len - of_nat w, c_roff := off + of_nat w\<rparr>)
   }"

definition ccid_usb_write_flush :: "ccid_env \<Rightarrow> ccid \<Rightarrow> ccid option" where
  "ccid_usb_write_flush e st =
     (if c_wlen st > 0 then do {
        buf \<leftarrow> rd_slice (ctx st) (unat (c_roff st)) (min (unat (c_wlen st)) 64);
        let (w, st) = driver_write_ccid e buf st;
        Some (st\<lparr>c_roff := c_roff st + of_nat w, c_wlen := c_wlen st - of_nat w\<rparr>)
      } else Some st)"

definition tud_vendor_tx_cb :: "ccid_env \<Rightarrow> ccid \<Rightarrow> ccid option" where "tud_vendor_tx_cb e st = ccid_usb_write_flush e st"

definition ccid_write_offset :: "ccid_env \<Rightarrow> u16 \<Rightarrow> u16 \<Rightarrow> ccid \<Rightarrow> ccid option" where
  "ccid_write_offset e sz off st = ccid_usb_write_offset e (sz + 10) off st"

definition ccid_write :: "ccid_env \<Rightarrow> u16 \<Rightarrow> ccid \<Rightarrow> ccid option" where "ccid_write e sz st = ccid_write_offset e sz 0 st"

section \<open>Messages\<close>

definition driver_init_ccid :: "ccid \<Rightarrow> ccid" where "driver_init_ccid st = st\<lparr>ccid_response := 0, c_timeout := 1500\<rparr>"

text \<open>The head of a response, at \<^verbatim>\<open>ccid_response\<close>, with the sequence number of the request in the receive buffer.\<close>

definition put_head :: "u8 \<Rightarrow> nat \<Rightarrow> u8 \<Rightarrow> nat \<Rightarrow> ccid \<Rightarrow> ccid option" where
  "put_head t len r0 r1 st = do {
     s \<leftarrow> rd (c_rx st) 6;
     put_ctx (ccid_response st) (t # le_bytes 4 len @ [0, s, r0] @ le_bytes 2 r1) st
   }"

definition put_data :: "bytes \<Rightarrow> ccid \<Rightarrow> ccid option" where "put_data bs st = put_ctx (ccid_response st + 10) bs st"

definition driver_exec_finished_ccid :: "ccid_env \<Rightarrow> nat \<Rightarrow> ccid \<Rightarrow> ccid option" where
  "driver_exec_finished_ccid e size_next st = do {
     st \<leftarrow> put_head CCID_DATA_BLOCK_RET size_next (ccid_status st) 0 st;
     ccid_write e (of_nat size_next) st
   }"

definition driver_exec_finished_cont_ccid :: "ccid_env \<Rightarrow> nat \<Rightarrow> nat \<Rightarrow> ccid \<Rightarrow> ccid option" where
  "driver_exec_finished_cont_ccid e size_next off st = do {
     st \<leftarrow> (if off < 10 then None else put_head CCID_DATA_BLOCK_RET size_next (ccid_status st) 0 (st\<lparr>ccid_response := off - 10\<rparr>));
     ccid_write_offset e (of_nat size_next) (of_nat (off - 10)) st
   }"

definition driver_exec_timeout_ccid :: "ccid_env \<Rightarrow> ccid \<Rightarrow> ccid option" where
  "driver_exec_timeout_ccid e st = do {
     st \<leftarrow> put_head CCID_DATA_BLOCK_RET 0 CCID_CMD_STATUS_TIMEEXT 0 st;
     ccid_write e 0 st
   }"

text \<open>The data of a response begin behind the head.\<close>

definition driver_prepare_response_ccid :: "bytes \<Rightarrow> nat \<times> bytes" where "driver_prepare_response_ccid t = (10, t)"

text \<open>
  An APDU.  A command for the card makes the response anew; GET RESPONSE sends the next part from where it lies,
  with its head over bytes that were sent before, and after the last part the response is made anew too.
\<close>

definition xfr_block :: "ccid_env \<Rightarrow> nat \<Rightarrow> ccid \<Rightarrow> (nat \<times> ccid) option" where
  "xfr_block e len st = do {
     let gr = rdata_gr (capdu st);
     (n, out, a) \<leftarrow> apdu_process driver_prepare_response_ccid (drop 10 (c_rx st)) len (capdu st);
     let st = st\<lparr>capdu := a\<rparr>;
     case out of
       None \<Rightarrow> Some (n, st\<lparr>ccid_response := 0\<rparr>)
     | Some bs \<Rightarrow> do {
         st \<leftarrow> driver_exec_finished_cont_ccid e (length bs) gr st;
         Some (n, if rlen a = 0 then st\<lparr>ccid_response := 0\<rparr> else st)
       }
   }"

definition ccid_params :: bytes where "ccid_params = [0x11, 0x10, 0xFE, 0x55, 0x03, 0xFE, 0]"

definition ccid_message :: "ccid_env \<Rightarrow> u8 \<Rightarrow> nat \<Rightarrow> ccid \<Rightarrow> (nat \<times> ccid) option" where
  "ccid_message e t len st =
     (if t = CCID_SLOT_STATUS then do {
        st \<leftarrow> put_head CCID_SLOT_STATUS_RET 0 (ccid_status st) 0 st;
        st \<leftarrow> ccid_write e 0 st;
        Some (0, st)
      }
      else if t = CCID_POWER_ON then do {
        let n = length (atr e);
        st \<leftarrow> put_head CCID_DATA_BLOCK_RET n 0 0 st;
        st \<leftarrow> put_data (atr e) st;
        st \<leftarrow> ccid_write e (of_nat n) (st\<lparr>card_calls := card_calls st @ [Card_start], ccid_status := 0\<rparr>);
        Some (0, st)
      }
      else if t = CCID_POWER_OFF then do {
        let st = (if ccid_status st = 0 then st\<lparr>card_calls := card_calls st @ [Card_exit]\<rparr> else st);
        st \<leftarrow> put_head CCID_SLOT_STATUS_RET 0 1 0 (st\<lparr>ccid_status := 1\<rparr>);
        st \<leftarrow> ccid_write e 0 st;
        Some (0, st)
      }
      else if t = CCID_SET_PARAMS \<or> t = CCID_GET_PARAMS \<or> t = CCID_RESET_PARAMS then do {
        st \<leftarrow> put_head CCID_PARAMS_RET (length ccid_params) (ccid_status st) 0x0100 st;
        st \<leftarrow> put_data ccid_params st;
        st \<leftarrow> ccid_write e (of_nat (length ccid_params)) st;
        Some (0, st)
      }
      else if t = CCID_XFR_BLOCK then xfr_block e len st
      else Some (0, st))"

text \<open>The bytes of the buffer are dropped after a message, whatever follows it there.\<close>

definition driver_process_usb_packet_ccid :: "ccid_env \<Rightarrow> nat \<Rightarrow> ccid \<Rightarrow> (nat \<times> ccid) option" where
  "driver_process_usb_packet_ccid e rx_read st =
     (if rx_read < 10 then Some (0, st)
      else do {
        let st = driver_init_ccid st;
        l \<leftarrow> rd_slice (c_rx st) 1 4;
        if le_val l \<le> rx_read - 10 then do {
          t \<leftarrow> rd (c_rx st) 0;
          (n, st) \<leftarrow> ccid_message e t (le_val l) st;
          Some (n, st\<lparr>c_woff := 0\<rparr>)
        } else Some (0, st)
      })"

end
