(* ===== verification/CcidProps.thy ===== *)
theory CcidProps
  imports Ccid
begin

text \<open>
  What the smart card interface does: which answers the host gets, that they arrive whole in pieces of any size, and that a head with a
  length beyond the buffer blocks the interface.
\<close>

section \<open>Delivery\<close>

text \<open>A stack that takes something of each piece, and counts no more than that.\<close>

definition stack_ok :: "ccid_env \<Rightarrow> bool" where
  "stack_ok e \<longleftrightarrow> (\<forall>buf. buf \<noteq> [] \<longrightarrow> 0 < accepts e buf \<and> accepts e buf \<le> length buf \<and> flushed e \<le> accepts e buf)"

fun flushes :: "ccid_env list \<Rightarrow> ccid \<Rightarrow> ccid option" where
  "flushes [] st = Some st"
| "flushes (e # es) st = do { st \<leftarrow> ccid_usb_write_flush e st; flushes es st }"

text \<open>Of the bytes \<open>bs\<close> at \<open>off\<close> the first \<open>k\<close> have been sent, behind \<open>old\<close>.\<close>

definition under_way :: "bytes \<Rightarrow> bytes \<Rightarrow> nat \<Rightarrow> nat \<Rightarrow> ccid \<Rightarrow> bool" where
  "under_way old bs off k st \<longleftrightarrow> k \<le> length bs \<and> off + length bs \<le> 4160 \<and> rd_slice (ctx st) off (length bs) = Some bs \<and>
     c_wlen st = of_nat (length bs - k) \<and> c_roff st = of_nat (off + k) \<and> concat (sent st) = old @ take k bs"

lemma small16: "n \<le> 4160 \<Longrightarrow> unat (of_nat n :: u16) = n"
  by (simp add: unat_of_nat take_bit_eq_mod)

lemma rd_slice_part: "rd_slice b off n = Some s \<Longrightarrow> i + j \<le> n \<Longrightarrow> rd_slice b (off + i) j = Some (take j (drop i s))"
  by (auto simp: rd_slice_def drop_take take_take min_def add.commute split: if_splits)

lemma driver_write_ok:
  assumes "stack_ok e" and "length buf = n" and "0 < n"
  obtains r where "0 < r" "r \<le> n" "driver_write_ccid e buf st = (r, st\<lparr>sent := sent st @ [take r buf]\<rparr>)"
  using assms by (auto simp: stack_ok_def driver_write_ccid_def Let_def max_def)

lemma flush_progress:
  assumes u: "under_way old bs off k st" and e: "stack_ok e"
  shows "\<exists>k' st'. ccid_usb_write_flush e st = Some st' \<and> under_way old bs off k' st' \<and> (k < length bs \<longrightarrow> k < k') \<and> k \<le> k' \<and>
     st' = st\<lparr>c_roff := c_roff st', c_wlen := c_wlen st', sent := sent st'\<rparr>"
proof (cases "k = length bs")
  case True
  then have "ccid_usb_write_flush e st = Some st" using u by (simp add: under_way_def ccid_usb_write_flush_def)
  then show ?thesis using u True by auto
next
  case False
  then have k: "k < length bs" "off + length bs \<le> 4160" using u by (auto simp: under_way_def)
  let ?n = "min (length bs - k) 64"
  have n: "unat (c_wlen st) = length bs - k" "unat (c_roff st) = off + k" "c_wlen st > 0"
    using u k small16 [of "length bs - k"] small16 [of "off + k"] by (auto simp: under_way_def word_less_nat_alt)
  have slice: "rd_slice (ctx st) (off + k) ?n = Some (take ?n (drop k bs))"
    using u k rd_slice_part [of "ctx st" off "length bs" bs k ?n] by (simp add: under_way_def)
  obtain r where r: "0 < r" "r \<le> ?n" "driver_write_ccid e (take ?n (drop k bs)) st = (r, st\<lparr>sent := sent st @ [take r (take ?n (drop k bs))]\<rparr>)"
    using driver_write_ok [OF e, of "take ?n (drop k bs)" ?n st] k by auto
  have tr: "take r (take ?n (drop k bs)) = take r (drop k bs)" using r(2) by (simp add: min_def)
  have t: "take (k + r) bs = take k bs @ take r (drop k bs)" by (simp add: take_add)
  have w: "(of_nat (length bs - k) :: u16) - of_nat r = of_nat (length bs - (k + r))" using r(2) k by (simp flip: of_nat_diff)
  show ?thesis
    using u slice r n t tr w k
    by (auto simp: under_way_def ccid_usb_write_flush_def ctx_def intro!: exI [of _ "k + r"])
qed


lemma flushes_deliver:
  assumes "under_way old bs off k st" and "list_all stack_ok es" and "length bs \<le> k + length es"
  shows "\<exists>st'. flushes es st = Some st' \<and> under_way old bs off (length bs) st' \<and>
     st' = st\<lparr>c_roff := c_roff st', c_wlen := c_wlen st', sent := sent st'\<rparr>"
  using assms
proof (induction es arbitrary: k st)
  case Nil
  then have "k = length bs" by (auto simp: under_way_def)
  then show ?case using Nil(1) by auto
next
  case (Cons e es)
  obtain k1 st1 where f: "ccid_usb_write_flush e st = Some st1" "under_way old bs off k1 st1" "k < length bs \<longrightarrow> k < k1" "k \<le> k1"
    "st1 = st\<lparr>c_roff := c_roff st1, c_wlen := c_wlen st1, sent := sent st1\<rparr>"
    using flush_progress [OF Cons.prems(1), of e] Cons.prems(2) by (simp, blast)
  have "k \<le> length bs" using Cons.prems(1) by (simp add: under_way_def)
  then have l: "length bs \<le> k1 + length es" using f(3,4) Cons.prems(3) by (cases "k = length bs") auto
  obtain st2 where g: "flushes es st1 = Some st2" "under_way old bs off (length bs) st2"
    "st2 = st1\<lparr>c_roff := c_roff st2, c_wlen := c_wlen st2, sent := sent st2\<rparr>"
    using Cons.IH [OF f(2) _ l] Cons.prems(2) by auto
  have "st2 = st\<lparr>c_roff := c_roff st2, c_wlen := c_wlen st2, sent := sent st2\<rparr>" by (subst g(3), subst f(5)) simp
  then show ?case using f(1) g(1,2) by auto
qed

lemma write_starts:
  assumes e: "stack_ok e" and b: "rd_slice (ctx st) off (sz + 10) = Some bs" "off + sz + 10 \<le> 4160"
  shows "\<exists>k st'. ccid_write_offset e (of_nat sz) (of_nat off) st = Some st' \<and> under_way (concat (sent st)) bs off k st' \<and> 0 < k \<and>
     st' = st\<lparr>c_roff := c_roff st', c_wlen := c_wlen st', sent := sent st'\<rparr>"
proof -
  have l: "length bs = sz + 10" by (rule rd_slice_length [OF b(1)])
  define L :: u16 where "L = of_nat sz + 10"
  have L: "L = of_nat (sz + 10)" by (simp add: L_def)
  have n: "unat L = sz + 10" "unat (of_nat off :: u16) = off" unfolding L using b(2) small16 [of "sz + 10"] small16 [of off] by linarith+
  have c: "(if L > 4096 + 64 then 4096 + 64 else L) = L" using n(1) b(2) by (simp add: word_less_nat_alt)
  let ?n = "min (sz + 10) 64"
  have slice: "rd_slice (ctx st) off ?n = Some (take ?n bs)" using b(1) by (auto simp: rd_slice_eq_Some min_def)
  obtain r where r: "0 < r" "r \<le> ?n" "driver_write_ccid e (take ?n bs) st = (r, st\<lparr>sent := sent st @ [take r (take ?n bs)]\<rparr>)"
    using driver_write_ok [OF e, of "take ?n bs" ?n st] l by auto
  have tr: "take r (take ?n bs) = take r bs" using r(2) by (simp add: min_def)
  have w: "L - of_nat r = of_nat (sz + 10 - r)" unfolding L by (subst of_nat_diff) (use r(2) in simp_all)
  have "ccid_write_offset e (of_nat sz) (of_nat off) st =
     Some (st\<lparr>sent := sent st @ [take r bs], c_wlen := of_nat (sz + 10 - r), c_roff := of_nat (off + r)\<rparr>)"
    unfolding ccid_write_offset_def ccid_usb_write_offset_def L_def [symmetric] c Let_def n slice bind.bind_lunit r(3) prod.case w tr
    by simp
  moreover have "under_way (concat (sent st)) bs off r (st\<lparr>sent := sent st @ [take r bs], c_wlen := of_nat (sz + 10 - r), c_roff := of_nat (off + r)\<rparr>)"
    unfolding under_way_def using r(2) l b by (simp add: ctx_def)
  ultimately show ?thesis using r(1) by (intro exI [of _ r] exI [of _ "st\<lparr>sent := sent st @ [take r bs], c_wlen := of_nat (sz + 10 - r), c_roff := of_nat (off + r)\<rparr>"] conjI) simp_all
qed

text \<open>The head of an answer.\<close>

definition ccid_head :: "u8 \<Rightarrow> nat \<Rightarrow> u8 \<Rightarrow> u8 \<Rightarrow> nat \<Rightarrow> bytes" where
  "ccid_head t len s r0 r1 = t # le_bytes 4 len @ [0, s, r0] @ le_bytes 2 r1"

lemma head_length [simp]: "length (ccid_head t len s r0 r1) = 10" by (simp add: ccid_head_def)

lemma wr_then:
  assumes "off + length x + length y \<le> length t"
  shows "\<exists>t1 t2. wr_slice t off x = Some t1 \<and> wr_slice t1 (off + length x) y = Some t2 \<and> length t2 = length t \<and>
     rd_slice t2 off (length x + length y) = Some (x @ y)"
proof -
  define z where "z = drop (off + length x + length y) t"
  obtain p q r where t: "t = p @ q @ r @ z" "length p = off" "length q = length x" "length r = length y"
  proof (rule that)
    show "t = take off t @ take (length x) (drop off t) @ take (length y) (drop (off + length x) t) @ z"
      by (simp add: z_def add.assoc flip: drop_drop) (metis append_take_drop_id drop_drop add.commute)
  qed (use assms in simp_all)
  have 1: "wr_slice t off x = Some (p @ x @ r @ z)" using t by (simp add: wr_slice_def)
  have 2: "wr_slice (p @ x @ r @ z) (off + length x) y = Some (p @ x @ y @ z)" using t by (simp add: wr_slice_def)
  show ?thesis using 1 2 t by (auto simp: rd_slice_def)
qed


definition wf_ccid :: "ccid \<Rightarrow> bool" where
  "wf_ccid st \<longleftrightarrow> length (c_rx st) = 4096 \<and> length (ctx st) = 4160"

text \<open>The sending of an answer: head and data are written and the first piece goes out; the rest follows.\<close>

lemma put_head_data:
  assumes w: "wf_ccid st" and r: "ccid_response st = 0" and d: "length d \<le> 4150"
  shows "\<exists>t1 t2. put_head t n r0 r1 st = Some (st\<lparr>capdu := (capdu st)\<lparr>tx := t1\<rparr>\<rparr>) \<and>
    put_data d (st\<lparr>capdu := (capdu st)\<lparr>tx := t1\<rparr>\<rparr>) = Some (st\<lparr>capdu := (capdu st)\<lparr>tx := t2\<rparr>\<rparr>) \<and>
    length t2 = 4160 \<and> rd_slice t2 0 (length d + 10) = Some (ccid_head t n (c_rx st ! 6) r0 r1 @ d)"
proof -
  obtain t1 t2 where t: "wr_slice (ctx st) 0 (ccid_head t n (c_rx st ! 6) r0 r1) = Some t1" "wr_slice t1 10 d = Some t2" "length t2 = 4160"
    "rd_slice t2 0 (10 + length d) = Some (ccid_head t n (c_rx st ! 6) r0 r1 @ d)"
    using wr_then [of 0 "ccid_head t n (c_rx st ! 6) r0 r1" d "ctx st"] w d by (auto simp: wf_ccid_def)
  have "rd (c_rx st) 6 = Some (c_rx st ! 6)" using w by (simp add: wf_ccid_def rd_def)
  then show ?thesis using t r by (auto simp: put_head_def put_data_def put_ctx_def ctx_def ccid_head_def add.commute)
qed

lemma sends_all:
  assumes e: "stack_ok e" and es: "list_all stack_ok es" "length bs \<le> length es" and b: "rd_slice (ctx st) 0 (sz + 10) = Some bs" "sz \<le> 4150"
  shows "\<exists>st1 st2. ccid_write e (of_nat sz) st = Some st1 \<and> st1 = st\<lparr>c_roff := c_roff st1, c_wlen := c_wlen st1, sent := sent st1\<rparr> \<and>
    flushes es st1 = Some st2 \<and> st2 = st\<lparr>c_roff := c_roff st2, c_wlen := 0, sent := sent st2\<rparr> \<and>
    concat (sent st2) = concat (sent st) @ bs"
proof -
  obtain k st1 where s: "ccid_write e (of_nat sz) st = Some st1" "under_way (concat (sent st)) bs 0 k st1"
    "st1 = st\<lparr>c_roff := c_roff st1, c_wlen := c_wlen st1, sent := sent st1\<rparr>"
    using write_starts [OF e b(1)] b(2) by (auto simp: ccid_write_def)
  have "length bs \<le> k + length es" using es(2) by simp
  then obtain st2 where f: "flushes es st1 = Some st2" "under_way (concat (sent st)) bs 0 (length bs) st2"
    "st2 = st1\<lparr>c_roff := c_roff st2, c_wlen := c_wlen st2, sent := sent st2\<rparr>"
    using flushes_deliver [OF s(2) es(1)] by blast
  have "c_wlen st2 = 0" "concat (sent st2) = concat (sent st) @ bs" using f(2) by (simp_all add: under_way_def)
  moreover have "st2 = st\<lparr>c_roff := c_roff st2, c_wlen := 0, sent := sent st2\<rparr>"
    by (subst f(3), subst s(3)) (simp add: \<open>c_wlen st2 = 0\<close>)
  ultimately show ?thesis using s(1,3) f(1) by blast
qed

section \<open>The answers\<close>

text \<open>What a message that is not for the card is answered with, and the status afterwards.\<close>

definition ccid_answer :: "bytes \<Rightarrow> u8 \<Rightarrow> u8 \<Rightarrow> u8 \<Rightarrow> bytes option" where
  "ccid_answer a t s status =
     (if t = CCID_SLOT_STATUS then Some (ccid_head CCID_SLOT_STATUS_RET 0 s status 0)
      else if t = CCID_POWER_ON then Some (ccid_head CCID_DATA_BLOCK_RET (length a) s 0 0 @ a)
      else if t = CCID_POWER_OFF then Some (ccid_head CCID_SLOT_STATUS_RET 0 s 1 0)
      else if t \<in> {CCID_SET_PARAMS, CCID_GET_PARAMS, CCID_RESET_PARAMS} then Some (ccid_head CCID_PARAMS_RET 7 s status 0x0100 @ ccid_params)
      else None)"

definition next_status :: "u8 \<Rightarrow> u8 \<Rightarrow> u8" where
  "next_status t status = (if t = CCID_POWER_ON then 0 else if t = CCID_POWER_OFF then 1 else status)"


lemma reply:
  assumes w: "wf_ccid st" and r: "ccid_response st = 0" and e: "stack_ok e" and es: "list_all stack_ok es" "length d + 10 \<le> length es"
    and d: "length d \<le> 4150"
  shows "\<exists>sa sb st1 st2. put_head t n r0 r1 st = Some sa \<and> put_data d sa = Some sb \<and>
    ccid_write e (of_nat (length d)) (sb\<lparr>card_calls := c, ccid_status := x\<rparr>) = Some st1 \<and> flushes es (st1\<lparr>c_woff := 0\<rparr>) = Some st2 \<and>
    concat (sent st2) = concat (sent st) @ ccid_head t n (c_rx st ! 6) r0 r1 @ d \<and> card_calls st2 = c \<and> ccid_status st2 = x \<and> c_woff st2 = 0"
proof -
  obtain t1 t2 where t: "put_head t n r0 r1 st = Some (st\<lparr>capdu := (capdu st)\<lparr>tx := t1\<rparr>\<rparr>)"
    "put_data d (st\<lparr>capdu := (capdu st)\<lparr>tx := t1\<rparr>\<rparr>) = Some (st\<lparr>capdu := (capdu st)\<lparr>tx := t2\<rparr>\<rparr>)"
    "length t2 = 4160" "rd_slice t2 0 (length d + 10) = Some (ccid_head t n (c_rx st ! 6) r0 r1 @ d)"
    using put_head_data [OF w r d] by blast
  let ?s = "st\<lparr>capdu := (capdu st)\<lparr>tx := t2\<rparr>, card_calls := c, ccid_status := x\<rparr>"
  let ?bs = "ccid_head t n (c_rx st ! 6) r0 r1 @ d"
  have b: "rd_slice (ctx ?s) 0 (length d + 10) = Some ?bs" using t(4) by (simp add: ctx_def)
  obtain k st1 where s: "ccid_write e (of_nat (length d)) ?s = Some st1" "under_way (concat (sent st)) ?bs 0 k st1"
    "st1 = ?s\<lparr>c_roff := c_roff st1, c_wlen := c_wlen st1, sent := sent st1\<rparr>"
    using write_starts [OF e b] d by (auto simp: ccid_write_def)
  have u: "under_way (concat (sent st)) ?bs 0 k (st1\<lparr>c_woff := 0\<rparr>)" using s(2) by (simp add: under_way_def ctx_def)
  have "length ?bs \<le> k + length es" using es(2) by simp
  then obtain st2 where f: "flushes es (st1\<lparr>c_woff := 0\<rparr>) = Some st2" "under_way (concat (sent st)) ?bs 0 (length ?bs) st2"
    "st2 = st1\<lparr>c_woff := 0, c_roff := c_roff st2, c_wlen := c_wlen st2, sent := sent st2\<rparr>"
    using flushes_deliver [OF u es(1)] by auto
  have "card_calls st2 = card_calls st1" "ccid_status st2 = ccid_status st1" "c_woff st2 = 0" by (subst f(3), simp)+
  moreover have "card_calls st1 = c" "ccid_status st1 = x" by (subst s(3), simp)+
  ultimately show ?thesis using t(1,2) s(1) f(1,2) by (auto simp: under_way_def)
qed

lemma same_reply:
  assumes "wf_ccid st" and "ccid_response st = 0" and "stack_ok e" and "list_all stack_ok es" and "length d + 10 \<le> length es"
    and d: "length d \<le> 4150"
  shows "\<exists>sa sb st1 st2. put_head t n r0 r1 st = Some sa \<and> put_data d sa = Some sb \<and>
    ccid_write e (of_nat (length d)) sb = Some st1 \<and> flushes es (st1\<lparr>c_woff := 0\<rparr>) = Some st2 \<and>
    concat (sent st2) = concat (sent st) @ ccid_head t n (c_rx st ! 6) r0 r1 @ d \<and> card_calls st2 = card_calls st \<and>
    ccid_status st2 = ccid_status st \<and> c_woff st2 = 0"
proof -
  obtain sa sb st1 st2 where r: "put_head t n r0 r1 st = Some sa" "put_data d sa = Some sb"
    "ccid_write e (of_nat (length d)) (sb\<lparr>card_calls := card_calls st, ccid_status := ccid_status st\<rparr>) = Some st1"
    "flushes es (st1\<lparr>c_woff := 0\<rparr>) = Some st2"
    "concat (sent st2) = concat (sent st) @ ccid_head t n (c_rx st ! 6) r0 r1 @ d" "card_calls st2 = card_calls st" "ccid_status st2 = ccid_status st" "c_woff st2 = 0"
    using reply [OF assms] by blast
  have "sb\<lparr>card_calls := card_calls st, ccid_status := ccid_status st\<rparr> = sb"
    using r(1,2) by (auto simp: put_head_def put_data_def put_ctx_def bind_eq_Some_conv)
  then show ?thesis using r by auto
qed

lemma put_data_Nil: "wf_ccid st \<Longrightarrow> ccid_response st = 0 \<Longrightarrow> put_head t n r0 r1 st = Some sa \<Longrightarrow> put_data [] sa = Some sa"
  by (auto simp: put_head_def put_data_def put_ctx_def ctx_def wf_ccid_def wr_slice_def bind_eq_Some_conv split: if_splits)



section \<open>Commands for the card\<close>

lemma finished_delivers:
  assumes w: "wf_ccid st" and r: "ccid_response st = 0" and e: "stack_ok e" and es: "list_all stack_ok es" "k + 10 \<le> length es"
    and k: "k \<le> 4150"
  shows "\<exists>st1 st2. driver_exec_finished_ccid e k st = Some st1 \<and> flushes es st1 = Some st2 \<and>
    concat (sent st2) = concat (sent st) @ ccid_head CCID_DATA_BLOCK_RET k (c_rx st ! 6) (ccid_status st) 0 @ take k (drop 10 (ctx st))"
proof -
  let ?h = "ccid_head CCID_DATA_BLOCK_RET k (c_rx st ! 6) (ccid_status st) 0"
  let ?t = "?h @ drop 10 (ctx st)"
  let ?s = "st\<lparr>capdu := (capdu st)\<lparr>tx := ?t\<rparr>\<rparr>"
  have h: "put_head CCID_DATA_BLOCK_RET k (ccid_status st) 0 st = Some ?s"
    using w r by (simp add: put_head_def put_ctx_def wr_slice_def rd_def wf_ccid_def ccid_head_def)
  have b: "rd_slice (ctx ?s) 0 (k + 10) = Some (?h @ take k (drop 10 (ctx st)))"
    using w k by (simp add: rd_slice_def ctx_def wf_ccid_def)
  have "length (?h @ take k (drop 10 (ctx st))) \<le> length es" using es(2) by simp
  from sends_all [OF e es(1) this b k] obtain st1 st2 where "ccid_write e (of_nat k) ?s = Some st1" "flushes es st1 = Some st2"
    "concat (sent st2) = concat (sent ?s) @ ?h @ take k (drop 10 (ctx st))" by blast
  then show ?thesis using h by (auto simp: driver_exec_finished_ccid_def)
qed

text \<open>The state after a command for the card.\<close>

definition handed_over :: "nat \<Rightarrow> nat \<Rightarrow> nat \<Rightarrow> ccid \<Rightarrow> ccid" where
  "handed_over n_c n_e off st = st\<lparr>ccid_response := 0, c_timeout := 1500, c_woff := 0,
     capdu := (capdu st)\<lparr>header := drop 10 (c_rx st), nc := n_c, ne := n_e, data_off := off, sw := 0, rlen := 0, rdata := 10, rdata_gr := 10\<rparr>\<rparr>"

lemma xfr_accepted:
  assumes w: "wf_ccid st"
    and n: "10 \<le> c_woff st" "le_val (take 4 (drop 1 (c_rx st))) = len" "len \<le> c_woff st - 10" and t: "c_rx st ! 0 = CCID_XFR_BLOCK"
    and cmd: "apdu_parse (data_off (capdu st)) (drop 10 (c_rx st)) len = Some (n_c, n_e, off)" "c_rx st ! 11 \<noteq> 0xc0"
  shows "driver_process_usb_packet_ccid e (c_woff st) st = Some (1, handed_over n_c n_e off st)"
proof -
  have ins: "rd (drop 10 (c_rx st)) 1 = Some (c_rx st ! 11)" using w by (simp add: rd_def wf_ccid_def)
  have "apdu_process driver_prepare_response_ccid (drop 10 (c_rx st)) len (capdu st) = Some (1, None, capdu (handed_over n_c n_e off st))"
    using cmd ins by (simp add: apdu_process_def driver_prepare_response_ccid_def handed_over_def)
  then show ?thesis
    using n w t by (simp add: driver_process_usb_packet_ccid_def rd_slice_def rd_def wf_ccid_def ccid_message_def ccid_types xfr_block_def driver_init_ccid_def
        handed_over_def)
qed

text \<open>
  a command for the card that is complete in the buffer is handed to the APDU layer, with the fields that \<^verbatim>\<open>apdu_process\<close> finds, and
  nothing is sent; and whatever response of up to 4150 bytes the card puts into the transmit buffer, when it has finished the
  host gets exactly these bytes, in as many pieces as its stack makes of them, behind a head with their number and the
  sequence number of the command.
\<close>

theorem ccid_block_answered:
  assumes w: "wf_ccid st" and e: "stack_ok e"
    and n: "10 \<le> c_woff st" "le_val (take 4 (drop 1 (c_rx st))) = len" "len \<le> c_woff st - 10" and t: "c_rx st ! 0 = CCID_XFR_BLOCK"
    and cmd: "apdu_parse (data_off (capdu st)) (drop 10 (c_rx st)) len = Some (n_c, n_e, off)" "c_rx st ! 11 \<noteq> 0xc0"
  shows "\<exists>st1. driver_process_usb_packet_ccid e (c_woff st) st = Some (1, st1) \<and> c_woff st1 = 0 \<and> sent st1 = sent st \<and>
    header (capdu st1) = drop 10 (c_rx st) \<and> nc (capdu st1) = n_c \<and> ne (capdu st1) = n_e \<and> data_off (capdu st1) = off \<and>
    rlen (capdu st1) = 0 \<and> rdata (capdu st1) = 10 \<and>
    (\<forall>a es k. length (tx a) = 4160 \<and> k \<le> 4150 \<and> list_all stack_ok es \<and> k + 10 \<le> length es \<longrightarrow>
      (\<exists>st2 st3. driver_exec_finished_ccid e k (st1\<lparr>capdu := a\<rparr>) = Some st2 \<and> flushes es st2 = Some st3 \<and>
        concat (sent st3) = concat (sent st) @ ccid_head CCID_DATA_BLOCK_RET k (c_rx st ! 6) (ccid_status st) 0 @ take k (drop 10 (tx a))))"
proof -
  let ?s = "handed_over n_c n_e off st"
  have d: "\<exists>st2 st3. driver_exec_finished_ccid e k (?s\<lparr>capdu := b\<rparr>) = Some st2 \<and> flushes es st2 = Some st3 \<and>
        concat (sent st3) = concat (sent st) @ ccid_head CCID_DATA_BLOCK_RET k (c_rx st ! 6) (ccid_status st) 0 @ take k (drop 10 (tx b))"
    if "length (tx b) = 4160" "k \<le> 4150" "list_all stack_ok es" "k + 10 \<le> length es" for b es k
    using finished_delivers [of "?s\<lparr>capdu := b\<rparr>" e es k] that w e by (simp add: wf_ccid_def ctx_def handed_over_def)
  show ?thesis using xfr_accepted [OF w n t cmd] d by (intro exI [of _ ?s]) (auto simp: handed_over_def)
qed

section \<open>A length beyond the buffer\<close>

datatype ccid_event = Received bytes | Turn ccid_env

fun ccid_step :: "ccid_event \<Rightarrow> ccid \<Rightarrow> ccid option" where
  "ccid_step (Received buf) st = Some (tud_vendor_rx_cb buf st)"
| "ccid_step (Turn e) st = do {
     (_, st) \<leftarrow> driver_process_usb_packet_ccid e (c_woff st) st;
     ccid_usb_write_flush e st
   }"

fun ccid_run :: "ccid_event list \<Rightarrow> ccid \<Rightarrow> ccid option" where
  "ccid_run [] st = Some st"
| "ccid_run (x # xs) st = do { st \<leftarrow> ccid_step x st; ccid_run xs st }"

definition overlong :: "ccid \<Rightarrow> bool" where
  "overlong st \<longleftrightarrow> wf_ccid st \<and> 5 \<le> c_woff st \<and> c_woff st \<le> 4096 \<and> 4086 < le_val (take 4 (drop 1 (c_rx st))) \<and> c_wlen st = 0"

lemma overlong_step:
  assumes o: "overlong st"
  shows "\<exists>st'. ccid_step x st = Some st' \<and> overlong st' \<and> sent st' = sent st \<and> card_calls st' = card_calls st \<and> take 5 (c_rx st') = take 5 (c_rx st)"
proof (cases x)
  case (Received buf)
  let ?n = "min (4096 - c_woff st) (length buf)"
  let ?rx = "take (c_woff st) (c_rx st) @ take ?n buf @ drop (c_woff st + ?n) (c_rx st)"
  have c: "length (c_rx st) = 4096" "5 \<le> c_woff st" "c_woff st \<le> 4096" using o by (simp_all add: overlong_def wf_ccid_def)
  have t: "take 5 ?rx = take 5 (c_rx st)" "length ?rx = 4096" using c by (auto simp: min_def)
  have "take 4 (drop 1 l) = drop 1 (take 5 l)" for l :: bytes by (simp add: drop_take)
  then have f: "le_val (take 4 (drop 1 ?rx)) = le_val (take 4 (drop 1 (c_rx st)))" using t(1) by metis
  show ?thesis
  proof (cases "?n > 0")
    case True
    then have "tud_vendor_rx_cb buf st = st\<lparr>c_rx := ?rx, c_woff := c_woff st + ?n\<rparr>" by (simp add: tud_vendor_rx_cb_def ccid_rx_def Let_def)
    moreover have "overlong (st\<lparr>c_rx := ?rx, c_woff := c_woff st + ?n\<rparr>)"
      using o t(2) f c by (simp only: overlong_def wf_ccid_def ctx_def) simp
    ultimately show ?thesis using Received t(1) by auto
  next
    case False
    then have "tud_vendor_rx_cb buf st = st" by (auto simp: tud_vendor_rx_cb_def ccid_rx_def Let_def)
    then show ?thesis using Received o by simp
  qed
next
  case (Turn e)
  let ?l = "le_val (take 4 (drop 1 (c_rx st)))"
  have "rd_slice (c_rx st) 1 4 = Some (take 4 (drop 1 (c_rx st)))" "\<not> ?l \<le> c_woff st - 10"
    using o by (auto simp: overlong_def wf_ccid_def rd_slice_def)
  then have "driver_process_usb_packet_ccid e (c_woff st) st = Some (0, if c_woff st < 10 then st else driver_init_ccid st)"
    by (simp add: driver_process_usb_packet_ccid_def driver_init_ccid_def)
  moreover have "overlong (driver_init_ccid st)" using o by (simp add: overlong_def driver_init_ccid_def wf_ccid_def ctx_def)
  moreover have "ccid_usb_write_flush e s = Some s" if "overlong s" for s using that by (simp add: overlong_def ccid_usb_write_flush_def)
  ultimately show ?thesis using Turn o by (simp add: driver_init_ccid_def)
qed

text \<open>
  a message whose length is more than 4086 blocks the smart card interface for good: once the first five bytes of it are in the
  buffer and nothing is being sent, no further bytes and no turns of the event loop, however many, lead to an answer or to a call to the card.
\<close>

theorem overlong_message_blocks:
  assumes "overlong st"
  shows "\<exists>st'. ccid_run xs st = Some st' \<and> overlong st' \<and> sent st' = sent st \<and> card_calls st' = card_calls st"
  using assms
proof (induction xs arbitrary: st)
  case (Cons x xs)
  from overlong_step [OF Cons.prems, of x] obtain st1 where s: "ccid_step x st = Some st1" "overlong st1" "sent st1 = sent st" "card_calls st1 = card_calls st"
    by blast
  from Cons.IH [OF s(2)] s show ?case by auto
qed simp


section \<open>Concrete runs\<close>

lemma head_bytes:
  "ccid_head t n s r0 0 = [t, of_nat (n mod 256), of_nat (n div 256 mod 256), of_nat (n div 256 div 256 mod 256),
     of_nat (n div 256 div 256 div 256 mod 256), 0, s, r0, 0, 0]"
proof -
  have "(4 :: nat) = Suc (Suc (Suc (Suc 0)))" "(2 :: nat) = Suc (Suc 0)" by simp_all
  then have "le_bytes 4 n = le_bytes (Suc (Suc (Suc (Suc 0)))) n" "le_bytes 2 0 = le_bytes (Suc (Suc 0)) 0" by (simp_all only:)
  then show ?thesis by (simp add: ccid_head_def)
qed

definition slow_stack :: ccid_env where "slow_stack = \<lparr>accepts = (\<lambda>b. min 7 (length b)), flushed = 0, atr = atr_fido\<rparr>"

definition sample_ccid :: "bytes \<Rightarrow> ccid" where
  "sample_ccid m = \<lparr>c_rx = m @ replicate (4096 - length m) 0, c_woff = length m,
     capdu = \<lparr>header = [], nc = 0, ne = 0, data_off = 0, sw = 0, rlen = 0, rdata = 10, rdata_gr = 10, rdata_bk = [0, 0], tx = replicate 4160 0\<rparr>,
     ccid_response = 0, c_wlen = 0, c_roff = 0, ccid_status = 1, c_timeout = 0, card_calls = [], sent = []\<rparr>"

lemma sample_ccid_wf: "length m \<le> 4096 \<Longrightarrow> wf_ccid (sample_ccid m)" by (simp add: wf_ccid_def sample_ccid_def ctx_def)

lemma slow_stack_ok: "stack_ok slow_stack" by (auto simp: stack_ok_def slow_stack_def)


theorem ccid_block_answered_witness:
  "\<exists>st1. driver_process_usb_packet_ccid slow_stack 15 (sample_ccid [0x6F, 5, 0, 0, 0, 0, 9, 0, 0, 0, 0, 0xA4, 4, 0, 3]) = Some (1, st1) \<and>
    ne (capdu st1) = 3 \<and> (\<exists>st2 st3. driver_exec_finished_ccid slow_stack 2 (st1\<lparr>capdu := (capdu st1)\<lparr>tx := replicate 4160 0x90\<rparr>\<rparr>) = Some st2 \<and>
      flushes (replicate 12 slow_stack) st2 = Some st3 \<and> concat (sent st3) = [0x80, 2, 0, 0, 0, 0, 9, 1, 0, 0, 0x90, 0x90])"
proof -
  let ?st = "sample_ccid [0x6F, 5, 0, 0, 0, 0, 9, 0, 0, 0, 0, 0xA4, 4, 0, 3]"
  have s: "c_woff ?st = 15" "le_val (take 4 (drop 1 (c_rx ?st))) = 5" "c_rx ?st ! 0 = CCID_XFR_BLOCK" "c_rx ?st ! 6 = 9" "sent ?st = []"
    "c_rx ?st ! 11 \<noteq> 0xc0" "ccid_status ?st = 1"
    by (simp_all add: sample_ccid_def ccid_types)
  have p: "apdu_parse (data_off (capdu ?st)) (drop 10 (c_rx ?st)) 5 = Some (0, 3, 0)"
    by (simp add: sample_ccid_def apdu_parse_def rd_def or_max_def)
  have h: "ccid_head CCID_DATA_BLOCK_RET 2 9 1 0 = [0x80, 2, 0, 0, 0, 0, 9, 1, 0, 0]" by (simp add: head_bytes ccid_types)
  obtain st1 where f: "driver_process_usb_packet_ccid slow_stack 15 ?st = Some (1, st1)" "ne (capdu st1) = 3"
    "\<forall>a es k. length (tx a) = 4160 \<and> k \<le> 4150 \<and> list_all stack_ok es \<and> k + 10 \<le> length es \<longrightarrow>
      (\<exists>st2 st3. driver_exec_finished_ccid slow_stack k (st1\<lparr>capdu := a\<rparr>) = Some st2 \<and> flushes es st2 = Some st3 \<and>
        concat (sent st3) = concat (sent ?st) @ ccid_head CCID_DATA_BLOCK_RET k (c_rx ?st ! 6) (ccid_status ?st) 0 @ take k (drop 10 (tx a)))"
    using ccid_block_answered [OF sample_ccid_wf slow_stack_ok _ s(2) _ s(3) p s(6)] s(1) by auto
  have t: "take 2 (drop 10 (replicate 4160 0x90)) = [0x90, 0x90 :: u8]" by (simp add: numeral_2_eq_2)
  have es: "list_all stack_ok (replicate 12 slow_stack)" by (simp add: list_all_iff slow_stack_ok)
  have "length (tx ((capdu st1)\<lparr>tx := replicate 4160 0x90\<rparr>)) = 4160 \<and> (2 :: nat) \<le> 4150 \<and> list_all stack_ok (replicate 12 slow_stack) \<and>
    2 + 10 \<le> length (replicate 12 slow_stack)" using es by simp
  from f(3) [rule_format, OF this] obtain st2 st3 where
    "driver_exec_finished_ccid slow_stack 2 (st1\<lparr>capdu := (capdu st1)\<lparr>tx := replicate 4160 0x90\<rparr>\<rparr>) = Some st2" "flushes (replicate 12 slow_stack) st2 = Some st3"
    "concat (sent st3) = concat (sent ?st) @ ccid_head CCID_DATA_BLOCK_RET 2 (c_rx ?st ! 6) (ccid_status ?st) 0 @
       take 2 (drop 10 (tx ((capdu st1)\<lparr>tx := replicate 4160 0x90\<rparr>)))" by blast
  moreover from this(3) have "concat (sent st3) = [0x80, 2, 0, 0, 0, 0, 9, 1, 0, 0, 0x90, 0x90]" unfolding s(4,5,7) h using t by simp
  ultimately show ?thesis using f(1,2) by blast
qed

theorem overlong_message_blocks_witness:
  "\<exists>st'. ccid_run [Turn slow_stack, Received [0x6F, 0, 0, 0, 0], Turn slow_stack] (sample_ccid [0x6F, 0xFF, 0xFF, 0, 0, 0, 1, 0, 0, 0]) = Some st' \<and> sent st' = []"
proof -
  have "overlong (sample_ccid [0x6F, 0xFF, 0xFF, 0, 0, 0, 1, 0, 0, 0])"
    unfolding overlong_def by (intro conjI sample_ccid_wf) (simp_all add: sample_ccid_def)
  from overlong_message_blocks [OF this, of "[Turn slow_stack, Received [0x6F, 0, 0, 0, 0], Turn slow_stack]"] show ?thesis
    by (auto simp: sample_ccid_def)
qed

end
