(* ===== verification/UsbLoop.thy ===== *)
theory UsbLoop
  imports Hid CcidProps
begin

text \<open>
  The event loop, \<^verbatim>\<open>usb_task\<close> of \<^verbatim>\<open>usb.c\<close> with both interfaces, and the two cores: the loop runs on the first core and takes the
  messages in; a thread on the other core, the one that the last \<^verbatim>\<open>card_start\<close> has put there, does the work.  They talk over two
  queues of 64 places: a full queue blocks a core for good (\<open>None\<close>) or drops what is added, as the code asks for.  \<open>card_locked_itf\<close> is
  the interface whose command is being worked on.  The work itself is a parameter here; the applications do it.
  The interface of the keyboard gets no messages and sends none over these buffers, so its turn does nothing.
  The waiting for the button (\<^verbatim>\<open>wait_button\<close>) is its result; the loop also runs inside of it.
\<close>

section \<open>State\<close>

definition ITF_HID :: nat where "ITF_HID = 0"
definition ITF_CCID :: nat where "ITF_CCID = 2"
definition ITF_TOTAL :: nat where "ITF_TOTAL = 3"
definition EV_EXEC_FINISHED :: nat where "EV_EXEC_FINISHED = 8"
definition EV_PRESS_BUTTON :: nat where "EV_PRESS_BUTTON = 32"
definition EV_MODIFY_CMD_AVAILABLE :: nat where "EV_MODIFY_CMD_AVAILABLE = 1"
definition EV_VERIFY_CMD_AVAILABLE :: nat where "EV_VERIFY_CMD_AVAILABLE = 2"
definition EV_CMD_AVAILABLE :: nat where "EV_CMD_AVAILABLE = 4"
definition EV_EXIT :: nat where "EV_EXIT = 8"
definition EV_BUTTON_TIMEOUT :: nat where "EV_BUTTON_TIMEOUT = 16"
definition EV_BUTTON_PRESSED :: nat where "EV_BUTTON_PRESSED = 32"

lemmas loop_defs = ITF_HID_def ITF_CCID_def ITF_TOTAL_def EV_EXEC_FINISHED_def EV_PRESS_BUTTON_def EV_MODIFY_CMD_AVAILABLE_def
  EV_VERIFY_CMD_AVAILABLE_def EV_CMD_AVAILABLE_def EV_EXIT_def EV_BUTTON_TIMEOUT_def EV_BUTTON_PRESSED_def

datatype worker = Apdu_thread | Cbor_thread

record device =
  d_hid :: hid
  d_ccid :: ccid
  card_locked_itf :: nat
  usb_to_card :: "nat list"
  card_to_usb :: "nat list"
  d_timeout :: nat
  finished_data_size :: nat
  core1 :: "worker option"

text \<open>The two stacks, which of the interfaces the host has set up, and whether nobody presses the button.\<close>

record loop_env =
  on_hid :: hid_env
  on_ccid :: ccid_env
  mounted_hid :: bool
  mounted_ccid :: bool
  button_timed_out :: bool

definition millis :: "loop_env \<Rightarrow> nat" where "millis e = now (on_hid e)"

definition queue_add_blocking :: "nat list \<Rightarrow> nat \<Rightarrow> nat list option" where
  "queue_add_blocking q m = (if length q < 64 then Some (q @ [m]) else None)"

definition queue_try_add :: "nat list \<Rightarrow> nat \<Rightarrow> nat list" where
  "queue_try_add q m = (if length q < 64 then q @ [m] else q)"

definition card_start :: "worker \<Rightarrow> device \<Rightarrow> device" where
  "card_start w d = d\<lparr>usb_to_card := [], card_to_usb := [], core1 := Some w\<rparr>"

definition card_exit :: "device \<Rightarrow> device" where
  "card_exit d = d\<lparr>usb_to_card := queue_try_add (usb_to_card d) EV_EXIT, card_locked_itf := ITF_TOTAL\<rparr>"

section \<open>The loop\<close>

definition hid_worker :: "nat \<Rightarrow> worker" where "hid_worker n = (if n = 1 then Apdu_thread else Cbor_thread)"

definition ccid_call :: "card_call \<Rightarrow> device \<Rightarrow> device" where
  "ccid_call c d = (case c of Card_start \<Rightarrow> card_start Apdu_thread d | Card_exit \<Rightarrow> card_exit d)"

definition command_available :: "loop_env \<Rightarrow> nat \<Rightarrow> device \<Rightarrow> device option" where
  "command_available e itf d = do {
     q \<leftarrow> queue_add_blocking (usb_to_card d) EV_CMD_AVAILABLE;
     Some (d\<lparr>card_locked_itf := itf, d_timeout := millis e, usb_to_card := q\<rparr>)
   }"

definition hid_event :: "loop_env \<Rightarrow> device \<Rightarrow> device option" where
  "hid_event e d = do {
     (r, h) \<leftarrow> driver_process_usb_packet_hid (on_hid e) (usb_read_available (d_hid d)) (d_hid d);
     let d = fold (\<lambda>n. card_start (hid_worker n)) (card_starts h) (d\<lparr>d_hid := h\<lparr>card_starts := []\<rparr>\<rparr>);
     if r > 0 then command_available e ITF_HID d
     else do {
       h \<leftarrow> driver_process_usb_nopacket_hid (on_hid e) (d_hid d);
       Some (d\<lparr>d_hid := h\<rparr>)
     }
   }"

definition ccid_event_handle :: "loop_env \<Rightarrow> device \<Rightarrow> device option" where
  "ccid_event_handle e d = do {
     (r, c) \<leftarrow> driver_process_usb_packet_ccid (on_ccid e) (c_woff (d_ccid d)) (d_ccid d);
     let d = fold ccid_call (card_calls c) (d\<lparr>d_ccid := c\<lparr>card_calls := []\<rparr>\<rparr>);
     if r > 0 then command_available e ITF_CCID d else Some d
   }"

definition exec_finished :: "loop_env \<Rightarrow> nat \<Rightarrow> device \<Rightarrow> device option" where
  "exec_finished e itf d =
     (if itf = ITF_HID
      then map_option (\<lambda>h. d\<lparr>d_hid := h\<rparr>) (driver_exec_finished_hid (on_hid e) (finished_data_size d) (d_hid d))
      else map_option (\<lambda>c. d\<lparr>d_ccid := c\<rparr>) (driver_exec_finished_ccid (on_ccid e) (finished_data_size d) (d_ccid d)))"

definition exec_timeout :: "loop_env \<Rightarrow> nat \<Rightarrow> device \<Rightarrow> device option" where
  "exec_timeout e itf d =
     (if itf = ITF_HID then map_option (\<lambda>h. d\<lparr>d_hid := h\<rparr>) (driver_exec_timeout_hid (on_hid e) (d_hid d))
      else map_option (\<lambda>c. d\<lparr>d_ccid := c\<rparr>) (driver_exec_timeout_ccid (on_ccid e) (d_ccid d)))"

definition timeout_counter :: "nat \<Rightarrow> device \<Rightarrow> nat" where
  "timeout_counter itf d = (if itf = ITF_HID then 200 else unat (c_timeout (d_ccid d)))"

text \<open>What comes from the other core, or the sign of life when it takes long.\<close>

definition card_message :: "loop_env \<Rightarrow> nat \<Rightarrow> device \<Rightarrow> device option" where
  "card_message e itf d =
     (if card_locked_itf d \<noteq> itf then Some d
      else case card_to_usb d of
        m # q \<Rightarrow>
          let d = d\<lparr>card_to_usb := q\<rparr> in
          if m = EV_EXEC_FINISHED then do {
            d \<leftarrow> exec_finished e itf (d\<lparr>d_timeout := 0\<rparr>);
            Some (d\<lparr>card_locked_itf := ITF_TOTAL\<rparr>)
          }
          else if m = EV_PRESS_BUTTON then
            Some (d\<lparr>usb_to_card := queue_try_add (usb_to_card d) (if button_timed_out e then EV_BUTTON_TIMEOUT else EV_BUTTON_PRESSED)\<rparr>)
          else Some d
      | [] \<Rightarrow>
          if d_timeout d > 0 \<and> d_timeout d + timeout_counter itf d < millis e then do {
            d \<leftarrow> exec_timeout e itf d;
            Some (d\<lparr>d_timeout := millis e\<rparr>)
          } else Some d)"

definition usb_task :: "loop_env \<Rightarrow> device \<Rightarrow> device option" where
  "usb_task e d = do {
     d \<leftarrow> (if mounted_hid e then do {
              d \<leftarrow> hid_event e d;
              card_message e ITF_HID (d\<lparr>d_hid := snd (usb_write_flush (on_hid e) (d_hid d))\<rparr>)
            } else Some d);
     if mounted_ccid e then do {
       d \<leftarrow> ccid_event_handle e d;
       c \<leftarrow> ccid_usb_write_flush (on_ccid e) (d_ccid d);
       card_message e ITF_CCID (d\<lparr>d_ccid := c\<rparr>)
     } else Some d
   }"

section \<open>The other core\<close>

text \<open>
  One message of a thread, \<^verbatim>\<open>apdu_thread\<close> or \<^verbatim>\<open>cbor_thread\<close>; \<open>None\<close> when there is none.  \<open>work w refused\<close> is what it does with a command, with the
  size of the response; the first thread refuses two kinds of messages, which this firmware does not send.
\<close>

definition card_thread :: "(worker \<Rightarrow> bool \<Rightarrow> device \<Rightarrow> (nat \<times> device) option) \<Rightarrow> device \<Rightarrow> device option" where
  "card_thread work d = do {
     w \<leftarrow> core1 d;
     case usb_to_card d of
       [] \<Rightarrow> None
     | m # q \<Rightarrow>
         if m = EV_EXIT then Some (d\<lparr>usb_to_card := q, core1 := None\<rparr>)
         else do {
           (n, d) \<leftarrow> work w (w = Apdu_thread \<and> (m = EV_VERIFY_CMD_AVAILABLE \<or> m = EV_MODIFY_CMD_AVAILABLE)) (d\<lparr>usb_to_card := q\<rparr>);
           q \<leftarrow> queue_add_blocking (card_to_usb d) EV_EXEC_FINISHED;
           Some (d\<lparr>finished_data_size := n, card_to_usb := q\<rparr>)
         }
   }"

section \<open>An exchange\<close>

lemma hid_turn_idle:
  assumes "w_offset h = 0" and "last_packet_time h = 0" and "w_len h = 0"
  shows "driver_process_usb_packet_hid e (usb_read_available h) h = Some (0, h)" "driver_process_usb_nopacket_hid e h = Some h"
    "usb_write_flush e h = (0, h)"
  using assms by (simp_all add: driver_process_usb_packet_hid_def usb_read_available_def driver_process_usb_nopacket_hid_def usb_write_flush_def)


lemma hid_part:
  assumes "w_offset (d_hid d) = 0" and "last_packet_time (d_hid d) = 0" and "w_len (d_hid d) = 0" and "card_starts (d_hid d) = []"
    and "card_locked_itf d \<noteq> ITF_HID"
  shows "(if mounted_hid e then do {
              d \<leftarrow> hid_event e d;
              card_message e ITF_HID (d\<lparr>d_hid := snd (usb_write_flush (on_hid e) (d_hid d))\<rparr>)
            } else Some d) = Some d"
proof -
  note h = hid_turn_idle [OF assms(1-3)]
  have s: "d\<lparr>d_hid := (d_hid d)\<lparr>card_starts := []\<rparr>\<rparr> = d" using assms(4) by simp
  show ?thesis using assms(4,5) h by (simp add: hid_event_def card_message_def s)
qed

lemma ccid_idle_turn:
  assumes "c_woff c < 10"
  shows "driver_process_usb_packet_ccid e (c_woff c) c = Some (0, c)"
  using assms by (simp add: driver_process_usb_packet_ccid_def)

lemma ccid_turn:
  assumes "w_offset (d_hid d) = 0" and "last_packet_time (d_hid d) = 0" and "w_len (d_hid d) = 0" and "card_starts (d_hid d) = []"
    and "card_locked_itf d \<noteq> ITF_HID" and "mounted_ccid e" and "ccid_event_handle e d = Some d'" and "c_wlen (d_ccid d') = 0"
  shows "usb_task e d = card_message e ITF_CCID d'"
proof -
  have "d'\<lparr>d_ccid := d_ccid d'\<rparr> = d'" by simp
  then show ?thesis unfolding usb_task_def hid_part [OF assms(1-5)] using assms(6-8) by (simp add: ccid_usb_write_flush_def)
qed

text \<open>
  C17: a command over the smart card interface is answered: with an idle device whose other core has a thread, one turn of the loop locks the
  interface and wakes the other core, the thread works on the command that the APDU layer has read, and the next turn sends its
  response, whole and with the sequence number of the command, and unlocks the interface with both queues empty.  The thread is
  the one of the last \<^verbatim>\<open>card_start\<close> of either interface: when the HID interface has started the thread for CTAP2 since, that one answers.
\<close>

theorem usb_exchange:
  assumes hid: "w_offset (d_hid d) = 0" "last_packet_time (d_hid d) = 0" "w_len (d_hid d) = 0" "card_starts (d_hid d) = []"
    and c: "wf_ccid (d_ccid d)" "c_wlen (d_ccid d) = 0" "card_calls (d_ccid d) = []"
    and n: "10 \<le> c_woff (d_ccid d)" "le_val (take 4 (drop 1 (c_rx (d_ccid d)))) = len" "len \<le> c_woff (d_ccid d) - 10"
    and t: "c_rx (d_ccid d) ! 0 = CCID_XFR_BLOCK"
    and cmd: "apdu_parse (data_off (capdu (d_ccid d))) (drop 10 (c_rx (d_ccid d))) len = Some (n_c, n_e, off)" "c_rx (d_ccid d) ! 11 \<noteq> 0xc0"
    and dev: "card_locked_itf d = ITF_TOTAL" "usb_to_card d = []" "card_to_usb d = []" "core1 d = Some w"
    and env: "mounted_ccid e" "mounted_ccid e2" "stack_ok (on_ccid e2)" "list_all stack_ok es" "k + 10 \<le> length es"
    and work: "\<And>x. capdu (d_ccid x) = capdu (handed_over n_c n_e off (d_ccid d)) \<Longrightarrow>
      work w False x = Some (k, x\<lparr>d_ccid := (d_ccid x)\<lparr>capdu := a\<rparr>\<rparr>)" and k: "k \<le> 4150" "length (tx a) = 4160"
  shows "\<exists>d1 d2 d3 c. usb_task e d = Some d1 \<and> card_locked_itf d1 = ITF_CCID \<and> card_thread work d1 = Some d2 \<and>
    usb_task e2 d2 = Some d3 \<and> card_locked_itf d3 = ITF_TOTAL \<and> usb_to_card d3 = [] \<and> card_to_usb d3 = [] \<and> core1 d3 = Some w \<and>
    flushes es (d_ccid d3) = Some c \<and> concat (sent c) = concat (sent (d_ccid d)) @
      ccid_head CCID_DATA_BLOCK_RET k (c_rx (d_ccid d) ! 6) (ccid_status (d_ccid d)) 0 @ take k (drop 10 (tx a))"
proof -
  let ?h = "handed_over n_c n_e off (d_ccid d)"
  let ?d1 = "d\<lparr>d_ccid := ?h, card_locked_itf := ITF_CCID, d_timeout := millis e, usb_to_card := [EV_CMD_AVAILABLE]\<rparr>"
  have h: "card_calls ?h = []" "c_wlen ?h = 0" "?h\<lparr>card_calls := []\<rparr> = ?h" using c by (simp_all add: handed_over_def)
  have nl: "card_locked_itf d \<noteq> ITF_HID" "ITF_CCID \<noteq> ITF_HID" "ITF_TOTAL \<noteq> ITF_CCID" using dev(1) by (simp_all add: loop_defs)
  have "ccid_event_handle e d = Some ?d1"
    using xfr_accepted [OF c(1) n t cmd, of "on_ccid e"] h dev by (simp add: ccid_event_handle_def command_available_def queue_add_blocking_def)
  from ccid_turn [OF hid nl(1) env(1) this] h(2) have "usb_task e d = card_message e ITF_CCID ?d1" by simp
  moreover have "card_message e ITF_CCID ?d1 = Some ?d1" using dev(3) by (simp add: card_message_def)
  ultimately have t1: "usb_task e d = Some ?d1" by (rule trans)
  let ?c2 = "?h\<lparr>capdu := a\<rparr>"
  let ?d2 = "?d1\<lparr>usb_to_card := [], d_ccid := ?c2, finished_data_size := k, card_to_usb := [EV_EXEC_FINISHED]\<rparr>"
  have t2: "card_thread work ?d1 = Some ?d2"
    using dev work [of "?d1\<lparr>usb_to_card := []\<rparr>"] by (simp add: card_thread_def loop_defs queue_add_blocking_def)
  have w2: "wf_ccid ?c2" "ccid_response ?c2 = 0" "c_woff ?c2 = 0" "card_calls ?c2 = []" "c_wlen ?c2 = 0" "?c2\<lparr>card_calls := []\<rparr> = ?c2"
    using c k by (simp_all add: handed_over_def wf_ccid_def ctx_def)
  obtain st1 st2 where f: "driver_exec_finished_ccid (on_ccid e2) k ?c2 = Some st1" "flushes es st1 = Some st2"
    "concat (sent st2) = concat (sent ?c2) @ ccid_head CCID_DATA_BLOCK_RET k (c_rx ?c2 ! 6) (ccid_status ?c2) 0 @ take k (drop 10 (ctx ?c2))"
    using finished_delivers [OF w2(1,2) env(3-5) k(1)] by blast
  let ?d3 = "?d2\<lparr>card_to_usb := [], d_timeout := 0, d_ccid := st1, card_locked_itf := ITF_TOTAL\<rparr>"
  have i2: "w_offset (d_hid ?d2) = 0" "last_packet_time (d_hid ?d2) = 0" "w_len (d_hid ?d2) = 0" "card_starts (d_hid ?d2) = []"
    "card_locked_itf ?d2 \<noteq> ITF_HID" using hid nl(2) by simp_all
  have "ccid_event_handle e2 ?d2 = Some ?d2"
    using ccid_idle_turn [of ?c2 "on_ccid e2"] w2 by (simp add: ccid_event_handle_def)
  from ccid_turn [OF i2 env(2) this] w2(5) have "usb_task e2 ?d2 = card_message e2 ITF_CCID ?d2" by simp
  moreover have "card_message e2 ITF_CCID ?d2 = Some ?d3"
    using f(1) nl(2) by (simp add: card_message_def exec_finished_def)
  ultimately have t3: "usb_task e2 ?d2 = Some ?d3" by (rule trans)
  have "concat (sent st2) = concat (sent (d_ccid d)) @
      ccid_head CCID_DATA_BLOCK_RET k (c_rx (d_ccid d) ! 6) (ccid_status (d_ccid d)) 0 @ take k (drop 10 (tx a))"
    using f(3) by (simp add: handed_over_def ctx_def)
  then show ?thesis using t1 t2 t3 f(2) dev(4)
    by (intro exI [of _ ?d1] exI [of _ ?d2] exI [of _ ?d3] exI [of _ st2]) simp
qed

text \<open>
  A command that is taken in while the other interface is being worked on moves the lock: the result of the first one goes
  out over the second interface.
\<close>

lemma lock_moves: "command_available e itf d = Some d' \<Longrightarrow> card_locked_itf d' = itf" 
  by (auto simp: command_available_def bind_eq_Some_conv)

definition sample_device :: device where
  "sample_device = \<lparr>d_hid = idle_hid, d_ccid = sample_ccid [0x6F, 5, 0, 0, 0, 0, 9, 0, 0, 0, 0, 0xA4, 4, 0, 3], card_locked_itf = ITF_TOTAL,
     usb_to_card = [], card_to_usb = [], d_timeout = 0, finished_data_size = 0, core1 = Some Apdu_thread\<rparr>"

definition sample_loop :: loop_env where
  "sample_loop = \<lparr>on_hid = sample_env, on_ccid = slow_stack, mounted_hid = True, mounted_ccid = True, button_timed_out = False\<rparr>"

definition sample_work :: "worker \<Rightarrow> bool \<Rightarrow> device \<Rightarrow> (nat \<times> device) option" where
  "sample_work w refused x = Some (2, x\<lparr>d_ccid := (d_ccid x)\<lparr>capdu := (capdu (d_ccid x))\<lparr>tx := replicate 4160 0x90\<rparr>\<rparr>\<rparr>)"

theorem usb_exchange_witness:
  "\<exists>d1 d2 d3 c. usb_task sample_loop sample_device = Some d1 \<and> card_thread sample_work d1 = Some d2 \<and> usb_task sample_loop d2 = Some d3 \<and>
    flushes (replicate 12 slow_stack) (d_ccid d3) = Some c \<and> concat (sent c) = [0x80, 2, 0, 0, 0, 0, 9, 1, 0, 0, 0x90, 0x90]"
proof -
  let ?m = "[0x6F, 5, 0, 0, 0, 0, 9, 0, 0, 0, 0, 0xA4, 4, 0, 3] :: bytes" and ?d = sample_device
  have d: "d_ccid ?d = sample_ccid ?m" "d_hid ?d = idle_hid" "card_locked_itf ?d = ITF_TOTAL" "usb_to_card ?d = []" "card_to_usb ?d = []"
    "core1 ?d = Some Apdu_thread" by (simp_all add: sample_device_def)
  have s: "wf_ccid (d_ccid ?d)" "c_wlen (d_ccid ?d) = 0" "card_calls (d_ccid ?d) = []" "10 \<le> c_woff (d_ccid ?d)" "le_val (take 4 (drop 1 (c_rx (d_ccid ?d)))) = 5"
    "5 \<le> c_woff (d_ccid ?d) - 10" "c_rx (d_ccid ?d) ! 0 = CCID_XFR_BLOCK"
    "apdu_parse (data_off (capdu (d_ccid ?d))) (drop 10 (c_rx (d_ccid ?d))) 5 = Some (0, 3, 0)" "c_rx (d_ccid ?d) ! 11 \<noteq> 0xc0"
    unfolding d using sample_ccid_wf [of ?m] by (simp_all add: sample_ccid_def ccid_types apdu_parse_def rd_def or_max_def)
  have h: "w_offset (d_hid ?d) = 0" "last_packet_time (d_hid ?d) = 0" "w_len (d_hid ?d) = 0" "card_starts (d_hid ?d) = []"
    unfolding d by (simp_all add: idle_hid_def)
  let ?a = "(capdu (handed_over 0 3 0 (d_ccid ?d)))\<lparr>tx := replicate 4160 0x90\<rparr>"
  have e: "mounted_ccid sample_loop" "stack_ok (on_ccid sample_loop)" "list_all stack_ok (replicate 12 slow_stack)" "2 + 10 \<le> length (replicate 12 slow_stack)"
    using slow_stack_ok by (simp_all add: sample_loop_def list_all_iff)
  have w: "\<And>x. capdu (d_ccid x) = capdu (handed_over 0 3 0 (d_ccid ?d)) \<Longrightarrow>
      sample_work Apdu_thread False x = Some (2, x\<lparr>d_ccid := (d_ccid x)\<lparr>capdu := ?a\<rparr>\<rparr>)" by (simp add: sample_work_def)
  have k: "(2 :: nat) \<le> 4150" "length (tx ?a) = 4160" by simp_all
  have c: "sent (d_ccid ?d) = []" "c_rx (d_ccid ?d) ! 6 = 9" "ccid_status (d_ccid ?d) = 1" unfolding d by (simp_all add: sample_ccid_def)
  have b: "ccid_head CCID_DATA_BLOCK_RET 2 9 1 0 = [0x80, 2, 0, 0, 0, 0, 9, 1, 0, 0]" by (simp add: head_bytes ccid_types)
  have x: "take 2 (drop 10 (tx ?a)) = [0x90, 0x90]" by (simp add: numeral_2_eq_2)
  have y: "concat (sent (d_ccid ?d)) @ ccid_head CCID_DATA_BLOCK_RET 2 (c_rx (d_ccid ?d) ! 6) (ccid_status (d_ccid ?d)) 0 @ take 2 (drop 10 (tx ?a)) =
    [0x80, 2, 0, 0, 0, 0, 9, 1, 0, 0, 0x90, 0x90]" unfolding c b x by simp
  from usb_exchange [where work = sample_work, OF h s(1-3) s(4-6) s(7) s(8-9) d(3-6) e(1) e(1) e(2-4) w k] show ?thesis unfolding y by blast
qed

end
