(* ===== verification/Button.thy ===== *)
theory Button
  imports Prelude
begin

text \<open>
  The button, \<^verbatim>\<open>pico-keys-sdk/src/main.c\<close>: the waiting for a confirmation (\<^verbatim>\<open>wait_button\<close>), over the samples of the button, of
  \<^verbatim>\<open>cancel_button\<close> and of the clock that its loops see, and the counting of presses in the main loop.  Times are milliseconds in
  32 bits.
\<close>

section \<open>The confirmation\<close>

text \<open>A sample: the button is down, the host has cancelled, and the time after the tasks of this turn.\<close>

type_synonym sample = "bool \<times> bool \<times> u32"

text \<open>
  A loop that goes on while the button is at \<open>level\<close>: whether the time was over, whether it was cancelled, and the samples that
  are left; \<open>None\<close> while it still waits.
\<close>

fun wait_while :: "bool \<Rightarrow> u32 \<Rightarrow> u32 \<Rightarrow> sample list \<Rightarrow> (bool \<times> bool \<times> sample list) option" where
  "wait_while level start limit [] = None"
| "wait_while level start limit ((down, cancel, now) # s) =
     (if down \<noteq> level \<or> cancel then Some (False, cancel, s)
      else if start + limit < now then Some (True, cancel, s)
      else wait_while level start limit s)"

text \<open>True: nobody has confirmed.\<close>

definition wait_button :: "u32 \<Rightarrow> u32 \<Rightarrow> sample list \<Rightarrow> bool option" where
  "wait_button start button_timeout s = do {
     (timeout, cancel, s) \<leftarrow> wait_while False start button_timeout s;
     if timeout then Some True
     else if cancel then Some True
     else do {
       (timeout, cancel, s) \<leftarrow> wait_while True start 15000 s;
       Some (timeout \<or> cancel)
     }
   }"

definition quiet :: "bool \<Rightarrow> u32 \<Rightarrow> u32 \<Rightarrow> sample \<Rightarrow> bool" where
  "quiet level start limit x \<longleftrightarrow> fst x = level \<and> \<not> fst (snd x) \<and> \<not> start + limit < snd (snd x)"

lemma wait_while_over:
  "wait_while level start limit s = Some (False, False, r) \<longleftrightarrow>
     (\<exists>xs t. s = xs @ (\<not> level, False, t) # r \<and> list_all (quiet level start limit) xs)"
proof (induction s)
  case (Cons x s)
  obtain d c n where x: "x = (d, c, n)" by (cases x)
  show ?case
  proof (cases "quiet level start limit x")
    case True
    then have "wait_while level start limit (x # s) = wait_while level start limit s" by (simp add: x quiet_def)
    moreover have "(\<exists>xs t. x # s = xs @ (\<not> level, False, t) # r \<and> list_all (quiet level start limit) xs) \<longleftrightarrow>
       (\<exists>xs t. s = xs @ (\<not> level, False, t) # r \<and> list_all (quiet level start limit) xs)" (is "?l = ?r")
    proof
      assume ?l
      then obtain xs t where s: "x # s = xs @ (\<not> level, False, t) # r" "list_all (quiet level start limit) xs" by blast
      then obtain ys where "xs = x # ys" using True by (cases xs) (auto simp: quiet_def)
      then show ?r using s by auto
    next
      assume ?r
      then obtain xs t where "s = xs @ (\<not> level, False, t) # r" "list_all (quiet level start limit) xs" by blast
      then show ?l using True by (intro exI [of _ "x # xs"] exI [of _ t]) simp
    qed
    ultimately show ?thesis using Cons.IH by simp
  next
    case False
    have "(\<exists>xs t. x # s = xs @ (\<not> level, False, t) # r \<and> list_all (quiet level start limit) xs) \<longleftrightarrow> (\<exists>t. x = (\<not> level, False, t)) \<and> s = r"
      using False by (auto simp: Cons_eq_append_conv)
    moreover have "wait_while level start limit (x # s) = Some (False, False, r) \<longleftrightarrow> (\<exists>t. x = (\<not> level, False, t)) \<and> s = r"
      using False by (cases level; cases d; cases c; cases "start + limit < n") (simp_all add: x quiet_def)
    ultimately show ?thesis by simp
  qed
qed simp

text \<open>
  C30: a confirmation is only reported when the button was seen down after the request and then seen released, each of the two within its
  time, and the host has cancelled at no point before; and whenever this happens it is reported.  That the button was up
  before is not asked for: one that is held down from before counts.
\<close>

theorem presence_needs_press:
  "wait_button start limit s = Some False \<longleftrightarrow>
     (\<exists>xs t1 ys t2 zs. s = xs @ (True, False, t1) # ys @ (False, False, t2) # zs \<and>
        list_all (quiet False start limit) xs \<and> list_all (quiet True start 15000) ys)"
proof
  assume "wait_button start limit s = Some False"
  then obtain r where "wait_while False start limit s = Some (False, False, r)" "\<exists>z. wait_while True start 15000 r = Some (False, False, z)"
    by (auto simp: wait_button_def bind_eq_Some_conv split: if_splits)
  then show "\<exists>xs t1 ys t2 zs. s = xs @ (True, False, t1) # ys @ (False, False, t2) # zs \<and>
        list_all (quiet False start limit) xs \<and> list_all (quiet True start 15000) ys"
    by (simp add: wait_while_over) blast
next
  assume "\<exists>xs t1 ys t2 zs. s = xs @ (True, False, t1) # ys @ (False, False, t2) # zs \<and>
        list_all (quiet False start limit) xs \<and> list_all (quiet True start 15000) ys"
  then obtain xs t1 ys t2 zs where s: "s = xs @ (True, False, t1) # ys @ (False, False, t2) # zs"
    "list_all (quiet False start limit) xs" "list_all (quiet True start 15000) ys" by blast
  have "wait_while False start limit s = Some (False, False, ys @ (False, False, t2) # zs)" using s(1,2) by (auto simp: wait_while_over)
  moreover have "wait_while True start 15000 (ys @ (False, False, t2) # zs) = Some (False, False, zs)" using s(3) by (auto simp: wait_while_over)
  ultimately show "wait_button start limit s = Some False" by (simp add: wait_button_def)
qed

section \<open>Presses\<close>

record button =
  button_pressed_state :: bool
  button_pressed_time :: u32
  button_press :: u8

text \<open>One turn of the main loop; the result is the number with which \<^verbatim>\<open>button_pressed_cb\<close> is called.\<close>

definition button_turn :: "u32 \<Rightarrow> bool \<Rightarrow> bool \<Rightarrow> button \<Rightarrow> u8 option \<times> button" where
  "button_turn now is_busy current b =
     (if now > 1000 \<and> \<not> is_busy then
        let b = (if current \<noteq> button_pressed_state b then
                   (if \<not> current then
                      (if button_pressed_time b = 0 \<or> button_pressed_time b + 1000 > now
                       then b\<lparr>button_press := button_press b + 1\<rparr> else b)\<lparr>button_pressed_time := now\<rparr>
                    else b)\<lparr>button_pressed_state := current\<rparr>
                 else b)
        in if button_pressed_time b > 0 \<and> button_press b > 0 \<and> button_pressed_time b + 1000 < now \<and> \<not> button_pressed_state b
           then (Some (button_press b), b\<lparr>button_pressed_time := 0, button_press := 0\<rparr>)
           else (None, b)
      else (None, b))"

fun button_run :: "(u32 \<times> bool) list \<Rightarrow> button \<Rightarrow> u8 list \<times> button" where
  "button_run [] b = ([], b)"
| "button_run ((now, current) # s) b =
     (let (r, b) = button_turn now False current b; (rs, b) = button_run s b
      in ((case r of None \<Rightarrow> rs | Some n \<Rightarrow> n # rs), b))"

text \<open>The releases in a list of samples, and the last one.\<close>

fun releases :: "bool \<Rightarrow> (u32 \<times> bool) list \<Rightarrow> u32 list" where
  "releases level [] = []"
| "releases level ((now, current) # s) = (if level \<and> \<not> current then now # releases current s else releases current s)"

fun final_level :: "bool \<Rightarrow> (u32 \<times> bool) list \<Rightarrow> bool" where
  "final_level level [] = level"
| "final_level level ((_, current) # s) = final_level current s"

text \<open>The samples come after the first second, before the clock ends, and less than a second after the last release before, if any (\<open>l\<close>).\<close>

fun lively :: "bool \<Rightarrow> u32 option \<Rightarrow> (u32 \<times> bool) list \<Rightarrow> bool" where
  "lively level l [] = True"
| "lively level l ((now, current) # s) \<longleftrightarrow>
     1000 < unat now \<and> unat now + 1001 < 2 ^ 32 \<and> (case l of None \<Rightarrow> True | Some t \<Rightarrow> unat t \<le> unat now \<and> unat now < unat t + 1000) \<and>
     lively current (if level \<and> \<not> current then Some now else l) s"

definition counting :: "bool \<Rightarrow> u32 option \<Rightarrow> nat \<Rightarrow> button" where
  "counting level l n = \<lparr>button_pressed_state = level, button_pressed_time = (case l of None \<Rightarrow> 0 | Some t \<Rightarrow> t), button_press = of_nat n\<rparr>"

lemma time_add: "unat (t :: u32) + 1001 < 2 ^ 32 \<Longrightarrow> unat (t + 1000) = unat t + 1000"
  by (subst unat_add_lem [THEN iffD1]) simp_all


lemma counting_turn:
  assumes now: "1000 < unat now" "unat now + 1001 < 2 ^ 32" and l: "\<forall>t. l = Some t \<longrightarrow> 1000 < unat t \<and> unat t \<le> unat now \<and> unat now < unat t + 1000"
  shows "button_turn now False current (counting level l n) =
    (None, counting current (if level \<and> \<not> current then Some now else l) (if level \<and> \<not> current then n + 1 else n))"
proof -
  have n: "now > 1000" "now > 0" "\<not> now + 1000 < now" using now time_add [OF now(2)] by (simp_all add: word_less_nat_alt)
  show ?thesis
  proof (cases l)
    case None
    then show ?thesis using n by (cases level; cases current) (simp_all add: button_turn_def counting_def Let_def add.commute)
  next
    case (Some t)
    then have t: "1000 < unat t" "unat t \<le> unat now" "unat now < unat t + 1000" using l by auto
    have "unat t + 1001 < 2 ^ 32" using t(2) now(2) by simp
    then have "t + 1000 > now" "\<not> t + 1000 < now" "t > 0" using time_add [of t] t by (simp_all add: word_less_nat_alt)
    then show ?thesis using n Some by (cases level; cases current) (simp_all add: button_turn_def counting_def Let_def add.commute)
  qed
qed

lemma counting_run:
  assumes "lively level l s" and "\<forall>t. l = Some t \<longrightarrow> 1000 < unat t"
  shows "button_run s (counting level l n) =
    ([], counting (final_level level s) (if releases level s = [] then l else Some (last (releases level s))) (n + length (releases level s)))"
  using assms
proof (induction level s arbitrary: l n rule: final_level.induct)
  case (2 level now current s)
  let ?l = "if level \<and> \<not> current then Some now else l"
  have a: "1000 < unat now" "unat now + 1001 < 2 ^ 32" "\<forall>t. l = Some t \<longrightarrow> 1000 < unat t \<and> unat t \<le> unat now \<and> unat now < unat t + 1000"
    "lively current ?l s" "\<forall>t. ?l = Some t \<longrightarrow> 1000 < unat t" using 2(2,3) by auto
  show ?case using counting_turn [OF a(1-3), of current level n] 2(1) [OF a(4,5)] by auto
qed simp

text \<open>
  the main loop counts presses: from rest, while the samples of the button are less than a second behind the last release, nothing
  is reported; when then the button is up for more than a second after its last release, the callback gets the number of
  releases, modulo 256, and the button is at rest again.
\<close>

theorem presses_counted:
  assumes "lively False None s" and "\<not> final_level False s" and "releases False s \<noteq> []" and "length (releases False s) mod 256 \<noteq> 0"
    and "unat (last (releases False s)) + 1000 < unat now"
  shows "button_run (s @ [(now, False)]) (counting False None 0) = ([of_nat (length (releases False s))], counting False None 0)"
proof -
  have app: "button_run (xs @ ys) b = (let (r1, b) = button_run xs b; (r2, b) = button_run ys b in (r1 @ r2, b))" for xs ys b
    by (induction xs b rule: button_run.induct) (auto simp: Let_def split: prod.splits option.splits)
  let ?t = "last (releases False s)" and ?n = "length (releases False s)"
  have r: "button_run s (counting False None 0) = ([], counting False (Some ?t) ?n)" using counting_run [OF assms(1), of 0] assms(2,3) by simp
  have b: "x \<in> set (releases level s) \<Longrightarrow> lively level l s \<Longrightarrow> 1000 < unat x \<and> unat x + 1001 < 2 ^ 32" for x level l
    by (induction level s arbitrary: l rule: final_level.induct) (auto split: if_splits)
  have t: "1000 < unat ?t" "unat ?t + 1001 < 2 ^ 32" using b [of ?t False None] assms(1,3) by auto
  have u: "now > 1000" "?t > 0" "?t + 1000 < now" using t time_add [OF t(2)] assms(5) by (simp_all add: word_less_nat_alt)
  have "(of_nat ?n :: u8) \<noteq> 0" using assms(4) by (simp add: word_of_nat_eq_0_iff dvd_eq_mod_eq_0)
  then have "(of_nat ?n :: u8) > 0" by (simp add: word_gt_0)
  then have "button_turn now False False (counting False (Some ?t) ?n) = (Some (of_nat ?n), counting False None 0)"
    using u by (simp add: button_turn_def counting_def)
  then show ?thesis using r by (simp add: app)
qed

theorem presses_counted_witness:
  "button_run [(2000, True), (2100, False), (2500, True), (2600, False), (3700, False)] (counting False None 0) = ([2], counting False None 0)"
  using presses_counted [of "[(2000, True), (2100, False), (2500, True), (2600, False)]" 3700] by simp

end
