(* ===== verification/Spec2Isabelle.thy ===== *)
theory Spec2Isabelle
  imports Asn1 LowFlash Flash FileSys Apdu Hid Applet Management OathCreds OtpFrames OtpSlots PinProps LargeBlobProps CredMgmtProps U2fProps MainProps UsbLoop Button
begin

text \<open>
  Verification of the firmware of a FIDO2 token: the application in \<^verbatim>\<open>src/fido\<close> and the device library in
  \<^verbatim>\<open>pico-keys-sdk/src\<close>, in the configuration of the board (USB HID and CCID, no emulation, pointers of four bytes).

  \<^bold>\<open>The parts.\<close>  Packets come in over USB: \<^verbatim>\<open>usb/hid/hid.c\<close> puts the frames of CTAPHID together and hands complete messages
  to the commands; APDUs go through \<^verbatim>\<open>apdu.c\<close>.  \<^verbatim>\<open>main.c\<close> selects an application: FIDO, OATH, OTP or the management
  applet.  The applications keep their state in files: \<^verbatim>\<open>fs/file.c\<close> has a static and a dynamic table of files,
  \<^verbatim>\<open>fs/flash.c\<close> keeps their contents as linked records in two pools of the flash, and \<^verbatim>\<open>fs/low_flash.c\<close> caches flash
  sectors until they are written back.

  \<^bold>\<open>The theories.\<close>
  \<^item> \<open>Prelude\<close>: bytes and words, reads and writes that may leave a buffer (\<open>None\<close>), little-endian values.
  \<^item> \<open>Asn1\<close> (\<^verbatim>\<open>asn1.c\<close>): writing and searching of TLV objects; the search finds what was written, and where it may read.
  \<^item> \<open>LowFlash\<close> (\<^verbatim>\<open>low_flash.c\<close>): the cache of sectors; it refines a flat memory, the locale \<open>flat_mem\<close>, whose laws the
    allocator above rests on.
  \<^item> \<open>Flash\<close> (\<^verbatim>\<open>flash.c\<close>): the list of records in a pool; allocation, clearing and rewriting keep it well-linked.
  \<^item> \<open>FileSys\<close> (\<^verbatim>\<open>file.c\<close>, \<^verbatim>\<open>files.c\<close>): the tables of files over a store of records; the locale \<open>file_contract\<close> is
    what the applications rely on, interpreted on the operations of the code; the scan at a start restores the contents.
  \<^item> \<open>Apdu\<close> (\<^verbatim>\<open>apdu.c\<close>): the fields of a command, and responses in parts.
  \<^item> \<open>Hid\<close> (\<^verbatim>\<open>hid.c\<close>, \<^verbatim>\<open>usb.c\<close>): reassembly and fragmentation of messages, the keyboard.
  \<^item> \<open>Applet\<close> (\<^verbatim>\<open>main.c\<close>, \<^verbatim>\<open>crypto_utils.c\<close>): what the applications share: status words, hashes, access to files.
  \<^item> \<open>Management\<close> (\<^verbatim>\<open>management.c\<close>): the configuration of the applications.
  \<^item> \<open>Oath\<close>, \<open>OathPin\<close>, \<open>OathCreds\<close> (\<^verbatim>\<open>oath.c\<close>): all commands of the OATH application; its PIN and access code; its
    credentials and counters.
  \<^item> \<open>Otp\<close>, \<open>OtpFrames\<close>, \<open>OtpSlots\<close> (\<^verbatim>\<open>otp.c\<close>): the slots, the button and the feature reports; frames with their
    checksum; configurations and counters.
  \<^item> \<open>Cbor\<close> (\<^verbatim>\<open>ctap2_cbor.h\<close>, \<^verbatim>\<open>cbor.c\<close>): reading of parameters, macro by macro.
  \<^item> \<open>Ctap\<close>, \<open>ClientPin\<close>, \<open>PinProps\<close> (\<^verbatim>\<open>cbor_client_pin.c\<close>): the state of the CTAP2 commands as one record, the token, the
    two PIN protocols; all subcommands; tries, tokens and the setting of a PIN.
  \<^item> \<open>LargeBlobs\<close>, \<open>LargeBlobProps\<close> (\<^verbatim>\<open>cbor_large_blobs.c\<close>): the blob in fragments; an upload as a whole.
  \<^item> \<open>DeviceKey\<close>, \<open>DeviceProps\<close> (\<^verbatim>\<open>fido.c\<close>): the device key, keys derived from it, the files of the first start.
  \<^item> \<open>Credential\<close>, \<open>CredProps\<close>, \<open>CredStore\<close> (\<^verbatim>\<open>credential.c\<close>): the identifiers that carry encrypted credentials, the
    resident credentials and the counts of their relying parties; the locale \<open>slot_search\<close> is the search for a place.
  \<^item> \<open>Vendor\<close>, \<open>AuthConfig\<close>, \<open>LockProps\<close> (\<^verbatim>\<open>cbor_vendor.c\<close>, \<^verbatim>\<open>cbor_config.c\<close>): the lock of the device key, its backup and the
    secure channel, the least length of a PIN; what is locked can be unlocked, and what needs a token.
  \<^item> \<open>Cose\<close>, \<open>CredMgmt\<close>, \<open>CredMgmtProps\<close> (\<^verbatim>\<open>cbor.c\<close>, \<^verbatim>\<open>cbor_cred_mgmt.c\<close>): public keys in CBOR; counting, listing, deleting
    and updating of resident credentials.  The counts of the relying parties stay right, the listing gives each one once, and
    files change only with a token.
  \<^item> \<open>U2f\<close>, \<open>U2fProps\<close> (\<^verbatim>\<open>cmd_register.c\<close>, \<^verbatim>\<open>cmd_authenticate.c\<close>, \<^verbatim>\<open>cmd_version.c\<close>): the U2F application; what is
    registered can be authenticated.
  \<^item> \<open>KnownApps\<close>, \<open>MakeCred\<close>, \<open>MakeProps\<close> (\<^verbatim>\<open>known_apps.c\<close>, \<^verbatim>\<open>cbor_make_credential.c\<close>): making of credentials; what is made can
    be used for assertions.
  \<^item> \<open>Assertion\<close>, \<open>AssertProps\<close> (\<^verbatim>\<open>cbor_get_assertion.c\<close>): assertions and the ones that follow; the choice and the order of the
    credentials, and that protected ones need a token.
  \<^item> \<open>CtapMain\<close>, \<open>WellFormed\<close>, \<open>MainProps\<close> (\<^verbatim>\<open>cbor.c\<close>, \<^verbatim>\<open>cbor_get_info.c\<close>, \<^verbatim>\<open>cbor_reset.c\<close>, \<^verbatim>\<open>cbor_selection.c\<close>, \<^verbatim>\<open>fido.c\<close>): the
    dispatcher of the authenticator with its two entries.  \<open>token_reach\<close> are the states that the token can get to; all of them
    are well formed.  What a reset leaves, and which byte the host gets for a code.
  \<^item> \<open>Ccid\<close>, \<open>CcidProps\<close> (\<^verbatim>\<open>ccid.c\<close>): the smart card interface; every message gets its answer, whole, in pieces of any size.
  \<^item> \<open>UsbLoop\<close> (\<^verbatim>\<open>usb.c\<close>, \<^verbatim>\<open>apdu.c\<close>): the event loop over both interfaces, the queues and the other core; a command is
    answered and the interface unlocked.
  \<^item> \<open>Button\<close> (\<^verbatim>\<open>main.c\<close>): the confirmation by the button and the counting of presses.
  \<^item> \<open>Samples\<close>, \<open>SampleLib\<close>: file systems and libraries for concrete runs.

  \<^bold>\<open>How the code is translated.\<close>  Static variables of a file are the fields of a record that every operation takes and
  returns; a handler is one function, with its early returns as branches.  Buffers are lists of bytes: a read or write
  outside of them, a use of NULL or of memory that was not initialised, and a loop that does not end are the value
  \<open>None\<close>, so that a theorem which gives \<open>Some\<close> also says that the code has none of them on this path.  Integers keep
  their width as words where they can overflow.  Some handlers write a few bytes behind an array of the stack and go
  on; the model goes on too, and counts these bytes in \<open>overran\<close>.  Codes are integers, as in the code.

  The applications work on the files of \<open>FileSys\<close> through \<open>write_file\<close>, which stores a content whole; that the flash layer
  below does this byte by byte is what \<open>Flash\<close> and \<open>LowFlash\<close> show.  The place of a new record is chosen by a parameter
  of the file system, with the law that it is free.

  \<^bold>\<open>Parameters.\<close>  mbedtls (hashes, AES, ChaCha20-Poly1305, elliptic curves, certificates), the CBOR decoder (tinycbor, not part
  of the sources), the random generator, the clock, the board and the USB stack are parameters.  What is relied on are
  the sizes of results and that decryption inverts encryption (\<open>crypto_law\<close>, \<open>ctap_law\<close>); the laws hold for the samples.

  \<^bold>\<open>Bounds and fuel.\<close>  Loops over tables are recursions over lists of their indices.  The loop of the PIN hash over 256 bytes may not
  end and is a \<open>partial_function\<close>; the walk over the records of a pool stops at the 0 that ends the list, and the
  invariant of the pool gives its length.

  \<^bold>\<open>What is shown.\<close>  For each part that its operations do what they promise on every branch, keep the invariant of its state, and
  where they do not: the flaws of the code are stated as theorems about the same definitions.

  \<^bold>\<open>Not modelled.\<close>  USB descriptors, the callbacks that only pass on to the USB stack, the LED, the random pool and the start
  of the cores drive hardware; the loop that runs inside of the waiting for the button is not nested; \<^verbatim>\<open>eac.c\<close> is not used by this
  application; the emulation is not part of the firmware; mbedtls is a library of its own.
\<close>

end
